(* ===== verification/Peer_Prelude.thy ===== *)
theory Peer_Prelude
  imports Main "HOL-Library.Word" "HOL-Library.Monad_Syntax"
begin

text \<open>
  The vocabulary every component shares.

  \<^item> Machine integers are words of the width the C declaration gives
    (\<^verbatim>\<open>uint8_t\<close>, \<^verbatim>\<open>uint16_t\<close>, \<^verbatim>\<open>uint32_t\<close>, \<^verbatim>\<open>uint64_t\<close>); \<^verbatim>\<open>size_t\<close> and
    non-negative \<^verbatim>\<open>int\<close> counters are \<^typ>\<open>nat\<close>; return codes are \<^typ>\<open>int\<close>.
  \<^item> A C buffer of fixed size is a list of that many bytes. An access outside it is
    undefined behaviour in C; here the operation has the value \<^const>\<open>None\<close>. A function
    of type \<open>'a option\<close> is therefore one that may leave its buffers, and
    \<open>f x = Some y\<close> says that it does not. A C error code is an ordinary value inside
    \<^const>\<open>Some\<close>. The do-notation of \<^theory_text>\<open>Monad_Syntax\<close> threads the option.
  \<^item> \<open>htons\<close> and \<open>htonl\<close> followed by a store write the most significant byte first on
    every host, so a network-order field is \<open>be16\<close> or \<open>be32\<close> of the host value.
\<close>

unbundle bit_operations_syntax

type_synonym u8 = "8 word"
type_synonym u16 = "16 word"
type_synonym u32 = "32 word"
type_synonym u64 = "64 word"
type_synonym bytes = "8 word list"

named_theorems mem_simps \<open>reading and writing bounded buffers\<close>
named_theorems byte_order_simps \<open>big-endian and little-endian conversions\<close>

section \<open>Byte order\<close>

definition be16 :: "u16 \<Rightarrow> bytes" where
  "be16 w = [ucast (drop_bit 8 w), ucast w]"

definition be32 :: "u32 \<Rightarrow> bytes" where
  "be32 w = [ucast (drop_bit 24 w), ucast (drop_bit 16 w), ucast (drop_bit 8 w), ucast w]"

definition le32 :: "u32 \<Rightarrow> bytes" where
  "le32 w = rev (be32 w)"

fun of_be16 :: "bytes \<Rightarrow> u16" where
  "of_be16 (a # b # _) = push_bit 8 (ucast a) OR ucast b"
| "of_be16 _ = 0"

fun of_be32 :: "bytes \<Rightarrow> u32" where
  "of_be32 (a # b # c # d # _) =
     push_bit 24 (ucast a) OR push_bit 16 (ucast b) OR push_bit 8 (ucast c) OR ucast d"
| "of_be32 _ = 0"

lemma length_be16 [simp]: "length (be16 w) = 2"
  by (simp add: be16_def)

lemma length_be32 [simp]: "length (be32 w) = 4"
  by (simp add: be32_def)

lemma length_le32 [simp]: "length (le32 w) = 4"
  by (simp add: le32_def)

lemma of_be16_be16 [simp]: "of_be16 (be16 w @ r) = w"
  by (rule bit_word_eqI) (auto simp: be16_def bit_simps dest: bit_imp_le_length)

lemma of_be16_be16' [simp]: "of_be16 (be16 w) = w"
  using of_be16_be16 [of w "[]"] by simp

lemma of_be32_be32 [simp]: "of_be32 (be32 w @ r) = w"
proof (rule bit_word_eqI)
  fix n assume n: "n < LENGTH(32)"
  consider "n < 8" | "8 \<le> n" "n < 16" | "16 \<le> n" "n < 24" | "24 \<le> n"
    by linarith
  then show "bit (of_be32 (be32 w @ r)) n = bit w n"
    using n by cases (auto simp: be32_def bit_simps)
qed

lemma of_be32_be32' [simp]: "of_be32 (be32 w) = w"
  using of_be32_be32 [of w "[]"] by simp

lemma bit_byte_high [simp]: "bit (b :: u8) (8 + n) = False"
  "bit (b :: u8) (16 + n) = False" "bit (b :: u8) (24 + n) = False"
  using bit_imp_le_length by force+

text \<open>A byte is its eight bits.\<close>

lemma u8_eqI:
  fixes a b :: u8
  assumes "bit a 0 = bit b 0" "bit a 1 = bit b 1" "bit a 2 = bit b 2" "bit a 3 = bit b 3"
    "bit a 4 = bit b 4" "bit a 5 = bit b 5" "bit a 6 = bit b 6" "bit a 7 = bit b 7"
  shows "a = b"
proof (rule bit_word_eqI)
  fix n :: nat assume "n < LENGTH(8)"
  then have "n = 0 \<or> n = 1 \<or> n = 2 \<or> n = 3 \<or> n = 4 \<or> n = 5 \<or> n = 6 \<or> n = 7" by auto
  then show "bit a n = bit b n" using assms by auto
qed

lemma unat_u8 [simp]: "unat (b :: u8) < 256"
proof -
  have "unat b < 2 ^ LENGTH(8)" by (rule unsigned_less)
  then show ?thesis by simp
qed

lemma unat_u8_le [simp]: "\<not> 255 < unat (b :: u8)" "unat b \<le> 255"
  using unat_u8 [of b] by linarith+

lemma unat_u16 [simp]: "unat (b :: u16) < 65536"
proof -
  have "unat b < 2 ^ LENGTH(16)" by (rule unsigned_less)
  then show ?thesis by simp
qed

lemma be16_of_be16: "be16 (of_be16 [a, b]) = [a, b]"
  by (auto intro!: bit_word_eqI simp: be16_def bit_simps)

lemma be32_of_be32: "be32 (of_be32 [a, b, c, d]) = [a, b, c, d]"
  by (auto intro!: bit_word_eqI simp: be32_def bit_simps)

lemma be16_inject [simp]: "be16 v = be16 w \<longleftrightarrow> v = w"
  by (metis of_be16_be16')

lemma be32_inject [simp]: "be32 v = be32 w \<longleftrightarrow> v = w"
  by (metis of_be32_be32')

section \<open>Bounded buffers\<close>

definition mem_read :: "nat \<Rightarrow> nat \<Rightarrow> 'a list \<Rightarrow> 'a list option" where
  "mem_read off n buf = (if off + n \<le> length buf then Some (take n (drop off buf)) else None)"

definition mem_write :: "nat \<Rightarrow> 'a list \<Rightarrow> 'a list \<Rightarrow> 'a list option" where
  "mem_write off bs buf =
     (if off + length bs \<le> length buf
      then Some (take off buf @ bs @ drop (off + length bs) buf) else None)"

definition mem_get :: "nat \<Rightarrow> 'a list \<Rightarrow> 'a option" where
  "mem_get i buf = (if i < length buf then Some (buf ! i) else None)"

definition c_assert :: "bool \<Rightarrow> unit option" where
  "c_assert b = (if b then Some () else None)"

lemma c_assert_simps [simp]: "c_assert True = Some ()" "c_assert False = None"
  by (simp_all add: c_assert_def)

lemma c_assert_eq_Some [simp]: "c_assert b = Some u \<longleftrightarrow> b"
  by (simp add: c_assert_def)

lemma mem_read_Some [mem_simps]:
  "mem_read off n buf = Some r \<longleftrightarrow> off + n \<le> length buf \<and> r = take n (drop off buf)"
  by (auto simp: mem_read_def)

lemma mem_write_Some [mem_simps]:
  "mem_write off bs buf = Some r \<longleftrightarrow>
     off + length bs \<le> length buf \<and> r = take off buf @ bs @ drop (off + length bs) buf"
  by (auto simp: mem_write_def)

lemma mem_get_Some [mem_simps]: "mem_get i buf = Some x \<longleftrightarrow> i < length buf \<and> x = buf ! i"
  by (auto simp: mem_get_def)

lemma mem_write_length: "mem_write off bs buf = Some r \<Longrightarrow> length r = length buf"
  by (auto simp: mem_write_def split: if_splits)

lemma mem_write_append:
  "off = length pre \<Longrightarrow> length bs = length old \<Longrightarrow>
   mem_write off bs (pre @ old @ post) = Some (pre @ bs @ post)"
  by (simp add: mem_write_def)

lemma mem_read_append:
  "off = length pre \<Longrightarrow> n = length mid \<Longrightarrow> mem_read off n (pre @ mid @ post) = Some mid"
  by (simp add: mem_read_def)

lemma mem_write_fits:
  "off + length bs \<le> length buf \<Longrightarrow>
   mem_write off bs buf = Some (take off buf @ bs @ drop (off + length bs) buf)"
  by (simp add: mem_write_def)

lemma mem_write_overrun: "length buf < off + length bs \<Longrightarrow> mem_write off bs buf = None"
  by (simp add: mem_write_def)

lemma mem_read_overrun: "length buf < off + n \<Longrightarrow> mem_read off n buf = None"
  by (simp add: mem_read_def)

section \<open>C strings in byte arrays\<close>

text \<open>\<open>strlen\<close> of an array: the bytes before the first NUL; with no NUL inside the array
  the scan leaves it.\<close>

definition c_strlen :: "bytes \<Rightarrow> nat option" where
  "c_strlen a = (let n = length (takeWhile (\<lambda>b. b \<noteq> 0) a) in
     if n < length a then Some n else None)"

text \<open>The text a NUL-terminated array holds.\<close>

definition c_text :: "bytes \<Rightarrow> bytes option" where
  "c_text a = map_option (\<lambda>n. take n a) (c_strlen a)"

definition no_nul :: "bytes \<Rightarrow> bool" where
  "no_nul s \<longleftrightarrow> 0 \<notin> set s"

lemma takeWhile_no_nul [simp]:
  "no_nul s \<Longrightarrow> takeWhile (\<lambda>b. b \<noteq> 0) (s @ 0 # r) = s"
  "no_nul s \<Longrightarrow> takeWhile (\<lambda>b. b \<noteq> 0) s = s"
  by (induction s) (auto simp: no_nul_def)

lemma c_strlen_terminated: "no_nul s \<Longrightarrow> c_strlen (s @ 0 # r) = Some (length s)"
  by (simp add: c_strlen_def Let_def)

lemma c_text_terminated: "no_nul s \<Longrightarrow> c_text (s @ 0 # r) = Some s"
  by (simp add: c_text_def c_strlen_terminated)

lemma c_strlen_unterminated: "no_nul s \<Longrightarrow> c_strlen s = None"
  by (simp add: c_strlen_def Let_def)

lemma c_strlen_le: "c_strlen a = Some n \<Longrightarrow> n < length a"
  by (auto simp: c_strlen_def Let_def split: if_splits)

section \<open>Lists\<close>

lemma length_2_conv: "length xs = 2 \<longleftrightarrow> (\<exists>a b. xs = [a, b])"
  by (auto simp: numeral_eq_Suc length_Suc_conv)

lemma length_4_conv: "length xs = 4 \<longleftrightarrow> (\<exists>a b c d. xs = [a, b, c, d])"
  by (auto simp: numeral_eq_Suc length_Suc_conv)

text \<open>A list of at least \<open>k + n\<close> elements, cut after \<open>k\<close> and after \<open>n\<close> more.\<close>

lemma list_cut:
  assumes "k + n \<le> length xs"
  obtains h x r where "xs = h @ x @ r" "length h = k" "length x = n"
proof -
  have "xs = take k xs @ take n (drop k xs) @ drop n (drop k xs)" by (simp only: append_take_drop_id)
  then show ?thesis using assms that [of "take k xs" "take n (drop k xs)"] by simp
qed

lemma take_drop_split: "n \<le> length xs \<Longrightarrow> take n xs @ drop n xs = xs"
  by simp

lemma concat_map_append: "concat (map f (xs @ ys)) = concat (map f xs) @ concat (map f ys)"
  by simp

lemma sum_list_map_length_concat: "length (concat xss) = sum_list (map length xss)"
  by (simp add: length_concat)

end
