(* ===== verification/C_Text.thy ===== *)
theory C_Text
  imports Peer_Prelude
begin

text \<open>
  Text in the C code: string literals as bytes, decimal conversion (\<open>%d\<close>, \<open>%u\<close>, \<open>atoi\<close>), the
  searches of \<open>string.h\<close> and bounded printing. A C string is modelled by the bytes before its
  NUL; arrays that hold one are unpacked with \<^const>\<open>c_text\<close>.
\<close>

section \<open>Literals and characters\<close>

definition str :: "string \<Rightarrow> bytes" where
  "str s = map of_char s"

lemma str_simps [simp]: "str [] = []" "str (c # s) = of_char c # str s"
  by (simp_all add: str_def)

lemma str_append: "str (s @ t) = str s @ str t"
  by (simp add: str_def)

definition is_digit :: "u8 \<Rightarrow> bool" where "is_digit b \<longleftrightarrow> 48 \<le> b \<and> b \<le> 57"

text \<open>The characters \<open>isspace\<close> and the white space of \<open>scanf\<close> accept.\<close>

definition is_space :: "u8 \<Rightarrow> bool" where
  "is_space b \<longleftrightarrow> b = 32 \<or> (9 \<le> b \<and> b \<le> 13)"

section \<open>Decimal numbers\<close>

definition digit :: "nat \<Rightarrow> u8" where "digit n = of_nat (48 + n)"
definition digit_val :: "u8 \<Rightarrow> nat" where "digit_val b = unat b - 48"

fun dec :: "nat \<Rightarrow> bytes" where
  "dec n = (if n < 10 then [digit n] else dec (n div 10) @ [digit (n mod 10)])"

declare dec.simps [simp del]

lemma length_dec_le: "n < 10 ^ k \<Longrightarrow> 0 < k \<Longrightarrow> length (dec n) \<le> k"
proof (induction n arbitrary: k rule: dec.induct)
  case (1 n)
  show ?case
  proof (cases "n < 10")
    case False
    with "1.prems" obtain j where k: "k = Suc j" "0 < j" by (cases k; cases "k = 1") auto
    then have "n div 10 < 10 ^ j" using "1.prems"(1) by (simp add: div_less_iff_less_mult mult.commute)
    from "1.IH" [OF False this k(2)] False k show ?thesis by (subst dec.simps) simp
  qed (use "1.prems" in \<open>subst dec.simps, simp\<close>)
qed

definition num_of :: "bytes \<Rightarrow> nat" where
  "num_of = foldl (\<lambda>a d. a * 10 + digit_val d) 0"

text \<open>The longest run of digits, if there is one: its value and the rest.\<close>

definition scan_dec :: "bytes \<Rightarrow> (nat \<times> bytes) option" where
  "scan_dec s = (let ds = takeWhile is_digit s in
     if ds = [] then None else Some (num_of ds, dropWhile is_digit s))"

lemma digit_props: "n < 10 \<Longrightarrow> is_digit (digit n) \<and> digit_val (digit n) = n \<and> digit n \<noteq> 0"
proof -
  assume n: "n < 10"
  then have "unat (digit n) = 48 + n" by (simp only: digit_def unat_of_nat) simp
  then show ?thesis
    by (auto simp: is_digit_def digit_val_def word_le_nat_alt n less_imp_le dest: arg_cong [where f = unat])
       (use n in simp)
qed

lemma digits_dec: "(\<forall>b \<in> set (dec n). is_digit b \<and> b \<noteq> 0) \<and> dec n \<noteq> [] \<and> num_of (dec n) = n"
proof (induction n rule: dec.induct)
  case (1 n)
  show ?case
  proof (cases "n < 10")
    case True
    then show ?thesis using digit_props [OF True] by (subst (1 2 3) dec.simps) (simp add: num_of_def)
  next
    case False
    then show ?thesis using 1 digit_props [of "n mod 10"]
      by (subst (1 2 3) dec.simps) (auto simp: num_of_def)
  qed
qed

lemma dec_not_Nil [simp]: "dec n \<noteq> []" using digits_dec by blast

lemma no_nul_dec [simp]: "no_nul (dec n)"
  using digits_dec by (auto simp: no_nul_def)

lemma scan_dec_dec:
  assumes "r = [] \<or> \<not> is_digit (hd r)"
  shows "scan_dec (dec n @ r) = Some (n, r)"
proof -
  have d: "\<forall>b \<in> set (dec n). is_digit b" using digits_dec by blast
  then have "takeWhile is_digit (dec n @ r) = dec n" "dropWhile is_digit (dec n @ r) = r"
    using assms by (simp_all add: takeWhile_append dropWhile_append takeWhile_eq_Nil_iff)
      (cases r; auto)+
  then show ?thesis using digits_dec [of n] by (simp add: scan_dec_def)
qed

lemma dec_inject [simp]: "dec m = dec n \<longleftrightarrow> m = n"
  using digits_dec by metis


section \<open>Searching and scanning\<close>

text \<open>\<open>strncmp(p, s, strlen(p)) == 0\<close> for a literal \<open>p\<close>.\<close>

definition starts_with :: "bytes \<Rightarrow> bytes \<Rightarrow> bool" where
  "starts_with p s \<longleftrightarrow> take (length p) s = p"

text \<open>\<open>strstr\<close>: the offset of the first occurrence.\<close>

fun strstr :: "bytes \<Rightarrow> bytes \<Rightarrow> nat option" where
  "strstr [] p = (if p = [] then Some 0 else None)"
| "strstr (c # s) p = (if starts_with p (c # s) then Some 0 else map_option Suc (strstr s p))"

text \<open>\<open>%s\<close> of \<open>scanf\<close>: white space is skipped, the bytes up to the next white space are the value.\<close>

definition scan_token :: "bytes \<Rightarrow> (bytes \<times> bytes) option" where
  "scan_token s = (let s = dropWhile is_space s; t = takeWhile (\<lambda>b. \<not> is_space b) s in
     if t = [] then None else Some (t, dropWhile (\<lambda>b. \<not> is_space b) s))"

text \<open>\<open>%d\<close> and \<open>%u\<close>: white space, a sign, digits.\<close>

definition scan_int :: "bytes \<Rightarrow> (int \<times> bytes) option" where
  "scan_int s = (let s = dropWhile is_space s in
     case s of [] \<Rightarrow> None
     | c # r \<Rightarrow>
         if c = 45 then map_option (\<lambda>(n, r). (- int n, r)) (scan_dec r)
         else if c = 43 then map_option (\<lambda>(n, r). (int n, r)) (scan_dec r)
         else map_option (\<lambda>(n, r). (int n, r)) (scan_dec s))"

text \<open>\<open>atoi\<close>: 0 if there is no number.\<close>

definition atoi :: "bytes \<Rightarrow> int" where
  "atoi s = (case scan_int s of None \<Rightarrow> 0 | Some (n, _) \<Rightarrow> n)"

text \<open>\<open>%d\<close> of \<open>printf\<close>.\<close>

definition dec_int :: "int \<Rightarrow> bytes" where
  "dec_int n = (if n < 0 then 45 # dec (nat (- n)) else dec (nat n))"

text \<open>\<open>snprintf(buf, size, ...)\<close> of a text into a place of \<open>size\<close> bytes: what is stored before the NUL.\<close>

definition snprintf_text :: "nat \<Rightarrow> bytes \<Rightarrow> bytes" where
  "snprintf_text sz t = take (sz - 1) t"

lemma starts_with_append [simp]: "starts_with p (p @ s)"
  by (simp add: starts_with_def)

lemma starts_withD: "starts_with p s \<Longrightarrow> \<exists>r. s = p @ r"
  by (metis append_take_drop_id starts_with_def)

lemma starts_with_Cons [simp]: "starts_with (a # p) (b # s) \<longleftrightarrow> a = b \<and> starts_with p s" "starts_with [] s"
  "\<not> starts_with (a # p) []"
  by (auto simp: starts_with_def)

lemma strstr_Some: "strstr s p = Some n \<Longrightarrow> n + length p \<le> length s \<and> take (length p) (drop n s) = p"
proof (induction s arbitrary: n)
  case (Cons c s)
  then show ?case by (auto simp: starts_with_def split: if_splits dest: arg_cong [where f = length])
qed (auto split: if_splits)

text \<open>The first occurrence of a two-byte mark the first byte of which does not occur before.\<close>

lemma strstr_first: "a \<notin> set s \<Longrightarrow> strstr (s @ a # b # r) [a, b] = Some (length s)"
  by (induction s) auto

lemma strstr_absent: "hd p \<notin> set s \<Longrightarrow> p \<noteq> [] \<Longrightarrow> strstr s p = None"
  by (induction s) (cases p; auto)+

lemma scan_token_text:
  assumes "\<forall>b \<in> set w. is_space b" and "t \<noteq> []" and "\<forall>b \<in> set t. \<not> is_space b"
    and "r = [] \<or> is_space (hd r)"
  shows "scan_token (w @ t @ r) = Some (t, r)"
proof -
  have "dropWhile is_space (w @ t @ r) = t @ r"
    using assms(1-3) by (cases t) (simp_all add: dropWhile_append3)
  moreover have "takeWhile (\<lambda>b. \<not> is_space b) (t @ r) = t" "dropWhile (\<lambda>b. \<not> is_space b) (t @ r) = r"
    using assms(3,4) by (simp_all add: takeWhile_append dropWhile_append takeWhile_eq_Nil_iff) (cases r; auto)+
  ultimately show ?thesis using assms(2) by (simp add: scan_token_def)
qed

lemma digit_not_space: "is_digit b \<Longrightarrow> \<not> is_space b \<and> b \<noteq> 45 \<and> b \<noteq> 43"
proof -
  assume d: "is_digit b"
  have "\<not> (48 \<le> b \<and> b \<le> 13)" by (auto dest: order_trans [of "48" b "13"])
  then show ?thesis using d by (auto simp: is_digit_def is_space_def)
qed

lemma scan_int_dec:
  assumes "\<forall>b \<in> set w. is_space b" and "r = [] \<or> \<not> is_digit (hd r)"
  shows "scan_int (w @ dec n @ r) = Some (int n, r)"
proof -
  obtain c ds where c: "dec n = c # ds" by (cases "dec n") simp_all
  then have d: "is_digit c" using digits_dec [of n] by auto
  have "dropWhile is_space (w @ dec n @ r) = dec n @ r"
    using assms(1) c digit_not_space [OF d] by (simp add: dropWhile_append3)
  then show ?thesis
    using scan_dec_dec [OF assms(2), of n] digit_not_space [OF d] by (simp add: scan_int_def c)
qed

lemma dec_no_space: "b \<in> set (dec n) \<Longrightarrow> \<not> is_space b"
  using digits_dec [of n] digit_not_space by blast

end
