(* ===== verification/Address.thy ===== *)
theory Address
  imports C_Text
begin

text \<open>
  Network addresses (\<^verbatim>\<open>src/src/address.h\<close>, \<^verbatim>\<open>src/src/address.c\<close>).

  \<^item> \<open>Address\<close> keeps both socket addresses, as the C struct does; \<open>sin_addr\<close> and \<open>sin6_addr\<close>
    are the bytes in network order.
  \<^item> \<open>inet_pton\<close> and \<open>inet_ntop\<close> for IPv4 are written out (four decimal octets without
    leading zeros). Their IPv6 halves belong to the C library's text format for IPv6 and are
    the parameters \<open>pton6\<close> and \<open>ntop6\<close>; \<open>inet6_ok\<close> states what the code relies on.
\<close>

section \<open>Data\<close>

definition AF_INET :: u8 where "AF_INET = 2"
definition AF_INET6 :: u8 where "AF_INET6 = 10"

definition ADDRSTRLEN :: nat where "ADDRSTRLEN = 46"

record Address =
  family :: u8
  sin_addr :: bytes
  sin_port :: u16
  sin6_addr :: bytes
  sin6_port :: u16
  port :: u16

definition wf_addr :: "Address \<Rightarrow> bool" where
  "wf_addr a \<longleftrightarrow> length (sin_addr a) = 4 \<and> length (sin6_addr a) = 16"

definition addr_zero :: Address where
  "addr_zero = \<lparr>family = 0, sin_addr = replicate 4 0, sin_port = 0, sin6_addr = replicate 16 0, sin6_port = 0, port = 0\<rparr>"

lemma wf_addr_zero [simp]: "wf_addr addr_zero"
  by (simp add: wf_addr_def addr_zero_def)

section \<open>Operations\<close>

definition addr_set_family :: "Address \<Rightarrow> u8 \<Rightarrow> Address" where
  "addr_set_family a fam = (if fam = AF_INET6 then a\<lparr>family := AF_INET6\<rparr> else a\<lparr>family := AF_INET\<rparr>)"

definition addr_set_port :: "Address \<Rightarrow> u16 \<Rightarrow> Address" where
  "addr_set_port a p =
     (let a = a\<lparr>port := p\<rparr> in
      if family a = AF_INET6 then a\<lparr>sin6_port := p\<rparr> else a\<lparr>sin_port := p\<rparr>)"

definition inet_octet :: "bytes \<Rightarrow> (u8 \<times> bytes) option" where
  "inet_octet s = do {
     (n, r) \<leftarrow> scan_dec s;
     (if 255 < n \<or> (hd s = 48 \<and> 1 < length (takeWhile is_digit s)) then None else Some (of_nat n, r))
   }"

definition inet_dot :: "bytes \<Rightarrow> bytes option" where
  "inet_dot s = (case s of [] \<Rightarrow> None | c # r \<Rightarrow> if c = 46 then Some r else None)"

definition inet_pton4 :: "bytes \<Rightarrow> bytes option" where
  "inet_pton4 s = do {
     (a, s) \<leftarrow> inet_octet s; s \<leftarrow> inet_dot s;
     (b, s) \<leftarrow> inet_octet s; s \<leftarrow> inet_dot s;
     (c, s) \<leftarrow> inet_octet s; s \<leftarrow> inet_dot s;
     (d, s) \<leftarrow> inet_octet s;
     (if s = [] then Some [a, b, c, d] else None)
   }"

fun inet_ntop4 :: "bytes \<Rightarrow> bytes" where
  "inet_ntop4 [a, b, c, d] =
     dec (unat a) @ 46 # dec (unat b) @ 46 # dec (unat c) @ 46 # dec (unat d)"
| "inet_ntop4 _ = []"

text \<open>The return value and the address, of which only the family that matched is set.\<close>

definition addr_from_string :: "(bytes \<Rightarrow> bytes option) \<Rightarrow> bytes \<Rightarrow> Address \<Rightarrow> int \<times> Address" where
  "addr_from_string pton6 buf addr =
     (case inet_pton4 buf of
        Some a \<Rightarrow> (1, addr_set_family (addr\<lparr>sin_addr := a\<rparr>) AF_INET)
      | None \<Rightarrow> (case pton6 buf of
          Some a \<Rightarrow> (1, addr_set_family (addr\<lparr>sin6_addr := a\<rparr>) AF_INET6)
        | None \<Rightarrow> (0, addr)))"

text \<open>\<open>inet_ntop\<close> into a buffer of \<open>len\<close> bytes: the text and its NUL, or NULL if they do not
  fit. \<open>memset(buf, 0, sizeof(len))\<close> clears eight bytes, the size of \<open>len\<close> itself.\<close>

definition inet_write :: "bytes \<Rightarrow> bytes \<Rightarrow> nat \<Rightarrow> (int \<times> bytes) option" where
  "inet_write txt0 buf len =
     (if length txt0 < len then do { buf \<leftarrow> mem_write 0 (txt0 @ [0]) buf; Some (1, buf) } else Some (0, buf))"

definition addr_to_string :: "(bytes \<Rightarrow> bytes) \<Rightarrow> Address \<Rightarrow> bytes \<Rightarrow> nat \<Rightarrow> (int \<times> bytes) option" where
  "addr_to_string ntop6 addr buf len = do {
     buf \<leftarrow> mem_write 0 (replicate 8 0) buf;
     inet_write (if family addr = AF_INET6 then ntop6 (sin6_addr addr) else inet_ntop4 (sin_addr addr)) buf len
   }"

text \<open>Marked TODO in the source: any two addresses are equal.\<close>

definition addr_equal :: "Address \<Rightarrow> Address \<Rightarrow> int" where
  "addr_equal a b = 1"

section \<open>IPv4 text\<close>

lemma dec_small: "n < 256 \<Longrightarrow> length (dec n) \<le> 3 \<and> (hd (dec n) = 48 \<longrightarrow> length (dec n) = 1)"
proof -
  assume n: "n < 256"
  have d: "digit m = 48 \<longleftrightarrow> m = 0" if "m < 10" for m
    using that digit_props [OF that] by (auto simp: digit_def digit_val_def)
  consider "n < 10" | "10 \<le> n" "n < 100" | "100 \<le> n" by linarith
  then show ?thesis
  proof cases
    case 1
    then show ?thesis by (simp add: dec.simps)
  next
    case 2
    then have "dec n = [digit (n div 10), digit (n mod 10)]" by (subst dec.simps, subst dec.simps) auto
    moreover have "digit (n div 10) \<noteq> 48" using 2 d [of "n div 10"] by (auto simp: div_eq_0_iff)
    ultimately show ?thesis by simp
  next
    case 3
    have "n div 10 div 10 < 10" "n div 10 div 10 \<noteq> 0" using n 3 by auto
    then have "dec n = [digit (n div 10 div 10), digit (n div 10 mod 10), digit (n mod 10)]"
      using 3 by (subst dec.simps, subst dec.simps, subst dec.simps) auto
    moreover have "digit (n div 10 div 10) \<noteq> 48"
      using d [of "n div 10 div 10"] \<open>n div 10 div 10 < 10\<close> \<open>n div 10 div 10 \<noteq> 0\<close> by blast
    ultimately show ?thesis by simp
  qed
qed

lemma inet_octet_dec:
  assumes "r = [] \<or> \<not> is_digit (hd r)"
  shows "inet_octet (dec (unat (b :: u8)) @ r) = Some (b, r)"
proof -
  have n: "unat b < 256" by simp
  have "takeWhile is_digit (dec (unat b) @ r) = dec (unat b)"
    using digits_dec [of "unat b"] assms by (cases r) (auto simp: takeWhile_append takeWhile_eq_Nil_iff)
  moreover have "hd (dec (unat b) @ r) = hd (dec (unat b))" by simp
  ultimately show ?thesis
    using dec_small [OF n] n by (simp add: inet_octet_def scan_dec_dec [OF assms])
qed

lemma inet_pton4_ntop4: "length a = 4 \<Longrightarrow> inet_pton4 (inet_ntop4 a) = Some a"
proof -
  assume "length a = 4"
  then obtain w x y z where a: "a = [w, x, y, z]" by (auto simp: length_Suc_conv numeral_eq_Suc)
  have dot: "\<not> is_digit 46" by (simp add: is_digit_def)
  show ?thesis
    using inet_octet_dec [of "[]" z] by (simp add: a inet_pton4_def inet_octet_dec dot inet_dot_def)
qed

lemma length_ntop4: "length (inet_ntop4 a) \<le> 15"
proof (cases a rule: inet_ntop4.cases)
  case (1 w x y z)
  have "length (dec (unat b)) \<le> 3" for b :: u8 using dec_small [of "unat b"] by simp
  from this [of w] this [of x] this [of y] this [of z] 1 show ?thesis by simp
qed auto

lemma no_nul_ntop4: "no_nul (inet_ntop4 a)"
  using no_nul_dec by (cases a rule: inet_ntop4.cases) (auto simp: no_nul_def)

section \<open>Text round trip\<close>

definition inet6_ok :: "(bytes \<Rightarrow> bytes option) \<Rightarrow> (bytes \<Rightarrow> bytes) \<Rightarrow> bool" where
  "inet6_ok pton6 ntop6 \<longleftrightarrow> (\<forall>a. length a = 16 \<longrightarrow> pton6 (ntop6 a) = Some a \<and> inet_pton4 (ntop6 a) = None \<and>
     length (ntop6 a) < ADDRSTRLEN \<and> no_nul (ntop6 a))"

definition same_ip :: "Address \<Rightarrow> Address \<Rightarrow> bool" where
  "same_ip a b \<longleftrightarrow> (family a = AF_INET6) = (family b = AF_INET6) \<and>
     (if family a = AF_INET6 then sin6_addr a = sin6_addr b else sin_addr a = sin_addr b)"

lemma addr_to_string_text:
  assumes "wf_addr a" and "inet6_ok pton6 ntop6" and "length buf = ADDRSTRLEN"
  shows "\<exists>txt0 r. addr_to_string ntop6 a buf ADDRSTRLEN = Some (1, txt0 @ 0 # r) \<and>
    txt0 = (if family a = AF_INET6 then ntop6 (sin6_addr a) else inet_ntop4 (sin_addr a)) \<and>
    length txt0 < ADDRSTRLEN \<and> no_nul txt0"
proof -
  let ?t = "if family a = AF_INET6 then ntop6 (sin6_addr a) else inet_ntop4 (sin_addr a)"
  have t: "length ?t < 46" "no_nul ?t"
    using assms(1,2) length_ntop4 [of "sin_addr a"] no_nul_ntop4
    by (auto simp: inet6_ok_def wf_addr_def ADDRSTRLEN_def)
  with assms(3) show ?thesis
    by (auto simp: addr_to_string_def inet_write_def mem_write_def ADDRSTRLEN_def)
qed

text \<open>IPv6 text in its plain form, eight groups of four hexadecimal digits, is one pair of
  functions the hypothesis holds for.\<close>

definition hex_digit :: "u8 \<Rightarrow> u8" where
  "hex_digit n = (if n < 10 then 48 + n else 87 + n)"

definition unhex_digit :: "u8 \<Rightarrow> u8" where
  "unhex_digit c = (if c < 58 then c - 48 else c - 87)"

definition hex_byte :: "u8 \<Rightarrow> bytes" where
  "hex_byte b = [hex_digit (drop_bit 4 b), hex_digit (b AND 0x0F)]"

fun plain_ntop6 :: "bytes \<Rightarrow> bytes" where
  "plain_ntop6 (a # b # r) = hex_byte a @ hex_byte b @ (if r = [] then [] else 58 # plain_ntop6 r)"
| "plain_ntop6 _ = []"

fun plain_groups :: "bytes \<Rightarrow> bytes" where
  "plain_groups (p # q # x # y # r) =
     (push_bit 4 (unhex_digit p) OR unhex_digit q) # (push_bit 4 (unhex_digit x) OR unhex_digit y) # plain_groups (drop 1 r)"
| "plain_groups _ = []"

definition plain_pton6 :: "bytes \<Rightarrow> bytes option" where
  "plain_pton6 s = (if length s = 39 then Some (plain_groups s) else None)"

lemma nibble:
  fixes n :: u8
  assumes "n < 16"
  shows "unhex_digit (hex_digit n) = n \<and> hex_digit n \<noteq> 0 \<and> hex_digit n \<noteq> 46 \<and> 48 \<le> hex_digit n \<and> hex_digit n \<le> 102"
proof -
  have "unat n < 16" using assms by (simp add: word_less_nat_alt)
  moreover have "\<forall>m < 16. unhex_digit (hex_digit (of_nat m)) = of_nat m \<and>
      hex_digit (of_nat m) \<noteq> 0 \<and> hex_digit (of_nat m) \<noteq> (46 :: u8) \<and>
      48 \<le> hex_digit (of_nat m) \<and> hex_digit (of_nat m) \<le> (102 :: u8)"
    by (simp add: numeral_eq_Suc All_less_Suc) (simp add: hex_digit_def unhex_digit_def)
  ultimately have "unhex_digit (hex_digit (of_nat (unat n))) = of_nat (unat n) \<and>
      hex_digit (of_nat (unat n)) \<noteq> 0 \<and> hex_digit (of_nat (unat n)) \<noteq> (46 :: u8) \<and>
      48 \<le> hex_digit (of_nat (unat n)) \<and> hex_digit (of_nat (unat n)) \<le> (102 :: u8)" by blast
  then show ?thesis by simp
qed

lemma nibbles: "drop_bit 4 (b :: u8) < 16" "b AND 0x0F < 16"
proof -
  have "unat (drop_bit 4 b) = unat b div 16" by (simp add: drop_bit_eq_div unat_div)
  then show "drop_bit 4 b < 16" by (simp add: word_less_nat_alt less_mult_imp_div_less)
  have "b AND 0x0F \<le> 0x0F" by (rule word_and_le1)
  then show "b AND 0x0F < 16" by (simp add: word_le_nat_alt word_less_nat_alt)
qed

lemma unhex_byte: "push_bit 4 (unhex_digit (hex_digit (drop_bit 4 b))) OR unhex_digit (hex_digit (b AND 0x0F)) = b"
  using nibble [OF nibbles(1) [of b]] nibble [OF nibbles(2) [of b]]
  by (simp, intro u8_eqI) (simp_all add: bit_simps bit_numeral_rec)

lemma plain_groups_ntop6: "even (length a) \<Longrightarrow> plain_groups (plain_ntop6 a) = a"
  by (induction a rule: plain_ntop6.induct) (auto simp: hex_byte_def unhex_byte)

lemma plain_ntop6_bytes: "c \<in> set (plain_ntop6 a) \<Longrightarrow> c \<noteq> 0 \<and> c \<noteq> 46 \<and> 48 \<le> c \<and> c \<le> 102"
  by (induction a rule: plain_ntop6.induct)
    (auto simp: hex_byte_def nibble [OF nibbles(1)] nibble [OF nibbles(2)] split: if_splits)

lemma length_plain_ntop6: "length a = 2 * Suc n \<Longrightarrow> length (plain_ntop6 a) = 5 * n + 4"
proof (induction a arbitrary: n rule: plain_ntop6.induct)
  case (1 a b r)
  then show ?case by (cases n; cases r) (auto simp: hex_byte_def)
qed auto

lemma no_dot_no_ipv4: "46 \<notin> set s \<Longrightarrow> inet_pton4 s = None"
proof -
  assume n: "46 \<notin> set s"
  have "inet_dot r = None" if "inet_octet s = Some (a, r)" for a r
  proof -
    have "r = dropWhile is_digit s"
      using that by (auto simp: inet_octet_def scan_dec_def Let_def split: bind_splits if_splits)
    then have "46 \<notin> set r" using n set_dropWhileD by metis
    then show ?thesis by (cases r) (auto simp: inet_dot_def)
  qed
  then show ?thesis by (auto simp: inet_pton4_def split: bind_splits)
qed

lemma inet6_ok_plain: "inet6_ok plain_pton6 plain_ntop6"
proof -
  have "plain_pton6 (plain_ntop6 a) = Some a \<and> inet_pton4 (plain_ntop6 a) = None \<and>
      length (plain_ntop6 a) < ADDRSTRLEN \<and> no_nul (plain_ntop6 a)" if a: "length a = 16" for a
    using length_plain_ntop6 [of a 7] a plain_groups_ntop6 [of a] plain_ntop6_bytes [of _ a] no_dot_no_ipv4
    by (auto simp: plain_pton6_def ADDRSTRLEN_def no_nul_def)
  then show ?thesis by (simp add: inet6_ok_def)
qed

section \<open>Properties\<close>

text \<open>C24: Addresses survive the text form: \<open>addr_to_string\<close> into a buffer of \<open>ADDRSTRLEN\<close> bytes
  succeeds, and \<open>addr_from_string\<close> reads its text back as the same family and the same
  address, for IPv4 by the code written out here and for IPv6 as far as the C library's
  \<open>inet_ntop\<close> and \<open>inet_pton\<close> agree.\<close>

theorem addr_text_roundtrip:
  assumes "wf_addr a" and "inet6_ok pton6 ntop6" and "length buf = ADDRSTRLEN"
  shows "\<exists>buf' txt0 b. addr_to_string ntop6 a buf ADDRSTRLEN = Some (1, buf') \<and> c_text buf' = Some txt0 \<and>
    addr_from_string pton6 txt0 c = (1, b) \<and> same_ip a b"
proof -
  obtain txt0 r where t: "addr_to_string ntop6 a buf ADDRSTRLEN = Some (1, txt0 @ 0 # r)"
    "txt0 = (if family a = AF_INET6 then ntop6 (sin6_addr a) else inet_ntop4 (sin_addr a))" "no_nul txt0"
    using addr_to_string_text [OF assms] by blast
  have "\<exists>b. addr_from_string pton6 txt0 c = (1, b) \<and> same_ip a b"
    using assms(1,2) t(2)
    by (auto simp: addr_from_string_def inet_pton4_ntop4 wf_addr_def inet6_ok_def same_ip_def
        addr_set_family_def AF_INET_def AF_INET6_def)
  then show ?thesis using t(1,3) c_text_terminated by blast
qed

theorem addr_text_roundtrip_witness:
  "\<exists>buf' text0 b. addr_to_string plain_ntop6 (addr_zero\<lparr>family := AF_INET, sin_addr := [192, 168, 0, 1]\<rparr>)
      (replicate 46 7) ADDRSTRLEN = Some (1, buf') \<and> c_text buf' = Some text0 \<and>
    addr_from_string plain_pton6 text0 addr_zero = (1, b) \<and>
    same_ip (addr_zero\<lparr>family := AF_INET, sin_addr := [192, 168, 0, 1]\<rparr>) b"
  by (rule addr_text_roundtrip [OF _ inet6_ok_plain]) (simp_all add: wf_addr_def addr_zero_def ADDRSTRLEN_def)

end
