(* ===== verification/Socket.thy ===== *)
theory Socket
  imports Address
begin

text \<open>
  The POSIX half of \<^verbatim>\<open>src/src/socket.c\<close>, and \<^verbatim>\<open>src/src/ports.c\<close>.

  The operating system is the parameter \<open>os\<close>: its calls act on a state \<open>'w\<close> that the model does
  not look into, and every function takes that state and returns it. A socket address as the
  system sees it is the family, the address bytes and the port in host order.
\<close>

section \<open>The operating system\<close>

type_synonym sockaddr = "u8 \<times> bytes \<times> u16"

text \<open>A network interface as \<^verbatim>\<open>getifaddrs\<close> lists it.\<close>

record Ifa =
  ifa_name :: bytes
  ifa_up :: bool
  ifa_running :: bool
  ifa_loopback :: bool
  ifa_addr :: "sockaddr option"

record 'w Os =
  os_socket :: "u8 \<Rightarrow> bool \<Rightarrow> 'w \<Rightarrow> int \<times> 'w"
  os_setsockopt :: "int \<Rightarrow> string \<Rightarrow> bytes \<Rightarrow> 'w \<Rightarrow> int \<times> 'w"
  os_bind :: "int \<Rightarrow> sockaddr \<Rightarrow> 'w \<Rightarrow> int \<times> 'w"
  os_getsockname :: "int \<Rightarrow> 'w \<Rightarrow> sockaddr option \<times> 'w"
  os_connect :: "int \<Rightarrow> sockaddr \<Rightarrow> 'w \<Rightarrow> int \<times> 'w"
  os_close :: "int \<Rightarrow> 'w \<Rightarrow> 'w"
  os_sendto :: "int \<Rightarrow> sockaddr \<Rightarrow> bytes \<Rightarrow> 'w \<Rightarrow> int \<times> 'w"
  os_recvfrom :: "int \<Rightarrow> nat \<Rightarrow> 'w \<Rightarrow> (bytes \<times> sockaddr) option \<times> 'w"
  os_send :: "int \<Rightarrow> bytes \<Rightarrow> 'w \<Rightarrow> int \<times> 'w"
  os_recv :: "int \<Rightarrow> nat \<Rightarrow> 'w \<Rightarrow> bytes option \<times> 'w"
  os_select :: "int list \<Rightarrow> nat \<Rightarrow> 'w \<Rightarrow> int \<times> int list \<times> 'w"
  os_gettimeofday :: "'w \<Rightarrow> nat \<times> nat \<times> 'w"
  os_getaddrinfo :: "bytes \<Rightarrow> 'w \<Rightarrow> sockaddr list option \<times> 'w"
  os_getifaddrs :: "'w \<Rightarrow> Ifa list option \<times> 'w"
  os_time :: "'w \<Rightarrow> nat \<times> 'w"
  os_rand :: "'w \<Rightarrow> nat \<times> 'w"

section \<open>UDP sockets\<close>

record UdpSocket =
  fd :: int
  bind_addr :: Address

text \<open>\<^verbatim>\<open>(struct sockaddr*)&addr->sin6\<close> or \<^verbatim>\<open>&addr->sin\<close>, by the family of the address.\<close>

definition sockaddr_of :: "Address \<Rightarrow> sockaddr" where
  "sockaddr_of a = (if family a = AF_INET6 then (AF_INET6, sin6_addr a, sin6_port a) else (AF_INET, sin_addr a, sin_port a))"

text \<open>The socket address the system filled in, copied into the member of family \<open>fam\<close>.\<close>

definition set_sockaddr :: "u8 \<Rightarrow> sockaddr \<Rightarrow> Address \<Rightarrow> Address" where
  "set_sockaddr fam sa a = (case sa of (_, ip, p) \<Rightarrow>
     if fam = AF_INET6 then a\<lparr>sin6_addr := ip, sin6_port := p\<rparr> else a\<lparr>sin_addr := ip, sin_port := p\<rparr>)"

definition udp_socket_close :: "'w Os \<Rightarrow> UdpSocket \<Rightarrow> 'w \<Rightarrow> 'w" where
  "udp_socket_close os sock w = (if 0 < fd sock then os_close os (fd sock) w else w)"

text \<open>The \<^verbatim>\<open>do ... while (0)\<close> of \<open>udp_socket_open\<close>: \<open>ret\<close> at its end and the address. A failing
  \<^verbatim>\<open>getsockname\<close> leaves \<open>ret\<close> at the success of \<^verbatim>\<open>bind\<close>.\<close>

definition udp_bind_name :: "'w Os \<Rightarrow> UdpSocket \<Rightarrow> 'w \<Rightarrow> int \<times> Address \<times> 'w" where
  "udp_bind_name os sock w =
     (let (r1, w) = os_setsockopt os (fd sock) ''SO_REUSEADDR'' [1, 0, 0, 0] w;
          (ret, w) = os_bind os (fd sock) (sockaddr_of (bind_addr sock)) w
      in if ret < 0 then (ret, bind_addr sock, w)
         else let (nm, w) = os_getsockname os (fd sock) w in
           case nm of None \<Rightarrow> (ret, bind_addr sock, w)
           | Some sa \<Rightarrow> (ret, set_sockaddr (family (bind_addr sock)) sa (bind_addr sock), w))"

definition udp_socket_open :: "'w Os \<Rightarrow> UdpSocket \<Rightarrow> u8 \<Rightarrow> u16 \<Rightarrow> 'w \<Rightarrow> int \<times> UdpSocket \<times> 'w" where
  "udp_socket_open os sock fam prt w =
     (let sock = sock\<lparr>bind_addr := (bind_addr sock)\<lparr>family := fam\<rparr>\<rparr>;
          (f, w) = os_socket os (if fam = AF_INET6 then AF_INET6 else AF_INET) False w;
          a = bind_addr sock;
          a = (if fam = AF_INET6 then a\<lparr>sin6_port := prt, sin6_addr := replicate 16 0, port := prt\<rparr>
               else a\<lparr>sin_port := prt, sin_addr := replicate 4 0\<rparr>);
          sock = sock\<lparr>fd := f, bind_addr := a\<rparr>
      in if f < 0 then (-1, sock, w)
         else let (ret, a, w) = udp_bind_name os sock w; sock = sock\<lparr>bind_addr := a\<rparr> in
           if ret < 0 then (-1, sock, udp_socket_close os sock w)
           else (0, sock\<lparr>bind_addr := a\<lparr>port := (if family a = AF_INET6 then sin6_port a else sin_port a)\<rparr>\<rparr>, w))"

definition udp_socket_add_multicast_group :: "'w Os \<Rightarrow> UdpSocket \<Rightarrow> Address \<Rightarrow> 'w \<Rightarrow> int \<times> 'w" where
  "udp_socket_add_multicast_group os sock mcast_addr w =
     (let (ret, w) = os_setsockopt os (fd sock) ''IP_MULTICAST_IF'' (replicate 4 0) w in
      if ret < 0 then (ret, w)
      else let (ret, w) = os_setsockopt os (fd sock) ''IP_ADD_MEMBERSHIP'' (sin_addr mcast_addr @ replicate 4 0) w in
        if ret < 0 then (ret, w) else (0, w))"

definition udp_socket_sendto :: "'w Os \<Rightarrow> UdpSocket \<Rightarrow> Address \<Rightarrow> bytes \<Rightarrow> nat \<Rightarrow> 'w \<Rightarrow> (int \<times> 'w) option" where
  "udp_socket_sendto os sock addr buf len w =
     (if fd sock < 0 then Some (-1, w)
      else do {
        d \<leftarrow> mem_read 0 len buf;
        let (ret, w) = os_sendto os (fd sock) (sockaddr_of addr) d w;
        Some (if ret < 0 then -1 else ret, w)
      })"

text \<open>The system writes at most \<open>len\<close> bytes of the datagram.\<close>

definition udp_socket_recvfrom ::
  "'w Os \<Rightarrow> UdpSocket \<Rightarrow> Address option \<Rightarrow> bytes \<Rightarrow> nat \<Rightarrow> 'w \<Rightarrow> (int \<times> Address option \<times> bytes \<times> 'w) option" where
  "udp_socket_recvfrom os sock addr buf len w =
     (if fd sock < 0 then Some (-1, addr, buf, w)
      else let (r, w) = os_recvfrom os (fd sock) len w in
        case r of
          None \<Rightarrow> Some (-1, addr, buf, w)
        | Some (d, sa) \<Rightarrow> do {
            buf \<leftarrow> mem_write 0 (take len d) buf;
            let fam = (if family (bind_addr sock) = AF_INET6 then AF_INET6 else AF_INET);
            let addr = map_option (\<lambda>a. set_sockaddr fam sa (a\<lparr>family := fam, port := snd (snd sa)\<rparr>)) addr;
            Some (int (length (take len d)), addr, buf, w)
          })"

section \<open>TCP sockets\<close>

definition tcp_socket_open :: "'w Os \<Rightarrow> UdpSocket \<Rightarrow> u8 \<Rightarrow> 'w \<Rightarrow> int \<times> UdpSocket \<times> 'w" where
  "tcp_socket_open os sock fam w =
     (let sock = sock\<lparr>bind_addr := (bind_addr sock)\<lparr>family := fam\<rparr>\<rparr>;
          (f, w) = os_socket os (if fam = AF_INET6 then AF_INET6 else AF_INET) True w
      in (if f < 0 then -1 else 0, sock\<lparr>fd := f\<rparr>, w))"

definition tcp_socket_connect :: "'w Os \<Rightarrow> UdpSocket \<Rightarrow> Address \<Rightarrow> 'w \<Rightarrow> int \<times> 'w" where
  "tcp_socket_connect os sock addr w =
     (if fd sock < 0 then (-1, w)
      else let (ret, w) = os_connect os (fd sock) (sockaddr_of addr) w in (if ret < 0 then -1 else 0, w))"

definition tcp_socket_close :: "'w Os \<Rightarrow> UdpSocket \<Rightarrow> 'w \<Rightarrow> 'w" where
  "tcp_socket_close os sock w = (if 0 < fd sock then os_close os (fd sock) w else w)"

definition tcp_socket_send :: "'w Os \<Rightarrow> UdpSocket \<Rightarrow> bytes \<Rightarrow> nat \<Rightarrow> 'w \<Rightarrow> (int \<times> 'w) option" where
  "tcp_socket_send os sock buf len w =
     (if fd sock < 0 then Some (-1, w)
      else do {
        d \<leftarrow> mem_read 0 len buf;
        let (ret, w) = os_send os (fd sock) d w;
        Some (if ret < 0 then -1 else ret, w)
      })"

definition tcp_socket_recv :: "'w Os \<Rightarrow> UdpSocket \<Rightarrow> bytes \<Rightarrow> nat \<Rightarrow> 'w \<Rightarrow> (int \<times> bytes \<times> 'w) option" where
  "tcp_socket_recv os sock buf len w =
     (if fd sock < 0 then Some (-1, buf, w)
      else let (r, w) = os_recv os (fd sock) len w in
        case r of
          None \<Rightarrow> Some (-1, buf, w)
        | Some d \<Rightarrow> do {
            buf \<leftarrow> mem_write 0 (take len d) buf;
            Some (int (length (take len d)), buf, w) })"

section \<open>Host addresses, names and time\<close>

text \<open>An interface the address of which is taken: by its name when a prefix is configured, else one
  that is up, running and not the loopback.\<close>

definition ifa_wanted :: "u8 \<Rightarrow> bytes option \<Rightarrow> Ifa \<Rightarrow> bool" where
  "ifa_wanted fam prefix ifa = (case ifa_addr ifa of
     None \<Rightarrow> False
   | Some (f, _) \<Rightarrow> f = fam \<and> (case prefix of
       Some (c # p) \<Rightarrow> take (length (c # p)) (ifa_name ifa) = c # p
     | _ \<Rightarrow> ifa_up ifa \<and> ifa_running ifa \<and> \<not> ifa_loopback ifa))"

definition ports_get_host_addr :: "'w Os \<Rightarrow> Address \<Rightarrow> bytes option \<Rightarrow> 'w \<Rightarrow> int \<times> Address \<times> 'w" where
  "ports_get_host_addr os addr prefix w =
     (case os_getifaddrs os w of
        (None, w) \<Rightarrow> (-1, addr, w)
      | (Some ifs, w) \<Rightarrow> (case find (ifa_wanted (family addr) prefix) ifs of
          None \<Rightarrow> (0, addr, w)
        | Some ifa \<Rightarrow> (case ifa_addr ifa of
            None \<Rightarrow> (0, addr, w)
          | Some sa \<Rightarrow> (1, set_sockaddr (fst sa) sa addr, w))))"

text \<open>Every IPv4 result is copied, so the last one stays.\<close>

definition ports_resolve_addr :: "'w Os \<Rightarrow> bytes \<Rightarrow> Address \<Rightarrow> 'w \<Rightarrow> int \<times> Address \<times> 'w" where
  "ports_resolve_addr os host addr w =
     (case os_getaddrinfo os host w of
        (None, w) \<Rightarrow> (-1, addr, w)
      | (Some res, w) \<Rightarrow>
          (let (ret, addr) = foldl (\<lambda>(ret, a) p. if fst p = family a then (0, set_sockaddr (family a) p a) else (ret, a))
                 (-1, addr_set_family addr AF_INET) res
           in (ret, addr, w)))"

definition epoch_ms :: "nat \<Rightarrow> nat \<Rightarrow> u32" where
  "epoch_ms sec usec = of_nat sec * 1000 + of_nat (usec div 1000)"

definition ports_get_epoch_time :: "'w Os \<Rightarrow> 'w \<Rightarrow> u32 \<times> 'w" where
  "ports_get_epoch_time os w = (let (s, u, w) = os_gettimeofday os w in (epoch_ms s u, w))"

section \<open>Lemmas\<close>

lemma udp_sendto_ok [simp]:
  "0 \<le> fd sock \<Longrightarrow> len \<le> length buf \<Longrightarrow> udp_socket_sendto os sock addr buf len w =
     Some (let (r, w) = os_sendto os (fd sock) (sockaddr_of addr) (take len buf) w in (if r < 0 then -1 else r, w))"
  by (simp add: udp_socket_sendto_def mem_read_def split: prod.splits)

lemma udp_sendto_total: "len \<le> length buf \<Longrightarrow> \<exists>r w'. udp_socket_sendto os sock addr buf len w = Some (r, w')"
  by (simp add: udp_socket_sendto_def mem_read_def split: prod.splits)

lemma udp_recvfrom_total:
  "len \<le> length buf \<Longrightarrow> \<exists>r a b w'. udp_socket_recvfrom os sock addr buf len w = Some (r, a, b, w') \<and>
     length b = length buf \<and> r \<le> int len \<and> (a = None \<longleftrightarrow> addr = None)"
  by (auto simp: udp_socket_recvfrom_def mem_write_def min_def split: prod.splits option.splits)

end
