(* ===== verification/Mdns.thy ===== *)
theory Mdns
  imports Socket C_Text
begin

text \<open>
  Multicast DNS (\<^verbatim>\<open>src/src/mdns.c\<close>): the query for a \<^verbatim>\<open>.local\<close> name, the answer, and the bounded
  loop that asks three times and reads up to five datagrams each time. Names are C strings; the
  query and answer buffers are arrays of 256 bytes. The header fields are stored in host order,
  which the model takes as little-endian.
\<close>

section \<open>Data\<close>

definition DNS_HEADER_SIZE :: nat where "DNS_HEADER_SIZE = 12"
definition DNS_QUERY_SIZE :: nat where "DNS_QUERY_SIZE = 4"
definition DNS_ANSWER_SIZE :: nat where "DNS_ANSWER_SIZE = 10"
definition MDNS_PORT :: u16 where "MDNS_PORT = 5353"
definition MDNS_GROUP :: bytes where "MDNS_GROUP = [224, 0, 0, 251]"
definition MDNS_BUF_SIZE :: nat where "MDNS_BUF_SIZE = 256"

lemmas dns_sizes = DNS_HEADER_SIZE_def DNS_QUERY_SIZE_def DNS_ANSWER_SIZE_def MDNS_BUF_SIZE_def

section \<open>Operations\<close>

text \<open>The label up to the dot, and the name after the dot.\<close>

definition first_label :: "bytes \<Rightarrow> bytes" where
  "first_label s = takeWhile (\<lambda>b. b \<noteq> 46) s"

definition next_label :: "bytes \<Rightarrow> bytes" where
  "next_label s = (let dot = dropWhile (\<lambda>b. b \<noteq> 46) s in if dot = [] then [] else tl dot)"

lemma next_label_shorter: "s \<noteq> [] \<Longrightarrow> length (next_label s) < length s"
proof -
  assume s: "s \<noteq> []"
  define d where "d = dropWhile (\<lambda>b. b \<noteq> 46) s"
  have "length d \<le> length s" unfolding d_def by (rule length_dropWhile_le)
  moreover have "length (next_label s) = length d - 1" unfolding next_label_def Let_def d_def [symmetric] by simp
  ultimately show ?thesis using s by (cases s) auto
qed

text \<open>The label loop of \<open>mdns_add_hostname\<close> from \<open>label\<close> on.\<close>

function mdns_add_labels :: "bytes \<Rightarrow> nat \<Rightarrow> bytes \<Rightarrow> (nat \<times> bytes) option" where
  "mdns_add_labels label offset buf =
     (if label = [] then Some (offset, buf)
      else do {
        let l = first_label label;
        buf \<leftarrow> mem_write offset [of_nat (length l)] buf;
        buf \<leftarrow> mem_write (offset + 1) l buf;
        mdns_add_labels (next_label label) (offset + 1 + length l) buf
      })"
  by pat_completeness auto
termination
  by (relation "measure (\<lambda>(label, offset, buf). length label)") (auto simp: next_label_shorter)

declare mdns_add_labels.simps [simp del]

definition mdns_add_hostname :: "bytes \<Rightarrow> nat \<Rightarrow> bytes \<Rightarrow> (nat \<times> bytes) option" where
  "mdns_add_hostname hostname base buf = do {
     (offset, buf) \<leftarrow> mdns_add_labels hostname base buf;
     buf \<leftarrow> mem_write offset [0] buf;
     Some (offset + 1 - base, buf)
   }"

text \<open>\<open>size\<close> is an \<^verbatim>\<open>int\<close> compared with a \<^verbatim>\<open>size_t\<close>, so a negative one counts as huge. After that it is
  not looked at again.\<close>

definition mdns_parse_answer :: "bytes \<Rightarrow> int \<Rightarrow> Address \<Rightarrow> bytes \<Rightarrow> (int \<times> Address) option" where
  "mdns_parse_answer buf sz addr hostname =
     (if 0 \<le> sz \<and> sz < int DNS_HEADER_SIZE then Some (-1, addr)
      else do {
        fl \<leftarrow> mem_read 2 2 buf;
        (if drop_bit 15 (of_be16 fl) \<noteq> 1 then Some (-1, addr)
         else do {
           (offset, name) \<leftarrow> mdns_add_hostname hostname 0 (replicate 256 0);
           got \<leftarrow> mem_read DNS_HEADER_SIZE offset buf;
           (if got \<noteq> take offset name then Some (-1, addr)
            else do {
              len \<leftarrow> mem_read (DNS_HEADER_SIZE + offset + 8) 2 buf;
              (if of_be16 len \<noteq> 4 then Some (-1, addr)
               else do {
                 ip \<leftarrow> mem_read (DNS_HEADER_SIZE + offset + DNS_ANSWER_SIZE) 4 buf;
                 Some (0, addr\<lparr>sin_addr := ip\<rparr>)
               })
            })
         })
      })"

definition mdns_build_query :: "bytes \<Rightarrow> bytes \<Rightarrow> nat \<Rightarrow> (int \<times> bytes) option" where
  "mdns_build_query hostname buf sz =
     (let total_size = DNS_HEADER_SIZE + length hostname + DNS_QUERY_SIZE + 2 in
      if sz < total_size then Some (-1, buf)
      else do {
        buf \<leftarrow> mem_write 0 (replicate sz 0) buf;
        buf \<leftarrow> mem_write 4 [0, 1] buf;
        (n, buf) \<leftarrow> mdns_add_hostname hostname DNS_HEADER_SIZE buf;
        buf \<leftarrow> mem_write (DNS_HEADER_SIZE + n) [0, 1, 0, 1] buf;
        Some (int total_size, buf)
      })"

text \<open>Up to \<open>n\<close> reads; the first component says whether the name was resolved.\<close>

fun mdns_recv_loop ::
  "'w Os \<Rightarrow> UdpSocket \<Rightarrow> bytes \<Rightarrow> nat \<Rightarrow> Address \<Rightarrow> bytes \<Rightarrow> 'w \<Rightarrow> (bool \<times> Address \<times> bytes \<times> 'w) option" where
  "mdns_recv_loop os sock hostname 0 addr buf w = Some (False, addr, buf, w)"
| "mdns_recv_loop os sock hostname (Suc n) addr buf w =
     (let (ret, ready, w) = os_select os [fd sock] 1000 w in
      if ret < 0 then Some (False, addr, buf, w)
      else if 0 < ret \<and> fd sock \<in> set ready then do {
        (ret, u, buf, w) \<leftarrow> udp_socket_recvfrom os sock None buf MDNS_BUF_SIZE w;
        (r, addr) \<leftarrow> mdns_parse_answer buf ret addr hostname;
        (if r = 0 then Some (True, addr_set_family addr AF_INET, buf, w)
         else mdns_recv_loop os sock hostname n addr buf w)
      }
      else mdns_recv_loop os sock hostname n addr buf w)"

text \<open>A query that does not fit gives the length \<open>-1\<close>, which \<^verbatim>\<open>sendto\<close> takes as a huge one.\<close>

fun mdns_send_loop ::
  "'w Os \<Rightarrow> UdpSocket \<Rightarrow> Address \<Rightarrow> bytes \<Rightarrow> nat \<Rightarrow> Address \<Rightarrow> bytes \<Rightarrow> 'w \<Rightarrow> (bool \<times> Address \<times> 'w) option" where
  "mdns_send_loop os sock mcast hostname 0 addr buf w = Some (False, addr, w)"
| "mdns_send_loop os sock mcast hostname (Suc n) addr buf w = do {
     (sz, buf) \<leftarrow> mdns_build_query hostname buf MDNS_BUF_SIZE;
     c_assert (0 \<le> sz);
     (r, w) \<leftarrow> udp_socket_sendto os sock mcast buf (nat sz) w;
     (found, addr, buf, w) \<leftarrow> mdns_recv_loop os sock hostname 5 addr buf w;
     (if found then Some (True, addr, w) else mdns_send_loop os sock mcast hostname n addr buf w)
   }"

text \<open>\<open>sock0\<close> and \<open>buf0\<close> are the uninitialised locals.\<close>

definition mdns_resolve_addr ::
  "'w Os \<Rightarrow> UdpSocket \<Rightarrow> bytes \<Rightarrow> bytes \<Rightarrow> Address \<Rightarrow> 'w \<Rightarrow> (int \<times> Address \<times> 'w) option" where
  "mdns_resolve_addr os sock0 buf0 hostname addr w =
     (let (r, sock, w) = udp_socket_open os sock0 AF_INET MDNS_PORT w in
      if r < 0 then Some (-1, addr, w)
      else
        let mcast = addr_set_port ((addr_set_family addr_zero AF_INET)\<lparr>sin_addr := MDNS_GROUP\<rparr>) MDNS_PORT;
            (r, w) = udp_socket_add_multicast_group os sock mcast w
        in if r < 0 then Some (-1, addr, w)
           else do {
             (found, addr, w) \<leftarrow> mdns_send_loop os sock mcast hostname 3 addr buf0 w;
             Some (if found then 1 else 0, addr, udp_socket_close os sock w)
           })"

section \<open>Names on the wire\<close>

text \<open>The encoding as a function of the name: each label behind its length.\<close>

function labels :: "bytes \<Rightarrow> bytes" where
  "labels s = (if s = [] then [] else of_nat (length (first_label s)) # first_label s @ labels (next_label s))"
  by pat_completeness auto
termination by (relation "measure length") (auto simp: next_label_shorter)

declare labels.simps [simp del]

lemma labels_Nil [simp]: "labels [] = []"
  by (simp add: labels.simps)

lemma labels_Cons: "s \<noteq> [] \<Longrightarrow> labels s = of_nat (length (first_label s)) # first_label s @ labels (next_label s)"
  by (subst labels.simps) simp

lemma label_split: "length s = length (first_label s) + length (next_label s) + (if 46 \<in> set s then 1 else 0)"
proof -
  have "length s = length (first_label s) + length (dropWhile (\<lambda>b. b \<noteq> 46) s)"
    unfolding first_label_def by (metis length_append takeWhile_dropWhile_id)
  moreover have "dropWhile (\<lambda>b. b \<noteq> 46) s = [] \<longleftrightarrow> 46 \<notin> set s" by (auto simp: dropWhile_eq_Nil_conv)
  ultimately show ?thesis by (cases "dropWhile (\<lambda>b. b \<noteq> 46) s") (auto simp: next_label_def)
qed

lemma length_labels: "length (labels s) \<le> length s + 1"
proof (induction s rule: labels.induct)
  case (1 s)
  show ?case
  proof (cases "s = []")
    case False
    have "46 \<notin> set s \<Longrightarrow> next_label s = []" by (auto simp: next_label_def Let_def dropWhile_eq_Nil_conv)
    then show ?thesis using 1 [OF False] label_split [of s] by (cases "46 \<in> set s") (auto simp: labels_Cons [OF False])
  qed simp
qed

lemma length_labels_name: "s \<noteq> [] \<Longrightarrow> last s \<noteq> 46 \<Longrightarrow> length (labels s) = length s + 1"
proof (induction s rule: labels.induct)
  case (1 s)
  show ?case
  proof (cases "46 \<in> set s")
    case False
    then have "next_label s = []" by (auto simp: next_label_def Let_def dropWhile_eq_Nil_conv)
    then show ?thesis using label_split [of s] False by (simp add: labels_Cons [OF 1(2)])
  next
    case True
    then obtain d r where dr: "dropWhile (\<lambda>b. b \<noteq> 46) s = d # r" by (cases "dropWhile (\<lambda>b. b \<noteq> 46) s") (auto simp: dropWhile_eq_Nil_conv)
    then have "d = 46" using dropWhile_eq_Cons_conv [of "\<lambda>b. b \<noteq> 46" s d r] by simp
    moreover have "s = takeWhile (\<lambda>b. b \<noteq> 46) s @ d # r" using dr by (metis takeWhile_dropWhile_id)
    then have "last s = last (d # r)" by (metis last_appendR list.discI)
    ultimately have "r \<noteq> []" "last r \<noteq> 46" using 1(3) by (auto split: if_splits)
    then have "length (labels r) = length r + 1" using 1(1) [OF 1(2)] dr by (simp add: next_label_def)
    then show ?thesis using label_split [of s] True dr by (simp add: labels_Cons [OF 1(2)] next_label_def)
  qed
qed

lemma mdns_add_labels_eq:
  "length (labels label) = length old \<Longrightarrow>
   mdns_add_labels label (length pre) (pre @ old @ post) = Some (length pre + length old, pre @ labels label @ post)"
proof (induction label arbitrary: pre old rule: labels.induct)
  case (1 s)
  let ?l = "first_label s" and ?next = "next_label s"
  show ?case
  proof (cases "s = []")
    case True
    then show ?thesis using 1(2) by (subst mdns_add_labels.simps) simp
  next
    case False
    note lab = labels_Cons [OF False]
    then have "1 + length ?l \<le> length old" using 1(2) by simp
    then obtain x y z where old: "old = x @ y @ z" "length x = 1" "length y = length ?l" by (rule list_cut)
    have z: "length (labels ?next) = length z" using lab 1(2) old by simp
    let ?pre = "pre @ of_nat (length ?l) # ?l"
    have w1: "mem_write (length pre) [of_nat (length ?l)] (pre @ old @ post) = Some (pre @ [of_nat (length ?l)] @ y @ z @ post)"
      using mem_write_append [of "length pre" pre "[of_nat (length ?l)]" x "y @ z @ post"] old by simp
    have "mem_write (length pre + 1) ?l ((pre @ [of_nat (length ?l)]) @ y @ z @ post) = Some ((pre @ [of_nat (length ?l)]) @ ?l @ z @ post)"
      by (rule mem_write_append) (simp_all add: old(3))
    then have w2: "mem_write (length pre + 1) ?l (pre @ [of_nat (length ?l)] @ y @ z @ post) = Some (?pre @ z @ post)" by simp
    have len: "length pre + 1 + length ?l = length ?pre" by simp
    have "mdns_add_labels s (length pre) (pre @ old @ post) = mdns_add_labels ?next (length ?pre) (?pre @ z @ post)"
      unfolding mdns_add_labels.simps [of s "length pre"] using False by (simp only: if_False Let_def w1 w2 Option.bind_lunit len)
    also have "\<dots> = Some (length ?pre + length z, ?pre @ labels ?next @ post)" by (rule 1(1) [OF False z])
    finally show ?thesis using old lab by simp
  qed
qed

lemma mdns_add_hostname_eq:
  assumes "length old = length (labels host) + 1"
  shows "mdns_add_hostname host (length pre) (pre @ old @ post) = Some (length old, pre @ labels host @ 0 # post)"
proof -
  have "length (labels host) + 1 \<le> length old" using assms by simp
  then obtain x y z where "old = x @ y @ z" "length x = length (labels host)" "length y = 1" by (rule list_cut)
  then obtain y0 where old: "old = x @ [y0]" "length x = length (labels host)" using assms by (auto simp: length_Suc_conv)
  have "mdns_add_labels host (length pre) (pre @ x @ y0 # post) = Some (length pre + length x, pre @ labels host @ y0 # post)"
    using mdns_add_labels_eq [of host x pre "y0 # post"] old(2) by simp
  moreover have "mem_write (length pre + length x) [0] (pre @ labels host @ y0 # post) = Some (pre @ labels host @ 0 # post)"
    using mem_write_append [of "length pre + length x" "pre @ labels host" "[0]" "[y0]" post] old(2) by simp
  ultimately show ?thesis using old by (simp add: mdns_add_hostname_def)
qed


section \<open>Properties\<close>

text \<open>An answer as a responder sends it: a header with the response bit, the name, type, class and
  time to live of any value, a length of 4 and the address.\<close>

definition dns_response :: "bytes \<Rightarrow> bytes \<Rightarrow> bytes \<Rightarrow> bytes \<Rightarrow> bytes" where
  "dns_response hdr host rr ip = hdr @ labels host @ 0 # rr @ be16 4 @ ip"

text \<open>For every name that is not empty, does not end in a dot and has at most 238 bytes, the query fits
  in the 256-byte buffer and consists of a header with one question, the labels, and type and
  class; the length returned is exactly the length of these parts, and the query itself is
  rejected by the answer parser, so hearing one's own question is harmless.\<close>

theorem mdns_query_wellformed:
  assumes "host \<noteq> []" and "last host \<noteq> 46" and "length host \<le> 238" and "length buf = 256"
  shows "\<exists>q. mdns_build_query host buf 256 = Some (int (length host + 18), q) \<and>
    take (length host + 18) q = [0, 0, 0, 0, 0, 1, 0, 0, 0, 0, 0, 0] @ labels host @ [0, 0, 1, 0, 1] \<and> length q = 256 \<and>
    mdns_parse_answer q (int (length host + 18)) addr host = Some (-1, addr)"
proof -
  let ?h = "[0, 0, 0, 0, 0, 1, 0, 0, 0, 0, 0, 0] :: bytes"
  let ?n = "length host"
  have lab: "length (labels host) = ?n + 1" by (rule length_labels_name [OF assms(1,2)])
  have h0: "mem_write 0 (replicate 256 0) buf = Some (replicate 256 0)" using assms(4) by (simp add: mem_write_def)
  have "12 + (?n + 2) \<le> length (replicate 256 (0 :: u8))" using assms(3) by simp
  have split: "(replicate 256 0 :: bytes) = replicate 4 0 @ [0, 0] @ replicate 250 0"
    by (simp add: numeral_eq_Suc)
  have h1: "mem_write 4 [0, 1] (replicate 256 0) = Some (?h @ replicate 244 0)"
    unfolding split by (subst mem_write_append) (simp_all add: numeral_eq_Suc)
  have z: "(replicate 244 0 :: bytes) = replicate (?n + 2) 0 @ replicate 4 0 @ replicate (238 - ?n) 0"
  proof -
    have "?n + 2 + (4 + (238 - ?n)) = 244" using assms(3) by simp
    then show ?thesis by (simp only: replicate_add [symmetric])
  qed
  have h2: "mdns_add_hostname host DNS_HEADER_SIZE (?h @ replicate 244 0) =
      Some (?n + 2, ?h @ labels host @ 0 # replicate 4 0 @ replicate (238 - ?n) 0)"
  proof -
    have "length (replicate (?n + 2) (0 :: u8)) = length (labels host) + 1" by (simp add: lab)
    note e = mdns_add_hostname_eq [OF this, of ?h "replicate 4 0 @ replicate (238 - ?n) 0"]
    have "length ?h = 12" by simp
    from e [unfolded this length_replicate] show ?thesis unfolding z DNS_HEADER_SIZE_def .
  qed
  let ?q = "?h @ labels host @ [0, 0, 1, 0, 1] @ replicate (238 - ?n) 0"
  have "mem_write (DNS_HEADER_SIZE + (?n + 2)) [0, 1, 0, 1] ((?h @ labels host @ [0]) @ replicate 4 0 @ replicate (238 - ?n) 0) =
      Some ((?h @ labels host @ [0]) @ [0, 1, 0, 1] @ replicate (238 - ?n) 0)"
    by (rule mem_write_append) (simp_all add: lab DNS_HEADER_SIZE_def)
  then have h3: "mem_write (DNS_HEADER_SIZE + (?n + 2)) [0, 1, 0, 1] (?h @ labels host @ 0 # replicate 4 0 @ replicate (238 - ?n) 0) = Some ?q"
    by simp
  have tot: "DNS_HEADER_SIZE + ?n + DNS_QUERY_SIZE + 2 = ?n + 18" by (simp add: dns_sizes)
  have b: "mdns_build_query host buf 256 = Some (int (?n + 18), ?q)"
    unfolding mdns_build_query_def Let_def tot h0 Option.bind_lunit h1 h2 using assms(3) h3 by simp
  have "take (?n + 18) ((?h @ labels host @ [0, 0, 1, 0, 1]) @ replicate (238 - ?n) 0) = ?h @ labels host @ [0, 0, 1, 0, 1]"
    using lab by (simp only: take_append) simp
  moreover have "length ?q = 256" using lab assms(3) by simp
  moreover have "mdns_parse_answer ?q (int (?n + 18)) addr host = Some (-1, addr)"
    by (simp add: mdns_parse_answer_def DNS_HEADER_SIZE_def mem_read_def)
  ultimately show ?thesis using b by (intro exI [of _ ?q]) simp
qed

theorem mdns_query_wellformed_witness:
  "\<exists>q. mdns_build_query (str ''ab.local'') (replicate 256 7) 256 = Some (26, q) \<and>
    take 26 q = [0, 0, 0, 0, 0, 1, 0, 0, 0, 0, 0, 0] @ (2 # str ''ab'' @ 5 # str ''local'') @ [0, 0, 1, 0, 1] \<and> length q = 256 \<and>
    mdns_parse_answer q 26 addr_zero (str ''ab.local'') = Some (-1, addr_zero)"
proof -
  have l: "labels (str ''ab.local'') = 2 # str ''ab'' @ 5 # str ''local''"
    by (simp add: labels.simps first_label_def next_label_def Let_def)
  show ?thesis
    using mdns_query_wellformed [of "str ''ab.local''" "replicate 256 7" addr_zero] unfolding l by simp
qed

text \<open>An answer for the name that fits in the buffer sets the address to the four bytes of its first
  record, and nothing else of the address.\<close>

theorem mdns_answer_accepted:
  assumes "length hdr = 12" and "drop_bit 15 (of_be16 (drop 2 hdr)) = 1" and "length rr = 8" and "length ip = 4"
    and "length (labels host) < 256" and "length (dns_response hdr host rr ip) \<le> sz"
  shows "mdns_parse_answer (dns_response hdr host rr ip @ rest) (int sz) addr host = Some (0, addr\<lparr>sin_addr := ip\<rparr>)"
proof -
  let ?n = "length (labels host) + 1" and ?b = "dns_response hdr host rr ip @ rest"
  have b: "?b = hdr @ (labels host @ [0]) @ rr @ be16 4 @ ip @ rest" by (simp add: dns_response_def)
  have big: "12 \<le> sz" using assms(1,6) by (simp add: dns_response_def)
  obtain h0 h1 x y r where h: "hdr = h0 # h1 # x # y # r" using assms(1)
    by (cases hdr rule: list.exhaust; simp add: numeral_eq_Suc length_Suc_conv) blast
  have fl: "mem_read 2 2 ?b = Some [x, y]" unfolding b unfolding h by (simp add: mem_read_def)
  have qr: "drop_bit 15 (of_be16 [x, y]) = 1" using assms(2) h by simp
  have "replicate 256 0 = replicate ?n 0 @ replicate (256 - ?n) (0 :: u8)"
  proof -
    have "?n + (256 - ?n) = 256" using assms(5) by simp
    then show ?thesis by (simp only: replicate_add [symmetric])
  qed
  then have nm: "mdns_add_hostname host 0 (replicate 256 0) = Some (?n, labels host @ 0 # replicate (256 - ?n) 0)"
    using mdns_add_hostname_eq [of "replicate ?n 0" host "[]" "replicate (256 - ?n) 0"] by simp
  have got: "mem_read DNS_HEADER_SIZE ?n ?b = Some (labels host @ [0])"
    unfolding b by (rule mem_read_append) (simp_all add: assms(1) DNS_HEADER_SIZE_def)
  have "mem_read (DNS_HEADER_SIZE + ?n + 8) 2 ((hdr @ (labels host @ [0]) @ rr) @ be16 4 @ ip @ rest) = Some (be16 4)"
    by (rule mem_read_append) (simp_all add: assms(1,3) DNS_HEADER_SIZE_def)
  then have ln: "mem_read (DNS_HEADER_SIZE + ?n + 8) 2 ?b = Some (be16 4)" by (simp add: b)
  have "mem_read (DNS_HEADER_SIZE + ?n + DNS_ANSWER_SIZE) 4 ((hdr @ (labels host @ [0]) @ rr @ be16 4) @ ip @ rest) = Some ip"
    by (rule mem_read_append) (simp_all add: assms(1,3,4) dns_sizes)
  then have ipr: "mem_read (DNS_HEADER_SIZE + ?n + DNS_ANSWER_SIZE) 4 ?b = Some ip" by (simp add: b)
  have nsmall: "\<not> (0 \<le> int sz \<and> int sz < int DNS_HEADER_SIZE)" using big by (simp add: DNS_HEADER_SIZE_def)
  have same: "labels host @ [0] = take ?n (labels host @ 0 # replicate (256 - ?n) 0)" by simp
  show ?thesis
    unfolding mdns_parse_answer_def fl Option.bind_lunit nm prod.case got ln ipr of_be16_be16'
    using nsmall qr same by simp
qed

theorem mdns_answer_accepted_witness:
  "mdns_parse_answer (dns_response [0, 0, 0x84, 0, 0, 0, 0, 1, 0, 0, 0, 0] (str ''ab.local'') [0, 1, 0x80, 1, 0, 0, 0, 120] [10, 0, 0, 7] @ [])
     36 addr_zero (str ''ab.local'') = Some (0, addr_zero\<lparr>sin_addr := [10, 0, 0, 7]\<rparr>)"
proof -
  have l: "labels (str ''ab.local'') = 2 # str ''ab'' @ 5 # str ''local''"
    by (simp add: labels.simps first_label_def next_label_def Let_def)
  have "mdns_parse_answer (dns_response [0, 0, 0x84, 0, 0, 0, 0, 1, 0, 0, 0, 0] (str ''ab.local'') [0, 1, 0x80, 1, 0, 0, 0, 120] [10, 0, 0, 7] @ [])
     (int 36) addr_zero (str ''ab.local'') = Some (0, addr_zero\<lparr>sin_addr := [10, 0, 0, 7]\<rparr>)"
    by (rule mdns_answer_accepted) (simp_all add: dns_response_def l [simplified])
  then show ?thesis by simp
qed

end
