(* ===== verification/Stun.thy ===== *)
theory Stun
  imports Address Checksum
begin

text \<open>
  STUN messages (\<^verbatim>\<open>src/src/stun.h\<close>, \<^verbatim>\<open>src/src/stun.c\<close>): writing attributes into the message
  buffer, finishing with MESSAGE-INTEGRITY and FINGERPRINT, parsing, and the validity check.

  \<^item> \<open>buf\<close> of the C struct is \<open>sbuf\<close>, an array of 256 bytes; \<open>msg_size\<close> is \<open>size\<close>.
  \<^item> \<open>fingerprint\<close> is the four bytes the attribute is copied into; the code only compares
    them. HMAC-SHA1 and MD5 come from mbedTLS and are the parameters \<open>hmac\<close> (message, key)
    and \<open>md5\<close>.
  \<^item> A \<open>char*\<close> argument is the object from the pointer to its end, so that reads past what a
    caller owns are visible.
\<close>

section \<open>Data\<close>

definition STUN_ATTR_BUF_SIZE :: nat where "STUN_ATTR_BUF_SIZE = 256"
definition MAGIC_COOKIE :: u32 where "MAGIC_COOKIE = 0x2112A442"

definition STUN_CLASS_REQUEST :: u16 where "STUN_CLASS_REQUEST = 0x0000"
definition STUN_CLASS_INDICATION :: u16 where "STUN_CLASS_INDICATION = 0x0010"
definition STUN_CLASS_RESPONSE :: u16 where "STUN_CLASS_RESPONSE = 0x0100"
definition STUN_CLASS_ERROR :: u16 where "STUN_CLASS_ERROR = 0x0110"
definition STUN_METHOD_BINDING :: u16 where "STUN_METHOD_BINDING = 0x0001"
definition STUN_METHOD_ALLOCATE :: u16 where "STUN_METHOD_ALLOCATE = 0x0003"

definition STUN_ATTR_TYPE_MAPPED_ADDRESS :: u16 where "STUN_ATTR_TYPE_MAPPED_ADDRESS = 0x0001"
definition STUN_ATTR_TYPE_USERNAME :: u16 where "STUN_ATTR_TYPE_USERNAME = 0x0006"
definition STUN_ATTR_TYPE_MESSAGE_INTEGRITY :: u16 where "STUN_ATTR_TYPE_MESSAGE_INTEGRITY = 0x0008"
definition STUN_ATTR_TYPE_LIFETIME :: u16 where "STUN_ATTR_TYPE_LIFETIME = 0x000d"
definition STUN_ATTR_TYPE_REALM :: u16 where "STUN_ATTR_TYPE_REALM = 0x0014"
definition STUN_ATTR_TYPE_NONCE :: u16 where "STUN_ATTR_TYPE_NONCE = 0x0015"
definition STUN_ATTR_TYPE_XOR_RELAYED_ADDRESS :: u16 where "STUN_ATTR_TYPE_XOR_RELAYED_ADDRESS = 0x0016"
definition STUN_ATTR_TYPE_REQUESTED_TRANSPORT :: u16 where "STUN_ATTR_TYPE_REQUESTED_TRANSPORT = 0x0019"
definition STUN_ATTR_TYPE_XOR_MAPPED_ADDRESS :: u16 where "STUN_ATTR_TYPE_XOR_MAPPED_ADDRESS = 0x0020"
definition STUN_ATTR_TYPE_PRIORITY :: u16 where "STUN_ATTR_TYPE_PRIORITY = 0x0024"
definition STUN_ATTR_TYPE_USE_CANDIDATE :: u16 where "STUN_ATTR_TYPE_USE_CANDIDATE = 0x0025"
definition STUN_ATTR_TYPE_FINGERPRINT :: u16 where "STUN_ATTR_TYPE_FINGERPRINT = 0x8028"
definition STUN_ATTR_TYPE_ICE_CONTROLLED :: u16 where "STUN_ATTR_TYPE_ICE_CONTROLLED = 0x8029"
definition STUN_ATTR_TYPE_ICE_CONTROLLING :: u16 where "STUN_ATTR_TYPE_ICE_CONTROLLING = 0x802a"

lemmas stun_types = STUN_ATTR_TYPE_MAPPED_ADDRESS_def STUN_ATTR_TYPE_USERNAME_def
  STUN_ATTR_TYPE_MESSAGE_INTEGRITY_def STUN_ATTR_TYPE_REALM_def STUN_ATTR_TYPE_NONCE_def
  STUN_ATTR_TYPE_XOR_RELAYED_ADDRESS_def STUN_ATTR_TYPE_XOR_MAPPED_ADDRESS_def
  STUN_ATTR_TYPE_FINGERPRINT_def STUN_ATTR_TYPE_LIFETIME_def STUN_ATTR_TYPE_REQUESTED_TRANSPORT_def
  STUN_ATTR_TYPE_PRIORITY_def STUN_ATTR_TYPE_USE_CANDIDATE_def STUN_ATTR_TYPE_ICE_CONTROLLED_def
  STUN_ATTR_TYPE_ICE_CONTROLLING_def

datatype StunCredential = STUN_CREDENTIAL_SHORT_TERM | STUN_CREDENTIAL_LONG_TERM

definition STUN_FAMILY_IPV4 :: u8 where "STUN_FAMILY_IPV4 = 0x01"
definition STUN_FAMILY_IPV6 :: u8 where "STUN_FAMILY_IPV6 = 0x02"

record StunMessage =
  stunclass :: u16
  stunmethod :: u16
  fingerprint :: bytes
  message_integrity :: bytes
  username :: bytes
  realm :: bytes
  nonce :: bytes
  mapped_addr :: Address
  relayed_addr :: Address
  sbuf :: bytes
  msg_size :: nat

text \<open>The arrays have the sizes they are declared with.\<close>

definition wf_stun :: "StunMessage \<Rightarrow> bool" where
  "wf_stun m \<longleftrightarrow> length (fingerprint m) = 4 \<and> length (message_integrity m) = 20 \<and>
     length (username m) = 128 \<and> length (realm m) = 64 \<and> length (nonce m) = 64 \<and>
     wf_addr (mapped_addr m) \<and> wf_addr (relayed_addr m) \<and> length (sbuf m) = STUN_ATTR_BUF_SIZE"

definition STUN_HEADER_SIZE :: nat where "STUN_HEADER_SIZE = 20"
definition STUN_ATTRIBUTE_SIZE :: nat where "STUN_ATTRIBUTE_SIZE = 4"

definition get16 :: "nat \<Rightarrow> bytes \<Rightarrow> u16 option" where
  "get16 off buf = map_option of_be16 (mem_read off 2 buf)"

definition pad4 :: "nat \<Rightarrow> nat" where "pad4 n = 4 * ((n + 3) div 4)"

definition set_sbuf :: "nat \<Rightarrow> bytes \<Rightarrow> StunMessage \<Rightarrow> StunMessage option" where
  "set_sbuf off bs m = map_option (\<lambda>b. m\<lparr>sbuf := b\<rparr>) (mem_write off bs (sbuf m))"

section \<open>Writing\<close>

definition stun_msg_create :: "StunMessage \<Rightarrow> u16 \<Rightarrow> StunMessage option" where
  "stun_msg_create msg type = do {
     msg \<leftarrow> set_sbuf 0 (be16 type @ be16 0 @ be32 MAGIC_COOKIE @ be32 (CRC32_TABLE ! 1) @
                be32 (CRC32_TABLE ! 2) @ be32 (CRC32_TABLE ! 3)) msg;
     Some (msg\<lparr>msg_size := STUN_HEADER_SIZE\<rparr>)
   }"

text \<open>The padded length is a \<^verbatim>\<open>uint16_t\<close>. USERNAME, REALM and NONCE are also kept in the
  message, padding included, so their value has to be readable that far.\<close>

definition stun_msg_write_attr ::
  "StunMessage \<Rightarrow> u16 \<Rightarrow> u16 \<Rightarrow> bytes option \<Rightarrow> StunMessage option" where
  "stun_msg_write_attr msg type len value = do {
     let off = msg_size msg;
     msg \<leftarrow> set_sbuf off (be16 type @ be16 len) msg;
     msg \<leftarrow> (case value of
        None \<Rightarrow> Some msg
      | Some v \<Rightarrow> do { d \<leftarrow> mem_read 0 (unat len) v; set_sbuf (off + STUN_ATTRIBUTE_SIZE) d msg });
     let len = (of_nat (pad4 (unat len)) :: u16);
     hlen \<leftarrow> get16 2 (sbuf msg);
     msg \<leftarrow> set_sbuf 2 (be16 (hlen + of_nat STUN_ATTRIBUTE_SIZE + len)) msg;
     let msg = msg\<lparr>msg_size := msg_size msg + unat len + STUN_ATTRIBUTE_SIZE\<rparr>;
     (if type = STUN_ATTR_TYPE_REALM then do {
        v \<leftarrow> value; d \<leftarrow> mem_read 0 (unat len) v; f \<leftarrow> mem_write 0 d (realm msg); Some (msg\<lparr>realm := f\<rparr>) }
      else if type = STUN_ATTR_TYPE_NONCE then do {
        v \<leftarrow> value; d \<leftarrow> mem_read 0 (unat len) v; f \<leftarrow> mem_write 0 d (nonce msg); Some (msg\<lparr>nonce := f\<rparr>) }
      else if type = STUN_ATTR_TYPE_USERNAME then do {
        v \<leftarrow> value; d \<leftarrow> mem_read 0 (unat len) v; f \<leftarrow> mem_write 0 d (username msg); Some (msg\<lparr>username := f\<rparr>) }
      else Some msg)
   }"

definition long_term_key :: "(bytes \<Rightarrow> bytes) \<Rightarrow> StunMessage \<Rightarrow> bytes \<Rightarrow> bytes option" where
  "long_term_key md5 msg password = do {
     u \<leftarrow> c_text (username msg);
     r \<leftarrow> c_text (realm msg);
     Some (take 16 (md5 (take 255 (u @ str '':'' @ r @ str '':'' @ password))))
   }"

text \<open>\<open>password\<close> is the text and \<open>password_len\<close> the length passed with it.\<close>

definition stun_msg_finish ::
  "(bytes \<Rightarrow> bytes \<Rightarrow> bytes) \<Rightarrow> (bytes \<Rightarrow> bytes) \<Rightarrow> StunMessage \<Rightarrow> StunCredential \<Rightarrow> bytes \<Rightarrow> nat \<Rightarrow>
   StunMessage option" where
  "stun_msg_finish hmac md5 msg credential password password_len = do {
     header_length \<leftarrow> get16 2 (sbuf msg);
     key \<leftarrow> (case credential of
        STUN_CREDENTIAL_LONG_TERM \<Rightarrow> long_term_key md5 msg password
      | STUN_CREDENTIAL_SHORT_TERM \<Rightarrow> mem_read 0 password_len (password @ [0]));
     msg \<leftarrow> set_sbuf 2 (be16 (header_length + 24)) msg;
     msg \<leftarrow> set_sbuf (msg_size msg) (be16 STUN_ATTR_TYPE_MESSAGE_INTEGRITY @ be16 20) msg;
     d \<leftarrow> mem_read 0 (msg_size msg) (sbuf msg);
     msg \<leftarrow> set_sbuf (msg_size msg + 4) (hmac d key) msg;
     let msg = msg\<lparr>msg_size := msg_size msg + STUN_ATTRIBUTE_SIZE + 20\<rparr>;
     msg \<leftarrow> set_sbuf 2 (be16 (header_length + 24 + 8)) msg;
     msg \<leftarrow> set_sbuf (msg_size msg) (be16 STUN_ATTR_TYPE_FINGERPRINT @ be16 4) msg;
     d \<leftarrow> mem_read 0 (msg_size msg) (sbuf msg);
     msg \<leftarrow> set_sbuf (msg_size msg + 4) (stun_calculate_fingerprint d) msg;
     Some (msg\<lparr>msg_size := msg_size msg + STUN_ATTRIBUTE_SIZE + 4\<rparr>)
   }"

section \<open>Addresses\<close>

definition xor_bytes :: "bytes \<Rightarrow> bytes \<Rightarrow> bytes" where
  "xor_bytes a m = map2 (XOR) a m"

text \<open>The new contents of \<open>value\<close> and the length.\<close>

definition stun_set_mapped_address :: "bytes \<Rightarrow> bytes \<Rightarrow> Address \<Rightarrow> (int \<times> bytes) option" where
  "stun_set_mapped_address value msk addr = do {
     (ret, value) \<leftarrow>
       (if family addr = AF_INET6 then do {
          value \<leftarrow> mem_write 1 [STUN_FAMILY_IPV6] value;
          m \<leftarrow> mem_read 0 16 msk;
          value \<leftarrow> mem_write 4 (xor_bytes (sin6_addr addr) m) value;
          Some (20, value)
        }
        else do {
          value \<leftarrow> mem_write 1 [STUN_FAMILY_IPV4] value;
          m \<leftarrow> mem_read 0 4 msk;
          value \<leftarrow> mem_write 4 (xor_bytes (sin_addr addr) m) value;
          Some (8, value)
        });
     m \<leftarrow> mem_read 0 2 msk;
     value \<leftarrow> mem_write 2 (xor_bytes (be16 (port addr)) m) value;
     Some (ret, value)
   }"

definition stun_get_mapped_address :: "bytes \<Rightarrow> bytes \<Rightarrow> Address \<Rightarrow> Address option" where
  "stun_get_mapped_address value msk addr = do {
     fam \<leftarrow> mem_get 1 value;
     addr \<leftarrow>
       (if fam = STUN_FAMILY_IPV6 then do {
          v \<leftarrow> mem_read 4 16 value;
          m \<leftarrow> mem_read 0 16 msk;
          Some ((addr_set_family addr AF_INET6)\<lparr>sin6_addr := xor_bytes v m\<rparr>)
        }
        else do {
          v \<leftarrow> mem_read 4 4 value;
          m \<leftarrow> mem_read 0 4 msk;
          Some ((addr_set_family addr AF_INET)\<lparr>sin_addr := xor_bytes v m\<rparr>)
        });
     p \<leftarrow> mem_read 2 2 value;
     m \<leftarrow> mem_read 0 2 msk;
     Some (addr_set_port addr (of_be16 (xor_bytes p m)))
   }"

section \<open>Parsing\<close>

definition stun_class_of :: "u16 \<Rightarrow> u16" where
  "stun_class_of t =
     (if t AND STUN_CLASS_ERROR = STUN_CLASS_ERROR then STUN_CLASS_ERROR
      else if t AND STUN_CLASS_INDICATION = STUN_CLASS_INDICATION then STUN_CLASS_INDICATION
      else if t AND STUN_CLASS_RESPONSE = STUN_CLASS_RESPONSE then STUN_CLASS_RESPONSE
      else if t AND STUN_CLASS_REQUEST = STUN_CLASS_REQUEST then STUN_CLASS_REQUEST
      else t)"

definition stun_method_of :: "u16 \<Rightarrow> u16" where
  "stun_method_of t =
     (let t = t AND 0x0FFF in
      if t AND STUN_METHOD_ALLOCATE = STUN_METHOD_ALLOCATE then STUN_METHOD_ALLOCATE
      else if t AND STUN_METHOD_BINDING = STUN_METHOD_BINDING then STUN_METHOD_BINDING
      else t)"

definition stun_xor_mask :: "bytes \<Rightarrow> bytes option" where
  "stun_xor_mask buf = do { t \<leftarrow> mem_read 8 12 buf; Some (be32 MAGIC_COOKIE @ t) }"

text \<open>One attribute, at \<open>pos\<close>. What is copied is \<open>ntohs(attr->length)\<close> bytes, whatever the size
  of the field it is copied into.\<close>

definition stun_parse_attr :: "StunMessage \<Rightarrow> nat \<Rightarrow> StunMessage option" where
  "stun_parse_attr msg pos = do {
     type \<leftarrow> get16 pos (sbuf msg);
     len \<leftarrow> get16 (pos + 2) (sbuf msg);
     let value = drop (pos + 4) (sbuf msg);
     (if type = STUN_ATTR_TYPE_MAPPED_ADDRESS then do {
        a \<leftarrow> stun_get_mapped_address value (replicate 16 0) (mapped_addr msg);
        Some (msg\<lparr>mapped_addr := a\<rparr>) }
      else if type = STUN_ATTR_TYPE_USERNAME then do {
        d \<leftarrow> mem_read 0 (unat len) value; f \<leftarrow> mem_write 0 d (replicate 128 0); Some (msg\<lparr>username := f\<rparr>) }
      else if type = STUN_ATTR_TYPE_MESSAGE_INTEGRITY then do {
        d \<leftarrow> mem_read 0 (unat len) value; f \<leftarrow> mem_write 0 d (message_integrity msg);
        Some (msg\<lparr>message_integrity := f\<rparr>) }
      else if type = STUN_ATTR_TYPE_REALM then do {
        d \<leftarrow> mem_read 0 (unat len) value; f \<leftarrow> mem_write 0 d (replicate 64 0); Some (msg\<lparr>realm := f\<rparr>) }
      else if type = STUN_ATTR_TYPE_NONCE then do {
        d \<leftarrow> mem_read 0 (unat len) value; f \<leftarrow> mem_write 0 d (replicate 64 0); Some (msg\<lparr>nonce := f\<rparr>) }
      else if type = STUN_ATTR_TYPE_XOR_RELAYED_ADDRESS then do {
        msk \<leftarrow> stun_xor_mask (sbuf msg);
        a \<leftarrow> stun_get_mapped_address value msk (relayed_addr msg);
        Some (msg\<lparr>relayed_addr := a\<rparr>) }
      else if type = STUN_ATTR_TYPE_XOR_MAPPED_ADDRESS then do {
        msk \<leftarrow> stun_xor_mask (sbuf msg);
        a \<leftarrow> stun_get_mapped_address value msk (mapped_addr msg);
        Some (msg\<lparr>mapped_addr := a\<rparr>) }
      else if type = STUN_ATTR_TYPE_FINGERPRINT then do {
        d \<leftarrow> mem_read 0 (unat len) value; f \<leftarrow> mem_write 0 d (fingerprint msg); Some (msg\<lparr>fingerprint := f\<rparr>) }
      else Some msg)
   }"

function stun_parse_attrs :: "StunMessage \<Rightarrow> nat \<Rightarrow> nat \<Rightarrow> StunMessage option" where
  "stun_parse_attrs msg pos len =
     (if pos < len then do {
        msg' \<leftarrow> stun_parse_attr msg pos;
        alen \<leftarrow> get16 (pos + 2) (sbuf msg);
        stun_parse_attrs msg' (pos + pad4 (unat alen) + STUN_ATTRIBUTE_SIZE) len
      }
      else Some msg)"
  by pat_completeness auto
termination
  by (relation "measure (\<lambda>(msg, pos, len). len - pos)") (auto simp: STUN_ATTRIBUTE_SIZE_def)

declare stun_parse_attrs.simps [simp del]

definition stun_parse_msg_buf :: "StunMessage \<Rightarrow> StunMessage option" where
  "stun_parse_msg_buf msg = do {
     hlen \<leftarrow> get16 2 (sbuf msg);
     type \<leftarrow> get16 0 (sbuf msg);
     stun_parse_attrs (msg\<lparr>stunclass := stun_class_of type, stunmethod := stun_method_of type\<rparr>)
       STUN_HEADER_SIZE (unat hlen + STUN_HEADER_SIZE)
   }"

section \<open>Checking\<close>

definition stun_probe :: "bytes \<Rightarrow> nat \<Rightarrow> int option" where
  "stun_probe buf sz =
     (if sz < STUN_HEADER_SIZE then Some (-1)
      else do {
        c \<leftarrow> mem_read 4 4 buf;
        Some (if c \<noteq> be32 MAGIC_COOKIE then -1 else 0)
      })"

text \<open>\<open>msg0\<close> is the uninitialised local \<open>StunMessage\<close>. The lengths are \<^verbatim>\<open>size_t\<close>: below 32 bytes
  they wrap and the digests run over the address space.\<close>

definition stun_msg_is_valid ::
  "(bytes \<Rightarrow> bytes \<Rightarrow> bytes) \<Rightarrow> StunMessage \<Rightarrow> bytes \<Rightarrow> nat \<Rightarrow> bytes \<Rightarrow> int option" where
  "stun_msg_is_valid hmac msg0 buf sz password = do {
     d \<leftarrow> mem_read 0 sz buf;
     msg \<leftarrow> set_sbuf 0 d msg0;
     msg \<leftarrow> stun_parse_msg_buf msg;
     c_assert (8 \<le> sz);
     d \<leftarrow> mem_read 0 (sz - 4 - STUN_ATTRIBUTE_SIZE) (sbuf msg);
     (if stun_calculate_fingerprint d \<noteq> fingerprint msg then Some (-1)
      else do {
        hlen \<leftarrow> get16 2 (sbuf msg);
        msg \<leftarrow> set_sbuf 2 (be16 (hlen - 4 - of_nat STUN_ATTRIBUTE_SIZE)) msg;
        c_assert (32 \<le> sz);
        d \<leftarrow> mem_read 0 (sz - 4 - STUN_ATTRIBUTE_SIZE - 20 - STUN_ATTRIBUTE_SIZE) (sbuf msg);
        (if hmac d password \<noteq> message_integrity msg then Some (-1) else Some 0)
      })
   }"


section \<open>Address attributes\<close>

lemma xor_bytes_cancel: "length a \<le> length m \<Longrightarrow> xor_bytes (xor_bytes a m) m = a"
  by (rule nth_equalityI) (simp_all add: xor_bytes_def xor.assoc)

lemma length_xor_bytes [simp]: "length (xor_bytes a m) = min (length a) (length m)"
  by (simp add: xor_bytes_def)

lemma mapped_v6:
  assumes "length x = 16" and "length msk = 16" and "family a = AF_INET6" and "length (sin6_addr a) = 16"
  shows "stun_set_mapped_address ([v0, v1, v2, v3] @ x @ r) msk a =
    Some (20, v0 # STUN_FAMILY_IPV6 # xor_bytes (be16 (port a)) (take 2 msk) @ xor_bytes (sin6_addr a) msk @ r)"
proof -
  have "length (xor_bytes (be16 (port a)) (take 2 msk)) = 2" using assms(2) by simp
  then obtain p q where "xor_bytes (be16 (port a)) (take 2 msk) = [p, q]" unfolding length_2_conv by blast
  then show ?thesis
    using assms by (simp add: stun_set_mapped_address_def mem_write_def mem_read_def)
qed

lemma mapped_v4:
  assumes "length x = 4" and "length msk = 16" and "family a \<noteq> AF_INET6" and "length (sin_addr a) = 4"
  shows "stun_set_mapped_address ([v0, v1, v2, v3] @ x @ r) msk a =
    Some (8, v0 # STUN_FAMILY_IPV4 # xor_bytes (be16 (port a)) (take 2 msk) @ xor_bytes (sin_addr a) (take 4 msk) @ r)"
proof -
  have "length (xor_bytes (be16 (port a)) (take 2 msk)) = 2" using assms(2) by simp
  then obtain p q where "xor_bytes (be16 (port a)) (take 2 msk) = [p, q]" unfolding length_2_conv by blast
  then show ?thesis
    using assms by (simp add: stun_set_mapped_address_def mem_write_def mem_read_def)
qed

lemma get_v6:
  assumes "length pq = 2" and "length ip = 16" and "length msk = 16"
  shows "stun_get_mapped_address (v0 # STUN_FAMILY_IPV6 # pq @ ip @ r) msk b =
    Some (addr_set_port ((addr_set_family b AF_INET6)\<lparr>sin6_addr := xor_bytes ip msk\<rparr>)
      (of_be16 (xor_bytes pq (take 2 msk))))"
  using assms by (auto simp: length_2_conv stun_get_mapped_address_def mem_read_def mem_get_def)

lemma get_v4:
  assumes "length pq = 2" and "length ip = 4" and "length msk = 16"
  shows "stun_get_mapped_address (v0 # STUN_FAMILY_IPV4 # pq @ ip @ r) msk b =
    Some (addr_set_port ((addr_set_family b AF_INET)\<lparr>sin_addr := xor_bytes ip (take 4 msk)\<rparr>)
      (of_be16 (xor_bytes pq (take 2 msk))))"
  using assms by (auto simp: length_2_conv stun_get_mapped_address_def mem_read_def mem_get_def
      STUN_FAMILY_IPV4_def STUN_FAMILY_IPV6_def)

lemma xor_address_roundtrip:
  assumes "wf_addr a" and "length msk = 16" and "(if family a = AF_INET6 then 20 else 8) \<le> length value"
  shows "\<exists>v b'. stun_set_mapped_address value msk a = Some (if family a = AF_INET6 then 20 else 8, v) \<and>
    length v = length value \<and> stun_get_mapped_address v msk b = Some b' \<and> same_ip a b' \<and> port b' = port a"
proof -
  let ?n = "if family a = AF_INET6 then 16 else 4 :: nat"
  have "4 + ?n \<le> length value" using assms(3) by (auto split: if_splits)
  then obtain h x r where v: "value = h @ x @ r" "length h = 4" "length x = ?n" by (rule list_cut)
  then obtain v0 v1 v2 v3 where h: "h = [v0, v1, v2, v3]" unfolding length_4_conv by blast
  let ?pq = "xor_bytes (be16 (port a)) (take 2 msk)"
  have pq: "length ?pq = 2" "of_be16 (xor_bytes ?pq (take 2 msk)) = port a"
    using assms(2) by (simp_all add: xor_bytes_cancel)
  show ?thesis
  proof (cases "family a = AF_INET6")
    case True
    then have l: "length (sin6_addr a) = 16" "length x = 16" using assms(1) v(3) by (simp_all add: wf_addr_def)
    show ?thesis
      using True l v(1) h pq assms(2) get_v6 [of ?pq "xor_bytes (sin6_addr a) msk" msk v0 r b]
      by (simp add: mapped_v6 [OF l(2) assms(2) True l(1), simplified] xor_bytes_cancel same_ip_def
          addr_set_port_def addr_set_family_def AF_INET_def AF_INET6_def)
  next
    case False
    then have l: "length (sin_addr a) = 4" "length x = 4" using assms(1) v(3) by (simp_all add: wf_addr_def)
    show ?thesis
      using False l v(1) h pq assms(2) get_v4 [of ?pq "xor_bytes (sin_addr a) (take 4 msk)" msk v0 r b]
      by (simp add: mapped_v4 [OF l(2) assms(2) False l(1), simplified] xor_bytes_cancel same_ip_def
          addr_set_port_def addr_set_family_def AF_INET_def AF_INET6_def)
  qed
qed


section \<open>Attributes on the wire\<close>

text \<open>A block of attributes: type, length, value and padding of any content.\<close>

fun wire :: "(u16 \<times> bytes) list \<Rightarrow> bytes \<Rightarrow> bool" where
  "wire [] A \<longleftrightarrow> A = []"
| "wire ((t, v) # as) A \<longleftrightarrow> length v < 65536 \<and>
     (\<exists>p A'. A = be16 t @ be16 (of_nat (length v)) @ v @ p @ A' \<and> length v + length p = pad4 (length v) \<and> wire as A')"

text \<open>Values the parser copies into fields they fit, and address values long enough for their
  family.\<close>

fun parsable :: "u16 \<times> bytes \<Rightarrow> bool" where
  "parsable (t, v) \<longleftrightarrow>
     (t = STUN_ATTR_TYPE_USERNAME \<longrightarrow> length v \<le> 128) \<and>
     (t = STUN_ATTR_TYPE_REALM \<or> t = STUN_ATTR_TYPE_NONCE \<longrightarrow> length v \<le> 64) \<and>
     (t = STUN_ATTR_TYPE_MESSAGE_INTEGRITY \<longrightarrow> length v \<le> 20) \<and>
     (t = STUN_ATTR_TYPE_FINGERPRINT \<longrightarrow> length v \<le> 4) \<and>
     (t \<in> {STUN_ATTR_TYPE_MAPPED_ADDRESS, STUN_ATTR_TYPE_XOR_MAPPED_ADDRESS, STUN_ATTR_TYPE_XOR_RELAYED_ADDRESS} \<longrightarrow>
        8 \<le> length v \<and> (v ! 1 = STUN_FAMILY_IPV6 \<longrightarrow> 20 \<le> length v))"

lemma wire_append: "wire as A \<Longrightarrow> wire bs B \<Longrightarrow> wire (as @ bs) (A @ B)"
proof (induction as arbitrary: A)
  case (Cons a as)
  obtain t v where a: "a = (t, v)" by (cases a)
  then obtain p A' where w: "length v < 65536" "A = be16 t @ be16 (of_nat (length v)) @ v @ p @ A'"
    "length v + length p = pad4 (length v)" "wire as A'" using Cons.prems(1) by auto
  have "wire (as @ bs) (A' @ B)" using Cons.IH [OF w(4) Cons.prems(2)] .
  then have "\<exists>q B'. p @ A' @ B = q @ B' \<and> length v + length q = pad4 (length v) \<and> wire (as @ bs) B'"
    using w(3) by blast
  then show ?case using w(1,2) a by simp
qed simp

lemma pad4_props: "n \<le> pad4 n" "pad4 n < n + 4" "4 dvd pad4 n"
  by (simp_all add: pad4_def)

lemma get_mapped_ok:
  assumes "8 \<le> length v" and "v ! 1 = STUN_FAMILY_IPV6 \<longrightarrow> 20 \<le> length v" and "length msk = 16" and "wf_addr a"
  shows "\<exists>a'. stun_get_mapped_address (v @ r) msk a = Some a' \<and> wf_addr a'"
  using assms
  by (auto simp: stun_get_mapped_address_def mem_get_def mem_read_def nth_append wf_addr_def addr_set_family_def
      addr_set_port_def Let_def)

lemma mem_write_wf: "length d \<le> length f \<Longrightarrow> \<exists>f'. mem_write 0 d f = Some f' \<and> length f' = length f"
  by (simp add: mem_write_def)

lemma get16_at: "pos = length P \<Longrightarrow> get16 pos (P @ be16 x @ R) = Some x"
  by (simp add: get16_def mem_read_def)

lemma parse_attr_ok:
  assumes "wf_stun m" and "sbuf m = P @ be16 t @ be16 (of_nat (length v)) @ v @ Q" and "parsable (t, v)"
    and "length v < 65536" and "20 \<le> length P"
  shows "\<exists>m'. stun_parse_attr m (length P) = Some m' \<and> sbuf m' = sbuf m \<and> wf_stun m'"
proof -
  have len: "get16 (length P) (sbuf m) = Some t" "get16 (length P + 2) (sbuf m) = Some (of_nat (length v))"
    using get16_at [of "length P" P t] get16_at [of "length P + 2" "P @ be16 t" "of_nat (length v)"]
    by (simp_all add: assms(2))
  have val: "drop (length P + 4) (sbuf m) = v @ Q" by (simp add: assms(2))
  have uv: "unat (of_nat (length v) :: u16) = length v" using assms(4) by (simp add: unat_of_nat)
  have rd: "mem_read 0 (length v) (v @ Q) = Some v" by (simp add: mem_read_def)
  have msk: "\<exists>k. stun_xor_mask (sbuf m) = Some k \<and> length k = 16"
    using assms(1) by (simp add: stun_xor_mask_def mem_read_def wf_stun_def STUN_ATTR_BUF_SIZE_def)
  have z: "length (replicate 16 0 :: bytes) = 16" by simp
  note g1 = get_mapped_ok [of v "replicate 16 0" "mapped_addr m" Q]
  obtain k where k: "stun_xor_mask (sbuf m) = Some k" "length k = 16" using msk by blast
  note g2 = get_mapped_ok [of v k "mapped_addr m" Q] and g3 = get_mapped_ok [of v k "relayed_addr m" Q]
  let ?keeps = "\<lambda>res. \<exists>m'. res = Some m' \<and> sbuf m' = sbuf m \<and> wf_stun m'"
  have split: "?keeps (if c then x else y)" if "c \<Longrightarrow> ?keeps x" "\<not> c \<Longrightarrow> ?keeps y" for c x y
    using that by simp
  have copy: "\<exists>f. mem_write 0 v f0 = Some f \<and> length f = length f0" if "length v \<le> length f0" for f0 :: bytes
    using that by (simp add: mem_write_def)
  have wf: "length (message_integrity m) = 20" "length (fingerprint m) = 4" "wf_addr (mapped_addr m)"
    "wf_addr (relayed_addr m)" using assms(1) by (simp_all add: wf_stun_def)
  show ?thesis
    unfolding stun_parse_attr_def len val Let_def uv rd Option.bind_lunit
  proof (intro split)
    assume "t = STUN_ATTR_TYPE_MAPPED_ADDRESS"
    then show "?keeps (do { a \<leftarrow> stun_get_mapped_address (v @ Q) (replicate 16 0) (mapped_addr m); Some (m\<lparr>mapped_addr := a\<rparr>) })"
      using assms(1,3) wf g1 by (auto simp: wf_stun_def)
  next
    assume "t = STUN_ATTR_TYPE_USERNAME"
    then show "?keeps (do { f \<leftarrow> mem_write 0 v (replicate 128 0); Some (m\<lparr>username := f\<rparr>) })"
      using assms(1,3) copy [of "replicate 128 0"] by (auto simp: wf_stun_def)
  next
    assume "t = STUN_ATTR_TYPE_MESSAGE_INTEGRITY"
    then show "?keeps (do { f \<leftarrow> mem_write 0 v (message_integrity m); Some (m\<lparr>message_integrity := f\<rparr>) })"
      using assms(1,3) copy [of "message_integrity m"] by (auto simp: wf_stun_def)
  next
    assume "t = STUN_ATTR_TYPE_REALM"
    then show "?keeps (do { f \<leftarrow> mem_write 0 v (replicate 64 0); Some (m\<lparr>realm := f\<rparr>) })"
      using assms(1,3) copy [of "replicate 64 0"] by (auto simp: wf_stun_def)
  next
    assume "t = STUN_ATTR_TYPE_NONCE"
    then show "?keeps (do { f \<leftarrow> mem_write 0 v (replicate 64 0); Some (m\<lparr>nonce := f\<rparr>) })"
      using assms(1,3) copy [of "replicate 64 0"] by (auto simp: wf_stun_def)
  next
    assume "t = STUN_ATTR_TYPE_XOR_RELAYED_ADDRESS"
    then show "?keeps (do { msk \<leftarrow> stun_xor_mask (sbuf m); a \<leftarrow> stun_get_mapped_address (v @ Q) msk (relayed_addr m);
        Some (m\<lparr>relayed_addr := a\<rparr>) })"
      using assms(1,3) wf g3 k by (auto simp: wf_stun_def)
  next
    assume "t = STUN_ATTR_TYPE_XOR_MAPPED_ADDRESS"
    then show "?keeps (do { msk \<leftarrow> stun_xor_mask (sbuf m); a \<leftarrow> stun_get_mapped_address (v @ Q) msk (mapped_addr m);
        Some (m\<lparr>mapped_addr := a\<rparr>) })"
      using assms(1,3) wf g2 k by (auto simp: wf_stun_def)
  next
    assume "t = STUN_ATTR_TYPE_FINGERPRINT"
    then show "?keeps (do { f \<leftarrow> mem_write 0 v (fingerprint m); Some (m\<lparr>fingerprint := f\<rparr>) })"
      using assms(1,3) copy [of "fingerprint m"] by (auto simp: wf_stun_def)
  qed (use assms(1) in simp)
qed


lemma parse_attrs_block:
  assumes "wire as A" and "\<forall>a \<in> set as. parsable a" and "wf_stun m" and "sbuf m = P @ A @ R"
    and "20 \<le> length P" and "length P + length A \<le> len"
  shows "\<exists>m'. stun_parse_attrs m (length P) len = stun_parse_attrs m' (length P + length A) len \<and>
    sbuf m' = sbuf m \<and> wf_stun m'"
  using assms
proof (induction as arbitrary: A P m)
  case (Cons a as)
  obtain t v where a: "a = (t, v)" by (cases a)
  then obtain p A' where w: "length v < 65536" "A = be16 t @ be16 (of_nat (length v)) @ v @ p @ A'"
    "length v + length p = pad4 (length v)" "wire as A'" using Cons.prems(1) by auto
  have b: "sbuf m = P @ be16 t @ be16 (of_nat (length v)) @ v @ (p @ A' @ R)" using Cons.prems(4) w(2) by simp
  obtain m1 where m1: "stun_parse_attr m (length P) = Some m1" "sbuf m1 = sbuf m" "wf_stun m1"
    using parse_attr_ok [OF Cons.prems(3) b _ w(1) Cons.prems(5)] Cons.prems(2) a by auto
  have g: "get16 (length P + 2) (sbuf m) = Some (of_nat (length v))"
    using get16_at [of "length P + 2" "P @ be16 t" "of_nat (length v)"] by (simp add: b)
  have uv: "unat (of_nat (length v) :: u16) = length v" using w(1) by (simp add: unat_of_nat)
  let ?P = "P @ be16 t @ be16 (of_nat (length v)) @ v @ p"
  have lP: "length ?P = length P + pad4 (length v) + STUN_ATTRIBUTE_SIZE" using w(3) by (simp add: STUN_ATTRIBUTE_SIZE_def)
  have "length P < len" using Cons.prems(6) w(2) by simp
  then have "stun_parse_attrs m (length P) len = stun_parse_attrs m1 (length ?P) len"
    unfolding lP using m1(1) g uv by (subst stun_parse_attrs.simps) simp
  moreover have "sbuf m1 = ?P @ A' @ R" using m1(2) b by simp
  moreover have "\<forall>a \<in> set as. parsable a" "20 \<le> length ?P" "length ?P + length A' \<le> len" "length ?P + length A' = length P + length A"
    using Cons.prems(2,5,6) w(2) by simp_all
  ultimately show ?case using Cons.IH [OF w(4) _ m1(3), of ?P] m1(2) by metis
qed auto

text \<open>A message under construction: a header whose length counts the attributes, the
  attributes, and the rest of the buffer.\<close>

definition built :: "StunMessage \<Rightarrow> (u16 \<times> bytes) list \<Rightarrow> bool" where
  "built m as \<longleftrightarrow> wf_stun m \<and> (\<exists>t T A R. sbuf m = be16 t @ be16 (of_nat (length A)) @ T @ A @ R \<and> length T = 16 \<and>
     wire as A \<and> msg_size m = 20 + length A)"

lemma set_sbuf_at:
  "off = length P \<Longrightarrow> sbuf m = P @ x @ Q \<Longrightarrow> length y = length x \<Longrightarrow> set_sbuf off y m = Some (m\<lparr>sbuf := P @ y @ Q\<rparr>)"
  by (simp add: set_sbuf_def mem_write_append)

lemma parse_attrs_end [simp]: "len \<le> pos \<Longrightarrow> stun_parse_attrs m pos len = Some m"
  by (subst stun_parse_attrs.simps) simp

lemma parse_full_field:
  assumes "wf_stun m" and "sbuf m = P @ be16 t @ be16 (of_nat (length v)) @ v @ Q"
  shows "t = STUN_ATTR_TYPE_MESSAGE_INTEGRITY \<Longrightarrow> length v = 20 \<Longrightarrow>
      stun_parse_attr m (length P) = Some (m\<lparr>message_integrity := v\<rparr>)"
    and "t = STUN_ATTR_TYPE_FINGERPRINT \<Longrightarrow> length v = 4 \<Longrightarrow>
      stun_parse_attr m (length P) = Some (m\<lparr>fingerprint := v\<rparr>)"
proof -
  have len: "get16 (length P) (sbuf m) = Some t" "get16 (length P + 2) (sbuf m) = Some (of_nat (length v))"
    using get16_at [of "length P" P t] get16_at [of "length P + 2" "P @ be16 t" "of_nat (length v)"]
    by (simp_all add: assms(2))
  have val: "drop (length P + 4) (sbuf m) = v @ Q" by (simp add: assms(2))
  have l: "length (message_integrity m) = 20" "length (fingerprint m) = 4" using assms(1) by (simp_all add: wf_stun_def)
  show "stun_parse_attr m (length P) = Some (m\<lparr>message_integrity := v\<rparr>)"
    if "t = STUN_ATTR_TYPE_MESSAGE_INTEGRITY" "length v = 20"
    unfolding stun_parse_attr_def len val Let_def Option.bind_lunit
    using that l by (simp add: stun_types mem_read_def mem_write_def)
  show "stun_parse_attr m (length P) = Some (m\<lparr>fingerprint := v\<rparr>)"
    if "t = STUN_ATTR_TYPE_FINGERPRINT" "length v = 4"
    unfolding stun_parse_attr_def len val Let_def Option.bind_lunit
    using that l by (simp add: stun_types mem_read_def mem_write_def)
qed


section \<open>Finished messages\<close>

definition stun_key ::
  "(bytes \<Rightarrow> bytes) \<Rightarrow> StunMessage \<Rightarrow> StunCredential \<Rightarrow> bytes \<Rightarrow> nat \<Rightarrow> bytes option" where
  "stun_key md5 msg credential password password_len = (case credential of
     STUN_CREDENTIAL_LONG_TERM \<Rightarrow> long_term_key md5 msg password
   | STUN_CREDENTIAL_SHORT_TERM \<Rightarrow> mem_read 0 password_len (password @ [0]))"

lemma take_prefix: "n = length P \<Longrightarrow> mem_read 0 n (P @ Q) = Some P"
  by (simp add: mem_read_def)

lemma split_32:
  assumes "32 \<le> length (R :: bytes)"
  obtains x1 x2 x3 x4 Q where "R = x1 @ x2 @ x3 @ x4 @ Q" "length x1 = 4" "length x2 = 20" "length x3 = 4" "length x4 = 4"
proof -
  obtain x1 x2 r where 1: "R = x1 @ x2 @ r" "length x1 = 4" "length x2 = 20" using list_cut [of 4 20 R] assms by auto
  then obtain x3 x4 Q where "r = x3 @ x4 @ Q" "length x3 = 4" "length x4 = 4" using list_cut [of 4 4 r] assms by auto
  with 1 that show ?thesis by blast
qed

lemma finish_eq:
  fixes A T :: bytes
  defines "h24 \<equiv> \<lambda>t. be16 t @ be16 (of_nat (length A) + 24)"
    and "h32 \<equiv> \<lambda>t. be16 t @ be16 (of_nat (length A) + 24 + 8)"
  assumes "sbuf m = be16 t @ be16 (of_nat (length A)) @ T @ A @ R" and "32 \<le> length R" and "length T = 16"
    and "msg_size m = 20 + length A" and "\<And>d. length (hmac d key) = 20"
    and "stun_key md5 m credential password password_len = Some key"
  shows "\<exists>Q m'. stun_msg_finish hmac md5 m credential password password_len = Some m' \<and>
    m' = m\<lparr>sbuf := h32 t @ T @ A @ be16 STUN_ATTR_TYPE_MESSAGE_INTEGRITY @ be16 20 @ hmac (h24 t @ T @ A) key @
           be16 STUN_ATTR_TYPE_FINGERPRINT @ be16 4 @
           stun_calculate_fingerprint (h32 t @ T @ A @ be16 STUN_ATTR_TYPE_MESSAGE_INTEGRITY @ be16 20 @ hmac (h24 t @ T @ A) key) @ Q,
         msg_size := 52 + length A\<rparr> \<and> length Q + 32 = length R"
proof -
  obtain x1 x2 x3 x4 Q where R: "R = x1 @ x2 @ x3 @ x4 @ Q" "length x1 = 4" "length x2 = 20" "length x3 = 4" "length x4 = 4"
    using split_32 [OF assms(4)] by blast
  let ?mi = "be16 STUN_ATTR_TYPE_MESSAGE_INTEGRITY @ be16 20" and ?fp = "be16 STUN_ATTR_TYPE_FINGERPRINT @ be16 4"
  let ?h = "hmac (h24 t @ T @ A) key"
  let ?f = "stun_calculate_fingerprint (h32 t @ T @ A @ ?mi @ ?h)"
  let ?m1 = "m\<lparr>sbuf := h24 t @ T @ A @ x1 @ x2 @ x3 @ x4 @ Q\<rparr>"
  let ?m2 = "m\<lparr>sbuf := h24 t @ T @ A @ ?mi @ x2 @ x3 @ x4 @ Q\<rparr>"
  let ?m3 = "m\<lparr>sbuf := h24 t @ T @ A @ ?mi @ ?h @ x3 @ x4 @ Q\<rparr>"
  let ?m4 = "m\<lparr>sbuf := h32 t @ T @ A @ ?mi @ ?h @ x3 @ x4 @ Q, msg_size := 44 + length A\<rparr>"
  let ?m5 = "m\<lparr>sbuf := h32 t @ T @ A @ ?mi @ ?h @ ?fp @ x4 @ Q, msg_size := 44 + length A\<rparr>"
  let ?m6 = "m\<lparr>sbuf := h32 t @ T @ A @ ?mi @ ?h @ ?fp @ ?f @ Q, msg_size := 44 + length A\<rparr>"
  have lh: "length (h24 t) = 4" "length (h32 t) = 4" by (simp_all add: h24_def h32_def)
  have 0: "get16 2 (sbuf m) = Some (of_nat (length A))" using get16_at [of 2 "be16 t"] assms(3) by simp
  have 1: "set_sbuf 2 (be16 (of_nat (length A) + 24)) m = Some ?m1"
    using set_sbuf_at [of 2 "be16 t" m "be16 (of_nat (length A))"] assms(3) by (simp add: R(1) h24_def)
  have 2: "set_sbuf (20 + length A) ?mi ?m1 = Some ?m2"
    using set_sbuf_at [of "20 + length A" "h24 t @ T @ A" ?m1 x1 "x2 @ x3 @ x4 @ Q" ?mi] lh R(2) assms(5) by simp
  have d2: "mem_read 0 (20 + length A) (sbuf ?m2) = Some (h24 t @ T @ A)"
    using take_prefix [of "20 + length A" "h24 t @ T @ A"] lh assms(5) by simp
  have 3: "set_sbuf (20 + length A + 4) ?h ?m2 = Some ?m3"
    using set_sbuf_at [of "20 + length A + 4" "h24 t @ T @ A @ ?mi" ?m2 x2 "x3 @ x4 @ Q" ?h] lh R(3) assms(5,7) by simp
  have 4: "set_sbuf 2 (be16 (of_nat (length A) + 24 + 8)) (?m3\<lparr>msg_size := 44 + length A\<rparr>) = Some ?m4"
    using set_sbuf_at [of 2 "be16 t" "?m3\<lparr>msg_size := 44 + length A\<rparr>" "be16 (of_nat (length A) + 24)"
        "T @ A @ ?mi @ ?h @ x3 @ x4 @ Q" "be16 (of_nat (length A) + 24 + 8)"] by (simp add: h24_def h32_def)
  have 5: "set_sbuf (44 + length A) ?fp ?m4 = Some ?m5"
    using set_sbuf_at [of "44 + length A" "h32 t @ T @ A @ ?mi @ ?h" ?m4 x3 "x4 @ Q" ?fp] lh R(4) assms(5,7) by simp
  have d5: "mem_read 0 (44 + length A) (sbuf ?m5) = Some (h32 t @ T @ A @ ?mi @ ?h)"
    using take_prefix [of "44 + length A" "h32 t @ T @ A @ ?mi @ ?h"] lh assms(5,7) by simp
  have 6: "set_sbuf (44 + length A + 4) ?f ?m5 = Some ?m6"
    using set_sbuf_at [of "44 + length A + 4" "h32 t @ T @ A @ ?mi @ ?h @ ?fp" ?m5 x4 Q ?f] lh R(5) assms(5,7)
    by (simp add: stun_calculate_fingerprint_def)
  have ms: "msg_size ?m1 = 20 + length A" "msg_size ?m2 = 20 + length A" "msg_size ?m3 + STUN_ATTRIBUTE_SIZE + 20 = 44 + length A"
    "msg_size ?m4 = 44 + length A" "msg_size ?m5 = 44 + length A" "msg_size ?m6 + STUN_ATTRIBUTE_SIZE + 4 = 52 + length A"
    using assms(6) by (simp_all add: STUN_ATTRIBUTE_SIZE_def)
  have key: "(case credential of STUN_CREDENTIAL_LONG_TERM \<Rightarrow> long_term_key md5 m password
      | STUN_CREDENTIAL_SHORT_TERM \<Rightarrow> mem_read 0 password_len (password @ [0])) = Some key"
    using assms(8) by (simp add: stun_key_def)
  have "stun_msg_finish hmac md5 m credential password password_len = Some (?m6\<lparr>msg_size := 52 + length A\<rparr>)"
    unfolding stun_msg_finish_def 0 Option.bind_lunit key 1 ms(1) 2 ms(2) d2 3 Let_def ms(3) 4 ms(4) 5 ms(5) d5 6 ms(6) ..
  then show ?thesis using R by (intro exI [of _ Q]) simp
qed


section \<open>Building a message\<close>

text \<open>An attribute to write: type, length and value, \<^const>\<open>None\<close> for a null pointer.\<close>

type_synonym attr = "u16 \<times> u16 \<times> bytes option"

fun stun_write_all :: "attr list \<Rightarrow> StunMessage \<Rightarrow> StunMessage option" where
  "stun_write_all [] m = Some m"
| "stun_write_all ((type, len, value) # as) m = do {
     m \<leftarrow> stun_msg_write_attr m type len value;
     stun_write_all as m }"

definition kept_field :: "u16 \<Rightarrow> bool" where
  "kept_field t \<longleftrightarrow> t \<in> {STUN_ATTR_TYPE_REALM, STUN_ATTR_TYPE_NONCE, STUN_ATTR_TYPE_USERNAME}"

fun attr_pair :: "attr \<Rightarrow> u16 \<times> bytes" where
  "attr_pair (t, n, None) = (t, [])"
| "attr_pair (t, n, Some v) = (t, take (unat n) v)"

text \<open>What a caller owes: a value as long as it says (a null pointer with length 0), for a kept
  field a value readable and storable up to the padding, and a content the parser accepts.\<close>

fun attr_ok :: "attr \<Rightarrow> bool" where
  "attr_ok (t, n, v) \<longleftrightarrow>
     (case v of None \<Rightarrow> n = 0 \<and> \<not> kept_field t
      | Some w \<Rightarrow> unat n \<le> length w \<and> (kept_field t \<longrightarrow> pad4 (unat n) \<le> length w \<and>
          pad4 (unat n) \<le> (if t = STUN_ATTR_TYPE_USERNAME then 128 else 64))) \<and>
     parsable (attr_pair (t, n, v))"

definition attrs_size :: "attr list \<Rightarrow> nat" where
  "attrs_size as = (\<Sum>(t, n, v) \<leftarrow> as. 4 + pad4 (unat n))"

lemma attrs_size_simps [simp]:
  "attrs_size [] = 0" "attrs_size ((t, n, v) # as) = 4 + pad4 (unat n) + attrs_size as"
  by (simp_all add: attrs_size_def)

lemma builtI:
  "wf_stun m \<Longrightarrow> sbuf m = be16 t @ be16 (of_nat (length A)) @ T @ A @ R \<Longrightarrow> length T = 16 \<Longrightarrow> wire as A \<Longrightarrow>
   msg_size m = 20 + length A \<Longrightarrow> built m as"
  unfolding built_def by blast

lemma built_create: "wf_stun m \<Longrightarrow> \<exists>m'. stun_msg_create m type = Some m' \<and> built m' [] \<and> msg_size m' = 20"
proof -
  assume wf: "wf_stun m"
  let ?T = "be32 MAGIC_COOKIE @ be32 (CRC32_TABLE ! 1) @ be32 (CRC32_TABLE ! 2) @ be32 (CRC32_TABLE ! 3)"
  let ?h = "be16 type @ be16 (of_nat (length ([] :: bytes))) @ ?T @ []"
  let ?m = "m\<lparr>sbuf := ?h @ drop 20 (sbuf m), msg_size := STUN_HEADER_SIZE\<rparr>"
  have "20 \<le> length (sbuf m)" using wf by (simp add: wf_stun_def STUN_ATTR_BUF_SIZE_def)
  then have c: "stun_msg_create m type = Some ?m" and "wf_stun ?m"
    using wf by (simp_all add: stun_msg_create_def set_sbuf_def mem_write_def wf_stun_def)
  moreover have "sbuf ?m = be16 type @ be16 (of_nat (length ([] :: bytes))) @ ?T @ [] @ drop 20 (sbuf m)"
    "length ?T = 16" "wire [] []" "msg_size ?m = 20 + length ([] :: bytes)" by (simp_all add: STUN_HEADER_SIZE_def)
  ultimately show ?thesis unfolding built_def by (metis add_0_right list.size(3))
qed

lemma keep_fieldD: "n \<le> length v \<Longrightarrow> n \<le> length f \<Longrightarrow>
   \<exists>f'. mem_read 0 n v = Some (take n v) \<and> mem_write 0 (take n v) f = Some f' \<and> length f' = length f"
  by (simp add: mem_read_def mem_write_def)

lemma built_write:
  assumes "built m as" and "attr_ok (type, n, value)" and "msg_size m + 4 + pad4 (unat n) \<le> STUN_ATTR_BUF_SIZE"
  shows "\<exists>m'. stun_msg_write_attr m type n value = Some m' \<and> built m' (as @ [attr_pair (type, n, value)]) \<and>
     msg_size m' = msg_size m + 4 + pad4 (unat n)"
proof -
  let ?k = "unat n"
  obtain t T A R where b: "sbuf m = be16 t @ be16 (of_nat (length A)) @ T @ A @ R" "length T = 16" "wire as A"
    "msg_size m = 20 + length A" and wf: "wf_stun m" using assms(1) unfolding built_def by blast
  have lR: "4 + pad4 ?k \<le> length R" and small: "pad4 ?k < 65536" "?k \<le> pad4 ?k"
    using assms(3) b wf by (simp_all add: wf_stun_def STUN_ATTR_BUF_SIZE_def pad4_props)
  obtain x1 x2 r where R: "R = x1 @ x2 @ r" "length x1 = 4" "length x2 = ?k" using list_cut [of 4 ?k R] lR small by auto
  have "0 + (pad4 ?k - ?k) \<le> length r" using R lR small by simp
  then obtain e pd Q where r: "r = e @ pd @ Q" "length e = 0" "length pd = pad4 ?k - ?k" by (rule list_cut)
  then have r: "r = pd @ Q" "length pd = pad4 ?k - ?k" by simp_all
  define v where "v = (case value of None \<Rightarrow> [] | Some w \<Rightarrow> take ?k w)"
  have lv: "length v = ?k" and pair: "attr_pair (type, n, value) = (type, v)"
    using assms(2) by (auto simp: v_def split: option.splits)
  let ?hd = "be16 type @ be16 n" and ?len = "be16 (of_nat (length A))"
  let ?len' = "be16 (of_nat (length A) + of_nat STUN_ATTRIBUTE_SIZE + of_nat (pad4 ?k))"
  let ?m1 = "m\<lparr>sbuf := be16 t @ ?len @ T @ A @ ?hd @ x2 @ pd @ Q\<rparr>"
  let ?m2 = "m\<lparr>sbuf := be16 t @ ?len @ T @ A @ ?hd @ v @ pd @ Q\<rparr>"
  let ?m3 = "m\<lparr>sbuf := be16 t @ ?len' @ T @ A @ ?hd @ v @ pd @ Q\<rparr>"
  let ?m4 = "?m3\<lparr>msg_size := msg_size m + 4 + pad4 ?k\<rparr>"
  have 1: "set_sbuf (msg_size m) ?hd m = Some ?m1"
    using set_sbuf_at [of "msg_size m" "be16 t @ ?len @ T @ A" m x1 "x2 @ pd @ Q" ?hd] b R r by simp
  have 2: "(case value of None \<Rightarrow> Some ?m1 | Some w \<Rightarrow> do { d \<leftarrow> mem_read 0 ?k w;
      set_sbuf (msg_size m + STUN_ATTRIBUTE_SIZE) d ?m1 }) = Some ?m2"
  proof (cases "value")
    case None
    then show ?thesis using R(3) lv by (simp add: v_def)
  next
    case (Some w)
    then have "mem_read 0 ?k w = Some v" using assms(2) by (simp add: v_def mem_read_def)
    then show ?thesis
      using set_sbuf_at [of "msg_size m + STUN_ATTRIBUTE_SIZE" "be16 t @ ?len @ T @ A @ ?hd" ?m1 x2 "pd @ Q" v]
      by (simp add: Some b R lv STUN_ATTRIBUTE_SIZE_def)
  qed
  have 3: "get16 2 (sbuf ?m2) = Some (of_nat (length A))" using get16_at [of 2 "be16 t"] by simp
  have 4: "set_sbuf 2 ?len' ?m2 = Some ?m3"
    using set_sbuf_at [of 2 "be16 t" ?m2 ?len "T @ A @ ?hd @ v @ pd @ Q" ?len'] by simp
  have up: "unat (of_nat (pad4 ?k) :: u16) = pad4 ?k" using small(1) by (simp add: unat_of_nat)
  have 5: "?m3\<lparr>msg_size := msg_size ?m3 + pad4 ?k + STUN_ATTRIBUTE_SIZE\<rparr> = ?m4" by (simp add: STUN_ATTRIBUTE_SIZE_def)
  let ?A = "A @ ?hd @ v @ pd"
  have "wire [(type, v)] (?hd @ v @ pd)" using lv small r by auto
  then have "wire (as @ [(type, v)]) ?A" using wire_append [OF b(3)] by simp
  moreover have "?len' = be16 (of_nat (length ?A))" using lv small r by (simp add: STUN_ATTRIBUTE_SIZE_def add_ac)
  moreover have wf4: "wf_stun ?m4" using wf b R r lv by (simp add: wf_stun_def)
  moreover have "msg_size ?m4 = 20 + length ?A" using b(4) lv small r by simp
  ultimately have bu: "built m4 (as @ [(type, v)])"
    if "wf_stun m4" "sbuf m4 = sbuf ?m4" "msg_size m4 = msg_size ?m4" for m4
    using that b(2) by (intro builtI [of m4 t ?A T Q]) simp_all
  have fin: "\<exists>m'. (if type = STUN_ATTR_TYPE_REALM then do {
        w \<leftarrow> value; d \<leftarrow> mem_read 0 (pad4 ?k) w; f \<leftarrow> mem_write 0 d (realm ?m4); Some (?m4\<lparr>realm := f\<rparr>) }
      else if type = STUN_ATTR_TYPE_NONCE then do {
        w \<leftarrow> value; d \<leftarrow> mem_read 0 (pad4 ?k) w; f \<leftarrow> mem_write 0 d (nonce ?m4); Some (?m4\<lparr>nonce := f\<rparr>) }
      else if type = STUN_ATTR_TYPE_USERNAME then do {
        w \<leftarrow> value; d \<leftarrow> mem_read 0 (pad4 ?k) w; f \<leftarrow> mem_write 0 d (username ?m4); Some (?m4\<lparr>username := f\<rparr>) }
      else Some ?m4) = Some m' \<and> wf_stun m' \<and> sbuf m' = sbuf ?m4 \<and> msg_size m' = msg_size ?m4"
  proof (cases "kept_field type")
    case True
    then obtain w where w: "value = Some w" "pad4 ?k \<le> length w" "pad4 ?k \<le> (if type = STUN_ATTR_TYPE_USERNAME then 128 else 64)"
      using assms(2) by (auto split: option.splits)
    have l: "length (realm ?m4) = 64" "length (nonce ?m4) = 64" "length (username ?m4) = 128"
      using wf by (simp_all add: wf_stun_def)
    from True consider "type = STUN_ATTR_TYPE_REALM" | "type = STUN_ATTR_TYPE_NONCE" | "type = STUN_ATTR_TYPE_USERNAME"
      by (auto simp: kept_field_def)
    then show ?thesis
      using w wf4 l by cases (auto simp: mem_read_def mem_write_def wf_stun_def stun_types)
  next
    case False
    then show ?thesis using wf4 by (auto simp: kept_field_def)
  qed
  then obtain m' where m': "stun_msg_write_attr m type n value = Some m'" "wf_stun m'" "sbuf m' = sbuf ?m4" "msg_size m' = msg_size ?m4"
    unfolding stun_msg_write_attr_def Let_def 1 Option.bind_lunit 2 3 4 up 5 by blast
  have "built m' (as @ [(type, v)])" using m'(2-4) by (rule bu)
  then show ?thesis using m' pair by auto
qed

lemma built_write_all:
  assumes "built m as" and "\<forall>a \<in> set bs. attr_ok a" and "msg_size m + attrs_size bs \<le> STUN_ATTR_BUF_SIZE"
  shows "\<exists>m'. stun_write_all bs m = Some m' \<and> built m' (as @ map attr_pair bs) \<and> msg_size m' = msg_size m + attrs_size bs"
  using assms
proof (induction bs arbitrary: m as)
  case (Cons b bs)
  obtain t n v where b: "b = (t, n, v)" by (cases b)
  obtain m1 where m1: "stun_msg_write_attr m t n v = Some m1" "built m1 (as @ [attr_pair b])" "msg_size m1 = msg_size m + 4 + pad4 (unat n)"
    using built_write [OF Cons.prems(1), of t n v] Cons.prems(2,3) b by auto
  then obtain m' where "stun_write_all bs m1 = Some m'" "built m' ((as @ [attr_pair b]) @ map attr_pair bs)"
      "msg_size m' = msg_size m1 + attrs_size bs"
    using Cons.IH [OF m1(2)] Cons.prems(2,3) b by auto
  then show ?case using m1 b by simp
qed simp


section \<open>A finished message is accepted\<close>

lemma parse_step:
  assumes "pos < len" and "stun_parse_attr m pos = Some m'" and "get16 (pos + 2) (sbuf m) = Some n"
  shows "stun_parse_attrs m pos len = stun_parse_attrs m' (pos + pad4 (unat n) + STUN_ATTRIBUTE_SIZE) len"
  using assms by (subst stun_parse_attrs.simps) simp

lemma finished_parse:
  fixes t :: u16
  assumes "wf_stun m" and "length T = 16" and "wire as A" and "\<forall>a \<in> set as. parsable a" and "length A < 60000"
    and "length mi = 20" and "length fp = 4"
    and "sbuf m = be16 t @ be16 (of_nat (length A) + 24 + 8) @ T @ A @ be16 STUN_ATTR_TYPE_MESSAGE_INTEGRITY @ be16 20 @ mi @
      be16 STUN_ATTR_TYPE_FINGERPRINT @ be16 4 @ fp @ Q"
  shows "\<exists>m'. stun_parse_msg_buf m = Some m' \<and> sbuf m' = sbuf m \<and> message_integrity m' = mi \<and> fingerprint m' = fp"
proof -
  let ?h = "be16 t @ be16 (of_nat (length A) + 24 + 8) @ T"
  let ?mi = "be16 STUN_ATTR_TYPE_MESSAGE_INTEGRITY" and ?fp = "be16 STUN_ATTR_TYPE_FINGERPRINT"
  let ?m0 = "m\<lparr>stunclass := stun_class_of t, stunmethod := stun_method_of t\<rparr>"
  let ?n = "length A + 52"
  have g: "get16 2 (sbuf m) = Some (of_nat (length A) + 24 + 8)" "get16 0 (sbuf m) = Some t"
    using get16_at [of 2 "be16 t"] get16_at [of 0 "[]" t] assms(8) by simp_all
  have "(of_nat (length A) + 24 + 8 :: u16) = of_nat (length A + 32)" by simp
  then have u: "unat (of_nat (length A) + 24 + 8 :: u16) + STUN_HEADER_SIZE = ?n"
    using assms(5) by (simp only: unat_of_nat) (simp add: STUN_HEADER_SIZE_def)
  have s0: "wf_stun ?m0" "sbuf ?m0 = ?h @ A @ (?mi @ be16 20 @ mi @ ?fp @ be16 4 @ fp @ Q)" "length ?h = 20"
    using assms(1,2,8) by (simp_all add: wf_stun_def)
  have "length ?h + length A \<le> ?n" "20 \<le> length ?h" using s0(3) by simp_all
  then obtain m1 where m1: "stun_parse_attrs ?m0 (length ?h) ?n = stun_parse_attrs m1 (length ?h + length A) ?n"
      "sbuf m1 = sbuf ?m0" "wf_stun m1"
    using parse_attrs_block [OF assms(3,4) s0(1,2)] by blast
  have b1: "sbuf m1 = (?h @ A) @ be16 STUN_ATTR_TYPE_MESSAGE_INTEGRITY @ be16 (of_nat (length mi)) @ mi @ (?fp @ be16 4 @ fp @ Q)"
    using m1(2) s0(2) assms(6) by simp
  have p1: "stun_parse_attr m1 (length (?h @ A)) = Some (m1\<lparr>message_integrity := mi\<rparr>)"
    by (rule parse_full_field(1) [OF m1(3) b1 refl assms(6)])
  have g1: "get16 (length (?h @ A) + 2) (sbuf m1) = Some 20"
    using get16_at [of "length (?h @ A) + 2" "?h @ A @ ?mi" "20"] by (simp add: b1 assms(6))
  let ?m2 = "m1\<lparr>message_integrity := mi\<rparr>"
  have wf2: "wf_stun ?m2" using m1(3) assms(6) by (simp add: wf_stun_def)
  let ?P = "?h @ A @ ?mi @ be16 20 @ mi"
  have b2: "sbuf ?m2 = ?P @ be16 STUN_ATTR_TYPE_FINGERPRINT @ be16 (of_nat (length fp)) @ fp @ Q"
    using b1 assms(6,7) by simp
  have p2: "stun_parse_attr ?m2 (length ?P) = Some (?m2\<lparr>fingerprint := fp\<rparr>)"
    by (rule parse_full_field(2) [OF wf2 b2 refl assms(7)])
  have g2: "get16 (length ?P + 2) (sbuf ?m2) = Some 4"
    using get16_at [of "length ?P + 2" "?P @ ?fp" "4"] by (simp add: b2 assms(7) del: append_assoc) (simp add: assms(7))
  have l1: "length (?h @ A) + pad4 (unat (20 :: u16)) + STUN_ATTRIBUTE_SIZE = length ?P"
    using assms(6) by (simp add: pad4_def STUN_ATTRIBUTE_SIZE_def)
  have l2: "?n \<le> length ?P + pad4 (unat (4 :: u16)) + STUN_ATTRIBUTE_SIZE"
    using assms(2,6) by (simp add: pad4_def STUN_ATTRIBUTE_SIZE_def)
  have lt: "length (?h @ A) < ?n" "length ?P < ?n" using assms(2,6) by simp_all
  have "stun_parse_attrs ?m0 (length ?h) ?n = stun_parse_attrs m1 (length (?h @ A)) ?n" using m1(1) by simp
  also have "\<dots> = stun_parse_attrs ?m2 (length ?P) ?n" unfolding parse_step [OF lt(1) p1 g1] l1 ..
  also have "\<dots> = Some (?m2\<lparr>fingerprint := fp\<rparr>)" using parse_step [OF lt(2) p2 g2] l2 by simp
  finally have "stun_parse_msg_buf m = Some (?m2\<lparr>fingerprint := fp\<rparr>)"
    unfolding stun_parse_msg_buf_def g Option.bind_lunit u using s0(3) by (simp add: STUN_HEADER_SIZE_def)
  then show ?thesis using m1(2) by simp
qed

lemma take_pre: "n = length P \<Longrightarrow> take n (P @ Q) = P"
  by simp

lemma finished_is_valid:
  assumes "built m as" and "\<forall>a \<in> set as. parsable a" and "msg_size m + 32 \<le> STUN_ATTR_BUF_SIZE"
    and hmac: "\<And>d. length (hmac d key) = 20" and k: "stun_key md5 m credential password password_len = Some key"
    and msg0: "wf_stun msg0"
  shows "\<exists>m'. stun_msg_finish hmac md5 m credential password password_len = Some m' \<and>
    msg_size m' = msg_size m + 32 \<and>
    stun_msg_is_valid hmac msg0 (take (msg_size m') (sbuf m')) (msg_size m') key = Some 0"
proof -
  obtain t T A R where b: "sbuf m = be16 t @ be16 (of_nat (length A)) @ T @ A @ R" "length T = 16" "wire as A"
    "msg_size m = 20 + length A" and wf: "wf_stun m" using assms(1) unfolding built_def by blast
  have R: "32 \<le> length R" and small: "length A < 60000" using b assms(3) wf by (simp_all add: wf_stun_def STUN_ATTR_BUF_SIZE_def)
  let ?h24 = "be16 t @ be16 (of_nat (length A) + 24)" and ?h32 = "be16 t @ be16 (of_nat (length A) + 24 + 8)"
  let ?mi = "be16 STUN_ATTR_TYPE_MESSAGE_INTEGRITY @ be16 20" and ?fp = "be16 STUN_ATTR_TYPE_FINGERPRINT @ be16 4"
  let ?h = "hmac (?h24 @ T @ A) key"
  let ?d = "?h32 @ T @ A @ ?mi @ ?h"
  let ?f = "stun_calculate_fingerprint ?d"
  obtain Q where fin: "stun_msg_finish hmac md5 m credential password password_len =
      Some (m\<lparr>sbuf := ?h32 @ T @ A @ ?mi @ ?h @ ?fp @ ?f @ Q, msg_size := 52 + length A\<rparr>)"
    using finish_eq [where hmac = hmac and key = key, OF b(1) R b(2,4) hmac k] by auto
  let ?sz = "52 + length A" and ?wire = "?h32 @ T @ A @ ?mi @ ?h @ ?fp @ ?f"
  have lf: "length ?f = 4" by (simp add: stun_calculate_fingerprint_def)
  have lw: "length ?wire = ?sz" using b(2) hmac lf by simp
  let ?Z = "drop ?sz (sbuf msg0)"
  let ?msg = "msg0\<lparr>sbuf := ?wire @ ?Z\<rparr>"
  have big: "?sz \<le> length (sbuf msg0)" using msg0 assms(3) b(4) by (simp add: wf_stun_def)
  have 1: "mem_read 0 ?sz ?wire = Some ?wire" by (simp only: mem_read_def lw[symmetric]) simp
  have 2: "set_sbuf 0 ?wire msg0 = Some ?msg"
    using big by (simp only: set_sbuf_def mem_write_def lw) simp
  have wf2: "wf_stun ?msg" using msg0 big lw by (simp add: wf_stun_def)
  have sb: "sbuf ?msg = be16 t @ be16 (of_nat (length A) + 24 + 8) @ T @ A @ be16 STUN_ATTR_TYPE_MESSAGE_INTEGRITY @ be16 20 @ ?h @
      be16 STUN_ATTR_TYPE_FINGERPRINT @ be16 4 @ ?f @ ?Z" by simp
  obtain p where p: "stun_parse_msg_buf ?msg = Some p" "sbuf p = ?wire @ ?Z" "message_integrity p = ?h" "fingerprint p = ?f"
    using finished_parse [OF wf2 b(2,3) assms(2) small hmac lf sb] by auto
  have 3: "mem_read 0 (?sz - 4 - STUN_ATTRIBUTE_SIZE) (sbuf p) = Some ?d"
    using take_prefix [of "?sz - 4 - STUN_ATTRIBUTE_SIZE" ?d "?fp @ ?f @ ?Z"] b(2) hmac p(2) by (simp add: STUN_ATTRIBUTE_SIZE_def)
  have 4: "get16 2 (sbuf p) = Some (of_nat (length A) + 24 + 8)" using get16_at [of 2 "be16 t"] p(2) by simp
  let ?hl = "be16 (of_nat (length A) + 24 + 8 - 4 - of_nat STUN_ATTRIBUTE_SIZE) :: bytes"
  have e: "?hl = be16 (of_nat (length A) + 24)" by (simp add: STUN_ATTRIBUTE_SIZE_def)
  have 5: "set_sbuf 2 ?hl p = Some (p\<lparr>sbuf := be16 t @ ?hl @ T @ A @ ?mi @ ?h @ ?fp @ ?f @ ?Z\<rparr>)"
    using set_sbuf_at [of 2 "be16 t" p "be16 (of_nat (length A) + 24 + 8)" "T @ A @ ?mi @ ?h @ ?fp @ ?f @ ?Z" ?hl] p(2) by simp
  have 6: "mem_read 0 (?sz - 4 - STUN_ATTRIBUTE_SIZE - 20 - STUN_ATTRIBUTE_SIZE) (be16 t @ ?hl @ T @ A @ ?mi @ ?h @ ?fp @ ?f @ ?Z) =
      Some (be16 t @ ?hl @ T @ A)"
    using take_prefix [of "?sz - 4 - STUN_ATTRIBUTE_SIZE - 20 - STUN_ATTRIBUTE_SIZE" "be16 t @ ?hl @ T @ A" "?mi @ ?h @ ?fp @ ?f @ ?Z"] b(2)
    by (simp add: STUN_ATTRIBUTE_SIZE_def)
  let ?buf = "be16 t @ ?hl @ T @ A @ ?mi @ ?h @ ?fp @ ?f @ ?Z"
  have 7: "sbuf (p\<lparr>sbuf := ?buf\<rparr>) = ?buf" "message_integrity (p\<lparr>sbuf := ?buf\<rparr>) = ?h" using p(3) by simp_all
  have 8: "hmac (be16 t @ ?hl @ T @ A) key = ?h" unfolding e by simp
  have "stun_msg_is_valid hmac msg0 ?wire ?sz key = Some 0"
    unfolding stun_msg_is_valid_def 1 Option.bind_lunit 2 p(1) 3 p(4) 4 5 7 6 8 by simp
  moreover have "take ?sz (?wire @ Q) = ?wire" by (rule take_pre) (rule lw [symmetric])
  then have "take ?sz (?h32 @ T @ A @ ?mi @ ?h @ ?fp @ ?f @ Q) = ?wire" by (simp only: append_assoc)
  ultimately show ?thesis using fin b(4) by simp
qed

lemma attr_ok_parsable: "attr_ok a \<Longrightarrow> parsable (attr_pair a)"
  by (cases a) auto

text \<open>The type in the header stays what \<open>stun_msg_create\<close> wrote.\<close>

definition type_kept :: "StunMessage \<Rightarrow> StunMessage \<Rightarrow> bool" where
  "type_kept m m' \<longleftrightarrow> take 2 (sbuf m') = take 2 (sbuf m) \<and> length (sbuf m') = length (sbuf m) \<and> msg_size m \<le> msg_size m'"

lemma type_kept_refl [simp]: "type_kept m m"
  by (simp add: type_kept_def)

lemma type_kept_trans: "type_kept m m1 \<Longrightarrow> type_kept m1 m2 \<Longrightarrow> type_kept m m2"
  by (simp add: type_kept_def)

lemma set_sbuf_kept: "set_sbuf off d m = Some m' \<Longrightarrow>
    msg_size m' = msg_size m \<and> length (sbuf m') = length (sbuf m) \<and> (2 \<le> off \<longrightarrow> take 2 (sbuf m') = take 2 (sbuf m))"
  by (auto simp: set_sbuf_def mem_write_def min_def split: if_splits)

lemma write_attr_kept:
  assumes "stun_msg_write_attr m type n v = Some m'" and "2 \<le> msg_size m"
  shows "type_kept m m'"
proof -
  from assms(1) obtain m1 m2 l m3 where 1: "set_sbuf (msg_size m) (be16 type @ be16 n) m = Some m1"
    and 2: "(case v of None \<Rightarrow> Some m1 | Some v \<Rightarrow> do { d \<leftarrow> mem_read 0 (unat n) v; set_sbuf (msg_size m + STUN_ATTRIBUTE_SIZE) d m1 }) = Some m2"
    and 3: "set_sbuf 2 l m2 = Some m3"
    and 4: "sbuf m' = sbuf m3" "msg_size m3 \<le> msg_size m'"
    unfolding stun_msg_write_attr_def Let_def Option.bind_eq_Some_conv
    by (elim exE conjE) (rule that, assumption, assumption, assumption,
        auto simp: Option.bind_eq_Some_conv split: if_splits)
  have "msg_size m2 = msg_size m1 \<and> length (sbuf m2) = length (sbuf m1) \<and> take 2 (sbuf m2) = take 2 (sbuf m1)"
    using 2 assms(2) by (auto simp: Option.bind_eq_Some_conv dest: set_sbuf_kept split: option.splits)
  then show ?thesis using set_sbuf_kept [OF 1] set_sbuf_kept [OF 3] 4 assms(2) by (simp add: type_kept_def)
qed

lemma write_all_kept: "stun_write_all as m = Some m' \<Longrightarrow> 2 \<le> msg_size m \<Longrightarrow> type_kept m m'"
proof (induction as m rule: stun_write_all.induct)
  case (2 type len v as m)
  then obtain m1 where m1: "stun_msg_write_attr m type len v = Some m1" "stun_write_all as m1 = Some m'" by (auto split: bind_splits)
  then have k: "type_kept m m1" using write_attr_kept 2(3) by blast
  then have "2 \<le> msg_size m1" using 2(3) by (simp add: type_kept_def)
  then show ?case using 2(1) m1 k type_kept_trans by blast
qed simp

lemma finish_kept: "stun_msg_finish hmac md5 m cred pw n = Some m' \<Longrightarrow> 2 \<le> msg_size m \<Longrightarrow> type_kept m m'"
  unfolding stun_msg_finish_def Let_def type_kept_def Option.bind_eq_Some_conv
  by (auto dest!: set_sbuf_kept)

text \<open>Parsing changes neither the buffer nor what the header says of the class and the method.\<close>

lemma parse_attr_kept:
  "stun_parse_attr m pos = Some m' \<Longrightarrow> stunclass m' = stunclass m \<and> stunmethod m' = stunmethod m \<and> sbuf m' = sbuf m \<and> msg_size m' = msg_size m"
  unfolding stun_parse_attr_def Let_def
  by (auto simp: Option.bind_eq_Some_conv split: if_splits)

lemma parse_attrs_kept:
  "stun_parse_attrs m pos len = Some m' \<Longrightarrow>
   stunclass m' = stunclass m \<and> stunmethod m' = stunmethod m \<and> sbuf m' = sbuf m \<and> msg_size m' = msg_size m"
proof (induction m pos len rule: stun_parse_attrs.induct)
  case (1 m pos len)
  show ?case
  proof (cases "pos < len")
    case True
    with 1(2) obtain m1 n where "stun_parse_attr m pos = Some m1" "get16 (pos + 2) (sbuf m) = Some n"
      "stun_parse_attrs m1 (pos + pad4 (unat n) + STUN_ATTRIBUTE_SIZE) len = Some m'"
      by (subst (asm) stun_parse_attrs.simps) (auto simp: Option.bind_eq_Some_conv)
    then show ?thesis using 1(1) [OF True] parse_attr_kept by metis
  next
    case False
    then show ?thesis using 1(2) by (subst (asm) stun_parse_attrs.simps) simp
  qed
qed

lemma parse_msg_kept:
  "stun_parse_msg_buf m = Some m' \<Longrightarrow> get16 0 (sbuf m) = Some t \<Longrightarrow>
   stunclass m' = stun_class_of t \<and> stunmethod m' = stun_method_of t \<and> sbuf m' = sbuf m \<and> msg_size m' = msg_size m"
  unfolding stun_parse_msg_buf_def by (auto simp: Option.bind_eq_Some_conv dest!: parse_attrs_kept)

lemma get16_take: "2 \<le> length b \<Longrightarrow> get16 0 b = Some (of_be16 (take 2 b))"
  by (simp add: get16_def mem_read_def)

text \<open>A finished message and how its bytes are read back.\<close>

lemma finish_valid_built:
  assumes "built m1 []" and "msg_size m1 = 20" and "wf_stun msg0" and "\<forall>a \<in> set as. attr_ok a"
    and "STUN_HEADER_SIZE + attrs_size as + 32 \<le> STUN_ATTR_BUF_SIZE"
    and "\<forall>d. length (hmac d password) = 20"
  shows "\<exists>m2 m3. stun_write_all as m1 = Some m2 \<and>
    stun_msg_finish hmac md5 m2 STUN_CREDENTIAL_SHORT_TERM password (length password) = Some m3 \<and>
    msg_size m3 = STUN_HEADER_SIZE + attrs_size as + 32 \<and> length (sbuf m3) = STUN_ATTR_BUF_SIZE \<and>
    take 2 (sbuf m3) = take 2 (sbuf m1) \<and>
    stun_msg_is_valid hmac msg0 (take (msg_size m3) (sbuf m3)) (msg_size m3) password = Some 0"
proof -
  obtain m2 where m2: "stun_write_all as m1 = Some m2" "built m2 (map attr_pair as)" "msg_size m2 = 20 + attrs_size as"
    using built_write_all [OF assms(1,4)] assms(2,5) by (auto simp: STUN_HEADER_SIZE_def)
  have p: "\<forall>b \<in> set (map attr_pair as). parsable b" using assms(4) attr_ok_parsable by auto
  have k: "stun_key md5 m2 STUN_CREDENTIAL_SHORT_TERM password (length password) = Some password"
    by (simp add: stun_key_def mem_read_def)
  have "msg_size m2 + 32 \<le> STUN_ATTR_BUF_SIZE" using m2(3) assms(5) by (simp add: STUN_HEADER_SIZE_def)
  then obtain m3 where m3: "stun_msg_finish hmac md5 m2 STUN_CREDENTIAL_SHORT_TERM password (length password) = Some m3"
    "msg_size m3 = msg_size m2 + 32" "stun_msg_is_valid hmac msg0 (take (msg_size m3) (sbuf m3)) (msg_size m3) password = Some 0"
    using finished_is_valid [where hmac = hmac and key = password, OF m2(2) p _ _ k assms(3)] assms(6) by auto
  have "length (sbuf m1) = STUN_ATTR_BUF_SIZE" using assms(1) by (auto simp: built_def wf_stun_def)
  moreover have "type_kept m1 m2" using write_all_kept [OF m2(1)] assms(2) by simp
  moreover have "type_kept m2 m3" using finish_kept [OF m3(1)] m2(3) by simp
  ultimately show ?thesis using m2 m3 by (auto simp: STUN_HEADER_SIZE_def type_kept_def)
qed

text \<open>A message just created, with its type and any transaction id.\<close>

lemma created:
  assumes "wf_stun m0"
  shows "\<exists>m1. stun_msg_create m0 type = Some m1 \<and> built m1 [] \<and> msg_size m1 = 20 \<and> take 2 (sbuf m1) = be16 type"
proof -
  from built_create [OF assms] obtain m1 where "stun_msg_create m0 type = Some m1" "built m1 []" "msg_size m1 = 20" by blast
  moreover from this have "take 2 (sbuf m1) = be16 type"
    by (auto simp: stun_msg_create_def set_sbuf_def mem_write_def wf_stun_def split: if_splits)
  ultimately show ?thesis by blast
qed

lemma set_transaction_id:
  assumes "built m []" and "msg_size m = 20" and "length tid = 12"
  shows "\<exists>m'. set_sbuf 8 tid m = Some m' \<and> built m' [] \<and> msg_size m' = 20 \<and> take 2 (sbuf m') = take 2 (sbuf m)"
proof -
  from assms(1,2) obtain t T R where b: "sbuf m = be16 t @ be16 (of_nat (length ([] :: bytes))) @ T @ [] @ R" "length T = 16" and wf: "wf_stun m"
    unfolding built_def by fastforce
  obtain T1 T2 where T: "T = T1 @ T2" "length T1 = 4" "length T2 = 12"
    using b(2) that [of "take 4 T" "drop 4 T"] by simp
  let ?l = "be16 (of_nat (length ([] :: bytes)))"
  let ?m = "m\<lparr>sbuf := be16 t @ ?l @ (T1 @ tid) @ [] @ R\<rparr>"
  have 1: "set_sbuf 8 tid m = Some ?m"
    using set_sbuf_at [of 8 "be16 t @ ?l @ T1" m T2 R tid] b T assms(3) by simp
  moreover have "built ?m []"
    by (rule builtI [where A = "[]" and T = "T1 @ tid"]) (use wf b T assms(2,3) in \<open>simp_all add: wf_stun_def\<close>)
  ultimately show ?thesis using set_sbuf_kept [OF 1] assms(2) by auto
qed

lemma finish_valid:
  assumes "wf_stun m0" and "wf_stun msg0" and "\<forall>a \<in> set as. attr_ok a"
    and "STUN_HEADER_SIZE + attrs_size as + 32 \<le> STUN_ATTR_BUF_SIZE"
    and "\<forall>d. length (hmac d password) = 20"
  shows "\<exists>m1 m2 m3. stun_msg_create m0 type = Some m1 \<and> stun_write_all as m1 = Some m2 \<and>
    stun_msg_finish hmac md5 m2 STUN_CREDENTIAL_SHORT_TERM password (length password) = Some m3 \<and>
    msg_size m3 = STUN_HEADER_SIZE + attrs_size as + 32 \<and> length (sbuf m3) = STUN_ATTR_BUF_SIZE \<and> take 2 (sbuf m3) = be16 type \<and>
    stun_msg_is_valid hmac msg0 (take (msg_size m3) (sbuf m3)) (msg_size m3) password = Some 0"
proof -
  from created [OF assms(1)] obtain m1 where m1: "stun_msg_create m0 type = Some m1" "built m1 []" "msg_size m1 = 20"
    "take 2 (sbuf m1) = be16 type" by blast
  then show ?thesis using finish_valid_built [where hmac = hmac, OF m1(2,3) assms(2-5)] by auto
qed

definition stun0 :: StunMessage where
  "stun0 = \<lparr>stunclass = 0, stunmethod = 0, fingerprint = replicate 4 0, message_integrity = replicate 20 0,
     username = replicate 128 0, realm = replicate 64 0, nonce = replicate 64 0, mapped_addr = addr_zero,
     relayed_addr = addr_zero, sbuf = replicate 256 0, msg_size = 0\<rparr>"

lemma wf_stun0: "wf_stun stun0"
  by (simp add: stun0_def wf_stun_def STUN_ATTR_BUF_SIZE_def addr_zero_def wf_addr_def)

section \<open>Reading a message from a larger buffer\<close>

lemma msg_size_last:
  "m\<lparr>msg_size := n, stunclass := x0\<rparr> = m\<lparr>stunclass := x0, msg_size := n\<rparr>"
  "m\<lparr>msg_size := n, stunmethod := x1\<rparr> = m\<lparr>stunmethod := x1, msg_size := n\<rparr>"
  "m\<lparr>msg_size := n, fingerprint := x2\<rparr> = m\<lparr>fingerprint := x2, msg_size := n\<rparr>"
  "m\<lparr>msg_size := n, message_integrity := x3\<rparr> = m\<lparr>message_integrity := x3, msg_size := n\<rparr>"
  "m\<lparr>msg_size := n, username := x4\<rparr> = m\<lparr>username := x4, msg_size := n\<rparr>"
  "m\<lparr>msg_size := n, realm := x5\<rparr> = m\<lparr>realm := x5, msg_size := n\<rparr>"
  "m\<lparr>msg_size := n, nonce := x6\<rparr> = m\<lparr>nonce := x6, msg_size := n\<rparr>"
  "m\<lparr>msg_size := n, mapped_addr := x7\<rparr> = m\<lparr>mapped_addr := x7, msg_size := n\<rparr>"
  "m\<lparr>msg_size := n, relayed_addr := x8\<rparr> = m\<lparr>relayed_addr := x8, msg_size := n\<rparr>"
  by simp_all

lemma parse_attr_msg_size:
  "stun_parse_attr (m\<lparr>msg_size := n\<rparr>) pos = map_option (\<lambda>m. m\<lparr>msg_size := n\<rparr>) (stun_parse_attr m pos)"
  unfolding stun_parse_attr_def Let_def by (simp add: map_option_bind comp_def if_distrib [of "map_option _"] msg_size_last cong: if_cong)

lemma parse_attrs_msg_size:
  "stun_parse_attrs (m\<lparr>msg_size := n\<rparr>) pos len = map_option (\<lambda>m. m\<lparr>msg_size := n\<rparr>) (stun_parse_attrs m pos len)"
proof (induction m pos len rule: stun_parse_attrs.induct)
  case (1 m pos len)
  show ?case
  proof (cases "pos < len")
    case True
    then show ?thesis
      using 1 by (subst (1 2) stun_parse_attrs.simps)
        (cases "stun_parse_attr m pos"; cases "get16 (pos + 2) (sbuf m)"; simp add: parse_attr_msg_size)
  next
    case False
    then show ?thesis by (subst (1 2) stun_parse_attrs.simps) simp
  qed
qed

lemma parse_msg_msg_size:
  "stun_parse_msg_buf (m\<lparr>msg_size := n\<rparr>) = map_option (\<lambda>m. m\<lparr>msg_size := n\<rparr>) (stun_parse_msg_buf m)"
  unfolding stun_parse_msg_buf_def by (simp add: map_option_bind comp_def parse_attrs_msg_size msg_size_last)

text \<open>What a receiver that copied the bytes \<open>d\<close> into a message sees.\<close>

lemma received_valid:
  assumes "stun_msg_is_valid hmac stun0 d (length d) pw = Some 0" and "2 \<le> length d" and "take 2 d = be16 t"
  shows "\<exists>m m'. set_sbuf 0 d stun0 = Some m \<and> stun_parse_msg_buf (m\<lparr>msg_size := length d\<rparr>) = Some m' \<and>
    stunclass m' = stun_class_of t \<and> stunmethod m' = stun_method_of t \<and> msg_size m' = length d \<and>
    stun_msg_is_valid hmac stun0 (sbuf m') (msg_size m') pw = Some 0 \<and> sbuf m' = d @ drop (length d) (sbuf stun0)"
proof -
  have r: "mem_read 0 (length d) d = Some d" by (simp add: mem_read_def)
  from assms(1) obtain m p where m: "set_sbuf 0 d stun0 = Some m" and p: "stun_parse_msg_buf m = Some p"
    unfolding stun_msg_is_valid_def r Option.bind_lunit by (auto simp: Option.bind_eq_Some_conv)
  have sb: "sbuf m = d @ drop (length d) (sbuf stun0)"
    using m by (auto simp: set_sbuf_def mem_write_def split: if_splits)
  have "get16 0 (sbuf m) = Some t" using get16_take [of "sbuf m"] sb assms(2,3) by simp
  from parse_msg_kept [OF p this] have k: "stunclass p = stun_class_of t" "stunmethod p = stun_method_of t" "sbuf p = sbuf m" by simp_all
  have "mem_read 0 (length d) (sbuf p) = Some d" using k(3) sb by (simp add: mem_read_def)
  then have "stun_msg_is_valid hmac stun0 (sbuf p) (length d) pw = Some 0"
    using assms(1) unfolding stun_msg_is_valid_def r by simp
  then show ?thesis using m p k sb by (simp add: parse_msg_msg_size)
qed

section \<open>Properties\<close>

text \<open>C13: A message made by \<open>stun_msg_create\<close>, any attributes that satisfy \<open>attr_ok\<close> and leave room for
  the 32 bytes of MESSAGE-INTEGRITY and FINGERPRINT, and \<open>stun_msg_finish\<close> with a short-term
  credential stays inside the message buffer at every step, and \<open>stun_msg_is_valid\<close> accepts the
  bytes with the same password. HMAC-SHA1 is only assumed to give 20 bytes.\<close>

theorem stun_finish_valid:
  assumes "wf_stun m0" and "wf_stun msg0" and "\<forall>a \<in> set as. attr_ok a"
    and "STUN_HEADER_SIZE + attrs_size as + 32 \<le> STUN_ATTR_BUF_SIZE"
    and "\<forall>d. length (hmac d password) = 20"
  shows "\<exists>m1 m2 m3. stun_msg_create m0 type = Some m1 \<and> stun_write_all as m1 = Some m2 \<and>
    stun_msg_finish hmac md5 m2 STUN_CREDENTIAL_SHORT_TERM password (length password) = Some m3 \<and>
    msg_size m3 = STUN_HEADER_SIZE + attrs_size as + 32 \<and>
    stun_msg_is_valid hmac msg0 (take (msg_size m3) (sbuf m3)) (msg_size m3) password = Some 0"
  using finish_valid [where hmac = hmac, OF assms] by blast

text \<open>A binding request as the agent sends it: USERNAME, PRIORITY and USE-CANDIDATE.\<close>

theorem stun_finish_valid_witness:
  "\<exists>m1 m2 m3. stun_msg_create stun0 (STUN_CLASS_REQUEST OR STUN_METHOD_BINDING) = Some m1 \<and>
    stun_write_all [(STUN_ATTR_TYPE_USERNAME, 9, Some (str ''abcd:efgh'' @ replicate 40 0)),
       (STUN_ATTR_TYPE_PRIORITY, 4, Some [0, 0, 0, 1]), (STUN_ATTR_TYPE_USE_CANDIDATE, 0, None)] m1 = Some m2 \<and>
    stun_msg_finish (\<lambda>d k. replicate 20 (of_nat (length d))) id m2 STUN_CREDENTIAL_SHORT_TERM (str ''secret'')
      (length (str ''secret'')) = Some m3 \<and>
    msg_size m3 = STUN_HEADER_SIZE + 28 + 32 \<and>
    stun_msg_is_valid (\<lambda>d k. replicate 20 (of_nat (length d))) stun0 (take (msg_size m3) (sbuf m3)) (msg_size m3)
      (str ''secret'') = Some 0"
proof -
  let ?as = "[(STUN_ATTR_TYPE_USERNAME, 9, Some (str ''abcd:efgh'' @ replicate 40 0)),
       (STUN_ATTR_TYPE_PRIORITY, 4, Some [0, 0, 0, 1]), (STUN_ATTR_TYPE_USE_CANDIDATE, 0, None)] :: attr list"
  have size: "attrs_size ?as = 28" by (simp add: pad4_def)
  have ok: "\<forall>a \<in> set ?as. attr_ok a"
    by (simp add: kept_field_def stun_types pad4_def str_def)
  show ?thesis
    using stun_finish_valid [OF wf_stun0 wf_stun0 ok, of "\<lambda>d k. replicate 20 (of_nat (length d))" "str ''secret''"]
    unfolding size by (simp add: STUN_HEADER_SIZE_def STUN_ATTR_BUF_SIZE_def)
qed

text \<open>The address \<open>stun_get_mapped_address\<close> reads from an attribute value that
  \<open>stun_set_mapped_address\<close> wrote with the same 16-byte mask has the same IP and port, for IPv4 and
  IPv6, in a value of at least 8 or 20 bytes.\<close>

theorem mapped_address_roundtrip:
  assumes "wf_addr a" and "length msk = 16" and "(if family a = AF_INET6 then 20 else 8) \<le> length v"
  shows "\<exists>v' b'. stun_set_mapped_address v msk a = Some (if family a = AF_INET6 then 20 else 8, v') \<and>
    length v' = length v \<and> stun_get_mapped_address v' msk b = Some b' \<and> same_ip a b' \<and> port b' = port a"
  using xor_address_roundtrip [OF assms] .

theorem mapped_address_roundtrip_witness:
  "\<exists>v' b'. stun_set_mapped_address (replicate 8 0) (replicate 16 0x21) (addr_zero\<lparr>family := AF_INET\<rparr>) = Some (8, v') \<and>
    length v' = 8 \<and> stun_get_mapped_address v' (replicate 16 0x21) addr_zero = Some b' \<and>
    same_ip (addr_zero\<lparr>family := AF_INET\<rparr>) b' \<and> port b' = port addr_zero"
  using mapped_address_roundtrip [of "addr_zero\<lparr>family := AF_INET\<rparr>" "replicate 16 0x21" "replicate 8 0" addr_zero]
  by (simp add: wf_addr_def addr_zero_def AF_INET_def AF_INET6_def)

text \<open>A USERNAME, REALM or NONCE attribute whose length field exceeds the field it is kept in is
  copied past the end of that field (128 or 64 bytes): the parser never compares the two.\<close>

theorem stun_parse_attr_overruns:
  assumes "sbuf m = P @ be16 t @ be16 n @ Q" and "kept_field t"
    and "(if t = STUN_ATTR_TYPE_USERNAME then 128 else 64) < unat n"
  shows "stun_parse_attr m (length P) = None"
proof -
  have len: "get16 (length P) (sbuf m) = Some t" "get16 (length P + 2) (sbuf m) = Some n"
    using get16_at [of "length P" P t] get16_at [of "length P + 2" "P @ be16 t" n] by (simp_all add: assms(1))
  from assms(2) consider "t = STUN_ATTR_TYPE_REALM" | "t = STUN_ATTR_TYPE_NONCE" | "t = STUN_ATTR_TYPE_USERNAME"
    by (auto simp: kept_field_def)
  then show ?thesis
    using assms(3) unfolding stun_parse_attr_def len Option.bind_lunit Let_def
    by cases (auto simp: stun_types mem_read_def mem_write_def)
qed

theorem stun_parse_attr_overruns_witness:
  "stun_parse_attr (stun0\<lparr>sbuf := replicate 20 0 @ be16 STUN_ATTR_TYPE_REALM @ be16 65 @ replicate 232 7\<rparr>) 20 = None"
  using stun_parse_attr_overruns [of "stun0\<lparr>sbuf := replicate 20 0 @ be16 STUN_ATTR_TYPE_REALM @ be16 65 @ replicate 232 7\<rparr>"
      "replicate 20 0" STUN_ATTR_TYPE_REALM 65 "replicate 232 7"]
  by (simp add: kept_field_def stun_types)

end
