(* ===== verification/Ice.thy ===== *)
theory Ice
  imports Mdns Stun
begin

text \<open>
  ICE candidates (\<^verbatim>\<open>src/src/ice.h\<close>, \<^verbatim>\<open>src/src/ice.c\<close>): priorities, and the \<^verbatim>\<open>a=candidate:\<close> line in
  both directions.

  \<^item> \<open>foundation\<close> and \<open>transport\<close> are arrays of 33 bytes that hold a C string; the model keeps the
    text. Text that does not fit is undefined behaviour where the code does not bound it
    (\<^verbatim>\<open>sscanf\<close> with a bare \<^verbatim>\<open>%s\<close>) and cut where it does (\<^verbatim>\<open>snprintf\<close>).
  \<^item> \<open>ntop6\<close>, \<open>pton6\<close> are the IPv6 text functions of the C library (theory \<^theory_text>\<open>Address\<close>); \<open>mdns\<close> stands
    for \<open>mdns_resolve_addr\<close> on the caller's operating system and acts on its state.
\<close>

section \<open>Data\<close>

datatype IceCandidateState =
  ICE_CANDIDATE_STATE_FROZEN | ICE_CANDIDATE_STATE_WAITING | ICE_CANDIDATE_STATE_INPROGRESS
| ICE_CANDIDATE_STATE_SUCCEEDED | ICE_CANDIDATE_STATE_FAILED

datatype IceCandidateType =
  ICE_CANDIDATE_TYPE_HOST | ICE_CANDIDATE_TYPE_SRFLX | ICE_CANDIDATE_TYPE_PRFLX | ICE_CANDIDATE_TYPE_RELAY

definition ICE_UFRAG_LENGTH :: nat where "ICE_UFRAG_LENGTH = 256"
definition ICE_UPWD_LENGTH :: nat where "ICE_UPWD_LENGTH = 256"
definition ICE_NAME_SIZE :: nat where "ICE_NAME_SIZE = 33"

record IceCandidate =
  foundation :: bytes
  component :: int
  priority :: u32
  transport :: bytes
  ctype :: IceCandidateType
  cstate :: IceCandidateState
  addr :: Address
  raddr :: Address

section \<open>Operations\<close>

fun ice_candidate_type_preference :: "IceCandidateType \<Rightarrow> u8" where
  "ice_candidate_type_preference ICE_CANDIDATE_TYPE_HOST = 126"
| "ice_candidate_type_preference ICE_CANDIDATE_TYPE_SRFLX = 100"
| "ice_candidate_type_preference ICE_CANDIDATE_TYPE_RELAY = 0"
| "ice_candidate_type_preference ICE_CANDIDATE_TYPE_PRFLX = 0"

definition ice_candidate_local_preference :: "IceCandidate \<Rightarrow> u16" where
  "ice_candidate_local_preference c = port (addr c)"

text \<open>The sum is computed in \<^verbatim>\<open>int\<close>; an overflow of it would be undefined behaviour.\<close>

definition priority_value :: "IceCandidate \<Rightarrow> int" where
  "priority_value c = 2 ^ 24 * uint (ice_candidate_type_preference (ctype c)) +
     2 ^ 8 * uint (ice_candidate_local_preference c) + (256 - component c)"

definition ice_candidate_priority :: "IceCandidate \<Rightarrow> IceCandidate option" where
  "ice_candidate_priority c = do {
     c_assert (- (2 ^ 31) \<le> priority_value c \<and> priority_value c < 2 ^ 31);
     Some (c\<lparr>priority := of_int (priority_value c)\<rparr>)
   }"

definition ice_candidate_create :: "IceCandidate \<Rightarrow> int \<Rightarrow> IceCandidateType \<Rightarrow> Address \<Rightarrow> IceCandidate option" where
  "ice_candidate_create c fnd typ a = do {
     let c = c\<lparr>addr := a, ctype := typ, foundation := snprintf_text ICE_NAME_SIZE (dec_int fnd), component := 1\<rparr>;
     c \<leftarrow> ice_candidate_priority c;
     Some (c\<lparr>transport := snprintf_text ICE_NAME_SIZE (str ''UDP'')\<rparr>)
   }"

text \<open>The text \<open>addr_to_string\<close> leaves in a local array of \<open>ADDRSTRLEN\<close> bytes.\<close>

definition addr_text :: "(bytes \<Rightarrow> bytes) \<Rightarrow> Address \<Rightarrow> bytes option" where
  "addr_text ntop6 a = do {
     (r, b) \<leftarrow> addr_to_string ntop6 a (replicate ADDRSTRLEN 0) ADDRSTRLEN;
     c_text b
   }"

definition typ_raddr_text :: "IceCandidate \<Rightarrow> bytes \<Rightarrow> bytes" where
  "typ_raddr_text c ra = snprintf_text 128 (case ctype c of
     ICE_CANDIDATE_TYPE_HOST \<Rightarrow> str ''host''
   | ICE_CANDIDATE_TYPE_SRFLX \<Rightarrow> str ''srflx raddr '' @ ra @ str '' rport '' @ dec (unat (port (raddr c)))
   | ICE_CANDIDATE_TYPE_RELAY \<Rightarrow> str ''relay raddr '' @ ra @ str '' rport '' @ dec (unat (port (raddr c)))
   | ICE_CANDIDATE_TYPE_PRFLX \<Rightarrow> [])"

definition CRLF :: bytes where "CRLF = [13, 10]"

text \<open>The line before \<^verbatim>\<open>snprintf\<close> cuts it, and what is printed into \<open>len\<close> bytes (nothing for 0).\<close>

definition candidate_line :: "(bytes \<Rightarrow> bytes) \<Rightarrow> IceCandidate \<Rightarrow> bytes option" where
  "candidate_line ntop6 c = do {
     ra \<leftarrow> addr_text ntop6 (raddr c);
     a \<leftarrow> addr_text ntop6 (addr c);
     Some (str ''a=candidate:'' @ foundation c @ str '' '' @ dec_int (component c) @ str '' '' @ transport c @ str '' '' @
       dec (unat (priority c)) @ str '' '' @ a @ str '' '' @ dec (unat (port (addr c))) @ str '' typ '' @
       typ_raddr_text c ra @ CRLF)
   }"

definition ice_candidate_to_description :: "(bytes \<Rightarrow> bytes) \<Rightarrow> IceCandidate \<Rightarrow> nat \<Rightarrow> bytes option" where
  "ice_candidate_to_description ntop6 c len = map_option (snprintf_text len) (candidate_line ntop6 c)"

text \<open>The \<^verbatim>\<open>sscanf\<close> of seven fields. Fields before the one that fails are stored. The result is the
  candidate and, when all seven were read, the address text, the port and the type.\<close>

definition ice_scan_tail :: "IceCandidate \<Rightarrow> bytes \<Rightarrow> (IceCandidate \<times> (bytes \<times> u32 \<times> bytes) option) option" where
  "ice_scan_tail c s = (case scan_token s of None \<Rightarrow> Some (c, None) | Some (addrstring, s) \<Rightarrow> do {
     c_assert (length addrstring < ADDRSTRLEN);
     (case scan_int s of None \<Rightarrow> Some (c, None) | Some (p, s) \<Rightarrow> do {
        c_assert (\<bar>p\<bar> < 2 ^ 32);
        let s = dropWhile is_space s;
        (if \<not> starts_with (str ''typ'') s then Some (c, None)
         else (case scan_token (drop 3 s) of None \<Rightarrow> Some (c, None) | Some (typ, s) \<Rightarrow> do {
           c_assert (length typ < 16);
           Some (c, Some (addrstring, of_int p, typ)) })) }) })"

definition ice_scan :: "IceCandidate \<Rightarrow> bytes \<Rightarrow> (IceCandidate \<times> (bytes \<times> u32 \<times> bytes) option) option" where
  "ice_scan c s = (case scan_token s of None \<Rightarrow> Some (c, None) | Some (f, s) \<Rightarrow> do {
     c_assert (length f < ICE_NAME_SIZE);
     let c = c\<lparr>foundation := f\<rparr>;
     (case scan_int s of None \<Rightarrow> Some (c, None) | Some (n, s) \<Rightarrow> do {
        c_assert (- (2 ^ 31) \<le> n \<and> n < 2 ^ 31);
        let c = c\<lparr>component := n\<rparr>;
        (case scan_token s of None \<Rightarrow> Some (c, None) | Some (t, s) \<Rightarrow> do {
           c_assert (length t < ICE_NAME_SIZE);
           let c = c\<lparr>transport := t\<rparr>;
           (case scan_int s of None \<Rightarrow> Some (c, None) | Some (p, s) \<Rightarrow> do {
              c_assert (\<bar>p\<bar> < 2 ^ 32);
              ice_scan_tail (c\<lparr>priority := of_int p\<rparr>) s }) }) }) })"

definition candidate_type_of :: "bytes \<Rightarrow> IceCandidateType option" where
  "candidate_type_of typ =
     (if starts_with (str ''host'') typ then Some ICE_CANDIDATE_TYPE_HOST
      else if starts_with (str ''srflx'') typ then Some ICE_CANDIDATE_TYPE_SRFLX
      else if starts_with (str ''relay'') typ then Some ICE_CANDIDATE_TYPE_RELAY
      else None)"

text \<open>The port goes into the address before the address text is read, so it is stored for the family
  the candidate had before. \<open>mdns\<close> fails with 0 or \<open>-1\<close>; only 0 is checked.\<close>

definition ice_candidate_address ::
  "(bytes \<Rightarrow> bytes option) \<Rightarrow> (bytes \<Rightarrow> Address \<Rightarrow> 'w \<Rightarrow> (int \<times> Address \<times> 'w) option) \<Rightarrow>
   IceCandidate \<Rightarrow> bytes \<Rightarrow> u32 \<Rightarrow> 'w \<Rightarrow> (int \<times> IceCandidate \<times> 'w) option" where
  "ice_candidate_address pton6 mdns c addrstring p w =
     (let c = c\<lparr>addr := addr_set_port (addr c) (ucast p)\<rparr> in
      if strstr addrstring (str ''local'') \<noteq> None then do {
        (r, a, w) \<leftarrow> mdns addrstring (addr c) w;
        Some (if r = 0 then -1 else 0, c\<lparr>addr := a\<rparr>, w)
      }
      else let (r, a) = addr_from_string pton6 addrstring (addr c) in
        Some (if r = 0 then -1 else 0, c\<lparr>addr := a\<rparr>, w))"

text \<open>\<open>description\<close> is the rest of the text from the candidate line on; the end that is passed is not
  used.\<close>

definition ice_candidate_from_description ::
  "(bytes \<Rightarrow> bytes option) \<Rightarrow> (bytes \<Rightarrow> Address \<Rightarrow> 'w \<Rightarrow> (int \<times> Address \<times> 'w) option) \<Rightarrow>
   IceCandidate \<Rightarrow> bytes \<Rightarrow> 'w \<Rightarrow> (int \<times> IceCandidate \<times> 'w) option" where
  "ice_candidate_from_description pton6 mdns c description w = do {
     let start = (if starts_with (str ''a='') description then drop 2 description else description);
     c_assert (length (str ''candidate:'') \<le> length start);
     let start = drop (length (str ''candidate:'')) start;
     (c, fields) \<leftarrow> ice_scan c start;
     (case fields of None \<Rightarrow> Some (-1, c, w)
      | Some (addrstring, p, typ) \<Rightarrow>
          if \<not> starts_with (str ''UDP'') (transport c) \<and> \<not> starts_with (str ''udp'') (transport c) then Some (-1, c, w)
          else (case candidate_type_of typ of
             None \<Rightarrow> Some (-1, c, w)
           | Some ty \<Rightarrow> ice_candidate_address pton6 mdns (c\<lparr>ctype := ty\<rparr>) addrstring p w))
   }"

section \<open>Priorities\<close>

lemma priority_value_bounds:
  assumes "0 \<le> component c" and "component c \<le> 256"
  shows "0 \<le> priority_value c" and "priority_value c < 2 ^ 31"
proof -
  let ?t = "uint (ice_candidate_type_preference (ctype c))" and ?p = "uint (port (addr c))"
  have t: "0 \<le> ?t" "?t \<le> 126" by (cases "ctype c"; simp)+
  have p: "0 \<le> ?p" "?p < 65536" using uint_lt2p [of "port (addr c)"] by simp_all
  show "0 \<le> priority_value c" "priority_value c < 2 ^ 31"
    using assms t p by (simp_all add: priority_value_def ice_candidate_local_preference_def)
qed

lemma ice_candidate_priority_ok:
  assumes "0 \<le> component c" and "component c \<le> 256"
  shows "ice_candidate_priority c = Some (c\<lparr>priority := of_int (priority_value c)\<rparr>)"
    and "uint (of_int (priority_value c) :: u32) = priority_value c"
  using priority_value_bounds [OF assms]
  by (simp_all add: ice_candidate_priority_def uint_word_of_int_eq take_bit_int_eq_self)


section \<open>Descriptions\<close>

text \<open>What the code relies on of the IPv6 text: it is one word and does not contain \<^verbatim>\<open>local\<close>, as the
  hexadecimal groups and colons of \<^verbatim>\<open>inet_ntop\<close> never do.\<close>

definition ntop6_plain :: "(bytes \<Rightarrow> bytes) \<Rightarrow> bool" where
  "ntop6_plain ntop6 \<longleftrightarrow> (\<forall>a. length a = 16 \<longrightarrow> ntop6 a \<noteq> [] \<and> (\<forall>b \<in> set (ntop6 a). \<not> is_space b) \<and>
     strstr (ntop6 a) (str ''local'') = None)"

definition word_text :: "bytes \<Rightarrow> bool" where
  "word_text t \<longleftrightarrow> t \<noteq> [] \<and> (\<forall>b \<in> set t. \<not> is_space b)"

text \<open>A candidate as \<open>ice_candidate_create\<close> leaves it, up to its values.\<close>

definition describable :: "IceCandidate \<Rightarrow> bool" where
  "describable c \<longleftrightarrow> word_text (foundation c) \<and> length (foundation c) < ICE_NAME_SIZE \<and>
     - (2 ^ 31) \<le> component c \<and> component c < 2 ^ 31 \<and> transport c \<in> {str ''UDP'', str ''udp''} \<and>
     ctype c \<noteq> ICE_CANDIDATE_TYPE_PRFLX \<and> wf_addr (addr c) \<and> wf_addr (raddr c)"

definition ip_text :: "(bytes \<Rightarrow> bytes) \<Rightarrow> Address \<Rightarrow> bytes" where
  "ip_text ntop6 a = (if family a = AF_INET6 then ntop6 (sin6_addr a) else inet_ntop4 (sin_addr a))"

lemma addr_text_eq: "wf_addr a \<Longrightarrow> inet6_ok pton6 ntop6 \<Longrightarrow> addr_text ntop6 a = Some (ip_text ntop6 a)"
  using addr_to_string_text [of a pton6 ntop6 "replicate ADDRSTRLEN 0"]
  by (auto simp: addr_text_def c_text_terminated ip_text_def)

lemma ntop4_bytes: "b \<in> set (inet_ntop4 a) \<Longrightarrow> is_digit b \<or> b = 46"
  using digits_dec by (cases a rule: inet_ntop4.cases) auto

lemma ip_text_props:
  assumes "wf_addr a" and "inet6_ok pton6 ntop6" and "ntop6_plain ntop6"
  shows "word_text (ip_text ntop6 a)" and "length (ip_text ntop6 a) < ADDRSTRLEN"
    and "strstr (ip_text ntop6 a) (str ''local'') = None"
proof -
  have v4: "word_text (inet_ntop4 (sin_addr a))" "length (inet_ntop4 (sin_addr a)) < ADDRSTRLEN"
    "strstr (inet_ntop4 (sin_addr a)) (str ''local'') = None"
  proof -
    have "\<not> is_space (46 :: u8)" by (simp add: is_space_def)
    then have "\<forall>b \<in> set (inet_ntop4 (sin_addr a)). \<not> is_space b" using ntop4_bytes digit_not_space by blast
    moreover have "inet_ntop4 (sin_addr a) \<noteq> []"
      using assms(1) by (auto simp: wf_addr_def length_4_conv)
    ultimately show "word_text (inet_ntop4 (sin_addr a))" by (simp add: word_text_def)
    show "length (inet_ntop4 (sin_addr a)) < ADDRSTRLEN" using length_ntop4 [of "sin_addr a"] by (simp add: ADDRSTRLEN_def)
    have "(108 :: u8) \<notin> set (inet_ntop4 (sin_addr a))" using ntop4_bytes [of 108] by (auto simp: is_digit_def)
    then show "strstr (inet_ntop4 (sin_addr a)) (str ''local'') = None" by (intro strstr_absent) simp_all
  qed
  show "word_text (ip_text ntop6 a)" "length (ip_text ntop6 a) < ADDRSTRLEN" "strstr (ip_text ntop6 a) (str ''local'') = None"
    using v4 assms by (auto simp: ip_text_def ntop6_plain_def inet6_ok_def wf_addr_def word_text_def)
qed

lemma scan_int_dec_int:
  assumes "r = [] \<or> \<not> is_digit (hd r)"
  shows "scan_int (32 # dec_int n @ r) = Some (n, r)"
proof (cases "n < 0")
  case True
  have "\<not> is_space 45" by (simp add: is_space_def)
  then have "dropWhile is_space (32 # 45 # dec (nat (- n)) @ r) = 45 # dec (nat (- n)) @ r" by (simp add: is_space_def)
  then show ?thesis using True scan_dec_dec [OF assms, of "nat (- n)"] by (simp add: scan_int_def dec_int_def Let_def)
next
  case False
  then show ?thesis using scan_int_dec [of "[32]" r "nat n"] assms by (simp add: dec_int_def is_space_def)
qed

lemma scan_word:
  "word_text t \<Longrightarrow> is_space (hd r) \<Longrightarrow> scan_token (32 # t @ r) = Some (t, r)" "word_text t \<Longrightarrow> is_space (hd r) \<Longrightarrow> scan_token (t @ r) = Some (t, r)"
  using scan_token_text [of "[32]" t r] scan_token_text [of "[]" t r] by (simp_all add: word_text_def is_space_def)

lemma sp [simp]: "is_space 32" "is_space 13" "\<not> is_digit 32" "\<not> is_digit 13"
  by (simp_all add: is_space_def is_digit_def)

text \<open>The line as the scanner meets it.\<close>

definition type_word :: "IceCandidateType \<Rightarrow> bytes" where
  "type_word t = (case t of ICE_CANDIDATE_TYPE_HOST \<Rightarrow> str ''host'' | ICE_CANDIDATE_TYPE_SRFLX \<Rightarrow> str ''srflx''
     | ICE_CANDIDATE_TYPE_RELAY \<Rightarrow> str ''relay'' | ICE_CANDIDATE_TYPE_PRFLX \<Rightarrow> [])"

lemma typ_raddr_word:
  "ctype c \<noteq> ICE_CANDIDATE_TYPE_PRFLX \<Longrightarrow> \<exists>r. typ_raddr_text c ra @ CRLF = type_word (ctype c) @ r \<and> is_space (hd r)"
  by (cases "ctype c") (auto simp: typ_raddr_text_def type_word_def snprintf_text_def CRLF_def)

lemma type_word_props:
  "t \<noteq> ICE_CANDIDATE_TYPE_PRFLX \<Longrightarrow> word_text (type_word t) \<and> length (type_word t) < 16 \<and> candidate_type_of (type_word t) = Some t"
  by (cases t) (auto simp: type_word_def word_text_def candidate_type_of_def is_space_def)

lemma ice_scan_line:
  assumes "describable c" and "word_text a" and "length a < ADDRSTRLEN" and "is_space (hd r)"
  shows "ice_scan c0 (foundation c @ 32 # dec_int (component c) @ 32 # transport c @ 32 # dec (unat (priority c)) @
      32 # a @ 32 # dec (unat (port (addr c))) @ 32 # str ''typ'' @ 32 # type_word (ctype c) @ r) =
    Some (c0\<lparr>foundation := foundation c, component := component c, transport := transport c, priority := priority c\<rparr>,
      Some (a, ucast (port (addr c)), type_word (ctype c)))"
proof -
  have tr: "word_text (transport c)" "length (transport c) < ICE_NAME_SIZE"
    using assms(1) by (auto simp: describable_def word_text_def is_space_def ICE_NAME_SIZE_def)
  have d: "scan_int (32 # dec n @ 32 # s) = Some (int n, 32 # s)" for n s
    using scan_int_dec [of "[32]" "32 # s" n] by simp
  have p: "\<bar>int (unat (priority c))\<bar> < 2 ^ 32" "(of_int (int (unat (priority c))) :: u32) = priority c"
    using uint_lt2p [of "priority c"] by simp_all
  have q: "\<bar>int (unat (port (addr c)))\<bar> < 2 ^ 32" "(of_int (int (unat (port (addr c)))) :: u32) = ucast (port (addr c))"
  proof -
    show "\<bar>int (unat (port (addr c)))\<bar> < 2 ^ 32" using uint_lt2p [of "port (addr c)"] by simp
    show "(of_int (int (unat (port (addr c)))) :: u32) = ucast (port (addr c))"
      by (rule bit_word_eqI) (simp add: bit_simps)
  qed
  have t: "dropWhile is_space (32 # str ''typ'' @ s) = str ''typ'' @ s" for s by (simp add: is_space_def)
  have ty: "word_text (type_word (ctype c))" "length (type_word (ctype c)) < 16"
    using assms(1) type_word_props by (auto simp: describable_def)
  have tail: "ice_scan_tail c1 (32 # a @ 32 # dec (unat (port (addr c))) @ 32 # str ''typ'' @ 32 # type_word (ctype c) @ r) =
      Some (c1, Some (a, ucast (port (addr c)), type_word (ctype c)))" for c1 :: IceCandidate
    unfolding ice_scan_tail_def Let_def scan_word(1) [OF assms(2), of "32 # s" for s, simplified]
    using assms(3) q ty by (simp only: option.case prod.case d t) (simp add: scan_word(1) [OF ty(1) assms(4)])
  show ?thesis
    using assms(1) tr p(1)
    by (simp only: ice_scan_def describable_def scan_word(2) [of _ "32 # s" for s] scan_word(1) [of _ "32 # s" for s] option.case prod.case
        scan_int_dec_int [of "32 # s" for s] d tail list.sel sp p(2) c_assert_simps Let_def Option.bind_lunit simp_thms list.distinct)
qed

lemma addr_from_ip_text:
  assumes "wf_addr a" and "inet6_ok pton6 ntop6"
  shows "\<exists>b. addr_from_string pton6 (ip_text ntop6 a) a0 = (1, b) \<and> same_ip a b \<and> port b = port a0"
  using assms by (auto simp: addr_from_string_def ip_text_def inet6_ok_def wf_addr_def inet_pton4_ntop4 same_ip_def addr_set_family_def
      AF_INET_def AF_INET6_def)

lemma ntop6_plain_plain: "ntop6_plain plain_ntop6"
proof -
  have b: "\<not> is_space b \<and> b \<noteq> 108" if "b \<in> set (plain_ntop6 a)" for a b
  proof -
    have r: "48 \<le> b" "b \<le> 102" using plain_ntop6_bytes [OF that] by simp_all
    have "\<not> b \<le> 13" using order_trans [OF r(1), of 13] by auto
    moreover have "b \<noteq> 32" "b \<noteq> 108" using r by auto
    ultimately show ?thesis by (simp add: is_space_def)
  qed
  have "plain_ntop6 a \<noteq> []" if "length a = 16" for a
    using length_plain_ntop6 [of a 7] that by auto
  moreover have "strstr (plain_ntop6 a) (str ''local'') = None" for a
    using b [of 108 a] by (intro strstr_absent) auto
  ultimately show ?thesis using b by (auto simp: ntop6_plain_def)
qed

text \<open>The candidate a line is read into, whatever follows the line.\<close>

lemma ice_description_parsed:
  assumes "describable c" and "inet6_ok pton6 ntop6" and "ntop6_plain ntop6"
  shows "\<exists>line. candidate_line ntop6 c = Some line \<and> (\<forall>rest c0 (w :: 'w).
    ice_candidate_from_description pton6 mdns c0 (line @ rest) w =
      Some (0, c0\<lparr>foundation := foundation c, component := component c, transport := transport c, priority := priority c,
        ctype := ctype c, addr := snd (addr_from_string pton6 (ip_text ntop6 (addr c)) (addr_set_port (addr c0) (port (addr c))))\<rparr>, w))"
proof -
  have wf: "wf_addr (addr c)" "wf_addr (raddr c)" "ctype c \<noteq> ICE_CANDIDATE_TYPE_PRFLX" using assms(1) by (simp_all add: describable_def)
  let ?a = "ip_text ntop6 (addr c)" and ?ra = "ip_text ntop6 (raddr c)"
  note a = ip_text_props [OF wf(1) assms(2,3)]
  obtain r where r: "typ_raddr_text c ?ra @ CRLF = type_word (ctype c) @ r" "is_space (hd r)"
    using typ_raddr_word [OF wf(3)] by blast
  then have ne: "r \<noteq> []" using wf(3) by (cases "ctype c") (auto simp: typ_raddr_text_def type_word_def CRLF_def snprintf_text_def)
  let ?body = "foundation c @ 32 # dec_int (component c) @ 32 # transport c @ 32 # dec (unat (priority c)) @
      32 # ?a @ 32 # dec (unat (port (addr c))) @ 32 # str ''typ'' @ 32 # type_word (ctype c) @ r"
  have line: "candidate_line ntop6 c = Some (str ''a=candidate:'' @ ?body)"
    using addr_text_eq [OF wf(1) assms(2)] addr_text_eq [OF wf(2) assms(2)] r(1) by (simp add: candidate_line_def)
  have parsed: "ice_candidate_from_description pton6 mdns c0 ((str ''a=candidate:'' @ ?body) @ rest) w =
      Some (0, c0\<lparr>foundation := foundation c, component := component c, transport := transport c, priority := priority c,
        ctype := ctype c, addr := snd (addr_from_string pton6 ?a (addr_set_port (addr c0) (port (addr c))))\<rparr>, w)"
    for rest c0 and w :: 'w
  proof -
  have hd: "is_space (hd (r @ rest))" using r(2) ne by simp
  let ?c = "c0\<lparr>foundation := foundation c, component := component c, transport := transport c, priority := priority c\<rparr>"
  have scan: "ice_scan c0 (?body @ rest) = Some (?c, Some (?a, ucast (port (addr c)), type_word (ctype c)))"
    using ice_scan_line [OF assms(1) a(1,2) hd, of c0] by simp
  let ?c1 = "?c\<lparr>ctype := ctype c\<rparr>"
  have p: "ucast (ucast (port (addr c)) :: u32) = port (addr c)" by (rule bit_word_eqI) (auto simp: bit_simps)
  obtain b where b: "addr_from_string pton6 ?a (addr_set_port (addr c0) (port (addr c))) = (1, b)" "same_ip (addr c) b" "port b = port (addr c)"
    using addr_from_ip_text [OF wf(1) assms(2), of "addr_set_port (addr c0) (port (addr c))"] by (auto simp: addr_set_port_def Let_def)
  have tr: "starts_with (str ''UDP'') (transport c) \<or> starts_with (str ''udp'') (transport c)"
    using assms(1) by (auto simp: describable_def)
  have "ice_candidate_address pton6 mdns ?c1 ?a (ucast (port (addr c))) w = Some (0, ?c1\<lparr>addr := b\<rparr>, w)"
    using a(3) b(1) by (simp add: ice_candidate_address_def p)
  moreover have "drop (length (str ''candidate:'')) (drop 2 (str ''a=candidate:'' @ ?body @ rest)) = ?body @ rest"
    "starts_with (str ''a='') (str ''a=candidate:'' @ ?body @ rest)"
    "length (str ''candidate:'') \<le> length (drop 2 (str ''a=candidate:'' @ ?body @ rest))" by simp_all
  ultimately show ?thesis
    using scan tr type_word_props [OF wf(3)] b(1)
    by (simp only: ice_candidate_from_description_def Let_def append_assoc if_True c_assert_simps Option.bind_lunit prod.case option.case snd_conv) simp
  qed
  show ?thesis using line parsed by blast
qed

section \<open>Properties\<close>


definition candidate0 :: IceCandidate where
  "candidate0 = \<lparr>foundation = [], component = 0, priority = 0, transport = [], ctype = ICE_CANDIDATE_TYPE_HOST,
     cstate = ICE_CANDIDATE_STATE_FROZEN, addr = addr_zero, raddr = addr_zero\<rparr>"


text \<open>How long a line can get.\<close>

lemma candidate_line_length:
  assumes "describable c" and "inet6_ok pton6 ntop6" and "ntop6_plain ntop6" and "candidate_line ntop6 c = Some line"
  shows "length line < 258"
proof -
  have c: "length (foundation c) \<le> 32" "- (2 ^ 31) \<le> component c" "component c < 2 ^ 31" "length (transport c) = 3"
    "wf_addr (addr c)" "wf_addr (raddr c)"
    using assms(1) by (auto simp: describable_def ICE_NAME_SIZE_def)
  note t = addr_text_eq [OF c(5) assms(2)] addr_text_eq [OF c(6) assms(2)]
  have a: "length (ip_text ntop6 (addr c)) \<le> 45"
    using ip_text_props(2) [OF c(5) assms(2,3)] by (simp add: ADDRSTRLEN_def)
  have "length (dec (nat n)) \<le> 10" if "n \<le> 2 ^ 31" for n :: int
    using that by (intro length_dec_le) (simp_all add: nat_less_iff)
  from this [of "component c"] this [of "- component c"] have comp: "length (dec_int (component c)) \<le> 11"
    using c(2,3) by (simp add: dec_int_def)
  have "unat (priority c) < 10 ^ 10" by (rule order_less_le_trans [OF unsigned_less]) simp
  then have pr: "length (dec (unat (priority c))) \<le> 10" by (rule length_dec_le) simp
  have "unat (port (addr c)) < 10 ^ 5" by (rule order_less_le_trans [OF unsigned_less]) simp
  then have po: "length (dec (unat (port (addr c)))) \<le> 5" by (rule length_dec_le) simp
  have "length (typ_raddr_text c (ip_text ntop6 (raddr c))) \<le> 127" by (simp add: typ_raddr_text_def snprintf_text_def)
  then show ?thesis using assms(4) t a comp pr po c(1,4) by (auto simp: candidate_line_def CRLF_def)
qed

text \<open>Where the candidate is that was read: its port is set before its family, so it goes into the member for the family
  that the candidate had before.\<close>

lemma sockaddr_read:
  assumes "wf_addr a" and "inet6_ok pton6 ntop6"
  shows "sockaddr_of (snd (addr_from_string pton6 (ip_text ntop6 a) (addr_set_port a0 p))) =
    (if family a = AF_INET6 then (AF_INET6, sin6_addr a, if family a0 = AF_INET6 then p else sin6_port a0)
     else (AF_INET, sin_addr a, if family a0 = AF_INET6 then sin_port a0 else p))"
  using assms by (auto simp: addr_from_string_def ip_text_def inet6_ok_def wf_addr_def inet_pton4_ntop4 addr_set_family_def
      addr_set_port_def sockaddr_of_def AF_INET_def AF_INET6_def Let_def)

text \<open>C26: What \<open>ice_candidate_to_description\<close> prints for a candidate, read back: foundation, component,
  transport, priority and type are those of the candidate, for host, server reflexive and relayed candidates of
  both families, whatever follows the line, and a buffer of 258 bytes is always enough. The address that packets to it
  go to is its address and its port if the object that it is read into had an address of the same family before;
  otherwise the port of that socket address is the one the object had. The related address is not read.\<close>

theorem ice_description_roundtrip:
  assumes "describable c" and "inet6_ok pton6 ntop6" and "ntop6_plain ntop6" and "258 \<le> len"
  shows "\<exists>line c'. ice_candidate_to_description ntop6 c len = Some line \<and>
    ice_candidate_from_description pton6 mdns c0 (line @ rest) w = Some (0, c', w) \<and>
    foundation c' = foundation c \<and> component c' = component c \<and> transport c' = transport c \<and> priority c' = priority c \<and>
    ctype c' = ctype c \<and> sockaddr_of (addr c') =
      (if family (addr c) = AF_INET6
       then (AF_INET6, sin6_addr (addr c), if family (addr c0) = AF_INET6 then port (addr c) else sin6_port (addr c0))
       else (AF_INET, sin_addr (addr c), if family (addr c0) = AF_INET6 then sin_port (addr c0) else port (addr c))) \<and>
    raddr c' = raddr c0"
proof -
  have wf: "wf_addr (addr c)" using assms(1) by (simp add: describable_def)
  obtain line where l: "candidate_line ntop6 c = Some line"
    "ice_candidate_from_description pton6 mdns c0 (line @ rest) w =
      Some (0, c0\<lparr>foundation := foundation c, component := component c, transport := transport c, priority := priority c,
        ctype := ctype c, addr := snd (addr_from_string pton6 (ip_text ntop6 (addr c)) (addr_set_port (addr c0) (port (addr c))))\<rparr>, w)"
    using ice_description_parsed [OF assms(1-3), of mdns] by auto
  have "snprintf_text len line = line"
    using candidate_line_length [OF assms(1-3) l(1)] assms(4) by (simp add: snprintf_text_def)
  then have "ice_candidate_to_description ntop6 c len = Some line" using l(1) by (simp add: ice_candidate_to_description_def)
  then show ?thesis using l(2) sockaddr_read [OF wf assms(2), of "addr c0" "port (addr c)"] by (intro exI conjI) (assumption | simp)+
qed

definition example_candidate :: IceCandidate where
  "example_candidate = candidate0\<lparr>foundation := str ''1'', component := 1, priority := 2130706431, transport := str ''UDP'',
     ctype := ICE_CANDIDATE_TYPE_SRFLX, addr := addr_zero\<lparr>family := AF_INET, sin_addr := [192, 168, 1, 9], port := 8000\<rparr>\<rparr>"

lemma describable_example: "describable example_candidate"
  by (simp add: describable_def example_candidate_def candidate0_def word_text_def ICE_NAME_SIZE_def wf_addr_def addr_zero_def is_space_def)

theorem ice_description_roundtrip_witness:
  "\<exists>line c'. ice_candidate_to_description plain_ntop6 example_candidate 300 = Some line \<and>
    ice_candidate_from_description plain_pton6 (\<lambda>n a w. Some (1, a, w)) candidate0 (line @ str ''a=end'') () = Some (0, c', ()) \<and>
    foundation c' = str ''1'' \<and> component c' = 1 \<and> transport c' = str ''UDP'' \<and> priority c' = 2130706431 \<and>
    ctype c' = ICE_CANDIDATE_TYPE_SRFLX \<and> sockaddr_of (addr c') = (AF_INET, [192, 168, 1, 9], 8000) \<and> raddr c' = addr_zero"
  using ice_description_roundtrip [OF describable_example inet6_ok_plain ntop6_plain_plain, of 300 "\<lambda>n a w. Some (1, a, w)" candidate0
      "str ''a=end''" "()"]
  by (simp add: example_candidate_def candidate0_def addr_zero_def AF_INET_def AF_INET6_def)

text \<open>Reading an IPv6 candidate into a candidate whose address was not IPv6 before stores its port for
  IPv4: the port of the IPv6 socket address keeps its old value, and that is where packets go.\<close>

theorem ice_ipv6_port_misplaced:
  assumes "describable c" and "inet6_ok pton6 ntop6" and "ntop6_plain ntop6" and "family (addr c) = AF_INET6" and "family (addr c0) \<noteq> AF_INET6"
  shows "\<exists>line c'. candidate_line ntop6 c = Some line \<and>
    ice_candidate_from_description pton6 mdns c0 (line @ rest) w = Some (0, c', w) \<and>
    sockaddr_of (addr c') = (AF_INET6, sin6_addr (addr c), sin6_port (addr c0)) \<and> port (addr c') = port (addr c)"
proof -
  have "length (sin6_addr (addr c)) = 16" using assms(1) by (simp add: describable_def wf_addr_def)
  then have b: "addr_from_string pton6 (ip_text ntop6 (addr c)) a = (1, a\<lparr>sin6_addr := sin6_addr (addr c), family := AF_INET6\<rparr>)" for a
    using assms(2,4) by (simp add: addr_from_string_def ip_text_def inet6_ok_def addr_set_family_def)
  let ?b = "(addr_set_port (addr c0) (port (addr c)))\<lparr>sin6_addr := sin6_addr (addr c), family := AF_INET6\<rparr>"
  have "sockaddr_of ?b = (AF_INET6, sin6_addr (addr c), sin6_port (addr c0))" "port ?b = port (addr c)"
    using assms(5) by (simp_all add: addr_set_port_def Let_def sockaddr_of_def)
  moreover obtain line where "candidate_line ntop6 c = Some line"
      "ice_candidate_from_description pton6 mdns c0 (line @ rest) w =
        Some (0, c0\<lparr>foundation := foundation c, component := component c, transport := transport c, priority := priority c,
          ctype := ctype c, addr := ?b\<rparr>, w)"
    using ice_description_parsed [OF assms(1-3), of mdns] unfolding b by auto
  ultimately show ?thesis by (intro exI conjI) (assumption | simp)+
qed

theorem ice_ipv6_port_misplaced_witness:
  "\<exists>line c'. candidate_line plain_ntop6 (example_candidate\<lparr>addr := addr_zero\<lparr>family := AF_INET6, port := 8000\<rparr>\<rparr>) = Some line \<and>
    ice_candidate_from_description plain_pton6 (\<lambda>n a w. Some (1, a, w)) candidate0 (line @ []) () = Some (0, c', ()) \<and>
    sockaddr_of (addr c') = (AF_INET6, replicate 16 0, 0) \<and> port (addr c') = 8000"
proof -
  have d: "describable (example_candidate\<lparr>addr := addr_zero\<lparr>family := AF_INET6, port := 8000\<rparr>\<rparr>)"
    using describable_example by (simp add: describable_def wf_addr_def addr_zero_def)
  show ?thesis
    using ice_ipv6_port_misplaced [OF d inet6_ok_plain ntop6_plain_plain, of candidate0 "\<lambda>n a w. Some (1, a, w)" "[]" "()"]
    by (simp add: candidate0_def addr_zero_def AF_INET6_def)
qed

end
