(* ===== verification/Agent.thy ===== *)
theory Agent
  imports Ice
begin

text \<open>
  The ICE agent (\<^verbatim>\<open>src/src/agent.h\<close>, \<^verbatim>\<open>src/src/agent.c\<close>, and \<open>utils_random_string\<close> of
  \<^verbatim>\<open>src/src/utils.c\<close>): gathering of candidates, descriptions, candidate pairs, connectivity
  checks, consent requests and the handling of STUN messages that arrive. The build modelled is the
  one of \<^verbatim>\<open>config.h\<close>: \<^verbatim>\<open>CONFIG_IPV6\<close> is 0 and \<^verbatim>\<open>CONFIG_IFACE_PREFIX\<close> is empty.

  \<^item> Pointers into the agent's arrays (\<open>selected_pair\<close>, \<open>nominated_pair\<close>, \<open>local\<close>, \<open>remote\<close>) are
    indices; a null pointer is \<^const>\<open>None\<close> and following it is undefined behaviour.
  \<^item> The operating system is the parameter \<open>os\<close> of theory \<^theory_text>\<open>Socket\<close>, HMAC-SHA1 and MD5 are
    \<open>hmac\<close> and \<open>md5\<close>. Local variables that the code does not initialise start as zeros.
  \<^item> \<open>host_addr\<close>, \<open>b_host_addr\<close>, \<open>use_candidate\<close> and the gathering \<open>state\<close> are never used by the
    code and left out.
\<close>

section \<open>Data\<close>

definition AGENT_MAX_CANDIDATES :: nat where "AGENT_MAX_CANDIDATES = 10"
definition AGENT_MAX_CANDIDATE_PAIRS :: nat where "AGENT_MAX_CANDIDATE_PAIRS = 100"
definition AGENT_POLL_TIMEOUT :: nat where "AGENT_POLL_TIMEOUT = 1"
definition AGENT_CONNCHECK_MAX :: nat where "AGENT_CONNCHECK_MAX = 1000"
definition AGENT_CONNCHECK_PERIOD :: nat where "AGENT_CONNCHECK_PERIOD = 100"
definition AGENT_STUN_RECV_MAXTIMES :: nat where "AGENT_STUN_RECV_MAXTIMES = 1000"

datatype AgentMode = AGENT_MODE_CONTROLLED | AGENT_MODE_CONTROLLING

record IceCandidatePair =
  pair_state :: IceCandidateState
  pair_local :: nat
  pair_remote :: nat
  conncheck :: nat
  pair_priority :: u64

record Agent =
  remote_ufrag :: bytes
  remote_upwd :: bytes
  local_ufrag :: bytes
  local_upwd :: bytes
  local_candidates :: "IceCandidate list"
  remote_candidates :: "IceCandidate list"
  local_candidates_count :: nat
  remote_candidates_count :: nat
  udp_sockets :: "UdpSocket list"
  binding_request_time :: u64
  agent_mode :: AgentMode
  candidate_pairs :: "IceCandidatePair list"
  selected_pair :: "nat option"
  nominated_pair :: "nat option"
  candidate_pairs_num :: nat
  agent_transaction_id :: bytes

text \<open>The arrays have the sizes they are declared with.\<close>

definition wf_agent :: "Agent \<Rightarrow> bool" where
  "wf_agent a \<longleftrightarrow> length (remote_ufrag a) = ICE_UFRAG_LENGTH + 1 \<and> length (remote_upwd a) = ICE_UPWD_LENGTH + 1 \<and>
     length (local_ufrag a) = ICE_UFRAG_LENGTH + 1 \<and> length (local_upwd a) = ICE_UPWD_LENGTH + 1 \<and>
     length (local_candidates a) = AGENT_MAX_CANDIDATES \<and> length (remote_candidates a) = AGENT_MAX_CANDIDATES \<and>
     length (udp_sockets a) = 2 \<and> length (candidate_pairs a) = AGENT_MAX_CANDIDATE_PAIRS \<and>
     length (agent_transaction_id a) = 12"

section \<open>Life cycle\<close>

definition agent_clear_candidates :: "Agent \<Rightarrow> Agent" where
  "agent_clear_candidates agent =
     agent\<lparr>local_candidates_count := 0, remote_candidates_count := 0, candidate_pairs_num := 0\<rparr>"

definition agent_create :: "'w Os \<Rightarrow> Agent \<Rightarrow> 'w \<Rightarrow> (int \<times> Agent \<times> 'w) option" where
  "agent_create os agent w = do {
     sock \<leftarrow> mem_get 0 (udp_sockets agent);
     let (ret, sock, w) = udp_socket_open os sock AF_INET 0 w;
     let agent = agent\<lparr>udp_sockets := (udp_sockets agent)[0 := sock]\<rparr>;
     (if ret < 0 then Some (ret, agent, w)
      else Some (0, (agent_clear_candidates agent)\<lparr>remote_ufrag := replicate (ICE_UFRAG_LENGTH + 1) 0,
             remote_upwd := replicate (ICE_UPWD_LENGTH + 1) 0\<rparr>, w))
   }"

definition agent_destroy :: "'w Os \<Rightarrow> Agent \<Rightarrow> 'w \<Rightarrow> 'w option" where
  "agent_destroy os agent w = do {
     sock \<leftarrow> mem_get 0 (udp_sockets agent);
     Some (if 0 < fd sock then udp_socket_close os sock w else w)
   }"

section \<open>Sending and receiving\<close>

text \<open>Only the IPv4 socket is put into the set; both descriptors are asked for afterwards.\<close>

definition agent_socket_recv ::
  "'w Os \<Rightarrow> Agent \<Rightarrow> Address option \<Rightarrow> bytes \<Rightarrow> nat \<Rightarrow> 'w \<Rightarrow> (int \<times> Address option \<times> bytes \<times> 'w) option" where
  "agent_socket_recv os agent peer buf len w = do {
     s0 \<leftarrow> mem_get 0 (udp_sockets agent);
     s1 \<leftarrow> mem_get 1 (udp_sockets agent);
     let (ret, ready, w) = os_select os (if 0 \<le> fd s0 then [fd s0] else []) AGENT_POLL_TIMEOUT w;
     (if ret \<le> 0 then Some (ret, peer, buf, w)
      else if fd s0 \<in> set ready then do {
        buf \<leftarrow> mem_write 0 (replicate len 0) buf;
        udp_socket_recvfrom os s0 peer buf len w }
      else if fd s1 \<in> set ready then do {
        buf \<leftarrow> mem_write 0 (replicate len 0) buf;
        udp_socket_recvfrom os s1 peer buf len w }
      else Some (ret, peer, buf, w))
   }"

text \<open>\<open>ret\<close> is the value of the last attempt, \<open>-1\<close> before the first.\<close>

fun agent_socket_recv_attempts ::
  "'w Os \<Rightarrow> Agent \<Rightarrow> Address option \<Rightarrow> bytes \<Rightarrow> nat \<Rightarrow> nat \<Rightarrow> int \<Rightarrow> 'w \<Rightarrow> (int \<times> Address option \<times> bytes \<times> 'w) option" where
  "agent_socket_recv_attempts os agent peer buf len 0 ret w = Some (ret, peer, buf, w)"
| "agent_socket_recv_attempts os agent peer buf len (Suc n) ret w = do {
     (ret, peer, buf, w) \<leftarrow> agent_socket_recv os agent peer buf len w;
     (if ret \<noteq> 0 then Some (ret, peer, buf, w)
      else agent_socket_recv_attempts os agent peer buf len n ret w)
   }"

definition agent_socket_send :: "'w Os \<Rightarrow> Agent \<Rightarrow> Address \<Rightarrow> bytes \<Rightarrow> nat \<Rightarrow> 'w \<Rightarrow> (int \<times> 'w) option" where
  "agent_socket_send os agent peer buf len w = do {
     sock \<leftarrow> mem_get (if family peer = AF_INET6 then 1 else 0) (udp_sockets agent);
     udp_socket_sendto os sock peer buf len w
   }"

definition nominated :: "Agent \<Rightarrow> (nat \<times> IceCandidatePair) option" where
  "nominated agent = do { i \<leftarrow> nominated_pair agent; p \<leftarrow> mem_get i (candidate_pairs agent); Some (i, p) }"

definition nominated_remote_addr :: "Agent \<Rightarrow> Address option" where
  "nominated_remote_addr agent = do {
     (i, p) \<leftarrow> nominated agent;
     c \<leftarrow> mem_get (pair_remote p) (remote_candidates agent);
     Some (addr c)
   }"

definition agent_send :: "'w Os \<Rightarrow> Agent \<Rightarrow> bytes \<Rightarrow> nat \<Rightarrow> 'w \<Rightarrow> (int \<times> 'w) option" where
  "agent_send os agent buf len w = do {
     a \<leftarrow> nominated_remote_addr agent;
     agent_socket_send os agent a buf len w
   }"

section \<open>Gathering\<close>

definition set_local_candidate :: "nat \<Rightarrow> IceCandidate \<Rightarrow> Agent \<Rightarrow> Agent" where
  "set_local_candidate i c agent = agent\<lparr>local_candidates := (local_candidates agent)[i := c]\<rparr>"

text \<open>One address family and one interface prefix, the empty one.\<close>

definition agent_create_host_addr :: "'w Os \<Rightarrow> Agent \<Rightarrow> 'w \<Rightarrow> (int \<times> Agent \<times> 'w) option" where
  "agent_create_host_addr os agent w = do {
     sock \<leftarrow> mem_get 0 (udp_sockets agent);
     let n = local_candidates_count agent;
     c \<leftarrow> mem_get n (local_candidates agent);
     c \<leftarrow> ice_candidate_create c (int n) ICE_CANDIDATE_TYPE_HOST (bind_addr sock);
     let (r, a, w) = ports_get_host_addr os (addr c) (Some []) w;
     let agent = set_local_candidate n (c\<lparr>addr := a\<rparr>) agent;
     Some (0, if r \<noteq> 0 then agent\<lparr>local_candidates_count := n + 1\<rparr> else agent, w)
   }"

text \<open>The candidate goes to the old count, its foundation is the new one.\<close>

definition add_local_candidate :: "Agent \<Rightarrow> IceCandidateType \<Rightarrow> Address \<Rightarrow> Agent option" where
  "add_local_candidate agent typ a = do {
     let n = local_candidates_count agent;
     c \<leftarrow> mem_get n (local_candidates agent);
     c \<leftarrow> ice_candidate_create c (int (n + 1)) typ a;
     Some (set_local_candidate n c (agent\<lparr>local_candidates_count := n + 1\<rparr>))
   }"

definition agent_create_stun_addr :: "'w Os \<Rightarrow> Agent \<Rightarrow> Address \<Rightarrow> 'w \<Rightarrow> (int \<times> Agent \<times> 'w) option" where
  "agent_create_stun_addr os agent serv_addr w = do {
     send_msg \<leftarrow> stun_msg_create stun0 (STUN_CLASS_REQUEST OR STUN_METHOD_BINDING);
     (ret, w) \<leftarrow> agent_socket_send os agent serv_addr (sbuf send_msg) (msg_size send_msg) w;
     (if ret = -1 then Some (ret, agent, w)
      else do {
        (ret, u, b, w) \<leftarrow> agent_socket_recv_attempts os agent None (sbuf stun0) STUN_ATTR_BUF_SIZE AGENT_STUN_RECV_MAXTIMES (-1) w;
        (if ret \<le> 0 then Some (ret, agent, w)
         else do {
           recv_msg \<leftarrow> stun_parse_msg_buf (stun0\<lparr>sbuf := b\<rparr>);
           agent \<leftarrow> add_local_candidate agent ICE_CANDIDATE_TYPE_SRFLX (mapped_addr recv_msg);
           Some (ret, agent, w)
         })
      })
   }"

text \<open>\<open>user\<close> is the object the string is in, with its NUL.\<close>

definition turn_allocate_request :: "bytes \<Rightarrow> StunMessage option" where
  "turn_allocate_request user = do {
     ulen \<leftarrow> c_strlen user;
     msg \<leftarrow> stun_msg_create stun0 STUN_METHOD_ALLOCATE;
     msg \<leftarrow> stun_msg_write_attr msg STUN_ATTR_TYPE_REQUESTED_TRANSPORT 4 (Some (be32 0x11000000));
     stun_msg_write_attr msg STUN_ATTR_TYPE_USERNAME (of_nat ulen) (Some user)
   }"

definition agent_create_turn_addr ::
  "(bytes \<Rightarrow> bytes \<Rightarrow> bytes) \<Rightarrow> (bytes \<Rightarrow> bytes) \<Rightarrow> 'w Os \<Rightarrow> Agent \<Rightarrow> Address \<Rightarrow> bytes \<Rightarrow> bytes \<Rightarrow> 'w \<Rightarrow>
   (int \<times> Agent \<times> 'w) option" where
  "agent_create_turn_addr hmac md5 os agent serv_addr user credential w = do {
     send_msg \<leftarrow> turn_allocate_request user;
     (ret, w) \<leftarrow> agent_socket_send os agent serv_addr (sbuf send_msg) (msg_size send_msg) w;
     (if ret = -1 then Some (-1, agent, w)
      else do {
        (ret, u, b, w) \<leftarrow> agent_socket_recv_attempts os agent None (sbuf stun0) STUN_ATTR_BUF_SIZE AGENT_STUN_RECV_MAXTIMES (-1) w;
        (if ret \<le> 0 then Some (ret, agent, w)
         else do {
           recv_msg \<leftarrow> stun_parse_msg_buf (stun0\<lparr>sbuf := b\<rparr>);
           (if stunclass recv_msg = STUN_CLASS_ERROR \<and> stunmethod recv_msg = STUN_METHOD_ALLOCATE then do {
              send_msg \<leftarrow> turn_allocate_request user;
              nlen \<leftarrow> c_strlen (nonce recv_msg);
              send_msg \<leftarrow> stun_msg_write_attr send_msg STUN_ATTR_TYPE_NONCE (of_nat nlen) (Some (nonce recv_msg));
              rlen \<leftarrow> c_strlen (realm recv_msg);
              send_msg \<leftarrow> stun_msg_write_attr send_msg STUN_ATTR_TYPE_REALM (of_nat rlen) (Some (realm recv_msg));
              send_msg \<leftarrow> stun_msg_finish hmac md5 send_msg STUN_CREDENTIAL_LONG_TERM credential (length credential);
              (ret, w) \<leftarrow> agent_socket_send os agent serv_addr (sbuf send_msg) (msg_size send_msg) w;
              (if ret < 0 then Some (-1, agent, w)
               else do {
                 (ret', u, b, w) \<leftarrow> agent_socket_recv_attempts os agent None (sbuf recv_msg) STUN_ATTR_BUF_SIZE AGENT_STUN_RECV_MAXTIMES (-1) w;
                 (if ret \<le> 0 then Some (ret, agent, w)
                  else do {
                    recv_msg \<leftarrow> stun_parse_msg_buf (recv_msg\<lparr>sbuf := b\<rparr>);
                    agent \<leftarrow> add_local_candidate agent ICE_CANDIDATE_TYPE_RELAY (relayed_addr recv_msg);
                    Some (ret, agent, w)
                  })
               })
            }
            else Some (-1, agent, w))
         })
      })
   }"

text \<open>\<open>urls\<close> is the text, \<^const>\<open>None\<close> for a null pointer. \<open>hostname\<close> has 64 bytes; the size given to
  \<^verbatim>\<open>snprintf\<close> is the length of the name and its NUL.\<close>

definition agent_gather_candidate ::
  "(bytes \<Rightarrow> bytes \<Rightarrow> bytes) \<Rightarrow> (bytes \<Rightarrow> bytes) \<Rightarrow> 'w Os \<Rightarrow> Agent \<Rightarrow> bytes option \<Rightarrow> bytes \<Rightarrow> bytes \<Rightarrow> 'w \<Rightarrow>
   (Agent \<times> 'w) option" where
  "agent_gather_candidate hmac md5 os agent urls user credential w = (case urls of
     None \<Rightarrow> do { (r, agent, w) \<leftarrow> agent_create_host_addr os agent w; Some (agent, w) }
   | Some urls \<Rightarrow> do {
       c_assert (5 \<le> length urls);
       (case strstr (drop 5 urls) (str '':'') of
          None \<Rightarrow> Some (agent, w)
        | Some pos \<Rightarrow>
            let p = atoi (drop (pos + 1) (drop 5 urls)) in
            if p \<le> 0 then Some (agent, w)
            else do {
              c_assert (pos + 1 \<le> 64);
              let hostname = take pos (drop 5 urls);
              let (r, a, w) = ports_resolve_addr os hostname addr_zero w;
              (if r = 0 then
                 let a = addr_set_port a (of_int p) in
                 if starts_with (str ''stun:'') urls then do {
                   (r, agent, w) \<leftarrow> agent_create_stun_addr os agent a w; Some (agent, w) }
                 else if starts_with (str ''turn:'') urls then do {
                   (r, agent, w) \<leftarrow> agent_create_turn_addr hmac md5 os agent a user credential w; Some (agent, w) }
                 else Some (agent, w)
               else Some (agent, w))
            })
     })"


section \<open>Credentials\<close>

definition alphanum :: bytes where
  "alphanum = str ''0123456789ABCDEFGHIJKLMNOPQRSTUVWXYZabcdefghijklmnopqrstuvwxyz''"

text \<open>\<open>rnd seed k\<close> is the \<open>k\<close>-th \<^verbatim>\<open>rand()\<close> after \<^verbatim>\<open>srand(seed)\<close>; the seed is the time in seconds. The result
  is the array with the text and its NUL.\<close>

definition random_text :: "(nat \<Rightarrow> nat \<Rightarrow> nat) \<Rightarrow> nat \<Rightarrow> nat \<Rightarrow> bytes" where
  "random_text rnd seed len = map (\<lambda>k. alphanum ! (rnd seed k mod length alphanum)) [0..<len]"

definition utils_random_string :: "(nat \<Rightarrow> nat \<Rightarrow> nat) \<Rightarrow> nat \<Rightarrow> bytes \<Rightarrow> nat \<Rightarrow> bytes option" where
  "utils_random_string rnd seed s len = mem_write 0 (random_text rnd seed len @ [0]) s"

definition agent_create_ice_credential :: "(nat \<Rightarrow> nat \<Rightarrow> nat) \<Rightarrow> 'w Os \<Rightarrow> Agent \<Rightarrow> 'w \<Rightarrow> (Agent \<times> 'w) option" where
  "agent_create_ice_credential rnd os agent w = do {
     let (t1, w) = os_time os w;
     u \<leftarrow> utils_random_string rnd t1 (replicate (ICE_UFRAG_LENGTH + 1) 0) 4;
     let (t2, w) = os_time os w;
     p \<leftarrow> utils_random_string rnd t2 (replicate (ICE_UPWD_LENGTH + 1) 0) 24;
     Some (agent\<lparr>local_ufrag := u, local_upwd := p\<rparr>, w)
   }"

section \<open>Descriptions\<close>

text \<open>\<^verbatim>\<open>snprintf\<close> at the end of the text already in the buffer.\<close>

definition append_text :: "bytes \<Rightarrow> nat \<Rightarrow> bytes \<Rightarrow> bytes option" where
  "append_text buf len t = do {
     n \<leftarrow> c_strlen buf;
     c_assert (n \<le> len);
     (if n = len then Some buf else mem_write n (snprintf_text (len - n) t @ [0]) buf)
   }"

fun describe_candidates :: "(bytes \<Rightarrow> bytes) \<Rightarrow> IceCandidate list \<Rightarrow> bytes \<Rightarrow> nat \<Rightarrow> bytes option" where
  "describe_candidates ntop6 [] buf len = Some buf"
| "describe_candidates ntop6 (c # cs) buf len = do {
     line \<leftarrow> candidate_line ntop6 c;
     buf \<leftarrow> append_text buf len line;
     describe_candidates ntop6 cs buf len
   }"

definition agent_get_local_description :: "(bytes \<Rightarrow> bytes) \<Rightarrow> Agent \<Rightarrow> bytes \<Rightarrow> nat \<Rightarrow> bytes option" where
  "agent_get_local_description ntop6 agent buf len = do {
     c_assert (local_candidates_count agent \<le> length (local_candidates agent));
     describe_candidates ntop6 (take (local_candidates_count agent) (local_candidates agent)) buf len
   }"

text \<open>\<open>strncpy\<close> of \<open>n\<close> bytes of a line without a NUL: no terminator is written.\<close>

definition set_remote_candidate :: "nat \<Rightarrow> IceCandidate \<Rightarrow> Agent \<Rightarrow> Agent" where
  "set_remote_candidate i c agent = agent\<lparr>remote_candidates := (remote_candidates agent)[i := c]\<rparr>"

text \<open>One line, given with everything that follows it; \<open>n\<close> is its length.\<close>

definition remote_line ::
  "(bytes \<Rightarrow> bytes option) \<Rightarrow> (bytes \<Rightarrow> Address \<Rightarrow> 'w \<Rightarrow> (int \<times> Address \<times> 'w) option) \<Rightarrow>
   Agent \<Rightarrow> bytes \<Rightarrow> nat \<Rightarrow> 'w \<Rightarrow> (Agent \<times> 'w) option" where
  "remote_line pton6 mdns agent description n w =
     (if starts_with (str ''a=ice-ufrag:'') description then do {
        u \<leftarrow> mem_write 0 (take (n - 12) (drop 12 description)) (remote_ufrag agent);
        Some (agent\<lparr>remote_ufrag := u\<rparr>, w) }
      else if starts_with (str ''a=ice-pwd:'') description then do {
        p \<leftarrow> mem_write 0 (take (n - 10) (drop 10 description)) (remote_upwd agent);
        Some (agent\<lparr>remote_upwd := p\<rparr>, w) }
      else if starts_with (str ''a=candidate:'') description then do {
        let k = remote_candidates_count agent;
        c \<leftarrow> mem_get k (remote_candidates agent);
        (ret, c, w) \<leftarrow> ice_candidate_from_description pton6 mdns c description w;
        let agent = set_remote_candidate k c agent;
        Some (if ret = 0 \<and> (\<forall>d \<in> set (take k (remote_candidates agent)). foundation d \<noteq> foundation c)
              then agent\<lparr>remote_candidates_count := k + 1\<rparr> else agent, w)
      }
      else Some (agent, w))"

function agent_set_remote_description ::
  "(bytes \<Rightarrow> bytes option) \<Rightarrow> (bytes \<Rightarrow> Address \<Rightarrow> 'w \<Rightarrow> (int \<times> Address \<times> 'w) option) \<Rightarrow>
   Agent \<Rightarrow> bytes \<Rightarrow> 'w \<Rightarrow> (Agent \<times> 'w) option" where
  "agent_set_remote_description pton6 mdns agent description w =
     (case strstr description CRLF of
        None \<Rightarrow> Some (agent, w)
      | Some n \<Rightarrow> do {
          (agent, w) \<leftarrow> remote_line pton6 mdns agent description n w;
          agent_set_remote_description pton6 mdns agent (drop (n + 2) description) w
        })"
  by pat_completeness auto
termination
  by (relation "measure (\<lambda>(p, m, a, d, w). length d)") (auto simp: CRLF_def dest: strstr_Some)

declare agent_set_remote_description.simps [simp del]

section \<open>Candidate pairs\<close>

definition add_pair :: "nat \<Rightarrow> nat \<Rightarrow> Agent \<Rightarrow> Agent option" where
  "add_pair i j agent = do {
     l \<leftarrow> mem_get i (local_candidates agent);
     r \<leftarrow> mem_get j (remote_candidates agent);
     (if family (addr l) = family (addr r) then do {
        let n = candidate_pairs_num agent;
        p \<leftarrow> mem_get n (candidate_pairs agent);
        let p = p\<lparr>pair_local := i, pair_remote := j, pair_priority := ucast (priority l + priority r),
             pair_state := ICE_CANDIDATE_STATE_FROZEN\<rparr>;
        Some (agent\<lparr>candidate_pairs := (candidate_pairs agent)[n := p], candidate_pairs_num := n + 1\<rparr>)
      }
      else Some agent)
   }"

fun add_pairs :: "(nat \<times> nat) list \<Rightarrow> Agent \<Rightarrow> Agent option" where
  "add_pairs [] agent = Some agent"
| "add_pairs ((i, j) # ijs) agent = do { agent \<leftarrow> add_pair i j agent; add_pairs ijs agent }"

definition agent_update_candidate_pairs :: "Agent \<Rightarrow> Agent option" where
  "agent_update_candidate_pairs agent =
     add_pairs (List.product [0..<local_candidates_count agent] [0..<remote_candidates_count agent]) agent"

definition set_pair :: "nat \<Rightarrow> (IceCandidatePair \<Rightarrow> IceCandidatePair) \<Rightarrow> Agent \<Rightarrow> Agent" where
  "set_pair i f agent = agent\<lparr>candidate_pairs := (candidate_pairs agent)[i := f (candidate_pairs agent ! i)]\<rparr>"

text \<open>The loop of \<open>agent_select_candidate_pair\<close> over the remaining indices.\<close>

fun select_from :: "nat list \<Rightarrow> Agent \<Rightarrow> (int \<times> Agent) option" where
  "select_from [] agent = Some (-1, agent)"
| "select_from (i # is') agent = do {
     p \<leftarrow> mem_get i (candidate_pairs agent);
     (case pair_state p of
        ICE_CANDIDATE_STATE_FROZEN \<Rightarrow>
          Some (0, set_pair i (\<lambda>p. p\<lparr>conncheck := 0, pair_state := ICE_CANDIDATE_STATE_INPROGRESS\<rparr>)
                     (agent\<lparr>nominated_pair := Some i\<rparr>))
      | ICE_CANDIDATE_STATE_INPROGRESS \<Rightarrow>
          let agent = set_pair i (\<lambda>p. p\<lparr>conncheck := conncheck p + 1\<rparr>) agent in
          if conncheck p + 1 < AGENT_CONNCHECK_MAX then Some (0, agent)
          else select_from is' (set_pair i (\<lambda>p. p\<lparr>pair_state := ICE_CANDIDATE_STATE_FAILED\<rparr>) agent)
      | ICE_CANDIDATE_STATE_SUCCEEDED \<Rightarrow> Some (0, agent\<lparr>selected_pair := Some i\<rparr>)
      | _ \<Rightarrow> select_from is' agent)
   }"

definition agent_select_candidate_pair :: "Agent \<Rightarrow> (int \<times> Agent) option" where
  "agent_select_candidate_pair agent = select_from [0..<candidate_pairs_num agent] agent"

section \<open>STUN messages of the agent\<close>

definition le64 :: "u64 \<Rightarrow> bytes" where
  "le64 v = le32 (ucast v) @ le32 (ucast (drop_bit 32 v))"

text \<open>\<^verbatim>\<open>snprintf(username, 584, "%s:%s", a, b)\<close> into an array cleared before.\<close>

definition username_array :: "bytes \<Rightarrow> bytes \<Rightarrow> bytes option" where
  "username_array a b = do {
     a \<leftarrow> c_text a;
     b \<leftarrow> c_text b;
     let t = snprintf_text 584 (a @ str '':'' @ b);
     Some (t @ replicate (584 - length t) 0)
   }"

definition agent_create_binding_response ::
  "(bytes \<Rightarrow> bytes \<Rightarrow> bytes) \<Rightarrow> (bytes \<Rightarrow> bytes) \<Rightarrow> Agent \<Rightarrow> StunMessage \<Rightarrow> Address \<Rightarrow> StunMessage option" where
  "agent_create_binding_response hmac md5 agent msg peer = do {
     msg \<leftarrow> stun_msg_create msg (STUN_CLASS_RESPONSE OR STUN_METHOD_BINDING);
     msg \<leftarrow> set_sbuf 8 (agent_transaction_id agent) msg;
     user \<leftarrow> username_array (local_ufrag agent) (remote_ufrag agent);
     (n, v) \<leftarrow> stun_set_mapped_address (replicate 32 0) (be32 MAGIC_COOKIE @ agent_transaction_id agent) peer;
     msg \<leftarrow> stun_msg_write_attr msg STUN_ATTR_TYPE_XOR_MAPPED_ADDRESS (of_int n) (Some v);
     ulen \<leftarrow> c_strlen user;
     msg \<leftarrow> stun_msg_write_attr msg STUN_ATTR_TYPE_USERNAME (of_nat ulen) (Some user);
     pwd \<leftarrow> c_text (local_upwd agent);
     stun_msg_finish hmac md5 msg STUN_CREDENTIAL_SHORT_TERM pwd (length pwd)
   }"

text \<open>\<open>tie_breaker\<close> is the 64-bit number as it is in memory, least significant byte first; so is the
  priority.\<close>

definition tie_breaker :: "nat \<Rightarrow> nat \<Rightarrow> u64" where
  "tie_breaker r1 r2 = (let t = push_bit 32 (of_nat r1) OR of_nat r2 in if t = 0 then 1 else t)"

definition request_attrs :: "AgentMode \<Rightarrow> bytes \<Rightarrow> nat \<Rightarrow> u64 \<Rightarrow> u64 \<Rightarrow> attr list" where
  "request_attrs mode user ulen prio tie =
     [(STUN_ATTR_TYPE_USERNAME, of_nat ulen, Some user), (STUN_ATTR_TYPE_PRIORITY, 4, Some (le64 prio))] @
     (if mode = AGENT_MODE_CONTROLLING
      then [(STUN_ATTR_TYPE_USE_CANDIDATE, 0, None), (STUN_ATTR_TYPE_ICE_CONTROLLING, 8, Some (le64 tie))]
      else [(STUN_ATTR_TYPE_ICE_CONTROLLED, 8, Some (le64 tie))])"

definition agent_create_binding_request ::
  "(bytes \<Rightarrow> bytes \<Rightarrow> bytes) \<Rightarrow> (bytes \<Rightarrow> bytes) \<Rightarrow> 'w Os \<Rightarrow> Agent \<Rightarrow> StunMessage \<Rightarrow> 'w \<Rightarrow> (StunMessage \<times> 'w) option" where
  "agent_create_binding_request hmac md5 os agent msg w = do {
     let (r1, w) = os_rand os w;
     let (r2, w) = os_rand os w;
     msg \<leftarrow> stun_msg_create msg (STUN_CLASS_REQUEST OR STUN_METHOD_BINDING);
     user \<leftarrow> username_array (remote_ufrag agent) (local_ufrag agent);
     ulen \<leftarrow> c_strlen user;
     (i, p) \<leftarrow> nominated agent;
     msg \<leftarrow> stun_write_all (request_attrs (agent_mode agent) user ulen (pair_priority p) (tie_breaker r1 r2)) msg;
     pwd \<leftarrow> c_text (remote_upwd agent);
     msg \<leftarrow> stun_msg_finish hmac md5 msg STUN_CREDENTIAL_SHORT_TERM pwd (length pwd);
     Some (msg, w)
   }"

definition agent_send_consent_request ::
  "(bytes \<Rightarrow> bytes \<Rightarrow> bytes) \<Rightarrow> (bytes \<Rightarrow> bytes) \<Rightarrow> 'w Os \<Rightarrow> Agent \<Rightarrow> 'w \<Rightarrow> (int \<times> 'w) option" where
  "agent_send_consent_request hmac md5 os agent w =
     (if nominated_pair agent = None then Some (-1, w)
      else do {
        (msg, w) \<leftarrow> agent_create_binding_request hmac md5 os agent stun0 w;
        a \<leftarrow> nominated_remote_addr agent;
        agent_socket_send os agent a (sbuf msg) (msg_size msg) w
      })"

definition agent_process_stun_request ::
  "(bytes \<Rightarrow> bytes \<Rightarrow> bytes) \<Rightarrow> (bytes \<Rightarrow> bytes) \<Rightarrow> 'w Os \<Rightarrow> Agent \<Rightarrow> StunMessage \<Rightarrow> Address \<Rightarrow> 'w \<Rightarrow> (Agent \<times> 'w) option" where
  "agent_process_stun_request hmac md5 os agent stun_msg peer w =
     (if stunmethod stun_msg = STUN_METHOD_BINDING then do {
        pwd \<leftarrow> c_text (local_upwd agent);
        v \<leftarrow> stun_msg_is_valid hmac stun0 (sbuf stun_msg) (msg_size stun_msg) pwd;
        (if v = 0 then do {
           t \<leftarrow> mem_read 8 12 (sbuf stun_msg);
           let agent = agent\<lparr>agent_transaction_id := t\<rparr>;
           msg \<leftarrow> agent_create_binding_response hmac md5 agent stun0 peer;
           (r, w) \<leftarrow> agent_socket_send os agent peer (sbuf msg) (msg_size msg) w;
           let (now, w) = ports_get_epoch_time os w;
           Some (agent\<lparr>binding_request_time := ucast now\<rparr>, w)
         }
         else Some (agent, w))
      }
      else Some (agent, w))"

definition agent_process_stun_response ::
  "(bytes \<Rightarrow> bytes \<Rightarrow> bytes) \<Rightarrow> 'w Os \<Rightarrow> Agent \<Rightarrow> StunMessage \<Rightarrow> 'w \<Rightarrow> (Agent \<times> 'w) option" where
  "agent_process_stun_response hmac os agent stun_msg w =
     (if stunmethod stun_msg = STUN_METHOD_BINDING then do {
        pwd \<leftarrow> c_text (remote_upwd agent);
        v \<leftarrow> stun_msg_is_valid hmac stun0 (sbuf stun_msg) (msg_size stun_msg) pwd;
        (if v = 0 then do {
           (i, p) \<leftarrow> nominated agent;
           let agent = set_pair i (\<lambda>p. p\<lparr>pair_state := ICE_CANDIDATE_STATE_SUCCEEDED\<rparr>) agent;
           let (now, w) = ports_get_epoch_time os w;
           Some (agent\<lparr>binding_request_time := ucast now\<rparr>, w)
         }
         else Some (agent, w))
      }
      else Some (agent, w))"

text \<open>A datagram with the magic cookie, whatever its length, is copied into the 256-byte buffer of a
  message.\<close>

definition agent_handle_datagram ::
  "(bytes \<Rightarrow> bytes \<Rightarrow> bytes) \<Rightarrow> (bytes \<Rightarrow> bytes) \<Rightarrow> 'w Os \<Rightarrow> Agent \<Rightarrow> bytes \<Rightarrow> Address \<Rightarrow> 'w \<Rightarrow> (Agent \<times> 'w) option" where
  "agent_handle_datagram hmac md5 os agent d peer w = do {
     m \<leftarrow> set_sbuf 0 d stun0;
     m \<leftarrow> stun_parse_msg_buf (m\<lparr>msg_size := length d\<rparr>);
     (if stunclass m = STUN_CLASS_REQUEST then agent_process_stun_request hmac md5 os agent m peer w
      else if stunclass m = STUN_CLASS_RESPONSE then agent_process_stun_response hmac os agent m w
      else Some (agent, w))
   }"

definition agent_recv ::
  "(bytes \<Rightarrow> bytes \<Rightarrow> bytes) \<Rightarrow> (bytes \<Rightarrow> bytes) \<Rightarrow> 'w Os \<Rightarrow> Agent \<Rightarrow> bytes \<Rightarrow> nat \<Rightarrow> 'w \<Rightarrow>
   (int \<times> bytes \<times> Agent \<times> 'w) option" where
  "agent_recv hmac md5 os agent buf len w = do {
     (ret, peer, buf, w) \<leftarrow> agent_socket_recv os agent (Some addr_zero) buf len w;
     (if ret \<le> 0 then Some (ret, buf, agent, w)
      else do {
        pr \<leftarrow> stun_probe buf len;
        (if pr \<noteq> 0 then Some (ret, buf, agent, w)
         else do {
           d \<leftarrow> mem_read 0 (nat ret) buf;
           peer \<leftarrow> peer;
           (agent, w) \<leftarrow> agent_handle_datagram hmac md5 os agent d peer w;
           Some (0, buf, agent, w)
         })
      })
   }"

definition agent_connectivity_check ::
  "(bytes \<Rightarrow> bytes \<Rightarrow> bytes) \<Rightarrow> (bytes \<Rightarrow> bytes) \<Rightarrow> 'w Os \<Rightarrow> Agent \<Rightarrow> 'w \<Rightarrow> (int \<times> Agent \<times> 'w) option" where
  "agent_connectivity_check hmac md5 os agent w = do {
     (i, p) \<leftarrow> nominated agent;
     (if pair_state p \<noteq> ICE_CANDIDATE_STATE_INPROGRESS then Some (-1, agent, w)
      else do {
        w \<leftarrow> (if conncheck p mod AGENT_CONNCHECK_PERIOD = 0 then do {
               (msg, w) \<leftarrow> agent_create_binding_request hmac md5 os agent stun0 w;
               a \<leftarrow> nominated_remote_addr agent;
               (r, w) \<leftarrow> agent_socket_send os agent a (sbuf msg) (msg_size msg) w;
               Some w }
             else Some w);
        (r, b, agent, w) \<leftarrow> agent_recv hmac md5 os agent (replicate 1400 0) 1400 w;
        (i, p) \<leftarrow> nominated agent;
        (if pair_state p = ICE_CANDIDATE_STATE_SUCCEEDED then Some (0, agent\<lparr>selected_pair := nominated_pair agent\<rparr>, w)
         else Some (-1, agent, w))
      })
   }"

end
