(* ===== verification/Agent_Checks.thy ===== *)
theory Agent_Checks
  imports Agent
begin

text \<open>
  Connectivity checks (theory \<^theory_text>\<open>Agent\<close>): the order in which pairs are tried, the end of the
  checks, and the exchange of a binding request and its response.
\<close>

section \<open>The life of a pair\<close>

abbreviation st :: "Agent \<Rightarrow> nat \<Rightarrow> IceCandidateState" where
  "st a i \<equiv> pair_state (candidate_pairs a ! i)"

text \<open>The pairs before \<open>k\<close> have failed, those behind it were not tried yet, and only \<open>k\<close> can be in
  progress or have succeeded; then it is the nominated one.\<close>

definition checks_at :: "nat \<Rightarrow> Agent \<Rightarrow> bool" where
  "checks_at k a \<longleftrightarrow> k \<le> candidate_pairs_num a \<and> candidate_pairs_num a \<le> length (candidate_pairs a) \<and>
     (\<forall>i < k. st a i = ICE_CANDIDATE_STATE_FAILED) \<and>
     (\<forall>i. k < i \<and> i < candidate_pairs_num a \<longrightarrow> st a i = ICE_CANDIDATE_STATE_FROZEN) \<and>
     (k < candidate_pairs_num a \<longrightarrow> st a k = ICE_CANDIDATE_STATE_FROZEN \<or>
        nominated_pair a = Some k \<and> (st a k = ICE_CANDIDATE_STATE_SUCCEEDED \<or>
          st a k = ICE_CANDIDATE_STATE_INPROGRESS \<and> conncheck (candidate_pairs a ! k) < AGENT_CONNCHECK_MAX))"

definition checks_inv :: "Agent \<Rightarrow> bool" where
  "checks_inv a \<longleftrightarrow> (\<exists>k. checks_at k a)"

text \<open>How many more calls of \<open>agent_select_candidate_pair\<close> the pair at \<open>k\<close> and those behind it can take.\<close>

definition pair_budget :: "IceCandidatePair \<Rightarrow> nat" where
  "pair_budget p = (case pair_state p of
     ICE_CANDIDATE_STATE_FROZEN \<Rightarrow> AGENT_CONNCHECK_MAX
   | ICE_CANDIDATE_STATE_INPROGRESS \<Rightarrow> AGENT_CONNCHECK_MAX - Suc (conncheck p)
   | _ \<Rightarrow> 0)"

text \<open>No pair has an answer yet.\<close>

definition unanswered :: "Agent \<Rightarrow> bool" where
  "unanswered a \<longleftrightarrow> (\<forall>i < candidate_pairs_num a. st a i \<noteq> ICE_CANDIDATE_STATE_SUCCEEDED)"

definition budget :: "Agent \<Rightarrow> nat" where
  "budget a = (\<Sum>i < candidate_pairs_num a. pair_budget (candidate_pairs a ! i))"

lemma budget_le: "budget a \<le> AGENT_CONNCHECK_MAX * candidate_pairs_num a"
proof -
  have "pair_budget p \<le> AGENT_CONNCHECK_MAX" for p by (simp add: pair_budget_def split: IceCandidateState.splits)
  then have "budget a \<le> (\<Sum>i < candidate_pairs_num a. AGENT_CONNCHECK_MAX)"
    unfolding budget_def by (intro sum_mono) simp
  then show ?thesis by (simp add: mult.commute)
qed

lemma set_pair_simps [simp]:
  "candidate_pairs_num (set_pair i f a) = candidate_pairs_num a"
  "nominated_pair (set_pair i f a) = nominated_pair a"
  "length (candidate_pairs (set_pair i f a)) = length (candidate_pairs a)"
  "i < length (candidate_pairs a) \<Longrightarrow> candidate_pairs (set_pair i f a) ! j =
     (if j = i then f (candidate_pairs a ! i) else candidate_pairs a ! j)"
  by (auto simp: set_pair_def nth_list_update)

lemma set_pair_nominated [simp]:
  "candidate_pairs (set_pair i f (a\<lparr>nominated_pair := x\<rparr>)) = candidate_pairs (set_pair i f a)"
  "nominated_pair (set_pair i f (a\<lparr>nominated_pair := x\<rparr>)) = x"
  by (simp_all add: set_pair_def)

lemma select_skips_failed:
  "\<forall>i \<in> set is'. i < length (candidate_pairs a) \<and> st a i = ICE_CANDIDATE_STATE_FAILED \<Longrightarrow>
   select_from (is' @ js) a = select_from js a"
  by (induction is') (simp_all add: mem_get_def)

lemma budget_update:
  assumes "i < candidate_pairs_num a" and "candidate_pairs_num a \<le> length (candidate_pairs a)"
  shows "budget (set_pair i f a) + pair_budget (candidate_pairs a ! i) = budget a + pair_budget (f (candidate_pairs a ! i))"
proof -
  let ?n = "candidate_pairs_num a"
  have r: "{..<?n} = insert i ({..<?n} - {i})" using assms(1) by auto
  have "(\<Sum>j \<in> {..<?n} - {i}. pair_budget (candidate_pairs (set_pair i f a) ! j)) =
      (\<Sum>j \<in> {..<?n} - {i}. pair_budget (candidate_pairs a ! j))"
    using assms by (intro sum.cong) auto
  then show ?thesis
    unfolding budget_def set_pair_simps(1) by (subst (1 2) r, subst (1 2) sum.insert) (use assms in auto)
qed

lemma budget_nominated [simp]:
  "budget (set_pair i f (a\<lparr>nominated_pair := x\<rparr>)) = budget (set_pair i f a)" "budget (a\<lparr>nominated_pair := x\<rparr>) = budget a"
  by (simp_all add: budget_def set_pair_def)

text \<open>The pair at \<open>k\<close> is frozen: it is nominated.\<close>

lemma select_frozen:
  assumes "checks_at k a" and "k < candidate_pairs_num a" and "st a k = ICE_CANDIDATE_STATE_FROZEN"
  shows "\<exists>a'. select_from [k..<candidate_pairs_num a] a = Some (0, a') \<and> checks_at k a' \<and> Suc (budget a') = budget a \<and>
    nominated_pair a' = Some k \<and> st a' k = ICE_CANDIDATE_STATE_INPROGRESS \<and> candidate_pairs_num a' = candidate_pairs_num a"
proof -
  let ?f = "\<lambda>p. p\<lparr>conncheck := 0, pair_state := ICE_CANDIDATE_STATE_INPROGRESS\<rparr>"
  let ?a = "set_pair k ?f (a\<lparr>nominated_pair := Some k\<rparr>)"
  have len: "k < length (candidate_pairs a)" "candidate_pairs_num a \<le> length (candidate_pairs a)"
    using assms(1,2) by (simp_all add: checks_at_def)
  have "[k..<candidate_pairs_num a] = k # [Suc k..<candidate_pairs_num a]" using assms(2) by (simp add: upt_conv_Cons)
  then have "select_from [k..<candidate_pairs_num a] a = Some (0, ?a)" using assms(3) len by (simp add: mem_get_def)
  moreover have "checks_at k ?a"
    using assms len by (auto simp: checks_at_def AGENT_CONNCHECK_MAX_def)
  moreover have "Suc (budget ?a) = budget a"
    using budget_update [OF assms(2) len(2), of ?f] assms(3) by (simp add: pair_budget_def AGENT_CONNCHECK_MAX_def)
  ultimately show ?thesis using len by auto
qed

text \<open>One call: a check that stays in progress or a new nomination uses up budget; a success selects
  the pair; without budget all pairs have failed.\<close>

lemma select_call:
  assumes "checks_inv a"
  shows "\<exists>r a'. agent_select_candidate_pair a = Some (r, a') \<and> checks_inv a' \<and> candidate_pairs_num a' = candidate_pairs_num a \<and>
    (r = -1 \<and> (\<forall>i < candidate_pairs_num a. st a' i = ICE_CANDIDATE_STATE_FAILED) \<or>
     r = 0 \<and> (\<exists>k < candidate_pairs_num a. nominated_pair a' = Some k \<and>
       (st a k = ICE_CANDIDATE_STATE_SUCCEEDED \<and> selected_pair a' = Some k \<and> candidate_pairs a' = candidate_pairs a \<or>
        st a' k = ICE_CANDIDATE_STATE_INPROGRESS \<and> budget a' < budget a)))"
proof -
  obtain k where k: "checks_at k a" using assms unfolding checks_inv_def by blast
  let ?n = "candidate_pairs_num a"
  have len: "k \<le> ?n" "?n \<le> length (candidate_pairs a)" using k by (simp_all add: checks_at_def)
  have split: "[0..<?n] = [0..<k] @ [k..<?n]" using len(1) by (metis le_add_diff_inverse upt_add_eq_append zero_le)
  have skip: "agent_select_candidate_pair a = select_from [k..<?n] a"
    unfolding agent_select_candidate_pair_def split
    by (rule select_skips_failed) (use k len in \<open>auto simp: checks_at_def\<close>)
  show ?thesis
  proof (cases "k < ?n")
    case False
    then have "agent_select_candidate_pair a = Some (-1, a)" using skip by simp
    then show ?thesis using assms k False len by (auto simp: checks_at_def)
  next
    case True
    then have kl: "k < length (candidate_pairs a)" using len by simp
    have cons: "[k..<?n] = k # [Suc k..<?n]" using True by (simp add: upt_conv_Cons)
    consider (frozen) "st a k = ICE_CANDIDATE_STATE_FROZEN"
      | (ok) "st a k = ICE_CANDIDATE_STATE_SUCCEEDED" "nominated_pair a = Some k"
      | (busy) "st a k = ICE_CANDIDATE_STATE_INPROGRESS" "nominated_pair a = Some k" "conncheck (candidate_pairs a ! k) < AGENT_CONNCHECK_MAX"
      using k True unfolding checks_at_def by blast
    then show ?thesis
    proof cases
      case frozen
      then show ?thesis using select_frozen [OF k True frozen] True unfolding skip checks_inv_def by (metis lessI)
    next
      case ok
      let ?a = "a\<lparr>selected_pair := Some k\<rparr>"
      have "agent_select_candidate_pair a = Some (0, ?a)" unfolding skip cons using ok kl by (simp add: mem_get_def)
      moreover have "checks_at k ?a" using k by (simp add: checks_at_def)
      ultimately show ?thesis using ok True unfolding checks_inv_def by auto
    next
      case busy
      let ?p = "candidate_pairs a ! k"
      let ?a1 = "set_pair k (\<lambda>p. p\<lparr>conncheck := conncheck p + 1\<rparr>) a"
      show ?thesis
      proof (cases "conncheck ?p + 1 < AGENT_CONNCHECK_MAX")
        case less: True
        have "agent_select_candidate_pair a = Some (0, ?a1)"
          unfolding skip cons using busy kl less by (simp add: mem_get_def Let_def)
        moreover have "checks_at k ?a1" using k busy kl less by (auto simp: checks_at_def)
        moreover have "budget ?a1 < budget a"
          using budget_update [OF True len(2), of "\<lambda>p. p\<lparr>conncheck := conncheck p + 1\<rparr>"] busy(1) less
          by (simp add: pair_budget_def)
        ultimately show ?thesis using busy True kl unfolding checks_inv_def by auto
      next
        case False
        let ?a2 = "set_pair k (\<lambda>p. p\<lparr>pair_state := ICE_CANDIDATE_STATE_FAILED\<rparr>) ?a1"
        have sel: "agent_select_candidate_pair a = select_from [Suc k..<?n] ?a2"
          unfolding skip cons using busy kl False by (simp add: mem_get_def Let_def)
        have at: "checks_at (Suc k) ?a2"
          using k busy kl True by (auto simp: checks_at_def less_Suc_eq)
        have b2: "budget ?a2 + pair_budget ?p = budget a"
          using budget_update [OF True len(2), of "\<lambda>p. p\<lparr>conncheck := conncheck p + 1\<rparr>"]
            budget_update [of k ?a1 "\<lambda>p. p\<lparr>pair_state := ICE_CANDIDATE_STATE_FAILED\<rparr>"] True len(2) kl busy(1)
          by (simp add: pair_budget_def)
        show ?thesis
        proof (cases "Suc k < ?n")
          case more: True
          then have fr: "st ?a2 (Suc k) = ICE_CANDIDATE_STATE_FROZEN" using at k kl by (auto simp: checks_at_def)
          from select_frozen [OF at _ fr] more obtain a' where "select_from [Suc k..<?n] ?a2 = Some (0, a')" "checks_at (Suc k) a'"
            "Suc (budget a') = budget ?a2" "nominated_pair a' = Some (Suc k)" "st a' (Suc k) = ICE_CANDIDATE_STATE_INPROGRESS"
            "candidate_pairs_num a' = ?n" by auto
          then show ?thesis using sel b2 more unfolding checks_inv_def
            by (intro exI [of _ 0] exI [of _ a']) (auto intro!: exI [of _ "Suc k"])
        next
          case False
          then have n: "?n = Suc k" using True by simp
          have e: "agent_select_candidate_pair a = Some (-1, ?a2)" using sel n by simp
          have f: "\<forall>i < ?n. st ?a2 i = ICE_CANDIDATE_STATE_FAILED"
            using at unfolding n checks_at_def by blast
          have c: "checks_inv ?a2" using at unfolding checks_inv_def by blast
          have m: "candidate_pairs_num ?a2 = ?n" by simp
          show ?thesis
            by (rule exI [of _ "-1"], rule exI [of _ ?a2], intro conjI disjI1) (rule e, rule c, rule m, rule refl, rule f)
        qed
      qed
    qed
  qed
qed

section \<open>A connectivity check\<close>

text \<open>What a datagram can change: the transaction id, the time of the last request, and the state of
  the nominated pair, which succeeds.\<close>

definition answered :: "Agent \<Rightarrow> Agent \<Rightarrow> bool" where
  "answered a a' \<longleftrightarrow> candidate_pairs_num a' = candidate_pairs_num a \<and> nominated_pair a' = nominated_pair a \<and>
     (candidate_pairs a' = candidate_pairs a \<or>
      (\<exists>i < length (candidate_pairs a). nominated_pair a = Some i \<and>
        candidate_pairs a' = (candidate_pairs a)[i := (candidate_pairs a ! i)\<lparr>pair_state := ICE_CANDIDATE_STATE_SUCCEEDED\<rparr>]))"

lemma answered_refl [simp]: "answered a a"
  by (simp add: answered_def)

lemma nominated_Some: "nominated a = Some (i, p) \<longleftrightarrow>
    nominated_pair a = Some i \<and> i < length (candidate_pairs a) \<and> p = candidate_pairs a ! i"
  by (auto simp: nominated_def mem_get_def split: bind_splits if_splits)

lemma stun_request_answered:
  "agent_process_stun_request hmac md5 os a m peer w = Some (a', w') \<Longrightarrow> answered a a'"
  by (auto simp: agent_process_stun_request_def answered_def Let_def split: if_splits prod.splits bind_splits)

lemma stun_response_answered:
  "agent_process_stun_response hmac os a m w = Some (a', w') \<Longrightarrow> answered a a'"
  by (auto simp: agent_process_stun_response_def answered_def Let_def nominated_Some set_pair_def
      split: if_splits prod.splits bind_splits)

lemma datagram_answered:
  "agent_handle_datagram hmac md5 os a d peer w = Some (a', w') \<Longrightarrow> answered a a'"
  by (auto simp: agent_handle_datagram_def dest: stun_request_answered stun_response_answered
      split: if_splits bind_splits)

lemma recv_answered:
  "agent_recv hmac md5 os a buf len w = Some (r, b, a', w') \<Longrightarrow> answered a a'"
  by (auto simp: agent_recv_def dest: datagram_answered split: if_splits prod.splits bind_splits)

lemma checks_nominated:
  assumes "checks_at k a" and "nominated_pair a = Some i" and "st a i = ICE_CANDIDATE_STATE_INPROGRESS" and "i < candidate_pairs_num a"
  shows "i = k"
  using assms by (cases i k rule: linorder_cases) (auto simp: checks_at_def)

text \<open>A check either leaves all pairs as they are and goes on, or the nominated pair succeeds.\<close>

lemma check_call:
  assumes "checks_inv a" and "nominated_pair a = Some i" and "i < candidate_pairs_num a"
    and "agent_connectivity_check hmac md5 os a w = Some (r, a', w')"
  shows "checks_inv a' \<and> candidate_pairs_num a' = candidate_pairs_num a \<and> nominated_pair a' = Some i \<and>
    (r = 0 \<and> st a' i = ICE_CANDIDATE_STATE_SUCCEEDED \<and> selected_pair a' = Some i \<or>
     r = -1 \<and> budget a' = budget a \<and> candidate_pairs a' = candidate_pairs a)"
proof -
  obtain k where k: "checks_at k a" using assms(1) unfolding checks_inv_def by blast
  have il: "i < length (candidate_pairs a)" using k assms(3) by (simp add: checks_at_def)
  show ?thesis
  proof (cases "st a i = ICE_CANDIDATE_STATE_INPROGRESS")
    case False
    then show ?thesis using assms il by (simp add: agent_connectivity_check_def nominated_def mem_get_def)
  next
    case True
    have ik: "i = k" by (rule checks_nominated [OF k assms(2) True assms(3)])
    from assms(2,4) True il obtain w1 b a1 w2 r1 where
      rv: "agent_recv hmac md5 os a (replicate 1400 0) 1400 w1 = Some (r1, b, a1, w2)"
      and e: "do { (i, p) \<leftarrow> nominated a1;
          (if pair_state p = ICE_CANDIDATE_STATE_SUCCEEDED then Some (0, a1\<lparr>selected_pair := nominated_pair a1\<rparr>, w2)
           else Some (-1, a1, w2)) } = Some (r, a', w')"
      unfolding agent_connectivity_check_def by (auto simp: nominated_Some Option.bind_eq_Some_conv)
    have n1: "nominated_pair a1 = Some i" using recv_answered [OF rv] assms(2) by (simp add: answered_def)
    from e n1 have res: "if st a1 i = ICE_CANDIDATE_STATE_SUCCEEDED then r = 0 \<and> a' = a1\<lparr>selected_pair := Some i\<rparr>
                else r = -1 \<and> a' = a1"
      by (auto simp: nominated_Some split: bind_splits if_splits)
    from recv_answered [OF rv] True il have "candidate_pairs_num a1 = candidate_pairs_num a"
      and cp: "candidate_pairs a1 = candidate_pairs a \<or>
        candidate_pairs a1 = (candidate_pairs a)[i := (candidate_pairs a ! i)\<lparr>pair_state := ICE_CANDIDATE_STATE_SUCCEEDED\<rparr>]"
      using assms(2) by (auto simp: answered_def)
    then have m: "candidate_pairs_num a' = candidate_pairs_num a" "nominated_pair a' = Some i" "candidate_pairs a' = candidate_pairs a1"
      using res n1 by (auto split: if_splits)
    from cp have "checks_at k a'"
    proof
      assume "candidate_pairs a1 = candidate_pairs a"
      then show ?thesis using k m assms(2) unfolding checks_at_def by simp
    next
      assume "candidate_pairs a1 = (candidate_pairs a)[i := (candidate_pairs a ! i)\<lparr>pair_state := ICE_CANDIDATE_STATE_SUCCEEDED\<rparr>]"
      then show ?thesis using k m assms(2) ik il unfolding checks_at_def by (auto simp: nth_list_update)
    qed
    then show ?thesis using m res cp n1 True il unfolding checks_inv_def budget_def
      by (auto split: if_splits)
  qed
qed

section \<open>Pairs of candidates\<close>

definition same_family :: "Agent \<Rightarrow> nat \<times> nat \<Rightarrow> bool" where
  "same_family a ij \<longleftrightarrow> family (addr (local_candidates a ! fst ij)) = family (addr (remote_candidates a ! snd ij))"

definition pair_ends :: "IceCandidatePair \<Rightarrow> nat \<times> nat" where
  "pair_ends p = (pair_local p, pair_remote p)"

definition pairs_of :: "Agent \<Rightarrow> IceCandidatePair list" where
  "pairs_of a = take (candidate_pairs_num a) (candidate_pairs a)"

definition fresh_pair :: "Agent \<Rightarrow> IceCandidatePair \<Rightarrow> bool" where
  "fresh_pair a p \<longleftrightarrow> pair_state p = ICE_CANDIDATE_STATE_FROZEN \<and>
     pair_priority p = ucast (priority (local_candidates a ! pair_local p) + priority (remote_candidates a ! pair_remote p))"

lemma add_pair_result:
  assumes "i < length (local_candidates a)" and "j < length (remote_candidates a)"
    and "candidate_pairs_num a < length (candidate_pairs a)"
  shows "\<exists>a'. add_pair i j a = Some a' \<and> local_candidates a' = local_candidates a \<and> remote_candidates a' = remote_candidates a \<and>
    length (candidate_pairs a') = length (candidate_pairs a) \<and> candidate_pairs_num a' \<le> Suc (candidate_pairs_num a) \<and>
    map pair_ends (pairs_of a') = map pair_ends (pairs_of a) @ filter (same_family a) [(i, j)] \<and>
    ((\<forall>p \<in> set (pairs_of a). fresh_pair a p) \<longrightarrow> (\<forall>p \<in> set (pairs_of a'). fresh_pair a' p))"
  using assms
  by (auto simp: add_pair_def mem_get_def Let_def pairs_of_def same_family_def take_Suc_conv_app_nth pair_ends_def fresh_pair_def)

lemma add_pairs_result:
  assumes "\<forall>(i, j) \<in> set ijs. i < length (local_candidates a) \<and> j < length (remote_candidates a)"
    and "candidate_pairs_num a + length ijs \<le> length (candidate_pairs a)"
    and "\<forall>p \<in> set (pairs_of a). fresh_pair a p"
  shows "\<exists>a'. add_pairs ijs a = Some a' \<and> local_candidates a' = local_candidates a \<and> remote_candidates a' = remote_candidates a \<and>
    length (candidate_pairs a') = length (candidate_pairs a) \<and> candidate_pairs_num a' \<le> candidate_pairs_num a + length ijs \<and>
    map pair_ends (pairs_of a') = map pair_ends (pairs_of a) @ filter (same_family a) ijs \<and>
    (\<forall>p \<in> set (pairs_of a'). fresh_pair a' p)"
  using assms
proof (induction ijs arbitrary: a)
  case Nil
  then show ?case by simp
next
  case (Cons ij ijs)
  obtain i j where ij: "ij = (i, j)" by (cases ij)
  from add_pair_result [of i a j] Cons.prems ij obtain a1 where a1: "add_pair i j a = Some a1"
    "local_candidates a1 = local_candidates a" "remote_candidates a1 = remote_candidates a"
    "length (candidate_pairs a1) = length (candidate_pairs a)" "candidate_pairs_num a1 \<le> Suc (candidate_pairs_num a)"
    "map pair_ends (pairs_of a1) = map pair_ends (pairs_of a) @ filter (same_family a) [(i, j)]"
    "\<forall>p \<in> set (pairs_of a1). fresh_pair a1 p" by auto
  have sf: "same_family a1 = same_family a" using a1(2,3) by (simp add: same_family_def fun_eq_iff)
  have "\<forall>(i, j) \<in> set ijs. i < length (local_candidates a1) \<and> j < length (remote_candidates a1)"
    using Cons.prems(1) a1(2,3) by auto
  moreover have "candidate_pairs_num a1 + length ijs \<le> length (candidate_pairs a1)" using Cons.prems(2) a1(4,5) by simp
  ultimately obtain a2 where "add_pairs ijs a1 = Some a2" "local_candidates a2 = local_candidates a1"
    "remote_candidates a2 = remote_candidates a1" "length (candidate_pairs a2) = length (candidate_pairs a1)"
    "candidate_pairs_num a2 \<le> candidate_pairs_num a1 + length ijs"
    "map pair_ends (pairs_of a2) = map pair_ends (pairs_of a1) @ filter (same_family a1) ijs"
    "\<forall>p \<in> set (pairs_of a2). fresh_pair a2 p" using Cons.IH [of a1] a1(7) by blast
  then show ?case using a1 ij sf by auto
qed

lemma update_candidate_pairs:
  assumes "wf_agent a" and "candidate_pairs_num a = 0"
    and "local_candidates_count a \<le> AGENT_MAX_CANDIDATES" and "remote_candidates_count a \<le> AGENT_MAX_CANDIDATES"
  shows "\<exists>a'. agent_update_candidate_pairs a = Some a' \<and>
    map pair_ends (pairs_of a') =
      filter (same_family a) (List.product [0..<local_candidates_count a] [0..<remote_candidates_count a]) \<and>
    (\<forall>p \<in> set (pairs_of a'). fresh_pair a' p) \<and> candidate_pairs_num a' \<le> AGENT_MAX_CANDIDATE_PAIRS \<and>
    length (candidate_pairs a') = AGENT_MAX_CANDIDATE_PAIRS"
proof -
  let ?l = "List.product [0..<local_candidates_count a] [0..<remote_candidates_count a]"
  have "local_candidates_count a * remote_candidates_count a \<le> 10 * 10"
    using assms(3,4) by (intro mult_le_mono) (simp_all add: AGENT_MAX_CANDIDATES_def)
  then have n: "length ?l \<le> AGENT_MAX_CANDIDATE_PAIRS" by (simp add: AGENT_MAX_CANDIDATE_PAIRS_def)
  have "\<forall>(i, j) \<in> set ?l. i < length (local_candidates a) \<and> j < length (remote_candidates a)"
    using assms(1,3,4) by (auto simp: wf_agent_def)
  moreover have "candidate_pairs_num a + length ?l \<le> length (candidate_pairs a)"
    using n assms(1,2) by (simp add: wf_agent_def)
  moreover have "pairs_of a = []" using assms(2) by (simp add: pairs_of_def)
  ultimately show ?thesis
    unfolding agent_update_candidate_pairs_def
    using add_pairs_result [of ?l a] n assms(1,2) by (fastforce simp: wf_agent_def)
qed

lemma update_checks_at:
  assumes "wf_agent a" and "candidate_pairs_num a = 0"
    and "local_candidates_count a \<le> AGENT_MAX_CANDIDATES" and "remote_candidates_count a \<le> AGENT_MAX_CANDIDATES"
    and "agent_update_candidate_pairs a = Some a'"
  shows "checks_at 0 a' \<and> (\<forall>i < candidate_pairs_num a'. st a' i = ICE_CANDIDATE_STATE_FROZEN)"
proof -
  from update_candidate_pairs [OF assms(1-4)] assms(5) have
    f: "\<forall>p \<in> set (pairs_of a'). fresh_pair a' p" and n: "candidate_pairs_num a' \<le> length (candidate_pairs a')" by auto
  have fr: "st a' i = ICE_CANDIDATE_STATE_FROZEN" if "i < candidate_pairs_num a'" for i
  proof -
    have "candidate_pairs a' ! i \<in> set (pairs_of a')"
      using that n by (auto simp: pairs_of_def in_set_conv_nth intro!: exI [of _ i])
    then show ?thesis using f by (auto simp: fresh_pair_def)
  qed
  then have "checks_at 0 a'" using n by (simp add: checks_at_def)
  then show ?thesis using fr by blast
qed

lemma update_checks_inv:
  assumes "wf_agent a" and "candidate_pairs_num a = 0"
    and "local_candidates_count a \<le> AGENT_MAX_CANDIDATES" and "remote_candidates_count a \<le> AGENT_MAX_CANDIDATES"
    and "agent_update_candidate_pairs a = Some a'"
  shows "checks_inv a' \<and> unanswered a'"
  using update_checks_at [OF assms] unfolding checks_inv_def unanswered_def by auto

section \<open>Runs of the checks\<close>

text \<open>While the peer connection is checking it alternates between choosing a pair and a check of the
  nominated one. The relation lets the calls come in any order, with any state of the world; a check
  needs a nominated pair among those of the table.\<close>

inductive check_step ::
  "(bytes \<Rightarrow> bytes \<Rightarrow> bytes) \<Rightarrow> (bytes \<Rightarrow> bytes) \<Rightarrow> 'w Os \<Rightarrow> Agent \<Rightarrow> Agent \<Rightarrow> bool"
  for hmac :: "bytes \<Rightarrow> bytes \<Rightarrow> bytes" and md5 :: "bytes \<Rightarrow> bytes" and os :: "'w Os" where
  select_step: "agent_select_candidate_pair a = Some (r, a') \<Longrightarrow> check_step hmac md5 os a a'"
| connectivity_step: "\<lbrakk>nominated_pair a = Some i; i < candidate_pairs_num a;
    agent_connectivity_check hmac md5 os a w = Some (r, a', w')\<rbrakk> \<Longrightarrow> check_step hmac md5 os a a'"

inductive_cases check_stepE: "check_step hmac md5 os a a'"

abbreviation check_run :: "(bytes \<Rightarrow> bytes \<Rightarrow> bytes) \<Rightarrow> (bytes \<Rightarrow> bytes) \<Rightarrow> 'w Os \<Rightarrow> Agent \<Rightarrow> Agent \<Rightarrow> bool" where
  "check_run hmac md5 os \<equiv> (check_step hmac md5 os)\<^sup>*\<^sup>*"

lemma check_step_inv:
  assumes "check_step hmac md5 os a a'" and "checks_inv a"
  shows "checks_inv a'"
  using assms(1)
proof (rule check_stepE)
  fix r
  assume "agent_select_candidate_pair a = Some (r, a')"
  then show ?thesis using select_call [OF assms(2)] by auto
next
  fix i w r w'
  assume "nominated_pair a = Some i" and "i < candidate_pairs_num a"
    and "agent_connectivity_check hmac md5 os a w = Some (r, a', w')"
  then show ?thesis by (rule check_call [OF assms(2), THEN conjunct1])
qed

lemma check_run_inv: "check_run hmac md5 os a a' \<Longrightarrow> checks_inv a \<Longrightarrow> checks_inv a'"
  by (induction rule: rtranclp_induct) (auto intro: check_step_inv)

text \<open>One poll of the checking state: the code leaves it when no pair is left or the check succeeds.\<close>

datatype 'a check_outcome = Checking 'a | Checks_Failed | Checks_Connected 'a

definition checking_poll ::
  "(bytes \<Rightarrow> bytes \<Rightarrow> bytes) \<Rightarrow> (bytes \<Rightarrow> bytes) \<Rightarrow> 'w Os \<Rightarrow> Agent \<Rightarrow> 'w \<Rightarrow> (Agent \<times> 'w) check_outcome option" where
  "checking_poll hmac md5 os a w = do {
     (r, a) \<leftarrow> agent_select_candidate_pair a;
     (if r < 0 then Some Checks_Failed
      else do {
        (r, a, w) \<leftarrow> agent_connectivity_check hmac md5 os a w;
        Some (if r = 0 then Checks_Connected (a, w) else Checking (a, w))
      })
   }"

fun checking_polls ::
  "(bytes \<Rightarrow> bytes \<Rightarrow> bytes) \<Rightarrow> (bytes \<Rightarrow> bytes) \<Rightarrow> 'w Os \<Rightarrow> nat \<Rightarrow> Agent \<Rightarrow> 'w \<Rightarrow> (Agent \<times> 'w) check_outcome option" where
  "checking_polls hmac md5 os 0 a w = Some (Checking (a, w))"
| "checking_polls hmac md5 os (Suc n) a w =
     (case checking_poll hmac md5 os a w of
        Some (Checking (a, w)) \<Rightarrow> checking_polls hmac md5 os n a w
      | r \<Rightarrow> r)"

text \<open>A poll that goes on has used up budget.\<close>

lemma checking_poll_budget:
  assumes "checks_inv a" and "unanswered a" and "checking_poll hmac md5 os a w = Some (Checking (a', w'))"
  shows "checks_inv a' \<and> unanswered a' \<and> budget a' < budget a"
proof -
  from select_call [OF assms(1)] assms(2,3) obtain a1 k where
    a1: "checks_inv a1" "candidate_pairs_num a1 = candidate_pairs_num a" "k < candidate_pairs_num a"
      "nominated_pair a1 = Some k" "st a1 k = ICE_CANDIDATE_STATE_INPROGRESS" "budget a1 < budget a"
    and c: "agent_connectivity_check hmac md5 os a1 w = Some (-1, a', w') \<or>
      (\<exists>r. r \<noteq> 0 \<and> agent_connectivity_check hmac md5 os a1 w = Some (r, a', w'))"
    by (auto simp: checking_poll_def unanswered_def split: if_splits bind_splits)
  then obtain r where r: "r \<noteq> 0" "agent_connectivity_check hmac md5 os a1 w = Some (r, a', w')" by auto
  from check_call [OF a1(1,4) _ r(2)] a1(2,3) r(1)
  have a': "checks_inv a'" "budget a' = budget a1" "candidate_pairs a' = candidate_pairs a1"
    "candidate_pairs_num a' = candidate_pairs_num a1" by auto
  obtain j where j: "checks_at j a1" using a1(1) unfolding checks_inv_def by blast
  have "k = j" by (intro checks_nominated [OF j a1(4,5)]) (use a1 in simp)
  have "st a1 i \<noteq> ICE_CANDIDATE_STATE_SUCCEEDED" if "i < candidate_pairs_num a1" for i
    using j a1(5) that \<open>k = j\<close> by (cases i k rule: linorder_cases) (auto simp: checks_at_def)
  then show ?thesis using a' a1 by (simp add: unanswered_def)
qed

lemma checking_polls_end:
  "checks_inv a \<Longrightarrow> unanswered a \<Longrightarrow> budget a < n \<Longrightarrow> checking_polls hmac md5 os n a w \<noteq> Some (Checking x)"
proof (induction n arbitrary: a w)
  case (Suc n)
  show ?case
  proof (cases "checking_poll hmac md5 os a w")
    case (Some r)
    then show ?thesis
    proof (cases r)
      case (Checking y)
      obtain a' w' where y: "y = (a', w')" by (cases y)
      have "checking_poll hmac md5 os a w = Some (Checking (a', w'))" using Some Checking y by simp
      from checking_poll_budget [OF Suc.prems(1,2) this]
      have "checks_inv a'" "unanswered a'" "budget a' < budget a" by auto
      then show ?thesis using Suc.IH [of a' w'] Suc.prems(3) Some Checking y by simp
    qed (use Some in auto)
  qed simp
qed simp

section \<open>An example\<close>

text \<open>An agent with two local candidates and three remote ones, one of which is an IPv6 address.\<close>

definition example_agent :: Agent where
  "example_agent = \<lparr>remote_ufrag = replicate 257 0, remote_upwd = replicate 257 0, local_ufrag = replicate 257 0,
     local_upwd = replicate 257 0,
     local_candidates = replicate 10 (candidate0\<lparr>addr := addr_zero\<lparr>family := AF_INET\<rparr>\<rparr>),
     remote_candidates = (replicate 10 (candidate0\<lparr>addr := addr_zero\<lparr>family := AF_INET\<rparr>\<rparr>))[1 := candidate0\<lparr>addr := addr_zero\<lparr>family := AF_INET6\<rparr>\<rparr>],
     local_candidates_count = 2, remote_candidates_count = 3, udp_sockets = replicate 2 \<lparr>fd = 3, bind_addr = addr_zero\<rparr>,
     binding_request_time = 0, agent_mode = AGENT_MODE_CONTROLLING,
     candidate_pairs = replicate 100 \<lparr>pair_state = ICE_CANDIDATE_STATE_FROZEN, pair_local = 0, pair_remote = 0,
       conncheck = 0, pair_priority = 0\<rparr>,
     selected_pair = None, nominated_pair = None, candidate_pairs_num = 0, agent_transaction_id = replicate 12 0\<rparr>"

lemma example_agent_wf: "wf_agent example_agent"
  by (simp add: wf_agent_def example_agent_def ICE_UFRAG_LENGTH_def ICE_UPWD_LENGTH_def AGENT_MAX_CANDIDATES_def
      AGENT_MAX_CANDIDATE_PAIRS_def)

lemma example_agent_counts:
  "candidate_pairs_num example_agent = 0" "local_candidates_count example_agent = 2" "remote_candidates_count example_agent = 3"
  by (simp_all add: example_agent_def)

lemma example_counts_ok:
  "local_candidates_count example_agent \<le> AGENT_MAX_CANDIDATES" "remote_candidates_count example_agent \<le> AGENT_MAX_CANDIDATES"
  by (simp_all add: example_agent_counts AGENT_MAX_CANDIDATES_def)

text \<open>A system on which everything succeeds and nothing ever arrives.\<close>

definition silent_os :: "unit Os" where
  "silent_os = \<lparr>os_socket = (\<lambda>f t w. (3, w)), os_setsockopt = (\<lambda>f o' b w. (0, w)), os_bind = (\<lambda>f s w. (0, w)),
     os_getsockname = (\<lambda>f w. (None, w)), os_connect = (\<lambda>f s w. (0, w)), os_close = (\<lambda>f w. w),
     os_sendto = (\<lambda>f s b w. (int (length b), w)), os_recvfrom = (\<lambda>f n w. (None, w)), os_send = (\<lambda>f b w. (int (length b), w)),
     os_recv = (\<lambda>f n w. (None, w)), os_select = (\<lambda>fs t w. (0, [], w)), os_gettimeofday = (\<lambda>w. (0, 0, w)),
     os_getaddrinfo = (\<lambda>n w. (None, w)), os_getifaddrs = (\<lambda>w. (None, w)), os_time = (\<lambda>w. (0, w)), os_rand = (\<lambda>w. (0, w))\<rparr>"

definition example_pairs :: Agent where
  "example_pairs = the (agent_update_candidate_pairs example_agent)"

lemma example_pairs: "agent_update_candidate_pairs example_agent = Some example_pairs"
  unfolding example_pairs_def
  using update_candidate_pairs [OF example_agent_wf example_agent_counts(1) example_counts_ok] by auto

lemma example_ends: "filter (same_family example_agent) (List.product [0..<2] [0..<3]) = [(0, 0), (0, 2), (1, 0), (1, 2)]"
  by code_simp

lemma example_pairs_num: "candidate_pairs_num example_pairs = 4"
proof -
  from update_candidate_pairs [OF example_agent_wf example_agent_counts(1) example_counts_ok] example_pairs
  have m: "map pair_ends (pairs_of example_pairs) = [(0, 0), (0, 2), (1, 0), (1, 2)]"
    and l: "candidate_pairs_num example_pairs \<le> length (candidate_pairs example_pairs)"
    by (simp_all add: example_agent_counts example_ends)
  have "length (pairs_of example_pairs) = 4" using arg_cong [OF m, of length] by simp
  then show ?thesis using l by (simp add: pairs_of_def)
qed

section \<open>Properties\<close>

text \<open>\<open>agent_update_candidate_pairs\<close> pairs every local candidate with every remote candidate of
  the same address family, in the order of the two tables, each pair frozen and with the sum of the
  two priorities, and never more pairs than the table holds.\<close>

theorem update_pairs_all:
  assumes "wf_agent a" and "candidate_pairs_num a = 0"
    and "local_candidates_count a \<le> AGENT_MAX_CANDIDATES" and "remote_candidates_count a \<le> AGENT_MAX_CANDIDATES"
  shows "\<exists>a'. agent_update_candidate_pairs a = Some a' \<and>
    map pair_ends (pairs_of a') =
      filter (same_family a) (List.product [0..<local_candidates_count a] [0..<remote_candidates_count a]) \<and>
    (\<forall>p \<in> set (pairs_of a'). fresh_pair a' p) \<and> candidate_pairs_num a' \<le> AGENT_MAX_CANDIDATE_PAIRS"
  using update_candidate_pairs [OF assms] by blast


theorem update_pairs_all_witness:
  "\<exists>a'. agent_update_candidate_pairs example_agent = Some a' \<and>
    map pair_ends (pairs_of a') = [(0, 0), (0, 2), (1, 0), (1, 2)] \<and>
    (\<forall>p \<in> set (pairs_of a'). fresh_pair a' p) \<and> candidate_pairs_num a' \<le> AGENT_MAX_CANDIDATE_PAIRS"
  using update_pairs_all [OF example_agent_wf example_agent_counts(1) example_counts_ok]
  by (simp add: example_agent_counts example_ends)

text \<open>C14: Pairs are checked one at a time and in order: in every state reachable from a fresh table of
  pairs by calls of \<open>agent_select_candidate_pair\<close> and \<open>agent_connectivity_check\<close>, in any order and with
  any traffic, there is a position such that all pairs before it have failed, all pairs behind it
  are still frozen, and the pair there, once it has left the frozen state, is the nominated one and
  is in progress or has succeeded.\<close>

theorem checks_one_at_a_time:
  assumes "wf_agent a" and "candidate_pairs_num a = 0"
    and "local_candidates_count a \<le> AGENT_MAX_CANDIDATES" and "remote_candidates_count a \<le> AGENT_MAX_CANDIDATES"
    and "agent_update_candidate_pairs a = Some a0" and "check_run hmac md5 os a0 a'"
  shows "\<exists>k \<le> candidate_pairs_num a'.
    (\<forall>i < k. st a' i = ICE_CANDIDATE_STATE_FAILED) \<and>
    (\<forall>i. k < i \<and> i < candidate_pairs_num a' \<longrightarrow> st a' i = ICE_CANDIDATE_STATE_FROZEN) \<and>
    (k < candidate_pairs_num a' \<longrightarrow> st a' k = ICE_CANDIDATE_STATE_FROZEN \<or>
       nominated_pair a' = Some k \<and> st a' k \<in> {ICE_CANDIDATE_STATE_INPROGRESS, ICE_CANDIDATE_STATE_SUCCEEDED})"
proof -
  have "checks_inv a'" using check_run_inv [OF assms(6)] update_checks_inv [OF assms(1-5)] by blast
  then show ?thesis unfolding checks_inv_def checks_at_def by blast
qed

theorem checks_one_at_a_time_witness:
  "\<exists>a. agent_select_candidate_pair example_pairs = Some (0, a) \<and>
    (\<exists>k \<le> candidate_pairs_num a.
      (\<forall>i < k. st a i = ICE_CANDIDATE_STATE_FAILED) \<and>
      (\<forall>i. k < i \<and> i < candidate_pairs_num a \<longrightarrow> st a i = ICE_CANDIDATE_STATE_FROZEN) \<and>
      (k < candidate_pairs_num a \<longrightarrow> st a k = ICE_CANDIDATE_STATE_FROZEN \<or>
         nominated_pair a = Some k \<and> st a k \<in> {ICE_CANDIDATE_STATE_INPROGRESS, ICE_CANDIDATE_STATE_SUCCEEDED}))"
proof -
  have "checks_at 0 example_pairs" "0 < candidate_pairs_num example_pairs" "st example_pairs 0 = ICE_CANDIDATE_STATE_FROZEN"
    using update_checks_at [OF example_agent_wf example_agent_counts(1) example_counts_ok example_pairs] example_pairs_num
    by auto
  then obtain a where a: "agent_select_candidate_pair example_pairs = Some (0, a)"
    using select_frozen [of 0 example_pairs] unfolding agent_select_candidate_pair_def by auto
  then have "check_run (\<lambda>d k. []) id silent_os example_pairs a" by (auto intro: select_step)
  from checks_one_at_a_time [OF example_agent_wf example_agent_counts(1) example_counts_ok example_pairs this]
  show ?thesis using a by blast
qed

text \<open>C25: The checking state ends: from a fresh table of pairs, polling as the peer connection does
  (choose a pair, check the nominated one) never goes on for more than \<open>1000\<close> polls for each pair,
  whatever arrives. By then all pairs have failed or one is connected.\<close>

theorem checks_end:
  assumes "wf_agent a" and "candidate_pairs_num a = 0"
    and "local_candidates_count a \<le> AGENT_MAX_CANDIDATES" and "remote_candidates_count a \<le> AGENT_MAX_CANDIDATES"
    and "agent_update_candidate_pairs a = Some a0"
    and "AGENT_CONNCHECK_MAX * candidate_pairs_num a0 < n"
  shows "checking_polls hmac md5 os n a0 w \<noteq> Some (Checking x)"
proof (rule checking_polls_end)
  show "checks_inv a0" "unanswered a0" using update_checks_inv [OF assms(1-5)] by blast+
  show "budget a0 < n" using budget_le [of a0] assms(6) by linarith
qed

theorem checks_end_witness:
  "checking_polls (\<lambda>d k. replicate 20 0) id silent_os 4001 example_pairs () \<noteq> Some (Checking (example_pairs, ()))"
  by (rule checks_end [OF example_agent_wf example_agent_counts(1) example_counts_ok example_pairs])
    (simp add: example_pairs_num AGENT_CONNCHECK_MAX_def)

end
