(* ===== verification/Agent_Handshake.thy ===== *)
theory Agent_Handshake
  imports Agent_Checks
begin

text \<open>
  The exchange that makes a pair succeed (theory \<^theory_text>\<open>Agent\<close>): the binding request of one agent, its
  acceptance by the other one, the response, and what the first agent makes of it. The credentials
  link the two: a request is signed with the password of the receiver, and so is the response.
\<close>

section \<open>Credentials in messages\<close>

lemma c_text_no_nul: "c_text x = Some a \<Longrightarrow> no_nul a"
proof -
  assume "c_text x = Some a"
  then have "a = take (length (takeWhile (\<lambda>b. b \<noteq> 0) x)) x" by (auto simp: c_text_def c_strlen_def Let_def split: if_splits)
  then have "a = takeWhile (\<lambda>b. b \<noteq> 0) x" by (simp add: takeWhile_eq_take [symmetric])
  then show ?thesis by (auto simp: no_nul_def dest: set_takeWhileD)
qed

lemma username_text:
  assumes "c_text x = Some a" and "c_text y = Some b" and "length a + length b \<le> 127"
  shows "\<exists>u. username_array x y = Some u \<and> c_strlen u = Some (length a + length b + 1) \<and> length u = 584"
proof -
  let ?t = "a @ str '':'' @ b"
  have len: "length ?t = length a + length b + 1" by (simp add: str_def)
  have s: "snprintf_text 584 ?t = ?t" using assms(3) len by (simp add: snprintf_text_def)
  have n: "no_nul ?t" using c_text_no_nul [OF assms(1)] c_text_no_nul [OF assms(2)] by (auto simp: str_def no_nul_def)
  obtain k where k: "584 - length ?t = Suc k" using assms(3) len by (cases "584 - length ?t") auto
  have "username_array x y = Some (?t @ 0 # replicate k 0)" unfolding username_array_def assms(1,2) Option.bind_lunit Let_def s k by simp
  then show ?thesis using c_strlen_terminated [OF n] len k by simp
qed

lemma username_attr_ok:
  assumes "n \<le> 128" and "length u = 584"
  shows "attr_ok (STUN_ATTR_TYPE_USERNAME, of_nat n, Some u)"
proof -
  have "(n + 3) div 4 \<le> 131 div 4" using assms(1) by (intro div_le_mono) simp
  then have "pad4 n \<le> 128" by (simp add: pad4_def)
  then show ?thesis using assms by (simp add: kept_field_def stun_types unat_of_nat)
qed

section \<open>The request\<close>

text \<open>What both sides need: credentials that are NUL-terminated and not too long for the message.\<close>

definition credentials :: "Agent \<Rightarrow> bytes \<Rightarrow> bytes \<Rightarrow> bool" where
  "credentials a lp rp \<longleftrightarrow> (\<exists>lu ru. c_text (local_ufrag a) = Some lu \<and> c_text (remote_ufrag a) = Some ru \<and>
     length lu + length ru \<le> 127) \<and> c_text (local_upwd a) = Some lp \<and> c_text (remote_upwd a) = Some rp"

text \<open>A message that a receiver with the password accepts, of type \<open>t\<close>.\<close>

definition acceptable :: "(bytes \<Rightarrow> bytes \<Rightarrow> bytes) \<Rightarrow> StunMessage \<Rightarrow> u16 \<Rightarrow> bytes \<Rightarrow> bool" where
  "acceptable hmac m t pw \<longleftrightarrow> 20 \<le> msg_size m \<and> msg_size m \<le> length (sbuf m) \<and> take 2 (sbuf m) = be16 t \<and>
     stun_msg_is_valid hmac stun0 (take (msg_size m) (sbuf m)) (msg_size m) pw = Some 0"

lemma request_acceptable:
  assumes "credentials a lp rp" and "nominated a = Some (i, p)" and "\<forall>d. length (hmac d rp) = 20"
  shows "\<exists>m w'. agent_create_binding_request hmac md5 os a stun0 w = Some (m, w') \<and>
    acceptable hmac m (STUN_CLASS_REQUEST OR STUN_METHOD_BINDING) rp"
proof -
  obtain lu ru where c: "c_text (local_ufrag a) = Some lu" "c_text (remote_ufrag a) = Some ru" "length ru + length lu \<le> 127"
    "c_text (remote_upwd a) = Some rp" using assms(1) by (auto simp: credentials_def add.commute)
  obtain u where u: "username_array (remote_ufrag a) (local_ufrag a) = Some u" "c_strlen u = Some (length ru + length lu + 1)"
    "length u = 584" using username_text [OF c(2,1,3)] by blast
  obtain r1 w1 r2 w2 where r: "os_rand os w = (r1, w1)" "os_rand os w1 = (r2, w2)" by (metis surj_pair)
  let ?n = "length ru + length lu + 1"
  let ?as = "request_attrs (agent_mode a) u ?n (pair_priority p) (tie_breaker r1 r2)"
  have l8: "length (le64 x) = 8" for x by (simp add: le64_def)
  have ok: "\<forall>b \<in> set ?as. attr_ok b"
    using username_attr_ok [OF _ u(3), of ?n] c(3)
    by (simp add: request_attrs_def l8 del: attr_ok.simps) (simp add: kept_field_def stun_types l8)
  have "pad4 ?n \<le> 128" using c(3) by (simp add: pad4_def)
  moreover have "unat (of_nat ?n :: u16) = ?n" using c(3) by (simp only: unat_of_nat) simp
  then have "attrs_size ?as = pad4 ?n + (if agent_mode a = AGENT_MODE_CONTROLLING then 28 else 24)"
    by (simp add: request_attrs_def) (simp add: pad4_def)
  ultimately have sz: "STUN_HEADER_SIZE + attrs_size ?as + 32 \<le> STUN_ATTR_BUF_SIZE"
    by (simp add: STUN_HEADER_SIZE_def STUN_ATTR_BUF_SIZE_def)
  from finish_valid [where hmac = hmac and ?md5.0 = md5 and password = rp and type = "STUN_CLASS_REQUEST OR STUN_METHOD_BINDING",
      OF wf_stun0 wf_stun0 ok sz assms(3)]
  obtain m1 m2 m3 where m: "stun_msg_create stun0 (STUN_CLASS_REQUEST OR STUN_METHOD_BINDING) = Some m1"
    "stun_write_all ?as m1 = Some m2"
    "stun_msg_finish hmac md5 m2 STUN_CREDENTIAL_SHORT_TERM rp (length rp) = Some m3"
    "msg_size m3 = STUN_HEADER_SIZE + attrs_size ?as + 32" "length (sbuf m3) = STUN_ATTR_BUF_SIZE"
    "take 2 (sbuf m3) = be16 (STUN_CLASS_REQUEST OR STUN_METHOD_BINDING)"
    "stun_msg_is_valid hmac stun0 (take (msg_size m3) (sbuf m3)) (msg_size m3) rp = Some 0" by blast
  have "agent_create_binding_request hmac md5 os a stun0 w = Some (m3, w2)"
    unfolding agent_create_binding_request_def Let_def using m(2) by (simp add: r m(1,3) u c(4) assms(2))
  moreover have "acceptable hmac m3 (STUN_CLASS_REQUEST OR STUN_METHOD_BINDING) rp"
    unfolding acceptable_def using m(4-7) sz by (simp add: STUN_HEADER_SIZE_def)
  ultimately show ?thesis by blast
qed

section \<open>The response\<close>

lemma mapped_value:
  assumes "wf_addr peer" and "length msk = 16"
  shows "\<exists>n v. stun_set_mapped_address (replicate 32 0) msk peer = Some (int n, v) \<and> n \<in> {8, 20} \<and> length v = 32 \<and>
    (v ! 1 = STUN_FAMILY_IPV6 \<longrightarrow> n = 20)"
proof (cases "family peer = AF_INET6")
  case True
  then have "length (sin6_addr peer) = 16" using assms(1) by (simp add: wf_addr_def)
  then show ?thesis
    using mapped_v6 [of "replicate 16 0" msk peer 0 0 0 0 "replicate 12 0"] assms(2) True
    by (intro exI [of _ 20]) (simp add: replicate_add [symmetric] numeral_eq_Suc)
next
  case False
  then have "length (sin_addr peer) = 4" using assms(1) by (simp add: wf_addr_def)
  then show ?thesis
    using mapped_v4 [of "replicate 4 0" msk peer 0 0 0 0 "replicate 24 0"] assms(2) False
    by (intro exI [of _ 8]) (simp add: replicate_add [symmetric] numeral_eq_Suc STUN_FAMILY_IPV4_def STUN_FAMILY_IPV6_def)
qed


definition with_transaction :: "Agent \<Rightarrow> bytes \<Rightarrow> Agent" where
  "with_transaction a t = a\<lparr>agent_transaction_id := t\<rparr>"

lemma response_acceptable:
  assumes "credentials a lp rp" and "length (agent_transaction_id a) = 12" and "wf_addr peer" and "\<forall>d. length (hmac d lp) = 20"
  shows "\<exists>m. agent_create_binding_response hmac md5 a stun0 peer = Some m \<and>
    acceptable hmac m (STUN_CLASS_RESPONSE OR STUN_METHOD_BINDING) lp"
proof -
  obtain lu ru where c: "c_text (local_ufrag a) = Some lu" "c_text (remote_ufrag a) = Some ru" "length lu + length ru \<le> 127"
    "c_text (local_upwd a) = Some lp" using assms(1) by (auto simp: credentials_def)
  obtain u where u: "username_array (local_ufrag a) (remote_ufrag a) = Some u" "c_strlen u = Some (length lu + length ru + 1)"
    "length u = 584" using username_text [OF c(1,2,3)] by blast
  let ?n = "length lu + length ru + 1"
  obtain n v where v: "stun_set_mapped_address (replicate 32 0) (be32 MAGIC_COOKIE @ agent_transaction_id a) peer = Some (int n, v)"
    "n \<in> {8, 20}" "length v = 32" "v ! 1 = STUN_FAMILY_IPV6 \<longrightarrow> n = 20"
    using mapped_value [OF assms(3), of "be32 MAGIC_COOKIE @ agent_transaction_id a"] assms(2) by auto
  let ?t = "STUN_CLASS_RESPONSE OR STUN_METHOD_BINDING"
  let ?as = "[(STUN_ATTR_TYPE_XOR_MAPPED_ADDRESS, of_int (int n), Some v), (STUN_ATTR_TYPE_USERNAME, of_nat ?n, Some u)] :: attr list"
  from created [OF wf_stun0] obtain m0 where m0: "stun_msg_create stun0 ?t = Some m0" "built m0 []" "msg_size m0 = 20"
    "take 2 (sbuf m0) = be16 ?t" by blast
  from set_transaction_id [OF m0(2,3) assms(2)] obtain m1 where m1: "set_sbuf 8 (agent_transaction_id a) m0 = Some m1"
    "built m1 []" "msg_size m1 = 20" "take 2 (sbuf m1) = be16 ?t" using m0(4) by auto
  have "attr_ok (STUN_ATTR_TYPE_XOR_MAPPED_ADDRESS, of_int (int n), Some v)"
    using v(2-4) by (auto simp: kept_field_def stun_types)
  moreover have "?n \<le> 128" using c(3) by simp
  ultimately have ok: "\<forall>b \<in> set ?as. attr_ok b" using username_attr_ok [OF _ u(3), of ?n] by (simp del: attr_ok.simps)
  have "pad4 ?n \<le> 128" using c(3) by (simp add: pad4_def)
  moreover have un: "unat (of_nat ?n :: u16) = ?n" using c(3) by (simp only: unat_of_nat) simp
  moreover have "pad4 (unat (of_int (int n) :: u16)) \<le> 20" using v(2) by (auto simp: pad4_def)
  ultimately have sz: "STUN_HEADER_SIZE + attrs_size ?as + 32 \<le> STUN_ATTR_BUF_SIZE"
    unfolding attrs_size_simps un by (simp add: STUN_HEADER_SIZE_def STUN_ATTR_BUF_SIZE_def)
  from finish_valid_built [where hmac = hmac and ?md5.0 = md5 and password = lp, OF m1(2,3) wf_stun0 ok sz assms(4)]
  obtain m2 m3 where m: "stun_write_all ?as m1 = Some m2"
    "stun_msg_finish hmac md5 m2 STUN_CREDENTIAL_SHORT_TERM lp (length lp) = Some m3"
    "msg_size m3 = STUN_HEADER_SIZE + attrs_size ?as + 32" "length (sbuf m3) = STUN_ATTR_BUF_SIZE"
    "take 2 (sbuf m3) = take 2 (sbuf m1)"
    "stun_msg_is_valid hmac stun0 (take (msg_size m3) (sbuf m3)) (msg_size m3) lp = Some 0" by blast
  have "agent_create_binding_response hmac md5 a stun0 peer = Some m3"
    unfolding agent_create_binding_response_def m0(1) m1(1) u(1) v(1) Option.bind_lunit using m(1,2) u(2) c(4)
    by (auto simp: Option.bind_eq_Some_conv)
  moreover have "acceptable hmac m3 ?t lp"
    unfolding acceptable_def using m(3-6) m1(4) sz by (simp add: STUN_HEADER_SIZE_def)
  ultimately show ?thesis by blast
qed

section \<open>Receiving\<close>

lemma class_method [simp]:
  "stun_class_of (STUN_CLASS_REQUEST OR STUN_METHOD_BINDING) = STUN_CLASS_REQUEST"
  "stun_class_of (STUN_CLASS_RESPONSE OR STUN_METHOD_BINDING) = STUN_CLASS_RESPONSE"
  "stun_method_of (STUN_CLASS_REQUEST OR STUN_METHOD_BINDING) = STUN_METHOD_BINDING"
  "stun_method_of (STUN_CLASS_RESPONSE OR STUN_METHOD_BINDING) = STUN_METHOD_BINDING"
  by (simp_all add: stun_class_of_def stun_method_of_def STUN_CLASS_REQUEST_def STUN_CLASS_RESPONSE_def STUN_CLASS_ERROR_def
      STUN_CLASS_INDICATION_def STUN_METHOD_BINDING_def STUN_METHOD_ALLOCATE_def)

lemma class_distinct [simp]: "STUN_CLASS_RESPONSE \<noteq> STUN_CLASS_REQUEST"
  by (simp add: STUN_CLASS_REQUEST_def STUN_CLASS_RESPONSE_def)

abbreviation datagram :: "StunMessage \<Rightarrow> bytes" where
  "datagram m \<equiv> take (msg_size m) (sbuf m)"

lemma acceptable_received:
  assumes "acceptable hmac m t pw"
  shows "\<exists>r p. set_sbuf 0 (datagram m) stun0 = Some r \<and> stun_parse_msg_buf (r\<lparr>msg_size := length (datagram m)\<rparr>) = Some p \<and>
    stunclass p = stun_class_of t \<and> stunmethod p = stun_method_of t \<and>
    stun_msg_is_valid hmac stun0 (sbuf p) (msg_size p) pw = Some 0 \<and> take 20 (sbuf p) = take 20 (sbuf m)"
proof -
  have l: "length (datagram m) = msg_size m" "take 2 (datagram m) = be16 t" "2 \<le> length (datagram m)"
    using assms by (auto simp: acceptable_def min_def)
  have "stun_msg_is_valid hmac stun0 (datagram m) (length (datagram m)) pw = Some 0" using assms l(1) by (simp add: acceptable_def)
  from received_valid [OF this l(3,2)] show ?thesis using assms by (auto simp: acceptable_def min_def)
qed


text \<open>The receiver of a request answers it; the receiver of a response marks its nominated pair.\<close>

lemma request_received:
  assumes "acceptable hmac m (STUN_CLASS_REQUEST OR STUN_METHOD_BINDING) lp" and "credentials b lp rp" and "wf_agent b"
    and "wf_addr peer" and "\<forall>d. length (hmac d lp) = 20"
  shows "\<exists>t w1 r w2 b' w3. agent_create_binding_response hmac md5 (b\<lparr>agent_transaction_id := t\<rparr>) stun0 peer = Some r \<and>
    acceptable hmac r (STUN_CLASS_RESPONSE OR STUN_METHOD_BINDING) lp \<and> t = take 12 (drop 8 (sbuf m)) \<and>
    agent_socket_send os (b\<lparr>agent_transaction_id := t\<rparr>) peer (sbuf r) (msg_size r) w = Some (w1, w2) \<and>
    agent_handle_datagram hmac md5 os b (datagram m) peer w = Some (b', w3) \<and>
    b' = b\<lparr>agent_transaction_id := t, binding_request_time := ucast (fst (ports_get_epoch_time os w2))\<rparr> \<and>
    w3 = snd (ports_get_epoch_time os w2)"
proof -
  let ?t = "take 12 (drop 8 (sbuf m))"
  let ?b = "b\<lparr>agent_transaction_id := ?t\<rparr>"
  have l: "20 \<le> length (sbuf m)" using assms(1) by (simp add: acceptable_def)
  obtain x p where p: "set_sbuf 0 (datagram m) stun0 = Some x" "stun_parse_msg_buf (x\<lparr>msg_size := length (datagram m)\<rparr>) = Some p"
    "stunclass p = STUN_CLASS_REQUEST" "stunmethod p = STUN_METHOD_BINDING"
    "stun_msg_is_valid hmac stun0 (sbuf p) (msg_size p) lp = Some 0" "take 20 (sbuf p) = take 20 (sbuf m)"
    using acceptable_received [OF assms(1)] by auto
  have tid: "mem_read 8 12 (sbuf p) = Some ?t"
  proof -
    have "take 12 (drop 8 (sbuf p)) = drop 8 (take 20 (sbuf p))" by (simp add: drop_take)
    also have "\<dots> = ?t" unfolding p(6) by (simp add: drop_take)
    finally have "take 12 (drop 8 (sbuf p)) = ?t" .
    moreover have "20 \<le> length (sbuf p)" using arg_cong [OF p(6), of length] l by (simp add: min_def split: if_splits)
    ultimately show ?thesis by (simp add: mem_read_def)
  qed
  have cr: "credentials ?b lp rp" using assms(2) by (simp add: credentials_def)
  have "length ?t = 12" using l by simp
  then obtain r where r: "agent_create_binding_response hmac md5 ?b stun0 peer = Some r"
    "acceptable hmac r (STUN_CLASS_RESPONSE OR STUN_METHOD_BINDING) lp"
    using response_acceptable [where hmac = hmac and ?md5.0 = md5, OF cr _ assms(4,5)] by auto
  have "(if family peer = AF_INET6 then 1 else 0) < length (udp_sockets b)" using assms(3) by (simp add: wf_agent_def)
  moreover have "msg_size r \<le> length (sbuf r)" using r(2) by (simp add: acceptable_def)
  ultimately obtain n w2 where s: "agent_socket_send os ?b peer (sbuf r) (msg_size r) w = Some (n, w2)"
    unfolding agent_socket_send_def mem_get_def using udp_sendto_total by fastforce
  have c: "c_text (local_upwd b) = Some lp" using assms(2) by (simp add: credentials_def)
  obtain now w3 where e: "ports_get_epoch_time os w2 = (now, w3)" by (cases "ports_get_epoch_time os w2")
  have "agent_process_stun_request hmac md5 os b p peer w = Some (?b\<lparr>binding_request_time := ucast now\<rparr>, w3)"
    unfolding agent_process_stun_request_def by (simp add: p(4,5) c tid r(1) s e)
  then have "agent_handle_datagram hmac md5 os b (datagram m) peer w = Some (?b\<lparr>binding_request_time := ucast now\<rparr>, w3)"
    unfolding agent_handle_datagram_def p(1) using p(2,3) by simp
  then show ?thesis using r s e by fastforce
qed

lemma response_received:
  assumes "acceptable hmac m (STUN_CLASS_RESPONSE OR STUN_METHOD_BINDING) rp" and "c_text (remote_upwd a) = Some rp"
    and "nominated a = Some (i, p)"
  shows "\<exists>a' w'. agent_handle_datagram hmac md5 os a (datagram m) peer w = Some (a', w') \<and>
    candidate_pairs a' = (candidate_pairs a)[i := p\<lparr>pair_state := ICE_CANDIDATE_STATE_SUCCEEDED\<rparr>] \<and>
    nominated_pair a' = nominated_pair a"
proof -
  obtain x q where q: "set_sbuf 0 (datagram m) stun0 = Some x" "stun_parse_msg_buf (x\<lparr>msg_size := length (datagram m)\<rparr>) = Some q"
    "stunclass q = STUN_CLASS_RESPONSE" "stunmethod q = STUN_METHOD_BINDING"
    "stun_msg_is_valid hmac stun0 (sbuf q) (msg_size q) rp = Some 0"
    using acceptable_received [OF assms(1)] by auto
  obtain now w' where e: "ports_get_epoch_time os w = (now, w')" by (cases "ports_get_epoch_time os w")
  have "candidate_pairs a ! i = p" using assms(3) by (simp add: nominated_Some)
  then show ?thesis
    unfolding agent_handle_datagram_def q(1) agent_process_stun_response_def
    using q(2-5) assms(2,3) e by (simp add: set_pair_def)
qed

section \<open>Properties\<close>

text \<open>The world after a datagram has been sent on the socket for the family of the peer; a closed socket sends nothing.\<close>

definition sent_to :: "'w Os \<Rightarrow> Agent \<Rightarrow> Address \<Rightarrow> bytes \<Rightarrow> 'w \<Rightarrow> 'w" where
  "sent_to os b peer d w = (let sock = udp_sockets b ! (if family peer = AF_INET6 then 1 else 0) in
     if fd sock < 0 then w else snd (os_sendto os (fd sock) (sockaddr_of peer) d w))"

lemma agent_socket_send_sent_to:
  assumes "agent_socket_send os b peer (sbuf r) (msg_size r) w = Some (n, w')"
  shows "w' = sent_to os b peer (datagram r) w"
  using assms
  by (auto simp: agent_socket_send_def udp_socket_sendto_def sent_to_def mem_get_Some mem_read_Some
      Option.bind_eq_Some_conv Let_def split: if_splits prod.splits)



text \<open>Two agents with each other's credentials; the first has nominated a pair.\<close>

definition credential_array :: "string \<Rightarrow> bytes" where
  "credential_array s = str s @ replicate (257 - length s) 0"

definition example_caller :: Agent where
  "example_caller = example_agent\<lparr>local_ufrag := credential_array ''aaaa'', local_upwd := credential_array ''apassword'',
     remote_ufrag := credential_array ''bbbb'', remote_upwd := credential_array ''bpassword'', nominated_pair := Some 0\<rparr>"

definition example_callee :: Agent where
  "example_callee = example_agent\<lparr>local_ufrag := credential_array ''bbbb'', local_upwd := credential_array ''bpassword'',
     remote_ufrag := credential_array ''aaaa'', remote_upwd := credential_array ''apassword''\<rparr>"

lemma credential_array_text: "no_nul (str s) \<Longrightarrow> length s < 257 \<Longrightarrow> c_text (credential_array s) = Some (str s)"
  by (cases "257 - length s") (simp_all add: credential_array_def c_text_terminated)

text \<open>A system that keeps what is sent.\<close>

definition keeping_os :: "(int \<times> sockaddr \<times> bytes) list Os" where
  "keeping_os = \<lparr>os_socket = (\<lambda>f t w. (3, w)), os_setsockopt = (\<lambda>f o' b w. (0, w)), os_bind = (\<lambda>f s w. (0, w)),
     os_getsockname = (\<lambda>f w. (None, w)), os_connect = (\<lambda>f s w. (0, w)), os_close = (\<lambda>f w. w),
     os_sendto = (\<lambda>f s b w. (int (length b), w @ [(f, s, b)])), os_recvfrom = (\<lambda>f n w. (None, w)),
     os_send = (\<lambda>f b w. (int (length b), w)), os_recv = (\<lambda>f n w. (None, w)), os_select = (\<lambda>fs t w. (0, [], w)),
     os_gettimeofday = (\<lambda>w. (0, 0, w)), os_getaddrinfo = (\<lambda>n w. (None, w)), os_getifaddrs = (\<lambda>w. (None, w)),
     os_time = (\<lambda>w. (0, w)), os_rand = (\<lambda>w. (0, w))\<rparr>"


text \<open>C29: A datagram longer than the 256-byte buffer of a STUN message that carries the magic cookie
  makes \<open>agent_recv\<close> write past the end of that buffer: the length received is never compared with it.\<close>

theorem agent_recv_overrun:
  assumes "agent_socket_recv os a (Some addr_zero) buf len w = Some (ret, Some peer, buf', w')"
    and "int STUN_ATTR_BUF_SIZE < ret" and "ret \<le> int len" and "len \<le> length buf'"
    and "take 4 (drop 4 buf') = be32 MAGIC_COOKIE"
  shows "agent_recv hmac md5 os a buf len w = None"
proof -
  have n: "256 < nat ret" "nat ret \<le> length buf'" "STUN_HEADER_SIZE \<le> len" "8 \<le> length buf'" "\<not> ret \<le> 0"
    using assms(2-4) by (simp_all add: STUN_ATTR_BUF_SIZE_def STUN_HEADER_SIZE_def nat_le_iff)
  have "stun_probe buf' len = Some 0"
    using n assms(5) by (simp add: stun_probe_def mem_read_def)
  moreover have "mem_read 0 (nat ret) buf' = Some (take (nat ret) buf')" using n by (simp add: mem_read_def)
  moreover have "set_sbuf 0 (take (nat ret) buf') stun0 = None"
    using n by (simp add: set_sbuf_def mem_write_def stun0_def)
  ultimately show ?thesis
    unfolding agent_recv_def assms(1) using n(5) by (simp add: agent_handle_datagram_def)
qed

text \<open>A system with one datagram to read, of 300 bytes with the cookie in place.\<close>

definition big_datagram :: bytes where
  "big_datagram = replicate 4 0 @ be32 MAGIC_COOKIE @ replicate 292 0"

definition big_os :: "unit Os" where
  "big_os = silent_os\<lparr>os_select := (\<lambda>fs t w. (1, fs, w)), os_recvfrom := (\<lambda>f n w. (Some (big_datagram, (AF_INET, replicate 4 0, 0)), w))\<rparr>"

theorem agent_recv_overrun_witness:
  "agent_recv (\<lambda>d k. []) id big_os example_agent (replicate 1400 0) 1400 () = None"
proof -
  have l: "length big_datagram = 300" by (simp add: big_datagram_def)
  have "\<exists>p b. agent_socket_recv big_os example_agent (Some addr_zero) (replicate 1400 0) 1400 () =
    Some (300, Some p, b, ()) \<and> 1400 \<le> length b \<and> take 4 (drop 4 b) = be32 MAGIC_COOKIE"
    by (simp add: agent_socket_recv_def big_os_def example_agent_def mem_get_def udp_socket_recvfrom_def mem_write_def l)
      (simp add: big_datagram_def)
  then obtain p b where r: "agent_socket_recv big_os example_agent (Some addr_zero) (replicate 1400 0) 1400 () =
    Some (300, Some p, b, ())" and b: "1400 \<le> length b" "take 4 (drop 4 b) = be32 MAGIC_COOKIE" by blast
  show ?thesis by (rule agent_recv_overrun [OF r _ _ b]) (simp_all add: STUN_ATTR_BUF_SIZE_def)
qed

text \<open>The ICE password is not independent of the user fragment: \<open>utils_random_string\<close> seeds the
  generator with the time in seconds each time, so when both calls of \<open>agent_create_ice_credential\<close>
  fall into the same second the password begins with the user fragment, which is sent in clear.\<close>

theorem password_starts_with_ufrag:
  assumes "os_time os w = (t, w1)" and "os_time os w1 = (t, w2)"
  shows "\<exists>a'. agent_create_ice_credential rnd os a w = Some (a', w2) \<and>
    c_text (local_ufrag a') = Some (take 4 (local_upwd a')) \<and> length (take 4 (local_upwd a')) = 4"
proof -
  let ?u = "random_text rnd t 4" and ?p = "random_text rnd t 24"
  have len: "length (random_text rnd t n) = n" for n by (simp add: random_text_def)
  have al: "0 \<notin> set alphanum" "0 < length alphanum" by (simp_all add: alphanum_def str_def)
  have "alphanum ! (rnd t k mod length alphanum) \<in> set alphanum" for k using al(2) by simp
  then have nn: "no_nul (random_text rnd t n)" for n
    using al(1) unfolding no_nul_def random_text_def by (metis (no_types, lifting) ex_map_conv)
  have pre: "take 4 ?p = ?u" by (simp add: random_text_def take_map)
  let ?ua = "?u @ 0 # replicate 252 0" and ?pa = "?p @ 0 # replicate 232 0"
  have "agent_create_ice_credential rnd os a w = Some (a\<lparr>local_ufrag := ?ua, local_upwd := ?pa\<rparr>, w2)"
    using assms by (simp add: agent_create_ice_credential_def utils_random_string_def mem_write_def len
        ICE_UFRAG_LENGTH_def ICE_UPWD_LENGTH_def)
  then show ?thesis using pre len by (simp add: c_text_terminated nn)
qed

theorem password_starts_with_ufrag_witness:
  "\<exists>a'. agent_create_ice_credential (\<lambda>s k. s + 7 * k) silent_os example_agent () = Some (a', ()) \<and>
    c_text (local_ufrag a') = Some (take 4 (local_upwd a')) \<and> length (take 4 (local_upwd a')) = 4"
  by (rule password_starts_with_ufrag [where t = 0]) (simp_all add: silent_os_def)

end
