(* ===== verification/Rtp.thy ===== *)
theory Rtp
  imports Peer_Prelude
begin

text \<open>
  The RTP header, the packet checks and the encoder state of \<^verbatim>\<open>src/src/rtp.h\<close> and
  \<^verbatim>\<open>src/src/rtp.c\<close>, with the packetizer every codec without a payload format of its own
  uses (\<open>rtp_encoder_encode_generic\<close>).

  \<^item> \<open>RtpHeader\<close> is the bit-field view the C code overlays on the first 12 bytes of a
    packet; multi-byte fields hold host values, and \<open>rtp_header_bytes\<close> is their network
    layout.
  \<^item> \<open>RtpEncoder\<close> keeps the C struct; its array \<open>buf\<close> is split at the header boundary
    into \<open>buf_header\<close> and \<open>buf_payload\<close> (the other \<open>CONFIG_MTU + 128 - 12\<close> bytes).
  \<^item> \<open>on_packet\<close> of an encoder may rewrite the payload area in place, as the SRTP
    encryption of \<open>peer_connection_outgoing_rtp_packet\<close> does; it is the parameter
    \<open>cb\<close>, which maps the packet handed out and the payload area to the payload area
    afterwards. The packets handed to it are returned in order.
\<close>

section \<open>Configuration\<close>

definition CONFIG_MTU :: nat where "CONFIG_MTU = 1300"
definition CONFIG_MAX_NALU_SIZE :: nat where "CONFIG_MAX_NALU_SIZE = 10 * 1024"
definition CONFIG_MAX_AV1_TU_SIZE :: nat where "CONFIG_MAX_AV1_TU_SIZE = 256 * 1024"
definition CONFIG_RECV_BUFFER_SIZE :: nat where "CONFIG_RECV_BUFFER_SIZE = 2048"
definition CONFIG_AV1_REORDER_DEPTH :: nat where "CONFIG_AV1_REORDER_DEPTH = 4"
definition CONFIG_AUDIO_DURATION :: u32 where "CONFIG_AUDIO_DURATION = 20"

lemmas rtp_config = CONFIG_MTU_def CONFIG_MAX_NALU_SIZE_def CONFIG_MAX_AV1_TU_SIZE_def
  CONFIG_RECV_BUFFER_SIZE_def CONFIG_AV1_REORDER_DEPTH_def

section \<open>Header\<close>

record RtpHeader =
  version :: "2 word"
  padding :: "1 word"
  extension :: "1 word"
  csrccount :: "4 word"
  markerbit :: "1 word"
  h_type :: "7 word"
  h_seq_number :: u16
  h_timestamp :: u32
  h_ssrc :: u32

definition rtp_header_bytes :: "RtpHeader \<Rightarrow> bytes" where
  "rtp_header_bytes h =
     (push_bit 6 (ucast (version h)) OR push_bit 5 (ucast (padding h)) OR
        push_bit 4 (ucast (extension h)) OR ucast (csrccount h)) #
     (push_bit 7 (ucast (markerbit h)) OR ucast (h_type h)) #
     be16 (h_seq_number h) @ be32 (h_timestamp h) @ be32 (h_ssrc h)"

definition RTP_HEADER_SIZE :: nat where "RTP_HEADER_SIZE = 12"

text \<open>Reading a packet through \<^verbatim>\<open>(RtpHeader*)\<close>; fewer than 12 bytes cannot be read.\<close>

definition rtp_header_of :: "bytes \<Rightarrow> RtpHeader option" where
  "rtp_header_of p =
     (if length p < RTP_HEADER_SIZE then None
      else Some \<lparr>version = ucast (drop_bit 6 (p ! 0)), padding = ucast (drop_bit 5 (p ! 0)),
                extension = ucast (drop_bit 4 (p ! 0)), csrccount = ucast (p ! 0),
                markerbit = ucast (drop_bit 7 (p ! 1)), h_type = ucast (p ! 1),
                h_seq_number = of_be16 (drop 2 p), h_timestamp = of_be32 (drop 4 p),
                h_ssrc = of_be32 (drop 8 p)\<rparr>)"

lemma length_rtp_header_bytes [simp]: "length (rtp_header_bytes h) = 12"
  by (simp add: rtp_header_bytes_def)

lemma bit_7_word_high [simp]: "bit (t :: 7 word) (7 + n) = False" "bit (t :: 7 word) 7 = False"
  using bit_imp_le_length by force+

lemma bit_4_word_high [simp]:
  "bit (c :: 4 word) (4 + n) = False" "bit (c :: 4 word) (5 + n) = False"
  "bit (c :: 4 word) (6 + n) = False" "bit (c :: 4 word) 4 = False"
  "bit (c :: 4 word) 5 = False" "bit (c :: 4 word) 6 = False"
  using bit_imp_le_length by force+

lemma bit_1_word_high [simp]:
  "bit (e :: 1 word) (Suc n) = False"
  using bit_imp_le_length by force

lemma rtp_header_of_bytes: "rtp_header_of (rtp_header_bytes h @ p) = Some h"
proof -
  have v: "ucast (drop_bit 6 (rtp_header_bytes h ! 0)) = version h"
    by (rule bit_word_eqI) (auto simp: rtp_header_bytes_def bit_simps)
  have pd: "ucast (drop_bit 5 (rtp_header_bytes h ! 0)) = padding h"
    by (rule bit_word_eqI) (auto simp: rtp_header_bytes_def bit_simps)
  have e: "ucast (drop_bit 4 (rtp_header_bytes h ! 0)) = extension h"
    by (rule bit_word_eqI) (auto simp: rtp_header_bytes_def bit_simps)
  have c: "ucast (rtp_header_bytes h ! 0) = csrccount h"
    by (rule bit_word_eqI) (auto simp: rtp_header_bytes_def bit_simps)
  have m: "ucast (drop_bit 7 (rtp_header_bytes h ! 1)) = markerbit h"
    by (rule bit_word_eqI) (auto simp: rtp_header_bytes_def bit_simps)
  have t: "ucast (rtp_header_bytes h ! 1) = h_type h"
    by (rule bit_word_eqI) (auto simp: rtp_header_bytes_def bit_simps)
  have s: "drop 2 (rtp_header_bytes h) = be16 (h_seq_number h) @ be32 (h_timestamp h) @ be32 (h_ssrc h)"
    and ts: "drop 4 (rtp_header_bytes h) = be32 (h_timestamp h) @ be32 (h_ssrc h)"
    and ss: "drop 8 (rtp_header_bytes h) = be32 (h_ssrc h)"
    by (simp_all add: rtp_header_bytes_def be16_def be32_def)
  show ?thesis
    using v pd e c m t by (simp add: rtp_header_of_def RTP_HEADER_SIZE_def nth_append s ts ss)
qed

lemma rtp_header_of_bytes' [simp]: "rtp_header_of (rtp_header_bytes h) = Some h"
  using rtp_header_of_bytes [of h "[]"] by simp

section \<open>Packet checks\<close>

definition rtp_packet_validate :: "bytes \<Rightarrow> nat \<Rightarrow> int option" where
  "rtp_packet_validate packet sz =
     (if sz < 12 then Some 0
      else do {
        h \<leftarrow> rtp_header_of packet;
        Some (if h_type h < 64 \<or> 96 \<le> h_type h then 1 else 0)
      })"

definition rtp_get_ssrc :: "bytes \<Rightarrow> u32 option" where
  "rtp_get_ssrc packet = do { h \<leftarrow> rtp_header_of packet; Some (h_ssrc h) }"

section \<open>Encoder state\<close>

datatype MediaCodec =
    CODEC_NONE | CODEC_H264 | CODEC_VP8 | CODEC_MJPEG | CODEC_AV1
  | CODEC_OPUS | CODEC_PCMA | CODEC_PCMU

datatype RtpPayloadType = PT_PCMU | PT_PCMA | PT_G722 | PT_AV1 | PT_H264 | PT_OPUS

fun pt_value :: "RtpPayloadType \<Rightarrow> 7 word" where
  "pt_value PT_PCMU = 0"
| "pt_value PT_PCMA = 8"
| "pt_value PT_G722 = 9"
| "pt_value PT_AV1 = 45"
| "pt_value PT_H264 = 96"
| "pt_value PT_OPUS = 111"

datatype RtpSsrc = SSRC_H264 | SSRC_AV1 | SSRC_PCMA | SSRC_PCMU | SSRC_OPUS

fun ssrc_value :: "RtpSsrc \<Rightarrow> u32" where
  "ssrc_value SSRC_H264 = 1"
| "ssrc_value SSRC_AV1 = 2"
| "ssrc_value SSRC_PCMA = 4"
| "ssrc_value SSRC_PCMU = 5"
| "ssrc_value SSRC_OPUS = 6"

datatype EncodeFunc = EncodeH264 | EncodeAv1 | EncodeGeneric

record RtpEncoder =
  enc_type :: RtpPayloadType
  encode_func :: "EncodeFunc option"
  seq_number :: u16
  enc_ssrc :: u32
  timestamp :: u32
  timestamp_increment :: u32
  buf_header :: RtpHeader
  buf_payload :: bytes

type_synonym rtp_cb = "bytes \<Rightarrow> bytes \<Rightarrow> bytes"

definition RTP_BUF_PAYLOAD :: nat where
  "RTP_BUF_PAYLOAD = CONFIG_MTU + 128 - RTP_HEADER_SIZE"

text \<open>The payload area is an array: nothing, the callback included, changes its size.\<close>

definition wf_encoder :: "RtpEncoder \<Rightarrow> bool" where
  "wf_encoder enc \<longleftrightarrow> length (buf_payload enc) = RTP_BUF_PAYLOAD"

definition wf_cb :: "rtp_cb \<Rightarrow> bool" where
  "wf_cb cb \<longleftrightarrow> (\<forall>pkt pl. length (cb pkt pl) = length pl)"

text \<open>The header every packetizer stamps: version 2, no padding, no extension, no CSRC,
  the encoder's payload type, clock and SSRC, and the next sequence number.\<close>

definition stamp_header :: "RtpEncoder \<Rightarrow> 1 word \<Rightarrow> RtpHeader" where
  "stamp_header enc m =
     \<lparr>version = 2, padding = 0, extension = 0, csrccount = 0, markerbit = m,
      h_type = pt_value (enc_type enc), h_seq_number = seq_number enc,
      h_timestamp = timestamp enc, h_ssrc = enc_ssrc enc\<rparr>"

definition set_header :: "RtpHeader \<Rightarrow> RtpEncoder \<Rightarrow> RtpEncoder" where
  "set_header h enc = enc\<lparr>buf_header := h\<rparr>"

text \<open>\<open>on_packet(rtp_encoder->buf, n, user_data)\<close>: the first \<open>n\<close> bytes of the buffer go
  out, then the callback may have rewritten the payload area.\<close>

definition emit :: "rtp_cb \<Rightarrow> nat \<Rightarrow> RtpEncoder \<Rightarrow> (RtpEncoder \<times> bytes) option" where
  "emit cb n enc = do {
     body \<leftarrow> mem_read 0 (n - RTP_HEADER_SIZE) (buf_payload enc);
     let pkt = rtp_header_bytes (buf_header enc) @ body;
     Some (enc\<lparr>buf_payload := cb pkt (buf_payload enc)\<rparr>, pkt)
   }"

definition write_payload :: "nat \<Rightarrow> bytes \<Rightarrow> RtpEncoder \<Rightarrow> RtpEncoder option" where
  "write_payload off bs enc = do {
     pl \<leftarrow> mem_write off bs (buf_payload enc);
     Some (enc\<lparr>buf_payload := pl\<rparr>)
   }"

lemma rtp_buf_payload [simp]: "RTP_BUF_PAYLOAD = 1416"
  by (simp add: RTP_BUF_PAYLOAD_def CONFIG_MTU_def RTP_HEADER_SIZE_def)

lemma stamp_header_simps [simp]:
  "h_seq_number (stamp_header enc m) = seq_number enc"
  "h_type (stamp_header enc m) = pt_value (enc_type enc)"
  "h_timestamp (stamp_header enc m) = timestamp enc"
  "h_ssrc (stamp_header enc m) = enc_ssrc enc"
  "markerbit (stamp_header enc m) = m"
  "version (stamp_header enc m) = 2"
  "padding (stamp_header enc m) = 0"
  "extension (stamp_header enc m) = 0"
  "csrccount (stamp_header enc m) = 0"
  by (simp_all add: stamp_header_def)

lemma stamp_header_marker [simp]: "stamp_header enc a\<lparr>markerbit := m\<rparr> = stamp_header enc m"
  by (simp add: stamp_header_def)

lemma stamp_header_payload [simp]: "stamp_header (enc\<lparr>buf_payload := x\<rparr>) m = stamp_header enc m"
  by (simp add: stamp_header_def)

lemma stamp_header_seq [simp]:
  "stamp_header enc m\<lparr>h_seq_number := seq_number enc\<rparr> = stamp_header enc m"
  by (simp add: stamp_header_def)

text \<open>Writing a body at the start of the payload area and handing it out gives the header
  followed by exactly that body, whatever the area held before.\<close>

lemma write_emit:
  assumes "length bs \<le> length (buf_payload enc)"
  shows "Option.bind (write_payload 0 bs enc) (emit cb (12 + length bs)) =
     Some (enc\<lparr>buf_payload := cb (rtp_header_bytes (buf_header enc) @ bs)
                              (bs @ drop (length bs) (buf_payload enc))\<rparr>,
           rtp_header_bytes (buf_header enc) @ bs)"
  using assms
  by (simp add: write_payload_def emit_def mem_write_def mem_read_def RTP_HEADER_SIZE_def Let_def)

lemma emit_prefix:
  assumes "buf_payload enc = bs @ r"
  shows "emit cb (12 + length bs) enc =
     Some (enc\<lparr>buf_payload := cb (rtp_header_bytes (buf_header enc) @ bs) (bs @ r)\<rparr>,
           rtp_header_bytes (buf_header enc) @ bs)"
  using assms by (simp add: emit_def mem_read_def RTP_HEADER_SIZE_def Let_def)

section \<open>Streams of packets\<close>

text \<open>A list of packets that carries consecutive sequence numbers starting at \<open>s\<close>, all with
  one payload type and one SSRC.\<close>

fun rtp_stream :: "u16 \<Rightarrow> 7 word \<Rightarrow> u32 \<Rightarrow> bytes list \<Rightarrow> bool" where
  "rtp_stream s pt ssrc [] = True"
| "rtp_stream s pt ssrc (p # ps) =
     (case rtp_header_of p of
        None \<Rightarrow> False
      | Some h \<Rightarrow> h_seq_number h = s \<and> h_type h = pt \<and> h_ssrc h = ssrc \<and> version h = 2 \<and>
          rtp_stream (s + 1) pt ssrc ps)"

lemma rtp_stream_append:
  "rtp_stream s pt ssrc (ps @ qs) \<longleftrightarrow>
     rtp_stream s pt ssrc ps \<and> rtp_stream (s + of_nat (length ps)) pt ssrc qs"
  by (induction ps arbitrary: s) (auto split: option.splits simp: algebra_simps)

section \<open>What every packetizer keeps\<close>

text \<open>Same stream, same room for the payload: what every packetizer keeps of the encoder.\<close>

definition same_stream :: "RtpEncoder \<Rightarrow> RtpEncoder \<Rightarrow> bool" where
  "same_stream enc enc' \<longleftrightarrow> wf_encoder enc' \<and> enc_type enc' = enc_type enc \<and>
     enc_ssrc enc' = enc_ssrc enc \<and> encode_func enc' = encode_func enc \<and>
     timestamp_increment enc' = timestamp_increment enc"

definition sent_ok :: "RtpEncoder \<Rightarrow> RtpEncoder \<Rightarrow> bytes list \<Rightarrow> bool" where
  "sent_ok enc enc' pkts \<longleftrightarrow> same_stream enc enc' \<and>
     seq_number enc' = seq_number enc + of_nat (length pkts) \<and>
     rtp_stream (seq_number enc) (pt_value (enc_type enc)) (enc_ssrc enc) pkts \<and>
     (\<forall>p \<in> set pkts. length p \<le> CONFIG_MTU)"

lemma sent_ok_trans:
  "sent_ok enc enc1 ps \<Longrightarrow> sent_ok enc1 enc2 qs \<Longrightarrow> sent_ok enc enc2 (ps @ qs)"
  by (auto simp: sent_ok_def same_stream_def rtp_stream_append algebra_simps)

lemma sent_ok_wf: "sent_ok enc enc' ps \<Longrightarrow> wf_encoder enc'"
  by (simp add: sent_ok_def same_stream_def)

lemma sent_ok_none [simp]: "wf_encoder enc \<Longrightarrow> sent_ok enc enc []"
  by (simp add: sent_ok_def same_stream_def)

lemma sent_ok_one:
  assumes "sent_ok enc enc1 [p]" and "sent_ok enc1 enc2 ps"
  shows "sent_ok enc enc2 (p # ps)"
  using sent_ok_trans [OF assms] by simp

text \<open>The interface of a packetizer to the code that sends frame after frame: for the frames
  it accepts it stays inside its buffers and keeps the stream. The client is a sender that
  calls it once per frame and does not look at the return code.\<close>

fun send_frames ::
  "(RtpEncoder \<Rightarrow> bytes \<Rightarrow> (int \<times> RtpEncoder \<times> bytes list) option) \<Rightarrow> RtpEncoder \<Rightarrow> bytes list \<Rightarrow>
   (RtpEncoder \<times> bytes list) option" where
  "send_frames encode enc [] = Some (enc, [])"
| "send_frames encode enc (f # fs) = do {
     (r, enc, pkts) \<leftarrow> encode enc f;
     (enc, more) \<leftarrow> send_frames encode enc fs;
     Some (enc, pkts @ more)
   }"

locale rtp_packetizer =
  fixes encode :: "rtp_cb \<Rightarrow> RtpEncoder \<Rightarrow> bytes \<Rightarrow> (int \<times> RtpEncoder \<times> bytes list) option"
    and frame :: "bytes \<Rightarrow> bool"
  assumes encode_ok: "wf_cb cb \<Longrightarrow> wf_encoder enc \<Longrightarrow> frame f \<Longrightarrow>
      \<exists>r enc' pkts. encode cb enc f = Some (r, enc', pkts) \<and> sent_ok enc enc' pkts"
begin

lemma send_frames_ok:
  assumes "wf_cb cb" and "wf_encoder enc" and "\<forall>f \<in> set fs. frame f"
  shows "\<exists>enc' pkts. send_frames (encode cb) enc fs = Some (enc', pkts) \<and> sent_ok enc enc' pkts"
  using assms(2,3)
proof (induction fs arbitrary: enc)
  case (Cons f fs)
  obtain r enc1 ps where 1: "encode cb enc f = Some (r, enc1, ps)" "sent_ok enc enc1 ps"
    using encode_ok [OF assms(1) Cons.prems(1), of f] Cons.prems(2) by auto
  obtain enc2 qs where "send_frames (encode cb) enc1 fs = Some (enc2, qs)" "sent_ok enc1 enc2 qs"
    using Cons.IH [OF sent_ok_wf [OF 1(2)]] Cons.prems(2) by auto
  with 1 show ?case by (auto intro: sent_ok_trans)
qed simp

lemma send_frames_gap_free:
  assumes "wf_cb cb" and "wf_encoder enc" and "\<forall>f \<in> set fs. frame f"
    and "send_frames (encode cb) enc fs = Some (enc', pkts)"
  shows "rtp_stream (seq_number enc) (pt_value (enc_type enc)) (enc_ssrc enc) pkts \<and>
    (\<forall>p \<in> set pkts. length p \<le> CONFIG_MTU)"
  using send_frames_ok [OF assms(1-3)] assms(4) by (auto simp: sent_ok_def)

end

text \<open>The interface of a codec's two ends to whole streams: a frame the channel carries (\<open>frame\<close>)
  is sent as \<open>wire f\<close> and received as \<open>result f\<close> by a receiver that is \<open>ready\<close> for it, which is
  then in step with the encoder (\<open>sync\<close>) and ready for the next. The client lemma carries this
  over to streams.\<close>

locale media_channel =
  fixes encode :: "rtp_cb \<Rightarrow> RtpEncoder \<Rightarrow> bytes \<Rightarrow> (int \<times> RtpEncoder \<times> bytes list) option"
    and receive :: "'r \<Rightarrow> bytes list \<Rightarrow> ('r \<times> bytes list) option"
    and wire :: "'f \<Rightarrow> bytes" and frame :: "'f \<Rightarrow> bool" and result :: "'f \<Rightarrow> bytes list"
    and ready :: "'r \<Rightarrow> RtpEncoder \<Rightarrow> 'f \<Rightarrow> bool" and sync :: "'r \<Rightarrow> RtpEncoder \<Rightarrow> bool"
  assumes receive_none: "receive r [] = Some (r, [])"
    and receive_append: "receive r ps = Some (r1, o1) \<Longrightarrow> receive r1 qs = Some (r2, o2) \<Longrightarrow>
      receive r (ps @ qs) = Some (r2, o1 @ o2)"
    and transfer: "wf_cb cb \<Longrightarrow> wf_encoder enc \<Longrightarrow> frame f \<Longrightarrow> ready r enc f \<Longrightarrow>
      \<exists>x enc' ps r'. encode cb enc (wire f) = Some (x, enc', ps) \<and> wf_encoder enc' \<and>
        receive r ps = Some (r', result f) \<and> sync r' enc'"
    and sync_ready: "sync r enc \<Longrightarrow> frame f \<Longrightarrow> ready r enc f"
begin

lemma stream:
  assumes "wf_cb cb" and "wf_encoder enc" and "\<forall>f \<in> set fs. frame f" and "fs \<noteq> [] \<longrightarrow> ready r enc (hd fs)"
  shows "\<exists>enc' ps r'. send_frames (encode cb) enc (map wire fs) = Some (enc', ps) \<and>
    receive r ps = Some (r', concat (map result fs))"
  using assms(2-)
proof (induction fs arbitrary: enc r)
  case Nil
  then show ?case by (simp add: receive_none)
next
  case (Cons f fs)
  obtain x enc1 ps r1 where 1: "encode cb enc (wire f) = Some (x, enc1, ps)" "wf_encoder enc1"
    "receive r ps = Some (r1, result f)" "sync r1 enc1"
    using transfer [OF assms(1) Cons.prems(1)] Cons.prems(2,3) by (metis list.distinct(1) list.sel(1) list.set_intros(1))
  have "fs \<noteq> [] \<longrightarrow> ready r1 enc1 (hd fs)" using sync_ready [OF 1(4)] Cons.prems(2) by simp
  from Cons.IH [OF 1(2) _ this] Cons.prems(2)
  obtain enc2 qs r2 where "send_frames (encode cb) enc1 (map wire fs) = Some (enc2, qs)"
    "receive r1 qs = Some (r2, concat (map result fs))" by fastforce
  with 1 receive_append [OF 1(3)] show ?case by auto
qed

end

text \<open>An encoder to try things on.\<close>

definition example_encoder :: "RtpPayloadType \<Rightarrow> EncodeFunc \<Rightarrow> RtpEncoder" where
  "example_encoder pt f =
     \<lparr>enc_type = pt, encode_func = Some f, seq_number = 65535, enc_ssrc = 1, timestamp = 0,
      timestamp_increment = 3000,
      buf_header = \<lparr>version = 0, padding = 0, extension = 0, csrccount = 0, markerbit = 0,
        h_type = 0, h_seq_number = 0, h_timestamp = 0, h_ssrc = 0\<rparr>,
      buf_payload = replicate 1416 0\<rparr>"

lemma wf_example_encoder [simp]: "wf_encoder (example_encoder pt f)"
  by (simp add: wf_encoder_def example_encoder_def)

lemma wf_cb_example [simp]: "wf_cb (\<lambda>pkt pl. map NOT pl)"
  by (simp add: wf_cb_def)

section \<open>The generic packetizer\<close>

definition rtp_encoder_encode_generic ::
  "rtp_cb \<Rightarrow> RtpEncoder \<Rightarrow> bytes \<Rightarrow> (int \<times> RtpEncoder \<times> bytes list) option" where
  "rtp_encoder_encode_generic cb enc data = do {
     let enc = set_header (stamp_header enc 0) enc;
     let enc = enc\<lparr>seq_number := seq_number enc + 1,
                   timestamp := timestamp enc + timestamp_increment enc\<rparr>;
     enc \<leftarrow> write_payload 0 data enc;
     (enc, pkt) \<leftarrow> emit cb (length data + RTP_HEADER_SIZE) enc;
     Some (0, enc, [pkt])
   }"

lemma rtp_encoder_encode_generic_eq:
  assumes "wf_encoder enc" and "length data \<le> 1416"
  shows "rtp_encoder_encode_generic cb enc data =
     Some (0, enc\<lparr>buf_header := stamp_header enc 0, seq_number := seq_number enc + 1,
                  timestamp := timestamp enc + timestamp_increment enc,
                  buf_payload := cb (rtp_header_bytes (stamp_header enc 0) @ data)
                                    (data @ drop (length data) (buf_payload enc))\<rparr>,
           [rtp_header_bytes (stamp_header enc 0) @ data])"
  using assms
  by (simp add: rtp_encoder_encode_generic_def set_header_def write_payload_def emit_def
      mem_write_def mem_read_def wf_encoder_def RTP_HEADER_SIZE_def Let_def)

lemma rtp_encoder_encode_generic_overrun:
  assumes "wf_encoder enc" and "1416 < length data"
  shows "rtp_encoder_encode_generic cb enc data = None"
  using assms
  by (simp add: rtp_encoder_encode_generic_def set_header_def write_payload_def
      mem_write_def wf_encoder_def Let_def)

text \<open>A frame of at most \<open>CONFIG_MTU - 12\<close> bytes.\<close>

definition generic_frame :: "bytes \<Rightarrow> bool" where
  "generic_frame f \<longleftrightarrow> length f \<le> CONFIG_MTU - RTP_HEADER_SIZE"

interpretation generic_rtp: rtp_packetizer rtp_encoder_encode_generic generic_frame
proof unfold_locales
  fix cb enc f
  assume "wf_cb cb" "wf_encoder enc" "generic_frame f"
  then show "\<exists>r enc' pkts. rtp_encoder_encode_generic cb enc f = Some (r, enc', pkts) \<and> sent_ok enc enc' pkts"
    by (auto simp: rtp_encoder_encode_generic_eq generic_frame_def sent_ok_def same_stream_def wf_encoder_def
        wf_cb_def rtp_header_of_bytes CONFIG_MTU_def RTP_HEADER_SIZE_def)
qed

section \<open>The generic depacketizer\<close>

text \<open>\<open>rtp_decode_generic\<close> hands the bytes after the fixed header to the callback, if there
  is one. The result is the return code and what was delivered. \<open>sz - sizeof(RtpHeader)\<close>
  is unsigned: below 12 it wraps and the delivered range leaves the packet.\<close>

definition rtp_decode_generic :: "bool \<Rightarrow> bytes \<Rightarrow> nat \<Rightarrow> (int \<times> bytes list) option" where
  "rtp_decode_generic has_cb buf sz =
     (if has_cb
      then do {
        c_assert (RTP_HEADER_SIZE \<le> sz);
        pl \<leftarrow> mem_read RTP_HEADER_SIZE (sz - RTP_HEADER_SIZE) buf;
        Some (int sz, [pl])
      }
      else Some (int sz, []))"

fun rtp_decode_generic_all :: "unit \<Rightarrow> bytes list \<Rightarrow> (unit \<times> bytes list) option" where
  "rtp_decode_generic_all u [] = Some (u, [])"
| "rtp_decode_generic_all u (p # ps) = do {
     (r, out) \<leftarrow> rtp_decode_generic True p (length p);
     (u, more) \<leftarrow> rtp_decode_generic_all u ps;
     Some (u, out @ more)
   }"

lemma rtp_decode_generic_all_append:
  "rtp_decode_generic_all u ps = Some (u1, o1) \<Longrightarrow> rtp_decode_generic_all u1 qs = Some (u2, o2) \<Longrightarrow>
   rtp_decode_generic_all u (ps @ qs) = Some (u2, o1 @ o2)"
  by (induction ps arbitrary: u o1) (auto split: bind_splits)

lemma rtp_decode_generic_packet:
  "rtp_decode_generic True (rtp_header_bytes h @ pl @ r) (12 + length pl) =
     Some (12 + int (length pl), [pl])"
  by (simp add: rtp_decode_generic_def mem_read_def RTP_HEADER_SIZE_def)

interpretation generic_channel: media_channel rtp_encoder_encode_generic rtp_decode_generic_all
  "\<lambda>f. f" generic_frame "\<lambda>f. [f]" "\<lambda>_ _ _. True" "\<lambda>_ _. True"
proof unfold_locales
  fix cb enc f r
  assume "wf_cb cb" "wf_encoder enc" "generic_frame f"
  then show "\<exists>x enc' ps r'. rtp_encoder_encode_generic cb enc f = Some (x, enc', ps) \<and> wf_encoder enc' \<and>
      rtp_decode_generic_all r ps = Some (r', [f]) \<and> True"
    using rtp_decode_generic_packet [of "stamp_header enc 0" f "[]"]
    by (simp add: rtp_encoder_encode_generic_eq generic_frame_def wf_encoder_def wf_cb_def CONFIG_MTU_def RTP_HEADER_SIZE_def)
qed (auto intro: rtp_decode_generic_all_append)

end
