(* ===== verification/Rtp_H264.thy ===== *)
theory Rtp_H264
  imports Rtp
begin

text \<open>
  H.264 over RTP (\<^verbatim>\<open>src/src/rtp.c\<close>): splitting an Annex B stream at its start codes,
  sending a NAL unit as one packet or as FU-A fragments, and rebuilding NAL units on the
  receiving side.

  \<^item> Indicator and fragment-header bytes are written bit-field by bit-field, as the C
    structs \<open>NaluHeader\<close> and \<open>FuHeader\<close> do, on top of whatever the payload area holds.
  \<^item> The receiver's static \<open>nalu_buf\<close> is modelled by its first \<open>offset\<close> bytes, the only
    ones ever handed out; a write beyond \<open>CONFIG_MAX_NALU_SIZE\<close> is \<^const>\<open>None\<close>.
\<close>

section \<open>Bit-fields of the indicator and fragment headers\<close>

definition nalu_set_type :: "u8 \<Rightarrow> u8 \<Rightarrow> u8" where
  "nalu_set_type t b = (b AND 0xE0) OR (t AND 0x1F)"

definition nalu_set_nri :: "u8 \<Rightarrow> u8 \<Rightarrow> u8" where
  "nalu_set_nri n b = (b AND 0x9F) OR push_bit 5 (n AND 3)"

definition nalu_set_f :: "u8 \<Rightarrow> u8 \<Rightarrow> u8" where
  "nalu_set_f f b = (b AND 0x7F) OR push_bit 7 (f AND 1)"

definition fu_set_type :: "u8 \<Rightarrow> u8 \<Rightarrow> u8" where
  "fu_set_type t b = (b AND 0xE0) OR (t AND 0x1F)"

definition fu_set_r :: "u8 \<Rightarrow> u8 \<Rightarrow> u8" where
  "fu_set_r r b = (b AND 0xDF) OR push_bit 5 (r AND 1)"

definition fu_set_e :: "u8 \<Rightarrow> u8 \<Rightarrow> u8" where
  "fu_set_e e b = (b AND 0xBF) OR push_bit 6 (e AND 1)"

definition fu_set_s :: "u8 \<Rightarrow> u8 \<Rightarrow> u8" where
  "fu_set_s s b = (b AND 0x7F) OR push_bit 7 (s AND 1)"

definition FU_A :: u8 where "FU_A = 28"

definition RTP_PAYLOAD_SIZE :: nat where
  "RTP_PAYLOAD_SIZE = CONFIG_MTU - RTP_HEADER_SIZE"

definition FU_PAYLOAD_SIZE :: nat where
  "FU_PAYLOAD_SIZE = CONFIG_MTU - RTP_HEADER_SIZE - 1 - 1"

lemma h264_sizes [simp]: "RTP_PAYLOAD_SIZE = 1288" "FU_PAYLOAD_SIZE = 1286"
  by (simp_all add: RTP_PAYLOAD_SIZE_def FU_PAYLOAD_SIZE_def CONFIG_MTU_def RTP_HEADER_SIZE_def)

section \<open>Single NAL unit packets\<close>

text \<open>\<open>data\<close>, \<open>off\<close>, \<open>sz\<close> are the caller's buffer and the part of it the C code receives
  as \<open>buf\<close>, \<open>size\<close>.\<close>

definition rtp_encoder_encode_h264_single ::
  "rtp_cb \<Rightarrow> RtpEncoder \<Rightarrow> bytes \<Rightarrow> nat \<Rightarrow> nat \<Rightarrow> (RtpEncoder \<times> bytes list) option" where
  "rtp_encoder_encode_h264_single cb enc data off sz = do {
     let h = stamp_header enc 0;
     let enc = enc\<lparr>seq_number := seq_number enc + 1\<rparr>;
     b \<leftarrow> mem_get off data;
     let key = (b AND 0x1f = 0x05 \<or> b AND 0x1f = 0x01);
     let h = (if key then h\<lparr>markerbit := 1\<rparr> else h);
     let enc = (if key then enc\<lparr>timestamp := timestamp enc + timestamp_increment enc\<rparr> else enc);
     nal \<leftarrow> mem_read off sz data;
     enc \<leftarrow> write_payload 0 nal (set_header h enc);
     (enc, pkt) \<leftarrow> emit cb (sz + RTP_HEADER_SIZE) enc;
     Some (enc, [pkt])
   }"

section \<open>FU-A fragmentation\<close>

function fu_a_loop ::
  "rtp_cb \<Rightarrow> bytes \<Rightarrow> u8 \<Rightarrow> u8 \<Rightarrow> RtpEncoder \<Rightarrow> nat \<Rightarrow> nat \<Rightarrow> (RtpEncoder \<times> bytes list) option" where
  "fu_a_loop cb data type nri enc off sz =
     (if sz = 0 then Some (enc, [])
      else do {
        ind \<leftarrow> mem_get 0 (buf_payload enc);
        fu \<leftarrow> mem_get 1 (buf_payload enc);
        let ind = nalu_set_f 0 (nalu_set_nri nri (nalu_set_type FU_A ind));
        let fu = fu_set_r 0 (fu_set_type type fu);
        let enc = set_header ((buf_header enc)\<lparr>h_seq_number := seq_number enc\<rparr>) enc;
        let enc = enc\<lparr>seq_number := seq_number enc + 1\<rparr>;
        (if sz \<le> FU_PAYLOAD_SIZE
         then do {
           let enc = set_header ((buf_header enc)\<lparr>markerbit := 1\<rparr>) enc;
           chunk \<leftarrow> mem_read off sz data;
           enc \<leftarrow> write_payload 0 ([ind, fu_set_e 1 fu] @ chunk) enc;
           (enc, pkt) \<leftarrow> emit cb (sz + RTP_HEADER_SIZE + 1 + 1) enc;
           Some (enc, [pkt])
         }
         else do {
           chunk \<leftarrow> mem_read off FU_PAYLOAD_SIZE data;
           enc \<leftarrow> write_payload 0 ([ind, fu_set_e 0 fu] @ chunk) enc;
           (enc, pkt) \<leftarrow> emit cb CONFIG_MTU enc;
           fu \<leftarrow> mem_get 1 (buf_payload enc);
           enc \<leftarrow> write_payload 1 [fu_set_s 0 fu] enc;
           (enc, pkts) \<leftarrow> fu_a_loop cb data type nri enc (off + FU_PAYLOAD_SIZE) (sz - FU_PAYLOAD_SIZE);
           Some (enc, pkt # pkts)
         })
      })"
  by pat_completeness auto
termination
  by (relation "measure (\<lambda>(cb, data, type, nri, enc, off, sz). sz)") auto

declare fu_a_loop.simps [simp del]

definition rtp_encoder_encode_h264_fu_a ::
  "rtp_cb \<Rightarrow> RtpEncoder \<Rightarrow> bytes \<Rightarrow> nat \<Rightarrow> nat \<Rightarrow> (RtpEncoder \<times> bytes list) option" where
  "rtp_encoder_encode_h264_fu_a cb enc data off sz = do {
     let enc = set_header (stamp_header enc 0) enc;
     b \<leftarrow> mem_get off data;
     let type = b AND 0x1f;
     let nri = drop_bit 5 (b AND 0x60);
     c_assert (0 < sz);
     let enc = (if type = 0x05 \<or> type = 0x01
                then enc\<lparr>timestamp := timestamp enc + timestamp_increment enc\<rparr> else enc);
     fu \<leftarrow> mem_get 1 (buf_payload enc);
     enc \<leftarrow> write_payload 1 [fu_set_s 1 fu] enc;
     fu_a_loop cb data type nri enc (off + 1) (sz - 1)
   }"

section \<open>Finding NAL units\<close>

function h264_find_from :: "bytes \<Rightarrow> nat \<Rightarrow> nat" where
  "h264_find_from data p =
     (if p < length data
      then if data ! (p - 2) = 0x00 \<and> data ! (p - 1) = 0x00 \<and> data ! p = 0x01 then p + 1
           else h264_find_from data (p + 1)
      else length data)"
  by pat_completeness auto
termination
  by (relation "measure (\<lambda>(data, p). length data - p)") auto

declare h264_find_from.simps [simp del]

text \<open>Offsets into the caller's buffer; the end of the buffer stands for \<open>buf_end\<close>.\<close>

definition h264_find_nalu :: "bytes \<Rightarrow> nat \<Rightarrow> nat" where
  "h264_find_nalu data start = h264_find_from data (start + 2)"

text \<open>\<open>while (pstart[nalu_size - 1] == 0x00) nalu_size--\<close>. At size 0 the byte read is the one
  before the NAL unit; if it were zero the unsigned size would wrap and the scan leave the
  buffer.\<close>

fun trim_trailing_zeros :: "bytes \<Rightarrow> nat \<Rightarrow> nat \<Rightarrow> nat option" where
  "trim_trailing_zeros data pstart 0 = do {
     b \<leftarrow> (if 0 < pstart then mem_get (pstart - 1) data else None);
     c_assert (b \<noteq> 0);
     Some 0
   }"
| "trim_trailing_zeros data pstart (Suc n) = do {
     b \<leftarrow> mem_get (pstart + n) data;
     (if b = 0 then trim_trailing_zeros data pstart n else Some (Suc n))
   }"

definition h264_send_nalu ::
  "rtp_cb \<Rightarrow> RtpEncoder \<Rightarrow> bytes \<Rightarrow> nat \<Rightarrow> nat \<Rightarrow> (RtpEncoder \<times> bytes list) option" where
  "h264_send_nalu cb enc data pstart nalu_size =
     (if nalu_size \<le> RTP_PAYLOAD_SIZE
      then rtp_encoder_encode_h264_single cb enc data pstart nalu_size
      else rtp_encoder_encode_h264_fu_a cb enc data pstart nalu_size)"

lemma h264_find_from_bounds:
  "h264_find_from data p \<le> length data \<and> (p \<le> length data \<longrightarrow> p \<le> h264_find_from data p) \<and>
   (p < length data \<longrightarrow> p < h264_find_from data p)"
proof (induction data p rule: h264_find_from.induct)
  case (1 data p)
  then show ?case
    by (subst (1 2 3) h264_find_from.simps) auto
qed

lemma h264_find_nalu_gt:
  assumes "start < length data"
  shows "start < h264_find_nalu data start"
  using assms h264_find_from_bounds [of data "start + 2"]
  by (cases "start + 2 \<le> length data") (auto simp: h264_find_nalu_def h264_find_from.simps)

lemma h264_find_nalu_le: "h264_find_nalu data start \<le> length data"
  using h264_find_from_bounds by (simp add: h264_find_nalu_def)

function encode_h264_loop ::
  "rtp_cb \<Rightarrow> bytes \<Rightarrow> RtpEncoder \<Rightarrow> nat \<Rightarrow> (RtpEncoder \<times> bytes list) option" where
  "encode_h264_loop cb data enc pstart =
     (if pstart < length data
      then do {
        let pend = h264_find_nalu data pstart;
        let nalu_size = pend - pstart;
        let nalu_size = (if pend \<noteq> length data then nalu_size - 1 else nalu_size);
        nalu_size \<leftarrow> trim_trailing_zeros data pstart nalu_size;
        (enc, pkts) \<leftarrow> h264_send_nalu cb enc data pstart nalu_size;
        (enc, more) \<leftarrow> encode_h264_loop cb data enc pend;
        Some (enc, pkts @ more)
      }
      else Some (enc, []))"
  by pat_completeness auto
termination
  by (relation "measure (\<lambda>(cb, data, enc, pstart). length data - pstart)")
     (auto dest: h264_find_nalu_gt intro!: diff_less_mono2)

declare encode_h264_loop.simps [simp del]

definition rtp_encoder_encode_h264 ::
  "rtp_cb \<Rightarrow> RtpEncoder \<Rightarrow> bytes \<Rightarrow> (int \<times> RtpEncoder \<times> bytes list) option" where
  "rtp_encoder_encode_h264 cb enc data = do {
     (enc, pkts) \<leftarrow> encode_h264_loop cb data enc (h264_find_nalu data 0);
     Some (0, enc, pkts)
   }"

section \<open>Rebuilding NAL units\<close>

definition nalu_start_4bytecode :: bytes where
  "nalu_start_4bytecode = [0, 0, 0, 1]"

text \<open>\<open>memcpy(nalu_buf + offset, src, n)\<close>; \<open>n\<close> is an \<^verbatim>\<open>int\<close> that a short packet makes
  negative, which \<^verbatim>\<open>memcpy\<close> reads as a huge size.\<close>

definition nalu_append :: "bytes \<Rightarrow> bytes \<Rightarrow> nat \<Rightarrow> int \<Rightarrow> bytes option" where
  "nalu_append acc buf src n = do {
     c_assert (0 \<le> n);
     c_assert (length acc + nat n \<le> CONFIG_MAX_NALU_SIZE);
     bs \<leftarrow> mem_read src (nat n) buf;
     Some (acc @ bs)
   }"

text \<open>\<open>(f << 7) | (nri << 5) | type\<close>, the first two from the FU indicator, the type from the
  FU header.\<close>

definition reconstructed_nalu_type :: "u8 \<Rightarrow> u8 \<Rightarrow> u8" where
  "reconstructed_nalu_type fu_ind fu_hdr =
     push_bit 7 (drop_bit 7 fu_ind) OR push_bit 5 (drop_bit 5 fu_ind AND 3) OR (fu_hdr AND 0x1f)"

text \<open>\<open>acc\<close> is \<open>nalu_buf[0..offset)\<close>. The result is the return code, the new buffer
  contents and what went to the callback.\<close>

definition rtp_decode_h264 ::
  "bool \<Rightarrow> bytes \<Rightarrow> bytes \<Rightarrow> nat \<Rightarrow> (int \<times> bytes \<times> bytes list) option" where
  "rtp_decode_h264 has_cb acc buf sz = do {
     first \<leftarrow> mem_get 12 buf;
     let nalu_type = first AND 0x1f;
     let payload_size = int sz - 12;
     (if 0 < nalu_type \<and> nalu_type < 24
      then do {
        acc \<leftarrow> nalu_append nalu_start_4bytecode buf 12 payload_size;
        Some (int sz, acc, if has_cb then [acc] else [])
      }
      else do {
        fu \<leftarrow> mem_get 13 buf;
        let reconstructed = reconstructed_nalu_type first fu;
        let payload_size = payload_size - 2;
        (if bit fu 7
         then do {
           acc \<leftarrow> nalu_append (nalu_start_4bytecode @ [reconstructed]) buf 14 payload_size;
           Some (0, acc, [])
         }
         else if length acc < CONFIG_MAX_NALU_SIZE
         then do {
           acc \<leftarrow> nalu_append acc buf 14 payload_size;
           (if bit fu 6
            then Some (0, [], if has_cb then [acc] else [])
            else Some (0, acc, []))
         }
         else Some (0, acc, []))
      })
   }"

text \<open>Packets one after the other, as \<open>peer_connection_loop\<close> passes them.\<close>

fun rtp_decode_h264_all ::
  "bool \<Rightarrow> bytes \<Rightarrow> bytes list \<Rightarrow> (bytes \<times> bytes list) option" where
  "rtp_decode_h264_all has_cb acc [] = Some (acc, [])"
| "rtp_decode_h264_all has_cb acc (p # ps) = do {
     (r, acc, out) \<leftarrow> rtp_decode_h264 has_cb acc p (length p);
     (acc, more) \<leftarrow> rtp_decode_h264_all has_cb acc ps;
     Some (acc, out @ more)
   }"

section \<open>Header bytes\<close>

definition fu_indicator_byte :: "u8 \<Rightarrow> u8" where
  "fu_indicator_byte nri = FU_A OR push_bit 5 (nri AND 3)"

definition nal_header_byte :: "u8 \<Rightarrow> u8 \<Rightarrow> u8" where
  "nal_header_byte nri t = push_bit 5 (nri AND 3) OR (t AND 0x1f)"

lemma fu_indicator_set:
  "nalu_set_f 0 (nalu_set_nri nri (nalu_set_type FU_A b)) = fu_indicator_byte nri"
  by (rule u8_eqI) (simp_all add: nalu_set_f_def nalu_set_nri_def nalu_set_type_def
      fu_indicator_byte_def FU_A_def bit_simps)

definition fu_header_byte :: "bool \<Rightarrow> bool \<Rightarrow> u8 \<Rightarrow> u8" where
  "fu_header_byte s e t = (if s then 0x80 else 0) OR (if e then 0x40 else 0) OR (t AND 0x1f)"

lemma fu_header_byte_last:
  "fu_set_e 1 (fu_set_r 0 (fu_set_type t b)) = fu_header_byte (bit b 7) True t"
  by (rule u8_eqI)
    (simp_all add: fu_set_e_def fu_set_r_def fu_set_type_def fu_header_byte_def bit_simps)

lemma fu_header_byte_more:
  "fu_set_e 0 (fu_set_r 0 (fu_set_type t b)) = fu_header_byte (bit b 7) False t"
  by (rule u8_eqI)
    (simp_all add: fu_set_e_def fu_set_r_def fu_set_type_def fu_header_byte_def bit_simps)

lemma fu_set_s_bit [simp]: "bit (fu_set_s 1 b) 7" "\<not> bit (fu_set_s 0 b) 7"
  by (simp_all add: fu_set_s_def bit_simps)

lemma fu_header_byte_bits [simp]:
  "bit (fu_header_byte s e t) 7 = s" "bit (fu_header_byte s e t) 6 = e"
  by (simp_all add: fu_header_byte_def bit_simps)

lemma fu_header_byte_type [simp]: "fu_header_byte s e t AND 0x1f = t AND 0x1f"
  by (rule u8_eqI) (simp_all add: fu_header_byte_def bit_simps)

lemma fu_indicator_type [simp]: "fu_indicator_byte nri AND 0x1f = 28"
  by (rule u8_eqI) (simp_all add: fu_indicator_byte_def FU_A_def bit_simps)

lemma reconstructed_fu [simp]:
  "reconstructed_nalu_type (fu_indicator_byte nri) (fu_header_byte s e t) = nal_header_byte nri t"
  by (rule u8_eqI)
    (simp_all add: reconstructed_nalu_type_def fu_indicator_byte_def fu_header_byte_def
      nal_header_byte_def FU_A_def bit_simps)

lemma nal_header_byte_split:
  assumes "\<not> bit b 7"
  shows "nal_header_byte (drop_bit 5 (b AND 0x60)) (b AND 0x1f) = b"
  using assms by (intro u8_eqI) (simp_all add: nal_header_byte_def bit_simps)

section \<open>What a fragmented NAL unit looks like on the wire\<close>

definition fu_packet :: "RtpHeader \<Rightarrow> u8 \<Rightarrow> u8 \<Rightarrow> bool \<Rightarrow> bool \<Rightarrow> bytes \<Rightarrow> bytes" where
  "fu_packet h type nri s e chunk =
     rtp_header_bytes (h\<lparr>markerbit := (if e then 1 else 0)\<rparr>) @
     [fu_indicator_byte nri, fu_header_byte s e type] @ chunk"

function fu_packets :: "RtpHeader \<Rightarrow> u8 \<Rightarrow> u8 \<Rightarrow> bool \<Rightarrow> bytes \<Rightarrow> bytes list" where
  "fu_packets h type nri s d =
     (if d = [] then []
      else if length d \<le> 1286 then [fu_packet h type nri s True d]
      else fu_packet h type nri s False (take 1286 d) #
           fu_packets (h\<lparr>h_seq_number := h_seq_number h + 1\<rparr>) type nri False (drop 1286 d))"
  by pat_completeness auto
termination
  by (relation "measure (\<lambda>(h, type, nri, s, d). length d)") auto

declare fu_packets.simps [simp del]

lemma fu_a_loop_eq:
  assumes cb: "wf_cb cb" and wf: "wf_encoder enc" and m: "markerbit (buf_header enc) = 0"
    and fits: "off + sz \<le> length data"
  shows "\<exists>h pl pkts. pkts = fu_packets ((buf_header enc)\<lparr>h_seq_number := seq_number enc\<rparr>) type nri
             (bit (buf_payload enc ! 1) 7) (take sz (drop off data)) \<and> length pl = 1416 \<and>
           fu_a_loop cb data type nri enc off sz =
             Some (enc\<lparr>seq_number := seq_number enc + of_nat (length pkts), buf_header := h,
                      buf_payload := pl\<rparr>, pkts)"
  using wf m fits
proof (induction sz arbitrary: enc off rule: less_induct)
  case (less sz)
  from less.prems(1) obtain a b r where pl: "buf_payload enc = a # b # r" and r: "length r = 1414"
    by (cases "buf_payload enc"; cases "tl (buf_payload enc)") (auto simp: wf_encoder_def)
  have cblen: "length (cb p q) = length q" for p q
    using cb by (simp add: wf_cb_def)
  define d where "d = take sz (drop off data)"
  have dl: "length d = sz" using less.prems(3) by (simp add: d_def)
  let ?h = "(buf_header enc)\<lparr>h_seq_number := seq_number enc\<rparr>"
  consider "sz = 0" | "0 < sz" "sz \<le> 1286" | "1286 < sz" by linarith
  then show ?case
  proof cases
    case 1
    then show ?thesis using less.prems(1)
      by (auto simp: fu_a_loop.simps fu_packets.simps wf_encoder_def intro!: exI [of _ "buf_header enc"])
  next
    case 2
    let ?out = "fu_packet ?h type nri (bit b 7) True d"
    have "fu_a_loop cb data type nri enc off sz =
        Some (enc\<lparr>seq_number := seq_number enc + 1, buf_header := ?h\<lparr>markerbit := 1\<rparr>,
                 buf_payload := cb ?out ([fu_indicator_byte nri, fu_header_byte (bit b 7) True type] @ d @ drop sz r)\<rparr>, [?out])"
      using 2 less.prems(3) r pl dl
      by (subst fu_a_loop.simps)
        (simp add: mem_get_def set_header_def write_payload_def emit_def mem_read_def mem_write_def Let_def
          fu_indicator_set fu_header_byte_last fu_packet_def RTP_HEADER_SIZE_def d_def)
    moreover have "fu_packets ?h type nri (bit b 7) d = [?out]"
      using 2 dl by (subst fu_packets.simps) auto
    ultimately show ?thesis
      using 2 dl r pl by (intro exI [of _ "?h\<lparr>markerbit := 1\<rparr>"] exI) (auto simp: d_def cblen)
  next
    case 3
    let ?out = "fu_packet ?h type nri (bit b 7) False (take 1286 d)"
    define pl1 where "pl1 = cb ?out ([fu_indicator_byte nri, fu_header_byte (bit b 7) False type] @ take 1286 d @ drop 1286 r)"
    have pl1: "length pl1 = 1416" using r dl 3 by (simp add: pl1_def cblen)
    define enc1 where "enc1 = enc\<lparr>buf_header := ?h, seq_number := seq_number enc + 1,
        buf_payload := take 1 pl1 @ [fu_set_s 0 (pl1 ! 1)] @ drop (Suc (Suc 0)) pl1\<rparr>"
    have wf1: "wf_encoder enc1" using pl1 by (simp add: wf_encoder_def enc1_def)
    have "markerbit (buf_header enc1) = 0" using less.prems(2) by (simp add: enc1_def)
    moreover have "\<not> bit (buf_payload enc1 ! 1) 7"
      using pl1 by (simp add: enc1_def nth_append)
    moreover have "take (sz - 1286) (drop (off + 1286) data) = drop 1286 d"
      using 3 by (simp add: d_def drop_take add.commute)
    ultimately obtain h pl' where IH:
      "length pl' = 1416"
      "fu_a_loop cb data type nri enc1 (off + 1286) (sz - 1286) =
        Some (enc1\<lparr>seq_number := seq_number enc1 + of_nat (length (fu_packets ((buf_header enc1)\<lparr>h_seq_number := seq_number enc1\<rparr>) type nri False (drop 1286 d))),
                  buf_header := h, buf_payload := pl'\<rparr>,
          fu_packets ((buf_header enc1)\<lparr>h_seq_number := seq_number enc1\<rparr>) type nri False (drop 1286 d))"
      using less.IH [of "sz - 1286" enc1 "off + 1286"] wf1 3 less.prems(3) by auto
    have tk: "take 1286 (drop off data) = take 1286 d" and le: "off + 1286 \<le> length data"
      using 3 less.prems(3) by (simp_all add: d_def min_def)
    have hm: "(buf_header enc)\<lparr>h_seq_number := seq_number enc, markerbit := 0\<rparr> = ?h"
      using less.prems(2) by (cases "buf_header enc") simp
    have step: "fu_a_loop cb data type nri enc off sz =
        Option.bind (fu_a_loop cb data type nri enc1 (off + 1286) (sz - 1286))
          (\<lambda>(e, ps). Some (e, ?out # ps))"
      using 3 r pl pl1 dl le
      by (subst fu_a_loop.simps)
        (simp add: mem_get_def set_header_def write_payload_def emit_def mem_write_def Let_def
          mem_read_def tk hm fu_indicator_set fu_header_byte_more fu_packet_def RTP_HEADER_SIZE_def CONFIG_MTU_def
          enc1_def pl1_def cblen)
    have "fu_packets ?h type nri (bit b 7) d =
        ?out # fu_packets ((buf_header enc1)\<lparr>h_seq_number := seq_number enc1\<rparr>) type nri False (drop 1286 d)"
      using 3 dl by (subst fu_packets.simps) (auto simp: enc1_def)
    moreover have "enc1\<lparr>seq_number := n, buf_header := h, buf_payload := pl'\<rparr> =
        enc\<lparr>seq_number := n, buf_header := h, buf_payload := pl'\<rparr>" for n
      by (cases enc) (simp add: enc1_def)
    moreover have "seq_number enc1 = seq_number enc + 1" by (simp add: enc1_def)
    ultimately show ?thesis
      using IH step pl by (intro exI [of _ h] exI [of _ pl']) (simp add: d_def algebra_simps)
  qed
qed

section \<open>Receiving fragments\<close>

lemma length_fu_packet [simp]: "length (fu_packet h type nri s e chunk) = 14 + length chunk"
  by (simp add: fu_packet_def)

lemma fu_packet_reads [simp]:
  "fu_packet h type nri s e chunk ! 12 = fu_indicator_byte nri"
  "fu_packet h type nri s e chunk ! 13 = fu_header_byte s e type"
  "drop 14 (fu_packet h type nri s e chunk) = chunk"
  by (simp_all add: fu_packet_def nth_append)

lemma rtp_header_of_fu_packet [simp]:
  "rtp_header_of (fu_packet h type nri s e chunk) = Some (h\<lparr>markerbit := (if e then 1 else 0)\<rparr>)"
  by (simp add: fu_packet_def rtp_header_of_bytes)

lemma nalu_append_tail:
  assumes "length acc + length d \<le> 10240" and "drop src buf = d" and "length buf = src + length d"
  shows "nalu_append acc buf src (int (length d)) = Some (acc @ d)"
  using assms by (simp add: nalu_append_def CONFIG_MAX_NALU_SIZE_def mem_read_def)

text \<open>The three kinds of fragment: the first one starts a new buffer, a middle one is
  appended, the last one is appended and delivered.\<close>

lemma decode_fu_first:
  assumes "5 + length chunk \<le> 10240"
  shows "rtp_decode_h264 has_cb acc (fu_packet h type nri True e chunk) (14 + length chunk) =
     Some (0, nalu_start_4bytecode @ nal_header_byte nri type # chunk, [])"
proof -
  have "nalu_append (nalu_start_4bytecode @ [nal_header_byte nri type])
      (fu_packet h type nri True e chunk) 14 (int (length chunk)) =
      Some (nalu_start_4bytecode @ nal_header_byte nri type # chunk)"
    using nalu_append_tail [of "nalu_start_4bytecode @ [nal_header_byte nri type]" chunk 14
        "fu_packet h type nri True e chunk"] assms
    by (simp add: nalu_start_4bytecode_def)
  then show ?thesis
    by (simp add: rtp_decode_h264_def mem_get_def Let_def)
qed

lemma decode_fu_next:
  assumes "length acc + length chunk \<le> 10240" and "length acc < 10240"
  shows "rtp_decode_h264 has_cb acc (fu_packet h type nri False e chunk) (14 + length chunk) =
     (if e then Some (0, [], if has_cb then [acc @ chunk] else []) else Some (0, acc @ chunk, []))"
proof -
  have "nalu_append acc (fu_packet h type nri False e chunk) 14 (int (length chunk)) = Some (acc @ chunk)"
    using nalu_append_tail [of acc chunk 14 "fu_packet h type nri False e chunk"] assms by simp
  then show ?thesis
    using assms by (simp add: rtp_decode_h264_def mem_get_def Let_def CONFIG_MAX_NALU_SIZE_def)
qed

lemma decode_fu_rest:
  assumes "d \<noteq> []" and "length acc + length d \<le> 10240"
  shows "rtp_decode_h264_all has_cb acc (fu_packets h type nri False d) =
     Some ([], if has_cb then [acc @ d] else [])"
  using assms
proof (induction "length d" arbitrary: acc d h rule: less_induct)
  case less
  from less.prems have room: "length acc < 10240" by (cases d) auto
  show ?case
  proof (cases "length d \<le> 1286")
    case True
    with less.prems room show ?thesis
      by (subst fu_packets.simps) (simp add: decode_fu_next)
  next
    case False
    let ?h = "h\<lparr>h_seq_number := h_seq_number h + 1\<rparr>"
    have "rtp_decode_h264_all has_cb (acc @ take 1286 d) (fu_packets ?h type nri False (drop 1286 d)) =
        Some ([], if has_cb then [(acc @ take 1286 d) @ drop 1286 d] else [])"
      using False less.prems by (intro less.hyps) auto
    moreover have "rtp_decode_h264 has_cb acc (fu_packet h type nri False False (take 1286 d)) 1300 =
        Some (0, acc @ take 1286 d, [])"
      using decode_fu_next [of acc "take 1286 d" has_cb h type nri False] False less.prems by simp
    ultimately show ?thesis
      using False less.prems by (subst fu_packets.simps) simp
  qed
qed

lemma decode_fu_packets:
  assumes "1286 < length d" and "5 + length d \<le> 10240"
  shows "rtp_decode_h264_all has_cb acc (fu_packets h type nri True d) =
     Some ([], if has_cb
       then [nalu_start_4bytecode @ nal_header_byte nri type # d] else [])"
proof -
  let ?b = "nal_header_byte nri type"
  let ?h = "h\<lparr>h_seq_number := h_seq_number h + 1\<rparr>"
  have "rtp_decode_h264 has_cb acc (fu_packet h type nri True False (take 1286 d)) 1300 =
      Some (0, nalu_start_4bytecode @ ?b # take 1286 d, [])"
    using decode_fu_first [of "take 1286 d" has_cb acc h type nri False] assms by simp
  moreover have "rtp_decode_h264_all has_cb (nalu_start_4bytecode @ ?b # take 1286 d)
      (fu_packets ?h type nri False (drop 1286 d)) =
      Some ([], if has_cb then [(nalu_start_4bytecode @ ?b # take 1286 d) @ drop 1286 d] else [])"
    using assms by (intro decode_fu_rest) (auto simp: nalu_start_4bytecode_def)
  ultimately show ?thesis
    using assms by (subst fu_packets.simps) auto
qed

lemma fu_packets_stream:
  "version h = 2 \<Longrightarrow> rtp_stream (h_seq_number h) (h_type h) (h_ssrc h) (fu_packets h type nri s d)"
proof (induction h type nri s d rule: fu_packets.induct)
  case (1 h type nri s d)
  then show ?case by (subst fu_packets.simps) auto
qed

lemma fu_packets_le_mtu: "p \<in> set (fu_packets h type nri s d) \<Longrightarrow> length p \<le> 1300"
proof (induction h type nri s d rule: fu_packets.induct)
  case (1 h type nri s d)
  then show ?case by (subst (asm) fu_packets.simps) (auto split: if_splits)
qed


section \<open>NAL units in both directions\<close>

text \<open>A NAL unit the receiver can rebuild: a type a single packet may carry (1-23), the
  forbidden bit clear, and room for it behind a start code in the receive buffer.\<close>

definition good_nal :: "bytes \<Rightarrow> bool" where
  "good_nal nal \<longleftrightarrow> nal \<noteq> [] \<and> 0 < hd nal AND 0x1f \<and> hd nal AND 0x1f < 24 \<and>
     \<not> bit (hd nal) 7 \<and> 4 + length nal \<le> CONFIG_MAX_NALU_SIZE"

lemma single_eq:
  assumes "wf_cb cb" and "wf_encoder enc" and "nal \<noteq> []" and "length nal \<le> 1288"
  shows "\<exists>enc' m. rtp_encoder_encode_h264_single cb enc nal 0 (length nal) =
      Some (enc', [rtp_header_bytes (stamp_header enc m) @ nal]) \<and>
    sent_ok enc enc' [rtp_header_bytes (stamp_header enc m) @ nal]"
proof -
  let ?key = "nal ! 0 AND 0x1f = 0x05 \<or> nal ! 0 AND 0x1f = 0x01"
  let ?m = "if ?key then 1 else 0"
  let ?enc = "enc\<lparr>seq_number := seq_number enc + 1,
      timestamp := (if ?key then timestamp enc + timestamp_increment enc else timestamp enc),
      buf_header := stamp_header enc ?m,
      buf_payload := cb (rtp_header_bytes (stamp_header enc ?m) @ nal) (nal @ drop (length nal) (buf_payload enc))\<rparr>"
  have "rtp_encoder_encode_h264_single cb enc nal 0 (length nal) =
      Some (?enc, [rtp_header_bytes (stamp_header enc ?m) @ nal])"
    using assms by (simp add: rtp_encoder_encode_h264_single_def mem_get_def mem_read_def set_header_def
        write_payload_def emit_def mem_write_def wf_encoder_def RTP_HEADER_SIZE_def Let_def)
  moreover have "sent_ok enc ?enc [rtp_header_bytes (stamp_header enc ?m) @ nal]"
    using assms by (simp add: sent_ok_def same_stream_def wf_encoder_def wf_cb_def rtp_header_of_bytes CONFIG_MTU_def)
  ultimately show ?thesis by blast
qed

lemma fu_a_eq:
  assumes "wf_cb cb" and "wf_encoder enc" and "1288 < length nal"
  shows "\<exists>enc' h pkts. rtp_encoder_encode_h264_fu_a cb enc nal 0 (length nal) = Some (enc', pkts) \<and>
    pkts = fu_packets h (hd nal AND 0x1f) (drop_bit 5 (hd nal AND 0x60)) True (tl nal) \<and>
    sent_ok enc enc' pkts"
proof -
  let ?type = "hd nal AND 0x1f" and ?nri = "drop_bit 5 (hd nal AND 0x60)"
  define enc1 where "enc1 = (set_header (stamp_header enc 0) enc)
     \<lparr>timestamp := (if ?type = 5 \<or> ?type = 1 then timestamp enc + timestamp_increment enc else timestamp enc),
      buf_payload := take 1 (buf_payload enc) @ [fu_set_s 1 (buf_payload enc ! 1)] @ drop 2 (buf_payload enc)\<rparr>"
  have "nal \<noteq> []" using assms(3) by auto
  then have nal: "nal \<noteq> []" "hd nal = nal ! 0" by (simp_all add: hd_conv_nth)
  have w: "wf_encoder enc1" using assms(2) by (simp add: enc1_def wf_encoder_def)
  have s: "bit (buf_payload enc1 ! 1) 7"
    using assms(2) by (simp add: enc1_def wf_encoder_def nth_append)
  have m: "markerbit (buf_header enc1) = 0" by (simp add: enc1_def set_header_def)
  have h0: "(buf_header enc1)\<lparr>h_seq_number := seq_number enc1\<rparr> = stamp_header enc 0"
    by (simp add: enc1_def set_header_def)
  have le: "0 + 1 + (length nal - 1) \<le> length nal" using assms(3) by simp
  have tl: "take (length nal - 1) (drop (0 + 1) nal) = tl nal"
    by (simp add: drop_Suc)
  obtain h pl pkts where r: "pkts = fu_packets (stamp_header enc 0) ?type ?nri True (tl nal)"
    "length pl = 1416"
    "fu_a_loop cb nal ?type ?nri enc1 (0 + 1) (length nal - 1) =
       Some (enc1\<lparr>seq_number := seq_number enc1 + of_nat (length pkts), buf_header := h, buf_payload := pl\<rparr>, pkts)"
    using fu_a_loop_eq [OF assms(1) w m le, of ?type ?nri] s h0 unfolding tl by auto
  have "rtp_encoder_encode_h264_fu_a cb enc nal 0 (length nal) =
      fu_a_loop cb nal ?type ?nri enc1 (0 + 1) (length nal - 1)"
    using assms nal
    by (simp add: rtp_encoder_encode_h264_fu_a_def mem_get_def write_payload_def mem_write_def
        wf_encoder_def enc1_def set_header_def Let_def numeral_2_eq_2)
  moreover have "sent_ok enc (enc1\<lparr>seq_number := seq_number enc1 + of_nat (length pkts), buf_header := h, buf_payload := pl\<rparr>) pkts"
    using r(1,2) fu_packets_stream [of "stamp_header enc 0"] fu_packets_le_mtu
    by (auto simp: sent_ok_def same_stream_def wf_encoder_def enc1_def set_header_def CONFIG_MTU_def)
  ultimately show ?thesis using r by metis
qed

lemma h264_send_nalu_roundtrip:
  assumes "wf_cb cb" and "wf_encoder enc" and "good_nal nal"
  shows "\<exists>enc' pkts acc'. h264_send_nalu cb enc nal 0 (length nal) = Some (enc', pkts) \<and>
    sent_ok enc enc' pkts \<and>
    rtp_decode_h264_all True acc pkts = Some (acc', [nalu_start_4bytecode @ nal])"
proof (cases "length nal \<le> 1288")
  case True
  have g: "nal \<noteq> []" "0 < nal ! 0 AND 0x1f" "nal ! 0 AND 0x1f < 24" "4 + length nal \<le> 10240"
    using assms(3) by (auto simp: good_nal_def hd_conv_nth CONFIG_MAX_NALU_SIZE_def)
  obtain enc' m where e: "rtp_encoder_encode_h264_single cb enc nal 0 (length nal) =
      Some (enc', [rtp_header_bytes (stamp_header enc m) @ nal])"
    "sent_ok enc enc' [rtp_header_bytes (stamp_header enc m) @ nal]"
    using single_eq [OF assms(1,2)] g True by blast
  have "nalu_append nalu_start_4bytecode (rtp_header_bytes (stamp_header enc m) @ nal) 12 (int (length nal)) =
      Some (nalu_start_4bytecode @ nal)"
    using g by (intro nalu_append_tail) (auto simp: nalu_start_4bytecode_def)
  then have "rtp_decode_h264_all True acc [rtp_header_bytes (stamp_header enc m) @ nal] =
      Some (nalu_start_4bytecode @ nal, [nalu_start_4bytecode @ nal])"
    using g by (simp add: rtp_decode_h264_def mem_get_def nth_append Let_def)
  with e True show ?thesis by (auto simp: h264_send_nalu_def)
next
  case False
  obtain enc' h pkts where e: "rtp_encoder_encode_h264_fu_a cb enc nal 0 (length nal) = Some (enc', pkts)"
    "pkts = fu_packets h (hd nal AND 0x1f) (drop_bit 5 (hd nal AND 0x60)) True (tl nal)"
    "sent_ok enc enc' pkts"
    using fu_a_eq [OF assms(1,2), of nal] False by auto
  have ne: "nal \<noteq> []" using False by auto
  have "nal_header_byte (drop_bit 5 (hd nal AND 0x60)) (hd nal AND 0x1f) # tl nal = nal"
    using nal_header_byte_split [of "hd nal"] assms(3) by (simp add: good_nal_def del: drop_bit_and)
  then have "rtp_decode_h264_all True acc pkts = Some ([], [nalu_start_4bytecode @ nal])"
    using decode_fu_packets [of "tl nal" True acc h "hd nal AND 0x1f" "drop_bit 5 (hd nal AND 0x60)"]
      False assms(3) e(2) ne
    by (simp add: good_nal_def CONFIG_MAX_NALU_SIZE_def)
  with e False show ?thesis by (auto simp: h264_send_nalu_def)
qed

section \<open>Splitting an Annex B stream\<close>

text \<open>NAL units, each behind a start code of at least two zero bytes and a one. A NAL unit
  never contains a start code and never ends in a zero byte.\<close>

fun annexb :: "(nat \<times> bytes) list \<Rightarrow> bytes" where
  "annexb [] = []"
| "annexb ((k, nal) # ns) = replicate k 0 @ 1 # nal @ annexb ns"

definition start_code_at :: "bytes \<Rightarrow> nat \<Rightarrow> bool" where
  "start_code_at data j \<longleftrightarrow> data ! (j - 2) = 0 \<and> data ! (j - 1) = 0 \<and> data ! j = 1"

definition escaped_nal :: "bytes \<Rightarrow> bool" where
  "escaped_nal nal \<longleftrightarrow> nal \<noteq> [] \<and> last nal \<noteq> 0 \<and>
     list_all (\<lambda>j. \<not> start_code_at nal j) [2..<length nal]"

fun h264_send_all :: "rtp_cb \<Rightarrow> RtpEncoder \<Rightarrow> bytes list \<Rightarrow> (RtpEncoder \<times> bytes list) option" where
  "h264_send_all cb enc [] = Some (enc, [])"
| "h264_send_all cb enc (nal # nals) = do {
     (enc, pkts) \<leftarrow> h264_send_nalu cb enc nal 0 (length nal);
     (enc, more) \<leftarrow> h264_send_all cb enc nals;
     Some (enc, pkts @ more)
   }"

lemma h264_find_from_hit:
  assumes "p \<le> q" and "q < length data" and "start_code_at data q"
    and "\<And>j. p \<le> j \<Longrightarrow> j < q \<Longrightarrow> \<not> start_code_at data j"
  shows "h264_find_from data p = q + 1"
  using assms
proof (induction "q - p" arbitrary: p)
  case 0
  then show ?case by (subst h264_find_from.simps) (auto simp: start_code_at_def)
next
  case (Suc n)
  then have "h264_find_from data (p + 1) = q + 1" by (intro Suc.hyps) auto
  with Suc.prems Suc.hyps(2) show ?case
    by (subst h264_find_from.simps) (auto simp: start_code_at_def)
qed

lemma h264_find_from_miss:
  assumes "\<And>j. p \<le> j \<Longrightarrow> j < length data \<Longrightarrow> \<not> start_code_at data j"
  shows "h264_find_from data p = length data"
  using assms
proof (induction "length data - p" arbitrary: p)
  case 0
  then show ?case by (subst h264_find_from.simps) auto
next
  case (Suc n)
  then have "h264_find_from data (p + 1) = length data" by (intro Suc.hyps) auto
  with Suc.prems Suc.hyps(2) show ?case
    by (subst h264_find_from.simps) (auto simp: start_code_at_def)
qed

lemma escaped_nal_inside:
  assumes "escaped_nal nal" and "length pre + 2 \<le> j" and "j < length pre + length nal"
  shows "\<not> start_code_at (pre @ nal @ post) j"
proof -
  from assms(2) obtain m where m: "j = length pre + Suc (Suc m)"
    using less_eqE [of "length pre + 2" j] by (metis add.assoc add_2_eq_Suc)
  then have "Suc (Suc m) \<in> {2..<length nal}" using assms(3) by auto
  then have "\<not> start_code_at nal (Suc (Suc m))"
    using assms(1) by (auto simp: escaped_nal_def list_all_iff)
  then show ?thesis
    using assms(3) m by (simp add: start_code_at_def nth_append)
qed

lemma start_code_at_end:
  assumes "2 \<le> k"
  shows "start_code_at (pre @ replicate k 0 @ 1 # post) (length pre + k)"
proof -
  have "length pre + k - 2 = length pre + (k - 2)" "length pre + k - 1 = length pre + (k - 1)"
    using assms by auto
  then show ?thesis
    using assms unfolding start_code_at_def by (simp only: nth_append_length_plus) (simp add: nth_append)
qed

lemma h264_find_next:
  assumes "escaped_nal nal" and "2 \<le> k"
  shows "h264_find_nalu (pre @ nal @ replicate k 0 @ 1 # post) (length pre) =
     length pre + length nal + k + 1"
  unfolding h264_find_nalu_def
proof (rule h264_find_from_hit [of _ "length pre + length nal + k"])
  let ?data = "pre @ nal @ replicate k 0 @ 1 # post"
  show "length pre + 2 \<le> length pre + length nal + k" using assms by simp
  show "start_code_at ?data (length pre + length nal + k)"
    using start_code_at_end [OF assms(2), of "pre @ nal" post] by simp
  fix j assume j: "length pre + 2 \<le> j" "j < length pre + length nal + k"
  show "\<not> start_code_at ?data j"
  proof (cases "j < length pre + length nal")
    case True
    with assms j show ?thesis by (intro escaped_nal_inside)
  next
    case False
    then obtain i where "j = length (pre @ nal) + i" "i < k"
      using j by (metis length_append less_eqE nat_add_left_cancel_less not_less)
    then have "?data ! j = 0"
      using nth_append_length_plus [of "pre @ nal" "replicate k 0 @ 1 # post" i] by (simp add: nth_append)
    then show ?thesis by (simp add: start_code_at_def)
  qed
qed simp_all

lemma h264_find_end:
  assumes "escaped_nal nal"
  shows "h264_find_nalu (pre @ nal) (length pre) = length pre + length nal"
  unfolding h264_find_nalu_def
  using h264_find_from_miss [of "length pre + 2" "pre @ nal"]
    escaped_nal_inside [OF assms, of pre _ "[]"] by simp

lemma h264_find_first:
  assumes "2 \<le> k"
  shows "h264_find_nalu (replicate k 0 @ 1 # post) 0 = k + 1"
  unfolding h264_find_nalu_def using assms
  by (intro h264_find_from_hit) (auto simp: start_code_at_def nth_append)

lemma trim_trailing_zeros_run:
  assumes "nal \<noteq> []" and "last nal \<noteq> 0"
  shows "trim_trailing_zeros (pre @ nal @ replicate k 0 @ post) (length pre) (length nal + k) = Some (length nal)"
proof (induction k arbitrary: post)
  case 0
  obtain n where n: "length nal = Suc n" using assms(1) by (cases nal) auto
  then have "nal ! n \<noteq> 0" using assms by (simp add: last_conv_nth)
  with n show ?case by (simp add: mem_get_def nth_append)
next
  case (Suc k)
  have "replicate (Suc k) (0 :: u8) @ post = replicate k 0 @ (0 # post)"
    by (simp add: replicate_app_Cons_same)
  then show ?case using Suc [of "0 # post"]
    by (simp add: mem_get_def nth_append)
qed


lemma fu_a_loop_cong:
  assumes "off1 + sz \<le> length d1" and "off2 + sz \<le> length d2"
    and "take sz (drop off1 d1) = take sz (drop off2 d2)"
  shows "fu_a_loop cb d1 type nri enc off1 sz = fu_a_loop cb d2 type nri enc off2 sz"
  using assms
proof (induction sz arbitrary: off1 off2 enc rule: less_induct)
  case (less sz)
  show ?case
  proof (cases "sz \<le> 1286")
    case True
    with less.prems show ?thesis
      by (subst (1 2) fu_a_loop.simps) (simp add: mem_read_def)
  next
    case False
    have rest: "fu_a_loop cb d1 type nri e (off1 + 1286) (sz - 1286) =
        fu_a_loop cb d2 type nri e (off2 + 1286) (sz - 1286)" for e
    proof (rule less.IH)
      have "take (sz - 1286) (drop (off + 1286) d) = drop 1286 (take sz (drop off d))" for off and d :: bytes
        by (simp add: drop_take add.commute)
      with less.prems(3) show "take (sz - 1286) (drop (off1 + 1286) d1) = take (sz - 1286) (drop (off2 + 1286) d2)"
        by simp
    qed (use False less.prems in auto)
    have "take 1286 (drop off1 d1) = take 1286 (drop off2 d2)"
      using arg_cong [OF less.prems(3), of "take 1286"] False by (simp add: min_def)
    with False less.prems rest show ?thesis
      by (subst (1 2) fu_a_loop.simps) (simp add: mem_read_def)
  qed
qed

lemma h264_send_nalu_shift:
  assumes "nal \<noteq> []"
  shows "h264_send_nalu cb enc (pre @ nal @ post) (length pre) (length nal) =
     h264_send_nalu cb enc nal 0 (length nal)"
proof -
  have "fu_a_loop cb (pre @ nal @ post) type nri e (length pre + 1) (length nal - 1) =
      fu_a_loop cb nal type nri e (0 + 1) (length nal - 1)" for type nri e
    using assms by (intro fu_a_loop_cong) (cases nal; simp)+
  then show ?thesis
    using assms
    by (simp add: h264_send_nalu_def rtp_encoder_encode_h264_single_def rtp_encoder_encode_h264_fu_a_def
        mem_get_def mem_read_def nth_append)
qed

lemma encode_h264_loop_annexb:
  assumes "escaped_nal nal" and "\<forall>(k, n) \<in> set ns. 2 \<le> k \<and> escaped_nal n"
  shows "encode_h264_loop cb (pre @ nal @ annexb ns) enc (length pre) =
     h264_send_all cb enc (nal # map snd ns)"
  using assms
proof (induction ns arbitrary: pre nal enc)
  case Nil
  then have "nal \<noteq> []" "last nal \<noteq> 0" by (auto simp: escaped_nal_def)
  with trim_trailing_zeros_run [of nal pre 0 "[]"] h264_find_end [OF Nil.prems(1), of pre]
  show ?case
    using h264_send_nalu_shift [of nal cb enc pre "[]"]
    by (subst encode_h264_loop.simps) (simp add: encode_h264_loop.simps Let_def)
next
  case (Cons kn ns)
  obtain k n where kn: "kn = (k, n)" by (cases kn)
  let ?data = "pre @ nal @ replicate k 0 @ 1 # n @ annexb ns"
  have k: "2 \<le> k" and n: "escaped_nal n" "n \<noteq> []" and nal: "nal \<noteq> []" "last nal \<noteq> 0"
    using Cons.prems kn by (auto simp: escaped_nal_def)
  have find: "h264_find_nalu ?data (length pre) = length pre + length nal + k + 1"
    using h264_find_next [OF Cons.prems(1) k, of pre "n @ annexb ns"] .
  have trim: "trim_trailing_zeros ?data (length pre) (length nal + k) = Some (length nal)"
    using trim_trailing_zeros_run [OF nal, of pre k "1 # n @ annexb ns"] .
  have send: "h264_send_nalu cb enc ?data (length pre) (length nal) = h264_send_nalu cb enc nal 0 (length nal)"
    using h264_send_nalu_shift [OF nal(1)] .
  have IH: "encode_h264_loop cb ?data e (Suc (length pre + length nal + k)) = h264_send_all cb e (n # map snd ns)" for e
    using Cons.IH [OF n(1), of "pre @ nal @ replicate k 0 @ [1]" e] Cons.prems(2) by (simp add: ac_simps)
  show ?case
    using nal n(2) unfolding kn
    by (subst encode_h264_loop.simps) (simp add: find trim send IH Let_def)
qed

lemma encode_h264_annexb:
  assumes "\<forall>(k, n) \<in> set ns. 2 \<le> k \<and> escaped_nal n"
  shows "rtp_encoder_encode_h264 cb enc (annexb ns) =
     map_option (\<lambda>(e, ps). (0, e, ps)) (h264_send_all cb enc (map snd ns))"
proof (cases ns)
  case Nil
  then show ?thesis
    by (simp add: rtp_encoder_encode_h264_def encode_h264_loop.simps)
next
  case (Cons kn ns')
  obtain k n where kn: "kn = (k, n)" by (cases kn)
  have "encode_h264_loop cb ((replicate k 0 @ [1]) @ n @ annexb ns') enc (length (replicate k (0::u8) @ [1])) =
      h264_send_all cb enc (n # map snd ns')"
    using assms Cons kn by (intro encode_h264_loop_annexb) auto
  moreover have "h264_find_nalu (replicate k 0 @ 1 # n @ annexb ns') 0 = k + 1"
    using assms Cons kn by (intro h264_find_first) auto
  ultimately show ?thesis
    using Cons kn
    by (cases "h264_send_all cb enc (n # map snd ns')")
      (auto simp: rtp_encoder_encode_h264_def simp del: h264_send_all.simps)
qed

lemma rtp_decode_h264_all_append:
  "rtp_decode_h264_all has_cb acc (ps @ qs) = do {
     (acc, out) \<leftarrow> rtp_decode_h264_all has_cb acc ps;
     (acc, more) \<leftarrow> rtp_decode_h264_all has_cb acc qs;
     Some (acc, out @ more)
   }"
  by (induction ps arbitrary: acc) (auto split: option.splits prod.splits Option.bind_splits)

lemma h264_send_all_roundtrip:
  assumes "wf_cb cb" and "wf_encoder enc" and "\<forall>n \<in> set nals. good_nal n"
  shows "\<exists>enc' pkts acc'. h264_send_all cb enc nals = Some (enc', pkts) \<and> sent_ok enc enc' pkts \<and>
    rtp_decode_h264_all True acc pkts = Some (acc', map (\<lambda>n. nalu_start_4bytecode @ n) nals)"
  using assms(2,3)
proof (induction nals arbitrary: enc acc)
  case Nil
  then show ?case by (auto simp: sent_ok_def same_stream_def)
next
  case (Cons n nals)
  obtain enc1 ps acc1 where 1: "h264_send_nalu cb enc n 0 (length n) = Some (enc1, ps)"
    "sent_ok enc enc1 ps" "rtp_decode_h264_all True acc ps = Some (acc1, [nalu_start_4bytecode @ n])"
    using h264_send_nalu_roundtrip [OF assms(1) Cons.prems(1), of n acc] Cons.prems(2) by auto
  obtain enc2 qs acc2 where 2: "h264_send_all cb enc1 nals = Some (enc2, qs)" "sent_ok enc1 enc2 qs"
    "rtp_decode_h264_all True acc1 qs = Some (acc2, map (\<lambda>n. nalu_start_4bytecode @ n) nals)"
    using Cons.IH [OF sent_ok_wf [OF 1(2)], of acc1] Cons.prems(2) by auto
  have "rtp_decode_h264_all True acc (ps @ qs) =
      Some (acc2, map (\<lambda>n. nalu_start_4bytecode @ n) (n # nals))"
    using 1(3) 2(3) by (simp add: rtp_decode_h264_all_append)
  then show ?case
    using 1 2 by (auto intro: sent_ok_trans)
qed

lemma h264_send_nalu_ok:
  assumes "wf_cb cb" and "wf_encoder enc" and "nal \<noteq> []"
  shows "\<exists>enc' pkts. h264_send_nalu cb enc nal 0 (length nal) = Some (enc', pkts) \<and> sent_ok enc enc' pkts"
proof (cases "length nal \<le> 1288")
  case True
  then show ?thesis using single_eq [OF assms] by (auto simp: h264_send_nalu_def)
next
  case False
  then show ?thesis using fu_a_eq [OF assms(1,2), of nal] by (auto simp: h264_send_nalu_def)
qed

lemma h264_send_all_ok:
  assumes "wf_cb cb" and "wf_encoder enc" and "\<forall>n \<in> set nals. n \<noteq> []"
  shows "\<exists>enc' pkts. h264_send_all cb enc nals = Some (enc', pkts) \<and> sent_ok enc enc' pkts"
  using assms(2,3)
proof (induction nals arbitrary: enc)
  case Nil
  then show ?case by (auto simp: sent_ok_def same_stream_def)
next
  case (Cons n nals)
  obtain enc1 ps where 1: "h264_send_nalu cb enc n 0 (length n) = Some (enc1, ps)" "sent_ok enc enc1 ps"
    using h264_send_nalu_ok [OF assms(1) Cons.prems(1), of n] Cons.prems(2) by auto
  obtain enc2 qs where "h264_send_all cb enc1 nals = Some (enc2, qs)" "sent_ok enc1 enc2 qs"
    using Cons.IH [OF sent_ok_wf [OF 1(2)]] Cons.prems(2) by auto
  with 1 show ?case by (auto intro: sent_ok_trans)
qed

section \<open>Properties\<close>

text \<open>C4: An Annex B stream of NAL units, each behind a start code of two or more zeros and a
  one, survives the trip: the packets \<open>rtp_encoder_encode_h264\<close> emits, fed one by one to
  \<open>rtp_decode_h264\<close>, deliver exactly those NAL units, in order, each behind the four-byte
  start code. This holds for single packets and FU-A fragments alike, for any receiver state
  and whatever the packet callback (SRTP, encrypting in place) does to the payload area
  between packets.\<close>

theorem h264_annexb_roundtrip:
  assumes "wf_cb cb" and "wf_encoder enc"
    and "\<forall>(k, n) \<in> set ns. 2 \<le> k \<and> escaped_nal n \<and> good_nal n"
  shows "\<exists>enc' pkts acc'. rtp_encoder_encode_h264 cb enc (annexb ns) = Some (0, enc', pkts) \<and>
    rtp_decode_h264_all True acc pkts = Some (acc', map (\<lambda>(k, n). nalu_start_4bytecode @ n) ns)"
proof -
  have "\<forall>n \<in> set (map snd ns). good_nal n" using assms(3) by auto
  from h264_send_all_roundtrip [OF assms(1,2) this, of acc] obtain enc' pkts acc' where
    "h264_send_all cb enc (map snd ns) = Some (enc', pkts)"
    "rtp_decode_h264_all True acc pkts = Some (acc', map (\<lambda>n. nalu_start_4bytecode @ n) (map snd ns))"
    by blast
  moreover have "\<forall>(k, n) \<in> set ns. 2 \<le> k \<and> escaped_nal n" using assms(3) by auto
  ultimately show ?thesis
    by (simp add: encode_h264_annexb split_def comp_def)
qed

lemma good_nal_replicate: "m < 10232 \<Longrightarrow> good_nal (0x65 # replicate m 7)"
  by (simp add: good_nal_def CONFIG_MAX_NALU_SIZE_def bit_numeral_rec)

lemma escaped_nal_replicate: "escaped_nal (0x65 # replicate m 7)"
proof -
  have "\<not> start_code_at (0x65 # replicate m 7) j" if "j < Suc m" for j
    using that by (cases j) (simp_all add: start_code_at_def)
  then show ?thesis by (auto simp: escaped_nal_def list_all_iff)
qed

theorem h264_annexb_roundtrip_witness:
  "\<exists>enc' pkts acc'.
     rtp_encoder_encode_h264 (\<lambda>pkt pl. map NOT pl) (example_encoder PT_H264 EncodeH264)
       (annexb [(3, 0x65 # replicate 3000 7), (2, [0x65, 7])]) = Some (0, enc', pkts) \<and>
     rtp_decode_h264_all True [9] pkts =
       Some (acc', [nalu_start_4bytecode @ 0x65 # replicate 3000 7, nalu_start_4bytecode @ [0x65, 7]])"
  using h264_annexb_roundtrip [of "\<lambda>pkt pl. map NOT pl" "example_encoder PT_H264 EncodeH264"
      "[(3, 0x65 # replicate 3000 7), (2, [0x65, 7])]" "[9]"]
    good_nal_replicate [of 3000] good_nal_replicate [of 1]
    escaped_nal_replicate [of 3000] escaped_nal_replicate [of 1]
  by simp

text \<open>C21: Sending any Annex B stream of escaped NAL units succeeds, keeps the encoder's payload
  type, SSRC and clock step, and hands out packets of at most \<open>CONFIG_MTU\<close> bytes whose
  sequence numbers are consecutive, from the encoder's number before the call to its number
  after it, wrapping at 16 bits.\<close>

theorem h264_packets_in_sequence:
  assumes "wf_cb cb" and "wf_encoder enc" and "\<forall>(k, n) \<in> set ns. 2 \<le> k \<and> escaped_nal n"
  shows "\<exists>enc' pkts. rtp_encoder_encode_h264 cb enc (annexb ns) = Some (0, enc', pkts) \<and>
    sent_ok enc enc' pkts"
proof -
  have "\<forall>n \<in> set (map snd ns). n \<noteq> []" using assms(3) by (auto simp: escaped_nal_def)
  from h264_send_all_ok [OF assms(1,2) this] show ?thesis
    by (auto simp: encode_h264_annexb [OF assms(3)])
qed

theorem h264_packets_in_sequence_witness:
  "\<exists>enc' pkts.
     rtp_encoder_encode_h264 (\<lambda>pkt pl. map NOT pl) (example_encoder PT_H264 EncodeH264)
       (annexb [(3, 0x65 # replicate 3000 7)]) = Some (0, enc', pkts) \<and>
     sent_ok (example_encoder PT_H264 EncodeH264) enc' pkts"
  using escaped_nal_replicate [of 3000]
  by (intro h264_packets_in_sequence) simp_all

interpretation h264_rtp: rtp_packetizer rtp_encoder_encode_h264
  "\<lambda>f. \<exists>ns. f = annexb ns \<and> (\<forall>(k, n) \<in> set ns. 2 \<le> k \<and> escaped_nal n)"
proof unfold_locales
  fix cb enc f
  assume cb: "wf_cb cb" and e: "wf_encoder enc"
    and "\<exists>ns. f = annexb ns \<and> (\<forall>(k, n) \<in> set ns. 2 \<le> k \<and> escaped_nal n)"
  then obtain ns where ns: "f = annexb ns" "\<forall>(k, n) \<in> set ns. 2 \<le> k \<and> escaped_nal n" by blast
  have "\<forall>n \<in> set (map snd ns). n \<noteq> []" using ns(2) by (auto simp: escaped_nal_def)
  from h264_send_all_ok [OF cb e this] show "\<exists>r enc' pkts. rtp_encoder_encode_h264 cb enc f = Some (r, enc', pkts) \<and> sent_ok enc enc' pkts"
    by (auto simp: ns(1) encode_h264_annexb [OF ns(2)])
qed

interpretation h264_channel: media_channel rtp_encoder_encode_h264 "rtp_decode_h264_all True" annexb
  "\<lambda>ns. \<forall>(k, n) \<in> set ns. 2 \<le> k \<and> escaped_nal n \<and> good_nal n"
  "map (\<lambda>(k, n). nalu_start_4bytecode @ n)" "\<lambda>_ _ _. True" "\<lambda>_ _. True"
proof unfold_locales
  fix cb enc and ns :: "(nat \<times> bytes) list" and acc
  assume cb: "wf_cb cb" and e: "wf_encoder enc" and ns: "\<forall>(k, n) \<in> set ns. 2 \<le> k \<and> escaped_nal n \<and> good_nal n"
  have g: "\<forall>n \<in> set (map snd ns). good_nal n" and x: "\<forall>(k, n) \<in> set ns. 2 \<le> k \<and> escaped_nal n" using ns by auto
  from h264_send_all_roundtrip [OF cb e g, of acc] obtain enc' pkts acc' where r:
    "h264_send_all cb enc (map snd ns) = Some (enc', pkts)"
    "rtp_decode_h264_all True acc pkts = Some (acc', map (\<lambda>n. nalu_start_4bytecode @ n) (map snd ns))" by blast
  have "\<forall>n \<in> set (map snd ns). n \<noteq> []" using g by (auto simp: good_nal_def)
  from h264_send_all_ok [OF cb e this] r have "wf_encoder enc'" by (auto intro: sent_ok_wf)
  with r show "\<exists>y enc' ps r'. rtp_encoder_encode_h264 cb enc (annexb ns) = Some (y, enc', ps) \<and> wf_encoder enc' \<and>
      rtp_decode_h264_all True acc ps = Some (r', map (\<lambda>(k, n). nalu_start_4bytecode @ n) ns) \<and> True"
    by (simp add: encode_h264_annexb [OF x] split_def comp_def)
qed (auto simp: rtp_decode_h264_all_append)

text \<open>A packet on the H.264 path whose first payload byte is not a single-NAL type and that
  carries fewer than two payload bytes drives \<open>payload_size\<close> negative; the copy that
  follows leaves the buffers.\<close>

theorem rtp_decode_h264_short_fragment:
  assumes "14 \<le> length buf" and "sz < 14" and "\<not> (0 < buf ! 12 AND 0x1f \<and> buf ! 12 AND 0x1f < 24)"
    and "length acc < CONFIG_MAX_NALU_SIZE"
  shows "rtp_decode_h264 has_cb acc buf sz = None"
  using assms by (auto simp: rtp_decode_h264_def mem_get_def nalu_append_def Let_def)

theorem rtp_decode_h264_short_fragment_witness:
  "rtp_decode_h264 True [] (rtp_header_bytes (stamp_header (example_encoder PT_H264 EncodeH264) 0) @ replicate 2036 0) 12 = None"
  by (rule rtp_decode_h264_short_fragment) (simp_all add: nth_append CONFIG_MAX_NALU_SIZE_def)

text \<open>C22: The reassembly buffer is only checked for being full already: a continuation fragment
  that does not fit behind the bytes collected so far is copied past its end.\<close>

theorem rtp_decode_h264_overrun:
  assumes "14 \<le> sz" and "sz \<le> length buf" and "\<not> (0 < buf ! 12 AND 0x1f \<and> buf ! 12 AND 0x1f < 24)"
    and "\<not> bit (buf ! 13) 7" and "length acc < CONFIG_MAX_NALU_SIZE"
    and "CONFIG_MAX_NALU_SIZE < length acc + (sz - 14)"
  shows "rtp_decode_h264 has_cb acc buf sz = None"
proof -
  have "length acc + nat (int sz - 14) = length acc + (sz - 14)" using assms(1) by simp
  with assms show ?thesis
    by (auto simp: rtp_decode_h264_def mem_get_def nalu_append_def Let_def)
qed

theorem rtp_decode_h264_overrun_witness:
  "rtp_decode_h264 True (replicate 10000 0)
     (fu_packet (stamp_header (example_encoder PT_H264 EncodeH264) 0) 5 3 False False (replicate 1286 0)) 1300 = None"
  by (rule rtp_decode_h264_overrun) (simp_all add: CONFIG_MAX_NALU_SIZE_def)

end
