(* ===== verification/Rtp_Av1.thy ===== *)
theory Rtp_Av1
  imports Rtp
begin

text \<open>
  AV1 over RTP (\<^verbatim>\<open>src/src/rtp.c\<close>): the LEB128 length coding, the split of a temporal unit
  into OBU elements, their aggregation into packets, and the depacketizer that restores
  the temporal unit.

  \<^item> \<^verbatim>\<open>size_t\<close> has 64 bits; a LEB128 value read here has at most 56, so the sums the code
    forms do not wrap (\<open>av1_leb128_read_bound\<close>).
  \<^item> \<open>Av1Depacketizer\<close> keeps \<open>buf[0..tu_len)\<close> as \<open>tu\<close> and \<open>buf[tu_len..tu_len+obu_len)\<close>
    as \<open>obu\<close>; nothing behind these is ever read. Its capacity checks are the code's.
\<close>

section \<open>LEB128\<close>

fun av1_leb128_size :: "nat \<Rightarrow> nat" where
  "av1_leb128_size v = (if 0x80 \<le> v then Suc (av1_leb128_size (v div 128)) else 1)"

fun av1_leb128_write :: "nat \<Rightarrow> bytes" where
  "av1_leb128_write v =
     (if v div 128 = 0 then [of_nat (v mod 128)]
      else (of_nat (v mod 128) OR 0x80) # av1_leb128_write (v div 128))"

declare av1_leb128_size.simps [simp del] av1_leb128_write.simps [simp del]

fun av1_leb128_read_from :: "nat \<Rightarrow> nat \<Rightarrow> bytes \<Rightarrow> (nat \<times> nat) option" where
  "av1_leb128_read_from i v [] = None"
| "av1_leb128_read_from i v (b # bs) =
     (if 8 \<le> i then None
      else let v = v + unat (b AND 0x7f) * 2 ^ (i * 7) in
        if \<not> bit b 7 then Some (v, i + 1) else av1_leb128_read_from (i + 1) v bs)"

text \<open>The value and the number of bytes it took; \<^const>\<open>None\<close> is the return code -1. The
  groups of seven bits do not overlap, so the C \<open>|=\<close> is an addition.\<close>

definition av1_leb128_read :: "bytes \<Rightarrow> (nat \<times> nat) option" where
  "av1_leb128_read buf = av1_leb128_read_from 0 0 buf"

lemma av1_leb128_read_from_pos:
  "av1_leb128_read_from i v bs = Some (w, n) \<Longrightarrow> i < n \<and> n \<le> i + length bs"
  by (induction i v bs rule: av1_leb128_read_from.induct) (force simp: Let_def split: if_splits)+

lemma av1_leb128_read_pos: "av1_leb128_read bs = Some (w, n) \<Longrightarrow> 0 < n \<and> n \<le> length bs"
  using av1_leb128_read_from_pos by (fastforce simp: av1_leb128_read_def)

section \<open>OBU elements\<close>

definition OBU_HDR_TYPE :: "u8 \<Rightarrow> u8" where "OBU_HDR_TYPE h = drop_bit 3 h AND 0x0f"
definition OBU_HDR_HAS_EXTENSION :: "u8 \<Rightarrow> bool" where "OBU_HDR_HAS_EXTENSION h = bit h 2"
definition OBU_HDR_HAS_SIZE_FIELD :: "u8 \<Rightarrow> bool" where "OBU_HDR_HAS_SIZE_FIELD h = bit h 1"

definition OBU_TYPE_SEQUENCE_HEADER :: u8 where "OBU_TYPE_SEQUENCE_HEADER = 1"
definition OBU_TYPE_TEMPORAL_DELIMITER :: u8 where "OBU_TYPE_TEMPORAL_DELIMITER = 2"
definition OBU_TYPE_TILE_LIST :: u8 where "OBU_TYPE_TILE_LIST = 8"
definition OBU_TYPE_PADDING :: u8 where "OBU_TYPE_PADDING = 15"

definition AV1_MAX_OBU_PER_TU :: nat where "AV1_MAX_OBU_PER_TU = 32"
definition AV1_AGGR_HEADER_SIZE :: nat where "AV1_AGGR_HEADER_SIZE = 1"
definition AV1_PAYLOAD_SIZE :: nat where
  "AV1_PAYLOAD_SIZE = CONFIG_MTU - RTP_HEADER_SIZE - AV1_AGGR_HEADER_SIZE"

lemma av1_payload_size [simp]: "AV1_PAYLOAD_SIZE = 1287"
  by (simp add: AV1_PAYLOAD_SIZE_def CONFIG_MTU_def RTP_HEADER_SIZE_def AV1_AGGR_HEADER_SIZE_def)

record Av1ObuElement =
  el_hdr :: bytes       \<comment> \<open>the two header bytes, size flag cleared\<close>
  el_hdr_size :: nat
  el_payload :: bytes   \<comment> \<open>\<open>payload[0..payload_size)\<close>\<close>

definition el_len :: "Av1ObuElement \<Rightarrow> nat" where
  "el_len e = el_hdr_size e + length (el_payload e)"

text \<open>The header part is copied byte by byte, the rest with one \<^verbatim>\<open>memcpy\<close>.\<close>

function copy_header :: "Av1ObuElement \<Rightarrow> nat \<Rightarrow> nat \<Rightarrow> nat \<Rightarrow> bytes option" where
  "copy_header e offset n copied =
     (if copied < n \<and> offset + copied < el_hdr_size e
      then do {
        b \<leftarrow> mem_get (offset + copied) (el_hdr e);
        rest \<leftarrow> copy_header e offset n (copied + 1);
        Some (b # rest)
      }
      else Some [])"
  by pat_completeness auto
termination
  by (relation "measure (\<lambda>(e, offset, n, copied). n - copied)") auto

declare copy_header.simps [simp del]

definition av1_element_copy :: "Av1ObuElement \<Rightarrow> nat \<Rightarrow> nat \<Rightarrow> bytes option" where
  "av1_element_copy e offset n = do {
     front \<leftarrow> copy_header e offset n 0;
     (if length front < n
      then do {
        back \<leftarrow> mem_read (offset + length front - el_hdr_size e) (n - length front) (el_payload e);
        Some (front @ back)
      }
      else Some front)
   }"

section \<open>Splitting a temporal unit\<close>

text \<open>The rest of the temporal unit, the number of elements stored so far and the flag are the
  loop variables. \<^const>\<open>None\<close> is the return code -1; the elements come out in order, with
  the flag.\<close>

function parse_obus :: "nat \<Rightarrow> bytes \<Rightarrow> nat \<Rightarrow> bool \<Rightarrow> (Av1ObuElement list \<times> bool) option" where
  "parse_obus max_elements [] count ncvs = Some ([], ncvs)"
| "parse_obus max_elements (hdr # rest) count ncvs =
     (let hdr_size = 1 + (if OBU_HDR_HAS_EXTENSION hdr then 1 else 0);
          left = length (hdr # rest)
      in if left < hdr_size then None
         else do {
           (payload_size, len_size) \<leftarrow>
             (if OBU_HDR_HAS_SIZE_FIELD hdr then av1_leb128_read (drop hdr_size (hdr # rest))
              else Some (left - hdr_size, 0));
           let consumed = hdr_size + len_size + payload_size;
           (if left < consumed then None
            else if OBU_HDR_TYPE hdr \<in>
                {OBU_TYPE_TEMPORAL_DELIMITER, OBU_TYPE_TILE_LIST, OBU_TYPE_PADDING}
            then parse_obus max_elements (drop consumed (hdr # rest)) count ncvs
            else if max_elements \<le> count then None
            else do {
              let e = \<lparr>el_hdr = [hdr AND 0xFD, if 1 < hdr_size then rest ! 0 else 0],
                       el_hdr_size = hdr_size,
                       el_payload = take payload_size (drop (hdr_size + len_size) (hdr # rest))\<rparr>;
              (es, ncvs) \<leftarrow> parse_obus max_elements (drop consumed (hdr # rest)) (count + 1)
                (ncvs \<or> OBU_HDR_TYPE hdr = OBU_TYPE_SEQUENCE_HEADER);
              Some (e # es, ncvs)
            })
         })"
  by pat_completeness auto
termination
  by (relation "measure (\<lambda>(m, buf, count, ncvs). length buf)") (auto split: if_splits)

declare parse_obus.simps(2) [simp del]

definition av1_parse_temporal_unit :: "bytes \<Rightarrow> nat \<Rightarrow> (Av1ObuElement list \<times> bool) option" where
  "av1_parse_temporal_unit buf max_elements = parse_obus max_elements buf 0 False"

section \<open>Aggregating elements into packets\<close>

text \<open>The inner loop fills one payload. \<open>acc\<close> holds the \<open>payload_len\<close> bytes written behind
  the aggregation header; the result is what is left to send (elements and offset into the
  first), the payload and the flag Y.\<close>

primrec av1_fill ::
  "Av1ObuElement list \<Rightarrow> nat \<Rightarrow> bytes \<Rightarrow> (Av1ObuElement list \<times> nat \<times> bytes \<times> bool) option" where
  "av1_fill [] offset acc = Some ([], offset, acc, False)"
| "av1_fill (e # es) offset acc =
     (let element_len = el_len e;
          remaining = element_len - offset;
          room = AV1_PAYLOAD_SIZE - length acc
      in if room < 3 then Some (e # es, offset, acc, False)
         else do {
           let chunk = (if room < av1_leb128_size remaining + remaining then room - 2 else remaining);
           body \<leftarrow> av1_element_copy e offset chunk;
           let acc = acc @ av1_leb128_write chunk @ body;
           let offset = offset + chunk;
           (if offset < element_len then Some (e # es, offset, acc, True)
            else av1_fill es 0 acc)
         })"

definition av1_aggr_header :: "bool \<Rightarrow> bool \<Rightarrow> bool \<Rightarrow> u8" where
  "av1_aggr_header z y n =
     (if z then push_bit 7 1 else 0) OR (if y then push_bit 6 1 else 0) OR (if n then 0x08 else 0)"

text \<open>One round of the outer loop sends one packet. Every round takes at least one byte of an
  element, which bounds the rounds; the loop counts them down from the number of bytes still
  to send (\<open>enc_rounds\<close>).\<close>

definition av1_send_packet ::
  "rtp_cb \<Rightarrow> RtpEncoder \<Rightarrow> bool \<Rightarrow> bool \<Rightarrow> bool \<Rightarrow> bytes \<Rightarrow> bool \<Rightarrow> (RtpEncoder \<times> bytes) option" where
  "av1_send_packet cb enc z y n acc is_last = do {
     enc \<leftarrow> write_payload AV1_AGGR_HEADER_SIZE acc enc;
     enc \<leftarrow> write_payload 0 [av1_aggr_header z y n] enc;
     let enc = set_header (stamp_header enc (if is_last then 1 else 0)) enc;
     let enc = enc\<lparr>seq_number := seq_number enc + 1\<rparr>;
     emit cb (RTP_HEADER_SIZE + AV1_AGGR_HEADER_SIZE + length acc) enc
   }"

fun av1_packets ::
  "nat \<Rightarrow> rtp_cb \<Rightarrow> bool \<Rightarrow> RtpEncoder \<Rightarrow> Av1ObuElement list \<Rightarrow> nat \<Rightarrow> bool \<Rightarrow> bool \<Rightarrow>
   (RtpEncoder \<times> bytes list) option" where
  "av1_packets fuel cb ncvs enc [] offset z first_packet = Some (enc, [])"
| "av1_packets 0 cb ncvs enc (e # es) offset z first_packet = None"
| "av1_packets (Suc fuel) cb ncvs enc (e # es) offset z first_packet = do {
     (els, offset, acc, y) \<leftarrow> av1_fill (e # es) offset [];
     (enc, pkt) \<leftarrow> av1_send_packet cb enc z y (first_packet \<and> ncvs) acc (els = []);
     (enc, pkts) \<leftarrow> av1_packets fuel cb ncvs enc els offset (0 < offset) False;
     Some (enc, pkt # pkts)
   }"

definition enc_rounds :: "Av1ObuElement list \<Rightarrow> nat" where
  "enc_rounds els = sum_list (map el_len els)"

definition rtp_encoder_encode_av1 ::
  "rtp_cb \<Rightarrow> RtpEncoder \<Rightarrow> bytes \<Rightarrow> (int \<times> RtpEncoder \<times> bytes list) option" where
  "rtp_encoder_encode_av1 cb enc buf =
     (case av1_parse_temporal_unit buf AV1_MAX_OBU_PER_TU of
        None \<Rightarrow> Some (-1, enc, [])
      | Some (els, ncvs) \<Rightarrow>
          if els = [] then Some (0, enc, [])
          else do {
            (enc, pkts) \<leftarrow> av1_packets (enc_rounds els) cb ncvs enc els 0 False True;
            Some (0, enc\<lparr>timestamp := timestamp enc + timestamp_increment enc\<rparr>, pkts)
          })"

section \<open>The depacketizer\<close>

definition av1_temporal_delimiter :: bytes where "av1_temporal_delimiter = [0x12, 0x00]"

record Av1Depacketizer =
  tu :: bytes          \<comment> \<open>completed OBUs, behind the temporal delimiter\<close>
  obu :: bytes         \<comment> \<open>the OBU being reassembled\<close>
  obu_open :: bool
  next_seq :: u16
  have_seq :: bool
  dropping :: bool
  depay_started :: bool

definition av1_depay_init :: Av1Depacketizer where
  "av1_depay_init = \<lparr>tu = [], obu = [], obu_open = False, next_seq = 0, have_seq = False,
     dropping = False, depay_started = False\<rparr>"

definition av1_depay_reset :: "Av1Depacketizer \<Rightarrow> Av1Depacketizer" where
  "av1_depay_reset d = d\<lparr>tu := av1_temporal_delimiter, obu := [], obu_open := False\<rparr>"

text \<open>\<^const>\<open>None\<close> is the return code -1.\<close>

definition av1_depay_close_obu :: "Av1Depacketizer \<Rightarrow> Av1Depacketizer option" where
  "av1_depay_close_obu d =
     (case obu d of
        [] \<Rightarrow> Some d
      | h # _ \<Rightarrow>
          let hdr_size = 1 + (if OBU_HDR_HAS_EXTENSION h then 1 else 0)
          in if length (obu d) < hdr_size then None
             else if OBU_HDR_HAS_SIZE_FIELD h then Some (d\<lparr>tu := tu d @ obu d, obu := []\<rparr>)
             else let payload_size = length (obu d) - hdr_size;
                      len_size = av1_leb128_size payload_size
                  in if CONFIG_MAX_AV1_TU_SIZE < length (tu d) + length (obu d) + len_size then None
                     else Some (d\<lparr>tu := tu d @ (h OR 0x02) # drop 1 (take hdr_size (obu d)) @
                                      av1_leb128_write payload_size @ drop hdr_size (obu d),
                                 obu := []\<rparr>))"

text \<open>The loop over the elements of a packet; \<open>payload\<close> is what lies behind \<open>pos\<close>. The result
  \<^const>\<open>None\<close> is the jump to \<open>corrupt\<close>.\<close>

function depay_elements ::
  "nat \<Rightarrow> bool \<Rightarrow> nat \<Rightarrow> bytes \<Rightarrow> Av1Depacketizer \<Rightarrow> Av1Depacketizer option" where
  "depay_elements w y element payload d =
     (if payload = [] then Some d
      else let element = (if w \<noteq> 0 then element + 1 else element) in do {
        (len, len_bytes) \<leftarrow> (if w \<noteq> 0 \<and> element = w then Some (length payload, 0)
                            else av1_leb128_read payload);
        let rest = drop len_bytes payload;
        (if length rest < len then None
         else if CONFIG_MAX_AV1_TU_SIZE < length (tu d) + length (obu d) + len then None
         else do {
           let d = d\<lparr>obu := obu d @ take len rest\<rparr>;
           let more = drop len rest;
           d \<leftarrow> (if more \<noteq> [] \<or> \<not> y then av1_depay_close_obu d else Some (d\<lparr>obu_open := True\<rparr>));
           depay_elements w y element more d
         })
      })"
  by pat_completeness auto
termination
  by (relation "measure (\<lambda>(w, y, element, payload, d). length payload)")
    (auto split: if_splits dest: av1_leb128_read_pos)

declare depay_elements.simps [simp del]

definition AV1_AGGR_Z :: "u8 \<Rightarrow> bool" where "AV1_AGGR_Z h = bit h 7"
definition AV1_AGGR_Y :: "u8 \<Rightarrow> bool" where "AV1_AGGR_Y h = bit h 6"
definition AV1_AGGR_W :: "u8 \<Rightarrow> nat" where "AV1_AGGR_W h = unat (drop_bit 4 h AND 0x03)"
definition AV1_AGGR_N :: "u8 \<Rightarrow> bool" where "AV1_AGGR_N h = bit h 3"

text \<open>The length of everything before the payload: fixed header, CSRC list and extension.
  \<^const>\<open>None\<close>: the packet is too short for it.\<close>

definition av1_header_size :: "RtpHeader \<Rightarrow> bytes \<Rightarrow> nat option" where
  "av1_header_size h pkt =
     (let hdr_size = RTP_HEADER_SIZE + unat (csrccount h) * 4
      in if extension h = 1
         then if length pkt < hdr_size + 4 then None
              else let hdr_size = hdr_size + 4 + unat (of_be16 (drop (hdr_size + 2) pkt)) * 4
                   in if length pkt < hdr_size then None else Some hdr_size
         else if length pkt < hdr_size then None else Some hdr_size)"

text \<open>The size without the padding the last byte counts. \<^const>\<open>None\<close>: the count is
  impossible.\<close>

definition av1_strip_padding :: "RtpHeader \<Rightarrow> nat \<Rightarrow> bytes \<Rightarrow> nat option" where
  "av1_strip_padding h hdr_size pkt =
     (if padding h = 1
      then let pad = (if pkt = [] then 0 else unat (last pkt))
           in if pad = 0 \<or> length pkt - hdr_size < pad then None else Some (length pkt - pad)
      else Some (length pkt))"

definition av1_track_seq :: "u16 \<Rightarrow> Av1Depacketizer \<Rightarrow> Av1Depacketizer" where
  "av1_track_seq seq d =
     (let d = (if have_seq d \<and> seq \<noteq> next_seq d
               then (av1_depay_reset d)\<lparr>dropping := True\<rparr> else d)
      in d\<lparr>have_seq := True, next_seq := seq + 1\<rparr>)"

definition av1_depay_start :: "Av1Depacketizer \<Rightarrow> Av1Depacketizer" where
  "av1_depay_start d =
     (if depay_started d then d
      else (av1_depay_reset d)\<lparr>depay_started := True, dropping := True\<rparr>)"

definition av1_corrupt :: "Av1Depacketizer \<Rightarrow> Av1Depacketizer" where
  "av1_corrupt d = (av1_depay_reset d)\<lparr>dropping := True\<rparr>"

text \<open>One packet, of exactly the bytes \<open>pkt\<close>: return code, state, what the callback got.
  \<^const>\<open>None\<close> only if the packet is shorter than the fixed header, which the callers
  exclude.\<close>

definition av1_depay_packet ::
  "bool \<Rightarrow> Av1Depacketizer \<Rightarrow> bytes \<Rightarrow> (int \<times> Av1Depacketizer \<times> bytes list) option" where
  "av1_depay_packet has_cb d pkt = do {
     h \<leftarrow> rtp_header_of pkt;
     let d = av1_depay_start d;
     (case av1_header_size h pkt of
        None \<Rightarrow> Some (-1, d, [])
      | Some hdr_size \<Rightarrow>
     (case av1_strip_padding h hdr_size pkt of
        None \<Rightarrow> Some (-1, d, [])
      | Some sz \<Rightarrow>
        let d = av1_track_seq (h_seq_number h) d
        in if sz \<le> hdr_size + AV1_AGGR_HEADER_SIZE then Some (int sz, d, [])
           else
             let aggr = pkt ! hdr_size;
                 payload = take (sz - hdr_size - AV1_AGGR_HEADER_SIZE) (drop (hdr_size + AV1_AGGR_HEADER_SIZE) pkt)
             in if dropping d \<and> \<not> AV1_AGGR_N aggr then Some (int sz, d, [])
                else
                  let d = (if dropping d then av1_depay_reset (d\<lparr>dropping := False\<rparr>) else d)
                  in if AV1_AGGR_Z aggr \<noteq> obu_open d
                     then Some (int sz, av1_corrupt d, [])
                     else
                       (case depay_elements (AV1_AGGR_W aggr) (AV1_AGGR_Y aggr) 0 payload (d\<lparr>obu_open := False\<rparr>) of
                          None \<Rightarrow> Some (-1, av1_corrupt d, [])
                        | Some d \<Rightarrow>
                          if markerbit h = 1
                          then if obu_open d then Some (-1, av1_corrupt d, [])
                               else Some (int sz, av1_depay_reset d,
                                 if length av1_temporal_delimiter < length (tu d) \<and> has_cb then [tu d] else [])
                          else Some (int sz, d, []))))
   }"

fun av1_depay_all ::
  "bool \<Rightarrow> Av1Depacketizer \<Rightarrow> bytes list \<Rightarrow> (Av1Depacketizer \<times> bytes list) option" where
  "av1_depay_all has_cb d [] = Some (d, [])"
| "av1_depay_all has_cb d (p # ps) = do {
     (r, d, out) \<leftarrow> av1_depay_packet has_cb d p;
     (d, more) \<leftarrow> av1_depay_all has_cb d ps;
     Some (d, out @ more)
   }"


section \<open>LEB128 round trip\<close>

lemma av1_leb128_write_small [simp]: "v < 128 \<Longrightarrow> av1_leb128_write v = [of_nat v]"
  by (subst av1_leb128_write.simps) simp

lemma av1_leb128_size_small [simp]: "v < 128 \<Longrightarrow> av1_leb128_size v = 1"
  by (subst av1_leb128_size.simps) simp

lemma length_av1_leb128_write [simp]: "length (av1_leb128_write v) = av1_leb128_size v"
proof (induction v rule: av1_leb128_write.induct)
  case (1 v)
  then show ?case
    by (subst av1_leb128_write.simps, subst av1_leb128_size.simps) (auto simp: div_eq_0_iff)
qed

lemma av1_leb128_size_pos [simp]: "0 < av1_leb128_size v"
  by (subst av1_leb128_size.simps) simp

lemma av1_leb128_size_le: "v < 128 ^ n \<Longrightarrow> 0 < n \<Longrightarrow> av1_leb128_size v \<le> n"
proof (induction v arbitrary: n rule: av1_leb128_size.induct)
  case (1 v)
  show ?case
  proof (cases "0x80 \<le> v")
    case True
    then obtain m where m: "n = Suc m" "0 < m"
      using 1(2,3) by (cases n) (auto split: nat.splits, metis gr0I power_0 mult.right_neutral linorder_not_less)
    then have "v div 128 < 128 ^ m" using 1(2) by (simp add: less_mult_imp_div_less mult.commute)
    with 1(1) True m show ?thesis by (subst av1_leb128_size.simps) auto
  next
    case False
    then show ?thesis using 1(3) by simp
  qed
qed

lemma av1_leb128_size_2: "128 \<le> v \<Longrightarrow> v < 16384 \<Longrightarrow> av1_leb128_size v = 2"
  by (subst av1_leb128_size.simps) (simp add: less_mult_imp_div_less)

lemma leb_low_byte:
  assumes "w < 128"
  shows "unat ((of_nat w :: u8) AND 0x7f) = w" and "\<not> bit (of_nat w :: u8) 7"
proof -
  have "(of_nat w :: u8) AND 0x7f = take_bit 7 (of_nat w)"
    by (rule u8_eqI) (simp_all add: bit_simps)
  also have "unat \<dots> = take_bit 7 (unat (of_nat w :: u8))" by (rule unsigned_take_bit_eq)
  also have "\<dots> = w" using assms by (simp add: unat_of_nat take_bit_eq_mod)
  finally show "unat ((of_nat w :: u8) AND 0x7f) = w" .
  show "\<not> bit (of_nat w :: u8) 7" 
    using bit_unsigned_iff [of "of_nat w :: u8" 7, where ?'a = nat] assms
    by (simp add: unat_of_nat bit_iff_odd)
qed

lemma leb_high_byte:
  assumes "w < 128"
  shows "unat (((of_nat w :: u8) OR 0x80) AND 0x7f) = w" and "bit ((of_nat w :: u8) OR 0x80) 7"
proof -
  have "((of_nat w :: u8) OR 0x80) AND 0x7f = of_nat w AND 0x7f"
    by (rule u8_eqI) (simp_all add: bit_simps)
  with leb_low_byte(1) [OF assms] show "unat (((of_nat w :: u8) OR 0x80) AND 0x7f) = w" by simp
  show "bit ((of_nat w :: u8) OR 0x80) 7" by (simp add: bit_simps)
qed

lemma av1_leb128_read_from_write:
  assumes "i + av1_leb128_size v \<le> 8"
  shows "av1_leb128_read_from i u (av1_leb128_write v @ r) = Some (u + v * 2 ^ (i * 7), i + av1_leb128_size v)"
  using assms
proof (induction v arbitrary: i u rule: av1_leb128_write.induct)
  case (1 v)
  show ?case
  proof (cases "v < 128")
    case True
    with 1(2) show ?thesis by (simp add: leb_low_byte)
  next
    case False
    have s: "av1_leb128_size v = Suc (av1_leb128_size (v div 128))"
      using False by (subst av1_leb128_size.simps) simp
    have w: "av1_leb128_write v = (of_nat (v mod 128) OR 0x80) # av1_leb128_write (v div 128)"
      using False by (subst av1_leb128_write.simps) (simp add: div_eq_0_iff)
    have i: "i < 8" using 1(2) s by simp
    have nz: "v div 128 \<noteq> 0" using False by (simp add: div_eq_0_iff)
    have ih: "av1_leb128_read_from (i + 1) (u + v mod 128 * 2 ^ (i * 7)) (av1_leb128_write (v div 128) @ r) =
      Some (u + v mod 128 * 2 ^ (i * 7) + v div 128 * 2 ^ ((i + 1) * 7), i + 1 + av1_leb128_size (v div 128))"
      using 1(1) [OF nz, of "i + 1"] 1(2) s by simp
    have "a * 2 ^ (i * 7) + b * 2 ^ ((i + 1) * 7) = (a + 128 * b) * 2 ^ (i * 7)" for a b :: nat
      by (simp add: algebra_simps power_add)
    then have "v mod 128 * 2 ^ (i * 7) + v div 128 * 2 ^ ((i + 1) * 7) = (v mod 128 + 128 * (v div 128)) * 2 ^ (i * 7)" .
    also have "\<dots> = v * 2 ^ (i * 7)" by (simp only: mod_mult_div_eq)
    finally have e: "v mod 128 * 2 ^ (i * 7) + v div 128 * 2 ^ ((i + 1) * 7) = v * 2 ^ (i * 7)" .
    show ?thesis
      using ih i e by (simp add: s w leb_high_byte Let_def add.assoc)
  qed
qed

lemma av1_leb128_read_write:
  assumes "v < 2 ^ 56"
  shows "av1_leb128_read (av1_leb128_write v @ r) = Some (v, av1_leb128_size v)"
proof -
  have "av1_leb128_size v \<le> 8" using av1_leb128_size_le [of v 8] assms by simp
  then show ?thesis by (simp add: av1_leb128_read_def av1_leb128_read_from_write)
qed

lemma av1_leb128_read_from_bound:
  "u < 2 ^ (i * 7) \<Longrightarrow> i \<le> 8 \<Longrightarrow> av1_leb128_read_from i u bs = Some (v, n) \<Longrightarrow> v < 2 ^ (n * 7) \<and> n \<le> 8"
proof (induction i u bs rule: av1_leb128_read_from.induct)
  case (2 i u b bs)
  have "b AND 0x7f \<le> 0x7f" by (rule word_and_le1)
  then have b: "unat (b AND 0x7f) < 128" by (simp add: word_le_nat_alt)
  have i: "i < 8" using 2(4) by (auto split: if_splits)
  have "unat (b AND 0x7f) * 2 ^ (i * 7) \<le> 127 * 2 ^ (i * 7)" using b by (intro mult_le_mono) auto
  moreover have "(2::nat) ^ ((i + 1) * 7) = 128 * 2 ^ (i * 7)" by (simp add: power_add)
  ultimately have lt: "u + unat (b AND 0x7f) * 2 ^ (i * 7) < 2 ^ ((i + 1) * 7)"
    using 2(2) by linarith
  with 2 i show ?case by (auto simp: Let_def split: if_splits)
qed simp

lemma av1_leb128_read_bound:
  assumes "av1_leb128_read bs = Some (v, n)"
  shows "v < 2 ^ 56 \<and> n \<le> 8 \<and> av1_leb128_size v \<le> n"
proof -
  have v: "v < 2 ^ (n * 7)" "n \<le> 8"
    using av1_leb128_read_from_bound [of 0 0 bs v n] assms by (simp_all add: av1_leb128_read_def)
  have "(2::nat) ^ (n * 7) \<le> 2 ^ 56" using v(2) by (intro power_increasing) auto
  moreover have "(2::nat) ^ (n * 7) = 128 ^ n"
    by (simp add: power_mult [symmetric] mult.commute [of n] power_mult)
  ultimately show ?thesis
    using v av1_leb128_size_le [of v n] av1_leb128_read_pos [OF assms] by auto
qed

section \<open>Elements on the wire\<close>

definition el_bytes :: "Av1ObuElement \<Rightarrow> bytes" where
  "el_bytes e = take (el_hdr_size e) (el_hdr e) @ el_payload e"

text \<open>What \<open>av1_parse_temporal_unit\<close> stores: the header has one byte or two, as its extension
  flag says, and its size flag is clear.\<close>

definition wf_element :: "Av1ObuElement \<Rightarrow> bool" where
  "wf_element e \<longleftrightarrow> length (el_hdr e) = 2 \<and> \<not> OBU_HDR_HAS_SIZE_FIELD (el_hdr e ! 0) \<and>
     el_hdr_size e = 1 + (if OBU_HDR_HAS_EXTENSION (el_hdr e ! 0) then 1 else 0) \<and>
     length (el_payload e) < 2 ^ 56"

text \<open>The OBU with its size field back in place.\<close>

definition restored :: "Av1ObuElement \<Rightarrow> bytes" where
  "restored e = (el_hdr e ! 0 OR 0x02) # drop 1 (take (el_hdr_size e) (el_hdr e)) @
     av1_leb128_write (length (el_payload e)) @ el_payload e"

lemma wf_element_size: "wf_element e \<Longrightarrow> 1 \<le> el_hdr_size e \<and> el_hdr_size e \<le> 2"
  by (auto simp: wf_element_def)

lemma length_el_bytes: "wf_element e \<Longrightarrow> length (el_bytes e) = el_len e"
  by (auto simp: wf_element_def el_bytes_def el_len_def)

lemma el_len_pos: "wf_element e \<Longrightarrow> 0 < el_len e"
  by (auto simp: wf_element_def el_len_def)

lemma length_restored: "wf_element e \<Longrightarrow> length (restored e) = el_len e + av1_leb128_size (length (el_payload e))"
  by (auto simp: restored_def wf_element_def el_len_def)

lemma copy_header_eq:
  "wf_element e \<Longrightarrow> copied \<le> n \<Longrightarrow> copy_header e off n copied =
     Some (take (n - copied) (drop (off + copied) (take (el_hdr_size e) (el_hdr e))))"
proof (induction e off n copied rule: copy_header.induct)
  case (1 e off n copied)
  show ?case
  proof (cases "copied < n \<and> off + copied < el_hdr_size e")
    case True
    then have l: "off + copied < length (el_hdr e)"
      using wf_element_size [OF 1(2)] 1(2) by (simp add: wf_element_def)
    define xs where "xs = take (el_hdr_size e) (el_hdr e)"
    have x: "off + copied < length xs" "el_hdr e ! (off + copied) = xs ! (off + copied)"
      using True l by (auto simp: xs_def)
    have "take (n - copied) (drop (off + copied) xs) =
        xs ! (off + copied) # take (n - (copied + 1)) (drop (off + (copied + 1)) xs)"
    proof -
      have "drop (off + copied) xs = xs ! (off + copied) # drop (off + (copied + 1)) xs"
        using Cons_nth_drop_Suc [OF x(1)] by simp
      moreover have "n - copied = Suc (n - (copied + 1))" using True by auto
      ultimately show ?thesis by simp
    qed
    moreover have "copy_header e off n (copied + 1) = Some (take (n - (copied + 1)) (drop (off + (copied + 1)) xs))"
      using 1 True l by (auto simp: xs_def mem_get_def)
    moreover have "copy_header e off n copied = do {
        b \<leftarrow> mem_get (off + copied) (el_hdr e); rest \<leftarrow> copy_header e off n (copied + 1); Some (b # rest) }"
      using True by (subst copy_header.simps) simp
    ultimately show ?thesis
      using l x(2) by (simp only: mem_get_def xs_def [symmetric] Option.bind_lunit if_True)
  next
    case False
    then show ?thesis using 1(3) by (subst copy_header.simps) auto
  qed
qed

lemma av1_element_copy_eq:
  assumes "wf_element e" and "off + n \<le> el_len e"
  shows "av1_element_copy e off n = Some (take n (drop off (el_bytes e)))"
proof -
  let ?h = "take (el_hdr_size e) (el_hdr e)"
  have l: "length ?h = el_hdr_size e" using assms(1) by (auto simp: wf_element_def)
  have c: "copy_header e off n 0 = Some (take n (drop off ?h))"
    using copy_header_eq [OF assms(1), of 0 n off] by simp
  have fl: "length (take n (drop off ?h)) = min n (el_hdr_size e - off)" using l by simp
  have e: "take n (drop off (el_bytes e)) =
      take n (drop off ?h) @ take (n - (el_hdr_size e - off)) (drop (off - el_hdr_size e) (el_payload e))"
    using l by (simp add: el_bytes_def min.commute)
  show ?thesis
  proof (cases "n \<le> el_hdr_size e - off")
    case True
    then show ?thesis using c e fl by (simp add: av1_element_copy_def)
  next
    case False
    then have "off + (el_hdr_size e - off) - el_hdr_size e = off - el_hdr_size e"
      "off - el_hdr_size e + (n - (el_hdr_size e - off)) \<le> length (el_payload e)"
      using assms(2) by (auto simp: el_len_def)
    with False show ?thesis using c e fl by (simp add: av1_element_copy_def mem_read_def)
  qed
qed

section \<open>Filling a packet and reading it back\<close>

lemma av1_chunk:
  assumes "room \<le> 1287" and "3 \<le> room" and "0 < rem"
    and "c = (if room < av1_leb128_size rem + rem then room - 2 else rem)"
  shows "0 < c \<and> c \<le> rem \<and> av1_leb128_size c + c \<le> room"
proof (cases "room < av1_leb128_size rem + rem")
  case True
  have c: "c = room - 2" using assms(4) True by simp
  have "av1_leb128_size c \<le> 2" using av1_leb128_size_le [of c 2] c assms(1) by simp
  moreover have "c \<le> rem"
  proof -
    consider "rem < 128" | "128 \<le> rem" "rem < 16384" | "16384 \<le> rem" by linarith
    then show ?thesis
      using True assms(1,2) av1_leb128_size_2 [of rem] c by cases auto
  qed
  ultimately show ?thesis using c assms(2) by auto
qed (use assms in auto)

text \<open>The chunks one payload takes, as the stream sees them: from element \<open>es\<close> at offset
  \<open>off\<close> to element \<open>els\<close> at offset \<open>off'\<close>. \<open>body\<close> is the wire form; a receiver that
  holds the first \<open>off\<close> bytes of the first element ends up with the elements passed
  restored and the first \<open>off'\<close> bytes of the next.\<close>

definition advance :: "Av1Depacketizer \<Rightarrow> Av1ObuElement list \<Rightarrow> Av1ObuElement list \<Rightarrow> nat \<Rightarrow> bool \<Rightarrow> Av1Depacketizer" where
  "advance d passed els off y =
     d\<lparr>tu := tu d @ concat (map restored passed),
       obu := (case els of [] \<Rightarrow> [] | e # _ \<Rightarrow> take off (el_bytes e)),
       obu_open := (obu_open d \<or> y)\<rparr>"

definition at_element :: "Av1ObuElement list \<Rightarrow> nat \<Rightarrow> bool" where
  "at_element es off \<longleftrightarrow> (case es of [] \<Rightarrow> off = 0 | e # _ \<Rightarrow> off < el_len e)"

definition holds :: "Av1Depacketizer \<Rightarrow> Av1ObuElement list \<Rightarrow> nat \<Rightarrow> bool" where
  "holds d es off \<longleftrightarrow>
     obu d = (case es of [] \<Rightarrow> [] | e # _ \<Rightarrow> take off (el_bytes e)) \<and>
     length (tu d) + length (concat (map restored es)) \<le> CONFIG_MAX_AV1_TU_SIZE"

lemma close_obu_restores:
  assumes "wf_element e" and "obu d = el_bytes e"
    and "length (tu d) + length (restored e) \<le> CONFIG_MAX_AV1_TU_SIZE"
  shows "av1_depay_close_obu d = Some (d\<lparr>tu := tu d @ restored e, obu := []\<rparr>)"
proof -
  have l: "length (el_hdr e) = 2" and s: "el_hdr_size e = 1 + (if OBU_HDR_HAS_EXTENSION (el_hdr e ! 0) then 1 else 0)"
    and f: "\<not> OBU_HDR_HAS_SIZE_FIELD (el_hdr e ! 0)"
    using assms(1) by (auto simp: wf_element_def)
  then obtain h0 h1 where h: "el_hdr e = [h0, h1]"
    by (auto simp: numeral_2_eq_2 length_Suc_conv)
  have len: "length (el_bytes e) = el_hdr_size e + length (el_payload e)"
    using assms(1) length_el_bytes by (simp add: el_len_def)
  have r: "length (restored e) = length (el_bytes e) + av1_leb128_size (length (el_payload e))"
    using assms(1) by (simp add: length_restored length_el_bytes)
  show ?thesis
    using assms(2,3) s f len r
    by (auto simp: av1_depay_close_obu_def h el_bytes_def restored_def Let_def)
qed

lemma depay_elements_chunk:
  assumes "length c < 2 ^ 56" and "length (tu d) + length (obu d) + length c \<le> CONFIG_MAX_AV1_TU_SIZE"
  shows "depay_elements 0 y k (av1_leb128_write (length c) @ c @ rest) d =
     do {
       d \<leftarrow> (if rest \<noteq> [] \<or> \<not> y then av1_depay_close_obu (d\<lparr>obu := obu d @ c\<rparr>)
            else Some (d\<lparr>obu := obu d @ c, obu_open := True\<rparr>));
       depay_elements 0 y k rest d
     }"
proof -
  have ne: "av1_leb128_write (length c) \<noteq> []"
    using av1_leb128_size_pos [of "length c"] by (metis length_av1_leb128_write length_greater_0_conv)
  show ?thesis
    using assms ne av1_leb128_read_write [OF assms(1), of "c @ rest"]
    by (subst depay_elements.simps) (simp add: Let_def cong: option.case_cong if_cong)
qed

lemma depay_elements_Nil [simp]: "depay_elements w y k [] d = Some d"
  by (subst depay_elements.simps) simp

text \<open>One step of the fill loop on both sides: a chunk that ends its element.\<close>

lemma depay_elements_last_chunk:
  assumes "wf_element e" and "obu d = take off (el_bytes e)" and "off < el_len e"
    and "length (tu d) + length (restored e) \<le> CONFIG_MAX_AV1_TU_SIZE"
    and "rest \<noteq> [] \<or> \<not> y"
  shows "depay_elements 0 y k (av1_leb128_write (el_len e - off) @ drop off (el_bytes e) @ rest) d =
     depay_elements 0 y k rest (d\<lparr>tu := tu d @ restored e, obu := []\<rparr>)"
proof -
  have l: "length (drop off (el_bytes e)) = el_len e - off" using assms(1) by (simp add: length_el_bytes)
  have w: "length (el_bytes e) \<le> length (restored e)" using assms(1) by (simp add: length_restored length_el_bytes)
  have b: "el_len e - off < 2 ^ 56"
    using assms(4) w l by (simp add: CONFIG_MAX_AV1_TU_SIZE_def)
  have "depay_elements 0 y k (av1_leb128_write (el_len e - off) @ drop off (el_bytes e) @ rest) d =
      do { d \<leftarrow> av1_depay_close_obu (d\<lparr>obu := el_bytes e\<rparr>); depay_elements 0 y k rest d }"
    using depay_elements_chunk [of "drop off (el_bytes e)" d y k rest] assms(2-5) w l b by auto
  also have "av1_depay_close_obu (d\<lparr>obu := el_bytes e\<rparr>) = Some (d\<lparr>tu := tu d @ restored e, obu := []\<rparr>)"
    using close_obu_restores [OF assms(1), of "d\<lparr>obu := el_bytes e\<rparr>"] assms(4) by simp
  finally show ?thesis by simp
qed

lemma depay_elements_open_chunk:
  assumes "wf_element e" and "obu d = take off (el_bytes e)" and "off + c \<le> el_len e"
    and "length (tu d) + length (restored e) \<le> CONFIG_MAX_AV1_TU_SIZE"
  shows "depay_elements 0 True k (av1_leb128_write c @ take c (drop off (el_bytes e))) d =
     Some (d\<lparr>obu := take (off + c) (el_bytes e), obu_open := True\<rparr>)"
proof -
  have l: "length (take c (drop off (el_bytes e))) = c" using assms(1,3) by (simp add: length_el_bytes)
  have w: "length (el_bytes e) \<le> length (restored e)" using assms(1) by (simp add: length_restored length_el_bytes)
  have b: "c < 2 ^ 56" "off + c \<le> length (el_bytes e)"
    using assms(1,3,4) w by (simp_all add: CONFIG_MAX_AV1_TU_SIZE_def length_el_bytes)
  have "take off (el_bytes e) @ take c (drop off (el_bytes e)) = take (off + c) (el_bytes e)"
    by (simp add: take_add)
  then show ?thesis
    using depay_elements_chunk [of "take c (drop off (el_bytes e))" d True k "[]"] assms(2,4) w l b by auto
qed


lemma advance_none: "holds d es off \<Longrightarrow> advance d [] es off False = d"
  by (cases d) (simp add: advance_def holds_def split: list.splits)

lemma enc_rounds_Cons: "enc_rounds (e # es) = el_len e + enc_rounds es"
  by (simp add: enc_rounds_def)

lemma enc_rounds_append: "enc_rounds (xs @ ys) = enc_rounds xs + enc_rounds ys"
  by (simp add: enc_rounds_def)

lemma av1_fill_step:
  assumes "\<forall>e \<in> set es. wf_element e" and "at_element es off" and "holds d es off"
    and "length acc \<le> 1287" and "off = 0 \<or> length acc + 3 \<le> 1287"
  shows "\<exists>passed els off' body y. es = passed @ els \<and> av1_fill es off acc = Some (els, off', acc @ body, y) \<and>
     length acc + length body \<le> 1287 \<and> at_element els off' \<and> (y \<longleftrightarrow> 0 < off') \<and> (y \<longrightarrow> body \<noteq> []) \<and>
     (es \<noteq> [] \<and> length acc + 3 \<le> 1287 \<longrightarrow> body \<noteq> [] \<and> enc_rounds els + off < enc_rounds es + off') \<and>
     depay_elements 0 y k body d = Some (advance d passed els off' y) \<and>
     holds (advance d passed els off' y) els off'"
  using assms
proof (induction es arbitrary: off acc d)
  case Nil
  then have "off = 0" "advance d [] [] 0 False = d" by (simp_all add: at_element_def advance_none)
  then show ?case using Nil by (intro exI [of _ "[]"] exI [of _ 0] exI [of _ False]) simp
next
  case (Cons e es)
  have e: "wf_element e" and off: "off < el_len e" and obu: "obu d = take off (el_bytes e)"
    and cap: "length (tu d) + length (restored e) + length (concat (map restored es)) \<le> CONFIG_MAX_AV1_TU_SIZE"
    using Cons.prems(1-3) by (auto simp: at_element_def holds_def)
  let ?room = "1287 - length acc"
  show ?case
  proof (cases "?room < 3")
    case True
    then have "off = 0" using Cons.prems(4,5) by auto
    with True show ?thesis
      using Cons.prems advance_none [OF Cons.prems(3)]
      by (intro exI [of _ "[]"] exI [of _ "e # es"] exI [of _ off] exI [of _ False]) auto
  next
    case False
    define rem where "rem = el_len e - off"
    define c where "c = (if ?room < av1_leb128_size rem + rem then ?room - 2 else rem)"
    have c: "0 < c" "c \<le> rem" "av1_leb128_size c + c \<le> ?room"
      using av1_chunk [of ?room rem c] False off by (auto simp: rem_def c_def)
    define body1 where "body1 = av1_leb128_write c @ take c (drop off (el_bytes e))"
    have l1: "length body1 = av1_leb128_size c + c"
      using c(2) e by (simp add: body1_def length_el_bytes rem_def)
    have ne1: "body1 \<noteq> []" using l1 c(1) by auto
    have cp: "av1_element_copy e off c = Some (take c (drop off (el_bytes e)))"
      using av1_element_copy_eq [OF e] c(2) off by (simp add: rem_def)
    have fill: "av1_fill (e # es) off acc =
        (if off + c < el_len e then Some (e # es, off + c, acc @ body1, True) else av1_fill es 0 (acc @ body1))"
      unfolding av1_fill.simps Let_def av1_payload_size rem_def [symmetric] c_def [symmetric]
      using False cp by (simp add: body1_def)
    show ?thesis
    proof (cases "off + c < el_len e")
      case True
      have "depay_elements 0 True k body1 d = Some (d\<lparr>obu := take (off + c) (el_bytes e), obu_open := True\<rparr>)"
        unfolding body1_def using depay_elements_open_chunk [OF e obu, of c k] c(2) off cap by (simp add: rem_def)
      then show ?thesis
        using True fill Cons.prems(4) c l1 ne1 cap
        by (intro exI [of _ "[]"] exI [of _ "e # es"] exI [of _ "off + c"] exI [of _ body1] exI [of _ True])
          (auto simp: at_element_def advance_def holds_def)
    next
      case False2: False
      then have ceq: "c = rem" "off + rem = el_len e" using c(2) off by (auto simp: rem_def)
      have b1: "body1 = av1_leb128_write (el_len e - off) @ drop off (el_bytes e)"
        using ceq e by (simp add: body1_def rem_def length_el_bytes)
      let ?d = "d\<lparr>tu := tu d @ restored e, obu := []\<rparr>"
      have at: "at_element es 0" using Cons.prems(1) el_len_pos by (auto simp: at_element_def split: list.splits)
      have hd: "holds ?d es 0" using cap by (auto simp: holds_def split: list.splits)
      have la: "length (acc @ body1) \<le> 1287" using l1 c(3) Cons.prems(4) by simp
      have wf: "\<forall>e \<in> set es. wf_element e" using Cons.prems(1) by simp
      obtain passed els off' body y where ih: "es = passed @ els"
        "av1_fill es 0 (acc @ body1) = Some (els, off', (acc @ body1) @ body, y)"
        "length (acc @ body1) + length body \<le> 1287" "at_element els off'" "y = (0 < off')" "y \<longrightarrow> body \<noteq> []"
        "depay_elements 0 y k body ?d = Some (advance ?d passed els off' y)"
        "holds (advance ?d passed els off' y) els off'"
        using Cons.IH [OF wf at hd la disjI1 [OF refl]] by (elim exE conjE) (rule that, assumption+)
      have adv: "advance ?d passed els off' y = advance d (e # passed) els off' y"
        by (simp add: advance_def)
      have "depay_elements 0 y k (body1 @ body) d = Some (advance d (e # passed) els off' y)"
      proof -
        have "length (tu d) + length (restored e) \<le> CONFIG_MAX_AV1_TU_SIZE" "body \<noteq> [] \<or> \<not> y"
          using cap ih(6) by auto
        from depay_elements_last_chunk [OF e obu off this] ih(7) show ?thesis by (simp add: b1 adv)
      qed
      moreover have "enc_rounds els + off < enc_rounds (e # es) + off'"
        using ih(1) off by (simp add: enc_rounds_Cons enc_rounds_append)
      ultimately show ?thesis
        using fill False2 ih ne1 adv
        by (intro exI [of _ "e # passed"] exI [of _ els] exI [of _ off'] exI [of _ "body1 @ body"] exI [of _ y])
          auto
    qed
  qed
qed


section \<open>One packet\<close>

lemma av1_send_packet_eq:
  assumes "wf_cb cb" and "wf_encoder enc" and "length acc \<le> 1287"
  shows "\<exists>enc'. av1_send_packet cb enc z y n acc is_last =
       Some (enc', rtp_header_bytes (stamp_header enc (if is_last then 1 else 0)) @ av1_aggr_header z y n # acc) \<and>
     sent_ok enc enc' [rtp_header_bytes (stamp_header enc (if is_last then 1 else 0)) @ av1_aggr_header z y n # acc] \<and>
     timestamp enc' = timestamp enc"
proof -
  let ?a = "av1_aggr_header z y n" and ?h = "stamp_header enc (if is_last then 1 else 0)"
  obtain b0 bs where b: "buf_payload enc = b0 # bs" "length bs = 1415"
    using assms(2) by (cases "buf_payload enc") (auto simp: wf_encoder_def)
  let ?pl = "?a # acc @ drop (length acc) bs"
  let ?enc = "enc\<lparr>buf_payload := ?pl, buf_header := ?h, seq_number := seq_number enc + 1\<rparr>"
  let ?pkt = "rtp_header_bytes ?h @ ?a # acc"
  have "av1_send_packet cb enc z y n acc is_last = emit cb (12 + length (?a # acc)) ?enc"
    using b assms(3)
    by (simp add: av1_send_packet_def write_payload_def mem_write_def AV1_AGGR_HEADER_SIZE_def set_header_def
        Let_def RTP_HEADER_SIZE_def)
  also have "\<dots> = Some (?enc\<lparr>buf_payload := cb ?pkt ?pl\<rparr>, ?pkt)"
    using emit_prefix [of ?enc "?a # acc"] by simp
  finally show ?thesis
    using b assms by (simp add: sent_ok_def same_stream_def wf_encoder_def wf_cb_def rtp_header_of_bytes CONFIG_MTU_def)
qed

lemma aggr_bits:
  "AV1_AGGR_Z (av1_aggr_header z y n) = z" "AV1_AGGR_Y (av1_aggr_header z y n) = y"
  "AV1_AGGR_N (av1_aggr_header z y n) = n" "AV1_AGGR_W (av1_aggr_header z y n) = 0"
proof -
  show "AV1_AGGR_Z (av1_aggr_header z y n) = z" "AV1_AGGR_Y (av1_aggr_header z y n) = y"
    "AV1_AGGR_N (av1_aggr_header z y n) = n"
    by (cases z; cases y; cases n; simp add: AV1_AGGR_Z_def AV1_AGGR_Y_def AV1_AGGR_N_def av1_aggr_header_def bit_simps)+
  show "AV1_AGGR_W (av1_aggr_header z y n) = 0"
    by (cases z; cases y; cases n; simp add: AV1_AGGR_W_def av1_aggr_header_def)
qed

definition plain_header :: "RtpHeader \<Rightarrow> bool" where
  "plain_header h \<longleftrightarrow> padding h = 0 \<and> extension h = 0 \<and> csrccount h = 0"

lemma av1_depay_packet_plain:
  assumes "plain_header h" and "body \<noteq> []"
  shows "av1_depay_packet has_cb d (rtp_header_bytes h @ a # body) =
    (let sz = 13 + int (length body); d = av1_track_seq (h_seq_number h) (av1_depay_start d) in
     if dropping d \<and> \<not> AV1_AGGR_N a then Some (sz, d, [])
     else let d = (if dropping d then av1_depay_reset (d\<lparr>dropping := False\<rparr>) else d) in
       if AV1_AGGR_Z a \<noteq> obu_open d then Some (sz, av1_corrupt d, [])
       else (case depay_elements (AV1_AGGR_W a) (AV1_AGGR_Y a) 0 body (d\<lparr>obu_open := False\<rparr>) of
          None \<Rightarrow> Some (-1, av1_corrupt d, [])
        | Some d \<Rightarrow>
          if markerbit h = 1
          then if obu_open d then Some (-1, av1_corrupt d, [])
               else Some (sz, av1_depay_reset d,
                 if length av1_temporal_delimiter < length (tu d) \<and> has_cb then [tu d] else [])
          else Some (sz, d, [])))"
proof -
  have h: "av1_header_size h (rtp_header_bytes h @ a # body) = Some 12"
    using assms(1) by (simp add: av1_header_size_def plain_header_def RTP_HEADER_SIZE_def Let_def)
  have p: "av1_strip_padding h 12 (rtp_header_bytes h @ a # body) = Some (13 + length body)"
    using assms(1) by (simp add: av1_strip_padding_def plain_header_def)
  have g: "\<not> 13 + length body \<le> 13"
    using assms(2) by (cases body) auto
  have l: "13 + length body - 12 - AV1_AGGR_HEADER_SIZE = length body" "12 + AV1_AGGR_HEADER_SIZE = 13"
    by (simp_all add: AV1_AGGR_HEADER_SIZE_def)
  have n: "(rtp_header_bytes h @ a # body) ! 12 = a" "drop 13 (rtp_header_bytes h @ a # body) = body"
    by (simp_all add: nth_append)
  show ?thesis
    unfolding av1_depay_packet_def rtp_header_of_bytes Option.bind_lunit Let_def h option.case p if_not_P [OF g] l n
    by (simp only: take_all order_refl of_nat_add of_nat_numeral)
qed

section \<open>Receiver states between temporal units\<close>

text \<open>A receiver that has just delivered and waits for sequence number \<open>s\<close>.\<close>

definition av1_fresh :: "u16 \<Rightarrow> Av1Depacketizer" where
  "av1_fresh s = \<lparr>tu = av1_temporal_delimiter, obu = [], obu_open = False, next_seq = s,
     have_seq = True, dropping = False, depay_started = True\<rparr>"

text \<open>A receiver that can take a temporal unit starting at sequence number \<open>s\<close>: in step with
  the sender if it has seen one, and when it is discarding (or has not started) the unit has
  to open a coded video sequence (\<open>n\<close>).\<close>

definition av1_joins :: "Av1Depacketizer \<Rightarrow> u16 \<Rightarrow> bool \<Rightarrow> bool" where
  "av1_joins d s n \<longleftrightarrow> (have_seq d \<longrightarrow> next_seq d = s) \<and>
     (if \<not> depay_started d \<or> dropping d then n
      else tu d = av1_temporal_delimiter \<and> obu d = [] \<and> \<not> obu_open d)"

lemma av1_joins_fresh [simp]: "av1_joins (av1_fresh s) s n"
  by (simp add: av1_joins_def av1_fresh_def)

lemma av1_joins_init [simp]: "av1_joins av1_depay_init s True"
  by (simp add: av1_joins_def av1_depay_init_def)

lemma av1_joins_packet:
  assumes "plain_header h" and "body \<noteq> []" and "av1_joins d (h_seq_number h) (AV1_AGGR_N a)"
  shows "av1_depay_packet True d (rtp_header_bytes h @ a # body) =
    av1_depay_packet True (av1_fresh (h_seq_number h)) (rtp_header_bytes h @ a # body)"
proof -
  have f: "av1_track_seq s (av1_depay_start (av1_fresh s)) = av1_fresh s\<lparr>next_seq := s + 1\<rparr>" for s
    by (simp add: av1_track_seq_def av1_depay_start_def av1_fresh_def)
  let ?d = "av1_track_seq (h_seq_number h) (av1_depay_start d)"
  consider "dropping ?d" "AV1_AGGR_N a" "av1_depay_reset (?d\<lparr>dropping := False\<rparr>) = av1_fresh (h_seq_number h)\<lparr>next_seq := h_seq_number h + 1\<rparr>"
    | "?d = av1_fresh (h_seq_number h)\<lparr>next_seq := h_seq_number h + 1\<rparr>"
    using assms(3)
    by (cases d) (auto simp: av1_joins_def av1_track_seq_def av1_depay_start_def av1_depay_reset_def av1_fresh_def split: if_splits)
  then show ?thesis
  proof cases
    case 1
    then show ?thesis
      unfolding av1_depay_packet_plain [OF assms(1,2)] f
      by (simp add: Let_def av1_fresh_def split: option.split)
  next
    case 2
    then show ?thesis
      unfolding av1_depay_packet_plain [OF assms(1,2)] f by simp
  qed
qed

text \<open>A packet the encoder has filled, on the receiver that holds what went before.\<close>

lemma av1_depay_filled:
  assumes "body \<noteq> []" and "have_seq d" and "next_seq d = seq_number enc" and "depay_started d"
    and "\<not> dropping d" and "obu_open d = z"
    and "depay_elements 0 y 0 body (d\<lparr>next_seq := seq_number enc + 1, obu_open := False\<rparr>) = Some d'"
  shows "av1_depay_packet True d (rtp_header_bytes (stamp_header enc m) @ av1_aggr_header z y n # body) =
    Some (if m = 1
      then if obu_open d' then (-1, av1_corrupt d', [])
           else (13 + int (length body), av1_depay_reset d', if 2 < length (tu d') then [tu d'] else [])
      else (13 + int (length body), d', []))"
proof -
  have "plain_header (stamp_header enc m)" by (simp add: plain_header_def)
  moreover have "av1_track_seq (seq_number enc) (av1_depay_start d) = d\<lparr>next_seq := seq_number enc + 1\<rparr>"
    using assms(2-5) by (cases d) (simp add: av1_track_seq_def av1_depay_start_def)
  ultimately show ?thesis
    using assms(1,5-7)
    by (simp add: av1_depay_packet_plain aggr_bits Let_def av1_temporal_delimiter_def)
qed


section \<open>A whole temporal unit\<close>

lemma av1_fill_first:
  assumes "\<forall>e \<in> set es. wf_element e" and "at_element es off" and "holds d es off" and "es \<noteq> []"
  shows "\<exists>passed els off' body y. es = passed @ els \<and> av1_fill es off [] = Some (els, off', body, y) \<and>
     length body \<le> 1287 \<and> at_element els off' \<and> y = (0 < off') \<and> body \<noteq> [] \<and>
     enc_rounds els + off < enc_rounds es + off' \<and>
     depay_elements 0 y 0 body d = Some (advance d passed els off' y) \<and>
     holds (advance d passed els off' y) els off'"
proof -
  have "length ([] :: bytes) \<le> 1287" "off = 0 \<or> length ([] :: bytes) + 3 \<le> 1287" by simp_all
  from av1_fill_step [OF assms(1-3) this, of 0] show ?thesis
    using assms(4) by (elim exE conjE) (intro exI conjI, assumption, simp_all)
qed

lemma av1_packets_roundtrip:
  assumes "wf_cb cb" and "wf_encoder enc" and "\<forall>e \<in> set es. wf_element e" and "es \<noteq> []"
    and "at_element es off" and "enc_rounds es \<le> fuel + off" and "z = (0 < off)"
    and "holds d es off" and "have_seq d" and "next_seq d = seq_number enc" and "depay_started d"
    and "\<not> dropping d" and "obu_open d = z" and "2 \<le> length (tu d)"
  shows "\<exists>enc' pkts. av1_packets fuel cb ncvs enc es off z fp = Some (enc', pkts) \<and> sent_ok enc enc' pkts \<and>
    timestamp enc' = timestamp enc \<and>
    av1_depay_all True d pkts = Some (av1_fresh (seq_number enc'), [tu d @ concat (map restored es)])"
  using assms(2-)
proof (induction fuel arbitrary: enc es off z fp d)
  case 0
  then show ?case by (cases es) (auto simp: at_element_def enc_rounds_Cons)
next
  case (Suc fuel)
  let ?d = "d\<lparr>next_seq := seq_number enc + 1, obu_open := False\<rparr>"
  have "holds ?d es off" using Suc.prems(7) by (simp add: holds_def)
  then obtain passed els off' body y where f: "es = passed @ els" "av1_fill es off [] = Some (els, off', body, y)"
    "length body \<le> 1287" "at_element els off'" "y = (0 < off')" "body \<noteq> []" "enc_rounds els + off < enc_rounds es + off'"
    "depay_elements 0 y 0 body ?d = Some (advance ?d passed els off' y)"
    "holds (advance ?d passed els off' y) els off'"
    using av1_fill_first [OF Suc.prems(2,4) _ Suc.prems(3)] by blast
  let ?d' = "advance ?d passed els off' y"
  have d': "obu_open ?d' = y" "tu ?d' = tu d @ concat (map restored passed)" "have_seq ?d'"
    "next_seq ?d' = seq_number enc + 1" "depay_started ?d'" "\<not> dropping ?d'"
    using Suc.prems by (simp_all add: advance_def)
  let ?m = "if els = [] then 1 else (0 :: 1 word)"
  let ?pkt = "rtp_header_bytes (stamp_header enc ?m) @ av1_aggr_header z y (fp \<and> ncvs) # body"
  obtain enc1 where s: "av1_send_packet cb enc z y (fp \<and> ncvs) body (els = []) = Some (enc1, ?pkt)"
    "sent_ok enc enc1 [?pkt]" "timestamp enc1 = timestamp enc"
    using av1_send_packet_eq [OF assms(1) Suc.prems(1) f(3), of z y "fp \<and> ncvs" "els = []"] by blast
  have seq1: "seq_number enc1 = seq_number enc + 1" using s(2) by (simp add: sent_ok_def)
  have step: "av1_packets (Suc fuel) cb ncvs enc es off z fp =
      do { (enc2, pkts) \<leftarrow> av1_packets fuel cb ncvs enc1 els off' (0 < off') False; Some (enc2, ?pkt # pkts) }"
    using Suc.prems(3) f(2) s(1) by (cases es) (simp_all add: Let_def)
  have dp: "av1_depay_packet True d ?pkt = Some (if els = []
      then if obu_open ?d' then (-1, av1_corrupt ?d', [])
           else (13 + int (length body), av1_depay_reset ?d', if 2 < length (tu ?d') then [tu ?d'] else [])
      else (13 + int (length body), ?d', []))"
    using av1_depay_filled [OF f(6) Suc.prems(8-12) f(8), of ?m "fp \<and> ncvs"] by (cases "els = []") simp_all
  show ?case
  proof (cases "els = []")
    case True
    then have y: "\<not> y" using f(4,5) by (simp add: at_element_def)
    have "passed \<noteq> []" using f(1) True Suc.prems(3) by simp
    then have "2 < length (tu ?d')"
      using Suc.prems(13) d'(2) by (cases passed) (simp_all add: restored_def)
    then have dl: "av1_depay_all True d [?pkt] = Some (av1_depay_reset ?d', [tu d @ concat (map restored es)])"
      unfolding av1_depay_all.simps dp using True y d'(1,2) f(1) by simp
    have "av1_depay_reset ?d' = av1_fresh (seq_number enc1)"
      using d' seq1 by (cases ?d') (simp add: av1_depay_reset_def av1_fresh_def)
    with step True s dl show ?thesis by simp
  next
    case False
    have "\<forall>e \<in> set els. wf_element e" using f(1) Suc.prems(2) by simp
    moreover have "enc_rounds els \<le> fuel + off'" using f(7) Suc.prems(5) by simp
    moreover have "2 \<le> length (tu ?d')" using d'(2) Suc.prems(13) by simp
    ultimately obtain enc2 pkts where r: "av1_packets fuel cb ncvs enc1 els off' (0 < off') False = Some (enc2, pkts)"
      "sent_ok enc1 enc2 pkts" "timestamp enc2 = timestamp enc1"
      "av1_depay_all True ?d' pkts = Some (av1_fresh (seq_number enc2), [tu ?d' @ concat (map restored els)])"
      using Suc.IH [OF sent_ok_wf [OF s(2)] _ False f(4) _ refl f(9)] d' seq1 f(5) by metis
    have "av1_depay_all True d (?pkt # pkts) = Some (av1_fresh (seq_number enc2), [tu d @ concat (map restored es)])"
      using dp False r(4) d'(2) f(1) by (simp add: Let_def)
    with step r s sent_ok_one [OF s(2) r(2)] show ?thesis by simp
  qed
qed


section \<open>Temporal units in the low-overhead format\<close>

text \<open>An OBU with its size field: header byte, extension byte (if any) and payload.\<close>

type_synonym obu_unit = "u8 \<times> bytes \<times> bytes"

fun obu_wire :: "obu_unit \<Rightarrow> bytes" where
  "obu_wire (h, x, p) = h # x @ av1_leb128_write (length p) @ p"

fun wf_obu :: "obu_unit \<Rightarrow> bool" where
  "wf_obu (h, x, p) \<longleftrightarrow> OBU_HDR_HAS_SIZE_FIELD h \<and> length x = (if OBU_HDR_HAS_EXTENSION h then 1 else 0) \<and>
     length p < 2 ^ 56"

fun forwarded :: "obu_unit \<Rightarrow> bool" where
  "forwarded (h, x, p) \<longleftrightarrow>
     OBU_HDR_TYPE h \<notin> {OBU_TYPE_TEMPORAL_DELIMITER, OBU_TYPE_TILE_LIST, OBU_TYPE_PADDING}"

fun is_sequence_header :: "obu_unit \<Rightarrow> bool" where
  "is_sequence_header (h, x, p) \<longleftrightarrow> OBU_HDR_TYPE h = OBU_TYPE_SEQUENCE_HEADER"

fun obu_element :: "obu_unit \<Rightarrow> Av1ObuElement" where
  "obu_element (h, x, p) =
     \<lparr>el_hdr = [h AND 0xFD, if x = [] then 0 else hd x], el_hdr_size = 1 + length x, el_payload = p\<rparr>"

definition tu_bytes :: "obu_unit list \<Rightarrow> bytes" where
  "tu_bytes os = concat (map obu_wire os)"

lemma tu_bytes_simps [simp]: "tu_bytes [] = []" "tu_bytes (o1 # os) = obu_wire o1 @ tu_bytes os"
  by (simp_all add: tu_bytes_def)

lemma hdr_flags:
  "OBU_HDR_HAS_EXTENSION (h AND 0xFD) = OBU_HDR_HAS_EXTENSION h"
  "\<not> OBU_HDR_HAS_SIZE_FIELD (h AND 0xFD)"
  "OBU_HDR_HAS_SIZE_FIELD h \<Longrightarrow> (h AND 0xFD) OR 2 = h"
proof -
  show "OBU_HDR_HAS_EXTENSION (h AND 0xFD) = OBU_HDR_HAS_EXTENSION h" "\<not> OBU_HDR_HAS_SIZE_FIELD (h AND 0xFD)"
    by (simp_all add: OBU_HDR_HAS_EXTENSION_def OBU_HDR_HAS_SIZE_FIELD_def bit_simps bit_numeral_rec)
  assume "OBU_HDR_HAS_SIZE_FIELD h"
  then show "(h AND 0xFD) OR 2 = h"
    by (intro u8_eqI) (auto simp: OBU_HDR_HAS_SIZE_FIELD_def bit_simps bit_numeral_rec)
qed

lemma wf_obu_element: "wf_obu u \<Longrightarrow> wf_element (obu_element u)"
  by (cases u) (auto simp: wf_element_def hdr_flags split: if_splits)

lemma restored_obu_element:
  assumes "wf_obu u"
  shows "restored (obu_element u) = obu_wire u"
proof -
  obtain h x p where u: "u = (h, x, p)" by (cases u)
  have "take (length x) [if x = [] then 0 else hd x] = x"
    using assms by (cases x) (auto simp: u split: if_splits)
  then show ?thesis using assms by (simp add: u restored_def hdr_flags)
qed

lemma parse_obus_step:
  assumes "wf_obu (h, x, p)"
  shows "parse_obus n (obu_wire (h, x, p) @ r) count ncvs =
    (if \<not> forwarded (h, x, p) then parse_obus n r count ncvs
     else if n \<le> count then None
     else map_option (\<lambda>(es, b). (obu_element (h, x, p) # es, b))
            (parse_obus n r (count + 1) (ncvs \<or> is_sequence_header (h, x, p))))"
proof -
  have sf: "OBU_HDR_HAS_SIZE_FIELD h" and lp: "length p < 2 ^ 56" using assms by auto
  have rd: "av1_leb128_read (av1_leb128_write (length p) @ p @ r) = Some (length p, av1_leb128_size (length p))"
    using av1_leb128_read_write [OF lp, of "p @ r"] .
  let ?rhs = "if \<not> forwarded (h, x, p) then parse_obus n r count ncvs
     else if n \<le> count then None
     else do { (es, b) \<leftarrow> parse_obus n r (count + 1) (ncvs \<or> is_sequence_header (h, x, p));
               Some (obu_element (h, x, p) # es, b) }"
  have "parse_obus n (obu_wire (h, x, p) @ r) count ncvs = ?rhs"
  proof (cases "OBU_HDR_HAS_EXTENSION h")
    case True
    with assms obtain x0 where "x = [x0]" by (auto simp: length_Suc_conv)
    with True sf rd show ?thesis by (simp add: parse_obus.simps(2) Let_def)
  next
    case False
    with assms have "x = []" by simp
    with False sf rd show ?thesis by (simp add: parse_obus.simps(2) Let_def)
  qed
  then show ?thesis
    by (cases "parse_obus n r (count + 1) (ncvs \<or> is_sequence_header (h, x, p))") auto
qed


lemma parse_obus_units:
  assumes "\<forall>u \<in> set us. wf_obu u"
  shows "parse_obus n (tu_bytes us) count ncvs =
    (if filter forwarded us \<noteq> [] \<and> n < count + length (filter forwarded us) then None
     else Some (map obu_element (filter forwarded us), ncvs \<or> (\<exists>u \<in> set us. forwarded u \<and> is_sequence_header u)))"
  using assms
proof (induction us arbitrary: count ncvs)
  case (Cons u us)
  obtain h x p where u: "u = (h, x, p)" by (cases u)
  have "parse_obus n (tu_bytes (u # us)) count ncvs = (if \<not> forwarded u then parse_obus n (tu_bytes us) count ncvs
     else if n \<le> count then None
     else map_option (\<lambda>(es, b). (obu_element u # es, b))
            (parse_obus n (tu_bytes us) (count + 1) (ncvs \<or> is_sequence_header u)))"
    using parse_obus_step [of h x p n "tu_bytes us" count ncvs] Cons.prems unfolding u tu_bytes_simps by simp
  then show ?case using Cons by auto
qed simp

text \<open>Whatever a temporal unit holds, the elements stored are well formed and need at most
  eight bytes more than the unit once their size fields are back.\<close>

lemma parse_obus_wf:
  "parse_obus n buf count ncvs = Some (es, b) \<Longrightarrow> length buf < 2 ^ 56 \<Longrightarrow>
   (\<forall>e \<in> set es. wf_element e) \<and> length (concat (map restored es)) \<le> length buf + 8"
proof (induction "length buf" arbitrary: buf count ncvs es b rule: less_induct)
  case less
  show ?case
  proof (cases buf)
    case Nil
    then show ?thesis using less.prems by simp
  next
    case (Cons h r)
    let ?hs = "(1::nat) + (if OBU_HDR_HAS_EXTENSION h then 1 else 0)"
    let ?rd = "if OBU_HDR_HAS_SIZE_FIELD h then av1_leb128_read (drop ?hs buf) else Some (length buf - ?hs, 0)"
    note p = less.prems(1) [unfolded Cons parse_obus.simps(2) Let_def, folded Cons]
    have g: "\<not> length buf < ?hs" using p by (auto split: if_splits)
    have "?rd \<noteq> None"
    proof
      assume "?rd = None"
      with p g show False by (simp only: if_False Option.bind_lzero) simp
    qed
    then obtain ps ls where rd: "?rd = Some (ps, ls)" by auto
    let ?rest = "drop (?hs + ls + ps) buf"
    let ?e = "\<lparr>el_hdr = [h AND 0xFD, if 1 < ?hs then r ! 0 else 0], el_hdr_size = ?hs,
                el_payload = take ps (drop (?hs + ls) buf)\<rparr>"
    have c: "\<not> length buf < ?hs + ls + ps" using p g rd by (auto split: if_splits)
    have sz: "av1_leb128_size ps \<le> (if OBU_HDR_HAS_SIZE_FIELD h then ls else 8)" "ps < 2 ^ 56"
      "\<not> OBU_HDR_HAS_SIZE_FIELD h \<Longrightarrow> ?rest = []"
      using rd av1_leb128_read_bound [of "drop ?hs buf" ps ls] av1_leb128_size_le [of ps 8] less.prems(2) c
      by (auto split: if_splits)
    have lp: "length (el_payload ?e) = ps" using c by simp
    have e: "wf_element ?e" unfolding wf_element_def lp using sz(2) by (simp add: hdr_flags)
    have le: "length (restored ?e) = ?hs + ps + av1_leb128_size ps"
      unfolding length_restored [OF e] el_len_def lp by simp
    have shorter: "length ?rest < length buf" "length ?rest < 2 ^ 56" using less.prems(2) Cons by auto
    consider "parse_obus n ?rest count ncvs = Some (es, b)"
      | es' ncvs' where "es = ?e # es'" "parse_obus n ?rest (count + 1) ncvs' = Some (es', b)"
      using p g rd c by (auto split: if_splits bind_splits)
    then show ?thesis
    proof cases
      case 1
      with less.hyps [OF shorter(1) 1 shorter(2)] show ?thesis by auto
    next
      case 2
      have ih: "\<forall>e \<in> set es'. wf_element e" "length (concat (map restored es')) \<le> length ?rest + 8"
        using less.hyps [OF shorter(1) 2(2) shorter(2)] by blast+
      have "length (concat (map restored es')) = 0" if "\<not> OBU_HDR_HAS_SIZE_FIELD h"
        using 2(2) sz(3) [OF that] by simp
      moreover have lr: "length ?rest + (?hs + ls + ps) = length buf" using c by simp
      ultimately have "length (restored ?e) + length (concat (map restored es')) \<le> length buf + 8"
      proof (cases "OBU_HDR_HAS_SIZE_FIELD h")
        case True
        then have "av1_leb128_size ps \<le> ls" using sz(1) by simp
        then show ?thesis using lr ih(2) unfolding le by linarith
      next
        case False
        then have "av1_leb128_size ps \<le> 8" "length (concat (map restored es')) = 0"
          using sz(1) by simp (use False 2(2) sz(3) in simp)
        then show ?thesis using lr unfolding le by linarith
      qed
      then show ?thesis using e ih(1) 2(1) by simp
    qed
  qed
qed


section \<open>Streams of temporal units\<close>

text \<open>What the receiver takes back: up to 32 forwarded OBUs that fit its buffer behind the
  temporal delimiter.\<close>

definition good_unit :: "obu_unit list \<Rightarrow> bool" where
  "good_unit us \<longleftrightarrow> (\<forall>u \<in> set us. wf_obu u) \<and> filter forwarded us \<noteq> [] \<and>
     length (filter forwarded us) \<le> AV1_MAX_OBU_PER_TU \<and>
     2 + length (tu_bytes (filter forwarded us)) \<le> CONFIG_MAX_AV1_TU_SIZE"

definition opens_sequence :: "obu_unit list \<Rightarrow> bool" where
  "opens_sequence us \<longleftrightarrow> (\<exists>u \<in> set us. forwarded u \<and> is_sequence_header u)"

definition delivered :: "obu_unit list \<Rightarrow> bytes" where
  "delivered us = av1_temporal_delimiter @ tu_bytes (filter forwarded us)"

lemma restored_units:
  "\<forall>u \<in> set us. wf_obu u \<Longrightarrow> concat (map restored (map obu_element us)) = tu_bytes us"
  by (induction us) (auto simp: restored_obu_element)

lemma first_packet_N:
  assumes "av1_packets fuel cb ncvs enc es 0 False True = Some (enc', pkts)" and "es \<noteq> []"
    and "wf_cb cb" and "wf_encoder enc" and "\<forall>e \<in> set es. wf_element e"
    and "holds d es 0"
  shows "\<exists>y body m ps. body \<noteq> [] \<and> pkts = (rtp_header_bytes (stamp_header enc m) @ av1_aggr_header False y ncvs # body) # ps"
proof -
  obtain fuel' where fuel: "fuel = Suc fuel'" using assms(1,2) by (cases fuel; cases es) auto
  have "at_element es 0" using assms(5) by (cases es) (auto simp: at_element_def el_len_pos)
  from av1_fill_first [OF assms(5) this assms(6,2)] obtain els off' body y where
    f: "av1_fill es 0 [] = Some (els, off', body, y)" "length body \<le> 1287" "body \<noteq> []" by blast
  let ?m = "if els = [] then 1 else (0 :: 1 word)"
  obtain enc1 where s: "av1_send_packet cb enc False y ncvs body (els = []) =
      Some (enc1, rtp_header_bytes (stamp_header enc ?m) @ av1_aggr_header False y ncvs # body)"
    using av1_send_packet_eq [OF assms(3,4) f(2), of False y ncvs "els = []"] by blast
  have "av1_packets fuel cb ncvs enc es 0 False True =
      do { (enc2, pkts) \<leftarrow> av1_packets fuel' cb ncvs enc1 els off' (0 < off') False;
           Some (enc2, (rtp_header_bytes (stamp_header enc ?m) @ av1_aggr_header False y ncvs # body) # pkts) }"
    using assms(2) f(1) s unfolding fuel by (cases es) (simp_all add: Let_def)
  with assms(1) f(3) show ?thesis by (auto split: bind_splits)
qed

lemma av1_unit_roundtrip:
  assumes "wf_cb cb" and "wf_encoder enc" and "good_unit us"
    and "av1_joins d (seq_number enc) (opens_sequence us)"
  shows "\<exists>enc' pkts. rtp_encoder_encode_av1 cb enc (tu_bytes us) = Some (0, enc', pkts) \<and> sent_ok enc enc' pkts \<and>
    timestamp enc' = timestamp enc + timestamp_increment enc \<and>
    av1_depay_all True d pkts = Some (av1_fresh (seq_number enc'), [delivered us])"
proof -
  let ?us = "filter forwarded us" and ?f = "av1_fresh (seq_number enc)"
  let ?es = "map obu_element ?us" and ?n = "opens_sequence us"
  have wf: "\<forall>u \<in> set us. wf_obu u" and ne: "?es \<noteq> []" and cap: "2 + length (tu_bytes ?us) \<le> CONFIG_MAX_AV1_TU_SIZE"
    using assms(3) by (auto simp: good_unit_def)
  have parse: "av1_parse_temporal_unit (tu_bytes us) AV1_MAX_OBU_PER_TU = Some (?es, ?n)"
    using parse_obus_units [OF wf, of AV1_MAX_OBU_PER_TU 0 False] assms(3)
    by (auto simp: av1_parse_temporal_unit_def good_unit_def opens_sequence_def)
  have we: "\<forall>e \<in> set ?es. wf_element e" using wf wf_obu_element by auto
  have res: "concat (map restored ?es) = tu_bytes ?us" using wf by (intro restored_units) auto
  have at: "at_element ?es 0" using we by (cases ?us) (auto simp: at_element_def el_len_pos)
  have holds: "holds ?f ?es 0"
    using cap res by (cases ?us) (auto simp: holds_def av1_fresh_def av1_temporal_delimiter_def)
  have f: "have_seq ?f" "next_seq ?f = seq_number enc" "depay_started ?f" "\<not> dropping ?f" "obu_open ?f = False"
    "2 \<le> length (tu ?f)" "tu ?f = av1_temporal_delimiter"
    by (simp_all add: av1_fresh_def av1_temporal_delimiter_def)
  obtain enc' pkts where r: "av1_packets (enc_rounds ?es) cb ?n enc ?es 0 False True = Some (enc', pkts)"
    "sent_ok enc enc' pkts" "timestamp enc' = timestamp enc"
    "av1_depay_all True ?f pkts = Some (av1_fresh (seq_number enc'), [delivered us])"
    using av1_packets_roundtrip [OF assms(1,2) we ne at _ _ holds f(1-6), of "enc_rounds ?es" ?n True] res f(7)
    by (auto simp: delivered_def)
  obtain y body m ps where p: "body \<noteq> []"
    "pkts = (rtp_header_bytes (stamp_header enc m) @ av1_aggr_header False y ?n # body) # ps"
    using first_packet_N [OF r(1) ne assms(1,2) we holds] by blast
  have "plain_header (stamp_header enc m)" by (simp add: plain_header_def)
  then have "av1_depay_all True d pkts = av1_depay_all True ?f pkts"
    using av1_joins_packet [OF _ p(1), of "stamp_header enc m" d "av1_aggr_header False y ?n"] assms(4)
    by (simp add: p(2) aggr_bits)
  moreover have "rtp_encoder_encode_av1 cb enc (tu_bytes us) =
      Some (0, enc'\<lparr>timestamp := timestamp enc' + timestamp_increment enc'\<rparr>, pkts)"
    using parse ne r(1) by (simp add: rtp_encoder_encode_av1_def)
  ultimately show ?thesis
    using r(2-4) by (simp add: sent_ok_def same_stream_def wf_encoder_def)
qed

lemma av1_depay_all_append:
  "av1_depay_all has_cb d (ps @ qs) = do {
     (d1, o1) \<leftarrow> av1_depay_all has_cb d ps;
     (d2, o2) \<leftarrow> av1_depay_all has_cb d1 qs;
     Some (d2, o1 @ o2)
   }"
proof (induction ps arbitrary: d)
  case (Cons p ps)
  then show ?case by (cases "av1_depay_packet has_cb d p") (auto split: bind_splits)
qed (auto split: bind_splits)


interpretation av1_channel: media_channel rtp_encoder_encode_av1 "av1_depay_all True" tu_bytes good_unit
  "\<lambda>us. [delivered us]" "\<lambda>d enc us. av1_joins d (seq_number enc) (opens_sequence us)"
  "\<lambda>d enc. d = av1_fresh (seq_number enc)"
proof unfold_locales
  fix cb enc us d
  assume "wf_cb cb" "wf_encoder enc" "good_unit us" "av1_joins d (seq_number enc) (opens_sequence us)"
  from av1_unit_roundtrip [OF this] show "\<exists>x enc' ps r'. rtp_encoder_encode_av1 cb enc (tu_bytes us) = Some (x, enc', ps) \<and>
      wf_encoder enc' \<and> av1_depay_all True d ps = Some (r', [delivered us]) \<and> r' = av1_fresh (seq_number enc')"
    by (auto intro: sent_ok_wf)
qed (simp_all add: av1_depay_all_append)

lemma av1_units_roundtrip:
  assumes "wf_cb cb" and "wf_encoder enc" and "\<forall>us \<in> set uss. good_unit us"
    and "uss \<noteq> [] \<longrightarrow> av1_joins d (seq_number enc) (opens_sequence (hd uss))"
  shows "\<exists>enc' pkts d'. send_frames (rtp_encoder_encode_av1 cb) enc (map tu_bytes uss) = Some (enc', pkts) \<and>
    av1_depay_all True d pkts = Some (d', map delivered uss)"
proof -
  have "concat (map (\<lambda>us. [delivered us]) uss) = map delivered uss" by (induction uss) simp_all
  then show ?thesis using av1_channel.stream [OF assms] by simp
qed

section \<open>The encoder as a packetizer\<close>

text \<open>Any temporal unit that fits the receive buffer is a frame, well formed or not.\<close>

definition av1_frame :: "bytes \<Rightarrow> bool" where
  "av1_frame f \<longleftrightarrow> length f + 10 \<le> CONFIG_MAX_AV1_TU_SIZE"

lemma av1_encode_sent_ok:
  assumes "wf_cb cb" and "wf_encoder enc" and "av1_frame f"
  shows "\<exists>r enc' pkts. rtp_encoder_encode_av1 cb enc f = Some (r, enc', pkts) \<and> sent_ok enc enc' pkts"
proof (cases "av1_parse_temporal_unit f AV1_MAX_OBU_PER_TU")
  case None
  then show ?thesis using assms(2) by (simp add: rtp_encoder_encode_av1_def)
next
  case (Some p)
  then obtain es n where p: "av1_parse_temporal_unit f AV1_MAX_OBU_PER_TU = Some (es, n)" by (cases p) auto
  have lf: "length f < 2 ^ 56" using assms(3) by (simp add: av1_frame_def CONFIG_MAX_AV1_TU_SIZE_def)
  have we: "\<forall>e \<in> set es. wf_element e" and cap: "length (concat (map restored es)) \<le> length f + 8"
    using parse_obus_wf [OF p [unfolded av1_parse_temporal_unit_def] lf] by blast+
  show ?thesis
  proof (cases "es = []")
    case True
    then show ?thesis using p assms(2) by (simp add: rtp_encoder_encode_av1_def)
  next
    case False
    let ?f = "av1_fresh (seq_number enc)"
    have at: "at_element es 0" using we False by (cases es) (auto simp: at_element_def el_len_pos)
    have holds: "holds ?f es 0"
      using cap assms(3) by (cases es) (auto simp: holds_def av1_fresh_def av1_temporal_delimiter_def av1_frame_def)
    have f: "have_seq ?f" "next_seq ?f = seq_number enc" "depay_started ?f" "\<not> dropping ?f" "obu_open ?f = False"
      "2 \<le> length (tu ?f)"
      by (simp_all add: av1_fresh_def av1_temporal_delimiter_def)
    obtain enc' pkts where "av1_packets (enc_rounds es) cb n enc es 0 False True = Some (enc', pkts)"
      "sent_ok enc enc' pkts"
      using av1_packets_roundtrip [OF assms(1,2) we False at _ _ holds f, of "enc_rounds es" n True] by auto
    then show ?thesis
      using p False by (auto simp: rtp_encoder_encode_av1_def sent_ok_def same_stream_def wf_encoder_def)
  qed
qed

interpretation av1_rtp: rtp_packetizer rtp_encoder_encode_av1 av1_frame
  by unfold_locales (rule av1_encode_sent_ok)

section \<open>The receive buffer\<close>

text \<open>What is in the buffer starts with the temporal delimiter and fits.\<close>

definition depay_inv :: "Av1Depacketizer \<Rightarrow> bool" where
  "depay_inv d \<longleftrightarrow> (depay_started d \<longrightarrow>
     length (tu d) + length (obu d) \<le> CONFIG_MAX_AV1_TU_SIZE \<and> (\<exists>r. tu d = av1_temporal_delimiter @ r))"

definition depay_busy :: "Av1Depacketizer \<Rightarrow> bool" where
  "depay_busy d \<longleftrightarrow> depay_started d \<and> depay_inv d"

lemma depay_busy_reset: "depay_started d \<Longrightarrow> depay_busy (av1_depay_reset d)"
  by (simp add: depay_busy_def depay_inv_def av1_depay_reset_def av1_temporal_delimiter_def CONFIG_MAX_AV1_TU_SIZE_def)

lemma depay_busy_update [simp]:
  "depay_busy (d\<lparr>obu_open := b\<rparr>) = depay_busy d" "depay_busy (d\<lparr>dropping := b\<rparr>) = depay_busy d"
  "depay_busy (d\<lparr>have_seq := b, next_seq := s\<rparr>) = depay_busy d"
  by (simp_all add: depay_busy_def depay_inv_def)

lemma depay_busy_corrupt: "depay_started d \<Longrightarrow> depay_busy (av1_corrupt d)"
  by (simp add: av1_corrupt_def depay_busy_reset)

lemma depay_busy_start: "depay_inv d \<Longrightarrow> depay_busy (av1_depay_start d)"
  by (auto simp: av1_depay_start_def depay_busy_def depay_inv_def av1_depay_reset_def
      av1_temporal_delimiter_def CONFIG_MAX_AV1_TU_SIZE_def)

lemma depay_busy_track: "depay_busy d \<Longrightarrow> depay_busy (av1_track_seq s d)"
  using depay_busy_reset [of d] by (auto simp: av1_track_seq_def Let_def depay_busy_def [of d])

lemma close_obu_busy: "depay_busy d \<Longrightarrow> av1_depay_close_obu d = Some d' \<Longrightarrow> depay_busy d'"
  by (auto simp: av1_depay_close_obu_def depay_busy_def depay_inv_def Let_def split: list.splits if_splits)

lemma depay_elements_busy:
  "depay_busy d \<Longrightarrow> depay_elements w y k payload d = Some d' \<Longrightarrow> depay_busy d'"
proof (induction "length payload" arbitrary: payload k d rule: less_induct)
  case less
  show ?case
  proof (cases "payload = []")
    case True
    then show ?thesis using less.prems by simp
  next
    case False
    let ?k = "if w \<noteq> 0 then k + 1 else k"
    note eq = less.prems(2) [unfolded depay_elements.simps [of w y k payload d] if_not_P [OF False] Let_def]
    obtain len lb where rd: "(if w \<noteq> 0 \<and> ?k = w then Some (length payload, 0) else av1_leb128_read payload) = Some (len, lb)"
      and fit: "\<not> length (drop lb payload) < len"
      and cap: "\<not> CONFIG_MAX_AV1_TU_SIZE < length (tu d) + length (obu d) + len"
      and rest: "Option.bind (if drop len (drop lb payload) \<noteq> [] \<or> \<not> y
           then av1_depay_close_obu (d\<lparr>obu := obu d @ take len (drop lb payload)\<rparr>)
           else Some (d\<lparr>obu := obu d @ take len (drop lb payload), obu_open := True\<rparr>))
         (depay_elements w y ?k (drop len (drop lb payload))) = Some d'"
      using eq by (auto split: bind_splits if_splits simp del: drop_drop)
    have "0 < lb + len" using rd False av1_leb128_read_pos [of payload len lb] by (auto split: if_splits)
    then have shorter: "length (drop len (drop lb payload)) < length payload" using False by auto
    have b: "depay_busy (d\<lparr>obu := obu d @ take len (drop lb payload)\<rparr>)"
      using less.prems(1) cap by (auto simp: depay_busy_def depay_inv_def)
    from rest obtain d1 where "depay_elements w y ?k (drop len (drop lb payload)) d1 = Some d'" "depay_busy d1"
      using b close_obu_busy [OF b] by (auto split: bind_splits if_splits simp del: drop_drop)
    with less.hyps [OF shorter] show ?thesis by blast
  qed
qed

text \<open>What any packet does to the receiver: it stays in its buffer.\<close>

definition in_buffer :: "bytes \<Rightarrow> bool" where
  "in_buffer u \<longleftrightarrow> length u \<le> CONFIG_MAX_AV1_TU_SIZE \<and> take 2 u = av1_temporal_delimiter"

lemma depay_busy_tu: "depay_busy d \<Longrightarrow> in_buffer (tu d)"
  by (auto simp: depay_busy_def depay_inv_def in_buffer_def av1_temporal_delimiter_def)

definition stays_in_buffer :: "(int \<times> Av1Depacketizer \<times> bytes list) option \<Rightarrow> bool" where
  "stays_in_buffer res \<longleftrightarrow> (\<exists>r d out. res = Some (r, d, out) \<and> depay_inv d \<and> (\<forall>u \<in> set out. in_buffer u))"

lemma stays_in_buffer_Some: "depay_busy d \<Longrightarrow> stays_in_buffer (Some (r, d, []))"
  by (simp add: stays_in_buffer_def depay_busy_def)

lemma stays_in_buffer_if:
  "stays_in_buffer a \<Longrightarrow> stays_in_buffer b \<Longrightarrow> stays_in_buffer (if c then a else b)"
  by simp

lemma stays_in_buffer_payload:
  assumes "depay_busy d"
  shows "stays_in_buffer (case depay_elements w y 0 payload (d\<lparr>obu_open := False\<rparr>) of
       None \<Rightarrow> Some (-1, av1_corrupt d, [])
     | Some d' \<Rightarrow> if m then if obu_open d' then Some (-1, av1_corrupt d', [])
           else Some (r, av1_depay_reset d', if c d' \<and> has_cb then [tu d'] else [])
         else Some (r, d', []))"
proof (cases "depay_elements w y 0 payload (d\<lparr>obu_open := False\<rparr>)")
  case None
  then show ?thesis
    using assms by (simp add: stays_in_buffer_Some [OF depay_busy_corrupt] depay_busy_def)
next
  case (Some d')
  then have b: "depay_busy d'" using depay_elements_busy [of "d\<lparr>obu_open := False\<rparr>"] assms by simp
  then have "depay_started d'" by (simp add: depay_busy_def)
  then have "depay_busy (av1_corrupt d')" "depay_busy (av1_depay_reset d')"
    by (simp_all add: depay_busy_corrupt depay_busy_reset)
  with b Some show ?thesis
    by (auto simp: stays_in_buffer_Some stays_in_buffer_def depay_busy_tu) (simp_all add: depay_busy_def)
qed

lemma av1_depay_packet_inv:
  assumes "depay_inv d" and "12 \<le> length pkt"
  shows "stays_in_buffer (av1_depay_packet has_cb d pkt)"
proof -
  obtain h where h: "rtp_header_of pkt = Some h"
    using assms(2) by (simp add: rtp_header_of_def RTP_HEADER_SIZE_def)
  let ?d0 = "av1_depay_start d" and ?d1 = "av1_track_seq (h_seq_number h) (av1_depay_start d)"
  have b0: "depay_busy ?d0" and b1: "depay_busy ?d1"
    using assms(1) depay_busy_start depay_busy_track by blast+
  let ?d2 = "if dropping ?d1 then av1_depay_reset (?d1\<lparr>dropping := False\<rparr>) else ?d1"
  have b2: "depay_busy ?d2"
    using b1 depay_busy_reset [of "?d1\<lparr>dropping := False\<rparr>"] by (simp add: depay_busy_def)
  have b3: "depay_busy (av1_corrupt ?d2)" using b2 depay_busy_corrupt by (simp add: depay_busy_def)
  note b = stays_in_buffer_Some [OF b0] stays_in_buffer_Some [OF b1] stays_in_buffer_Some [OF b2]
    stays_in_buffer_Some [OF b3] stays_in_buffer_payload [OF b2]
  show ?thesis
  proof (cases "av1_header_size h pkt")
    case None
    then show ?thesis using b by (simp add: av1_depay_packet_def h)
  next
    case hs: (Some hs)
    show ?thesis
    proof (cases "av1_strip_padding h hs pkt")
      case None
      then show ?thesis using b hs by (simp add: av1_depay_packet_def h)
    next
      case (Some sz)
      show ?thesis
        unfolding av1_depay_packet_def h Let_def Option.bind_lunit hs option.case Some
        by (intro stays_in_buffer_if b)
    qed
  qed
qed


section \<open>Properties\<close>

lemma av1_gap:
  assumes "plain_header h" and "body \<noteq> []" and "depay_started d" and "have_seq d"
    and "dropping d \<or> h_seq_number h \<noteq> next_seq d" and "\<not> AV1_AGGR_N a"
  shows "\<exists>r d'. av1_depay_packet True d (rtp_header_bytes h @ a # body) = Some (r, d', []) \<and>
    depay_started d' \<and> have_seq d' \<and> dropping d' \<and> next_seq d' = h_seq_number h + 1"
  using assms(3-6) unfolding av1_depay_packet_plain [OF assms(1,2)]
  by (auto simp: av1_depay_start_def av1_track_seq_def av1_depay_reset_def Let_def)

definition av1_packet :: "RtpHeader \<times> u8 \<times> bytes \<Rightarrow> bytes" where
  "av1_packet = (\<lambda>(h, a, body). rtp_header_bytes h @ a # body)"

text \<open>A packet with a payload that does not open a coded video sequence.\<close>

definition inner_packet :: "RtpHeader \<times> u8 \<times> bytes \<Rightarrow> bool" where
  "inner_packet = (\<lambda>(h, a, body). plain_header h \<and> body \<noteq> [] \<and> \<not> AV1_AGGR_N a)"

lemma av1_discards:
  "\<forall>m \<in> set ms. inner_packet m \<Longrightarrow> ms \<noteq> [] \<Longrightarrow> depay_started d \<Longrightarrow> have_seq d \<Longrightarrow>
   dropping d \<or> h_seq_number (fst (hd ms)) \<noteq> next_seq d \<Longrightarrow>
   \<exists>d'. av1_joins d' (h_seq_number (fst (last ms)) + 1) True \<and>
     (\<forall>ps. av1_depay_all True d (map av1_packet ms @ ps) = av1_depay_all True d' ps)"
proof (induction ms arbitrary: d)
  case (Cons m ms)
  obtain h a body where m: "m = (h, a, body)" by (rule prod_cases3)
  then have "plain_header h" "body \<noteq> []" "\<not> AV1_AGGR_N a" using Cons.prems(1) by (simp_all add: inner_packet_def)
  then obtain r d1 where d1: "av1_depay_packet True d (av1_packet m) = Some (r, d1, [])"
    "depay_started d1" "have_seq d1" "dropping d1" "next_seq d1 = h_seq_number h + 1"
    using av1_gap [of h body d a] Cons.prems(3-5) m by (auto simp: av1_packet_def)
  have step: "av1_depay_all True d (map av1_packet (m # ms) @ ps) = av1_depay_all True d1 (map av1_packet ms @ ps)" for ps
    using d1(1) by (cases "av1_depay_all True d1 (map av1_packet ms @ ps)") auto
  show ?case
  proof (cases "ms = []")
    case True
    then show ?thesis using d1 step m by (intro exI [of _ d1]) (simp add: av1_joins_def)
  next
    case False
    then show ?thesis using Cons.IH [OF _ False d1(2,3)] Cons.prems(1) d1(4) step by auto
  qed
qed simp

text \<open>A stream of temporal units survives the trip. Every unit (up to 32 forwarded OBUs that
  fit the receive buffer) goes through \<open>rtp_encoder_encode_av1\<close>, and the packets, fed one by
  one to \<open>av1_depay_packet\<close>, deliver each unit once, in order, with its size fields back and
  behind a fresh temporal delimiter: OBUs split over packets, aggregated in one packet,
  dropped padding and sequence numbers that wrap included. The receiver may be in step, or
  discarding when the first unit opens a coded video sequence.\<close>

theorem av1_stream_roundtrip:
  assumes "wf_cb cb" and "wf_encoder enc" and "\<forall>us \<in> set (us0 # uss). good_unit us"
    and "av1_joins d (seq_number enc) (opens_sequence us0)"
  shows "\<exists>enc' pkts d'. send_frames (rtp_encoder_encode_av1 cb) enc (map tu_bytes (us0 # uss)) = Some (enc', pkts) \<and>
    av1_depay_all True d pkts = Some (d', map delivered (us0 # uss))"
  by (rule av1_units_roundtrip [OF assms(1-3)]) (simp add: assms(4))

definition example_units :: "obu_unit list list" where
  "example_units =
     [[(0x12, [], []), (0x0A, [], [1, 2, 3]), (0x36, [9], replicate 3000 7)], [(0x7A, [], [0]), (0x32, [], [5])]]"

lemma example_units_good: "\<forall>us \<in> set example_units. good_unit us" "opens_sequence (hd example_units)"
  by (simp_all add: example_units_def good_unit_def opens_sequence_def OBU_HDR_TYPE_def
      OBU_HDR_HAS_SIZE_FIELD_def OBU_HDR_HAS_EXTENSION_def OBU_TYPE_SEQUENCE_HEADER_def
      OBU_TYPE_TEMPORAL_DELIMITER_def OBU_TYPE_TILE_LIST_def OBU_TYPE_PADDING_def AV1_MAX_OBU_PER_TU_def
      CONFIG_MAX_AV1_TU_SIZE_def av1_leb128_size_2 bit_numeral_rec)

lemma example_units_Cons: "hd example_units # tl example_units = example_units"
  by (simp add: example_units_def)

theorem av1_stream_roundtrip_witness:
  "\<exists>enc' pkts d'. send_frames (rtp_encoder_encode_av1 (\<lambda>pkt pl. map NOT pl)) (example_encoder PT_AV1 EncodeAv1)
       (map tu_bytes example_units) = Some (enc', pkts) \<and>
    av1_depay_all True av1_depay_init pkts = Some (d', map delivered example_units)"
  using av1_stream_roundtrip [of "\<lambda>pkt pl. map NOT pl" "example_encoder PT_AV1 EncodeAv1" "hd example_units"
      "tl example_units" av1_depay_init] example_units_good
  unfolding example_units_Cons by simp

text \<open>Whatever a packet of at least a fixed header's length holds (CSRC lists, extensions,
  padding, broken lengths), \<open>av1_depay_packet\<close> handles it inside its buffers: the temporal
  unit under construction never exceeds \<open>CONFIG_MAX_AV1_TU_SIZE\<close> and what is delivered fits
  the buffer and starts with the temporal delimiter.\<close>

theorem av1_depay_stays_in_buffer:
  assumes "depay_inv d" and "12 \<le> length pkt"
  shows "\<exists>r d' out. av1_depay_packet has_cb d pkt = Some (r, d', out) \<and> depay_inv d' \<and>
    (\<forall>u \<in> set out. length u \<le> CONFIG_MAX_AV1_TU_SIZE \<and> take 2 u = av1_temporal_delimiter)"
  using av1_depay_packet_inv [OF assms, of has_cb] by (simp add: stays_in_buffer_def in_buffer_def)

theorem av1_depay_stays_in_buffer_witness:
  "\<exists>r d' out. av1_depay_packet True av1_depay_init (0x30 # replicate 11 255) = Some (r, d', out) \<and> depay_inv d' \<and>
    (\<forall>u \<in> set out. length u \<le> CONFIG_MAX_AV1_TU_SIZE \<and> take 2 u = av1_temporal_delimiter)"
  by (rule av1_depay_stays_in_buffer) (simp_all add: depay_inv_def av1_depay_init_def)

text \<open>C19: Loss and recovery. From the packet on that skips a sequence number, whatever packets follow that do not
  open a coded video sequence, with further gaps or without, deliver nothing, also those that end a unit; the stream
  behind them, whose first unit opens a coded video sequence, is delivered completely. So no part of a damaged
  unit reaches the decoder, and the damage ends at the next key frame.\<close>

theorem av1_gap_then_keyframe:
  assumes "wf_cb cb" and "wf_encoder enc" and "\<forall>us \<in> set (us0 # uss). good_unit us" and "opens_sequence us0"
    and "\<forall>m \<in> set ms. inner_packet m" and "ms \<noteq> []" and "seq_number enc = h_seq_number (fst (last ms)) + 1"
    and "depay_started d" and "have_seq d" and "h_seq_number (fst (hd ms)) \<noteq> next_seq d"
  shows "\<exists>enc' pkts d'. send_frames (rtp_encoder_encode_av1 cb) enc (map tu_bytes (us0 # uss)) = Some (enc', pkts) \<and>
    av1_depay_all True d (map av1_packet ms @ pkts) = Some (d', map delivered (us0 # uss))"
proof -
  obtain d1 where g: "av1_joins d1 (seq_number enc) True"
    "av1_depay_all True d (map av1_packet ms @ ps) = av1_depay_all True d1 ps" for ps
    using av1_discards [OF assms(5,6,8,9)] assms(7,10) by auto
  obtain enc' pkts d' where "send_frames (rtp_encoder_encode_av1 cb) enc (map tu_bytes (us0 # uss)) = Some (enc', pkts)"
    "av1_depay_all True d1 pkts = Some (d', map delivered (us0 # uss))"
    using av1_units_roundtrip [OF assms(1-3), of d1] g(1) assms(4) by auto
  with g(2) show ?thesis by simp
qed

text \<open>The middle of a damaged unit, its end, and the start of a unit, without its end.\<close>

definition example_rest :: "(RtpHeader \<times> u8 \<times> bytes) list" where
  "example_rest = (let h = stamp_header (example_encoder PT_AV1 EncodeAv1) in
     [((h 0)\<lparr>h_seq_number := 65530\<rparr>, 0x50, [1, 2]), ((h 1)\<lparr>h_seq_number := 65531\<rparr>, 0x90, [3]),
      ((h 0)\<lparr>h_seq_number := 65534\<rparr>, 0x50, [4, 5])])"

theorem av1_gap_then_keyframe_witness:
  "\<exists>enc' pkts d'. send_frames (rtp_encoder_encode_av1 (\<lambda>pkt pl. map NOT pl)) (example_encoder PT_AV1 EncodeAv1)
       (map tu_bytes example_units) = Some (enc', pkts) \<and>
    av1_depay_all True (av1_fresh 7) (map av1_packet example_rest @ pkts) = Some (d', map delivered example_units)"
  by (rule av1_gap_then_keyframe [of "\<lambda>pkt pl. map NOT pl" "example_encoder PT_AV1 EncodeAv1" "hd example_units"
        "tl example_units", unfolded example_units_Cons])
    (use example_units_good in \<open>simp_all add: example_rest_def inner_packet_def plain_header_def AV1_AGGR_N_def
       bit_numeral_rec av1_fresh_def Let_def\<close>, simp add: example_encoder_def)

end
