(* ===== verification/Rtp_Reorder.thy ===== *)
theory Rtp_Reorder
  imports Rtp_Av1
begin

text \<open>
  The reorder window in front of the AV1 depacketizer (\<open>Av1Reorder\<close> and \<open>rtp_decode_av1\<close> in
  \<^verbatim>\<open>src/src/rtp.c\<close>): packets up to \<open>CONFIG_AV1_REORDER_DEPTH\<close> ahead of the expected sequence
  number wait in slots until the gap is filled.

  \<^item> A slot is the bytes of its packet; the empty list is \<open>len == 0\<close>.
  \<^item> Both static objects, the window and the depacketizer behind it, are in \<open>Av1Rx\<close>; the
    calls return what the callback got.
\<close>

section \<open>State and operations\<close>

record Av1Rx =
  slots :: "bytes list"
  expect :: u16
  ro_started :: bool
  depay :: Av1Depacketizer

definition av1_rx_init :: Av1Rx where
  "av1_rx_init = \<lparr>slots = replicate CONFIG_AV1_REORDER_DEPTH [], expect = 0, ro_started = False,
     depay = av1_depay_init\<rparr>"

definition slot_of :: "u16 \<Rightarrow> nat" where
  "slot_of seq = unat seq mod CONFIG_AV1_REORDER_DEPTH"

definition av1_reorder_release :: "bool \<Rightarrow> nat \<Rightarrow> Av1Rx \<Rightarrow> (Av1Rx \<times> bytes list) option" where
  "av1_reorder_release has_cb slot rx = do {
     pkt \<leftarrow> mem_get slot (slots rx);
     (r, d, out) \<leftarrow> av1_depay_packet has_cb (depay rx) pkt;
     Some (rx\<lparr>slots := (slots rx)[slot := []], depay := d\<rparr>, out)
   }"

definition held :: "bytes list \<Rightarrow> nat" where
  "held ss = length (filter (\<lambda>s. s \<noteq> []) ss)"

lemma held_Cons: "held (s # ss) = (if s \<noteq> [] then 1 else 0) + held ss"
  by (simp add: held_def)

lemma held_clear: "i < length ss \<Longrightarrow> ss ! i \<noteq> [] \<Longrightarrow> held (ss[i := []]) < held ss"
proof (induction ss arbitrary: i)
  case (Cons s ss)
  then show ?case by (cases i) (auto simp: held_Cons)
qed simp

function av1_reorder_drain :: "bool \<Rightarrow> Av1Rx \<Rightarrow> (Av1Rx \<times> bytes list) option" where
  "av1_reorder_drain has_cb rx = do {
     pkt \<leftarrow> mem_get (slot_of (expect rx)) (slots rx);
     (if pkt \<noteq> [] then do {
        (rx', out) \<leftarrow> av1_reorder_release has_cb (slot_of (expect rx)) rx;
        (rx', more) \<leftarrow> av1_reorder_drain has_cb (rx'\<lparr>expect := expect rx' + 1\<rparr>);
        Some (rx', out @ more)
      }
      else Some (rx, []))
   }"
  by pat_completeness auto
termination
  by (relation "measure (\<lambda>(has_cb, rx). held (slots rx))")
    (auto simp: av1_reorder_release_def mem_simps split: bind_splits intro: held_clear)

declare av1_reorder_drain.simps [simp del]

text \<open>The slots from the expected one on, once around: the loop over \<open>i = 0, 1, ...\<close>.\<close>

fun flush_slots :: "bool \<Rightarrow> nat list \<Rightarrow> Av1Rx \<Rightarrow> (Av1Rx \<times> bytes list) option" where
  "flush_slots has_cb [] rx = Some (rx, [])"
| "flush_slots has_cb (i # is) rx = do {
     let slot = slot_of (expect rx + of_nat i);
     pkt \<leftarrow> mem_get slot (slots rx);
     (rx, out) \<leftarrow> (if pkt \<noteq> [] then av1_reorder_release has_cb slot rx else Some (rx, []));
     (rx, more) \<leftarrow> flush_slots has_cb is rx;
     Some (rx, out @ more)
   }"

definition av1_reorder_flush :: "bool \<Rightarrow> Av1Rx \<Rightarrow> (Av1Rx \<times> bytes list) option" where
  "av1_reorder_flush has_cb rx = flush_slots has_cb [0..<CONFIG_AV1_REORDER_DEPTH] rx"

text \<open>\<open>(int16_t)(seq - expect)\<close>: the distance on the circle of sequence numbers.\<close>

definition seq_ahead :: "u16 \<Rightarrow> u16 \<Rightarrow> int" where
  "seq_ahead seq expected = sint (seq - expected)"

definition rtp_decode_av1 ::
  "bool \<Rightarrow> Av1Rx \<Rightarrow> bytes \<Rightarrow> nat \<Rightarrow> (int \<times> Av1Rx \<times> bytes list) option" where
  "rtp_decode_av1 has_cb rx buf sz =
     (if sz < RTP_HEADER_SIZE \<or> CONFIG_RECV_BUFFER_SIZE < sz then Some (-1, rx, [])
      else do {
        h \<leftarrow> rtp_header_of buf;
        let seq = h_seq_number h;
        let rx = (if ro_started rx then rx else rx\<lparr>ro_started := True, expect := seq\<rparr>);
        let ahead = seq_ahead seq (expect rx);
        (if ahead < 0 then Some (int sz, rx, [])
         else do {
           (rx, out) \<leftarrow> (if int CONFIG_AV1_REORDER_DEPTH \<le> ahead
              then do { (rx, out) \<leftarrow> av1_reorder_flush has_cb rx; Some (rx\<lparr>expect := seq\<rparr>, out) }
              else Some (rx, []));
           pkt \<leftarrow> mem_read 0 sz buf;
           c_assert (slot_of seq < length (slots rx));
           let rx = rx\<lparr>slots := (slots rx)[slot_of seq := pkt]\<rparr>;
           (rx, more) \<leftarrow> av1_reorder_drain has_cb rx;
           Some (int sz, rx, out @ more)
         })
      })"

fun rtp_decode_av1_all :: "bool \<Rightarrow> Av1Rx \<Rightarrow> bytes list \<Rightarrow> (Av1Rx \<times> bytes list) option" where
  "rtp_decode_av1_all has_cb rx [] = Some (rx, [])"
| "rtp_decode_av1_all has_cb rx (p # ps) = do {
     (r, rx, out) \<leftarrow> rtp_decode_av1 has_cb rx p (length p);
     (rx, more) \<leftarrow> rtp_decode_av1_all has_cb rx ps;
     Some (rx, out @ more)
   }"


section \<open>Slots and sequence numbers\<close>

lemma slot_of_less [simp]: "slot_of s < 4"
  by (simp add: slot_of_def CONFIG_AV1_REORDER_DEPTH_def)

lemma slot_of_add: "slot_of (s + of_nat i) = (unat s + i) mod 4"
proof -
  have "unat (s + of_nat i) = (unat s + i) mod 65536"
    by (simp add: unat_word_ariths unat_of_nat mod_add_right_eq)
  then show ?thesis
    by (simp add: slot_of_def CONFIG_AV1_REORDER_DEPTH_def mod_mod_cancel)
qed

lemma seq_ahead_small:
  assumes "j < 32768"
  shows "seq_ahead (s + of_nat (k + j)) (s + of_nat k) = int j"
proof -
  have "s + of_nat (k + j) - (s + of_nat k) = (of_nat j :: u16)" by simp
  then show ?thesis using assms by (simp add: seq_ahead_def signed_of_nat signed_take_bit_int_eq_self)
qed

section \<open>The window over a stream\<close>

text \<open>The receiver has seen the packets with indices \<open>R\<close> of the stream \<open>ps\<close> that starts at
  sequence number \<open>s\<close>; \<open>k\<close> is the index it waits for. The four slots hold what has come in of
  the next four packets.\<close>

definition window :: "u16 \<Rightarrow> bytes list \<Rightarrow> nat \<Rightarrow> nat set \<Rightarrow> Av1Rx \<Rightarrow> bool" where
  "window s ps k R rx \<longleftrightarrow> ro_started rx \<and> expect rx = s + of_nat k \<and> length (slots rx) = 4 \<and>
     (\<forall>i < k. i \<in> R) \<and> (\<forall>i \<in> R. i < k + 4 \<and> i < length ps) \<and>
     (\<forall>j < 4. slots rx ! ((unat s + (k + j)) mod 4) = (if k + j \<in> R then ps ! (k + j) else []))"

lemma mod4_inj:
  fixes a :: nat
  assumes "i < 4" and "j < 4" and "(a + i) mod 4 = (a + j) mod 4"
  shows "i = j"
proof -
  have "i \<in> {0,1,2,3}" "j \<in> {0,1,2,3}" using assms by auto
  then show ?thesis using assms(3) by auto presburger+
qed

lemma window_release:
  assumes "window s ps k R rx" and "k \<in> R"
  shows "window s ps (k + 1) R (rx\<lparr>slots := (slots rx)[(unat s + k) mod 4 := []], depay := d, expect := s + of_nat (k + 1)\<rparr>)"
proof -
  let ?ss = "(slots rx)[(unat s + k) mod 4 := []]"
  have l: "length (slots rx) = 4" using assms(1) by (simp add: window_def)
  have "?ss ! ((unat s + (k + 1 + j)) mod 4) = (if k + 1 + j \<in> R then ps ! (k + 1 + j) else [])" if "j < 4" for j
  proof (cases "j = 3")
    case True
    then have "(unat s + (k + 1 + j)) mod 4 = (unat s + k) mod 4" by (simp add: add.assoc [symmetric]) presburger
    moreover have "k + 1 + j \<notin> R" using assms(1) True by (auto simp: window_def)
    ultimately show ?thesis using l by simp
  next
    case False
    then have j: "j + 1 < 4" using that by simp
    then have "(unat s + (k + 1 + j)) mod 4 \<noteq> (unat s + k) mod 4"
      using mod4_inj [of "j + 1" 0 "unat s + k"] by (auto simp: add_ac)
    moreover have "slots rx ! ((unat s + (k + (j + 1))) mod 4) = (if k + (j + 1) \<in> R then ps ! (k + (j + 1)) else [])"
      using assms(1) j by (simp only: window_def)
    ultimately show ?thesis by (simp add: add_ac)
  qed
  moreover have "\<forall>i < k + 1. i \<in> R" using assms by (auto simp: window_def less_Suc_eq)
  ultimately show ?thesis using assms(1) l by (auto simp: window_def)
qed

lemma window_store:
  assumes "window s ps k R rx" and "i \<notin> R" and "k \<le> i" and "i < k + 4" and "i < length ps"
  shows "window s ps k (insert i R) (rx\<lparr>slots := (slots rx)[(unat s + i) mod 4 := ps ! i]\<rparr>)"
proof -
  obtain c where c: "i = k + c" "c < 4" using assms(3,4) by (metis le_Suc_ex nat_add_left_cancel_less)
  have l: "length (slots rx) = 4" using assms(1) by (simp add: window_def)
  have "(slots rx)[(unat s + i) mod 4 := ps ! i] ! ((unat s + (k + j)) mod 4) =
      (if k + j \<in> insert i R then ps ! (k + j) else [])" if "j < 4" for j
  proof (cases "j = c")
    case True
    then show ?thesis using l c by simp
  next
    case False
    then have "(unat s + i) mod 4 \<noteq> (unat s + (k + j)) mod 4"
      using mod4_inj [of j c "unat s + k"] that c by (auto simp: add_ac)
    moreover have "slots rx ! ((unat s + (k + j)) mod 4) = (if k + j \<in> R then ps ! (k + j) else [])"
      using assms(1) that by (simp only: window_def)
    ultimately show ?thesis using False c by simp
  qed
  then show ?thesis using assms l by (auto simp: window_def)
qed

lemma window_first:
  assumes "window s ps k R rx"
  shows "mem_get (slot_of (expect rx)) (slots rx) = Some (if k \<in> R then ps ! k else [])"
proof -
  have "slots rx ! ((unat s + (k + 0)) mod 4) = (if k + 0 \<in> R then ps ! (k + 0) else [])"
    using assms unfolding window_def by (elim conjE allE [of _ 0]) simp
  then show ?thesis using assms by (simp add: window_def slot_of_add mem_get_def)
qed

lemma drain_window:
  assumes "window s ps k R rx" and "\<forall>i \<in> R. ps ! i \<noteq> []" and "k \<le> k'" and "\<forall>i. k \<le> i \<and> i < k' \<longrightarrow> i \<in> R"
    and "k' \<notin> R" and "av1_depay_all has_cb (depay rx) (map (\<lambda>i. ps ! i) [k..<k']) = Some (d', out)"
  shows "\<exists>rx'. av1_reorder_drain has_cb rx = Some (rx', out) \<and> depay rx' = d' \<and> window s ps k' R rx'"
  using assms(1,3-)
proof (induction "k' - k" arbitrary: k rx out)
  case 0
  then have k: "k = k'" by simp
  have "mem_get (slot_of (expect rx)) (slots rx) = Some []"
    using window_first [OF 0(2)] 0(5) k by simp
  then show ?case using 0 k by (simp add: av1_reorder_drain.simps)
next
  case (Suc n)
  then have lt: "k < k'" and kR: "k \<in> R" by auto
  have sl: "expect rx = s + of_nat k" using Suc.prems(1) by (simp add: window_def)
  have slot: "slot_of (expect rx) = (unat s + k) mod 4" using sl by (simp add: slot_of_add)
  have get: "mem_get ((unat s + k) mod 4) (slots rx) = Some (ps ! k)"
    using window_first [OF Suc.prems(1)] slot kR by simp
  have "[k..<k'] = k # [k + 1..<k']" using lt by (simp add: upt_rec)
  then obtain r d1 o1 o2 where d: "av1_depay_packet has_cb (depay rx) (ps ! k) = Some (r, d1, o1)"
    "av1_depay_all has_cb d1 (map (\<lambda>i. ps ! i) [k + 1..<k']) = Some (d', o2)" "out = o1 @ o2"
    using Suc.prems(5) by (auto split: bind_splits)
  let ?rx = "rx\<lparr>slots := (slots rx)[(unat s + k) mod 4 := []], depay := d1, expect := s + of_nat (k + 1)\<rparr>"
  have "n = k' - (k + 1)" "k + 1 \<le> k'" "\<forall>i. k + 1 \<le> i \<and> i < k' \<longrightarrow> i \<in> R" using Suc lt by auto
  then obtain rx' where rx': "av1_reorder_drain has_cb ?rx = Some (rx', o2)" "depay rx' = d'" "window s ps k' R rx'"
    using Suc.hyps(1) [of "k + 1" ?rx o2] window_release [OF Suc.prems(1) kR] Suc.prems(4) d(2) by auto
  have "av1_reorder_drain has_cb rx = Some (rx', out)"
  proof -
    have e: "s + of_nat (k + 1) = s + of_nat k + 1" by simp
    show ?thesis
      unfolding av1_reorder_drain.simps [of has_cb rx] slot av1_reorder_release_def get
      using d(1,3) rx'(1) [unfolded e] assms(2) kR sl by simp
  qed
  with rx' show ?case by blast
qed

text \<open>An order of arrival, by index, in which every packet comes before the one four places
  behind it: what a path that displaces packets by less than the depth can produce.\<close>

fun within_window :: "nat list \<Rightarrow> nat list \<Rightarrow> bool" where
  "within_window seen [] = True"
| "within_window seen (i # is) \<longleftrightarrow>
     i \<notin> set seen \<and> (\<forall>j \<in> {..<i - 3}. j \<in> set seen) \<and> within_window (i # seen) is"

definition av1_sized :: "bytes \<Rightarrow> bool" where
  "av1_sized p \<longleftrightarrow> RTP_HEADER_SIZE \<le> length p \<and> length p \<le> CONFIG_RECV_BUFFER_SIZE"

fun numbered :: "u16 \<Rightarrow> bytes list \<Rightarrow> bool" where
  "numbered s [] = True"
| "numbered s (p # ps) \<longleftrightarrow>
     av1_sized p \<and> map_option h_seq_number (rtp_header_of p) = Some s \<and> numbered (s + 1) ps"

lemma numbered_nth:
  "numbered s ps \<Longrightarrow> i < length ps \<Longrightarrow>
   av1_sized (ps ! i) \<and> map_option h_seq_number (rtp_header_of (ps ! i)) = Some (s + of_nat i)"
proof (induction ps arbitrary: s i)
  case (Cons p ps)
  show ?case
  proof (cases i)
    case (Suc j)
    have "s + 1 + of_nat j = s + of_nat i" using Suc by (simp add: add.assoc)
    then show ?thesis using Cons.IH [of "s + 1" j] Cons.prems Suc by (simp only: numbered.simps) simp
  qed (use Cons.prems in simp)
qed simp

lemma decode_in_window:
  assumes "window s ps k R rx" and "numbered s ps" and "k \<notin> R" and "i \<notin> R" and "k \<le> i" and "i < k + 4"
    and "i < length ps"
  shows "rtp_decode_av1 has_cb rx (ps ! i) (length (ps ! i)) =
    do {
      (rx', out) \<leftarrow> av1_reorder_drain has_cb (rx\<lparr>slots := (slots rx)[(unat s + i) mod 4 := ps ! i]\<rparr>);
      Some (int (length (ps ! i)), rx', out)
    }"
proof -
  have sz: "av1_sized (ps ! i)" and "map_option h_seq_number (rtp_header_of (ps ! i)) = Some (s + of_nat i)"
    using numbered_nth [OF assms(2,7)] by blast+
  then obtain h where h: "rtp_header_of (ps ! i) = Some h" "h_seq_number h = s + of_nat i" by auto
  have w: "ro_started rx" "expect rx = s + of_nat k" "length (slots rx) = 4" using assms(1) by (auto simp: window_def)
  have "seq_ahead (s + of_nat (k + (i - k))) (s + of_nat k) = int (i - k)" using assms(6) by (intro seq_ahead_small) simp
  then have a: "seq_ahead (h_seq_number h) (expect rx) = int (i - k)" using h(2) w(2) assms(5) by simp
  have c: "\<not> int CONFIG_AV1_REORDER_DEPTH \<le> int (i - k)" using assms(6) by (simp add: CONFIG_AV1_REORDER_DEPTH_def)
  show ?thesis
    using sz w(1,3) a c
    by (simp add: rtp_decode_av1_def av1_sized_def h(1) mem_read_def Let_def slot_of_add [of s i, folded h(2)])
qed

lemma next_missing:
  fixes R :: "nat set"
  assumes "finite R" and "\<forall>i < k. i \<in> R"
  obtains k' where "k \<le> k'" "\<forall>i < k'. i \<in> R" "k' \<notin> R"
proof -
  obtain n where n: "n \<notin> R" using ex_new_if_finite [OF infinite_UNIV_nat assms(1)] by blast
  let ?k = "LEAST n. n \<notin> R"
  have 1: "?k \<notin> R" using n by (rule LeastI [where P = "\<lambda>n. n \<notin> R"])
  have 2: "i \<in> R" if "i < ?k" for i using not_less_Least [OF that] by blast
  have "k \<le> ?k" using 1 assms(2) not_le by blast
  with 1 2 show ?thesis using that by blast
qed

lemma window_all:
  assumes "window s ps k (set seen) rx" and "k \<notin> set seen" and "numbered s ps" and "within_window seen xs"
    and "set seen \<union> set xs = {..<length ps}" and "av1_depay_all has_cb (depay rx) (drop k ps) = Some (d', out)"
  shows "\<exists>rx'. rtp_decode_av1_all has_cb rx (map (\<lambda>i. ps ! i) xs) = Some (rx', out) \<and> depay rx' = d'"
  using assms(1,2,4-)
proof (induction xs arbitrary: seen k rx out)
  case Nil
  have "\<not> k < length ps" using Nil.prems(2,4) by auto
  moreover have "\<not> length ps < k" using Nil.prems(1,4) by (auto simp: window_def)
  ultimately have "k = length ps" by simp
  then show ?case using Nil by simp
next
  case (Cons i xs)
  let ?R = "set seen" and ?R' = "insert i (set seen)"
  have i: "i \<notin> ?R" "\<forall>j \<in> {..<i - 3}. j \<in> ?R" "i < length ps" "within_window (i # seen) xs"
    using Cons.prems(3,4) by auto
  have ki: "k \<le> i" "i < k + 4"
    using Cons.prems(1,2) i(1,2) by (auto simp: window_def not_less [symmetric])
  let ?rx = "rx\<lparr>slots := (slots rx)[(unat s + i) mod 4 := ps ! i]\<rparr>"
  have w: "window s ps k ?R' ?rx" by (rule window_store [OF Cons.prems(1) i(1) ki i(3)])
  obtain k' where k': "k \<le> k'" "\<forall>j < k'. j \<in> ?R'" "k' \<notin> ?R'"
    using next_missing [of ?R' k] Cons.prems(1) by (auto simp: window_def)
  have R': "\<forall>j \<in> ?R'. j < length ps" using i(3) Cons.prems(1) by (auto simp: window_def)
  have kl: "k' \<le> length ps" using k'(2) R' by (metis linorder_not_le order_refl)
  have "drop k ps = map (\<lambda>i. ps ! i) [k..<k'] @ drop k' ps"
    using k'(1) kl by (intro nth_equalityI) (simp_all add: nth_append add.commute)
  then obtain d1 o1 o2 where d: "av1_depay_all has_cb (depay rx) (map (\<lambda>i. ps ! i) [k..<k']) = Some (d1, o1)"
    "av1_depay_all has_cb d1 (drop k' ps) = Some (d', o2)" "out = o1 @ o2"
    using Cons.prems(5) by (auto simp: av1_depay_all_append split: bind_splits)
  have ne: "\<forall>j \<in> ?R'. ps ! j \<noteq> []"
    using numbered_nth [OF assms(3)] R' by (fastforce simp: av1_sized_def RTP_HEADER_SIZE_def)
  have "\<exists>rx1. av1_reorder_drain has_cb ?rx = Some (rx1, o1) \<and> depay rx1 = d1 \<and> window s ps k' ?R' rx1"
    using k' d(1) by (intro drain_window [OF w ne k'(1)]) auto
  then obtain rx1 where rx1: "av1_reorder_drain has_cb ?rx = Some (rx1, o1)" "depay rx1 = d1" "window s ps k' ?R' rx1"
    by blast
  have "set (i # seen) \<union> set xs = {..<length ps}" using Cons.prems(4) by auto
  then obtain rx' where "rtp_decode_av1_all has_cb rx1 (map (\<lambda>i. ps ! i) xs) = Some (rx', o2)" "depay rx' = d'"
    using Cons.IH [of k' "i # seen" rx1 o2] rx1(2,3) k'(3) i(4) d(2) by auto
  then show ?case
    using decode_in_window [OF Cons.prems(1) assms(3) Cons.prems(2) i(1) ki i(3), of has_cb] rx1(1) d(3) by simp
qed


section \<open>The window stays in its buffers\<close>

definition rx_inv :: "Av1Rx \<Rightarrow> bool" where
  "rx_inv rx \<longleftrightarrow> length (slots rx) = 4 \<and> (\<forall>p \<in> set (slots rx). p = [] \<or> av1_sized p) \<and> depay_inv (depay rx)"

definition rx_ok :: "(Av1Rx \<times> bytes list) option \<Rightarrow> bool" where
  "rx_ok res \<longleftrightarrow> (\<exists>rx out. res = Some (rx, out) \<and> rx_inv rx \<and> (\<forall>u \<in> set out. in_buffer u))"

lemma rx_okE:
  assumes "rx_ok res"
  obtains rx out where "res = Some (rx, out)" "rx_inv rx" "\<forall>u \<in> set out. in_buffer u"
  using assms by (auto simp: rx_ok_def)

lemma rx_inv_update [simp]:
  "rx_inv (rx\<lparr>expect := e\<rparr>) = rx_inv rx" "rx_inv (rx\<lparr>ro_started := b\<rparr>) = rx_inv rx" "rx_inv (rx\<lparr>ro_started := b, expect := e\<rparr>) = rx_inv rx"
  by (simp_all add: rx_inv_def)

lemma rx_inv_store: "rx_inv rx \<Longrightarrow> p = [] \<or> av1_sized p \<Longrightarrow> rx_inv (rx\<lparr>slots := (slots rx)[i := p]\<rparr>)"
  by (auto simp: rx_inv_def dest!: set_update_subset_insert [THEN subsetD])

lemma release_ok:
  assumes "rx_inv rx" and "mem_get i (slots rx) = Some p" and "p \<noteq> []"
  shows "rx_ok (av1_reorder_release has_cb i rx)"
proof -
  have "p \<in> set (slots rx)" using assms(2) by (auto simp: mem_get_def split: if_splits)
  then have "12 \<le> length p" "depay_inv (depay rx)"
    using assms(1,3) by (auto simp: rx_inv_def av1_sized_def RTP_HEADER_SIZE_def)
  then obtain r d out where "av1_depay_packet has_cb (depay rx) p = Some (r, d, out)" "depay_inv d"
    "\<forall>u \<in> set out. in_buffer u"
    using av1_depay_packet_inv [of "depay rx" p has_cb] by (auto simp: stays_in_buffer_def)
  then show ?thesis
    using assms(1,2) rx_inv_store [OF assms(1), of "[]" i]
    by (auto simp: av1_reorder_release_def rx_ok_def rx_inv_def)
qed

lemma mem_get_slot: "rx_inv rx \<Longrightarrow> \<exists>p. mem_get (slot_of s) (slots rx) = Some p"
  by (simp add: rx_inv_def mem_get_def)

lemma rx_ok_seq:
  assumes "rx_ok a" and "\<And>rx out. a = Some (rx, out) \<Longrightarrow> rx_inv rx \<Longrightarrow> rx_ok (f rx)"
  shows "rx_ok (do { (rx, out) \<leftarrow> a; (rx, more) \<leftarrow> f rx; Some (rx, out @ more) })"
proof -
  obtain rx out where a: "a = Some (rx, out)" "rx_inv rx" "\<forall>u \<in> set out. in_buffer u"
    using assms(1) by (rule rx_okE)
  obtain rx' out' where "f rx = Some (rx', out')" "rx_inv rx'" "\<forall>u \<in> set out'. in_buffer u"
    using assms(2) [OF a(1,2)] by (rule rx_okE)
  with a show ?thesis by (auto simp: rx_ok_def)
qed

lemma rx_ok_none: "rx_inv rx \<Longrightarrow> rx_ok (Some (rx, []))"
  by (simp add: rx_ok_def)

lemma drain_ok: "rx_inv rx \<Longrightarrow> rx_ok (av1_reorder_drain has_cb rx)"
proof (induction "held (slots rx)" arbitrary: rx rule: less_induct)
  case less
  obtain p where p: "mem_get (slot_of (expect rx)) (slots rx) = Some p" using mem_get_slot [OF less.prems] by blast
  show ?case
  proof (cases "p = []")
    case True
    then show ?thesis using less.prems p by (simp add: av1_reorder_drain.simps [of has_cb rx] rx_ok_none)
  next
    case False
    have "rx_ok (av1_reorder_drain has_cb (rx'\<lparr>expect := expect rx' + 1\<rparr>))"
      if "av1_reorder_release has_cb (slot_of (expect rx)) rx = Some (rx', out)" "rx_inv rx'" for rx' out
    proof -
      have "slots rx' = (slots rx)[slot_of (expect rx) := []]"
        using that(1) by (auto simp: av1_reorder_release_def split: bind_splits)
      then have "held (slots rx') < held (slots rx)"
        using p False by (auto simp: mem_simps intro: held_clear)
      then show ?thesis using less.hyps [of "rx'\<lparr>expect := expect rx' + 1\<rparr>"] that(2) by simp
    qed
    from rx_ok_seq [OF release_ok [OF less.prems p False] this] False p show ?thesis
      by (simp add: av1_reorder_drain.simps [of has_cb rx])
  qed
qed

lemma flush_slots_ok: "rx_inv rx \<Longrightarrow> rx_ok (flush_slots has_cb is rx)"
proof (induction "is" arbitrary: rx)
  case (Cons i "is")
  let ?slot = "slot_of (expect rx + of_nat i)"
  obtain p where p: "mem_get ?slot (slots rx) = Some p" using mem_get_slot [OF Cons.prems] by blast
  have "rx_ok (if p \<noteq> [] then av1_reorder_release has_cb ?slot rx else Some (rx, []))"
    using release_ok [OF Cons.prems p] rx_ok_none [OF Cons.prems] by simp
  from rx_ok_seq [OF this, of "flush_slots has_cb is"] Cons.IH p show ?case by (simp add: Let_def)
qed (simp add: rx_ok_none)

section \<open>Orders of arrival\<close>

lemma av1_window_reorders:
  assumes "numbered s ps" and "within_window [] xs" and "set xs = {..<length ps}"
    and "slots rx = replicate 4 []" and "if ro_started rx then expect rx = s else xs \<noteq> [] \<and> hd xs = 0"
    and "av1_depay_all has_cb (depay rx) ps = Some (d', out)"
  shows "\<exists>rx'. rtp_decode_av1_all has_cb rx (map (\<lambda>i. ps ! i) xs) = Some (rx', out) \<and> depay rx' = d'"
proof -
  let ?rx = "rx\<lparr>ro_started := True, expect := s\<rparr>"
  have w: "window s ps 0 (set []) ?rx" using assms(4) by (simp add: window_def nth_replicate)
  have "rtp_decode_av1_all has_cb rx (map (\<lambda>i. ps ! i) xs) = rtp_decode_av1_all has_cb ?rx (map (\<lambda>i. ps ! i) xs)"
  proof (cases "ro_started rx")
    case True
    then have "?rx = rx" using assms(5) by (cases rx) simp
    then show ?thesis by simp
  next
    case False
    then obtain xs' where xs: "xs = 0 # xs'" using assms(5) by (cases xs) auto
    then have "0 < length ps" using assms(3) by (metis length_greater_0_conv lessThan_0 list.set_intros(1) list.size(3) empty_iff)
    then obtain h where h: "rtp_header_of (ps ! 0) = Some h" "h_seq_number h = s"
      using numbered_nth [OF assms(1), of 0] by auto
    have "rtp_decode_av1 has_cb rx (ps ! 0) (length (ps ! 0)) = rtp_decode_av1 has_cb ?rx (ps ! 0) (length (ps ! 0))"
      if "RTP_HEADER_SIZE \<le> length (ps ! 0)" "length (ps ! 0) \<le> CONFIG_RECV_BUFFER_SIZE"
      using that False h by (simp add: rtp_decode_av1_def)
    then show ?thesis
      using numbered_nth [OF assms(1) \<open>0 < length ps\<close>] by (simp add: xs av1_sized_def)
  qed
  moreover have "\<exists>rx'. rtp_decode_av1_all has_cb ?rx (map (\<lambda>i. ps ! i) xs) = Some (rx', out) \<and> depay rx' = d'"
    by (rule window_all [OF w _ assms(1,2)]) (use assms(3,6) in simp_all)
  ultimately show ?thesis by simp
qed


section \<open>Properties\<close>

text \<open>C11: The reorder window repairs any displacement below its depth. When the packets of a
  stream arrive in any order in which each one comes before the packet four places behind it
  (adjacent swaps, for instance), each once and the first one first, the callback gets exactly
  what it would get had they come in order.\<close>

theorem av1_reorder_repairs:
  assumes "numbered s ps" and "within_window [] xs" and "set xs = {..<length ps}"
    and "slots rx = replicate 4 []" and "if ro_started rx then expect rx = s else xs \<noteq> [] \<and> hd xs = 0"
    and "av1_depay_all has_cb (depay rx) ps = Some (d', out)"
  shows "\<exists>rx'. rtp_decode_av1_all has_cb rx (map (\<lambda>i. ps ! i) xs) = Some (rx', out) \<and> depay rx' = d'"
  by (rule av1_window_reorders [OF assms])

definition example_packet :: "u16 \<Rightarrow> u8 \<Rightarrow> bytes" where
  "example_packet s b = rtp_header_bytes \<lparr>version = 2, padding = 0, extension = 0, csrccount = 0, markerbit = 1,
     h_type = 45, h_seq_number = s, h_timestamp = 0, h_ssrc = 2\<rparr> @ [0x08, 2, 0x08, b]"

lemma example_packet_depay:
  "av1_joins d s True \<Longrightarrow>
   av1_depay_packet True d (example_packet s b) = Some (16, av1_fresh (s + 1), [[0x12, 0, 0x0A, 1, b]])"
proof -
  assume j: "av1_joins d s True"
  let ?h = "\<lparr>version = 2, padding = 0, extension = 0, csrccount = 0, markerbit = 1,
     h_type = 45, h_seq_number = s, h_timestamp = 0, h_ssrc = 2\<rparr> :: RtpHeader"
  have pl: "plain_header ?h" by (simp add: plain_header_def)
  have n: "AV1_AGGR_N 0x08" by (simp add: AV1_AGGR_N_def bit_numeral_rec)
  have "av1_depay_packet True (av1_fresh s) (example_packet s b) = Some (16, av1_fresh (s + 1), [[0x12, 0, 0x0A, 1, b]])"
    unfolding example_packet_def av1_depay_packet_plain [OF pl, of "[2, 0x08, b]", simplified]
    by (simp add: av1_fresh_def av1_depay_start_def av1_track_seq_def AV1_AGGR_Z_def AV1_AGGR_Y_def AV1_AGGR_W_def
        bit_numeral_rec depay_elements.simps av1_leb128_read_def av1_depay_close_obu_def OBU_HDR_HAS_EXTENSION_def
        OBU_HDR_HAS_SIZE_FIELD_def av1_depay_reset_def av1_temporal_delimiter_def CONFIG_MAX_AV1_TU_SIZE_def Let_def)
  then show ?thesis
    using av1_joins_packet [OF pl, of "[2, 0x08, b]" d "0x08"] j n by (simp add: example_packet_def)
qed

theorem av1_reorder_repairs_witness:
  "\<exists>rx'. rtp_decode_av1_all True av1_rx_init
      [example_packet 65535 1, example_packet 1 3, example_packet 0 2] =
    Some (rx', [[0x12, 0, 0x0A, 1, 1], [0x12, 0, 0x0A, 1, 2], [0x12, 0, 0x0A, 1, 3]]) \<and> depay rx' = av1_fresh 2"
proof -
  let ?ps = "[example_packet 65535 1, example_packet 0 2, example_packet 1 3]"
  have d: "av1_depay_all True av1_depay_init ?ps =
      Some (av1_fresh 2, [[0x12, 0, 0x0A, 1, 1], [0x12, 0, 0x0A, 1, 2], [0x12, 0, 0x0A, 1, 3]])"
  proof -
    have "av1_joins (av1_fresh 65536) 0 True" by (simp add: av1_joins_def av1_fresh_def)
    then show ?thesis by (simp add: example_packet_depay)
  qed
  have "numbered 65535 ?ps"
    by (simp add: example_packet_def rtp_header_of_bytes av1_sized_def RTP_HEADER_SIZE_def CONFIG_RECV_BUFFER_SIZE_def)
  from av1_reorder_repairs [OF this, of "[0, 2, 1]" av1_rx_init True "av1_fresh 2"] d
  show ?thesis by (simp add: av1_rx_init_def CONFIG_AV1_REORDER_DEPTH_def numeral_eq_Suc lessThan_Suc insert_commute)
qed

text \<open>C20: Whatever arrives, in whatever order, \<open>rtp_decode_av1\<close> stays inside its buffers: the
  window keeps four slots that are empty or hold a packet of receivable size, the
  depacketizer keeps its own bound, and every temporal unit delivered fits
  \<open>CONFIG_MAX_AV1_TU_SIZE\<close> and starts with the temporal delimiter.\<close>

theorem rtp_decode_av1_stays_in_buffer:
  assumes "rx_inv rx" and "sz \<le> length buf"
  shows "\<exists>r rx' out. rtp_decode_av1 has_cb rx buf sz = Some (r, rx', out) \<and> rx_inv rx' \<and>
    (\<forall>u \<in> set out. length u \<le> CONFIG_MAX_AV1_TU_SIZE \<and> take 2 u = av1_temporal_delimiter)"
proof (cases "sz < RTP_HEADER_SIZE \<or> CONFIG_RECV_BUFFER_SIZE < sz")
  case True
  then show ?thesis using assms(1) by (simp add: rtp_decode_av1_def)
next
  case False
  then obtain h where h: "rtp_header_of buf = Some h" using assms(2) by (simp add: rtp_header_of_def)
  let ?seq = "h_seq_number h"
  let ?rx = "if ro_started rx then rx else rx\<lparr>ro_started := True, expect := ?seq\<rparr>"
  have rx: "rx_inv ?rx" using assms(1) by simp
  have pkt: "av1_sized (take sz buf)" using False assms(2) by (simp add: av1_sized_def)
  let ?flushed = "if int CONFIG_AV1_REORDER_DEPTH \<le> seq_ahead ?seq (expect ?rx)
      then do { (rx, out) \<leftarrow> av1_reorder_flush has_cb ?rx; Some (rx\<lparr>expect := ?seq\<rparr>, out) } else Some (?rx, [])"
  have "rx_ok ?flushed"
    using flush_slots_ok [OF rx, of has_cb "[0..<CONFIG_AV1_REORDER_DEPTH]"] rx_ok_none [OF rx]
    by (auto simp: av1_reorder_flush_def rx_ok_def)
  moreover have "rx_ok (av1_reorder_drain has_cb (rx'\<lparr>slots := (slots rx')[slot_of ?seq := take sz buf]\<rparr>))"
    if "rx_inv rx'" for rx' using drain_ok [OF rx_inv_store [OF that]] pkt by blast
  ultimately have "rx_ok (do { (rx, out) \<leftarrow> ?flushed;
      (rx, more) \<leftarrow> av1_reorder_drain has_cb (rx\<lparr>slots := (slots rx)[slot_of ?seq := take sz buf]\<rparr>);
      Some (rx, out @ more) })"
    by (rule rx_ok_seq)
  then obtain rx' out where ok: "do { (rx, out) \<leftarrow> ?flushed;
      (rx, more) \<leftarrow> av1_reorder_drain has_cb (rx\<lparr>slots := (slots rx)[slot_of ?seq := take sz buf]\<rparr>);
      Some (rx, out @ more) } = Some (rx', out)" "rx_inv rx'" "\<forall>u \<in> set out. in_buffer u" by (rule rx_okE)
  show ?thesis
  proof (cases "seq_ahead ?seq (expect ?rx) < 0")
    case True
    then show ?thesis using False h rx by (auto simp: rtp_decode_av1_def Let_def)
  next
    case ahead: False
    obtain rx1 o1 where f: "?flushed = Some (rx1, o1)" "rx_inv rx1" using \<open>rx_ok ?flushed\<close> by (rule rx_okE)
    have "slot_of ?seq < length (slots rx1)" using f(2) by (simp add: rx_inv_def)
    then have "rtp_decode_av1 has_cb rx buf sz = Some (int sz, rx', out)"
      using False ahead ok(1) f(1) assms(2) unfolding rtp_decode_av1_def h Let_def
      by (auto simp: mem_read_def split: bind_splits)
    with ok(2,3) show ?thesis by (auto simp: in_buffer_def)
  qed
qed

theorem rtp_decode_av1_stays_in_buffer_witness:
  "\<exists>r rx' out. rtp_decode_av1 True av1_rx_init (0xFF # replicate 99 255) 100 = Some (r, rx', out) \<and> rx_inv rx' \<and>
    (\<forall>u \<in> set out. length u \<le> CONFIG_MAX_AV1_TU_SIZE \<and> take 2 u = av1_temporal_delimiter)"
  by (rule rtp_decode_av1_stays_in_buffer)
    (simp_all add: rx_inv_def av1_rx_init_def depay_inv_def av1_depay_init_def CONFIG_AV1_REORDER_DEPTH_def)

end
