(* ===== verification/Rtp_Codec.thy ===== *)
theory Rtp_Codec
  imports Rtp_H264 Rtp_Reorder
begin

text \<open>
  The encoder and decoder objects of \<^verbatim>\<open>src/src/rtp.c\<close>: initialisation per codec, the dispatch
  through their function pointers, and whole media paths from the sender's frames to what the
  receiver's callback gets.

  \<^item> A function pointer is a constructor of \<open>EncodeFunc\<close> or \<open>DecodeFunc\<close>; \<^const>\<open>None\<close> is
    NULL.
  \<^item> The static objects of the H.264 and AV1 receivers are shared by all decoders; they are
    \<open>RtpStatics\<close>.
\<close>

section \<open>Encoder objects\<close>

definition select_encoder :: "RtpPayloadType \<Rightarrow> RtpSsrc \<Rightarrow> u32 \<Rightarrow> EncodeFunc \<Rightarrow> RtpEncoder \<Rightarrow> RtpEncoder" where
  "select_encoder pt ssrc inc f enc =
     enc\<lparr>enc_type := pt, enc_ssrc := ssrc_value ssrc, timestamp_increment := inc, encode_func := Some f\<rparr>"

definition rtp_encoder_init :: "MediaCodec \<Rightarrow> RtpEncoder \<Rightarrow> RtpEncoder" where
  "rtp_encoder_init codec enc =
     (let enc = enc\<lparr>timestamp := 0, seq_number := 0\<rparr> in
      case codec of
        CODEC_H264 \<Rightarrow> select_encoder PT_H264 SSRC_H264 (90000 div 30) EncodeH264 enc
      | CODEC_AV1 \<Rightarrow> select_encoder PT_AV1 SSRC_AV1 (90000 div 30) EncodeAv1 enc
      | CODEC_PCMA \<Rightarrow> select_encoder PT_PCMA SSRC_PCMA (CONFIG_AUDIO_DURATION * 8000 div 1000) EncodeGeneric enc
      | CODEC_PCMU \<Rightarrow> select_encoder PT_PCMU SSRC_PCMU (CONFIG_AUDIO_DURATION * 8000 div 1000) EncodeGeneric enc
      | CODEC_OPUS \<Rightarrow> select_encoder PT_OPUS SSRC_OPUS (CONFIG_AUDIO_DURATION * 48000 div 1000) EncodeGeneric enc
      | _ \<Rightarrow> enc)"

definition rtp_encoder_encode ::
  "rtp_cb \<Rightarrow> RtpEncoder \<Rightarrow> bytes \<Rightarrow> (int \<times> RtpEncoder \<times> bytes list) option" where
  "rtp_encoder_encode cb enc buf =
     (case encode_func enc of
        None \<Rightarrow> Some (-1, enc, [])
      | Some EncodeH264 \<Rightarrow> rtp_encoder_encode_h264 cb enc buf
      | Some EncodeAv1 \<Rightarrow> rtp_encoder_encode_av1 cb enc buf
      | Some EncodeGeneric \<Rightarrow> rtp_encoder_encode_generic cb enc buf)"

definition rtp_encoder_set_timestamp :: "RtpEncoder \<Rightarrow> u32 \<Rightarrow> RtpEncoder" where
  "rtp_encoder_set_timestamp enc ts = enc\<lparr>timestamp := ts\<rparr>"

section \<open>Decoder objects\<close>

datatype DecodeFunc = DecodeH264 | DecodeAv1 | DecodeGeneric

record RtpDecoder =
  has_on_packet :: bool
  decode_func :: "DecodeFunc option"

definition rtp_decoder_init :: "MediaCodec \<Rightarrow> bool \<Rightarrow> RtpDecoder \<Rightarrow> RtpDecoder" where
  "rtp_decoder_init codec on_packet dec =
     (let dec = dec\<lparr>has_on_packet := on_packet\<rparr> in
      case codec of
        CODEC_H264 \<Rightarrow> dec\<lparr>decode_func := Some DecodeH264\<rparr>
      | CODEC_AV1 \<Rightarrow> dec\<lparr>decode_func := Some DecodeAv1\<rparr>
      | CODEC_PCMA \<Rightarrow> dec\<lparr>decode_func := Some DecodeGeneric\<rparr>
      | CODEC_PCMU \<Rightarrow> dec\<lparr>decode_func := Some DecodeGeneric\<rparr>
      | CODEC_OPUS \<Rightarrow> dec\<lparr>decode_func := Some DecodeGeneric\<rparr>
      | _ \<Rightarrow> dec)"

record RtpStatics =
  nalu_acc :: bytes
  av1_rx :: Av1Rx

definition rtp_statics_init :: RtpStatics where
  "rtp_statics_init = \<lparr>nalu_acc = [], av1_rx = av1_rx_init\<rparr>"

definition rtp_decoder_decode ::
  "RtpDecoder \<Rightarrow> RtpStatics \<Rightarrow> bytes \<Rightarrow> nat \<Rightarrow> (int \<times> RtpStatics \<times> bytes list) option" where
  "rtp_decoder_decode dec st buf sz =
     (case decode_func dec of
        None \<Rightarrow> Some (-1, st, [])
      | Some DecodeH264 \<Rightarrow> do {
          (r, acc, out) \<leftarrow> rtp_decode_h264 (has_on_packet dec) (nalu_acc st) buf sz;
          Some (r, st\<lparr>nalu_acc := acc\<rparr>, out)
        }
      | Some DecodeAv1 \<Rightarrow> do {
          (r, rx, out) \<leftarrow> rtp_decode_av1 (has_on_packet dec) (av1_rx st) buf sz;
          Some (r, st\<lparr>av1_rx := rx\<rparr>, out)
        }
      | Some DecodeGeneric \<Rightarrow> do {
          (r, out) \<leftarrow> rtp_decode_generic (has_on_packet dec) buf sz;
          Some (r, st, out)
        })"

fun decode_packets :: "RtpDecoder \<Rightarrow> RtpStatics \<Rightarrow> bytes list \<Rightarrow> (RtpStatics \<times> bytes list) option" where
  "decode_packets dec st [] = Some (st, [])"
| "decode_packets dec st (p # ps) = do {
     (r, st, out) \<leftarrow> rtp_decoder_decode dec st p (length p);
     (st, more) \<leftarrow> decode_packets dec st ps;
     Some (st, out @ more)
   }"

section \<open>Initialised objects\<close>

lemma encoder_init_wf [simp]: "wf_encoder (rtp_encoder_init codec enc) = wf_encoder enc"
  by (cases codec) (simp_all add: rtp_encoder_init_def select_encoder_def wf_encoder_def Let_def)

lemma encoder_init_simps:
  "encode_func (rtp_encoder_init CODEC_H264 enc) = Some EncodeH264"
  "encode_func (rtp_encoder_init CODEC_AV1 enc) = Some EncodeAv1"
  "encode_func (rtp_encoder_init CODEC_PCMA enc) = Some EncodeGeneric"
  "encode_func (rtp_encoder_init CODEC_PCMU enc) = Some EncodeGeneric"
  "encode_func (rtp_encoder_init CODEC_OPUS enc) = Some EncodeGeneric"
  by (simp_all add: rtp_encoder_init_def select_encoder_def Let_def)

lemma decoder_init_simps:
  "rtp_decoder_init CODEC_H264 b dec = dec\<lparr>has_on_packet := b, decode_func := Some DecodeH264\<rparr>"
  "rtp_decoder_init CODEC_AV1 b dec = dec\<lparr>has_on_packet := b, decode_func := Some DecodeAv1\<rparr>"
  "rtp_decoder_init CODEC_PCMA b dec = dec\<lparr>has_on_packet := b, decode_func := Some DecodeGeneric\<rparr>"
  "rtp_decoder_init CODEC_PCMU b dec = dec\<lparr>has_on_packet := b, decode_func := Some DecodeGeneric\<rparr>"
  "rtp_decoder_init CODEC_OPUS b dec = dec\<lparr>has_on_packet := b, decode_func := Some DecodeGeneric\<rparr>"
  by (simp_all add: rtp_decoder_init_def Let_def)

lemma decode_packets_append:
  "decode_packets dec st (ps @ qs) = do {
     (st1, o1) \<leftarrow> decode_packets dec st ps;
     (st2, o2) \<leftarrow> decode_packets dec st1 qs;
     Some (st2, o1 @ o2)
   }"
proof (induction ps arbitrary: st)
  case (Cons p ps)
  then show ?case by (cases "rtp_decoder_decode dec st p (length p)") (auto split: bind_splits)
qed (auto split: bind_splits)

lemma decode_packets_h264:
  "decode_func dec = Some DecodeH264 \<Longrightarrow> decode_packets dec st ps =
     do { (acc, out) \<leftarrow> rtp_decode_h264_all (has_on_packet dec) (nalu_acc st) ps; Some (st\<lparr>nalu_acc := acc\<rparr>, out) }"
proof (induction ps arbitrary: st)
  case (Cons p ps)
  then show ?case by (auto simp: rtp_decoder_decode_def split: bind_splits)
qed simp

lemma decode_packets_av1:
  "decode_func dec = Some DecodeAv1 \<Longrightarrow> decode_packets dec st ps =
     do { (rx, out) \<leftarrow> rtp_decode_av1_all (has_on_packet dec) (av1_rx st) ps; Some (st\<lparr>av1_rx := rx\<rparr>, out) }"
proof (induction ps arbitrary: st)
  case (Cons p ps)
  then show ?case by (auto simp: rtp_decoder_decode_def split: bind_splits)
qed simp


lemma decode_packets_generic:
  "decode_func dec = Some DecodeGeneric \<Longrightarrow> has_on_packet dec \<Longrightarrow> decode_packets dec st ps =
     do { (u, out) \<leftarrow> rtp_decode_generic_all () ps; Some (st, out) }"
proof (induction ps)
  case (Cons p ps)
  then show ?case by (auto simp: rtp_decoder_decode_def split: bind_splits)
qed simp

section \<open>Streams as numbered packets\<close>

lemma rtp_stream_numbered:
  "rtp_stream s pt ssrc ps \<Longrightarrow> \<forall>p \<in> set ps. length p \<le> CONFIG_MTU \<Longrightarrow> numbered s ps"
proof (induction ps arbitrary: s)
  case (Cons p ps)
  obtain h where "rtp_header_of p = Some h" "h_seq_number h = s" "rtp_stream (s + 1) pt ssrc ps"
    using Cons.prems(1) by (auto split: option.splits)
  with Cons show ?case
    by (auto simp: av1_sized_def rtp_header_of_def CONFIG_MTU_def CONFIG_RECV_BUFFER_SIZE_def split: if_splits)
qed simp

lemma send_frames_cong:
  assumes "\<And>enc f. encode_func enc = fn \<Longrightarrow> e1 enc f = e2 enc f"
    and "\<And>enc f x enc' ps. encode_func enc = fn \<Longrightarrow> e2 enc f = Some (x, enc', ps) \<Longrightarrow> f \<in> set fs \<Longrightarrow>
      wf_encoder enc \<Longrightarrow> encode_func enc' = fn \<and> wf_encoder enc'"
    and "encode_func enc = fn" and "wf_encoder enc"
  shows "send_frames e1 enc fs = send_frames e2 enc fs"
  using assms(2-4)
proof (induction fs arbitrary: enc)
  case (Cons f fs)
  show ?case
  proof (cases "e2 enc f")
    case None
    then show ?thesis using assms(1) [OF Cons.prems(2)] by simp
  next
    case (Some y)
    then obtain x enc' ps where y: "e2 enc f = Some (x, enc', ps)" by (cases y) auto
    have "encode_func enc' = fn \<and> wf_encoder enc'"
      using Cons.prems(1) [OF Cons.prems(2) y _ Cons.prems(3)] by simp
    then have "send_frames e1 enc' fs = send_frames e2 enc' fs"
      using Cons.IH [of enc'] Cons.prems(1) by (metis list.set_intros(2))
    then show ?thesis using y assms(1) [OF Cons.prems(2)] by simp
  qed
qed simp

text \<open>A packetizer keeps the function pointer, so the dispatch of \<open>rtp_encoder_encode\<close> picks it
  for every frame.\<close>

lemma dispatch_stream:
  assumes "rtp_packetizer encode frame" and "wf_cb cb" and "wf_encoder enc" and "\<forall>f \<in> set fs. frame f"
    and "encode_func enc = fn" and "\<And>enc f. encode_func enc = fn \<Longrightarrow> rtp_encoder_encode cb enc f = encode cb enc f"
  shows "send_frames (rtp_encoder_encode cb) enc fs = send_frames (encode cb) enc fs"
proof (rule send_frames_cong [OF assms(6) _ assms(5,3)])
  fix enc f x enc' ps
  assume a: "encode_func enc = fn" "encode cb enc f = Some (x, enc', ps)" "f \<in> set fs" "wf_encoder enc"
  have "frame f" using assms(4) a(3) by blast
  from rtp_packetizer.encode_ok [OF assms(1,2) a(4) this] a(1,2)
  show "encode_func enc' = fn \<and> wf_encoder enc'" by (auto simp: sent_ok_def same_stream_def)
qed

lemma av1_unit_sent_ok:
  assumes "wf_cb cb" and "wf_encoder enc" and "\<exists>us. f = tu_bytes us \<and> good_unit us"
  shows "\<exists>r enc' pkts. rtp_encoder_encode_av1 cb enc f = Some (r, enc', pkts) \<and> sent_ok enc enc' pkts"
  using av1_unit_roundtrip [OF assms(1,2) _ av1_joins_fresh] assms(3) by blast

interpretation av1_units_rtp: rtp_packetizer rtp_encoder_encode_av1 "\<lambda>f. \<exists>us. f = tu_bytes us \<and> good_unit us"
  by unfold_locales (rule av1_unit_sent_ok)

section \<open>Properties\<close>

text \<open>C3: The AV1 media path, from an initialised encoder to an initialised decoder. The temporal
  units handed to \<open>rtp_encoder_encode\<close>, the first one opening a coded video sequence, come out
  of \<open>rtp_decoder_decode\<close> each exactly once and in order, for every order of arrival that begins with the
  first packet of the stream and displaces the others by less than the reorder depth. The receiver is a fresh one; it takes
  the first packet that arrives as the beginning of the stream, so that one must not be late.\<close>

theorem media_path_av1:
  assumes "wf_cb cb" and "wf_encoder enc0" and "\<forall>us \<in> set (us0 # uss). good_unit us" and "opens_sequence us0"
  shows "\<exists>enc' pkts.
    send_frames (rtp_encoder_encode cb) (rtp_encoder_init CODEC_AV1 enc0) (map tu_bytes (us0 # uss)) = Some (enc', pkts) \<and>
    (\<forall>xs. within_window [] xs \<and> set xs = {..<length pkts} \<and> xs \<noteq> [] \<and> hd xs = 0 \<longrightarrow>
       (\<exists>st'. decode_packets (rtp_decoder_init CODEC_AV1 True dec0) rtp_statics_init (map (\<lambda>i. pkts ! i) xs) =
          Some (st', map delivered (us0 # uss))))"
proof -
  let ?enc = "rtp_encoder_init CODEC_AV1 enc0" and ?fs = "map tu_bytes (us0 # uss)"
  have wf: "wf_encoder ?enc" using assms(2) by simp
  have fr: "\<forall>f \<in> set ?fs. \<exists>us. f = tu_bytes us \<and> good_unit us" using assms(3) by auto
  have d: "send_frames (rtp_encoder_encode cb) ?enc ?fs = send_frames (rtp_encoder_encode_av1 cb) ?enc ?fs"
    using dispatch_stream [OF av1_units_rtp.rtp_packetizer_axioms assms(1) wf fr encoder_init_simps(2)]
    by (simp add: rtp_encoder_encode_def)
  obtain enc' pkts where s: "send_frames (rtp_encoder_encode_av1 cb) ?enc ?fs = Some (enc', pkts)" "sent_ok ?enc enc' pkts"
    using av1_units_rtp.send_frames_ok [OF assms(1) wf fr] by blast
  have joins: "us0 # uss \<noteq> [] \<longrightarrow> av1_joins av1_depay_init (seq_number ?enc) (opens_sequence (hd (us0 # uss)))"
    using assms(4) by simp
  obtain d' where r: "av1_depay_all True av1_depay_init pkts = Some (d', map delivered (us0 # uss))"
    using av1_units_roundtrip [OF assms(1) wf assms(3) joins] s(1) by auto
  have nb: "numbered (seq_number ?enc) pkts"
    using s(2) by (auto simp: sent_ok_def intro: rtp_stream_numbered)
  have "\<exists>st'. decode_packets (rtp_decoder_init CODEC_AV1 True dec0) rtp_statics_init (map (\<lambda>i. pkts ! i) xs) =
      Some (st', map delivered (us0 # uss))"
    if xs: "within_window [] xs" "set xs = {..<length pkts}" "xs \<noteq> []" "hd xs = 0" for xs
  proof -
    obtain rx' where "rtp_decode_av1_all True av1_rx_init (map (\<lambda>i. pkts ! i) xs) = Some (rx', map delivered (us0 # uss))"
      using av1_window_reorders [OF nb xs(1,2), of av1_rx_init True] xs(3,4) r
      by (auto simp: av1_rx_init_def CONFIG_AV1_REORDER_DEPTH_def)
    then show ?thesis by (simp add: decode_packets_av1 decoder_init_simps rtp_statics_init_def)
  qed
  with d s(1) show ?thesis by auto
qed

theorem media_path_av1_witness:
  "\<exists>enc' pkts.
    send_frames (rtp_encoder_encode (\<lambda>pkt pl. map NOT pl))
      (rtp_encoder_init CODEC_AV1 (example_encoder PT_OPUS EncodeGeneric)) (map tu_bytes example_units) = Some (enc', pkts) \<and>
    (\<forall>xs. within_window [] xs \<and> set xs = {..<length pkts} \<and> xs \<noteq> [] \<and> hd xs = 0 \<longrightarrow>
       (\<exists>st'. decode_packets (rtp_decoder_init CODEC_AV1 True \<lparr>has_on_packet = False, decode_func = None\<rparr>)
          rtp_statics_init (map (\<lambda>i. pkts ! i) xs) = Some (st', map delivered example_units)))"
  using example_units_good
  by (intro media_path_av1 [of "\<lambda>pkt pl. map NOT pl" "example_encoder PT_OPUS EncodeGeneric" "hd example_units"
        "tl example_units", unfolded example_units_Cons]) simp_all

text \<open>The H.264 media path: any number of Annex B buffers of escaped NAL units, handed one
  after the other to an encoder initialised for H.264, come out of a decoder initialised for
  H.264 as exactly those NAL units, in order, each behind the four-byte start code.\<close>

theorem media_path_h264:
  assumes "wf_cb cb" and "wf_encoder enc0"
    and "\<forall>ns \<in> set nss. \<forall>(k, n) \<in> set ns. 2 \<le> k \<and> escaped_nal n \<and> good_nal n"
  shows "\<exists>enc' pkts st'.
    send_frames (rtp_encoder_encode cb) (rtp_encoder_init CODEC_H264 enc0) (map annexb nss) = Some (enc', pkts) \<and>
    decode_packets (rtp_decoder_init CODEC_H264 True dec0) st pkts =
      Some (st', map (\<lambda>(k, n). nalu_start_4bytecode @ n) (concat nss))"
proof -
  let ?enc = "rtp_encoder_init CODEC_H264 enc0"
  have wf: "wf_encoder ?enc" using assms(2) by simp
  have fr: "\<forall>f \<in> set (map annexb nss). \<exists>ns. f = annexb ns \<and> (\<forall>(k, n) \<in> set ns. 2 \<le> k \<and> escaped_nal n)"
    using assms(3) by fastforce
  have "send_frames (rtp_encoder_encode cb) ?enc (map annexb nss) = send_frames (rtp_encoder_encode_h264 cb) ?enc (map annexb nss)"
    using dispatch_stream [OF h264_rtp.rtp_packetizer_axioms assms(1) wf fr encoder_init_simps(1)]
    by (simp add: rtp_encoder_encode_def)
  moreover obtain enc' pkts acc' where "send_frames (rtp_encoder_encode_h264 cb) ?enc (map annexb nss) = Some (enc', pkts)"
    "rtp_decode_h264_all True (nalu_acc st) pkts = Some (acc', concat (map (map (\<lambda>(k, n). nalu_start_4bytecode @ n)) nss))"
    using h264_channel.stream [OF assms(1) wf assms(3)] by blast
  ultimately show ?thesis
    by (simp add: decode_packets_h264 decoder_init_simps map_concat)
qed

theorem media_path_h264_witness:
  "\<exists>enc' pkts st'.
    send_frames (rtp_encoder_encode (\<lambda>pkt pl. map NOT pl)) (rtp_encoder_init CODEC_H264 (example_encoder PT_OPUS EncodeGeneric))
      (map annexb [[(3, 0x65 # replicate 3000 7)], [(2, [0x65, 7])]]) = Some (enc', pkts) \<and>
    decode_packets (rtp_decoder_init CODEC_H264 True \<lparr>has_on_packet = False, decode_func = None\<rparr>) rtp_statics_init pkts =
      Some (st', map (\<lambda>(k, n). nalu_start_4bytecode @ n) (concat [[(3 :: nat, 0x65 # replicate 3000 7)], [(2, [0x65, 7])]]))"
  using good_nal_replicate [of 3000] good_nal_replicate [of 1] escaped_nal_replicate [of 3000] escaped_nal_replicate [of 1]
  by (intro media_path_h264) simp_all

text \<open>The audio media path: frames of at most \<open>CONFIG_MTU - 12\<close> bytes given to an encoder
  initialised for PCMA, PCMU or Opus come out of the matching decoder unchanged and in order.\<close>

theorem media_path_audio:
  assumes "wf_cb cb" and "wf_encoder enc0" and "codec \<in> {CODEC_PCMA, CODEC_PCMU, CODEC_OPUS}"
    and "\<forall>f \<in> set fs. generic_frame f"
  shows "\<exists>enc' pkts.
    send_frames (rtp_encoder_encode cb) (rtp_encoder_init codec enc0) fs = Some (enc', pkts) \<and>
    decode_packets (rtp_decoder_init codec True dec0) st pkts = Some (st, fs)"
proof -
  let ?enc = "rtp_encoder_init codec enc0"
  have wf: "wf_encoder ?enc" using assms(2) by simp
  have fn: "encode_func ?enc = Some EncodeGeneric" using assms(3) by (auto simp: encoder_init_simps)
  have df: "decode_func (rtp_decoder_init codec True dec0) = Some DecodeGeneric"
    "has_on_packet (rtp_decoder_init codec True dec0)" using assms(3) by (auto simp: decoder_init_simps)
  have "send_frames (rtp_encoder_encode cb) ?enc fs = send_frames (rtp_encoder_encode_generic cb) ?enc fs"
    using dispatch_stream [OF generic_rtp.rtp_packetizer_axioms assms(1) wf assms(4) fn]
    by (simp add: rtp_encoder_encode_def)
  moreover obtain enc' pkts where "send_frames (rtp_encoder_encode_generic cb) ?enc fs = Some (enc', pkts)"
    "rtp_decode_generic_all () pkts = Some ((), fs)"
    using generic_channel.stream [OF assms(1) wf assms(4), of "()"] by auto
  ultimately show ?thesis
    by (simp add: decode_packets_generic df)
qed

theorem media_path_audio_witness:
  "\<exists>enc' pkts.
    send_frames (rtp_encoder_encode (\<lambda>pkt pl. map NOT pl)) (rtp_encoder_init CODEC_OPUS (example_encoder PT_H264 EncodeH264))
      [[1, 2], [], replicate 1288 5] = Some (enc', pkts) \<and>
    decode_packets (rtp_decoder_init CODEC_OPUS True \<lparr>has_on_packet = False, decode_func = None\<rparr>) rtp_statics_init pkts =
      Some (rtp_statics_init, [[1, 2], [], replicate 1288 5])"
  by (rule media_path_audio) (simp_all add: generic_frame_def CONFIG_MTU_def RTP_HEADER_SIZE_def)

end
