(* ===== verification/Rtcp.thy ===== *)
theory Rtcp
  imports Rtp
begin

text \<open>
  RTCP packets (\<^verbatim>\<open>src/src/rtcp.c\<close>, \<^verbatim>\<open>src/src/rtcp.h\<close>): telling RTCP from RTP on one port, the
  picture loss indication and the full intra request, and the receiver report. A packet is an
  array of bytes, \<^const>\<open>None\<close> a null pointer; \<open>len\<close> is what the caller says about its size.
\<close>

section \<open>Headers\<close>

datatype RtcpType = RTCP_FIR | RTCP_SR | RTCP_RR | RTCP_SDES | RTCP_BYE | RTCP_APP | RTCP_RTPFB | RTCP_PSFB | RTCP_XR

fun rtcp_type_value :: "RtcpType \<Rightarrow> u8" where
  "rtcp_type_value RTCP_FIR = 192"
| "rtcp_type_value RTCP_SR = 200"
| "rtcp_type_value RTCP_RR = 201"
| "rtcp_type_value RTCP_SDES = 202"
| "rtcp_type_value RTCP_BYE = 203"
| "rtcp_type_value RTCP_APP = 204"
| "rtcp_type_value RTCP_RTPFB = 205"
| "rtcp_type_value RTCP_PSFB = 206"
| "rtcp_type_value RTCP_XR = 207"

record RtcpHeader =
  rtcp_version :: "2 word"
  rtcp_padding :: "1 word"
  rtcp_rc :: "5 word"
  rtcp_type :: u8
  rtcp_length :: u16

text \<open>The fields in the first four bytes; \<open>rtcp_length\<close> is the value \<open>ntohs\<close> gives.\<close>

definition rtcp_header_bytes :: "RtcpHeader \<Rightarrow> bytes" where
  "rtcp_header_bytes h =
     (push_bit 6 (ucast (rtcp_version h)) OR push_bit 5 (ucast (rtcp_padding h)) OR ucast (rtcp_rc h)) #
     rtcp_type h # be16 (rtcp_length h)"

definition rtcp_header_at :: "bytes \<Rightarrow> nat \<Rightarrow> RtcpHeader option" where
  "rtcp_header_at p off = do {
     b \<leftarrow> mem_read off 4 p;
     Some \<lparr>rtcp_version = ucast (drop_bit 6 (b ! 0)), rtcp_padding = ucast (drop_bit 5 (b ! 0)),
           rtcp_rc = ucast (b ! 0), rtcp_type = b ! 1, rtcp_length = of_be16 (drop 2 b)\<rparr>
   }"

section \<open>Operations\<close>

definition rtcp_probe :: "bytes \<Rightarrow> nat \<Rightarrow> int option" where
  "rtcp_probe packet sz =
     (if sz < 8 then Some (-1)
      else do {
        h \<leftarrow> rtp_header_of packet;
        Some (if 64 \<le> h_type h \<and> h_type h < 96 then 1 else 0)
      })"

text \<open>The fields are set in a packet that is cleared first; the SSRC is copied from memory.\<close>

definition rtcp_get_pli :: "bytes option \<Rightarrow> int \<Rightarrow> u32 \<Rightarrow> (int \<times> bytes option) option" where
  "rtcp_get_pli packet len ssrc = (case packet of
     None \<Rightarrow> Some (-1, packet)
   | Some p \<Rightarrow>
       if len \<noteq> 12 then Some (-1, packet)
       else do {
         p \<leftarrow> mem_write 0 (replicate (nat len) 0) p;
         p \<leftarrow> mem_write 0 (rtcp_header_bytes
                \<lparr>rtcp_version = 2, rtcp_padding = 0, rtcp_rc = 1, rtcp_type = rtcp_type_value RTCP_PSFB,
                 rtcp_length = of_int (len div 4 - 1)\<rparr>) p;
         p \<leftarrow> mem_write 8 (le32 ssrc) p;
         Some (12, Some p)
       })"

text \<open>\<open>seqnr\<close> is the caller's counter; \<open>htonl(*seqnr << 24)\<close> is its last byte first.\<close>

definition rtcp_get_fir :: "bytes option \<Rightarrow> int \<Rightarrow> int option \<Rightarrow> (int \<times> bytes option \<times> int option) option" where
  "rtcp_get_fir packet len seqnr = (case (packet, seqnr) of
     (Some p, Some n) \<Rightarrow>
       if len \<noteq> 20 then Some (-1, packet, seqnr)
       else do {
         p \<leftarrow> mem_write 0 (replicate (nat len) 0) p;
         let n = n + 1;
         let n = (if n < 0 \<or> 256 \<le> n then 0 else n);
         p \<leftarrow> mem_write 0 (rtcp_header_bytes
                \<lparr>rtcp_version = 2, rtcp_padding = 0, rtcp_rc = 4, rtcp_type = rtcp_type_value RTCP_PSFB,
                 rtcp_length = of_int (len div 4 - 1)\<rparr>) p;
         p \<leftarrow> mem_write 16 (be32 (push_bit 24 (of_int n))) p;
         Some (20, Some p, Some n)
       }
   | _ \<Rightarrow> Some (-1, packet, seqnr))"

record RtcpReportBlock =
  rb_ssrc :: u32
  rb_flcnpl :: u32
  rb_ehsnr :: u32
  rb_jitter :: u32
  rb_lsr :: u32
  rb_dlsr :: u32

record RtcpRr =
  rr_header :: RtcpHeader
  rr_ssrc :: u32
  rr_block :: RtcpReportBlock

definition of_le32 :: "bytes \<Rightarrow> u32" where
  "of_le32 b = of_be32 (rev (take 4 b))"

text \<open>The copies keep the bytes, so the fields of the result are host readings of network-order
  words. \<open>rr_ssrc\<close> is never assigned; it is the parameter \<open>junk\<close>.\<close>

definition rtcp_parse_rr :: "u32 \<Rightarrow> bytes \<Rightarrow> RtcpRr option" where
  "rtcp_parse_rr junk packet = do {
     h \<leftarrow> rtcp_header_at packet 0;
     b \<leftarrow> mem_read 8 24 packet;
     Some \<lparr>rr_header = h, rr_ssrc = junk,
           rr_block = \<lparr>rb_ssrc = of_le32 b, rb_flcnpl = of_le32 (drop 4 b), rb_ehsnr = of_le32 (drop 8 b),
                       rb_jitter = of_le32 (drop 12 b), rb_lsr = of_le32 (drop 16 b), rb_dlsr = of_le32 (drop 20 b)\<rparr>\<rparr>
   }"

section \<open>What is read is what was written\<close>

lemma length_rtcp_header_bytes [simp]: "length (rtcp_header_bytes h) = 4"
  by (simp add: rtcp_header_bytes_def)

lemma bit_5_word_high [simp]: "bit (c :: 5 word) (5 + n) = False" "bit (c :: 5 word) 5 = False"
  "bit (c :: 5 word) (6 + n) = False" "bit (c :: 5 word) 6 = False"
  using bit_imp_le_length by force+

lemma rtcp_header_of_bytes: "rtcp_header_at (rtcp_header_bytes h @ r) 0 = Some h"
proof -
  have v: "ucast (drop_bit 6 (rtcp_header_bytes h ! 0)) = rtcp_version h"
    by (rule bit_word_eqI) (auto simp: rtcp_header_bytes_def bit_simps)
  have p: "ucast (drop_bit 5 (rtcp_header_bytes h ! 0)) = rtcp_padding h"
    by (rule bit_word_eqI) (auto simp: rtcp_header_bytes_def bit_simps)
  have c: "ucast (rtcp_header_bytes h ! 0) = rtcp_rc h"
    by (rule bit_word_eqI) (auto simp: rtcp_header_bytes_def bit_simps)
  have t: "rtcp_header_bytes h ! 1 = rtcp_type h" "drop 2 (rtcp_header_bytes h) = be16 (rtcp_length h)"
    by (simp_all add: rtcp_header_bytes_def)
  have "mem_read 0 4 (rtcp_header_bytes h @ r) = Some (rtcp_header_bytes h)"
    by (simp add: mem_read_def)
  then show ?thesis using v p c t by (simp add: rtcp_header_at_def)
qed

lemma of_le32_le32 [simp]: "of_le32 (le32 w @ r) = w" "of_le32 (le32 w) = w"
  by (simp_all add: of_le32_def le32_def)

text \<open>A packet for which the second byte is an RTCP type is RTCP, and never taken for media.\<close>

lemma rtcp_second_byte:
  assumes "12 \<le> length p"
  shows "rtcp_probe p (length p) = Some (if 64 \<le> (ucast (p ! 1) :: 7 word) \<and> (ucast (p ! 1) :: 7 word) < 96 then 1 else 0)"
    "rtp_packet_validate p (length p) = Some (if 64 \<le> (ucast (p ! 1) :: 7 word) \<and> (ucast (p ! 1) :: 7 word) < 96 then 0 else 1)"
  using assms
  by (auto simp: rtcp_probe_def rtp_packet_validate_def rtp_header_of_def RTP_HEADER_SIZE_def not_less not_le)

text \<open>RTP and RTCP share a port and are told apart by their second byte: whatever the marker
  bit, a packet of any payload type the encoders use is media and not RTCP, and a packet of any
  RTCP type is RTCP and not media.\<close>

theorem rtp_rtcp_demultiplexed:
  assumes "p = rtp_header_bytes h @ payload" and "h_type h = pt_value pt"
    and "q = rtcp_header_bytes g @ body" and "rtcp_type g = rtcp_type_value ty" and "8 \<le> length body"
  shows "rtcp_probe p (length p) = Some 0 \<and> rtp_packet_validate p (length p) = Some 1 \<and>
    rtcp_probe q (length q) = Some 1 \<and> rtp_packet_validate q (length q) = Some 0"
proof -
  have "ucast (p ! 1) = pt_value pt"
    using assms(2) rtp_header_of_bytes [of h payload]
    by (simp add: assms(1) rtp_header_of_def RTP_HEADER_SIZE_def split: if_splits) (metis RtpHeader.select_convs(6))
  then have "rtcp_probe p (length p) = Some 0 \<and> rtp_packet_validate p (length p) = Some 1"
    using rtcp_second_byte [of p] assms(1) by (cases pt) simp_all
  moreover have "q ! 1 = rtcp_type_value ty"
    using assms(3,4) by (simp add: rtcp_header_bytes_def)
  then have "rtcp_probe q (length q) = Some 1 \<and> rtp_packet_validate q (length q) = Some 0"
    using rtcp_second_byte [of q] assms(3,5) by (cases ty) simp_all
  ultimately show ?thesis by simp
qed

definition example_rtp_header :: RtpHeader where
  "example_rtp_header = \<lparr>version = 2, padding = 0, extension = 0, csrccount = 0, markerbit = 1, h_type = 45,
     h_seq_number = 7, h_timestamp = 3000, h_ssrc = 2\<rparr>"

definition example_rtcp_header :: RtcpHeader where
  "example_rtcp_header = \<lparr>rtcp_version = 2, rtcp_padding = 0, rtcp_rc = 1, rtcp_type = 206, rtcp_length = 2\<rparr>"

lemma rtp_rtcp_demultiplexed_witness:
  "rtcp_probe (rtp_header_bytes example_rtp_header @ [1, 2]) (length (rtp_header_bytes example_rtp_header @ [1, 2])) = Some 0 \<and>
   rtcp_probe (rtcp_header_bytes example_rtcp_header @ replicate 8 0) (length (rtcp_header_bytes example_rtcp_header @ replicate 8 0)) = Some 1"
proof -
  have "h_type example_rtp_header = pt_value PT_AV1" by (simp add: example_rtp_header_def)
  moreover have "rtcp_type example_rtcp_header = rtcp_type_value RTCP_PSFB" by (simp add: example_rtcp_header_def)
  ultimately show ?thesis
    using rtp_rtcp_demultiplexed [OF refl _ refl, of example_rtp_header PT_AV1 example_rtcp_header RTCP_PSFB "replicate 8 0" "[1, 2]"]
    by simp
qed

text \<open>The feedback packets byte for byte.\<close>

lemma rtcp_get_pli_bytes:
  assumes "12 \<le> length p"
  shows "rtcp_get_pli (Some p) 12 ssrc =
     Some (12, Some ([0x81, 206, 0, 2] @ replicate 4 0 @ le32 ssrc @ drop 12 p))"
proof -
  obtain q r where p: "p = q @ r" "length q = 12" using assms by (metis append_take_drop_id length_take min.absorb2)
  have h: "rtcp_header_bytes \<lparr>rtcp_version = 2, rtcp_padding = 0, rtcp_rc = 1, rtcp_type = 206, rtcp_length = 2\<rparr> = [0x81, 206, 0, 2]"
    by code_simp
  show ?thesis
    by (simp add: rtcp_get_pli_def p mem_write_def h)
qed

lemma rtcp_get_fir_bytes:
  assumes "20 \<le> length p" and "0 \<le> n" and "n < 256"
  shows "rtcp_get_fir (Some p) 20 (Some n) =
     Some (20, Some ([0x84, 206, 0, 4] @ replicate 12 0 @ [of_int ((n + 1) mod 256), 0, 0, 0] @ drop 20 p),
           Some ((n + 1) mod 256))"
proof -
  obtain q r where p: "p = q @ r" "length q = 20" using assms(1) by (metis append_take_drop_id length_take min.absorb2)
  have h: "rtcp_header_bytes \<lparr>rtcp_version = 2, rtcp_padding = 0, rtcp_rc = 4, rtcp_type = 206, rtcp_length = 4\<rparr> = [0x84, 206, 0, 4]"
    by code_simp
  have b: "be32 (push_bit 24 (of_int m)) = [of_int m, 0, 0, 0]" for m
    by (simp add: be32_def) (auto intro!: bit_word_eqI simp: bit_simps)
  have "(if n + 1 < 0 \<or> 256 \<le> n + 1 then 0 else n + 1) = (n + 1) mod 256" using assms(2,3) by (cases "n = 255") auto
  then show ?thesis
    by (simp add: rtcp_get_fir_def p mem_write_def h b Let_def)
qed

end
