(* ===== verification/Dtls_Srtp.thy ===== *)
theory Dtls_Srtp
  imports C_Text Socket
begin

text \<open>
  DTLS-SRTP (\<^verbatim>\<open>src/src/dtls_srtp.c\<close>, \<^verbatim>\<open>src/src/dtls_srtp.h\<close>): the fingerprint of a certificate, the
  handshake and its check of the peer, the SRTP keys of both directions, and the calls the
  connection makes.

  \<^item> mbedTLS and libsrtp are the parameter \<open>tls\<close>. Its DTLS context has the type \<open>'t\<close>, an SRTP session
    the type \<open>'p\<close>. The calls that do input and output get the functions \<open>udp_send\<close> and \<open>udp_recv\<close> of
    the object (the record \<open>Bio\<close>), which act on a state \<open>'s\<close>.
  \<^item> \<open>mbedtls_ssl_handshake\<close> reports the secrets it exports; the registered callback, which touches
    only the SRTP half of the object, is applied to them when the call returns.
  \<^item> The retry loops are partial functions: \<^const>\<open>None\<close> is also the value of a loop that does not end.
\<close>

section \<open>Types\<close>

definition SRTP_MASTER_KEY_LENGTH :: nat where "SRTP_MASTER_KEY_LENGTH = 16"
definition SRTP_MASTER_SALT_LENGTH :: nat where "SRTP_MASTER_SALT_LENGTH = 14"
definition DTLS_SRTP_KEY_MATERIAL_LENGTH :: nat where "DTLS_SRTP_KEY_MATERIAL_LENGTH = 60"
definition DTLS_SRTP_FINGERPRINT_LENGTH :: nat where "DTLS_SRTP_FINGERPRINT_LENGTH = 160"

lemmas srtp_lengths = SRTP_MASTER_KEY_LENGTH_def SRTP_MASTER_SALT_LENGTH_def DTLS_SRTP_KEY_MATERIAL_LENGTH_def
  DTLS_SRTP_FINGERPRINT_LENGTH_def

definition MBEDTLS_ERR_SSL_WANT_READ :: int where "MBEDTLS_ERR_SSL_WANT_READ = - 0x6900"
definition MBEDTLS_ERR_SSL_WANT_WRITE :: int where "MBEDTLS_ERR_SSL_WANT_WRITE = - 0x6880"
definition MBEDTLS_ERR_SSL_HELLO_VERIFY_REQUIRED :: int where "MBEDTLS_ERR_SSL_HELLO_VERIFY_REQUIRED = - 0x6A80"

definition want_io :: "int \<Rightarrow> bool" where
  "want_io ret \<longleftrightarrow> ret = MBEDTLS_ERR_SSL_WANT_READ \<or> ret = MBEDTLS_ERR_SSL_WANT_WRITE"

datatype DtlsSrtpRole = DTLS_SRTP_ROLE_CLIENT | DTLS_SRTP_ROLE_SERVER

datatype DtlsSrtpState = DTLS_SRTP_STATE_INIT | DTLS_SRTP_STATE_HANDSHAKE | DTLS_SRTP_STATE_CONNECTED

text \<open>An exported secret with the two random values.\<close>

type_synonym key_export = "bytes \<times> bytes \<times> bytes"

record 's Bio =
  bio_send :: "bytes \<Rightarrow> 's \<Rightarrow> (int \<times> 's) option"
  bio_recv :: "nat \<Rightarrow> 's \<Rightarrow> (int \<times> bytes \<times> 's) option"

record ('t, 'p, 's) Tls =
  tls_new :: "DtlsSrtpRole \<Rightarrow> bytes \<Rightarrow> 't"
  tls_session_reset :: "'t \<Rightarrow> 't"
  tls_handshake :: "'s Bio \<Rightarrow> 't \<Rightarrow> 's \<Rightarrow> (int \<times> key_export list \<times> 't \<times> 's) option"
  tls_read :: "'s Bio \<Rightarrow> nat \<Rightarrow> 't \<Rightarrow> 's \<Rightarrow> (int \<times> bytes \<times> 't \<times> 's) option"
  tls_write :: "'s Bio \<Rightarrow> bytes \<Rightarrow> 't \<Rightarrow> 's \<Rightarrow> (int \<times> 't \<times> 's) option"
  tls_peer_cert :: "'t \<Rightarrow> bytes option"
  tls_prf :: "bytes \<Rightarrow> bytes \<Rightarrow> bytes \<Rightarrow> nat \<Rightarrow> int \<times> bytes"
  tls_sha256 :: "bytes \<Rightarrow> bytes"
  srtp_create :: "bool \<Rightarrow> bytes \<Rightarrow> int \<times> 'p"
  srtp_unprotect :: "'p \<Rightarrow> bytes \<Rightarrow> nat \<Rightarrow> int \<times> bytes \<times> nat \<times> 'p"
  srtp_unprotect_rtcp :: "'p \<Rightarrow> bytes \<Rightarrow> nat \<Rightarrow> int \<times> bytes \<times> nat \<times> 'p"
  srtp_protect :: "'p \<Rightarrow> bytes \<Rightarrow> nat \<Rightarrow> int \<times> bytes \<times> nat \<times> 'p"
  srtp_protect_rtcp :: "'p \<Rightarrow> bytes \<Rightarrow> nat \<Rightarrow> int \<times> bytes \<times> nat \<times> 'p"

text \<open>The sessions are pointers: \<^const>\<open>None\<close> before \<^verbatim>\<open>srtp_create\<close> and after \<^verbatim>\<open>srtp_dealloc\<close>.\<close>

record ('t, 'p) DtlsSrtp =
  ssl :: "'t option"
  cert :: bytes
  srtp_in :: "'p option"
  srtp_out :: "'p option"
  remote_policy_key :: bytes
  local_policy_key :: bytes
  dtls_role :: DtlsSrtpRole
  dtls_state :: DtlsSrtpState
  local_fingerprint :: bytes
  remote_fingerprint :: bytes
  actual_remote_fingerprint :: bytes

definition dtls_zero :: "('t, 'p) DtlsSrtp" where
  "dtls_zero = \<lparr>ssl = None, cert = [], srtp_in = None, srtp_out = None, remote_policy_key = replicate 30 0,
     local_policy_key = replicate 30 0, dtls_role = DTLS_SRTP_ROLE_CLIENT, dtls_state = DTLS_SRTP_STATE_INIT,
     local_fingerprint = replicate DTLS_SRTP_FINGERPRINT_LENGTH 0,
     remote_fingerprint = replicate DTLS_SRTP_FINGERPRINT_LENGTH 0,
     actual_remote_fingerprint = replicate DTLS_SRTP_FINGERPRINT_LENGTH 0\<rparr>"

section \<open>Plain UDP transport\<close>

definition dtls_srtp_udp_send :: "'w Os \<Rightarrow> UdpSocket \<Rightarrow> Address \<Rightarrow> bytes \<Rightarrow> 'w \<Rightarrow> (int \<times> 'w) option" where
  "dtls_srtp_udp_send os sock addr buf w = udp_socket_sendto os sock addr buf (length buf) w"

partial_function (option) dtls_srtp_udp_recv ::
  "'w Os \<Rightarrow> UdpSocket \<Rightarrow> bytes \<Rightarrow> 'w \<Rightarrow> (int \<times> UdpSocket \<times> bytes \<times> 'w) option" where
  "dtls_srtp_udp_recv os sock buf w = do {
     (ret, a, buf, w) \<leftarrow> udp_socket_recvfrom os sock (Some (bind_addr sock)) buf (length buf) w;
     let sock = (case a of None \<Rightarrow> sock | Some x \<Rightarrow> sock\<lparr>bind_addr := x\<rparr>);
     (if ret \<le> 0 then dtls_srtp_udp_recv os sock buf w else Some (ret, sock, buf, w))
   }"

section \<open>Fingerprints\<close>

definition fp_digit :: "nat \<Rightarrow> u8" where
  "fp_digit n = (if n < 10 then of_nat (48 + n) else of_nat (55 + n))"

definition fp_byte :: "u8 \<Rightarrow> bytes" where
  "fp_byte b = [fp_digit (unat b div 16), fp_digit (unat b mod 16), 58]"

text \<open>Each \<^verbatim>\<open>snprintf\<close> writes three characters and a NUL, the next one over that NUL; the last colon is
  overwritten.\<close>

fun write_digest :: "bytes \<Rightarrow> nat \<Rightarrow> bytes \<Rightarrow> (nat \<times> bytes) option" where
  "write_digest [] pos buf = Some (pos, buf)"
| "write_digest (d # ds) pos buf = do {
     buf \<leftarrow> mem_write pos (fp_byte d @ [0]) buf;
     write_digest ds (pos + 3) buf
   }"

definition dtls_srtp_x509_digest :: "('t, 'p, 's) Tls \<Rightarrow> bytes \<Rightarrow> bytes \<Rightarrow> bytes option" where
  "dtls_srtp_x509_digest tls raw buf = do {
     (pos, buf) \<leftarrow> write_digest (take 32 (tls_sha256 tls raw)) 0 buf;
     c_assert (0 < pos);
     mem_write (pos - 1) [0] buf
   }"

definition BADCERT_ACCEPTED :: u32 where
  "BADCERT_ACCEPTED = 0x08 OR 0x04 OR 0x010000"

definition dtls_srtp_cert_verify :: "u32 \<Rightarrow> int \<times> u32" where
  "dtls_srtp_cert_verify flags = (0, flags AND NOT BADCERT_ACCEPTED)"

text \<open>\<open>strncmp(a, b, n) == 0\<close>.\<close>

definition c_cut :: "nat \<Rightarrow> bytes \<Rightarrow> bytes" where
  "c_cut n a = takeWhile (\<lambda>b. b \<noteq> 0) (take n a)"

definition strncmp_eq :: "bytes \<Rightarrow> bytes \<Rightarrow> nat \<Rightarrow> bool" where
  "strncmp_eq a b n \<longleftrightarrow> c_cut n a = c_cut n b"

section \<open>Life cycle\<close>

text \<open>\<open>raw\<close> is the certificate \<open>dtls_srtp_selfsign_cert\<close> makes, \<open>tls_new\<close> what the configuration calls
  leave in the context for the role.\<close>

definition dtls_srtp_init ::
  "('t, 'p, 's) Tls \<Rightarrow> bytes \<Rightarrow> ('t, 'p) DtlsSrtp \<Rightarrow> DtlsSrtpRole \<Rightarrow> (int \<times> ('t, 'p) DtlsSrtp) option" where
  "dtls_srtp_init tls raw d role = do {
     let d = d\<lparr>dtls_role := role, dtls_state := DTLS_SRTP_STATE_INIT, cert := raw\<rparr>;
     f \<leftarrow> dtls_srtp_x509_digest tls (cert d) (local_fingerprint d);
     Some (0, d\<lparr>local_fingerprint := f, ssl := Some (tls_new tls (dtls_role d) (cert d))\<rparr>)
   }"

text \<open>Sessions are released only in the connected state.\<close>

definition srtp_dealloc_both :: "('t, 'p) DtlsSrtp \<Rightarrow> ('t, 'p) DtlsSrtp" where
  "srtp_dealloc_both d = d\<lparr>srtp_in := None, srtp_out := None\<rparr>"

definition dtls_srtp_deinit :: "('t, 'p) DtlsSrtp \<Rightarrow> ('t, 'p) DtlsSrtp" where
  "dtls_srtp_deinit d =
     (let d = d\<lparr>ssl := None, cert := []\<rparr> in
      if dtls_state d = DTLS_SRTP_STATE_CONNECTED then srtp_dealloc_both d else d)"

definition dtls_srtp_reset_session :: "('t, 'p, 's) Tls \<Rightarrow> ('t, 'p) DtlsSrtp \<Rightarrow> ('t, 'p) DtlsSrtp" where
  "dtls_srtp_reset_session tls d =
     (let d = (if dtls_state d = DTLS_SRTP_STATE_CONNECTED
               then let d = srtp_dealloc_both d in d\<lparr>ssl := map_option (tls_session_reset tls) (ssl d)\<rparr>
               else d)
      in d\<lparr>dtls_state := DTLS_SRTP_STATE_INIT\<rparr>)"

section \<open>Keys\<close>

text \<open>The exported material: client key, server key, client salt, server salt.\<close>

definition client_key :: "bytes \<Rightarrow> bytes" where "client_key km = take 16 km"
definition server_key :: "bytes \<Rightarrow> bytes" where "server_key km = take 16 (drop 16 km)"
definition client_salt :: "bytes \<Rightarrow> bytes" where "client_salt km = take 14 (drop 32 km)"
definition server_salt :: "bytes \<Rightarrow> bytes" where "server_salt km = take 14 (drop 46 km)"

definition policy_keys :: "DtlsSrtpRole \<Rightarrow> bytes \<Rightarrow> bytes \<times> bytes" where
  "policy_keys role km =
     (if role = DTLS_SRTP_ROLE_SERVER
      then (client_key km @ client_salt km, server_key km @ server_salt km)
      else (server_key km @ server_salt km, client_key km @ client_salt km))"

definition dtls_srtp_key_derivation ::
  "('t, 'p, 's) Tls \<Rightarrow> ('t, 'p) DtlsSrtp \<Rightarrow> bytes \<Rightarrow> bytes \<Rightarrow> int \<times> ('t, 'p) DtlsSrtp" where
  "dtls_srtp_key_derivation tls d master_secret randbytes =
     (let (ret, km) = tls_prf tls master_secret (str ''EXTRACTOR-dtls_srtp'') randbytes DTLS_SRTP_KEY_MATERIAL_LENGTH in
      if ret \<noteq> 0 then (ret, d)
      else let (rk, lk) = policy_keys (dtls_role d) km; d = d\<lparr>remote_policy_key := rk\<rparr>;
               (st, p) = srtp_create tls True rk in
        if st \<noteq> 0 then (-1, d)
        else let d = d\<lparr>srtp_in := Some p, local_policy_key := lk\<rparr>; (st, q) = srtp_create tls False lk in
          if st \<noteq> 0 then (-1, d)
          else (0, d\<lparr>srtp_out := Some q, dtls_state := DTLS_SRTP_STATE_CONNECTED\<rparr>))"

text \<open>Its result is dropped.\<close>

definition dtls_srtp_key_derivation_cb ::
  "('t, 'p, 's) Tls \<Rightarrow> key_export \<Rightarrow> ('t, 'p) DtlsSrtp \<Rightarrow> ('t, 'p) DtlsSrtp" where
  "dtls_srtp_key_derivation_cb tls e d = (case e of (secret, client_random, server_random) \<Rightarrow>
     snd (dtls_srtp_key_derivation tls d (take 48 secret) (take 32 client_random @ take 32 server_random)))"

section \<open>Handshake\<close>

partial_function (option) dtls_srtp_do_handshake ::
  "('t, 'p, 's) Tls \<Rightarrow> 's Bio \<Rightarrow> ('t, 'p) DtlsSrtp \<Rightarrow> 's \<Rightarrow> (int \<times> ('t, 'p) DtlsSrtp \<times> 's) option" where
  "dtls_srtp_do_handshake tls bio d s = do {
     t \<leftarrow> ssl d;
     (ret, ks, t, s) \<leftarrow> tls_handshake tls bio t s;
     let d = fold (dtls_srtp_key_derivation_cb tls) ks (d\<lparr>ssl := Some t\<rparr>);
     (if want_io ret then dtls_srtp_do_handshake tls bio d s else Some (ret, d, s))
   }"

partial_function (option) dtls_srtp_handshake_server ::
  "('t, 'p, 's) Tls \<Rightarrow> 's Bio \<Rightarrow> ('t, 'p) DtlsSrtp \<Rightarrow> 's \<Rightarrow> (int \<times> ('t, 'p) DtlsSrtp \<times> 's) option" where
  "dtls_srtp_handshake_server tls bio d s = do {
     let d = d\<lparr>ssl := map_option (tls_session_reset tls) (ssl d)\<rparr>;
     (ret, d, s) \<leftarrow> dtls_srtp_do_handshake tls bio d s;
     (if ret = MBEDTLS_ERR_SSL_HELLO_VERIFY_REQUIRED then dtls_srtp_handshake_server tls bio d s
      else Some (ret, d, s))
   }"

definition dtls_srtp_handshake_client ::
  "('t, 'p, 's) Tls \<Rightarrow> 's Bio \<Rightarrow> ('t, 'p) DtlsSrtp \<Rightarrow> 's \<Rightarrow> (int \<times> ('t, 'p) DtlsSrtp \<times> 's) option" where
  "dtls_srtp_handshake_client tls bio d s = dtls_srtp_do_handshake tls bio d s"

definition dtls_srtp_handshake ::
  "('t, 'p, 's) Tls \<Rightarrow> 's Bio \<Rightarrow> ('t, 'p) DtlsSrtp \<Rightarrow> 's \<Rightarrow> (int \<times> ('t, 'p) DtlsSrtp \<times> 's) option" where
  "dtls_srtp_handshake tls bio d s = do {
     (ret, d, s) \<leftarrow> (if dtls_role d = DTLS_SRTP_ROLE_SERVER then dtls_srtp_handshake_server tls bio d s
                    else dtls_srtp_handshake_client tls bio d s);
     t \<leftarrow> ssl d;
     (case tls_peer_cert tls t of
        None \<Rightarrow> Some (-1, d, s)
      | Some raw \<Rightarrow> do {
          f \<leftarrow> dtls_srtp_x509_digest tls raw (actual_remote_fingerprint d);
          let d = d\<lparr>actual_remote_fingerprint := f\<rparr>;
          (if \<not> strncmp_eq (remote_fingerprint d) f DTLS_SRTP_FINGERPRINT_LENGTH then Some (-1, d, s)
           else Some (ret, d, s))
        })
   }"

section \<open>Data\<close>

partial_function (option) dtls_srtp_write ::
  "('t, 'p, 's) Tls \<Rightarrow> 's Bio \<Rightarrow> bytes \<Rightarrow> ('t, 'p) DtlsSrtp \<Rightarrow> 's \<Rightarrow> (int \<times> ('t, 'p) DtlsSrtp \<times> 's) option" where
  "dtls_srtp_write tls bio buf d s = do {
     t \<leftarrow> ssl d;
     (ret, t, s) \<leftarrow> tls_write tls bio buf t s;
     let d = d\<lparr>ssl := Some t\<rparr>;
     (if want_io ret then dtls_srtp_write tls bio buf d s else Some (ret, d, s))
   }"

text \<open>The buffer is cleared before; the library writes at most \<open>len\<close> bytes into it.\<close>

partial_function (option) dtls_srtp_read_loop ::
  "('t, 'p, 's) Tls \<Rightarrow> 's Bio \<Rightarrow> bytes \<Rightarrow> nat \<Rightarrow> ('t, 'p) DtlsSrtp \<Rightarrow> 's \<Rightarrow> (int \<times> bytes \<times> ('t, 'p) DtlsSrtp \<times> 's) option" where
  "dtls_srtp_read_loop tls bio buf len d s = do {
     t \<leftarrow> ssl d;
     (ret, bs, t, s) \<leftarrow> tls_read tls bio len t s;
     let d = d\<lparr>ssl := Some t\<rparr>;
     buf \<leftarrow> mem_write 0 bs buf;
     (if want_io ret then dtls_srtp_read_loop tls bio buf len d s else Some (ret, buf, d, s))
   }"

definition dtls_srtp_read ::
  "('t, 'p, 's) Tls \<Rightarrow> 's Bio \<Rightarrow> bytes \<Rightarrow> nat \<Rightarrow> ('t, 'p) DtlsSrtp \<Rightarrow> 's \<Rightarrow> (int \<times> bytes \<times> ('t, 'p) DtlsSrtp \<times> 's) option" where
  "dtls_srtp_read tls bio buf len d s = do {
     buf \<leftarrow> mem_write 0 (replicate len 0) buf;
     dtls_srtp_read_loop tls bio buf len d s
   }"

text \<open>Application data only.\<close>

definition dtls_srtp_probe :: "bytes option \<Rightarrow> bool option" where
  "dtls_srtp_probe buf = (case buf of None \<Rightarrow> Some False | Some b \<Rightarrow> do { c \<leftarrow> mem_get 0 b; Some (c = 0x17) })"

text \<open>The SRTP calls work in place and change the size; a null session is dereferenced by the library.\<close>

definition dtls_srtp_decrypt_rtp_packet ::
  "('t, 'p, 's) Tls \<Rightarrow> ('t, 'p) DtlsSrtp \<Rightarrow> bytes \<Rightarrow> nat \<Rightarrow> (int \<times> bytes \<times> nat \<times> ('t, 'p) DtlsSrtp) option" where
  "dtls_srtp_decrypt_rtp_packet tls d packet n = do {
     p \<leftarrow> srtp_in d;
     let (st, packet, n, p) = srtp_unprotect tls p packet n;
     Some (if st \<noteq> 0 then -1 else 0, packet, n, d\<lparr>srtp_in := Some p\<rparr>)
   }"

definition dtls_srtp_decrypt_rtcp_packet ::
  "('t, 'p, 's) Tls \<Rightarrow> ('t, 'p) DtlsSrtp \<Rightarrow> bytes \<Rightarrow> nat \<Rightarrow> (bytes \<times> nat \<times> ('t, 'p) DtlsSrtp) option" where
  "dtls_srtp_decrypt_rtcp_packet tls d packet n = do {
     p \<leftarrow> srtp_in d;
     let (st, packet, n, p) = srtp_unprotect_rtcp tls p packet n;
     Some (packet, n, d\<lparr>srtp_in := Some p\<rparr>)
   }"

definition dtls_srtp_encrypt_rtp_packet ::
  "('t, 'p, 's) Tls \<Rightarrow> ('t, 'p) DtlsSrtp \<Rightarrow> bytes \<Rightarrow> nat \<Rightarrow> (bytes \<times> nat \<times> ('t, 'p) DtlsSrtp) option" where
  "dtls_srtp_encrypt_rtp_packet tls d packet n = do {
     p \<leftarrow> srtp_out d;
     let (st, packet, n, p) = srtp_protect tls p packet n;
     Some (packet, n, d\<lparr>srtp_out := Some p\<rparr>)
   }"

definition dtls_srtp_encrypt_rctp_packet ::
  "('t, 'p, 's) Tls \<Rightarrow> ('t, 'p) DtlsSrtp \<Rightarrow> bytes \<Rightarrow> nat \<Rightarrow> (bytes \<times> nat \<times> ('t, 'p) DtlsSrtp) option" where
  "dtls_srtp_encrypt_rctp_packet tls d packet n = do {
     p \<leftarrow> srtp_out d;
     let (st, packet, n, p) = srtp_protect_rtcp tls p packet n;
     Some (packet, n, d\<lparr>srtp_out := Some p\<rparr>)
   }"

section \<open>The text of a fingerprint\<close>

definition fingerprint_text :: "bytes \<Rightarrow> bytes" where
  "fingerprint_text ds = butlast (concat (map fp_byte ds))"

lemma unat_fp_digit: "n < 16 \<Longrightarrow> unat (fp_digit n) = (if n < 10 then 48 + n else 55 + n)"
  by (cases "n < 10") (simp_all only: fp_digit_def if_True if_False unat_of_nat, simp_all)

lemma fp_digit_props: "n < 16 \<Longrightarrow> fp_digit n \<noteq> 0 \<and> fp_digit n \<noteq> 58"
  using unat_fp_digit [of n] by (auto dest: arg_cong [where f = unat] split: if_splits)

lemma fp_digit_inject: "m < 16 \<Longrightarrow> n < 16 \<Longrightarrow> fp_digit m = fp_digit n \<longleftrightarrow> m = n"
proof
  assume mn: "m < 16" "n < 16" and "fp_digit m = fp_digit n"
  then have "(if m < 10 then 48 + m else 55 + m) = (if n < 10 then 48 + n else 55 + n)"
    using unat_fp_digit [OF mn(1)] unat_fp_digit [OF mn(2)] by metis
  then show "m = n" by (simp split: if_splits)
qed simp

lemma fp_nibbles: "unat (d :: u8) div 16 < 16" "unat d mod 16 < 16"
  by (rule less_mult_imp_div_less) simp_all

lemma fp_byte_inject: "fp_byte a = fp_byte b \<longleftrightarrow> a = b"
proof
  assume e: "fp_byte a = fp_byte b"
  have "unat a div 16 = unat b div 16" "unat a mod 16 = unat b mod 16"
    using e fp_nibbles [of a] fp_nibbles [of b] by (simp_all add: fp_byte_def fp_digit_inject)
  then have "unat a = unat b" by (metis div_mult_mod_eq)
  then show "a = b" by (rule unsigned_word_eqI)
qed simp

lemma no_nul_hex: "no_nul (concat (map fp_byte ds))"
proof -
  have "0 \<notin> set (fp_byte d)" for d
    using fp_digit_props fp_nibbles [of d] by (auto simp: fp_byte_def)
  then show ?thesis by (auto simp: no_nul_def)
qed

lemma concat_hex_snoc: "ds \<noteq> [] \<Longrightarrow> concat (map fp_byte ds) = fingerprint_text ds @ [58]"
proof -
  assume "ds \<noteq> []"
  then obtain xs x where "ds = xs @ [x]" by (metis rev_exhaust)
  then show ?thesis by (simp add: fingerprint_text_def fp_byte_def butlast_append)
qed

lemma length_concat_hex: "length (concat (map fp_byte ds)) = 3 * length ds"
  by (induction ds) (simp_all add: fp_byte_def)

lemma length_fingerprint_text: "length (fingerprint_text ds) = 3 * length ds - 1"
  by (simp add: fingerprint_text_def length_concat_hex)

lemma no_nul_fingerprint_text: "no_nul (fingerprint_text ds)"
  using no_nul_hex [of ds] by (auto simp: no_nul_def fingerprint_text_def dest: in_set_butlastD)

lemma concat_hex_inject:
  "length ds = length es \<Longrightarrow> concat (map fp_byte ds) = concat (map fp_byte es) \<Longrightarrow> ds = es"
proof (induction ds arbitrary: es)
  case (Cons d ds)
  then obtain e es' where "es = e # es'" by (cases es) auto
  then show ?case using Cons fp_byte_inject [of d e] by (auto simp: fp_byte_def)
qed simp

text \<open>Different digests have different texts.\<close>

lemma fingerprint_text_inject: "length ds = length es \<Longrightarrow> ds \<noteq> [] \<Longrightarrow> fingerprint_text ds = fingerprint_text es \<Longrightarrow> ds = es"
  using concat_hex_snoc [of ds] concat_hex_snoc [of es] concat_hex_inject [of ds es] by force

lemma write_digest_text:
  "pos + 3 * length ds < length buf \<Longrightarrow> ds \<noteq> [] \<Longrightarrow>
   write_digest ds pos buf = Some (pos + 3 * length ds,
     take pos buf @ concat (map fp_byte ds) @ 0 # drop (pos + 3 * length ds + 1) buf)"
proof (induction ds arbitrary: pos buf)
  case (Cons d ds)
  let ?b = "take pos buf @ fp_byte d @ 0 # drop (pos + 4) buf"
  have l: "length (fp_byte d) = 3" by (simp add: fp_byte_def)
  then have w: "mem_write pos (fp_byte d @ [0]) buf = Some ?b" using Cons.prems(1) by (simp add: mem_write_def)
  show ?case
  proof (cases "ds = []")
    case True
    then show ?thesis using w by (simp add: eval_nat_numeral)
  next
    case False
    have p: "pos + 3 + 3 * length ds < length ?b" using Cons.prems(1) l by simp
    have t: "take (pos + 3) ?b = take pos buf @ fp_byte d" using Cons.prems(1) l by simp
    have "drop (pos + 3 + 3 * length ds + 1) ?b = drop (pos + 3 * length (d # ds) + 1) buf"
      using Cons.prems(1) l False by (simp add: ac_simps)
    then show ?thesis using Cons.IH [OF p False] w t by (simp add: add.assoc)
  qed
qed simp

text \<open>\<open>dtls_srtp_x509_digest\<close> leaves the text of the digest in the array.\<close>

lemma x509_digest_text:
  assumes "length (tls_sha256 tls raw) = 32" and "length buf = DTLS_SRTP_FINGERPRINT_LENGTH"
  shows "\<exists>f. dtls_srtp_x509_digest tls raw buf = Some f \<and> length f = DTLS_SRTP_FINGERPRINT_LENGTH \<and>
    c_text f = Some (fingerprint_text (tls_sha256 tls raw)) \<and>
    c_cut DTLS_SRTP_FINGERPRINT_LENGTH f = fingerprint_text (tls_sha256 tls raw)"
proof -
  let ?d = "tls_sha256 tls raw" and ?t = "fingerprint_text (tls_sha256 tls raw)"
  have ne: "?d \<noteq> []" using assms(1) by auto
  have b: "length buf = 160" using assms(2) by (simp add: srtp_lengths)
  have lt: "length ?t = 95" using assms(1) by (simp add: length_fingerprint_text)
  have "write_digest ?d 0 buf = Some (96, ?t @ 58 # 0 # drop 97 buf)"
    using write_digest_text [of 0 ?d buf] ne b assms(1) concat_hex_snoc [OF ne] by simp
  moreover have "mem_write 95 [0] (?t @ 58 # 0 # drop 97 buf) = Some (?t @ 0 # 0 # drop 97 buf)"
    using lt by (simp add: mem_write_def)
  ultimately have r: "dtls_srtp_x509_digest tls raw buf = Some (?t @ 0 # 0 # drop 97 buf)"
    using assms(1) by (simp add: dtls_srtp_x509_digest_def)
  have "take 160 (?t @ 0 # 0 # drop 97 buf) = ?t @ 0 # 0 # drop 97 buf" using lt b by simp
  then have "c_cut 160 (?t @ 0 # 0 # drop 97 buf) = ?t"
    using no_nul_fingerprint_text [of ?d] by (simp add: c_cut_def)
  then show ?thesis using r lt b c_text_terminated [OF no_nul_fingerprint_text [of ?d]] by (simp add: srtp_lengths)
qed

section \<open>What the handshake leaves alone\<close>

text \<open>The announced fingerprint and the role.\<close>

definition same_identity :: "('t, 'p) DtlsSrtp \<Rightarrow> ('t, 'p) DtlsSrtp \<Rightarrow> bool" where
  "same_identity d e \<longleftrightarrow> remote_fingerprint e = remote_fingerprint d \<and> dtls_role e = dtls_role d \<and>
     actual_remote_fingerprint e = actual_remote_fingerprint d"

lemma same_identity_refl [simp]: "same_identity d d"
  by (simp add: same_identity_def)

lemma same_identity_trans: "same_identity d e \<Longrightarrow> same_identity e f \<Longrightarrow> same_identity d f"
  by (simp add: same_identity_def)

lemma same_identity_ssl [simp]: "same_identity d (e\<lparr>ssl := t\<rparr>) = same_identity d e" "same_identity (d\<lparr>ssl := t\<rparr>) e = same_identity d e"
  by (simp_all add: same_identity_def)

lemma key_derivation_identity: "same_identity d (snd (dtls_srtp_key_derivation tls d ms rb))"
  by (simp add: dtls_srtp_key_derivation_def same_identity_def Let_def split: prod.splits)

lemma key_derivation_cb_identity: "same_identity d (dtls_srtp_key_derivation_cb tls e d)"
  by (simp add: dtls_srtp_key_derivation_cb_def key_derivation_identity split: prod.splits)

lemma fold_cb_identity: "same_identity d (fold (dtls_srtp_key_derivation_cb tls) ks d)"
proof (induction ks arbitrary: d)
  case (Cons k ks)
  then show ?case by (auto intro: same_identity_trans [OF key_derivation_cb_identity])
qed simp

lemma do_handshake_step:
  assumes "dtls_srtp_do_handshake tls bio d s = Some y"
  shows "same_identity d (fst (snd y)) \<and> \<not> want_io (fst y)"
  using assms
proof (rule dtls_srtp_do_handshake.raw_induct [rotated, where P = "\<lambda>tls bio d s y. same_identity d (fst (snd y)) \<and> \<not> want_io (fst y)"])
  fix f tls bio d s y
  assume ih: "\<And>tls bio d s y. f tls bio d s = Some y \<Longrightarrow> same_identity d (fst (snd y)) \<and> \<not> want_io (fst y)"
    and st: "do {
     t \<leftarrow> ssl d;
     (ret, ks, t, s) \<leftarrow> tls_handshake tls bio t s;
     let d = fold (dtls_srtp_key_derivation_cb tls) ks (d\<lparr>ssl := Some t\<rparr>);
     (if want_io ret then f tls bio d s else Some (ret, d, s))
   } = Some y"
  then obtain t ret ks t' s' where
    "(if want_io ret then f tls bio (fold (dtls_srtp_key_derivation_cb tls) ks (d\<lparr>ssl := Some t'\<rparr>)) s'
      else Some (ret, fold (dtls_srtp_key_derivation_cb tls) ks (d\<lparr>ssl := Some t'\<rparr>), s')) = Some y"
    by (auto simp: Option.bind_eq_Some_conv Let_def)
  moreover have "same_identity d (fold (dtls_srtp_key_derivation_cb tls) ks (d\<lparr>ssl := Some t'\<rparr>))"
    using fold_cb_identity [of "d\<lparr>ssl := Some t'\<rparr>" tls ks] by simp
  ultimately show "same_identity d (fst (snd y)) \<and> \<not> want_io (fst y)"
    using ih same_identity_trans by (fastforce split: if_splits)
qed

lemma handshake_server_step:
  assumes "dtls_srtp_handshake_server tls bio d s = Some y"
  shows "same_identity d (fst (snd y)) \<and> \<not> want_io (fst y)"
  using assms
proof (rule dtls_srtp_handshake_server.raw_induct [rotated, where P = "\<lambda>tls bio d s y. same_identity d (fst (snd y)) \<and> \<not> want_io (fst y)"])
  fix f tls bio d s y
  assume ih: "\<And>tls bio d s y. f tls bio d s = Some y \<Longrightarrow> same_identity d (fst (snd y)) \<and> \<not> want_io (fst y)"
    and st: "do {
     let d = d\<lparr>ssl := map_option (tls_session_reset tls) (ssl d)\<rparr>;
     (ret, d, s) \<leftarrow> dtls_srtp_do_handshake tls bio d s;
     (if ret = MBEDTLS_ERR_SSL_HELLO_VERIFY_REQUIRED then f tls bio d s else Some (ret, d, s))
   } = Some y"
  then obtain ret e s' where
    r: "dtls_srtp_do_handshake tls bio (d\<lparr>ssl := map_option (tls_session_reset tls) (ssl d)\<rparr>) s = Some (ret, e, s')"
    "(if ret = MBEDTLS_ERR_SSL_HELLO_VERIFY_REQUIRED then f tls bio e s' else Some (ret, e, s')) = Some y"
    by (auto simp: Option.bind_eq_Some_conv Let_def)
  have "same_identity d e \<and> \<not> want_io ret" using do_handshake_step [OF r(1)] by simp
  then show "same_identity d (fst (snd y)) \<and> \<not> want_io (fst y)"
    using r(2) ih same_identity_trans by (fastforce split: if_splits)
qed

definition authenticated :: "('t, 'p, 's) Tls \<Rightarrow> ('t, 'p) DtlsSrtp \<Rightarrow> bool" where
  "authenticated tls d \<longleftrightarrow> (\<exists>t raw. ssl d = Some t \<and> tls_peer_cert tls t = Some raw \<and>
     c_cut DTLS_SRTP_FINGERPRINT_LENGTH (remote_fingerprint d) = fingerprint_text (tls_sha256 tls raw))"

text \<open>What a result of 0 means: mbedTLS has a certificate, and the stored fingerprint is its text.\<close>

lemma handshake_zero:
  assumes "dtls_srtp_handshake tls bio d s = Some (0, d', s')" and "\<And>raw. length (tls_sha256 tls raw) = 32"
    and "length (actual_remote_fingerprint d) = DTLS_SRTP_FINGERPRINT_LENGTH"
  shows "authenticated tls d' \<and> remote_fingerprint d' = remote_fingerprint d"
proof -
  obtain ret e s1 where e: "(if dtls_role d = DTLS_SRTP_ROLE_SERVER then dtls_srtp_handshake_server tls bio d s
      else dtls_srtp_handshake_client tls bio d s) = Some (ret, e, s1)"
    and k: "do { t \<leftarrow> ssl e;
       (case tls_peer_cert tls t of
          None \<Rightarrow> Some (-1, e, s1)
        | Some raw \<Rightarrow> do {
            f \<leftarrow> dtls_srtp_x509_digest tls raw (actual_remote_fingerprint e);
            let d = e\<lparr>actual_remote_fingerprint := f\<rparr>;
            (if \<not> strncmp_eq (remote_fingerprint d) f DTLS_SRTP_FINGERPRINT_LENGTH then Some (-1, d, s1)
             else Some (ret, d, s1))
          }) } = Some (0, d', s')"
    using assms(1) unfolding dtls_srtp_handshake_def by (auto simp: Option.bind_eq_Some_conv)
  have "same_identity d e"
    using e handshake_server_step do_handshake_step
    by (fastforce simp: dtls_srtp_handshake_client_def split: if_splits)
  then have id: "remote_fingerprint e = remote_fingerprint d" "length (actual_remote_fingerprint e) = DTLS_SRTP_FINGERPRINT_LENGTH"
    using assms(3) by (simp_all add: same_identity_def)
  obtain t raw f where "ssl e = Some t" "tls_peer_cert tls t = Some raw"
    and f: "dtls_srtp_x509_digest tls raw (actual_remote_fingerprint e) = Some f"
    and "strncmp_eq (remote_fingerprint e) f DTLS_SRTP_FINGERPRINT_LENGTH" and "d' = e\<lparr>actual_remote_fingerprint := f\<rparr>"
    using k by (auto simp: Option.bind_eq_Some_conv Let_def split: option.splits if_splits)
  then show ?thesis using x509_digest_text [OF assms(2) id(2), of raw] id(1)
    by (auto simp: strncmp_eq_def authenticated_def)
qed

text \<open>When \<open>dtls_srtp_handshake\<close> returns 0, mbedTLS has reported success and the certificate it has
  for the peer is the one the session description announced: if the stored fingerprint is the
  text of a SHA-256 value, it is that of this certificate.\<close>

theorem dtls_handshake_authenticates:
  assumes "dtls_srtp_handshake tls bio d s = Some (0, d', s')"
    and "c_cut DTLS_SRTP_FINGERPRINT_LENGTH (remote_fingerprint d) = fingerprint_text announced"
    and "length announced = 32" and "\<And>raw. length (tls_sha256 tls raw) = 32"
    and "length (actual_remote_fingerprint d) = DTLS_SRTP_FINGERPRINT_LENGTH"
  shows "\<exists>t raw. ssl d' = Some t \<and> tls_peer_cert tls t = Some raw \<and> tls_sha256 tls raw = announced"
proof -
  obtain t raw where r: "ssl d' = Some t" "tls_peer_cert tls t = Some raw"
    "fingerprint_text announced = fingerprint_text (tls_sha256 tls raw)"
    using handshake_zero [OF assms(1,4,5)] assms(2) by (auto simp: authenticated_def)
  moreover have "announced = tls_sha256 tls raw"
    using fingerprint_text_inject [OF _ _ r(3)] assms(3,4) by fastforce
  ultimately show ?thesis by auto
qed

text \<open>A library in which everything succeeds; the SRTP cipher is exclusive or with the first key byte.\<close>

definition example_tls :: "(unit, bytes, unit) Tls" where
  "example_tls = \<lparr>tls_new = \<lambda>_ _. (), tls_session_reset = \<lambda>t. t, tls_handshake = \<lambda>_ t s. Some (0, [], t, s),
     tls_read = \<lambda>_ _ t s. Some (0, [], t, s), tls_write = \<lambda>_ b t s. Some (int (length b), t, s), tls_peer_cert = \<lambda>_. Some [1],
     tls_prf = \<lambda>_ _ _ n. (0, map of_nat [0..<n]), tls_sha256 = \<lambda>_. replicate 32 0xAB, srtp_create = \<lambda>_ k. (0, k),
     srtp_unprotect = \<lambda>k p n. (0, map (\<lambda>b. b XOR hd k) p, n, k), srtp_unprotect_rtcp = \<lambda>k p n. (0, map (\<lambda>b. b XOR hd k) p, n, k),
     srtp_protect = \<lambda>k p n. (0, map (\<lambda>b. b XOR hd k) p, n, k), srtp_protect_rtcp = \<lambda>k p n. (0, map (\<lambda>b. b XOR hd k) p, n, k)\<rparr>"

definition example_bio :: "unit Bio" where
  "example_bio = \<lparr>bio_send = \<lambda>b s. Some (int (length b), s), bio_recv = \<lambda>n s. Some (0, [], s)\<rparr>"

definition example_dtls :: "(unit, bytes) DtlsSrtp" where
  "example_dtls = dtls_zero\<lparr>ssl := Some (), remote_fingerprint := fingerprint_text (replicate 32 0xAB) @ replicate 65 0\<rparr>"

lemma dtls_handshake_authenticates_witness:
  "\<exists>d' t raw. dtls_srtp_handshake example_tls example_bio example_dtls () = Some (0, d', ()) \<and> ssl d' = Some t \<and>
    tls_peer_cert example_tls t = Some raw \<and> tls_sha256 example_tls raw = replicate 32 0xAB"
proof -
  let ?D = "replicate 32 0xAB :: bytes"
  have sha: "tls_sha256 example_tls raw = ?D" for raw by (simp add: example_tls_def)
  have fp: "length (fingerprint_text ?D) = 95" by (simp add: length_fingerprint_text)
  have afp: "length (actual_remote_fingerprint example_dtls) = DTLS_SRTP_FINGERPRINT_LENGTH"
    by (simp add: example_dtls_def dtls_zero_def)
  have rfp: "c_cut DTLS_SRTP_FINGERPRINT_LENGTH (remote_fingerprint example_dtls) = fingerprint_text ?D"
    using takeWhile_no_nul(1) [OF no_nul_fingerprint_text [of ?D], of "replicate 64 0"] fp
    by (simp add: example_dtls_def c_cut_def DTLS_SRTP_FINGERPRINT_LENGTH_def flip: replicate_Suc)
  obtain f where f: "dtls_srtp_x509_digest example_tls [1] (actual_remote_fingerprint example_dtls) = Some f"
    "c_cut DTLS_SRTP_FINGERPRINT_LENGTH f = fingerprint_text ?D"
    using x509_digest_text [OF _ afp, of example_tls "[1]"] sha by auto
  have "dtls_srtp_do_handshake example_tls example_bio example_dtls () = Some (0, example_dtls, ())"
    by (subst dtls_srtp_do_handshake.simps)
      (simp add: example_tls_def example_dtls_def want_io_def MBEDTLS_ERR_SSL_WANT_READ_def MBEDTLS_ERR_SSL_WANT_WRITE_def)
  then have h: "dtls_srtp_handshake example_tls example_bio example_dtls () =
      Some (0, example_dtls\<lparr>actual_remote_fingerprint := f\<rparr>, ())"
    using f rfp by (simp add: dtls_srtp_handshake_def dtls_srtp_handshake_client_def example_dtls_def dtls_zero_def
        strncmp_eq_def example_tls_def)
  show ?thesis
    using dtls_handshake_authenticates [OF h rfp _ _ afp] sha h by auto
qed

section \<open>Keys of both sides\<close>

text \<open>libsrtp: what a session made for sending protects, a session made for receiving with the same key
  accepts and gives back.\<close>

definition srtp_lawful :: "('t, 'p, 's) Tls \<Rightarrow> bool" where
  "srtp_lawful tls \<longleftrightarrow> (\<forall>k p n p' n' q.
     srtp_protect tls (snd (srtp_create tls False k)) p n = (0, p', n', q) \<longrightarrow>
     (\<exists>p'' r. srtp_unprotect tls (snd (srtp_create tls True k)) p' n' = (0, p'', n, r) \<and> take n p'' = take n p))"

lemma key_derivation_connected:
  assumes "tls_prf tls ms (str ''EXTRACTOR-dtls_srtp'') rb DTLS_SRTP_KEY_MATERIAL_LENGTH = (0, km)"
    and "\<And>b k. fst (srtp_create tls b k) = 0"
  shows "dtls_srtp_key_derivation tls d ms rb = (0, d\<lparr>remote_policy_key := fst (policy_keys (dtls_role d) km),
     srtp_in := Some (snd (srtp_create tls True (fst (policy_keys (dtls_role d) km)))),
     local_policy_key := snd (policy_keys (dtls_role d) km),
     srtp_out := Some (snd (srtp_create tls False (snd (policy_keys (dtls_role d) km)))),
     dtls_state := DTLS_SRTP_STATE_CONNECTED\<rparr>)"
proof -
  obtain a b where k: "policy_keys (dtls_role d) km = (a, b)" by (cases "policy_keys (dtls_role d) km")
  obtain p q where "srtp_create tls True a = (0, p)" "srtp_create tls False b = (0, q)"
    using assms(2) [of True a] assms(2) [of False b] by (metis prod.collapse)
  then show ?thesis using assms(1) k by (simp add: dtls_srtp_key_derivation_def)
qed

text \<open>C12: Two sides of opposite roles that derive keys from the same secret and randoms are connected,
  each sends with the key the other receives with, and a packet one encrypts is decrypted by the
  other to the same bytes.\<close>

theorem dtls_srtp_sides_agree:
  assumes "tls_prf tls ms (str ''EXTRACTOR-dtls_srtp'') rb DTLS_SRTP_KEY_MATERIAL_LENGTH = (0, km)"
    and "\<And>b k. fst (srtp_create tls b k) = 0" and "srtp_lawful tls"
    and "dtls_role c \<noteq> dtls_role v"
    and "dtls_srtp_key_derivation tls c ms rb = (rc, c')" and "dtls_srtp_key_derivation tls v ms rb = (rv, v')"
  shows "rc = 0 \<and> rv = 0 \<and> dtls_state c' = DTLS_SRTP_STATE_CONNECTED \<and> dtls_state v' = DTLS_SRTP_STATE_CONNECTED \<and>
    local_policy_key c' = remote_policy_key v' \<and> remote_policy_key c' = local_policy_key v' \<and>
    (\<forall>s p n p' n' q. srtp_out c' = Some s \<longrightarrow> srtp_protect tls s p n = (0, p', n', q) \<longrightarrow>
      dtls_srtp_encrypt_rtp_packet tls c' p n = Some (p', n', c'\<lparr>srtp_out := Some q\<rparr>) \<and>
      (\<exists>p'' v''. dtls_srtp_decrypt_rtp_packet tls v' p' n' = Some (0, p'', n, v'') \<and> take n p'' = take n p))"
proof -
  have opp: "fst (policy_keys (dtls_role c) km) = snd (policy_keys (dtls_role v) km)"
    "snd (policy_keys (dtls_role c) km) = fst (policy_keys (dtls_role v) km)"
    using assms(4) by (cases "dtls_role c"; cases "dtls_role v"; simp add: policy_keys_def)+
  note kc = key_derivation_connected [OF assms(1,2), of c] and kv = key_derivation_connected [OF assms(1,2), of v]
  have c': "rc = 0" "srtp_out c' = Some (snd (srtp_create tls False (fst (policy_keys (dtls_role v) km))))"
    using assms(5) kc opp by auto
  have v': "rv = 0" "srtp_in v' = Some (snd (srtp_create tls True (fst (policy_keys (dtls_role v) km))))"
    using assms(6) kv by auto
  have "dtls_srtp_encrypt_rtp_packet tls c' p n = Some (p', n', c'\<lparr>srtp_out := Some q\<rparr>) \<and>
      (\<exists>p'' v''. dtls_srtp_decrypt_rtp_packet tls v' p' n' = Some (0, p'', n, v'') \<and> take n p'' = take n p)"
    if so: "srtp_out c' = Some s" and pr: "srtp_protect tls s p n = (0, p', n', q)" for s p n p' n' q
  proof -
    have s: "s = snd (srtp_create tls False (fst (policy_keys (dtls_role v) km)))" using so c'(2) by simp
    obtain p'' r where "srtp_unprotect tls (snd (srtp_create tls True (fst (policy_keys (dtls_role v) km)))) p' n' = (0, p'', n, r)"
      "take n p'' = take n p"
      using assms(3) pr unfolding srtp_lawful_def s by blast
    then show ?thesis
      using so pr v'(2) by (simp add: dtls_srtp_encrypt_rtp_packet_def dtls_srtp_decrypt_rtp_packet_def)
  qed
  moreover have "local_policy_key c' = remote_policy_key v' \<and> remote_policy_key c' = local_policy_key v'"
    "dtls_state c' = DTLS_SRTP_STATE_CONNECTED" "dtls_state v' = DTLS_SRTP_STATE_CONNECTED"
    using assms(5,6) kc kv opp by auto
  ultimately show ?thesis using c'(1) v'(1) by blast
qed

lemma dtls_srtp_sides_agree_witness:
  "\<exists>c' v'. dtls_srtp_key_derivation example_tls example_dtls [1] [2] = (0, c') \<and>
    dtls_srtp_key_derivation example_tls (example_dtls\<lparr>dtls_role := DTLS_SRTP_ROLE_SERVER\<rparr>) [1] [2] = (0, v') \<and>
    local_policy_key c' = remote_policy_key v'"
proof -
  let ?v = "example_dtls\<lparr>dtls_role := DTLS_SRTP_ROLE_SERVER\<rparr>"
  have p: "tls_prf example_tls [1] (str ''EXTRACTOR-dtls_srtp'') [2] DTLS_SRTP_KEY_MATERIAL_LENGTH = (0, map of_nat [0..<60])"
    by (simp add: example_tls_def DTLS_SRTP_KEY_MATERIAL_LENGTH_def)
  have c: "fst (srtp_create example_tls b k) = 0" for b k by (simp add: example_tls_def)
  have l: "srtp_lawful example_tls" by (auto simp: srtp_lawful_def example_tls_def xor.assoc o_def)
  have r: "dtls_role example_dtls \<noteq> dtls_role ?v" by (simp add: example_dtls_def dtls_zero_def)
  obtain c' v' where k: "dtls_srtp_key_derivation example_tls example_dtls [1] [2] = (fst (dtls_srtp_key_derivation example_tls example_dtls [1] [2]), c')"
    "dtls_srtp_key_derivation example_tls ?v [1] [2] = (fst (dtls_srtp_key_derivation example_tls ?v [1] [2]), v')"
    by (metis prod.collapse)
  show ?thesis using dtls_srtp_sides_agree [OF p c l r k] k by metis
qed

end
