(* ===== verification/Sctp.thy ===== *)
theory Sctp
  imports Checksum C_Text
begin

text \<open>
  The SCTP association (\<^verbatim>\<open>src/src/sctp.c\<close>, \<^verbatim>\<open>src/src/sctp.h\<close>): the stream table of the data
  channels, and the stack the file brings itself (\<open>CONFIG_USE_USRSCTP\<close> 0).

  \<^item> What an operation does outside its object is a list of \<open>SctpEvent\<close>, in order: packets
    handed to \<open>dtls_srtp_write\<close> (whose result is ignored) and calls of the application's functions.
  \<^item> A packet is built in the array \<open>sctp_buf\<close>; a group of assignments to adjacent fields is one write.
  \<^item> \<open>verification_tag\<close> is copied from packet to packet without being read; it is kept as its
    four bytes.
  \<^item> The function-local static \<open>sqn\<close> is an argument and a result.
\<close>

section \<open>Types\<close>

datatype DecpMsgType = DATA_CHANNEL_OPEN | DATA_CHANNEL_ACK

fun decp_value :: "DecpMsgType \<Rightarrow> u8" where
  "decp_value DATA_CHANNEL_OPEN = 3"
| "decp_value DATA_CHANNEL_ACK = 2"

datatype DataChannelPpid = DATA_CHANNEL_PPID_CONTROL | DATA_CHANNEL_PPID_DOMSTRING
  | DATA_CHANNEL_PPID_BINARY_PARTIAL | DATA_CHANNEL_PPID_BINARY | DATA_CHANNEL_PPID_DOMSTRING_PARTIAL

fun ppid_value :: "DataChannelPpid \<Rightarrow> u32" where
  "ppid_value DATA_CHANNEL_PPID_CONTROL = 50"
| "ppid_value DATA_CHANNEL_PPID_DOMSTRING = 51"
| "ppid_value DATA_CHANNEL_PPID_BINARY_PARTIAL = 52"
| "ppid_value DATA_CHANNEL_PPID_BINARY = 53"
| "ppid_value DATA_CHANNEL_PPID_DOMSTRING_PARTIAL = 54"

datatype SctpHeaderType = SCTP_DATA | SCTP_INIT | SCTP_INIT_ACK | SCTP_SACK | SCTP_HEARTBEAT | SCTP_HEARTBEAT_ACK
  | SCTP_ABORT | SCTP_SHUTDOWN | SCTP_SHUTDOWN_ACK | SCTP_ERROR | SCTP_COOKIE_ECHO | SCTP_COOKIE_ACK | SCTP_ECNE
  | SCTP_CWR | SCTP_SHUTDOWN_COMPLETE | SCTP_AUTH | SCTP_ASCONF_ACK | SCTP_ASCONF | SCTP_FORWARD_TSN

fun chunk_type :: "SctpHeaderType \<Rightarrow> u8" where
  "chunk_type SCTP_DATA = 0" | "chunk_type SCTP_INIT = 1" | "chunk_type SCTP_INIT_ACK = 2"
| "chunk_type SCTP_SACK = 3" | "chunk_type SCTP_HEARTBEAT = 4" | "chunk_type SCTP_HEARTBEAT_ACK = 5"
| "chunk_type SCTP_ABORT = 6" | "chunk_type SCTP_SHUTDOWN = 7" | "chunk_type SCTP_SHUTDOWN_ACK = 8"
| "chunk_type SCTP_ERROR = 9" | "chunk_type SCTP_COOKIE_ECHO = 10" | "chunk_type SCTP_COOKIE_ACK = 11"
| "chunk_type SCTP_ECNE = 12" | "chunk_type SCTP_CWR = 13" | "chunk_type SCTP_SHUTDOWN_COMPLETE = 14"
| "chunk_type SCTP_AUTH = 15" | "chunk_type SCTP_ASCONF_ACK = 128" | "chunk_type SCTP_ASCONF = 130"
| "chunk_type SCTP_FORWARD_TSN = 192"

definition SCTP_PARAM_STATE_COOKIE :: u16 where "SCTP_PARAM_STATE_COOKIE = 7"
definition SCTP_MTU :: nat where "SCTP_MTU = 1200"
definition SCTP_BUF :: nat where "SCTP_BUF = 1300"
definition SCTP_MAX_STREAMS :: nat where "SCTP_MAX_STREAMS = 5"
definition SCTP_HEADER_SIZE :: nat where "SCTP_HEADER_SIZE = 12"
definition SCTP_DATA_CHUNK_SIZE :: nat where "SCTP_DATA_CHUNK_SIZE = 16"

lemmas sctp_sizes = SCTP_MTU_def SCTP_BUF_def SCTP_HEADER_SIZE_def SCTP_DATA_CHUNK_SIZE_def

record SctpStreamEntry =
  se_label :: bytes
  se_sid :: u16

record Sctp =
  sctp_sock :: "nat option"
  local_port :: int
  remote_port :: int
  connected :: bool
  verification_tag :: bytes
  tsn :: u32
  stream_count :: nat
  stream_table :: "SctpStreamEntry list"
  has_onmessage :: bool
  has_onopen :: bool
  has_onclose :: bool
  sctp_buf :: bytes

datatype SctpEvent = DtlsWrite bytes | OnMessage bytes nat u16 | OnOpen | OnClose

text \<open>An object of \<open>calloc\<close>.\<close>

definition sctp_zero :: Sctp where
  "sctp_zero = \<lparr>sctp_sock = None, local_port = 0, remote_port = 0, connected = False,
     verification_tag = replicate 4 0, tsn = 0, stream_count = 0,
     stream_table = replicate SCTP_MAX_STREAMS \<lparr>se_label = replicate 32 0, se_sid = 0\<rparr>,
     has_onmessage = False, has_onopen = False, has_onclose = False, sctp_buf = replicate SCTP_BUF 0\<rparr>"

definition wf_sctp :: "Sctp \<Rightarrow> bool" where
  "wf_sctp s \<longleftrightarrow> length (verification_tag s) = 4 \<and> length (stream_table s) = SCTP_MAX_STREAMS \<and>
     stream_count s \<le> SCTP_MAX_STREAMS \<and> (\<forall>e \<in> set (stream_table s). length (se_label e) = 32) \<and>
     length (sctp_buf s) = SCTP_BUF"

section \<open>Callbacks and state\<close>

definition sctp_onmessage :: "Sctp \<Rightarrow> bool \<Rightarrow> Sctp" where "sctp_onmessage s f = s\<lparr>has_onmessage := f\<rparr>"
definition sctp_onopen :: "Sctp \<Rightarrow> bool \<Rightarrow> Sctp" where "sctp_onopen s f = s\<lparr>has_onopen := f\<rparr>"
definition sctp_onclose :: "Sctp \<Rightarrow> bool \<Rightarrow> Sctp" where "sctp_onclose s f = s\<lparr>has_onclose := f\<rparr>"
definition sctp_is_connected :: "Sctp \<Rightarrow> bool" where "sctp_is_connected s = connected s"

text \<open>\<open>strncpy\<close> of a C string into the 32 bytes of a label: NULs fill what is left, and none is
  written when nothing is left.\<close>

definition strncpy_text :: "nat \<Rightarrow> bytes \<Rightarrow> bytes" where
  "strncpy_text n t = take n t @ replicate (n - length t) 0"

definition sctp_add_stream_mapping :: "Sctp \<Rightarrow> bytes \<Rightarrow> u16 \<Rightarrow> Sctp" where
  "sctp_add_stream_mapping s label sid =
     (if stream_count s < SCTP_MAX_STREAMS
      then s\<lparr>stream_table := (stream_table s)[stream_count s := \<lparr>se_label = strncpy_text 32 label, se_sid = sid\<rparr>],
             stream_count := stream_count s + 1\<rparr>
      else s)"

section \<open>Building packets\<close>

definition sctp_header :: "Sctp \<Rightarrow> bytes" where
  "sctp_header s = be16 (of_int (local_port s)) @ be16 (of_int (remote_port s)) @ verification_tag s"

text \<open>The checksum field is cleared, the checksum of \<open>len\<close> bytes taken and stored in host order.\<close>

definition sctp_seal :: "nat \<Rightarrow> bytes \<Rightarrow> bytes option" where
  "sctp_seal len buf = do {
     buf \<leftarrow> mem_write 8 (replicate 4 0) buf;
     d \<leftarrow> mem_read 0 len buf;
     mem_write 8 (le32 (sctp_get_checksum d)) buf
   }"

section \<open>Sending\<close>

definition payload_max :: nat where
  "payload_max = SCTP_MTU - SCTP_HEADER_SIZE - SCTP_DATA_CHUNK_SIZE"

text \<open>The loop over full packets: what is left of the message, the position in it, and the packets.\<close>

function sctp_send_full :: "bytes \<Rightarrow> nat \<Rightarrow> nat \<Rightarrow> Sctp \<Rightarrow> (nat \<times> nat \<times> Sctp \<times> SctpEvent list) option" where
  "sctp_send_full msg len pos s =
     (if payload_max < len then do {
        d \<leftarrow> mem_read pos payload_max msg;
        buf \<leftarrow> mem_write 14 (be16 (of_nat (payload_max + SCTP_DATA_CHUNK_SIZE)) @ be32 (tsn s)) (sctp_buf s);
        buf \<leftarrow> mem_write 28 d buf;
        buf \<leftarrow> sctp_seal SCTP_MTU buf;
        out \<leftarrow> mem_read 0 SCTP_MTU buf;
        buf \<leftarrow> mem_write 13 [4] buf;
        (n, p, s, evs) \<leftarrow> sctp_send_full msg (len - payload_max) (pos + payload_max) (s\<lparr>sctp_buf := buf, tsn := tsn s + 1\<rparr>);
        Some (n, p, s, DtlsWrite out # evs)
      }
      else Some (len, pos, s, []))"
  by pat_completeness auto
termination by (relation "measure (\<lambda>(m, n, p, s). n)") (auto simp: payload_max_def sctp_sizes)

declare sctp_send_full.simps [simp del]

definition sctp_send_last :: "bytes \<Rightarrow> nat \<Rightarrow> nat \<Rightarrow> Sctp \<Rightarrow> (Sctp \<times> SctpEvent list) option" where
  "sctp_send_last msg len pos s =
     (if 0 < len then do {
        iube \<leftarrow> mem_get 13 (sctp_buf s);
        buf \<leftarrow> mem_write 13 ([iube + 1] @ be16 (of_nat (len + SCTP_DATA_CHUNK_SIZE)) @ be32 (tsn s)) (sctp_buf s);
        buf \<leftarrow> mem_write 28 (replicate payload_max 0) buf;
        d \<leftarrow> mem_read pos len msg;
        buf \<leftarrow> mem_write 28 d buf;
        let padding_len = 4 * ((len + SCTP_DATA_CHUNK_SIZE + SCTP_HEADER_SIZE + 3) div 4);
        buf \<leftarrow> sctp_seal padding_len buf;
        out \<leftarrow> mem_read 0 padding_len buf;
        Some (s\<lparr>sctp_buf := buf, tsn := tsn s + 1\<rparr>, [DtlsWrite out])
      }
      else Some (s, []))"

text \<open>The stream identifier the caller gives is not used.\<close>

definition sctp_outgoing_data ::
  "u16 \<Rightarrow> Sctp \<Rightarrow> bytes \<Rightarrow> nat \<Rightarrow> u32 \<Rightarrow> u16 \<Rightarrow> (int \<times> u16 \<times> Sctp \<times> SctpEvent list) option" where
  "sctp_outgoing_data sqn s msg len ppid sid = do {
     buf \<leftarrow> mem_write 0 (sctp_header s) (sctp_buf s);
     buf \<leftarrow> mem_write 12 [chunk_type SCTP_DATA, 6] buf;
     buf \<leftarrow> mem_write 20 (be16 0 @ be16 sqn @ be32 ppid) buf;
     (len, pos, s, evs) \<leftarrow> sctp_send_full msg len 0 (s\<lparr>sctp_buf := buf\<rparr>);
     (s, evs') \<leftarrow> sctp_send_last msg len pos s;
     Some (int len, sqn + 1, s, evs @ evs')
   }"

section \<open>Associations\<close>

definition init_chunk :: "SctpHeaderType \<Rightarrow> nat \<Rightarrow> u32 \<Rightarrow> bytes" where
  "init_chunk ty n initial_tsn =
     [chunk_type ty, 0] @ be16 (of_nat n) @ be32 0x12345678 @ be32 0x100000 @ be16 0xffff @ be16 0xffff @ be32 initial_tsn"

text \<open>The checksum field of the INIT packet is not cleared first.\<close>

definition sctp_create_association :: "Sctp \<Rightarrow> (int \<times> Sctp \<times> SctpEvent list) option" where
  "sctp_create_association s = do {
     let s = s\<lparr>local_port := 5000, remote_port := 5000, tsn := 1234\<rparr>;
     buf \<leftarrow> mem_write 0 (be16 (of_int (local_port s)) @ be16 (of_int (remote_port s)) @ replicate 4 0) (sctp_buf s);
     buf \<leftarrow> mem_write 12 (init_chunk SCTP_INIT 20 (tsn s)) buf;
     let length = 4 * ((20 + SCTP_HEADER_SIZE + 3) div 4);
     d \<leftarrow> mem_read 0 length buf;
     buf \<leftarrow> mem_write 8 (le32 (sctp_get_checksum d)) buf;
     out \<leftarrow> mem_read 0 length buf;
     Some (0, s\<lparr>sctp_buf := buf\<rparr>, [DtlsWrite out])
   }"

section \<open>Receiving\<close>

definition sctp_opened :: "Sctp \<Rightarrow> Sctp \<times> SctpEvent list" where
  "sctp_opened s = (if connected s then (s, []) else (s\<lparr>connected := True\<rparr>, if has_onopen s then [OnOpen] else []))"

definition sctp_closed :: "Sctp \<Rightarrow> Sctp \<times> SctpEvent list" where
  "sctp_closed s = (s\<lparr>connected := False\<rparr>, if has_onclose s then [OnClose] else [])"

text \<open>The size the callback is told is a subtraction on \<open>size_t\<close>; it may read the array from the payload on.\<close>

definition size_minus :: "nat \<Rightarrow> nat \<Rightarrow> nat" where
  "size_minus a b = (if b \<le> a then a - b else 2 ^ 64 + a - b)"

definition chunk_data :: "Sctp \<Rightarrow> bytes \<Rightarrow> nat \<Rightarrow> (Sctp \<times> nat \<times> SctpEvent list) option" where
  "chunk_data s buf pos = do {
     t \<leftarrow> mem_read (pos + 4) 4 buf;
     out \<leftarrow> mem_write 12 ([chunk_type SCTP_SACK, 0] @ be16 16 @ t @ be32 2) (sctp_buf s);
     let length = 16 + SCTP_HEADER_SIZE;
     p \<leftarrow> mem_read (pos + 12) 4 buf;
     let ppid = of_be32 p;
     (if ppid = ppid_value DATA_CHANNEL_PPID_CONTROL then do {
        c \<leftarrow> mem_get (pos + 16) buf;
        (if c = decp_value DATA_CHANNEL_OPEN then do {
           out \<leftarrow> mem_write 28 ([chunk_type SCTP_DATA, 3] @ be16 (of_nat (1 + SCTP_DATA_CHUNK_SIZE)) @ be32 (tsn s) @
             be16 0 @ be16 0 @ be32 (ppid_value DATA_CHANNEL_PPID_CONTROL) @ [decp_value DATA_CHANNEL_ACK]) out;
           Some (s\<lparr>sctp_buf := out, tsn := tsn s + 1\<rparr>, length + 1 + SCTP_DATA_CHUNK_SIZE, [])
         }
         else Some (s\<lparr>sctp_buf := out\<rparr>, length, []))
      }
      else if (ppid = ppid_value DATA_CHANNEL_PPID_DOMSTRING \<or> ppid = ppid_value DATA_CHANNEL_PPID_BINARY) \<and> has_onmessage s
      then do {
        l \<leftarrow> mem_read (pos + 2) 2 buf;
        sid \<leftarrow> mem_read (pos + 8) 2 buf;
        Some (s\<lparr>sctp_buf := out\<rparr>, length,
          [OnMessage (drop (pos + 16) buf) (size_minus (unat (of_be16 l)) SCTP_DATA_CHUNK_SIZE) (of_be16 sid)])
      }
      else Some (s\<lparr>sctp_buf := out\<rparr>, length, []))
   }"

text \<open>An INIT is read at the start of the packet, wherever the loop stands.\<close>

definition chunk_init :: "Sctp \<Rightarrow> bytes \<Rightarrow> (Sctp \<times> nat \<times> SctpEvent list) option" where
  "chunk_init s buf = do {
     tag \<leftarrow> mem_read 16 4 buf;
     out \<leftarrow> mem_write 12 (init_chunk SCTP_INIT_ACK 28 (tsn s) @ be16 SCTP_PARAM_STATE_COOKIE @ be16 8 @ be32 2) (sctp_buf s);
     Some (s\<lparr>verification_tag := tag, sctp_buf := out\<rparr>, 28 + SCTP_HEADER_SIZE, [])
   }"

text \<open>The search for the cookie parameter: every second byte up to the chunk length in host order.\<close>

function find_cookie :: "bytes \<Rightarrow> nat \<Rightarrow> nat \<Rightarrow> nat option option" where
  "find_cookie buf bound i =
     (if i < bound then do {
        ty \<leftarrow> mem_read (32 + i) 2 buf;
        (if of_be16 ty = SCTP_PARAM_STATE_COOKIE then Some (Some i) else find_cookie buf bound (i + 2))
      }
      else Some None)"
  by pat_completeness auto
termination by (relation "measure (\<lambda>(b, n, i). n - i)") auto

declare find_cookie.simps [simp del]

definition chunk_init_ack :: "Sctp \<Rightarrow> bytes \<Rightarrow> (Sctp \<times> nat \<times> SctpEvent list) option" where
  "chunk_init_ack s buf = do {
     tag \<leftarrow> mem_read 16 4 buf;
     l \<leftarrow> mem_read 14 2 buf;
     c \<leftarrow> find_cookie buf (unat (of_be16 (rev l)) - 20) 0;
     i \<leftarrow> c;
     pl \<leftarrow> mem_read (32 + i + 2) 2 buf;
     let plen = unat (of_be16 pl);
     c_assert (4 \<le> plen);
     cookie \<leftarrow> mem_read (32 + i + 4) (plen - 4) buf;
     out \<leftarrow> mem_write 12 ([chunk_type SCTP_COOKIE_ECHO, 0] @ be16 (of_nat plen) @ cookie) (sctp_buf s);
     Some (s\<lparr>verification_tag := tag, sctp_buf := out\<rparr>, plen + SCTP_HEADER_SIZE, [])
   }"

definition chunk_cookie_echo :: "Sctp \<Rightarrow> (Sctp \<times> nat \<times> SctpEvent list) option" where
  "chunk_cookie_echo s = do {
     out \<leftarrow> mem_write 12 [chunk_type SCTP_COOKIE_ACK] (sctp_buf s);
     out \<leftarrow> mem_write 14 (be16 4) out;
     let (s, evs) = sctp_opened (s\<lparr>sctp_buf := out\<rparr>);
     Some (s, 4 + SCTP_HEADER_SIZE, evs)
   }"

text \<open>One chunk: the object, the length of the reply, where the loop goes on before the chunk
  length is added, and what happened. \<open>length\<close> is left alone by SACK, COOKIE-ACK and ABORT.\<close>

definition sctp_chunk :: "Sctp \<Rightarrow> bytes \<Rightarrow> nat \<Rightarrow> nat \<Rightarrow> nat \<Rightarrow> (Sctp \<times> nat \<times> nat \<times> SctpEvent list) option" where
  "sctp_chunk s buf len pos rlen = do {
     ty \<leftarrow> mem_get pos buf;
     (if ty = chunk_type SCTP_DATA then do { (s, l, evs) \<leftarrow> chunk_data s buf pos; Some (s, l, len, evs) }
      else if ty = chunk_type SCTP_INIT then do { (s, l, evs) \<leftarrow> chunk_init s buf; Some (s, l, pos, evs) }
      else if ty = chunk_type SCTP_INIT_ACK then do { (s, l, evs) \<leftarrow> chunk_init_ack s buf; Some (s, l, pos, evs) }
      else if ty = chunk_type SCTP_SACK then Some (s, rlen, pos, [])
      else if ty = chunk_type SCTP_COOKIE_ECHO then do { (s, l, evs) \<leftarrow> chunk_cookie_echo s; Some (s, l, len, evs) }
      else if ty = chunk_type SCTP_COOKIE_ACK then let (s, evs) = sctp_opened s in Some (s, rlen, pos, evs)
      else if ty = chunk_type SCTP_ABORT then let (s, evs) = sctp_closed s in Some (s, rlen, pos, evs)
      else Some (s, 0, pos, []))
   }"

text \<open>The reply after each chunk.\<close>

definition sctp_reply :: "Sctp \<Rightarrow> nat \<Rightarrow> (Sctp \<times> nat \<times> SctpEvent list) option" where
  "sctp_reply s rlen = do {
     buf \<leftarrow> mem_write 0 (sctp_header s @ replicate 4 0) (sctp_buf s);
     (if 0 < rlen then do {
        let rlen = 4 * ((rlen + 3) div 4);
        buf \<leftarrow> sctp_seal rlen buf;
        out \<leftarrow> mem_read 0 rlen buf;
        Some (s\<lparr>sctp_buf := buf\<rparr>, rlen, [DtlsWrite out])
      }
      else Some (s\<lparr>sctp_buf := buf\<rparr>, rlen, []))
   }"

text \<open>The loop over the chunks of a packet of \<open>len\<close> bytes may not end; \<open>Running\<close> says that \<open>fuel\<close> rounds
  were not enough.\<close>

datatype 'a run = Running | Done 'a

fun run_prepend :: "SctpEvent list \<Rightarrow> (Sctp \<times> SctpEvent list) run \<Rightarrow> (Sctp \<times> SctpEvent list) run" where
  "run_prepend evs Running = Running"
| "run_prepend evs (Done (s, es)) = Done (s, evs @ es)"

fun sctp_chunks :: "nat \<Rightarrow> bytes \<Rightarrow> nat \<Rightarrow> Sctp \<Rightarrow> nat \<Rightarrow> nat \<Rightarrow> (Sctp \<times> SctpEvent list) run option" where
  "sctp_chunks fuel buf len s pos rlen =
     (if 4 * (pos + 3) div 4 < len then (case fuel of
        0 \<Rightarrow> Some Running
      | Suc f \<Rightarrow> do {
          (s, rlen, next, evs) \<leftarrow> sctp_chunk s buf len pos rlen;
          (s, rlen, reply) \<leftarrow> sctp_reply s rlen;
          l \<leftarrow> mem_read (pos + 2) 2 buf;
          r \<leftarrow> sctp_chunks f buf len s (next + unat (of_be16 l)) rlen;
          Some (run_prepend (evs @ reply) r)
        })
      else Some (Done (s, [])))"

declare sctp_chunks.simps [simp del]

definition sctp_incoming_data :: "nat \<Rightarrow> Sctp \<Rightarrow> bytes \<Rightarrow> nat \<Rightarrow> (Sctp \<times> SctpEvent list) run option" where
  "sctp_incoming_data fuel s buf len = do {
     c \<leftarrow> mem_read 8 4 buf;
     buf \<leftarrow> mem_write 8 (replicate 4 0) buf;
     d \<leftarrow> mem_read 0 len buf;
     (if c \<noteq> le32 (sctp_get_checksum d) then Some (Done (s, []))
      else sctp_chunks fuel buf len (s\<lparr>sctp_buf := replicate SCTP_BUF 0\<rparr>) SCTP_HEADER_SIZE 0)
   }"

section \<open>Well-formed objects stay well formed\<close>

lemma wf_sctpD: "wf_sctp s \<Longrightarrow> length (sctp_buf s) = SCTP_BUF" "wf_sctp s \<Longrightarrow> length (verification_tag s) = 4"
  by (simp_all add: wf_sctp_def)

lemma wf_sctp_buf: "length b = SCTP_BUF \<Longrightarrow> wf_sctp s \<Longrightarrow> wf_sctp (s\<lparr>sctp_buf := b\<rparr>)"
  "wf_sctp s \<Longrightarrow> wf_sctp (s\<lparr>tsn := t\<rparr>)" "wf_sctp s \<Longrightarrow> wf_sctp (s\<lparr>connected := c\<rparr>)"
  "length v = 4 \<Longrightarrow> wf_sctp s \<Longrightarrow> wf_sctp (s\<lparr>verification_tag := v\<rparr>)"
  "wf_sctp s \<Longrightarrow> wf_sctp (s\<lparr>local_port := lp, remote_port := rp, tsn := t\<rparr>)"
  by (simp_all add: wf_sctp_def)

lemma wf_add_stream_mapping: "wf_sctp s \<Longrightarrow> wf_sctp (sctp_add_stream_mapping s label sid)"
  by (auto simp: wf_sctp_def sctp_add_stream_mapping_def strncpy_text_def dest!: set_update_subset_insert [THEN subsetD])

lemma wf_sctp_seal: "sctp_seal n b = Some b' \<Longrightarrow> length b' = length b"
  by (auto simp: sctp_seal_def Option.bind_eq_Some_conv dest!: mem_write_length)

lemma wf_send_full: "sctp_send_full msg len pos s = Some (n, p, s', evs) \<Longrightarrow> wf_sctp s \<Longrightarrow> wf_sctp s'"
proof (induction msg len pos s arbitrary: n p s' evs rule: sctp_send_full.induct)
  case (1 msg len pos s)
  show ?case
  proof (cases "payload_max < len")
    case True
    then obtain d b1 b2 b3 out b4 evs' where
      b: "mem_read pos payload_max msg = Some d"
        "mem_write 14 (be16 (of_nat (payload_max + SCTP_DATA_CHUNK_SIZE)) @ be32 (tsn s)) (sctp_buf s) = Some b1"
        "mem_write 28 d b1 = Some b2" "sctp_seal SCTP_MTU b2 = Some b3" "mem_read 0 SCTP_MTU b3 = Some out"
        "mem_write 13 [4] b3 = Some b4"
        "sctp_send_full msg (len - payload_max) (pos + payload_max) (s\<lparr>sctp_buf := b4, tsn := tsn s + 1\<rparr>) = Some (n, p, s', evs')"
      using "1.prems"(1) by (subst (asm) sctp_send_full.simps) (auto simp: Option.bind_eq_Some_conv)
    have "length b4 = SCTP_BUF"
      using b(2,3,4,6) wf_sctpD(1) [OF "1.prems"(2)] by (auto dest!: mem_write_length wf_sctp_seal)
    then show ?thesis using "1.IH" [OF True b(1-6) b(7)] "1.prems"(2) by (simp add: wf_sctp_buf)
  qed (use "1.prems" in \<open>subst (asm) sctp_send_full.simps, simp\<close>)
qed

lemma wf_send_last: "sctp_send_last msg len pos s = Some (s', evs) \<Longrightarrow> wf_sctp s \<Longrightarrow> wf_sctp s'"
  by (auto simp: sctp_send_last_def Option.bind_eq_Some_conv Let_def wf_sctpD(1) intro!: wf_sctp_buf
      dest!: mem_write_length wf_sctp_seal split: if_splits)

lemma wf_outgoing_data: "sctp_outgoing_data sqn s msg len ppid sid = Some (r, q, s', evs) \<Longrightarrow> wf_sctp s \<Longrightarrow> wf_sctp s'"
  by (auto simp: sctp_outgoing_data_def Option.bind_eq_Some_conv wf_sctpD(1) intro!: wf_sctp_buf
      dest!: mem_write_length wf_send_full wf_send_last)

lemma wf_create_association: "sctp_create_association s = Some (r, s', evs) \<Longrightarrow> wf_sctp s \<Longrightarrow> wf_sctp s'"
  by (auto simp: sctp_create_association_def Option.bind_eq_Some_conv Let_def wf_sctpD(1) intro!: wf_sctp_buf
      dest!: mem_write_length)

lemma wf_chunk_data:
  assumes c: "chunk_data s buf pos = Some (s', l, evs)" and w: "wf_sctp s"
  shows "wf_sctp s'"
proof -
  have *: "length out = SCTP_BUF \<Longrightarrow> wf_sctp (s\<lparr>sctp_buf := out\<rparr>)"
    "length out = SCTP_BUF \<Longrightarrow> wf_sctp (s\<lparr>sctp_buf := out, tsn := t\<rparr>)" for out t
    using w by (simp_all add: wf_sctp_def)
  obtain t out where
    1: "mem_write 12 ([chunk_type SCTP_SACK, 0] @ be16 16 @ t @ be32 2) (sctp_buf s) = Some out"
    and 2: "s' = s\<lparr>sctp_buf := out\<rparr> \<or> (\<exists>x out'. mem_write 28 x out = Some out' \<and> s' = s\<lparr>sctp_buf := out', tsn := tsn s + 1\<rparr>)"
    using c unfolding chunk_data_def Let_def
    by (clarsimp simp only: Option.bind_eq_Some_conv split: if_splits) auto
  then show ?thesis using * wf_sctpD(1) [OF w] mem_write_length [OF 1] by (auto dest!: mem_write_length)
qed

lemma wf_chunk_init: "chunk_init s buf = Some (s', l, evs) \<Longrightarrow> wf_sctp s \<Longrightarrow> wf_sctp s'"
  by (auto simp: chunk_init_def Option.bind_eq_Some_conv wf_sctp_def mem_read_Some dest!: mem_write_length)

lemma wf_chunk_init_ack: "chunk_init_ack s buf = Some (s', l, evs) \<Longrightarrow> wf_sctp s \<Longrightarrow> wf_sctp s'"
  by (auto simp: chunk_init_ack_def Option.bind_eq_Some_conv Let_def wf_sctp_def mem_read_Some dest!: mem_write_length)

lemma wf_opened: "wf_sctp s \<Longrightarrow> wf_sctp (fst (sctp_opened s))" "wf_sctp s \<Longrightarrow> wf_sctp (fst (sctp_closed s))"
  by (simp_all add: sctp_opened_def sctp_closed_def wf_sctp_buf)

lemma wf_chunk_cookie_echo: "chunk_cookie_echo s = Some (s', l, evs) \<Longrightarrow> wf_sctp s \<Longrightarrow> wf_sctp s'"
  by (auto simp: chunk_cookie_echo_def Option.bind_eq_Some_conv sctp_opened_def wf_sctp_def
      dest!: mem_write_length split: if_splits)

lemma wf_chunk: "sctp_chunk s buf len pos rlen = Some (s', rl, nxt, evs) \<Longrightarrow> wf_sctp s \<Longrightarrow> wf_sctp s'"
  using wf_opened [of s]
  by (auto simp: sctp_chunk_def Option.bind_eq_Some_conv split: if_splits prod.splits
      dest: wf_chunk_data wf_chunk_init wf_chunk_init_ack wf_chunk_cookie_echo)

lemma wf_reply: "sctp_reply s rlen = Some (s', rl, evs) \<Longrightarrow> wf_sctp s \<Longrightarrow> wf_sctp s'"
  by (auto simp: sctp_reply_def Option.bind_eq_Some_conv Let_def wf_sctpD(1) intro!: wf_sctp_buf
      dest!: mem_write_length wf_sctp_seal split: if_splits)

lemma run_prepend_Done: "run_prepend e r = Done (s, evs) \<longleftrightarrow> (\<exists>es. r = Done (s, es) \<and> evs = e @ es)"
  by (cases "(e, r)" rule: run_prepend.cases) auto

lemma wf_chunks: "sctp_chunks fuel buf len s pos rlen = Some (Done (s', evs)) \<Longrightarrow> wf_sctp s \<Longrightarrow> wf_sctp s'"
proof (induction fuel arbitrary: s pos rlen evs)
  case 0
  then show ?case by (subst (asm) sctp_chunks.simps) (simp split: if_splits)
next
  case (Suc f)
  then show ?case
    by (subst (asm) sctp_chunks.simps)
      (auto simp: Option.bind_eq_Some_conv run_prepend_Done split: if_splits dest!: wf_chunk wf_reply)
qed

lemma wf_incoming_data: "sctp_incoming_data fuel s buf len = Some (Done (s', evs)) \<Longrightarrow> wf_sctp s \<Longrightarrow> wf_sctp s'"
  by (auto simp: sctp_incoming_data_def Option.bind_eq_Some_conv split: if_splits intro!: wf_sctp_buf dest!: wf_chunks)

lemma wf_sctp_zero: "wf_sctp sctp_zero"
  by (simp add: wf_sctp_def sctp_zero_def)

end
