(* ===== verification/Sctp_Assoc.thy ===== *)
theory Sctp_Assoc
  imports Sctp
begin

text \<open>
  What the stack of theory Sctp achieves: packets that seal passes, when the chunk loop ends, the
  four-way handshake, and messages from one side to the other.
\<close>

section \<open>Sealed packets\<close>

text \<open>A packet with ports and tag \<open>h\<close> and chunks \<open>c\<close>, as both sides build it.\<close>

definition sealed :: "bytes \<Rightarrow> bytes \<Rightarrow> bytes" where
  "sealed h c = h @ le32 (sctp_get_checksum (h @ replicate 4 0 @ c)) @ c"

lemma length_sealed [simp]: "length h = 8 \<Longrightarrow> length (sealed h c) = 12 + length c"
  by (simp add: sealed_def)

lemma sctp_seal_sealed:
  assumes "length h = 8" and "length x = 4"
  shows "sctp_seal (12 + length c) (h @ x @ c @ r) = Some (sealed h c @ r)"
proof -
  have "mem_write 8 (replicate 4 0) (h @ x @ c @ r) = Some (h @ replicate 4 0 @ c @ r)"
    using assms by (intro mem_write_append) simp_all
  moreover have "mem_read 0 (12 + length c) (h @ replicate 4 0 @ c @ r) = Some (h @ replicate 4 0 @ c)"
    using assms by (simp add: mem_read_def)
  moreover have "mem_write 8 (le32 v) (h @ replicate 4 0 @ c @ r) = Some (h @ le32 v @ c @ r)" for v
    using assms by (intro mem_write_append) simp_all
  ultimately show ?thesis by (simp add: sctp_seal_def sealed_def)
qed

lemma incoming_sealed:
  assumes "length h = 8" and "n = 12 + length c"
  shows "sctp_incoming_data fuel s (sealed h c @ r) n =
     sctp_chunks fuel (h @ replicate 4 0 @ c @ r) n (s\<lparr>sctp_buf := replicate SCTP_BUF 0\<rparr>) 12 0"
proof -
  let ?v = "sctp_get_checksum (h @ replicate 4 0 @ c)"
  have "mem_read 8 4 (h @ le32 ?v @ c @ r) = Some (le32 ?v)"
    using assms by (intro mem_read_append) simp_all
  moreover have "mem_write 8 (replicate 4 0) (h @ le32 ?v @ c @ r) = Some (h @ replicate 4 0 @ c @ r)"
    using assms by (intro mem_write_append) simp_all
  moreover have "mem_read 0 n (h @ replicate 4 0 @ c @ r) = Some (h @ replicate 4 0 @ c)"
    using assms by (simp add: mem_read_def)
  ultimately show ?thesis by (simp add: sctp_incoming_data_def sealed_def SCTP_HEADER_SIZE_def)
qed

text \<open>A packet with one wrong byte, or any other checksum, changes nothing.\<close>

lemma incoming_bad_checksum:
  assumes "length h = 8" and "length x = 4" and "n = 12 + length c"
    and "x \<noteq> le32 (sctp_get_checksum (h @ replicate 4 0 @ c))"
  shows "sctp_incoming_data fuel s (h @ x @ c @ r) n = Some (Done (s, []))"
proof -
  have "mem_read 8 4 (h @ x @ c @ r) = Some x" using assms by (intro mem_read_append) simp_all
  moreover have "mem_write 8 (replicate 4 0) (h @ x @ c @ r) = Some (h @ replicate 4 0 @ c @ r)"
    using assms by (intro mem_write_append) simp_all
  moreover have "mem_read 0 n (h @ replicate 4 0 @ c @ r) = Some (h @ replicate 4 0 @ c)"
    using assms by (simp add: mem_read_def)
  ultimately show ?thesis using assms(4) by (simp add: sctp_incoming_data_def)
qed

section \<open>The chunk loop\<close>

text \<open>The walk over the chunk lengths of a packet meets one that is zero, on a chunk after which the
  code goes on.\<close>

function chunk_stuck :: "bytes \<Rightarrow> nat \<Rightarrow> nat \<Rightarrow> bool" where
  "chunk_stuck buf len pos =
     (if pos + 3 < len then
        let l = unat (of_be16 (take 2 (drop (pos + 2) buf))) in
        if buf ! pos = chunk_type SCTP_DATA \<or> buf ! pos = chunk_type SCTP_COOKIE_ECHO then False
        else if l = 0 then True else chunk_stuck buf len (pos + l)
      else False)"
  by pat_completeness auto
termination by (relation "measure (\<lambda>(b, n, p). n - p)") auto

declare chunk_stuck.simps [simp del]

lemma sctp_chunk_next:
  assumes "sctp_chunk s buf len pos rlen = Some (s', rl, nxt, evs)"
  shows "pos < length buf \<and>
    nxt = (if buf ! pos = chunk_type SCTP_DATA \<or> buf ! pos = chunk_type SCTP_COOKIE_ECHO then len else pos)"
  using assms
  by (auto simp: sctp_chunk_def Option.bind_eq_Some_conv mem_get_Some split: if_splits prod.splits)

lemma loop_condition: "4 * (pos + 3) div 4 = pos + (3 :: nat)"
  by simp

lemma sctp_chunks_done: "len \<le> pos + 3 \<Longrightarrow> sctp_chunks fuel buf len s pos rlen = Some (Done (s, []))"
  by (subst sctp_chunks.simps) simp

lemma sctp_chunks_ends:
  "\<not> chunk_stuck buf len pos \<Longrightarrow> len \<le> pos + 3 + fuel \<Longrightarrow> sctp_chunks fuel buf len s pos rlen \<noteq> Some Running"
proof (induction fuel arbitrary: s pos rlen)
  case 0
  then show ?case by (simp add: sctp_chunks_done)
next
  case (Suc f)
  show ?case
  proof (cases "pos + 3 < len")
    case True
    show ?thesis
    proof
      assume "sctp_chunks (Suc f) buf len s pos rlen = Some Running"
      then obtain s1 rl nxt evs s2 rl2 reply l r where
        c: "sctp_chunk s buf len pos rlen = Some (s1, rl, nxt, evs)" and l: "mem_read (pos + 2) 2 buf = Some l"
        and r: "sctp_chunks f buf len s2 (nxt + unat (of_be16 l)) rl2 = Some Running"
        using True by (subst (asm) sctp_chunks.simps)
          (auto simp: Option.bind_eq_Some_conv elim!: run_prepend.elims)
      note n = sctp_chunk_next [OF c]
      have l': "l = take 2 (drop (pos + 2) buf)" using l by (simp add: mem_read_Some)
      show False
      proof (cases "buf ! pos = chunk_type SCTP_DATA \<or> buf ! pos = chunk_type SCTP_COOKIE_ECHO")
        case True
        then show False using n r sctp_chunks_done [of len "nxt + unat (of_be16 l)" f buf s2 rl2] by simp
      next
        case False
        then have "unat (of_be16 l) \<noteq> 0" "\<not> chunk_stuck buf len (pos + unat (of_be16 l))"
          using Suc.prems(1) True l' by (subst (asm) chunk_stuck.simps, simp add: Let_def split: if_splits)+
        moreover from this(1) have "len \<le> pos + unat (of_be16 l) + 3 + f" using Suc.prems(2) by linarith
        ultimately show False using Suc.IH r n False by simp
      qed
    qed
  qed (simp add: sctp_chunks_done)
qed

lemma sctp_chunks_stuck:
  "chunk_stuck buf len pos \<Longrightarrow> sctp_chunks fuel buf len s pos rlen \<in> {None, Some Running}"
proof (induction fuel arbitrary: s pos rlen)
  case 0
  then show ?case by (subst (asm) chunk_stuck.simps, subst sctp_chunks.simps) (simp split: if_splits)
next
  case (Suc f)
  have p: "pos + 3 < len" and t: "\<not> (buf ! pos = chunk_type SCTP_DATA \<or> buf ! pos = chunk_type SCTP_COOKIE_ECHO)"
    using Suc.prems by (subst (asm) chunk_stuck.simps, simp add: Let_def split: if_splits)+
  show ?case
  proof (rule ccontr)
    assume n: "sctp_chunks (Suc f) buf len s pos rlen \<notin> {None, Some Running}"
    then obtain s1 rl nxt evs s2 rl2 reply l r where
      c: "sctp_chunk s buf len pos rlen = Some (s1, rl, nxt, evs)" and l: "mem_read (pos + 2) 2 buf = Some l"
      and r: "sctp_chunks f buf len s2 (nxt + unat (of_be16 l)) rl2 = Some r" "r \<noteq> Running"
      using p by (subst (asm) sctp_chunks.simps) (auto simp: Option.bind_eq_Some_conv split: bind_splits; fastforce)
    have l': "l = take 2 (drop (pos + 2) buf)" using l by (simp add: mem_read_Some)
    have "chunk_stuck buf len (pos + unat (of_be16 l))"
    proof (cases "unat (of_be16 l) = 0")
      case False
      then show ?thesis using Suc.prems p t l' by (subst (asm) chunk_stuck.simps) (simp add: Let_def)
    qed (use Suc.prems in simp)
    then show False using Suc.IH [of "nxt + unat (of_be16 l)" s2 rl2] r sctp_chunk_next [OF c] t by simp
  qed
qed

section \<open>Replies\<close>

lemma length_sctp_header: "wf_sctp s \<Longrightarrow> length (sctp_header s) = 8"
  by (simp add: sctp_header_def wf_sctp_def)

lemma sctp_reply_sealed:
  assumes w: "wf_sctp s" and b: "sctp_buf s = x @ c @ r" "length x = 12"
    and n: "0 < rlen" "4 * ((rlen + 3) div 4) = 12 + length c"
  shows "sctp_reply s rlen = Some (s\<lparr>sctp_buf := sealed (sctp_header s) c @ r\<rparr>, 12 + length c,
     [DtlsWrite (sealed (sctp_header s) c)])"
proof -
  let ?h = "sctp_header s"
  have h: "length ?h = 8" by (rule length_sctp_header [OF w])
  have "mem_write 0 (?h @ replicate 4 0) (sctp_buf s) = Some (?h @ replicate 4 0 @ c @ r)"
    using b h by (simp add: mem_write_def)
  moreover have "sctp_seal (12 + length c) (?h @ replicate 4 0 @ c @ r) = Some (sealed ?h c @ r)"
    by (rule sctp_seal_sealed [OF h]) simp
  moreover have "mem_read 0 (12 + length c) (sealed ?h c @ r) = Some (sealed ?h c)"
    using h by (simp add: mem_read_def)
  ultimately show ?thesis using n by (simp add: sctp_reply_def)
qed

lemma sctp_reply_none: "wf_sctp s \<Longrightarrow>
    sctp_reply s 0 = Some (s\<lparr>sctp_buf := sctp_header s @ replicate 4 0 @ drop 12 (sctp_buf s)\<rparr>, 0, [])"
  by (simp add: sctp_reply_def mem_write_def length_sctp_header wf_sctpD SCTP_BUF_def)

text \<open>The loop over a packet with one chunk, the length of which reaches the end of the packet.\<close>

lemma sctp_chunks_single:
  assumes c: "sctp_chunk s buf n 12 0 = Some (s1, rl, nxt, evs)" and r: "sctp_reply s1 rl = Some (s2, rl2, reply)"
    and l: "mem_read 14 2 buf = Some (be16 (of_nat k))" and k: "n \<le> nxt + k + 3" "k < 65536" and n: "15 < n" "0 < fuel"
  shows "sctp_chunks fuel buf n s 12 0 = Some (Done (s2, evs @ reply))"
proof -
  obtain f where f: "fuel = Suc f" using n(2) by (cases fuel) simp_all
  have "unat (of_nat k :: u16) = k" using k(2) by (simp add: unat_of_nat)
  then show ?thesis using c r l n(1) sctp_chunks_done [of n "nxt + k" f buf s2 rl2] k(1)
    by (subst sctp_chunks.simps) (simp add: f)
qed

section \<open>The handshake\<close>

definition tag_12345678 :: bytes where "tag_12345678 = be32 0x12345678"

definition init_body :: "u32 \<Rightarrow> bytes" where
  "init_body t = init_chunk SCTP_INIT 20 t"

definition init_ack_body :: "u32 \<Rightarrow> bytes" where
  "init_ack_body t = init_chunk SCTP_INIT_ACK 28 t @ be16 7 @ be16 8 @ be32 2"

definition cookie_echo_body :: bytes where
  "cookie_echo_body = [10, 0] @ be16 8 @ be32 2"

definition cookie_ack_body :: bytes where
  "cookie_ack_body = [11, 0] @ be16 4"

lemmas handshake_bodies = init_body_def init_ack_body_def cookie_echo_body_def cookie_ack_body_def init_chunk_def tag_12345678_def

lemma length_bodies [simp]: "length (init_body t) = 20" "length (init_ack_body t) = 28" "length cookie_echo_body = 8"
  "length cookie_ack_body = 4"
  by (simp_all add: handshake_bodies)

lemma mem_get_cat: "mem_get (length p) (p @ x # r) = Some x"
  by (simp add: mem_get_def)

lemma mem_read_cat: "mem_read (length p) (length m) (p @ m @ r) = Some m"
  by (simp add: mem_read_def)

text \<open>The parts of a body that the other side reads.\<close>

lemma init_body_parts:
  obtains y where "init_body t = 1 # [0] @ be16 20 @ tag_12345678 @ y"
  by (simp add: init_body_def init_chunk_def tag_12345678_def)

lemma init_ack_body_parts:
  obtains y where "init_ack_body t = 2 # [0] @ be16 28 @ tag_12345678 @ y @ be16 7 @ be16 8 @ be32 2" "length y = 12"
  using that [of "be32 0x100000 @ be16 0xffff @ be16 0xffff @ be32 t"]
  by (simp add: init_ack_body_def init_chunk_def tag_12345678_def)

lemma length_tag [simp]: "length tag_12345678 = 4"
  by (simp add: tag_12345678_def)

text \<open>INIT is sent with a checksum that passes if the checksum field was zero before.\<close>

lemma create_association_sends_init:
  assumes w: "wf_sctp s" and z: "take 4 (drop 8 (sctp_buf s)) = replicate 4 0"
  shows "\<exists>s'. sctp_create_association s =
      Some (0, s', [DtlsWrite (sealed (be16 5000 @ be16 5000 @ replicate 4 0) (init_body 1234))]) \<and> wf_sctp s' \<and>
    local_port s' = 5000 \<and> remote_port s' = 5000 \<and> connected s' = connected s \<and>
    has_onopen s' = has_onopen s \<and> has_onmessage s' = has_onmessage s"
proof -
  let ?h = "be16 5000 @ be16 5000 @ replicate 4 0 :: bytes"
  have "32 \<le> length (sctp_buf s)" using wf_sctpD(1) [OF w] by (simp add: SCTP_BUF_def)
  then have "8 + 4 \<le> length (sctp_buf s)" by simp
  then obtain x q r' where q: "sctp_buf s = x @ q @ r'" "length x = 8" "length q = 4" by (rule list_cut)
  have r': "20 \<le> length r'" using \<open>32 \<le> length (sctp_buf s)\<close> q by simp
  from q have "q = replicate 4 0" using z by simp
  then have b: "sctp_buf s = x @ replicate 4 0 @ take 20 r' @ drop 20 r'" and l: "length x = 8" "length (take 20 r') = 20"
    using q r' by simp_all
  let ?y = "take 20 r'" and ?r = "drop 20 r'"
  have 1: "mem_write 0 ?h (sctp_buf s) = Some (?h @ replicate 4 0 @ ?y @ ?r)"
    unfolding b using l by (simp add: mem_write_def)
  have 2: "mem_write 12 (init_body 1234) (?h @ replicate 4 0 @ ?y @ ?r) = Some (?h @ replicate 4 0 @ init_body 1234 @ ?r)"
    using mem_write_append [of 12 "?h @ replicate 4 0" "init_body 1234" ?y ?r] l by simp
  have 3: "mem_read 0 32 (?h @ replicate 4 0 @ init_body 1234 @ ?r) = Some (?h @ replicate 4 0 @ init_body 1234)"
    by (simp add: mem_read_def)
  have 4: "mem_write 8 (le32 v) (?h @ replicate 4 0 @ init_body 1234 @ ?r) = Some (?h @ le32 v @ init_body 1234 @ ?r)" for v
    using mem_write_append [of 8 ?h "le32 v" "replicate 4 0" "init_body 1234 @ ?r"] by simp
  have 5: "mem_read 0 32 (?h @ le32 v @ init_body 1234 @ ?r) = Some (?h @ le32 v @ init_body 1234)" for v
    by (simp add: mem_read_def)
  have "sctp_create_association s = Some (0, s\<lparr>local_port := 5000, remote_port := 5000, tsn := 1234,
      sctp_buf := sealed ?h (init_body 1234) @ ?r\<rparr>, [DtlsWrite (sealed ?h (init_body 1234))])"
    using 1 2 3 4 5 by (simp add: sctp_create_association_def SCTP_HEADER_SIZE_def sealed_def flip: init_body_def)
  moreover have "length (sealed ?h (init_body 1234) @ ?r) = SCTP_BUF"
    using wf_sctpD(1) [OF w] b l by simp
  ultimately show ?thesis using w by (simp add: wf_sctp_def)
qed


text \<open>Each side's answer to a packet of the other.\<close>

lemma zero_buf: "n \<le> SCTP_BUF \<Longrightarrow> replicate SCTP_BUF 0 = replicate n 0 @ replicate (SCTP_BUF - n) (0 :: u8)"
  by (simp flip: replicate_add)

text \<open>Writing a chunk into the cleared buffer.\<close>

lemma write_zero_buf:
  assumes "12 + length c \<le> SCTP_BUF"
  shows "mem_write 12 c (replicate SCTP_BUF 0) = Some (replicate 12 0 @ c @ replicate (SCTP_BUF - 12 - length c) 0)"
  using assms by (simp add: mem_write_def)

lemma incoming_init:
  assumes w: "wf_sctp s" and h: "length h = 8"
  shows "\<exists>s'. sctp_incoming_data 32 s (sealed h (init_body t) @ r) 32 =
      Some (Done (s', [DtlsWrite (sealed (be16 (of_int (local_port s)) @ be16 (of_int (remote_port s)) @ tag_12345678)
        (init_ack_body (tsn s)))])) \<and> wf_sctp s' \<and> verification_tag s' = tag_12345678 \<and>
    connected s' = connected s \<and> has_onopen s' = has_onopen s \<and> local_port s' = local_port s \<and>
    remote_port s' = remote_port s"
proof -
  let ?z = "replicate SCTP_BUF 0 :: bytes"
  let ?b = "h @ replicate 4 0 @ init_body t @ r"
  let ?s = "s\<lparr>sctp_buf := ?z\<rparr>"
  let ?s1 = "s\<lparr>sctp_buf := replicate 12 0 @ init_ack_body (tsn s) @ replicate (SCTP_BUF - 40) 0, verification_tag := tag_12345678\<rparr>"
  have w1: "wf_sctp ?s1" using w by (simp add: wf_sctp_def SCTP_BUF_def)
  obtain y where y: "init_body t = 1 # [0] @ be16 20 @ tag_12345678 @ y" by (rule init_body_parts)
  have "mem_read 16 4 ?b = Some tag_12345678"
    using mem_read_cat [of "h @ replicate 4 0 @ [1, 0] @ be16 20" tag_12345678 "y @ r"] h y by simp
  moreover have "mem_write 12 (init_ack_body (tsn s)) ?z = Some (replicate 12 0 @ init_ack_body (tsn s) @ replicate (SCTP_BUF - 40) 0)"
    using write_zero_buf [of "init_ack_body (tsn s)"] by (simp add: SCTP_BUF_def)
  ultimately have "chunk_init ?s ?b = Some (?s1, 40, [])"
    by (simp add: chunk_init_def init_ack_body_def SCTP_PARAM_STATE_COOKIE_def SCTP_HEADER_SIZE_def)
  moreover have "mem_get 12 ?b = Some 1"
    using mem_get_cat [of "h @ replicate 4 0" 1] h y by simp
  ultimately have c: "sctp_chunk ?s ?b 32 12 0 = Some (?s1, 40, 12, [])" by (simp add: sctp_chunk_def)
  have "sctp_buf ?s1 = replicate 12 0 @ init_ack_body (tsn s) @ replicate (SCTP_BUF - 40) 0" by simp
  note rp = sctp_reply_sealed [OF w1 this, of 40, simplified]
  have l: "mem_read 14 2 ?b = Some (be16 (of_nat 20))"
    using mem_read_cat [of "h @ replicate 4 0 @ [1, 0]" "be16 20" "tag_12345678 @ y @ r"] h y by simp
  have "sctp_incoming_data 32 s (sealed h (init_body t) @ r) 32 = sctp_chunks 32 ?b 32 ?s 12 0"
    using incoming_sealed [OF h, of 32 "init_body t"] by simp
  also have "\<dots> = Some (Done (?s1\<lparr>sctp_buf := sealed (sctp_header ?s1) (init_ack_body (tsn s)) @ replicate (SCTP_BUF - 40) 0\<rparr>,
      [] @ [DtlsWrite (sealed (sctp_header ?s1) (init_ack_body (tsn s)))]))"
    by (rule sctp_chunks_single [OF c _ l]) (use rp in simp_all)
  finally show ?thesis using w by (simp add: wf_sctp_def sctp_header_def SCTP_BUF_def)
qed

lemma incoming_init_ack:
  assumes w: "wf_sctp s" and h: "length h = 8"
  shows "\<exists>s'. sctp_incoming_data 40 s (sealed h (init_ack_body t) @ r) 40 =
      Some (Done (s', [DtlsWrite (sealed (be16 (of_int (local_port s)) @ be16 (of_int (remote_port s)) @ tag_12345678)
        cookie_echo_body)])) \<and> wf_sctp s' \<and> verification_tag s' = tag_12345678 \<and>
    connected s' = connected s \<and> has_onopen s' = has_onopen s"
proof -
  let ?z = "replicate SCTP_BUF 0 :: bytes"
  let ?b = "h @ replicate 4 0 @ init_ack_body t @ r"
  let ?s = "s\<lparr>sctp_buf := ?z\<rparr>"
  let ?s1 = "s\<lparr>sctp_buf := replicate 12 0 @ cookie_echo_body @ replicate (SCTP_BUF - 20) 0, verification_tag := tag_12345678\<rparr>"
  have w1: "wf_sctp ?s1" using w by (simp add: wf_sctp_def SCTP_BUF_def)
  obtain y where y: "init_ack_body t = 2 # [0] @ be16 28 @ tag_12345678 @ y @ be16 7 @ be16 8 @ be32 2" "length y = 12"
    by (rule init_ack_body_parts)
  let ?p = "h @ replicate 4 0 @ [2, 0] @ be16 28 @ tag_12345678 @ y"
  have 1: "mem_read 16 4 ?b = Some tag_12345678"
    using mem_read_cat [of "h @ replicate 4 0 @ [2, 0] @ be16 28" tag_12345678] h y by simp
  have 2: "mem_read 14 2 ?b = Some (be16 28)"
    using mem_read_cat [of "h @ replicate 4 0 @ [2, 0]" "be16 28"] h y by simp
  have 3: "mem_read 32 2 ?b = Some (be16 7)"
    using mem_read_cat [of ?p "be16 7"] h y by simp
  have 4: "mem_read 34 2 ?b = Some (be16 8)"
    using mem_read_cat [of "?p @ be16 7" "be16 8"] h y by simp
  have 5: "mem_read 36 4 ?b = Some (be32 2)"
    using mem_read_cat [of "?p @ be16 7 @ be16 8" "be32 2"] h y by simp
  have bound: "unat (of_be16 (rev (be16 28))) - 20 = 7148" by code_simp
  have fc: "find_cookie ?b 7148 0 = Some (Some 0)"
    using 3 by (subst find_cookie.simps) (simp add: SCTP_PARAM_STATE_COOKIE_def)
  have 6: "mem_write 12 cookie_echo_body ?z = Some (replicate 12 0 @ cookie_echo_body @ replicate (SCTP_BUF - 20) 0)"
    using write_zero_buf [of cookie_echo_body] by (simp add: SCTP_BUF_def)
  have "chunk_init_ack ?s ?b = Some (?s1, 20, [])"
    using 1 2 4 5 6 fc by (simp add: chunk_init_ack_def bound SCTP_HEADER_SIZE_def cookie_echo_body_def)
  moreover have "mem_get 12 ?b = Some 2"
    using mem_get_cat [of "h @ replicate 4 0" 2] h y by simp
  ultimately have c: "sctp_chunk ?s ?b 40 12 0 = Some (?s1, 20, 12, [])" by (simp add: sctp_chunk_def)
  have "sctp_buf ?s1 = replicate 12 0 @ cookie_echo_body @ replicate (SCTP_BUF - 20) 0" by simp
  note rp = sctp_reply_sealed [OF w1 this, of 20, simplified]
  have l: "mem_read 14 2 ?b = Some (be16 (of_nat 28))" using 2 by simp
  have "sctp_incoming_data 40 s (sealed h (init_ack_body t) @ r) 40 = sctp_chunks 40 ?b 40 ?s 12 0"
    using incoming_sealed [OF h, of 40 "init_ack_body t"] by simp
  also have "\<dots> = Some (Done (?s1\<lparr>sctp_buf := sealed (sctp_header ?s1) cookie_echo_body @ replicate (SCTP_BUF - 20) 0\<rparr>,
      [] @ [DtlsWrite (sealed (sctp_header ?s1) cookie_echo_body)]))"
    by (rule sctp_chunks_single [OF c _ l]) (use rp in simp_all)
  finally show ?thesis using w by (simp add: wf_sctp_def sctp_header_def SCTP_BUF_def)
qed

lemma incoming_cookie_echo:
  assumes w: "wf_sctp s" and h: "length h = 8" and n: "\<not> connected s"
  shows "\<exists>s'. sctp_incoming_data 20 s (sealed h cookie_echo_body @ r) 20 =
      Some (Done (s', (if has_onopen s then [OnOpen] else []) @ [DtlsWrite (sealed (sctp_header s) cookie_ack_body)])) \<and>
    wf_sctp s' \<and> connected s' \<and> verification_tag s' = verification_tag s"
proof -
  let ?z = "replicate SCTP_BUF 0 :: bytes"
  let ?b = "h @ replicate 4 0 @ cookie_echo_body @ r"
  let ?s = "s\<lparr>sctp_buf := ?z\<rparr>"
  let ?s1 = "s\<lparr>connected := True, sctp_buf := replicate 12 0 @ cookie_ack_body @ replicate (SCTP_BUF - 16) 0\<rparr>"
  let ?e = "if has_onopen s then [OnOpen] else []"
  have w1: "wf_sctp ?s1" using w by (simp add: wf_sctp_def SCTP_BUF_def)
  have 1: "mem_write 12 [11] ?z = Some (replicate 12 0 @ [11] @ [0] @ replicate 2 0 @ replicate (SCTP_BUF - 16) 0)"
    by (simp add: mem_write_def SCTP_BUF_def flip: replicate_Suc replicate_add)
  have 2: "mem_write 14 (be16 4) (replicate 12 0 @ [11] @ [0] @ replicate 2 0 @ replicate (SCTP_BUF - 16) 0) =
      Some (replicate 12 0 @ cookie_ack_body @ replicate (SCTP_BUF - 16) 0)"
    using mem_write_append [of 14 "replicate 12 0 @ [11, 0]" "be16 4" "replicate 2 0" "replicate (SCTP_BUF - 16) 0"]
    by (simp add: cookie_ack_body_def)
  have 3: "mem_get 12 ?b = Some 10"
    using mem_get_cat [of "h @ replicate 4 0" 10] h by (simp add: cookie_echo_body_def)
  have "chunk_cookie_echo ?s = Some (?s1, 16, ?e)"
    using 1 2 n by (simp add: chunk_cookie_echo_def sctp_opened_def SCTP_HEADER_SIZE_def)
  then have c: "sctp_chunk ?s ?b 20 12 0 = Some (?s1, 16, 20, ?e)" using 3 by (simp add: sctp_chunk_def)
  have "sctp_buf ?s1 = replicate 12 0 @ cookie_ack_body @ replicate (SCTP_BUF - 16) 0" by simp
  note rp = sctp_reply_sealed [OF w1 this, of 16, simplified]
  have l: "mem_read 14 2 ?b = Some (be16 (of_nat 8))"
    using mem_read_cat [of "h @ replicate 4 0 @ [10, 0]" "be16 8"] h by (simp add: cookie_echo_body_def)
  have "sctp_incoming_data 20 s (sealed h cookie_echo_body @ r) 20 = sctp_chunks 20 ?b 20 ?s 12 0"
    using incoming_sealed [OF h, of 20 cookie_echo_body] by simp
  also have "\<dots> = Some (Done (?s1\<lparr>sctp_buf := sealed (sctp_header ?s1) cookie_ack_body @ replicate (SCTP_BUF - 16) 0\<rparr>,
      ?e @ [DtlsWrite (sealed (sctp_header ?s1) cookie_ack_body)]))"
    by (rule sctp_chunks_single [OF c _ l]) (use rp in simp_all)
  finally show ?thesis using w by (simp add: wf_sctp_def sctp_header_def SCTP_BUF_def)
qed

lemma incoming_cookie_ack:
  assumes w: "wf_sctp s" and h: "length h = 8" and n: "\<not> connected s"
  shows "\<exists>s'. sctp_incoming_data 16 s (sealed h cookie_ack_body @ r) 16 =
      Some (Done (s', if has_onopen s then [OnOpen] else [])) \<and>
    wf_sctp s' \<and> connected s' \<and> verification_tag s' = verification_tag s"
proof -
  let ?b = "h @ replicate 4 0 @ cookie_ack_body @ r"
  let ?s = "s\<lparr>sctp_buf := replicate SCTP_BUF 0\<rparr>"
  let ?s1 = "s\<lparr>sctp_buf := replicate SCTP_BUF 0, connected := True\<rparr>"
  let ?e = "if has_onopen s then [OnOpen] else []"
  have w1: "wf_sctp ?s1" using w by (simp add: wf_sctp_def)
  have "mem_get 12 ?b = Some 11"
    using mem_get_cat [of "h @ replicate 4 0" 11] h by (simp add: cookie_ack_body_def)
  then have c: "sctp_chunk ?s ?b 16 12 0 = Some (?s1, 0, 12, ?e)" using n by (simp add: sctp_chunk_def sctp_opened_def)
  have l: "mem_read 14 2 ?b = Some (be16 (of_nat 4))"
    using mem_read_cat [of "h @ replicate 4 0 @ [11, 0]" "be16 4"] h by (simp add: cookie_ack_body_def)
  have "sctp_incoming_data 16 s (sealed h cookie_ack_body @ r) 16 = sctp_chunks 16 ?b 16 ?s 12 0"
    using incoming_sealed [OF h, of 16 cookie_ack_body] by simp
  also have "\<dots> = Some (Done (?s1\<lparr>sctp_buf := sctp_header ?s1 @ replicate 4 0 @ drop 12 (sctp_buf ?s1)\<rparr>, ?e @ []))"
    by (rule sctp_chunks_single [OF c sctp_reply_none [OF w1] l]) simp_all
  finally show ?thesis using w length_sctp_header [OF w1] by (simp add: wf_sctp_def SCTP_BUF_def)
qed

text \<open>C10: The four-way handshake: the INIT of an association with a clear buffer is answered with
  INIT-ACK, that with COOKIE-ECHO and that with COOKIE-ACK, whatever else the receive buffers hold;
  afterwards both sides are connected with the same verification tag, and each has called its
  onopen function once.\<close>

theorem sctp_handshake_connects:
  assumes "wf_sctp a" and "take 4 (drop 8 (sctp_buf a)) = replicate 4 0" and "\<not> connected a" and "has_onopen a"
    and "wf_sctp b" and "\<not> connected b" and "has_onopen b"
  shows "\<exists>a1 a2 a3 b1 b2 p1 p2 p3 p4.
    sctp_create_association a = Some (0, a1, [DtlsWrite p1]) \<and>
    sctp_incoming_data (length p1) b (p1 @ r) (length p1) = Some (Done (b1, [DtlsWrite p2])) \<and>
    sctp_incoming_data (length p2) a1 (p2 @ r) (length p2) = Some (Done (a2, [DtlsWrite p3])) \<and>
    sctp_incoming_data (length p3) b1 (p3 @ r) (length p3) = Some (Done (b2, [OnOpen, DtlsWrite p4])) \<and>
    sctp_incoming_data (length p4) a2 (p4 @ r) (length p4) = Some (Done (a3, [OnOpen])) \<and>
    sctp_is_connected a3 \<and> sctp_is_connected b2 \<and> verification_tag a3 = verification_tag b2"
proof -
  let ?h1 = "be16 5000 @ be16 5000 @ replicate 4 0 :: bytes"
  let ?h2 = "be16 (of_int (local_port b)) @ be16 (of_int (remote_port b)) @ tag_12345678"
  let ?h3 = "be16 5000 @ be16 5000 @ tag_12345678"
  obtain a1 where a1: "sctp_create_association a = Some (0, a1, [DtlsWrite (sealed ?h1 (init_body 1234))])"
    "wf_sctp a1" "local_port a1 = 5000" "remote_port a1 = 5000" "\<not> connected a1" "has_onopen a1"
    using create_association_sends_init [OF assms(1,2)] assms(3,4) by auto
  obtain b1 where b1: "sctp_incoming_data 32 b (sealed ?h1 (init_body 1234) @ r) 32 =
      Some (Done (b1, [DtlsWrite (sealed ?h2 (init_ack_body (tsn b)))]))"
    "wf_sctp b1" "verification_tag b1 = tag_12345678" "\<not> connected b1" "has_onopen b1"
    "local_port b1 = local_port b" "remote_port b1 = remote_port b"
    using incoming_init [OF assms(5), of ?h1 1234 r] assms(6,7) by auto
  obtain a2 where a2: "sctp_incoming_data 40 a1 (sealed ?h2 (init_ack_body (tsn b)) @ r) 40 =
      Some (Done (a2, [DtlsWrite (sealed ?h3 cookie_echo_body)]))"
    "wf_sctp a2" "verification_tag a2 = tag_12345678" "\<not> connected a2" "has_onopen a2"
    using incoming_init_ack [OF a1(2), of ?h2 "tsn b" r] a1(3-6) by auto
  obtain b2 where b2: "sctp_incoming_data 20 b1 (sealed ?h3 cookie_echo_body @ r) 20 =
      Some (Done (b2, [OnOpen, DtlsWrite (sealed (sctp_header b1) cookie_ack_body)]))"
    "connected b2" "verification_tag b2 = tag_12345678"
    using incoming_cookie_echo [OF b1(2) _ b1(4), of ?h3 r] b1(3,5) by auto
  have h1: "length (sctp_header b1) = 8" by (rule length_sctp_header [OF b1(2)])
  obtain a3 where a3: "sctp_incoming_data 16 a2 (sealed (sctp_header b1) cookie_ack_body @ r) 16 = Some (Done (a3, [OnOpen]))"
    "connected a3" "verification_tag a3 = tag_12345678"
    using incoming_cookie_ack [OF a2(2) h1 a2(4), of r] a2(3,5) by auto
  show ?thesis
    by (rule exI [of _ a1], rule exI [of _ a2], rule exI [of _ a3], rule exI [of _ b1],
        rule exI [of _ b2], rule exI [of _ "sealed ?h1 (init_body 1234)"],
        rule exI [of _ "sealed ?h2 (init_ack_body (tsn b))"], rule exI [of _ "sealed ?h3 cookie_echo_body"],
        rule exI [of _ "sealed (sctp_header b1) cookie_ack_body"])
      (use a1(1) b1(1) a2(1) b2 a3 h1 in \<open>simp add: sctp_is_connected_def\<close>)
qed

lemma sctp_handshake_connects_witness:
  "\<exists>a1 p1 b1 p2. sctp_create_association (sctp_onopen sctp_zero True) = Some (0, a1, [DtlsWrite p1]) \<and>
    sctp_incoming_data (length p1) (sctp_onopen sctp_zero True) (p1 @ []) (length p1) = Some (Done (b1, [DtlsWrite p2]))"
proof -
  have "wf_sctp (sctp_onopen sctp_zero True)" using wf_sctp_zero by (simp add: wf_sctp_def sctp_onopen_def)
  moreover have "take 4 (drop 8 (sctp_buf (sctp_onopen sctp_zero True))) = replicate 4 0"
    by (simp add: sctp_onopen_def sctp_zero_def SCTP_BUF_def)
  moreover have "\<not> connected (sctp_onopen sctp_zero True)" "has_onopen (sctp_onopen sctp_zero True)"
    by (simp_all add: sctp_onopen_def sctp_zero_def)
  ultimately show ?thesis
    using sctp_handshake_connects [of "sctp_onopen sctp_zero True" "sctp_onopen sctp_zero True" "[]"] by blast
qed

text \<open>C16: The loop over the chunks of a packet returns, in as many rounds as the packet has bytes,
  exactly if no chunk it walks over has length zero (other than a last DATA or COOKIE-ECHO chunk):
  with such a chunk it is still running after any number of rounds, unless it has left a buffer
  before.\<close>

theorem sctp_chunk_loop_ends:
  shows "(\<not> chunk_stuck buf len 12 \<longrightarrow> (\<forall>fuel \<ge> len. sctp_chunks fuel buf len s 12 rlen \<noteq> Some Running)) \<and>
    (chunk_stuck buf len 12 \<longrightarrow> (\<forall>fuel. sctp_chunks fuel buf len s 12 rlen \<in> {None, Some Running}))"
  using sctp_chunks_ends [of buf len 12] sctp_chunks_stuck [of buf len 12] by simp

definition zero_length_packet :: bytes where
  "zero_length_packet = replicate 12 0 @ [3, 0, 0, 0]"

lemma sctp_chunk_loop_ends_witness:
  "sctp_chunks 1000 zero_length_packet 16 sctp_zero 12 0 \<in> {None, Some Running} \<and>
   sctp_chunks 16 (replicate 12 0 @ [3, 0, 0, 4]) 16 sctp_zero 12 0 \<noteq> Some Running"
proof -
  have "chunk_stuck zero_length_packet 16 12" "\<not> chunk_stuck (replicate 12 0 @ [3, 0, 0, 4]) 16 12" by code_simp+
  then show ?thesis
    using sctp_chunk_loop_ends [of zero_length_packet 16 sctp_zero 0]
      sctp_chunk_loop_ends [of "replicate 12 0 @ [3, 0, 0, 4]" 16 sctp_zero 0] by simp
qed

end
