(* ===== verification/Sctp_Data.thy ===== *)
theory Sctp_Data
  imports Sctp_Assoc
begin

text \<open>
  Messages over the association of theory Sctp: what \<open>sctp_outgoing_data\<close> puts on the wire for a
  message of any size, and what the other side's \<open>sctp_incoming_data\<close> makes of it.
\<close>

section \<open>DATA chunks\<close>

definition data_body :: "u8 \<Rightarrow> nat \<Rightarrow> u32 \<Rightarrow> u16 \<Rightarrow> u32 \<Rightarrow> bytes \<Rightarrow> bytes" where
  "data_body iube l t sqn ppid d =
     [0, iube] @ (be16 (of_nat l) @ be32 t) @ (be16 0 @ be16 sqn @ be32 ppid) @ d"

definition chunk_pad :: "nat \<Rightarrow> nat" where
  "chunk_pad n = 4 * ((n + 3) div 4) - n"

text \<open>The packets of a message, first fragment first: full ones, and the rest with padding and the
  E bit.\<close>

function fragments :: "bytes \<Rightarrow> u16 \<Rightarrow> u32 \<Rightarrow> u8 \<Rightarrow> u32 \<Rightarrow> bytes \<Rightarrow> bytes list" where
  "fragments h sqn ppid iube t m =
     (if payload_max < length m
      then sealed h (data_body iube 1188 t sqn ppid (take payload_max m)) #
           fragments h sqn ppid 4 (t + 1) (drop payload_max m)
      else if m = [] then []
      else [sealed h (data_body (iube + 1) (length m + 16) t sqn ppid (m @ replicate (chunk_pad (length m)) 0))])"
  by pat_completeness auto
termination by (relation "measure (\<lambda>(h, q, p, i, t, m). length m)") (auto simp: payload_max_def sctp_sizes)

declare fragments.simps [simp del]

lemma payload_max_value: "payload_max = 1172"
  by (simp add: payload_max_def sctp_sizes)

lemma length_data_body [simp]: "length (data_body iube l t sqn ppid d) = 16 + length d"
  by (simp add: data_body_def)

lemma mem_write_cat:
  "length bs = length old \<Longrightarrow> mem_write (length p) bs (p @ old @ r) = Some (p @ bs @ r)"
  by (simp add: mem_write_def)

lemma chunk_pad_total: "4 * ((n + 16 + 12 + 3) div 4) = 28 + n + chunk_pad n"
proof -
  have "4 * ((n + 16 + 12 + 3) div 4) = 28 + 4 * ((n + 3) div 4)" by presburger
  moreover have "n \<le> 4 * ((n + 3) div 4)" by presburger
  ultimately show ?thesis by (simp add: chunk_pad_def)
qed

lemma chunk_pad_small: "chunk_pad n \<le> 3"
  unfolding chunk_pad_def by presburger

text \<open>The send buffer between two packets: header, checksum, the chunk header with its flags, and room.\<close>

definition send_buf :: "bytes \<Rightarrow> u16 \<Rightarrow> u32 \<Rightarrow> u8 \<Rightarrow> bytes \<Rightarrow> bool" where
  "send_buf h sqn ppid iube buf \<longleftrightarrow> length h = 8 \<and>
     (\<exists>x z r. length x = 4 \<and> length z = 6 \<and> length r = 1272 \<and>
        buf = h @ x @ [0, iube] @ z @ (be16 0 @ be16 sqn @ be32 ppid) @ r)"

text \<open>One packet with \<open>l\<close> bytes of user data \<open>d\<close>, padding included.\<close>

lemma packet_steps:
  assumes b: "send_buf h sqn ppid iube buf" and d: "length d \<le> 1172"
  obtains b1 b2 r where "mem_write 14 (be16 l @ be32 t) buf = Some b1" "mem_write 28 d b1 = Some b2"
    "sctp_seal (28 + length d) b2 = Some (sealed h (data_body iube (unat l) t sqn ppid d) @ r)" "length r = 1272 - length d"
proof -
  obtain x z q where h: "length h = 8" "length x = 4" "length z = 6" "length q = 1272"
    and buf: "buf = h @ x @ [0, iube] @ z @ (be16 0 @ be16 sqn @ be32 ppid) @ q"
    using b by (auto simp: send_buf_def)
  let ?Y = "be16 0 @ be16 sqn @ be32 ppid" and ?r = "drop (length d) q"
  let ?b1 = "h @ x @ [0, iube] @ (be16 l @ be32 t) @ ?Y @ q"
  let ?b2 = "h @ x @ [0, iube] @ (be16 l @ be32 t) @ ?Y @ d @ ?r"
  have "length (be16 l @ be32 t) = length z" using h by simp
  from mem_write_cat [OF this, of "h @ x @ [0, iube]" "?Y @ q"]
  have 1: "mem_write 14 (be16 l @ be32 t) buf = Some ?b1" using h buf by simp
  have "length d = length (take (length d) q)" using d h by simp
  from mem_write_cat [OF this, of "h @ x @ [0, iube] @ (be16 l @ be32 t) @ ?Y" ?r]
  have 2: "mem_write 28 d ?b1 = Some ?b2" using h by simp
  have "data_body iube (unat l) t sqn ppid d = [0, iube] @ (be16 l @ be32 t) @ ?Y @ d"
    by (simp add: data_body_def)
  then have 3: "sctp_seal (28 + length d) ?b2 = Some (sealed h (data_body iube (unat l) t sqn ppid d) @ ?r)"
    using sctp_seal_sealed [OF h(1,2), of "data_body iube (unat l) t sqn ppid d" ?r] by (simp add: add.commute add.left_commute)
  show ?thesis using that [OF 1 2 3] h d by simp
qed

lemma sealed_read: "length h = 8 \<Longrightarrow> mem_read 0 (12 + length c) (sealed h c @ r) = Some (sealed h c)"
  by (simp add: mem_read_def)

text \<open>After a packet, the next flags can be written.\<close>

lemma send_buf_next:
  assumes "length h = 8" and "length d + length r = 1272"
  shows "mem_get 13 (sealed h (data_body iube l t sqn ppid d) @ r) = Some iube"
    "\<exists>b. mem_write 13 [i] (sealed h (data_body iube l t sqn ppid d) @ r) = Some b \<and> send_buf h sqn ppid i b"
proof -
  let ?c = "le32 (sctp_get_checksum (h @ replicate 4 0 @ data_body iube l t sqn ppid d))"
  let ?z = "be16 (of_nat l) @ be32 t" and ?Y = "be16 0 @ be16 sqn @ be32 ppid"
  have e: "sealed h (data_body iube l t sqn ppid d) @ r = h @ ?c @ [0] @ [iube] @ ?z @ ?Y @ d @ r"
    by (simp add: sealed_def data_body_def)
  show "mem_get 13 (sealed h (data_body iube l t sqn ppid d) @ r) = Some iube"
    unfolding e using mem_get_cat [of "h @ ?c @ [0]" iube "?z @ ?Y @ d @ r"] assms(1) by simp
  have "mem_write 13 [i] (sealed h (data_body iube l t sqn ppid d) @ r) = Some (h @ ?c @ [0] @ [i] @ ?z @ ?Y @ d @ r)"
    unfolding e using mem_write_cat [of "[i]" "[iube]" "h @ ?c @ [0]" "?z @ ?Y @ d @ r"] assms(1) by simp
  moreover have "send_buf h sqn ppid i (h @ ?c @ [0] @ [i] @ ?z @ ?Y @ d @ r)"
    unfolding send_buf_def using assms by (intro conjI exI [of _ ?c] exI [of _ ?z] exI [of _ "d @ r"]) simp_all
  ultimately show "\<exists>b. mem_write 13 [i] (sealed h (data_body iube l t sqn ppid d) @ r) = Some b \<and> send_buf h sqn ppid i b"
    by blast
qed

lemma send_last_packet:
  assumes b: "send_buf h sqn ppid iube (sctp_buf s)" and m: "0 < length m" "length m \<le> payload_max"
    and r: "mem_read pos (length m) msg = Some m"
  shows "\<exists>s'. sctp_send_last msg (length m) pos s =
    Some (s', [DtlsWrite (sealed h (data_body (iube + 1) (length m + 16) (tsn s) sqn ppid (m @ replicate (chunk_pad (length m)) 0)))])"
proof -
  let ?n = "length m"
  obtain x z q where h: "length h = 8" "length x = 4" "length z = 6" "length q = 1272"
    and buf: "sctp_buf s = h @ x @ [0, iube] @ z @ (be16 0 @ be16 sqn @ be32 ppid) @ q"
    using b by (auto simp: send_buf_def)
  let ?Y = "be16 0 @ be16 sqn @ be32 ppid" and ?H = "be16 (of_nat (?n + 16)) @ be32 (tsn s)"
  have n: "?n \<le> 1172" using m(2) by (simp add: payload_max_value)
  have 1: "mem_get 13 (sctp_buf s) = Some iube"
    using mem_get_cat [of "h @ x @ [0]" iube "z @ ?Y @ q"] h buf by simp
  have "length ([iube + 1] @ ?H) = length ([iube] @ z)" using h by simp
  from mem_write_cat [OF this, of "h @ x @ [0]" "?Y @ q"]
  have 2: "mem_write 13 ([iube + 1] @ ?H) (sctp_buf s) = Some (h @ x @ [0, iube + 1] @ ?H @ ?Y @ q)" using h buf by simp
  let ?q = "replicate 1172 0 @ drop 1172 q :: bytes"
  have "length (replicate 1172 0 :: bytes) = length (take 1172 q)" using h by simp
  from mem_write_cat [OF this, of "h @ x @ [0, iube + 1] @ ?H @ ?Y" "drop 1172 q"]
  have 3: "mem_write 28 (replicate 1172 0) (h @ x @ [0, iube + 1] @ ?H @ ?Y @ q) = Some (h @ x @ [0, iube + 1] @ ?H @ ?Y @ ?q)"
    using h by simp
  have "length m = length (take ?n ?q)" using h n by simp
  from mem_write_cat [OF this, of "h @ x @ [0, iube + 1] @ ?H @ ?Y" "drop ?n ?q"]
  have 4: "mem_write 28 m (h @ x @ [0, iube + 1] @ ?H @ ?Y @ ?q) = Some (h @ x @ [0, iube + 1] @ ?H @ ?Y @ m @ drop ?n ?q)"
    using h by (simp del: take_append drop_append)
  let ?p = "chunk_pad ?n"
  have "?n + ?p \<le> 1172" using n unfolding chunk_pad_def by presburger
  then have "replicate (1172 - ?n) (0 :: u8) = replicate ?p 0 @ replicate (1172 - ?n - ?p) 0"
    by (simp flip: replicate_add)
  then have dq: "drop ?n ?q = replicate ?p 0 @ replicate (1172 - ?n - ?p) 0 @ drop 1172 q" using n by simp
  let ?c = "data_body (iube + 1) (?n + 16) (tsn s) sqn ppid (m @ replicate ?p 0)"
  let ?r = "replicate (1172 - ?n - ?p) 0 @ drop 1172 q"
  have total: "4 * ((?n + 16 + 12 + 3) div 4) = 12 + length ?c" using chunk_pad_total [of ?n] by simp
  have 5: "sctp_seal (12 + length ?c) (h @ x @ [0, iube + 1] @ ?H @ ?Y @ m @ drop ?n ?q) = Some (sealed h ?c @ ?r)"
    using sctp_seal_sealed [OF h(1,2), of ?c ?r] unfolding dq by (simp add: data_body_def)
  have 6: "mem_read 0 (12 + length ?c) (sealed h ?c @ ?r) = Some (sealed h ?c)" by (rule sealed_read [OF h(1)])
  have sz: "SCTP_DATA_CHUNK_SIZE = 16" "SCTP_HEADER_SIZE = 12" "payload_max = 1172"
    by (simp_all add: sctp_sizes payload_max_value)
  obtain b1 b2 b3 q' where
    "mem_write 13 ([iube + 1] @ be16 (of_nat (?n + SCTP_DATA_CHUNK_SIZE)) @ be32 (tsn s)) (sctp_buf s) = Some b1"
    "mem_write 28 (replicate payload_max 0) b1 = Some b2" "mem_write 28 m b2 = Some b3"
    "sctp_seal (4 * ((?n + SCTP_DATA_CHUNK_SIZE + SCTP_HEADER_SIZE + 3) div 4)) b3 = Some (sealed h ?c @ q')"
    "mem_read 0 (4 * ((?n + SCTP_DATA_CHUNK_SIZE + SCTP_HEADER_SIZE + 3) div 4)) (sealed h ?c @ q') = Some (sealed h ?c)"
    unfolding sz total using 2 3 4 5 6 by blast
  then show ?thesis using m(1) 1 r by (simp add: sctp_send_last_def Let_def)
qed

lemma send_full_packet:
  assumes b: "send_buf h sqn ppid iube (sctp_buf s)" and m: "payload_max < len" and r: "mem_read pos payload_max msg = Some d"
  obtains b1 b2 b3 b4 where
    "mem_write 14 (be16 (of_nat (payload_max + SCTP_DATA_CHUNK_SIZE)) @ be32 (tsn s)) (sctp_buf s) = Some b1"
    "mem_write 28 d b1 = Some b2" "sctp_seal SCTP_MTU b2 = Some b3"
    "mem_read 0 SCTP_MTU b3 = Some (sealed h (data_body iube 1188 (tsn s) sqn ppid d))"
    "mem_write 13 [4] b3 = Some b4" "send_buf h sqn ppid 4 b4"
proof -
  have d: "length d = 1172" using r by (auto simp: mem_read_Some payload_max_value min_def)
  have sz: "SCTP_MTU = 28 + length d" "be16 (of_nat (payload_max + SCTP_DATA_CHUNK_SIZE)) = be16 1188"
    using d by (simp_all add: sctp_sizes payload_max_value)
  have h: "length h = 8" using b by (simp add: send_buf_def)
  have u: "unat (1188 :: u16) = 1188" by simp
  obtain b1 b2 q where p: "mem_write 14 (be16 1188 @ be32 (tsn s)) (sctp_buf s) = Some b1" "mem_write 28 d b1 = Some b2"
    "sctp_seal (28 + length d) b2 = Some (sealed h (data_body iube 1188 (tsn s) sqn ppid d) @ q)" "length q = 1272 - length d"
    using packet_steps [OF b, of d 1188 "tsn s"] d unfolding u by auto
  have "length d + length q = 1272" using p(4) d by simp
  from send_buf_next(2) [OF h this] obtain b4 where
    "mem_write 13 [4] (sealed h (data_body iube 1188 (tsn s) sqn ppid d) @ q) = Some b4" "send_buf h sqn ppid 4 b4" by blast
  moreover have "mem_read 0 (28 + length d) (sealed h (data_body iube 1188 (tsn s) sqn ppid d) @ q) =
      Some (sealed h (data_body iube 1188 (tsn s) sqn ppid d))"
    using sealed_read [OF h, of "data_body iube 1188 (tsn s) sqn ppid d" q] by simp
  ultimately show ?thesis using that p(1-3) unfolding sz by blast
qed

lemma send_fragments:
  "send_buf h sqn ppid iube (sctp_buf s) \<Longrightarrow> mem_read pos len msg = Some m \<Longrightarrow>
   \<exists>n p s1 s2 e1 e2. sctp_send_full msg len pos s = Some (n, p, s1, e1) \<and> sctp_send_last msg n p s1 = Some (s2, e2) \<and>
     e1 @ e2 = map DtlsWrite (fragments h sqn ppid iube (tsn s) m) \<and>
     n = (if len \<le> payload_max then len else (len - 1) mod payload_max + 1)"
proof (induction msg len pos s arbitrary: iube m rule: sctp_send_full.induct)
  case (1 msg len pos s)
  have m: "length m = len" "m = take len (drop pos msg)" "pos + len \<le> length msg" using "1.prems"(2) by (auto simp: mem_read_Some)
  show ?case
  proof (cases "payload_max < len")
    case True
    let ?d = "take payload_max m" and ?m = "drop payload_max m"
    have d: "mem_read pos payload_max msg = Some ?d" using m True by (simp add: mem_read_Some)
    obtain b1 b2 b3 b4 where b:
      "mem_write 14 (be16 (of_nat (payload_max + SCTP_DATA_CHUNK_SIZE)) @ be32 (tsn s)) (sctp_buf s) = Some b1"
      "mem_write 28 ?d b1 = Some b2" "sctp_seal SCTP_MTU b2 = Some b3"
      "mem_read 0 SCTP_MTU b3 = Some (sealed h (data_body iube 1188 (tsn s) sqn ppid ?d))"
      "mem_write 13 [4] b3 = Some b4" "send_buf h sqn ppid 4 b4"
      using send_full_packet [OF "1.prems"(1) True d] by blast
    have "mem_read (pos + payload_max) (len - payload_max) msg = Some ?m"
      using m True by (simp add: mem_read_Some take_drop drop_drop add.commute)
    moreover have "send_buf h sqn ppid 4 (sctp_buf (s\<lparr>sctp_buf := b4, tsn := tsn s + 1\<rparr>))" using b(6) by simp
    ultimately obtain n p s1 s2 e1 e2 where
      ih: "sctp_send_full msg (len - payload_max) (pos + payload_max) (s\<lparr>sctp_buf := b4, tsn := tsn s + 1\<rparr>) = Some (n, p, s1, e1)"
        "sctp_send_last msg n p s1 = Some (s2, e2)" "e1 @ e2 = map DtlsWrite (fragments h sqn ppid 4 (tsn s + 1) ?m)"
        "n = (if len - payload_max \<le> payload_max then len - payload_max else (len - payload_max - 1) mod payload_max + 1)"
      using "1.IH" [OF True d b(1-5)] by fastforce
    have "sctp_send_full msg len pos s = Some (n, p, s1, DtlsWrite (sealed h (data_body iube 1188 (tsn s) sqn ppid ?d)) # e1)"
      using True d b(1-5) ih(1) by (subst sctp_send_full.simps) simp
    moreover have "n = (len - 1) mod payload_max + 1"
    proof (cases "len - payload_max \<le> payload_max")
      case le: True
      have "(len - 1) mod payload_max = (len - 1 - payload_max) mod payload_max" using True by (simp add: le_mod_geq)
      also have "\<dots> = len - 1 - payload_max" using le True by (intro mod_less) linarith
      finally show ?thesis using ih(4) le True by simp
    next
      case False
      then show ?thesis using ih(4) True le_mod_geq [of payload_max "len - 1"] by (simp add: diff_commute)
    qed
    moreover have "fragments h sqn ppid iube (tsn s) m =
        sealed h (data_body iube 1188 (tsn s) sqn ppid ?d) # fragments h sqn ppid 4 (tsn s + 1) ?m"
      using True m(1) by (subst fragments.simps) simp
    ultimately show ?thesis using ih(2,3) True by auto
  next
    case False
    then have f: "sctp_send_full msg len pos s = Some (len, pos, s, [])" by (subst sctp_send_full.simps) simp
    show ?thesis
    proof (cases "m = []")
      case True
      then show ?thesis using f m(1) False by (subst fragments.simps) (simp add: sctp_send_last_def)
    next
      case ne: False
      have "mem_read pos (length m) msg = Some m" using "1.prems"(2) m(1) by simp
      from send_last_packet [OF "1.prems"(1) _ _ this] ne False m(1) obtain s' where
        "sctp_send_last msg len pos s = Some (s', [DtlsWrite (sealed h
           (data_body (iube + 1) (length m + 16) (tsn s) sqn ppid (m @ replicate (chunk_pad (length m)) 0)))])" by auto
      then show ?thesis using f ne False m(1) by (subst fragments.simps) simp
    qed
  qed
qed

lemma drop_split: "drop k xs = take n (drop k xs) @ drop (n + k) xs"
  by (metis append_take_drop_id drop_drop)

lemma outgoing_data_fragments:
  assumes w: "wf_sctp s"
  shows "\<exists>n s'. sctp_outgoing_data sqn s m (length m) ppid sid =
    Some (int n, sqn + 1, s', map DtlsWrite (fragments (sctp_header s) sqn ppid 6 (tsn s) m)) \<and>
    n = (if length m \<le> payload_max then length m else (length m - 1) mod payload_max + 1)"
proof -
  let ?h = "sctp_header s" and ?Y = "be16 0 @ be16 sqn @ be32 ppid"
  have h: "length ?h = 8" by (rule length_sctp_header [OF w])
  have l: "length (sctp_buf s) = 1300" using wf_sctpD(1) [OF w] by (simp add: SCTP_BUF_def)
  let ?b = "sctp_buf s"
  let ?b1 = "?h @ drop 8 ?b"
  have 1: "mem_write 0 ?h ?b = Some ?b1" using h l by (simp add: mem_write_def)
  let ?x = "take 4 (drop 8 ?b)" and ?z = "take 6 (drop 14 ?b)" and ?r = "drop 28 ?b"
  have e1: "?b1 = ?h @ ?x @ take 2 (drop 12 ?b) @ ?z @ take 8 (drop 20 ?b) @ ?r"
    using drop_split [of 8 ?b 4] drop_split [of 12 ?b 2] drop_split [of 14 ?b 6] drop_split [of 20 ?b 8] by simp
  have 2: "mem_write 12 [chunk_type SCTP_DATA, 6] ?b1 = Some (?h @ ?x @ [0, 6] @ ?z @ take 8 (drop 20 ?b) @ ?r)"
    unfolding e1 using mem_write_cat [of "[0, 6]" "take 2 (drop 12 ?b)" "?h @ ?x" "?z @ take 8 (drop 20 ?b) @ ?r"] h l by simp
  have 3: "mem_write 20 ?Y (?h @ ?x @ [0, 6] @ ?z @ take 8 (drop 20 ?b) @ ?r) = Some (?h @ ?x @ [0, 6] @ ?z @ ?Y @ ?r)"
    using mem_write_cat [of ?Y "take 8 (drop 20 ?b)" "?h @ ?x @ [0, 6] @ ?z" ?r] h l by simp
  have sb: "send_buf ?h sqn ppid 6 (?h @ ?x @ [0, 6] @ ?z @ ?Y @ ?r)"
    unfolding send_buf_def using h l by (intro conjI exI [of _ ?x] exI [of _ ?z] exI [of _ ?r]) simp_all
  have rd: "mem_read 0 (length m) m = Some m" by (simp add: mem_read_def)
  show ?thesis
    using send_fragments [of ?h sqn ppid 6 "s\<lparr>sctp_buf := ?h @ ?x @ [0, 6] @ ?z @ ?Y @ ?r\<rparr>" 0 "length m" m m] sb rd 1 2 3
    by (auto simp: sctp_outgoing_data_def)
qed

section \<open>What the packets carry\<close>

definition packet_data :: "bytes \<Rightarrow> bytes" where
  "packet_data p = take (unat (of_be16 (drop 14 p)) - 16) (drop 28 p)"

definition packet_tsn :: "bytes \<Rightarrow> u32" where
  "packet_tsn p = of_be32 (drop 16 p)"

definition packet_flags :: "bytes \<Rightarrow> u8" where
  "packet_flags p = p ! 13"

lemma sealed_data_parts:
  assumes "length h = 8" and "l < 65536"
  shows "packet_data (sealed h (data_body i l t sqn ppid d)) = take (l - 16) d"
    "packet_tsn (sealed h (data_body i l t sqn ppid d)) = t" "packet_flags (sealed h (data_body i l t sqn ppid d)) = i"
proof -
  have u: "unat (of_nat l :: u16) = l" using assms(2) by (simp add: unat_of_nat)
  show "packet_data (sealed h (data_body i l t sqn ppid d)) = take (l - 16) d"
    "packet_tsn (sealed h (data_body i l t sqn ppid d)) = t" "packet_flags (sealed h (data_body i l t sqn ppid d)) = i"
    using assms(1) u
    by (simp_all add: packet_data_def packet_tsn_def packet_flags_def sealed_def data_body_def nth_append)
qed

lemma fragments_data: "length h = 8 \<Longrightarrow> concat (map packet_data (fragments h sqn ppid i t m)) = m"
proof (induction h sqn ppid i t m rule: fragments.induct)
  case (1 h sqn ppid i t m)
  then show ?case
    by (subst fragments.simps) (simp add: sealed_data_parts payload_max_value not_less)
qed

lemma fragments_length: "length (fragments h sqn ppid i t m) = (length m + 1171) div 1172"
proof (induction h sqn ppid i t m rule: fragments.induct)
  case (1 h sqn ppid i t m)
  show ?case
  proof (cases "payload_max < length m")
    case True
    then have "(length m + 1171) div 1172 = Suc ((length m - 1172 + 1171) div 1172)"
      by (simp add: payload_max_value)
    then show ?thesis using 1 True by (subst fragments.simps) (simp add: payload_max_value)
  next
    case False
    then have "m \<noteq> [] \<Longrightarrow> (length m + 1171) div 1172 = 1"
      by (intro div_nat_eqI) (simp_all add: payload_max_value not_less flip: length_greater_0_conv)
    then show ?thesis using False by (subst fragments.simps) simp
  qed
qed

lemma fragments_Cons:
  "payload_max < length m \<Longrightarrow> fragments h sqn ppid i t m =
     sealed h (data_body i 1188 t sqn ppid (take payload_max m)) # fragments h sqn ppid 4 (t + 1) (drop payload_max m)"
  by (subst fragments.simps) simp

lemma fragments_single:
  "length m \<le> payload_max \<Longrightarrow> m \<noteq> [] \<Longrightarrow> fragments h sqn ppid i t m =
     [sealed h (data_body (i + 1) (length m + 16) t sqn ppid (m @ replicate (chunk_pad (length m)) 0))]"
  by (subst fragments.simps) simp

lemma fragments_Nil: "fragments h sqn ppid i t [] = []"
  by (subst fragments.simps) simp

lemma numbers_from: "map (\<lambda>k. t + of_nat k) [0..<Suc n] = (t :: u32) # map (\<lambda>k. t + 1 + of_nat k) [0..<n]"
proof -
  have "[0..<Suc n] = 0 # map Suc [0..<n]" by (simp add: map_Suc_upt upt_conv_Cons del: upt_Suc)
  then show ?thesis by (simp add: add.assoc del: upt_Suc)
qed

lemma fragments_tsn:
  "length h = 8 \<Longrightarrow> map packet_tsn (fragments h sqn ppid i t m) =
     map (\<lambda>k. t + of_nat k) [0..<length (fragments h sqn ppid i t m)]"
proof (induction h sqn ppid i t m rule: fragments.induct)
  case (1 h sqn ppid i t m)
  show ?case
  proof (cases "payload_max < length m")
    case True
    then show ?thesis using 1
      by (simp add: fragments_Cons sealed_data_parts numbers_from del: upt_Suc)
  next
    case False
    then show ?thesis using 1(2)
      by (cases "m = []") (simp_all add: fragments_Nil fragments_single sealed_data_parts payload_max_value)
  qed
qed

text \<open>The B bit on the first, the E bit on the last, the U bit on all.\<close>

lemma fragments_flags_rest:
  "length h = 8 \<Longrightarrow> m \<noteq> [] \<Longrightarrow> map packet_flags (fragments h sqn ppid 4 t m) =
     replicate (length (fragments h sqn ppid 4 t m) - 1) 4 @ [5]"
proof (induction h sqn ppid "4 :: u8" t m rule: fragments.induct)
  case (1 h sqn ppid t m)
  show ?case
  proof (cases "payload_max < length m")
    case True
    let ?R = "fragments h sqn ppid 4 (t + 1) (drop payload_max m)"
    have ne: "drop payload_max m \<noteq> []" using True by simp
    have "?R \<noteq> []" using ne by (subst fragments.simps) simp
    then have "Suc (length ?R - 1) = length ?R" by simp
    then have "4 # replicate (length ?R - 1) (4 :: u8) = replicate (length ?R) 4" by (metis replicate_Suc)
    then show ?thesis using 1(1) [OF True 1(2) ne] 1(2) True
      by (simp add: fragments_Cons sealed_data_parts)
  next
    case False
    then show ?thesis using 1(2,3) by (simp add: fragments_single sealed_data_parts payload_max_value)
  qed
qed

lemma fragments_flags:
  assumes "length h = 8" and "m \<noteq> []"
  shows "map packet_flags (fragments h sqn ppid 6 t m) =
    (if length m \<le> 1172 then [7] else 6 # replicate ((length m + 1171) div 1172 - 2) 4 @ [5])"
proof (cases "payload_max < length m")
  case True
  then have "drop payload_max m \<noteq> []" by simp
  then show ?thesis
    using True assms fragments_flags_rest [of h "drop payload_max m" sqn ppid "t + 1"]
    by (simp add: fragments_Cons sealed_data_parts payload_max_value fragments_length)
next
  case False
  then show ?thesis using assms by (simp add: fragments_single sealed_data_parts payload_max_value)
qed

text \<open>What a receiver looks at besides: the checksum over the packet with a zero in its place, and the padding
  behind the chunk, which its length does not count.\<close>

definition packet_sum_ok :: "bytes \<Rightarrow> bool" where
  "packet_sum_ok p \<longleftrightarrow> take 4 (drop 8 p) = le32 (sctp_get_checksum (take 8 p @ replicate 4 0 @ drop 12 p))"

definition packet_padded :: "bytes \<Rightarrow> bool" where
  "packet_padded p \<longleftrightarrow> length p mod 4 = 0 \<and> length p \<le> SCTP_MTU \<and>
     (\<exists>k<4. drop (12 + unat (of_be16 (drop 14 p))) p = replicate k 0)"

lemma sealed_sum_ok: "length h = 8 \<Longrightarrow> packet_sum_ok (sealed h c)"
  by (simp add: packet_sum_ok_def sealed_def)

lemma fragments_data_fit: "length h = 8 \<Longrightarrow> p \<in> set (fragments h sqn ppid i t m) \<Longrightarrow> 28 + length (packet_data p) \<le> length p"
proof (induction h sqn ppid i t m rule: fragments.induct)
  case (1 h sqn ppid i t m)
  show ?case
  proof (cases "payload_max < length m")
    case True
    then show ?thesis using 1 by (auto simp: fragments_Cons sealed_data_parts payload_max_value)
  next
    case False
    then show ?thesis using 1(2,3)
      by (cases "m = []") (auto simp: fragments_Nil fragments_single sealed_data_parts payload_max_value)
  qed
qed

lemma sealed_padded:
  assumes "length h = 8" and "16 \<le> l" and "l < 65536" and "length d = l - 16 + k" and "drop (l - 16) d = replicate k 0"
    and "k < 4" and "(12 + l + k) mod 4 = 0" and "12 + l + k \<le> SCTP_MTU"
  shows "packet_padded (sealed h (data_body i l t sqn ppid d))"
proof -
  let ?p = "sealed h (data_body i l t sqn ppid d)"
  have n: "length ?p = 12 + l + k" using assms(1,2,4) by simp
  have u: "unat (of_be16 (drop 14 ?p)) = l"
    using assms(1,3) by (simp add: sealed_def data_body_def unat_of_nat)
  have "drop 28 ?p = d" using assms(1) by (simp add: sealed_def data_body_def)
  then have "drop (l - 16) (drop 28 ?p) = drop (l - 16) d" by simp
  moreover have "l - 16 + 28 = 12 + l" using assms(2) by simp
  ultimately have "drop (12 + l) ?p = drop (l - 16) d" by (simp only: drop_drop)
  then show ?thesis unfolding packet_padded_def n u using assms(5-8) by auto
qed

lemma fragments_wire:
  "length h = 8 \<Longrightarrow> p \<in> set (fragments h sqn ppid i t m) \<Longrightarrow> take 8 p = h \<and> packet_sum_ok p \<and> packet_padded p"
proof (induction h sqn ppid i t m rule: fragments.induct)
  case (1 h sqn ppid i t m)
  have t8: "take 8 (sealed h c) = h" for c using 1(2) by (simp add: sealed_def)
  show ?case
  proof (cases "payload_max < length m")
    case True
    have "packet_padded (sealed h (data_body i 1188 t sqn ppid (take payload_max m)))"
      using True by (intro sealed_padded [OF 1(2), where k = 0]) (simp_all add: payload_max_value sctp_sizes)
    then show ?thesis using 1 True t8 sealed_sum_ok [OF 1(2)] by (auto simp: fragments_Cons)
  next
    case False
    show ?thesis
    proof (cases "m = []")
      case ne: False
      let ?k = "chunk_pad (length m)"
      have l: "length m \<le> 1172" using False by (simp add: payload_max_value)
      have "(28 + length m + ?k) mod 4 = 0" unfolding chunk_pad_def by presburger
      moreover have "length m + ?k \<le> 1172" using l unfolding chunk_pad_def by presburger
      ultimately have "packet_padded (sealed h (data_body (i + 1) (length m + 16) t sqn ppid (m @ replicate ?k 0)))"
        using l chunk_pad_small [of "length m"]
        by (intro sealed_padded [OF 1(2), where k = ?k]) (simp_all add: sctp_sizes add.commute add.left_commute)
      then show ?thesis using 1(2,3) False ne t8 sealed_sum_ok [OF 1(2)] by (simp add: fragments_single)
    qed (use 1(3) in \<open>simp add: fragments_Nil\<close>)
  qed
qed

text \<open>C31: A message of any size leaves as packets the user data of which, put together, is the
  message: as many as its length divided by 1172, rounded up, with consecutive TSNs from the
  counter of the association, the B bit on the first only and the E bit on the last only. Each packet has
  the ports and the tag of the association and a valid checksum, is padded with zeros to a multiple of
  four bytes and fits the MTU.\<close>

theorem sctp_outgoing_fragments:
  assumes "wf_sctp s" and "m \<noteq> []"
  shows "\<exists>r s' ps. sctp_outgoing_data sqn s m (length m) ppid sid = Some (r, sqn + 1, s', map DtlsWrite ps) \<and>
    concat (map packet_data ps) = m \<and> length ps = (length m + 1171) div 1172 \<and>
    map packet_tsn ps = map (\<lambda>k. tsn s + of_nat k) [0..<length ps] \<and>
    map packet_flags ps = (if length m \<le> 1172 then [7] else 6 # replicate (length ps - 2) 4 @ [5]) \<and>
    (\<forall>p \<in> set ps. take 8 p = sctp_header s \<and> packet_sum_ok p \<and> packet_padded p)"
proof -
  have h: "length (sctp_header s) = 8" by (rule length_sctp_header [OF assms(1)])
  obtain n s' where o: "sctp_outgoing_data sqn s m (length m) ppid sid =
    Some (int n, sqn + 1, s', map DtlsWrite (fragments (sctp_header s) sqn ppid 6 (tsn s) m))"
    using outgoing_data_fragments [OF assms(1), of sqn m ppid sid] by blast
  show ?thesis
    by (intro exI conjI, rule o)
      (use fragments_data [OF h] fragments_length fragments_tsn [OF h] fragments_flags [OF h assms(2)] fragments_wire [OF h]
        in \<open>auto\<close>)
qed

lemma sctp_outgoing_fragments_witness:
  "\<exists>r s' ps. sctp_outgoing_data 0 sctp_zero (replicate 3000 7) 3000 51 2 = Some (r, 1, s', map DtlsWrite ps) \<and>
    concat (map packet_data ps) = replicate 3000 7 \<and> length ps = 3 \<and> map packet_flags ps = [6, 4, 5] \<and>
    (\<forall>p \<in> set ps. packet_sum_ok p \<and> packet_padded p)"
proof -
  have "replicate 3000 (7 :: u8) \<noteq> []" by simp
  from sctp_outgoing_fragments [OF wf_sctp_zero this, of 0 51 2, unfolded length_replicate] show ?thesis
    by (elim ex_forward conjE, intro conjI) simp_all
qed

section \<open>Receiving\<close>

definition sack_body :: "u32 \<Rightarrow> bytes" where
  "sack_body t = [3, 0] @ be16 16 @ be32 t @ be32 2"

text \<open>The acknowledgement of a TSN.\<close>

definition sack_packet :: "Sctp \<Rightarrow> u32 \<Rightarrow> bytes" where
  "sack_packet s t = sealed (sctp_header s) (sack_body t @ replicate 4 0)"

lemma data_body_reads:
  assumes h: "length h = 8" and b: "b = h @ replicate 4 0 @ data_body i l t sqn ppid d @ r"
  shows "mem_get 12 b = Some 0" "mem_read 14 2 b = Some (be16 (of_nat l))" "mem_read 16 4 b = Some (be32 t)"
    "mem_read 20 2 b = Some (be16 0)" "mem_read 24 4 b = Some (be32 ppid)" "drop 28 b = d @ r"
proof -
  let ?p = "h @ replicate 4 0"
  show "mem_get 12 b = Some 0" using mem_get_cat [of ?p 0] h by (simp add: b data_body_def)
  show "mem_read 14 2 b = Some (be16 (of_nat l))"
    using mem_read_cat [of "?p @ [0, i]" "be16 (of_nat l)"] h by (simp add: b data_body_def)
  show "mem_read 16 4 b = Some (be32 t)"
    using mem_read_cat [of "?p @ [0, i] @ be16 (of_nat l)" "be32 t"] h by (simp add: b data_body_def)
  show "mem_read 20 2 b = Some (be16 0)"
    using mem_read_cat [of "?p @ [0, i] @ be16 (of_nat l) @ be32 t" "be16 0"] h by (simp add: b data_body_def)
  show "mem_read 24 4 b = Some (be32 ppid)"
    using mem_read_cat [of "?p @ [0, i] @ be16 (of_nat l) @ be32 t @ be16 0 @ be16 sqn" "be32 ppid"] h
    by (simp add: b data_body_def)
  show "drop 28 b = d @ r" using h by (simp add: b data_body_def)
qed

lemma incoming_data_message:
  assumes w: "wf_sctp s" and h: "length h = 8" and cb: "has_onmessage s" and p: "ppid = 51 \<or> ppid = 53"
    and l: "16 \<le> l" "l < 65536" and n: "n = 28 + length d"
  shows "\<exists>s'. sctp_incoming_data n s (sealed h (data_body i l t sqn ppid d) @ r) n =
      Some (Done (s', [OnMessage (d @ r) (l - 16) 0,
        DtlsWrite (sack_packet s t)])) \<and> wf_sctp s' \<and> has_onmessage s' \<and> sctp_header s' = sctp_header s"
proof -
  let ?z = "replicate SCTP_BUF 0 :: bytes"
  let ?b = "h @ replicate 4 0 @ data_body i l t sqn ppid d @ r"
  let ?s = "s\<lparr>sctp_buf := ?z\<rparr>"
  let ?s1 = "s\<lparr>sctp_buf := replicate 12 0 @ sack_body t @ replicate (SCTP_BUF - 24) 0\<rparr>"
  let ?e = "[OnMessage (d @ r) (l - 16) 0]"
  note rd = data_body_reads [OF h refl, of i l t sqn ppid d r]
  have w1: "wf_sctp ?s1" using w by (simp add: wf_sctp_def SCTP_BUF_def sack_body_def)
  have 1: "mem_write 12 (sack_body t) ?z = Some (replicate 12 0 @ sack_body t @ replicate (SCTP_BUF - 24) 0)"
    using write_zero_buf [of "sack_body t"] by (simp add: SCTP_BUF_def sack_body_def)
  have u: "unat (of_nat l :: u16) = l" using l(2) by (simp add: unat_of_nat)
  have q: "ppid \<noteq> 50" using p by auto
  have "chunk_data ?s ?b 12 = Some (?s1, 28, ?e)"
    using rd 1 cb p q u l(1)
    by (simp add: chunk_data_def SCTP_HEADER_SIZE_def SCTP_DATA_CHUNK_SIZE_def size_minus_def sack_body_def)
  then have c: "sctp_chunk ?s ?b n 12 0 = Some (?s1, 28, n, ?e)" using rd(1) by (simp add: sctp_chunk_def)
  have "replicate (SCTP_BUF - 24) 0 = replicate 4 0 @ (replicate (SCTP_BUF - 28) 0 :: bytes)"
    by (simp add: SCTP_BUF_def flip: replicate_add)
  then have "sctp_buf ?s1 = replicate 12 0 @ (sack_body t @ replicate 4 0) @ replicate (SCTP_BUF - 28) 0" by simp
  moreover have "length (sack_body t @ replicate 4 0) = 16" by (simp add: sack_body_def)
  ultimately have rp: "sctp_reply ?s1 28 = Some (?s1\<lparr>sctp_buf := sealed (sctp_header ?s1) (sack_body t @ replicate 4 0) @ replicate (SCTP_BUF - 28) 0\<rparr>,
      12 + 16, [DtlsWrite (sealed (sctp_header ?s1) (sack_body t @ replicate 4 0))])"
    using sctp_reply_sealed [OF w1, of "replicate 12 0" "sack_body t @ replicate 4 0" "replicate (SCTP_BUF - 28) 0" 28] by simp
  have "sctp_incoming_data n s (sealed h (data_body i l t sqn ppid d) @ r) n = sctp_chunks n ?b n ?s 12 0"
    using incoming_sealed [OF h, of n "data_body i l t sqn ppid d"] n by simp
  also have "\<dots> = Some (Done (?s1\<lparr>sctp_buf := sealed (sctp_header ?s1) (sack_body t @ replicate 4 0) @ replicate (SCTP_BUF - 28) 0\<rparr>,
      ?e @ [DtlsWrite (sealed (sctp_header ?s1) (sack_body t @ replicate 4 0))]))"
    by (rule sctp_chunks_single [OF c rp rd(2)]) (use l n in simp_all)
  finally show ?thesis using w cb length_sctp_header [OF w1]
    by (simp add: wf_sctp_def sctp_header_def SCTP_BUF_def sack_body_def sack_packet_def)
qed

text \<open>The packets of a message, received one after the other into a buffer that goes on with \<open>r\<close>.\<close>

fun sctp_receive_all :: "Sctp \<Rightarrow> bytes list \<Rightarrow> bytes \<Rightarrow> (Sctp \<times> SctpEvent list) option" where
  "sctp_receive_all s [] r = Some (s, [])"
| "sctp_receive_all s (p # ps) r = do {
     x \<leftarrow> sctp_incoming_data (length p) s (p @ r) (length p);
     (case x of Running \<Rightarrow> None
      | Done (s, evs) \<Rightarrow> do { (s, evs') \<leftarrow> sctp_receive_all s ps r; Some (s, evs @ evs') })
   }"

text \<open>What the application gets for a packet, then the acknowledgement.\<close>

definition sctp_received :: "Sctp \<Rightarrow> bytes \<Rightarrow> bytes \<Rightarrow> SctpEvent list" where
  "sctp_received s r p = [OnMessage (drop 28 p @ r) (length (packet_data p)) 0, DtlsWrite (sack_packet s (packet_tsn p))]"

fun messages :: "SctpEvent list \<Rightarrow> bytes list" where
  "messages [] = []"
| "messages (OnMessage d n sid # es) = take n d # messages es"
| "messages (e # es) = messages es"

lemma messages_append [simp]: "messages (es @ fs) = messages es @ messages fs"
  by (induction es rule: messages.induct) simp_all

lemma received_parts:
  assumes "length h = 8" and "16 \<le> l" and "l < 65536" and "l - 16 \<le> length d"
  shows "sctp_received s r (sealed h (data_body i l t sqn ppid d)) = [OnMessage (d @ r) (l - 16) 0, DtlsWrite (sack_packet s t)]"
proof -
  have "drop 28 (sealed h (data_body i l t sqn ppid d)) = d" using assms(1) by (simp add: sealed_def data_body_def)
  then show ?thesis using sealed_data_parts [OF assms(1,3), of i t sqn ppid d] assms(4) by (simp add: sctp_received_def)
qed

lemma received_header: "sctp_header s' = sctp_header s \<Longrightarrow> sctp_received s' r = sctp_received s r"
  by (simp add: sctp_received_def sack_packet_def fun_eq_iff)

lemma receive_fragments:
  "length h = 8 \<Longrightarrow> ppid = 51 \<or> ppid = 53 \<Longrightarrow> wf_sctp s \<Longrightarrow> has_onmessage s \<Longrightarrow>
   \<exists>s'. sctp_receive_all s (fragments h sqn ppid i t m) r =
     Some (s', concat (map (sctp_received s r) (fragments h sqn ppid i t m)))"
proof (induction h sqn ppid i t m arbitrary: s rule: fragments.induct)
  case (1 h sqn ppid i t m)
  show ?case
  proof (cases "payload_max < length m")
    case True
    let ?d = "take payload_max m"
    have d: "length ?d = 1172" using True by (simp add: payload_max_value)
    have len: "length (sealed h (data_body i 1188 t sqn ppid ?d)) = 28 + length ?d" using 1(2) by simp
    from incoming_data_message [OF 1(4,2,5,3), of 1188 "28 + length ?d" ?d i t sqn r] obtain s1 where
      s1: "sctp_incoming_data (28 + length ?d) s (sealed h (data_body i 1188 t sqn ppid ?d) @ r) (28 + length ?d) =
         Some (Done (s1, [OnMessage (?d @ r) 1172 0, DtlsWrite (sack_packet s t)]))"
        "wf_sctp s1" "has_onmessage s1" "sctp_header s1 = sctp_header s" by auto
    from 1(1) [OF True 1(2,3) s1(2,3)] obtain s2 where
      s2: "sctp_receive_all s1 (fragments h sqn ppid 4 (t + 1) (drop payload_max m)) r =
        Some (s2, concat (map (sctp_received s r) (fragments h sqn ppid 4 (t + 1) (drop payload_max m))))"
      unfolding received_header [OF s1(4)] by blast
    have "sctp_received s r (sealed h (data_body i 1188 t sqn ppid ?d)) = [OnMessage (?d @ r) 1172 0, DtlsWrite (sack_packet s t)]"
      using received_parts [OF 1(2) _ _ eq_refl, of 1188 ?d s r i t sqn ppid] d by simp
    then show ?thesis using s1(1) s2 fragments_Cons [OF True] len by simp
  next
    case False
    show ?thesis
    proof (cases "m = []")
      case ne: False
      let ?d = "m @ replicate (chunk_pad (length m)) 0"
      have len: "length (sealed h (data_body (i + 1) (length m + 16) t sqn ppid ?d)) = 28 + length ?d" using 1(2) by simp
      have lm: "length m + 16 < 65536" using False by (simp add: payload_max_value)
      from incoming_data_message [OF 1(4,2,5,3) _ lm, of "28 + length ?d" ?d "i + 1" t sqn r] obtain s1 where
        s1: "sctp_incoming_data (28 + length ?d) s (sealed h (data_body (i + 1) (length m + 16) t sqn ppid ?d) @ r) (28 + length ?d) =
           Some (Done (s1, [OnMessage (?d @ r) (length m) 0, DtlsWrite (sack_packet s t)]))" by auto
      have "sctp_received s r (sealed h (data_body (i + 1) (length m + 16) t sqn ppid ?d)) =
          [OnMessage (?d @ r) (length m) 0, DtlsWrite (sack_packet s t)]"
        using received_parts [OF 1(2) _ lm, of ?d s r "i + 1" t sqn ppid] by simp
      then show ?thesis using s1 False ne len by (simp add: fragments_single)
    qed (simp add: fragments_Nil)
  qed
qed

lemma messages_received:
  "\<forall>p \<in> set ps. 28 + length (packet_data p) \<le> length p \<Longrightarrow> messages (concat (map (sctp_received s r) ps)) = map packet_data ps"
proof (induction ps)
  case (Cons p ps)
  have "take (length (packet_data p)) (drop 28 p @ r) = packet_data p"
    using Cons.prems by (auto simp: packet_data_def min_def)
  then show ?case using Cons by (simp add: sctp_received_def)
qed simp

text \<open>C7: What one side sends as a string or binary message arrives complete and is acknowledged: the other side's
  onmessage function is called once for each packet, in order, and the texts it gets are the
  message when put together; behind each call a SACK goes out that has the other side's ports and tag, a valid
  checksum and the TSN of that packet, and nothing else goes out. The TSNs are consecutive from the sender's counter.
  A message of more than 1172 bytes therefore arrives in pieces, and on stream 0 whatever stream it was sent on.\<close>

theorem sctp_message_delivery:
  assumes "wf_sctp a" and "wf_sctp b" and "has_onmessage b" and "ppid = 51 \<or> ppid = 53"
  shows "\<exists>n a' ps b' evs.
    sctp_outgoing_data sqn a m (length m) ppid sid = Some (n, sqn + 1, a', map DtlsWrite ps) \<and>
    sctp_receive_all b ps r = Some (b', evs) \<and> concat (messages evs) = m \<and>
    length (messages evs) = (length m + 1171) div 1172 \<and>
    map packet_tsn ps = map (\<lambda>k. tsn a + of_nat k) [0..<length ps] \<and> evs = concat (map (sctp_received b r) ps)"
proof -
  have h: "length (sctp_header a) = 8" by (rule length_sctp_header [OF assms(1)])
  let ?ps = "fragments (sctp_header a) sqn ppid 6 (tsn a) m"
  let ?evs = "concat (map (sctp_received b r) ?ps)"
  obtain n a' where o: "sctp_outgoing_data sqn a m (length m) ppid sid = Some (int n, sqn + 1, a', map DtlsWrite ?ps)"
    using outgoing_data_fragments [OF assms(1), of sqn m ppid sid] by blast
  obtain b' where i: "sctp_receive_all b ?ps r = Some (b', ?evs)"
    using receive_fragments [OF h assms(4,2,3), of sqn 6 "tsn a" m r] by blast
  have ms: "messages ?evs = map packet_data ?ps"
    by (rule messages_received) (use fragments_data_fit [OF h] in blast)
  have "concat (messages ?evs) = m" "length (messages ?evs) = (length m + 1171) div 1172"
    unfolding ms using fragments_data [OF h] fragments_length by simp_all
  then show ?thesis using o i fragments_tsn [OF h] by blast
qed

lemma sctp_message_delivery_witness:
  "\<exists>n a' ps b' evs. sctp_outgoing_data 5 sctp_zero (str ''hello'') 5 51 3 = Some (n, 6, a', map DtlsWrite ps) \<and>
    sctp_receive_all (sctp_onmessage sctp_zero True) ps (replicate 100 0) = Some (b', evs) \<and> concat (messages evs) = str ''hello'' \<and>
    evs = concat (map (sctp_received (sctp_onmessage sctp_zero True) (replicate 100 0)) ps) \<and> length (messages evs) = 1"
proof -
  have "wf_sctp (sctp_onmessage sctp_zero True)" using wf_sctp_zero by (simp add: wf_sctp_def sctp_onmessage_def)
  moreover have "has_onmessage (sctp_onmessage sctp_zero True)" by (simp add: sctp_onmessage_def)
  moreover have "length (str ''hello'') = 5" by (simp add: str_def)
  ultimately show ?thesis
    using sctp_message_delivery [OF wf_sctp_zero, of "sctp_onmessage sctp_zero True" 51 5 "str ''hello''" 3 "replicate 100 0"]
    unfolding \<open>length (str ''hello'') = 5\<close> by fastforce
qed

end
