(* ===== verification/Sctp_Usr.thy ===== *)
theory Sctp_Usr
  imports Sctp_Data
begin

text \<open>
  The other configuration of \<^verbatim>\<open>src/src/sctp.c\<close> (\<open>CONFIG_USE_USRSCTP\<close> 1, the default): the glue around the
  usrsctp library, with the data channel messages the file looks into itself, and the interface
  both configurations give the peer connection.

  \<^item> usrsctp is the parameter \<open>us\<close>, with a state \<open>'u\<close>. It calls back while it handles a packet or a
    connect; these calls are the list of \<open>Upcall\<close>s its functions return.
\<close>

section \<open>The library\<close>

datatype AssocState = SCTP_COMM_UP | SCTP_COMM_LOST | SCTP_RESTART | SCTP_SHUTDOWN_COMP | SCTP_CANT_STR_ASSOC

datatype Notification = AssocChange AssocState | OtherNotification

text \<open>A packet to send; a notification with the length in its header and the length received; user data
  with its payload protocol, as \<open>ntohl\<close> gives it, and stream.\<close>

datatype Upcall = Transmit bytes | Notify u32 Notification nat | Deliver bytes u32 u16

record 'u UsrSctp =
  us_sysctl_ecn_off :: "'u \<Rightarrow> 'u"
  us_register_address :: "'u \<Rightarrow> 'u"
  us_socket :: "'u \<Rightarrow> nat option \<times> 'u"
  us_set_non_blocking :: "nat \<Rightarrow> 'u \<Rightarrow> int \<times> 'u"
  us_setsockopt :: "nat \<Rightarrow> string \<Rightarrow> 'u \<Rightarrow> int \<times> 'u"
  us_bind :: "nat \<Rightarrow> u16 \<Rightarrow> 'u \<Rightarrow> int \<times> 'u"
  us_connect :: "nat \<Rightarrow> u16 \<Rightarrow> 'u \<Rightarrow> int \<times> bool \<times> Upcall list \<times> 'u"
  us_sendv :: "nat option \<Rightarrow> bytes \<Rightarrow> u16 \<Rightarrow> u32 \<Rightarrow> 'u \<Rightarrow> int \<times> Upcall list \<times> 'u"
  us_conninput :: "bytes \<Rightarrow> 'u \<Rightarrow> Upcall list \<times> 'u"
  us_shutdown :: "nat \<Rightarrow> 'u \<Rightarrow> 'u"
  us_close :: "nat \<Rightarrow> 'u \<Rightarrow> 'u"

section \<open>Callbacks\<close>

definition sctp_process_notification :: "Sctp \<Rightarrow> u32 \<Rightarrow> Notification \<Rightarrow> nat \<Rightarrow> Sctp \<times> SctpEvent list" where
  "sctp_process_notification s sn_length n len =
     (if sn_length \<noteq> of_nat len then (s, [])
      else case n of
        AssocChange SCTP_COMM_UP \<Rightarrow> (s\<lparr>connected := True\<rparr>, if has_onopen s then [OnOpen] else [])
      | AssocChange SCTP_COMM_LOST \<Rightarrow> sctp_closed s
      | AssocChange SCTP_SHUTDOWN_COMP \<Rightarrow> sctp_closed s
      | _ \<Rightarrow> (s, []))"

definition sctp_handle_incoming_data :: "Sctp \<Rightarrow> bytes \<Rightarrow> u32 \<Rightarrow> u16 \<Rightarrow> SctpEvent list" where
  "sctp_handle_incoming_data s data ppid sid =
     (if ppid \<in> {ppid_value DATA_CHANNEL_PPID_DOMSTRING, ppid_value DATA_CHANNEL_PPID_BINARY,
                ppid_value DATA_CHANNEL_PPID_DOMSTRING_PARTIAL, ppid_value DATA_CHANNEL_PPID_BINARY_PARTIAL}
        \<and> has_onmessage s
      then [OnMessage data (length data) sid] else [])"

definition sctp_outgoing_data_cb :: "bytes \<Rightarrow> int \<times> SctpEvent list" where
  "sctp_outgoing_data_cb buf = (0, [DtlsWrite buf])"

text \<open>\<open>sctp_incoming_data_cb\<close> and \<open>sctp_outgoing_data_cb\<close>, by what the library calls.\<close>

fun upcall :: "Upcall \<Rightarrow> Sctp \<Rightarrow> Sctp \<times> SctpEvent list" where
  "upcall (Transmit p) s = (s, snd (sctp_outgoing_data_cb p))"
| "upcall (Notify n e l) s = sctp_process_notification s n e l"
| "upcall (Deliver d ppid sid) s = (s, sctp_handle_incoming_data s d ppid sid)"

fun upcalls :: "Upcall list \<Rightarrow> Sctp \<Rightarrow> Sctp \<times> SctpEvent list" where
  "upcalls [] s = (s, [])"
| "upcalls (u # us) s = (let (s, e) = upcall u s; (s, e') = upcalls us s in (s, e @ e'))"

section \<open>Sending\<close>

definition usr_outgoing_data ::
  "'u UsrSctp \<Rightarrow> Sctp \<Rightarrow> bytes \<Rightarrow> nat \<Rightarrow> u32 \<Rightarrow> u16 \<Rightarrow> 'u \<Rightarrow> (int \<times> Sctp \<times> SctpEvent list \<times> 'u) option" where
  "usr_outgoing_data us s buf len ppid sid u = do {
     d \<leftarrow> mem_read 0 len buf;
     let (res, ups, u) = us_sendv us (sctp_sock s) d sid ppid u;
     let (s, evs) = upcalls ups s;
     Some (res, s, evs, u)
   }"

section \<open>Data channel messages\<close>

text \<open>\<open>data\<close> is the message and what follows it in the buffer, \<open>len\<close> the length of the message.\<close>

definition sctp_parse_data_channel_open ::
  "'u UsrSctp \<Rightarrow> Sctp \<Rightarrow> u16 \<Rightarrow> bytes \<Rightarrow> nat \<Rightarrow> 'u \<Rightarrow> (Sctp \<times> SctpEvent list \<times> 'u) option" where
  "sctp_parse_data_channel_open us s sid data len u =
     (if len < 12 then Some (s, [], u)
      else do {
        c \<leftarrow> mem_get 0 data;
        (if c = decp_value DATA_CHANNEL_OPEN then do {
           ll \<leftarrow> mem_read 8 2 data;
           pl \<leftarrow> mem_read 10 2 data;
           let label_length = unat (of_be16 ll);
           let protocol_length = unat (of_be16 pl);
           (if len < 12 + label_length + protocol_length then Some (s, [], u)
            else do {
              label \<leftarrow> mem_read 12 label_length data;
              l \<leftarrow> c_text (label @ [0]);
              let s = sctp_add_stream_mapping s l sid;
              (r, s, evs, u) \<leftarrow> usr_outgoing_data us s [decp_value DATA_CHANNEL_ACK] 1 (ppid_value DATA_CHANNEL_PPID_CONTROL) sid u;
              Some (s, evs, u)
            })
         }
         else Some (s, [], u))
      })"

text \<open>Only the first chunk of a packet is looked at, before usrsctp has checked the packet.\<close>

definition sctp_handle_sctp_packet ::
  "'u UsrSctp \<Rightarrow> Sctp \<Rightarrow> bytes \<Rightarrow> nat \<Rightarrow> 'u \<Rightarrow> (Sctp \<times> SctpEvent list \<times> 'u) option" where
  "sctp_handle_sctp_packet us s buf len u =
     (if len \<le> 29 then Some (s, [], u)
      else do {
        c \<leftarrow> mem_get 12 buf;
        (if c \<noteq> 0 then Some (s, [], u)
         else do {
           sid \<leftarrow> mem_read 20 2 buf;
           ppid \<leftarrow> mem_read 24 4 buf;
           (if of_be32 ppid = ppid_value DATA_CHANNEL_PPID_CONTROL
            then sctp_parse_data_channel_open us s (of_be16 sid) (drop 28 buf) (len - 28) u
            else Some (s, [], u))
         })
      })"

definition usr_incoming_data ::
  "'u UsrSctp \<Rightarrow> Sctp \<Rightarrow> bytes \<Rightarrow> nat \<Rightarrow> 'u \<Rightarrow> (Sctp \<times> SctpEvent list \<times> 'u) option" where
  "usr_incoming_data us s buf len u = do {
     (s, evs, u) \<leftarrow> sctp_handle_sctp_packet us s buf len u;
     d \<leftarrow> mem_read 0 len buf;
     let (ups, u) = us_conninput us d u;
     let (s, evs') = upcalls ups s;
     Some (s, evs @ evs', u)
   }"

section \<open>Associations\<close>

definition usr_destroy_association :: "'u UsrSctp \<Rightarrow> Sctp \<Rightarrow> 'u \<Rightarrow> Sctp \<times> 'u" where
  "usr_destroy_association us s u = (case sctp_sock s of
     None \<Rightarrow> (s, u)
   | Some k \<Rightarrow> let u = us_shutdown us k u; u = us_close us k u in (s\<lparr>sctp_sock := None\<rparr>, u))"

definition usr_options :: "string list" where
  "usr_options = [''SO_LINGER'', ''SO_REUSEADDR'', ''SCTP_ENABLE_STREAM_RESET'', ''SCTP_NODELAY''] @
     replicate 9 ''SCTP_EVENT'' @ [''SCTP_INITMSG'']"

text \<open>The \<^verbatim>\<open>do ... while (0)\<close>: \<open>ret\<close> at its end.\<close>

definition usr_setup :: "'u UsrSctp \<Rightarrow> Sctp \<Rightarrow> nat \<Rightarrow> 'u \<Rightarrow> int \<times> Sctp \<times> SctpEvent list \<times> 'u" where
  "usr_setup us s sock u =
     (let (r, u) = us_set_non_blocking us sock u in
      if r < 0 then (-1, s, [], u)
      else let u = fold (\<lambda>opt u. snd (us_setsockopt us sock opt u)) usr_options u;
               (ret, u) = us_bind us sock (of_int (local_port s)) u in
        if ret < 0 then (ret, s, [], u)
        else let (ret, inprogress, ups, u) = us_connect us sock (of_int (remote_port s)) u; (s, evs) = upcalls ups s in
          if ret < 0 \<and> \<not> inprogress then (ret, s, evs, u) else (0, s, evs, u))"

definition usr_create_association :: "'u UsrSctp \<Rightarrow> Sctp \<Rightarrow> 'u \<Rightarrow> int \<times> Sctp \<times> SctpEvent list \<times> 'u" where
  "usr_create_association us s u =
     (let s = s\<lparr>local_port := 5000, remote_port := 5000, tsn := 1234\<rparr>;
          u = us_sysctl_ecn_off us u; u = us_register_address us u; (k, u) = us_socket us u in
      case k of
        None \<Rightarrow> (-1, s, [], u)
      | Some sock \<Rightarrow>
          let (ret, s, evs, u) = usr_setup us s sock u in
          if ret < 0 then let (s, u) = usr_destroy_association us s u in (-1, s, evs, u)
          else (0, s\<lparr>sctp_sock := Some sock\<rparr>, evs, u))"

section \<open>One interface for both\<close>

text \<open>\<open>'u\<close> is the state outside the object: usrsctp's, or the static sequence number. A loop that does not
  end is \<^const>\<open>None\<close>; theory Sctp_Assoc says when that is.\<close>

record 'u SctpStack =
  st_create :: "Sctp \<Rightarrow> 'u \<Rightarrow> (int \<times> Sctp \<times> SctpEvent list \<times> 'u) option"
  st_destroy :: "Sctp \<Rightarrow> 'u \<Rightarrow> Sctp \<times> 'u"
  st_outgoing :: "Sctp \<Rightarrow> bytes \<Rightarrow> nat \<Rightarrow> u32 \<Rightarrow> u16 \<Rightarrow> 'u \<Rightarrow> (int \<times> Sctp \<times> SctpEvent list \<times> 'u) option"
  st_incoming :: "Sctp \<Rightarrow> bytes \<Rightarrow> nat \<Rightarrow> 'u \<Rightarrow> (Sctp \<times> SctpEvent list \<times> 'u) option"

definition usr_stack :: "'u UsrSctp \<Rightarrow> 'u SctpStack" where
  "usr_stack us = \<lparr>st_create = \<lambda>s u. Some (usr_create_association us s u), st_destroy = usr_destroy_association us,
     st_outgoing = usr_outgoing_data us, st_incoming = usr_incoming_data us\<rparr>"

fun run_value :: "'a run \<Rightarrow> 'a option" where
  "run_value Running = None"
| "run_value (Done x) = Some x"

definition builtin_stack :: "u16 SctpStack" where
  "builtin_stack = \<lparr>st_create = \<lambda>s q. do { (r, s, evs) \<leftarrow> sctp_create_association s; Some (r, s, evs, q) },
     st_destroy = \<lambda>s q. (s, q),
     st_outgoing = \<lambda>s buf len ppid sid q. do { (r, q, s, evs) \<leftarrow> sctp_outgoing_data q s buf len ppid sid; Some (r, s, evs, q) },
     st_incoming = \<lambda>s buf len q. do { x \<leftarrow> sctp_incoming_data len s buf len; (s, evs) \<leftarrow> run_value x; Some (s, evs, q) }\<rparr>"

text \<open>Any sequence of packets received.\<close>

fun receive_packets :: "'u SctpStack \<Rightarrow> Sctp \<Rightarrow> bytes list \<Rightarrow> 'u \<Rightarrow> (Sctp \<times> SctpEvent list \<times> 'u) option" where
  "receive_packets stack s [] u = Some (s, [], u)"
| "receive_packets stack s (p # ps) u = do {
     (s, evs, u) \<leftarrow> st_incoming stack s p (length p) u;
     (s, evs', u) \<leftarrow> receive_packets stack s ps u;
     Some (s, evs @ evs', u)
   }"

text \<open>What the peer connection relies on: every operation keeps the object well formed.\<close>

locale sctp_stack =
  fixes stack :: "'u SctpStack"
  assumes create_wf: "wf_sctp s \<Longrightarrow> st_create stack s u = Some (r, s', evs, u') \<Longrightarrow> wf_sctp s'"
    and destroy_wf: "wf_sctp s \<Longrightarrow> st_destroy stack s u = (s', u') \<Longrightarrow> wf_sctp s'"
    and outgoing_wf: "wf_sctp s \<Longrightarrow> st_outgoing stack s buf len ppid sid u = Some (r, s', evs, u') \<Longrightarrow> wf_sctp s'"
    and incoming_wf: "wf_sctp s \<Longrightarrow> st_incoming stack s buf len u = Some (s', evs, u') \<Longrightarrow> wf_sctp s'"
begin

lemma receive_packets_wf: "receive_packets stack s ps u = Some (s', evs, u') \<Longrightarrow> wf_sctp s \<Longrightarrow> wf_sctp s'"
proof (induction ps arbitrary: s u evs)
  case (Cons p ps)
  then show ?case by (auto simp: Option.bind_eq_Some_conv dest: incoming_wf)
qed simp

end

section \<open>The laws of the interface\<close>

lemma wf_sock: "wf_sctp (s\<lparr>sctp_sock := k\<rparr>) = wf_sctp s"
  by (simp add: wf_sctp_def)

lemma wf_upcall: "wf_sctp s \<Longrightarrow> wf_sctp (fst (upcall x s))"
  by (cases x)
    (auto simp: sctp_process_notification_def sctp_closed_def wf_sctp_buf split: Notification.splits AssocState.splits)

lemma wf_upcalls: "wf_sctp s \<Longrightarrow> wf_sctp (fst (upcalls xs s))"
proof (induction xs arbitrary: s)
  case (Cons x xs)
  then show ?case using wf_upcall [OF Cons.prems, of x] by (simp add: Let_def split_def)
qed simp

lemma wf_usr_outgoing: "usr_outgoing_data us s buf len ppid sid u = Some (r, s', evs, u') \<Longrightarrow> wf_sctp s \<Longrightarrow> wf_sctp s'"
  using wf_upcalls [of s]
  by (auto simp: usr_outgoing_data_def Option.bind_eq_Some_conv Let_def split_def)

lemma wf_parse_open: "sctp_parse_data_channel_open us s sid data len u = Some (s', evs, u') \<Longrightarrow> wf_sctp s \<Longrightarrow> wf_sctp s'"
  by (auto simp: sctp_parse_data_channel_open_def Option.bind_eq_Some_conv Let_def split: if_splits
      dest!: wf_usr_outgoing intro: wf_add_stream_mapping)

lemma wf_handle_packet: "sctp_handle_sctp_packet us s buf len u = Some (s', evs, u') \<Longrightarrow> wf_sctp s \<Longrightarrow> wf_sctp s'"
  by (auto simp: sctp_handle_sctp_packet_def Option.bind_eq_Some_conv split: if_splits dest: wf_parse_open)

lemma wf_usr_incoming: "usr_incoming_data us s buf len u = Some (s', evs, u') \<Longrightarrow> wf_sctp s \<Longrightarrow> wf_sctp s'"
  using wf_upcalls wf_handle_packet
  by (fastforce simp: usr_incoming_data_def Option.bind_eq_Some_conv Let_def split_def)

lemma wf_usr_destroy: "wf_sctp s \<Longrightarrow> wf_sctp (fst (usr_destroy_association us s u))"
  by (auto simp: usr_destroy_association_def Let_def wf_sock split: option.splits)

lemma wf_usr_setup: "wf_sctp s \<Longrightarrow> wf_sctp (fst (snd (usr_setup us s k u)))"
  using wf_upcalls [of s] by (auto simp: usr_setup_def Let_def split_def)

lemma wf_usr_create: "wf_sctp s \<Longrightarrow> wf_sctp (fst (snd (usr_create_association us s u)))"
proof -
  assume w: "wf_sctp s"
  let ?s = "s\<lparr>local_port := 5000, remote_port := 5000, tsn := 1234\<rparr>"
  have w1: "wf_sctp ?s" using w by (rule wf_sctp_buf(5))
  show ?thesis
    using wf_usr_setup [OF w1, of us] wf_usr_destroy [OF wf_usr_setup [OF w1, of us], of us] w1
    by (auto simp: usr_create_association_def Let_def split_def wf_sock split: option.splits)
qed

interpretation usr: sctp_stack "usr_stack us"
proof
  fix s s' :: Sctp and u u' r evs buf len ppid sid
  assume w: "wf_sctp s"
  show "st_create (usr_stack us) s u = Some (r, s', evs, u') \<Longrightarrow> wf_sctp s'"
    using wf_usr_create [OF w, of us u] by (simp add: usr_stack_def)
  show "st_destroy (usr_stack us) s u = (s', u') \<Longrightarrow> wf_sctp s'"
    using wf_usr_destroy [OF w, of us u] by (simp add: usr_stack_def)
  show "st_outgoing (usr_stack us) s buf len ppid sid u = Some (r, s', evs, u') \<Longrightarrow> wf_sctp s'"
    using wf_usr_outgoing w by (fastforce simp: usr_stack_def)
  show "st_incoming (usr_stack us) s buf len u = Some (s', evs, u') \<Longrightarrow> wf_sctp s'"
    using wf_usr_incoming w by (fastforce simp: usr_stack_def)
qed

lemma run_value_Some: "run_value r = Some x \<longleftrightarrow> r = Done x"
  by (cases r) simp_all

interpretation builtin: sctp_stack builtin_stack
proof
  fix s s' :: Sctp and u u' :: u16 and r evs buf len ppid sid
  assume w: "wf_sctp s"
  show "st_create builtin_stack s u = Some (r, s', evs, u') \<Longrightarrow> wf_sctp s'"
    using wf_create_association w by (auto simp: builtin_stack_def Option.bind_eq_Some_conv)
  show "st_destroy builtin_stack s u = (s', u') \<Longrightarrow> wf_sctp s'"
    using w by (simp add: builtin_stack_def)
  show "st_outgoing builtin_stack s buf len ppid sid u = Some (r, s', evs, u') \<Longrightarrow> wf_sctp s'"
    using wf_outgoing_data w by (auto simp: builtin_stack_def Option.bind_eq_Some_conv)
  show "st_incoming builtin_stack s buf len u = Some (s', evs, u') \<Longrightarrow> wf_sctp s'"
    using wf_incoming_data w by (auto simp: builtin_stack_def Option.bind_eq_Some_conv run_value_Some)
qed

text \<open>Whatever arrives, from the peer or from usrsctp, the object stays well formed.\<close>

lemma received_packets_wf:
  "receive_packets (usr_stack us) s ps u = Some (s', evs, u') \<Longrightarrow> wf_sctp s \<Longrightarrow> wf_sctp s'"
  "receive_packets builtin_stack s ps q = Some (s', evs', q') \<Longrightarrow> wf_sctp s \<Longrightarrow> wf_sctp s'"
  by (fact usr.receive_packets_wf) (fact builtin.receive_packets_wf)

section \<open>Failed associations\<close>

text \<open>If a step after the socket was made fails, the object has no socket to shut down yet: the new one
  stays open.\<close>

lemma usr_create_leaks_socket:
  assumes "us_socket us (us_register_address us (us_sysctl_ecn_off us u)) = (Some k, u1)"
    and "us_set_non_blocking us k u1 = (r, u2)" and "r < 0" and "sctp_sock s = None"
  shows "usr_create_association us s u = (-1, s\<lparr>local_port := 5000, remote_port := 5000, tsn := 1234\<rparr>, [], u2)"
  using assms by (simp add: usr_create_association_def usr_setup_def usr_destroy_association_def)

end
