(* ===== verification/Sdp.thy ===== *)
theory Sdp
  imports C_Text
begin

text \<open>
  Session descriptions (\<^verbatim>\<open>src/src/sdp.c\<close>). The description is an array of bytes that holds a
  C string; \<open>sdp_append\<close> is the only operation that writes to it, so every other operation is a
  list of lines. The format arguments are applied by the caller: \<open>sdp_append\<close> gets the formatted text.
\<close>

section \<open>The buffer\<close>

definition CONFIG_SDP_BUFFER_SIZE :: nat where "CONFIG_SDP_BUFFER_SIZE = 8096"

definition sdp_append :: "bytes \<Rightarrow> bytes \<Rightarrow> (int \<times> bytes) option" where
  "sdp_append sdp text = do {
     n \<leftarrow> c_strlen sdp;
     let size = CONFIG_SDP_BUFFER_SIZE - n;
     sdp \<leftarrow> (if size = 0 then Some sdp else mem_write n (snprintf_text size text @ [0]) sdp);
     n \<leftarrow> c_strlen sdp;
     c_assert (0 < n);
     c \<leftarrow> mem_get (n - 1) sdp;
     sdp \<leftarrow> (if c \<noteq> 10 then mem_write n [13, 10, 0] sdp else Some sdp);
     Some (0, sdp)
   }"

definition sdp_reset :: "bytes \<Rightarrow> bytes option" where
  "sdp_reset sdp = mem_write 0 (replicate CONFIG_SDP_BUFFER_SIZE 0) sdp"

fun sdp_append_all :: "bytes list \<Rightarrow> bytes \<Rightarrow> bytes option" where
  "sdp_append_all [] sdp = Some sdp"
| "sdp_append_all (l # ls) sdp = do { (r, sdp) \<leftarrow> sdp_append sdp l; sdp_append_all ls sdp }"

section \<open>Media sections\<close>

definition h264_lines :: "bytes list" where
  "h264_lines =
     [str ''m=video 9 UDP/TLS/RTP/SAVPF 96'', str ''c=IN IP4 0.0.0.0'', str ''a=rtcp-fb:96 nack'',
      str ''a=rtcp-fb:96 nack pli'', str ''a=fmtp:96 profile-level-id=42e01f;level-asymmetry-allowed=1'',
      str ''a=rtpmap:96 H264/90000'', str ''a=ssrc:1 cname:webrtc-h264'', str ''a=sendrecv'',
      str ''a=mid:video'', str ''a=rtcp-mux'']"

definition sdp_append_h264 :: "bytes \<Rightarrow> bytes option" where
  "sdp_append_h264 = sdp_append_all h264_lines"

definition av1_lines :: "bytes list" where
  "av1_lines =
     [str ''m=video 9 UDP/TLS/RTP/SAVPF 45'', str ''c=IN IP4 0.0.0.0'', str ''a=rtcp-fb:45 nack'',
      str ''a=rtcp-fb:45 nack pli'', str ''a=rtcp-fb:45 ccm fir'', str ''a=fmtp:45 profile=0;level-idx=8;tier=0'',
      str ''a=rtpmap:45 AV1/90000'', str ''a=ssrc:2 cname:webrtc-av1'', str ''a=sendrecv'',
      str ''a=mid:video'', str ''a=rtcp-mux'']"

definition sdp_append_av1 :: "bytes \<Rightarrow> bytes option" where
  "sdp_append_av1 = sdp_append_all av1_lines"

definition pcma_lines :: "bytes list" where
  "pcma_lines =
     [str ''m=audio 9 UDP/TLS/RTP/SAVP 8'', str ''c=IN IP4 0.0.0.0'', str ''a=rtpmap:8 PCMA/8000'',
      str ''a=ssrc:4 cname:webrtc-pcma'', str ''a=sendrecv'', str ''a=mid:audio'', str ''a=rtcp-mux'']"

definition sdp_append_pcma :: "bytes \<Rightarrow> bytes option" where
  "sdp_append_pcma = sdp_append_all pcma_lines"

definition pcmu_lines :: "bytes list" where
  "pcmu_lines =
     [str ''m=audio 9 UDP/TLS/RTP/SAVP 0'', str ''c=IN IP4 0.0.0.0'', str ''a=rtpmap:0 PCMU/8000'',
      str ''a=ssrc:5 cname:webrtc-pcmu'', str ''a=sendrecv'', str ''a=mid:audio'', str ''a=rtcp-mux'']"

definition sdp_append_pcmu :: "bytes \<Rightarrow> bytes option" where
  "sdp_append_pcmu = sdp_append_all pcmu_lines"

definition opus_lines :: "bytes list" where
  "opus_lines =
     [str ''m=audio 9 UDP/TLS/RTP/SAVP 111'', str ''c=IN IP4 0.0.0.0'', str ''a=rtpmap:111 opus/48000/2'',
      str ''a=ssrc:6 cname:webrtc-opus'', str ''a=sendrecv'', str ''a=mid:audio'', str ''a=rtcp-mux'']"

definition sdp_append_opus :: "bytes \<Rightarrow> bytes option" where
  "sdp_append_opus = sdp_append_all opus_lines"

definition datachannel_lines :: "bytes list" where
  "datachannel_lines =
     [str ''m=application 50712 UDP/DTLS/SCTP webrtc-datachannel'', str ''c=IN IP4 0.0.0.0'',
      str ''a=mid:datachannel'', str ''a=sctp-port:5000'', str ''a=max-message-size:262144'']"

definition sdp_append_datachannel :: "bytes \<Rightarrow> bytes option" where
  "sdp_append_datachannel = sdp_append_all datachannel_lines"

text \<open>\<open>strcat\<close> into the 64 bytes of \<open>bundle\<close>.\<close>

definition bundle_cat :: "bytes \<Rightarrow> bytes \<Rightarrow> bytes option" where
  "bundle_cat bundle t = do { n \<leftarrow> c_strlen bundle; mem_write n (t @ [0]) bundle }"

definition sdp_bundle :: "bool \<Rightarrow> bool \<Rightarrow> bool \<Rightarrow> bytes option" where
  "sdp_bundle b_video b_audio b_datachannel = do {
     let bundle = replicate 64 0;
     bundle \<leftarrow> bundle_cat bundle (str ''a=group:BUNDLE'');
     bundle \<leftarrow> (if b_video then bundle_cat bundle (str '' video'') else Some bundle);
     bundle \<leftarrow> (if b_audio then bundle_cat bundle (str '' audio'') else Some bundle);
     (if b_datachannel then bundle_cat bundle (str '' datachannel'') else Some bundle)
   }"

definition session_lines :: "bytes list" where
  "session_lines =
     [str ''v=0'', str ''o=- 1495799811084970 1495799811084970 IN IP4 0.0.0.0'', str ''s=-'',
      str ''t=0 0'', str ''a=msid-semantic: iot'']"

definition sdp_create :: "bytes \<Rightarrow> bool \<Rightarrow> bool \<Rightarrow> bool \<Rightarrow> bytes option" where
  "sdp_create sdp b_video b_audio b_datachannel = do {
     sdp \<leftarrow> sdp_append_all session_lines sdp;
     bundle \<leftarrow> sdp_bundle b_video b_audio b_datachannel;
     t \<leftarrow> c_text bundle;
     (r, sdp) \<leftarrow> sdp_append sdp t;
     Some sdp
   }"

section \<open>The text of the buffer\<close>

text \<open>\<open>holds sdp t\<close>: the array has its full size and its string is \<open>t\<close>.\<close>

definition holds :: "bytes \<Rightarrow> bytes \<Rightarrow> bool" where
  "holds sdp t \<longleftrightarrow> length sdp = CONFIG_SDP_BUFFER_SIZE \<and> no_nul t \<and> (\<exists>r. sdp = t @ 0 # r)"

definition line_text :: "bytes \<Rightarrow> bytes \<Rightarrow> bytes" where
  "line_text t l = (if last (t @ l) = 10 then t @ l else t @ l @ [13, 10])"

fun lines_text :: "bytes list \<Rightarrow> bytes" where
  "lines_text [] = []"
| "lines_text (l # ls) = l @ [13, 10] @ lines_text ls"

lemma holds_text: "holds sdp t \<Longrightarrow> c_text sdp = Some t"
  by (auto simp: holds_def c_text_terminated)

lemma holds_strlen: "holds sdp t \<Longrightarrow> c_strlen sdp = Some (length t)"
  by (auto simp: holds_def c_strlen_terminated)

lemma holds_write:
  assumes "holds sdp t" and "no_nul s" and "length t + length s < CONFIG_SDP_BUFFER_SIZE"
  obtains sdp' where "mem_write (length t) (s @ [0]) sdp = Some sdp'" "holds sdp' (t @ s)"
proof -
  obtain r where r: "sdp = t @ 0 # r" using assms(1) by (auto simp: holds_def)
  have "length t + length (s @ [0]) \<le> length sdp" using assms(1,3) by (simp add: holds_def)
  then have "mem_write (length t) (s @ [0]) sdp = Some (t @ s @ 0 # drop (length s) r)"
    using r by (simp add: mem_write_def)
  moreover have "holds (t @ s @ 0 # drop (length s) r) (t @ s)"
    using assms r by (auto simp: holds_def no_nul_def)
  ultimately show ?thesis using that by blast
qed

lemma holds_last: "holds sdp t \<Longrightarrow> t \<noteq> [] \<Longrightarrow> mem_get (length t - 1) sdp = Some (last t)"
  by (auto simp: holds_def mem_get_def nth_append last_conv_nth)

text \<open>Appending a line keeps the string and adds the line with its end, if there is room for both.\<close>

lemma sdp_append_holds:
  assumes h: "holds sdp t" and n: "no_nul l" and ne: "t @ l \<noteq> []"
    and fits: "length t + length l + 2 < CONFIG_SDP_BUFFER_SIZE"
  obtains sdp' where "sdp_append sdp l = Some (0, sdp')" "holds sdp' (line_text t l)"
proof -
  have sz: "CONFIG_SDP_BUFFER_SIZE - length t \<noteq> 0" "snprintf_text (CONFIG_SDP_BUFFER_SIZE - length t) l = l"
    using fits by (simp_all add: snprintf_text_def)
  have f1: "length t + length l < CONFIG_SDP_BUFFER_SIZE" using fits by simp
  obtain s1 where s1: "mem_write (length t) (l @ [0]) sdp = Some s1" "holds s1 (t @ l)"
    using holds_write [OF h n f1] by blast
  have l1: "c_strlen s1 = Some (length (t @ l))" by (rule holds_strlen [OF s1(2)])
  have g: "mem_get (length (t @ l) - 1) s1 = Some (last (t @ l))"
    using s1(2) ne by (rule holds_last)
  have f2: "length (t @ l) + length [13, 10 :: u8] < CONFIG_SDP_BUFFER_SIZE" using fits by simp
  have n2: "no_nul [13, 10]" by (simp add: no_nul_def)
  obtain s2 where s2: "mem_write (length (t @ l)) ([13, 10] @ [0]) s1 = Some s2" "holds s2 ((t @ l) @ [13, 10])"
    using holds_write [OF s1(2) n2 f2] by blast
  have "sdp_append sdp l = Some (0, if last (t @ l) = 10 then s1 else s2)"
    using holds_strlen [OF h] sz s1(1) l1 g s2(1) ne by (simp add: sdp_append_def)
  then show ?thesis using that s1(2) s2(2) by (auto simp: line_text_def)
qed

text \<open>Lines proper: not empty, no NUL, no line feed.\<close>

definition proper_line :: "bytes \<Rightarrow> bool" where
  "proper_line l \<longleftrightarrow> l \<noteq> [] \<and> 0 \<notin> set l \<and> 10 \<notin> set l"

lemma line_text_proper: "proper_line l \<Longrightarrow> line_text t l = t @ lines_text [l]"
  by (auto simp: line_text_def proper_line_def) (metis last_in_set)

lemma lines_text_append [simp]: "lines_text (ls @ ms) = lines_text ls @ lines_text ms"
  by (induction ls) auto

lemma length_lines_text: "length (lines_text ls) = sum_list (map length ls) + 2 * length ls"
  by (induction ls) auto

lemma sdp_append_all_holds:
  assumes "holds sdp t" and "\<forall>l \<in> set ls. proper_line l"
    and "length t + length (lines_text ls) < CONFIG_SDP_BUFFER_SIZE"
  shows "\<exists>sdp'. sdp_append_all ls sdp = Some sdp' \<and> holds sdp' (t @ lines_text ls)"
  using assms
proof (induction ls arbitrary: sdp t)
  case (Cons l ls)
  have p: "proper_line l" and n: "no_nul l" and ne: "t @ l \<noteq> []"
    using Cons.prems(2) by (auto simp: proper_line_def no_nul_def)
  have "length t + length l + 2 < CONFIG_SDP_BUFFER_SIZE" using Cons.prems(3) by simp
  from sdp_append_holds [OF Cons.prems(1) n ne this] obtain s where
    s: "sdp_append sdp l = Some (0, s)" "holds s (line_text t l)" by blast
  have "holds s (t @ lines_text [l])" using s(2) line_text_proper [OF p] by simp
  from Cons.IH [OF this] Cons.prems(2,3) s(1) show ?case by simp
qed simp

lemma sdp_append_all_append:
  "sdp_append_all (ls @ ms) sdp = do { sdp \<leftarrow> sdp_append_all ls sdp; sdp_append_all ms sdp }"
  by (induction ls arbitrary: sdp) (auto split: bind_splits)

lemma holds_reset: "length sdp = CONFIG_SDP_BUFFER_SIZE \<Longrightarrow> \<exists>s. sdp_reset sdp = Some s \<and> holds s []"
  by (simp add: sdp_reset_def mem_write_def holds_def CONFIG_SDP_BUFFER_SIZE_def no_nul_def)
    (metis One_nat_def replicate_Suc Suc_eq_plus1 numeral_eq_Suc)

text \<open>What \<open>sdp_create\<close> and the media sections write.\<close>

definition bundle_line :: "bool \<Rightarrow> bool \<Rightarrow> bool \<Rightarrow> bytes" where
  "bundle_line v a d = str ''a=group:BUNDLE'' @ (if v then str '' video'' else []) @
     (if a then str '' audio'' else []) @ (if d then str '' datachannel'' else [])"

lemma sdp_bundle_text: "Option.bind (sdp_bundle v a d) c_text = Some (bundle_line v a d)"
  by (induct v; induct a; induct d; code_simp)

lemma proper_media_lines:
  "list_all proper_line h264_lines" "list_all proper_line av1_lines" "list_all proper_line pcma_lines"
  "list_all proper_line pcmu_lines" "list_all proper_line opus_lines" "list_all proper_line datachannel_lines"
  "list_all proper_line session_lines"
  by code_simp+

lemma proper_bundle_line: "proper_line (bundle_line v a d)"
  by (induct v; induct a; induct d; code_simp)

lemma media_lines_length:
  "length (lines_text h264_lines) \<le> 300" "length (lines_text av1_lines) \<le> 300" "length (lines_text pcma_lines) \<le> 300"
  "length (lines_text pcmu_lines) \<le> 300" "length (lines_text opus_lines) \<le> 300"
  "length (lines_text datachannel_lines) \<le> 300" "length (lines_text session_lines) \<le> 300"
  by code_simp+

lemma length_bundle_line: "length (bundle_line v a d) \<le> 38"
  by (induct v; induct a; induct d; code_simp)

lemma sdp_create_holds:
  assumes "holds sdp []"
  shows "\<exists>s. sdp_create sdp v a d = Some s \<and> holds s (lines_text (session_lines @ [bundle_line v a d]))"
proof -
  have p: "\<forall>l \<in> set (session_lines @ [bundle_line v a d]). proper_line l"
    using proper_media_lines(7) proper_bundle_line by (auto simp: list_all_iff)
  have "length ([] :: bytes) + length (lines_text (session_lines @ [bundle_line v a d])) < CONFIG_SDP_BUFFER_SIZE"
    using media_lines_length(7) length_bundle_line [of v a d] by (simp add: CONFIG_SDP_BUFFER_SIZE_def)
  from sdp_append_all_holds [OF assms p this] obtain s where
    s: "sdp_append_all (session_lines @ [bundle_line v a d]) sdp = Some s"
      "holds s (lines_text (session_lines @ [bundle_line v a d]))" by auto
  obtain b where b: "sdp_bundle v a d = Some b" "c_text b = Some (bundle_line v a d)"
    using sdp_bundle_text [of v a d] by (auto simp: Option.bind_eq_Some_conv)
  obtain x r where "sdp_append_all session_lines sdp = Some x" "sdp_append x (bundle_line v a d) = Some (r, s)"
    using s(1) by (auto simp: sdp_append_all_append Option.bind_eq_Some_conv)
  then have "sdp_create sdp v a d = Some s" using b by (simp add: sdp_create_def)
  then show ?thesis using s(2) by blast
qed

text \<open>At the end of the array the line end is written past it.\<close>

lemma sdp_append_overruns:
  assumes "holds sdp t" and "no_nul l" and "10 \<notin> set l" and "l \<noteq> []"
    and "CONFIG_SDP_BUFFER_SIZE \<le> length t + length l + 2" and "length t + 1 < CONFIG_SDP_BUFFER_SIZE"
  shows "sdp_append sdp l = None"
proof -
  let ?size = "CONFIG_SDP_BUFFER_SIZE - length t"
  let ?l = "snprintf_text ?size l"
  have ne: "?l \<noteq> []" and sub: "set ?l \<subseteq> set l" and len: "CONFIG_SDP_BUFFER_SIZE \<le> length t + length ?l + 2"
    and f: "length t + length ?l < CONFIG_SDP_BUFFER_SIZE" and sz: "?size \<noteq> 0"
    using assms(4-6) by (auto simp: snprintf_text_def dest: in_set_takeD)
  have "no_nul ?l" using assms(2) sub by (auto simp: no_nul_def)
  then obtain s1 where s1: "mem_write (length t) (?l @ [0]) sdp = Some s1" "holds s1 (t @ ?l)"
    using holds_write [OF assms(1) _ f] by blast
  have "last (t @ ?l) \<noteq> 10" using ne sub assms(3) last_in_set by fastforce
  moreover have "mem_write (length (t @ ?l)) [13, 10, 0] s1 = None"
    using s1(2) len by (simp add: mem_write_def holds_def)
  ultimately show ?thesis
    using holds_strlen [OF assms(1)] s1(1) holds_strlen [OF s1(2)] holds_last [OF s1(2)] ne sz
    by (simp add: sdp_append_def)
qed

end
