(* ===== verification/Peer_Connection.thy ===== *)
theory Peer_Connection
  imports Rtp_Codec Rtcp Agent Dtls_Srtp Sctp_Usr Sdp
begin

text \<open>
  The peer connection (\<^verbatim>\<open>src/src/peer_connection.c\<close>): the object that owns an agent, a DTLS-SRTP object, an
  SCTP association and the encoders and decoders, and the loop that drives them.

  \<^item> Everything outside the program is the environment \<open>env\<close>: the system calls, the hash functions and
    text conversions of the agent, mbedTLS and libsrtp, the SCTP stack of the chosen configuration.
  \<^item> What the object does not own is the record \<open>PeerWorld\<close>: the state of the system, of the SCTP stack, the
    static objects of the decoders, and the calls of the application's functions so far, in order.
    These functions do not call back into the connection.
  \<^item> \<open>peer_cb\<close> says how encrypting an outgoing packet in place leaves the payload area of its encoder.
\<close>

section \<open>Types\<close>

datatype SdpType = SDP_TYPE_OFFER | SDP_TYPE_ANSWER

datatype PeerConnectionState = PEER_CONNECTION_CLOSED | PEER_CONNECTION_NEW | PEER_CONNECTION_CHECKING
  | PEER_CONNECTION_CONNECTED | PEER_CONNECTION_COMPLETED | PEER_CONNECTION_FAILED | PEER_CONNECTION_DISCONNECTED

datatype DataChannelType = DATA_CHANNEL_NONE | DATA_CHANNEL_STRING | DATA_CHANNEL_BINARY

definition CONFIG_TLS_READ_TIMEOUT :: nat where "CONFIG_TLS_READ_TIMEOUT = 3000"
definition CONFIG_KEEPALIVE_TIMEOUT :: u64 where "CONFIG_KEEPALIVE_TIMEOUT = 10000"
definition CONFIG_CONSENT_INTERVAL :: u64 where "CONFIG_CONSENT_INTERVAL = 3000"

text \<open>A server without \<open>urls\<close> is \<^const>\<open>None\<close>.\<close>

type_synonym IceServer = "(bytes \<times> bytes \<times> bytes) option"

record PeerConfiguration =
  ice_servers :: "IceServer list"
  audio_codec :: MediaCodec
  video_codec :: MediaCodec
  datachannel :: DataChannelType
  has_onaudiotrack :: bool
  has_onvideotrack :: bool
  has_on_request_keyframe :: bool
  dtls_offer_active :: bool

record ('t, 'p) PeerConnection =
  config :: PeerConfiguration
  pc_state :: PeerConnectionState
  agent :: Agent
  dtls_srtp :: "('t, 'p) DtlsSrtp"
  sctp :: Sctp
  sdp :: bytes
  has_onicecandidate :: bool
  has_onstatechange :: bool
  has_on_connected :: bool
  has_on_receiver_packet_loss :: bool
  temp_buf :: bytes
  agent_buf :: bytes
  agent_ret :: int
  b_local_description_created :: bool
  artp_encoder :: RtpEncoder
  vrtp_encoder :: RtpEncoder
  vrtp_decoder :: RtpDecoder
  artp_decoder :: RtpDecoder
  remote_assrc :: u32
  remote_vssrc :: u32
  consent_request_time :: u64

datatype PeerEvent = StateChanged PeerConnectionState | AudioTrack bytes | VideoTrack bytes | RequestKeyframe
  | LocalDescription bytes | ChannelMessage bytes nat u16 | ChannelOpen | ChannelClose

record ('w, 'u) PeerWorld =
  world :: 'w
  stack_state :: 'u
  rtp_statics :: RtpStatics
  events :: "PeerEvent list"

record ('w, 't, 'p, 'u) PeerEnv =
  peer_os :: "'w Os"
  peer_hmac :: "bytes \<Rightarrow> bytes \<Rightarrow> bytes"
  peer_md5 :: "bytes \<Rightarrow> bytes"
  peer_rnd :: "nat \<Rightarrow> nat \<Rightarrow> nat"
  peer_ntop6 :: "bytes \<Rightarrow> bytes"
  peer_pton6 :: "bytes \<Rightarrow> bytes option"
  peer_mdns :: "bytes \<Rightarrow> Address \<Rightarrow> 'w \<Rightarrow> (int \<times> Address \<times> 'w) option"
  peer_tls :: "('t, 'p, Agent \<times> 'w) Tls"
  peer_stack :: "'u SctpStack"
  peer_cb :: rtp_cb
  peer_selfsign :: "'w \<Rightarrow> bytes \<times> 'w"

type_synonym ('w, 't, 'p, 'u) peer = "('t, 'p) PeerConnection \<times> ('w, 'u) PeerWorld"

definition peer_log :: "PeerEvent list \<Rightarrow> ('w, 'u) PeerWorld \<Rightarrow> ('w, 'u) PeerWorld" where
  "peer_log es pw = pw\<lparr>events := events pw @ es\<rparr>"

text \<open>\<open>STATE_CHANGED\<close>: without a callback the state does not change.\<close>

definition STATE_CHANGED :: "PeerConnectionState \<Rightarrow> ('w, 't, 'p, 'u) peer \<Rightarrow> ('w, 't, 'p, 'u) peer" where
  "STATE_CHANGED st x = (case x of (pc, pw) \<Rightarrow>
     if has_onstatechange pc \<and> pc_state pc \<noteq> st then (pc\<lparr>pc_state := st\<rparr>, peer_log [StateChanged st] pw) else x)"

fun peer_connection_state_to_string :: "PeerConnectionState \<Rightarrow> string" where
  "peer_connection_state_to_string PEER_CONNECTION_NEW = ''new''"
| "peer_connection_state_to_string PEER_CONNECTION_CHECKING = ''checking''"
| "peer_connection_state_to_string PEER_CONNECTION_CONNECTED = ''connected''"
| "peer_connection_state_to_string PEER_CONNECTION_COMPLETED = ''completed''"
| "peer_connection_state_to_string PEER_CONNECTION_FAILED = ''failed''"
| "peer_connection_state_to_string PEER_CONNECTION_CLOSED = ''closed''"
| "peer_connection_state_to_string PEER_CONNECTION_DISCONNECTED = ''disconnected''"

definition peer_connection_get_state :: "('t, 'p) PeerConnection \<Rightarrow> PeerConnectionState" where
  "peer_connection_get_state pc = pc_state pc"

definition peer_connection_get_sctp :: "('t, 'p) PeerConnection \<Rightarrow> Sctp" where
  "peer_connection_get_sctp pc = sctp pc"

section \<open>Transport for DTLS\<close>

fun dtls_recv_attempts ::
  "('w, 't, 'p, 'u) PeerEnv \<Rightarrow> nat \<Rightarrow> nat \<Rightarrow> int \<Rightarrow> bytes \<Rightarrow> Agent \<times> 'w \<Rightarrow> (int \<times> bytes \<times> Agent \<times> 'w) option" where
  "dtls_recv_attempts env 0 len ret buf aw = Some (ret, buf, aw)"
| "dtls_recv_attempts env (Suc n) len ret buf (a, w) = do {
     (ret, buf, a, w) \<leftarrow> agent_recv (peer_hmac env) (peer_md5 env) (peer_os env) a buf len w;
     (if 0 < ret then Some (ret, buf, a, w) else dtls_recv_attempts env n len ret buf (a, w))
   }"

text \<open>A datagram the loop has already received is handed out; otherwise, before the handshake is done,
  the agent is polled. \<open>len\<close> is the room the library has.\<close>

definition peer_connection_dtls_srtp_recv ::
  "('w, 't, 'p, 'u) PeerEnv \<Rightarrow> ('t, 'p) PeerConnection \<Rightarrow> nat \<Rightarrow> Agent \<times> 'w \<Rightarrow> (int \<times> bytes \<times> Agent \<times> 'w) option" where
  "peer_connection_dtls_srtp_recv env pc len aw =
     (if 0 < agent_ret pc \<and> agent_ret pc \<le> int len then do {
        d \<leftarrow> mem_read 0 (nat (agent_ret pc)) (agent_buf pc);
        Some (agent_ret pc, d, aw)
      }
      else if pc_state pc = PEER_CONNECTION_CONNECTED
      then dtls_recv_attempts env CONFIG_TLS_READ_TIMEOUT len (-1) (replicate len 0) aw
      else Some (-1, [], aw))"

definition peer_connection_dtls_srtp_send ::
  "('w, 't, 'p, 'u) PeerEnv \<Rightarrow> bytes \<Rightarrow> Agent \<times> 'w \<Rightarrow> (int \<times> Agent \<times> 'w) option" where
  "peer_connection_dtls_srtp_send env buf aw = (case aw of (a, w) \<Rightarrow> do {
     (r, w) \<leftarrow> agent_send (peer_os env) a buf (length buf) w;
     Some (r, a, w)
   })"

definition peer_bio :: "('w, 't, 'p, 'u) PeerEnv \<Rightarrow> ('t, 'p) PeerConnection \<Rightarrow> (Agent \<times> 'w) Bio" where
  "peer_bio env pc = \<lparr>bio_send = peer_connection_dtls_srtp_send env, bio_recv = peer_connection_dtls_srtp_recv env pc\<rparr>"

section \<open>Media out\<close>

text \<open>\<open>peer_connection_outgoing_rtp_packet\<close> for each packet of a frame.\<close>

definition peer_connection_outgoing_rtp_packet ::
  "('w, 't, 'p, 'u) PeerEnv \<Rightarrow> bytes \<Rightarrow> ('w, 't, 'p, 'u) peer \<Rightarrow> ('w, 't, 'p, 'u) peer option" where
  "peer_connection_outgoing_rtp_packet env data x = (case x of (pc, pw) \<Rightarrow> do {
     (d, n, dt) \<leftarrow> dtls_srtp_encrypt_rtp_packet (peer_tls env) (dtls_srtp pc) data (length data);
     (r, w) \<leftarrow> agent_send (peer_os env) (agent pc) d n (world pw);
     Some (pc\<lparr>dtls_srtp := dt\<rparr>, pw\<lparr>world := w\<rparr>)
   })"

fun outgoing_packets ::
  "('w, 't, 'p, 'u) PeerEnv \<Rightarrow> bytes list \<Rightarrow> ('w, 't, 'p, 'u) peer \<Rightarrow> ('w, 't, 'p, 'u) peer option" where
  "outgoing_packets env [] x = Some x"
| "outgoing_packets env (p # ps) x = do { x \<leftarrow> peer_connection_outgoing_rtp_packet env p x; outgoing_packets env ps x }"

definition peer_connection_send_audio ::
  "('w, 't, 'p, 'u) PeerEnv \<Rightarrow> bytes \<Rightarrow> ('w, 't, 'p, 'u) peer \<Rightarrow> (int \<times> ('w, 't, 'p, 'u) peer) option" where
  "peer_connection_send_audio env buf x = (case x of (pc, pw) \<Rightarrow>
     if pc_state pc \<noteq> PEER_CONNECTION_COMPLETED then Some (-1, x)
     else do {
       (r, enc, ps) \<leftarrow> rtp_encoder_encode (peer_cb env) (artp_encoder pc) buf;
       x \<leftarrow> outgoing_packets env ps (pc\<lparr>artp_encoder := enc\<rparr>, pw);
       Some (r, x)
     })"

definition peer_connection_send_video ::
  "('w, 't, 'p, 'u) PeerEnv \<Rightarrow> bytes \<Rightarrow> ('w, 't, 'p, 'u) peer \<Rightarrow> (int \<times> ('w, 't, 'p, 'u) peer) option" where
  "peer_connection_send_video env buf x = (case x of (pc, pw) \<Rightarrow>
     if pc_state pc \<noteq> PEER_CONNECTION_COMPLETED then Some (-1, x)
     else do {
       (r, enc, ps) \<leftarrow> rtp_encoder_encode (peer_cb env) (vrtp_encoder pc) buf;
       x \<leftarrow> outgoing_packets env ps (pc\<lparr>vrtp_encoder := enc\<rparr>, pw);
       Some (r, x)
     })"

definition peer_connection_send_video_ts ::
  "('w, 't, 'p, 'u) PeerEnv \<Rightarrow> bytes \<Rightarrow> u32 \<Rightarrow> ('w, 't, 'p, 'u) peer \<Rightarrow> (int \<times> ('w, 't, 'p, 'u) peer) option" where
  "peer_connection_send_video_ts env buf ts x = (case x of (pc, pw) \<Rightarrow>
     if pc_state pc \<noteq> PEER_CONNECTION_COMPLETED then Some (-1, x)
     else do {
       (r, enc, ps) \<leftarrow> rtp_encoder_encode (peer_cb env) (rtp_encoder_set_timestamp (vrtp_encoder pc) ts) buf;
       x \<leftarrow> outgoing_packets env ps (pc\<lparr>vrtp_encoder := enc\<rparr>, pw);
       Some (r, x)
     })"

text \<open>Nothing is sent yet.\<close>

definition peer_connection_send_rtcp_pil :: "u32 \<Rightarrow> int option" where
  "peer_connection_send_rtcp_pil ssrc = do { (r, p) \<leftarrow> rtcp_get_pli (Some (replicate 128 0)) 12 ssrc; Some (-1) }"

section \<open>SCTP events\<close>

text \<open>Packets go to DTLS, whose result the association ignores; the rest is for the application.\<close>

fun sctp_event ::
  "('w, 't, 'p, 'u) PeerEnv \<Rightarrow> SctpEvent \<Rightarrow> ('w, 't, 'p, 'u) peer \<Rightarrow> ('w, 't, 'p, 'u) peer option" where
  "sctp_event env (DtlsWrite b) (pc, pw) = do {
     (r, d, a, w) \<leftarrow> dtls_srtp_write (peer_tls env) (peer_bio env pc) b (dtls_srtp pc) (agent pc, world pw);
     Some (pc\<lparr>dtls_srtp := d, agent := a\<rparr>, pw\<lparr>world := w\<rparr>)
   }"
| "sctp_event env (OnMessage d n sid) (pc, pw) = Some (pc, peer_log [ChannelMessage d n sid] pw)"
| "sctp_event env OnOpen (pc, pw) = Some (pc, peer_log [ChannelOpen] pw)"
| "sctp_event env OnClose (pc, pw) = Some (pc, peer_log [ChannelClose] pw)"

fun sctp_events ::
  "('w, 't, 'p, 'u) PeerEnv \<Rightarrow> SctpEvent list \<Rightarrow> ('w, 't, 'p, 'u) peer \<Rightarrow> ('w, 't, 'p, 'u) peer option" where
  "sctp_events env [] x = Some x"
| "sctp_events env (e # es) x = do { x \<leftarrow> sctp_event env e x; sctp_events env es x }"

section \<open>RTCP in\<close>

text \<open>The loop over a compound packet; each feedback message for a key frame is one call.\<close>

function peer_connection_incoming_rtcp ::
  "('t, 'p) PeerConnection \<Rightarrow> bytes \<Rightarrow> nat \<Rightarrow> nat \<Rightarrow> PeerEvent list option" where
  "peer_connection_incoming_rtcp pc buf len pos =
     (if pos < len then do {
        h \<leftarrow> rtcp_header_at buf pos;
        let es = (if rtcp_type h = rtcp_type_value RTCP_PSFB \<and> (rtcp_rc h = 1 \<or> rtcp_rc h = 4) \<and>
                     has_on_request_keyframe (config pc) then [RequestKeyframe] else []);
        es' \<leftarrow> peer_connection_incoming_rtcp pc buf len (pos + 4 * unat (rtcp_length h) + 4);
        Some (es @ es')
      }
      else Some [])"
  by pat_completeness auto
termination by (relation "measure (\<lambda>(pc, b, n, p). n - p)") auto

declare peer_connection_incoming_rtcp.simps [simp del]

section \<open>The loop\<close>

definition loop_checking ::
  "('w, 't, 'p, 'u) PeerEnv \<Rightarrow> ('w, 't, 'p, 'u) peer \<Rightarrow> ('w, 't, 'p, 'u) peer option" where
  "loop_checking env x = (case x of (pc, pw) \<Rightarrow> do {
     (r, a) \<leftarrow> agent_select_candidate_pair (agent pc);
     let pc = pc\<lparr>agent := a\<rparr>;
     (if r < 0 then Some (STATE_CHANGED PEER_CONNECTION_FAILED (pc, pw))
      else do {
        (r, a, w) \<leftarrow> agent_connectivity_check (peer_hmac env) (peer_md5 env) (peer_os env) (agent pc) (world pw);
        let x = (pc\<lparr>agent := a\<rparr>, pw\<lparr>world := w\<rparr>);
        Some (if r = 0 then STATE_CHANGED PEER_CONNECTION_CONNECTED x else x)
      })
   })"

text \<open>The result of \<open>sctp_create_association\<close> is not looked at.\<close>

definition loop_connected ::
  "('w, 't, 'p, 'u) PeerEnv \<Rightarrow> ('w, 't, 'p, 'u) peer \<Rightarrow> ('w, 't, 'p, 'u) peer option" where
  "loop_connected env x = (case x of (pc, pw) \<Rightarrow> do {
     (r, d, a, w) \<leftarrow> dtls_srtp_handshake (peer_tls env) (peer_bio env pc) (dtls_srtp pc) (agent pc, world pw);
     let pc = pc\<lparr>dtls_srtp := d, agent := a\<rparr>;
     let pw = pw\<lparr>world := w\<rparr>;
     (if r = 0 then do {
        x \<leftarrow> (if datachannel (config pc) \<noteq> DATA_CHANNEL_NONE then do {
                (q, s, evs, u) \<leftarrow> st_create (peer_stack env) (sctp pc) (stack_state pw);
                sctp_events env evs (pc\<lparr>sctp := s\<rparr>, pw\<lparr>stack_state := u\<rparr>) }
              else Some (pc, pw));
        Some (STATE_CHANGED PEER_CONNECTION_COMPLETED x)
      }
      else Some (pc, pw))
   })"

definition loop_consent ::
  "('w, 't, 'p, 'u) PeerEnv \<Rightarrow> ('w, 't, 'p, 'u) peer \<Rightarrow> ('w, 't, 'p, 'u) peer option" where
  "loop_consent env x = (case x of (pc, pw) \<Rightarrow> do {
     let (now, w) = ports_get_epoch_time (peer_os env) (world pw);
     (if 0 < CONFIG_CONSENT_INTERVAL \<and> CONFIG_CONSENT_INTERVAL < ucast now - consent_request_time pc then do {
        let (now, w) = ports_get_epoch_time (peer_os env) w;
        let pc = pc\<lparr>consent_request_time := ucast now\<rparr>;
        (r, w) \<leftarrow> agent_send_consent_request (peer_hmac env) (peer_md5 env) (peer_os env) (agent pc) w;
        Some (pc, pw\<lparr>world := w\<rparr>)
      }
      else Some (pc, pw\<lparr>world := w\<rparr>))
   })"

text \<open>\<open>rtp_decoder_decode\<close> and the calls of the track's function.\<close>

definition decode_track ::
  "(bytes \<Rightarrow> PeerEvent) \<Rightarrow> RtpDecoder \<Rightarrow> bytes \<Rightarrow> nat \<Rightarrow> ('w, 'u) PeerWorld \<Rightarrow> ('w, 'u) PeerWorld option" where
  "decode_track ev decoder buf n pw = do {
     (r, st, out) \<leftarrow> rtp_decoder_decode decoder (rtp_statics pw) buf n;
     Some (peer_log (map ev out) (pw\<lparr>rtp_statics := st\<rparr>))
   }"

definition incoming_rtcp ::
  "('w, 't, 'p, 'u) PeerEnv \<Rightarrow> ('w, 't, 'p, 'u) peer \<Rightarrow> ('w, 't, 'p, 'u) peer option" where
  "incoming_rtcp env x = (case x of (pc, pw) \<Rightarrow> do {
     (b, n, d) \<leftarrow> dtls_srtp_decrypt_rtcp_packet (peer_tls env) (dtls_srtp pc) (agent_buf pc) (nat (agent_ret pc));
     let pc = pc\<lparr>agent_buf := b, agent_ret := int n, dtls_srtp := d\<rparr>;
     es \<leftarrow> peer_connection_incoming_rtcp pc (agent_buf pc) (nat (agent_ret pc)) 0;
     Some (pc, peer_log es pw)
   })"

definition incoming_dtls ::
  "('w, 't, 'p, 'u) PeerEnv \<Rightarrow> ('w, 't, 'p, 'u) peer \<Rightarrow> ('w, 't, 'p, 'u) peer option" where
  "incoming_dtls env x = (case x of (pc, pw) \<Rightarrow> do {
     (r, b, d, a, w) \<leftarrow> dtls_srtp_read (peer_tls env) (peer_bio env pc) (temp_buf pc) (length (temp_buf pc)) (dtls_srtp pc)
                        (agent pc, world pw);
     let pc = pc\<lparr>temp_buf := b, dtls_srtp := d, agent := a\<rparr>;
     let pw = pw\<lparr>world := w\<rparr>;
     (if 0 < r then do {
        (s, evs, u) \<leftarrow> st_incoming (peer_stack env) (sctp pc) (temp_buf pc) (nat r) (stack_state pw);
        sctp_events env evs (pc\<lparr>sctp := s\<rparr>, pw\<lparr>stack_state := u\<rparr>)
      }
      else Some (pc, pw))
   })"

definition incoming_rtp ::
  "('w, 't, 'p, 'u) PeerEnv \<Rightarrow> ('w, 't, 'p, 'u) peer \<Rightarrow> ('w, 't, 'p, 'u) peer option" where
  "incoming_rtp env x = (case x of (pc, pw) \<Rightarrow> do {
     (r, b, n, d) \<leftarrow> dtls_srtp_decrypt_rtp_packet (peer_tls env) (dtls_srtp pc) (agent_buf pc) (nat (agent_ret pc));
     let pc = pc\<lparr>agent_buf := b, agent_ret := int n, dtls_srtp := d\<rparr>;
     (if r = 0 then do {
        ssrc \<leftarrow> rtp_get_ssrc (agent_buf pc);
        (if ssrc = remote_assrc pc then do {
           pw \<leftarrow> decode_track AudioTrack (artp_decoder pc) (agent_buf pc) (nat (agent_ret pc)) pw;
           Some (pc, pw) }
         else if ssrc = remote_vssrc pc then do {
           pw \<leftarrow> decode_track VideoTrack (vrtp_decoder pc) (agent_buf pc) (nat (agent_ret pc)) pw;
           Some (pc, pw) }
         else Some (pc, pw))
      }
      else Some (pc, pw))
   })"

definition loop_receive ::
  "('w, 't, 'p, 'u) PeerEnv \<Rightarrow> ('w, 't, 'p, 'u) peer \<Rightarrow> ('w, 't, 'p, 'u) peer option" where
  "loop_receive env x = (case x of (pc, pw) \<Rightarrow> do {
     (r, b, a, w) \<leftarrow> agent_recv (peer_hmac env) (peer_md5 env) (peer_os env) (agent pc) (agent_buf pc) (length (agent_buf pc)) (world pw);
     let pc = pc\<lparr>agent_ret := r, agent_buf := b, agent := a\<rparr>;
     (if 0 < r then do {
        let (now, w) = ports_get_epoch_time (peer_os env) w;
        let pc = pc\<lparr>agent := (agent pc)\<lparr>binding_request_time := ucast now\<rparr>\<rparr>;
        let x = (pc, pw\<lparr>world := w\<rparr>);
        c \<leftarrow> rtcp_probe (agent_buf pc) (nat r);
        (if c \<noteq> 0 then incoming_rtcp env x
         else do {
           d \<leftarrow> dtls_srtp_probe (Some (agent_buf pc));
           (if d then incoming_dtls env x
            else do {
              v \<leftarrow> rtp_packet_validate (agent_buf pc) (nat r);
              (if v \<noteq> 0 then incoming_rtp env x else Some x)
            })
         })
      }
      else Some (pc, pw\<lparr>world := w\<rparr>))
   })"

definition loop_keepalive ::
  "('w, 't, 'p, 'u) PeerEnv \<Rightarrow> ('w, 't, 'p, 'u) peer \<Rightarrow> ('w, 't, 'p, 'u) peer" where
  "loop_keepalive env x = (case x of (pc, pw) \<Rightarrow>
     let (now, w) = ports_get_epoch_time (peer_os env) (world pw); x = (pc, pw\<lparr>world := w\<rparr>) in
     if 0 < CONFIG_KEEPALIVE_TIMEOUT \<and> CONFIG_KEEPALIVE_TIMEOUT < ucast now - binding_request_time (agent pc)
     then STATE_CHANGED PEER_CONNECTION_CLOSED x else x)"

definition loop_completed ::
  "('w, 't, 'p, 'u) PeerEnv \<Rightarrow> ('w, 't, 'p, 'u) peer \<Rightarrow> ('w, 't, 'p, 'u) peer option" where
  "loop_completed env x = do {
     x \<leftarrow> loop_consent env x;
     x \<leftarrow> loop_receive env x;
     Some (loop_keepalive env x)
   }"

definition peer_connection_loop ::
  "('w, 't, 'p, 'u) PeerEnv \<Rightarrow> ('w, 't, 'p, 'u) peer \<Rightarrow> (int \<times> ('w, 't, 'p, 'u) peer) option" where
  "peer_connection_loop env x = (case x of (pc, pw) \<Rightarrow> do {
     let pc = pc\<lparr>agent_buf := replicate (length (agent_buf pc)) 0, agent_ret := -1\<rparr>;
     x \<leftarrow> (case pc_state pc of
            PEER_CONNECTION_CHECKING \<Rightarrow> loop_checking env (pc, pw)
          | PEER_CONNECTION_CONNECTED \<Rightarrow> loop_connected env (pc, pw)
          | PEER_CONNECTION_COMPLETED \<Rightarrow> loop_completed env (pc, pw)
          | _ \<Rightarrow> Some (pc, pw));
     Some (0, x)
   })"

end
