(* ===== verification/Peer_Session.thy ===== *)
theory Peer_Session
  imports Peer_Connection
begin

text \<open>
  The other operations of \<^verbatim>\<open>src/src/peer_connection.c\<close>: creation and destruction, the callbacks, the offer and
  the answer, the remote description, remote candidates, and data channels.
\<close>

section \<open>Life cycle\<close>

text \<open>\<open>pc\<close> is what \<open>calloc\<close> returned, \<^const>\<open>None\<close> if nothing. The results of \<open>agent_create\<close> and of the
  initialisations are not looked at.\<close>

definition peer_connection_create ::
  "('w, 't, 'p, 'u) PeerEnv \<Rightarrow> PeerConfiguration \<Rightarrow> ('t, 'p) PeerConnection option \<Rightarrow> ('w, 'u) PeerWorld \<Rightarrow>
   (('t, 'p) PeerConnection option \<times> ('w, 'u) PeerWorld) option" where
  "peer_connection_create env cfg mem pw = (case mem of
     None \<Rightarrow> Some (None, pw)
   | Some pc \<Rightarrow> do {
       let pc = pc\<lparr>config := cfg\<rparr>;
       (r, a, w) \<leftarrow> agent_create (peer_os env) (agent pc) (world pw);
       let pc = pc\<lparr>agent := a, sctp := sctp_zero\<rparr>;
       let pc = (if audio_codec cfg \<noteq> CODEC_NONE
                 then pc\<lparr>artp_encoder := rtp_encoder_init (audio_codec cfg) (artp_encoder pc),
                         artp_decoder := rtp_decoder_init (audio_codec cfg) (has_onaudiotrack cfg) (artp_decoder pc)\<rparr>
                 else pc);
       let pc = (if video_codec cfg \<noteq> CODEC_NONE
                 then pc\<lparr>vrtp_encoder := rtp_encoder_init (video_codec cfg) (vrtp_encoder pc),
                         vrtp_decoder := rtp_decoder_init (video_codec cfg) (has_onvideotrack cfg) (vrtp_decoder pc)\<rparr>
                 else pc);
       Some (Some pc, pw\<lparr>world := w\<rparr>)
     })"

definition peer_connection_destroy ::
  "('w, 't, 'p, 'u) PeerEnv \<Rightarrow> ('t, 'p) PeerConnection option \<Rightarrow> ('w, 'u) PeerWorld \<Rightarrow> ('w, 'u) PeerWorld option" where
  "peer_connection_destroy env mpc pw = (case mpc of
     None \<Rightarrow> Some pw
   | Some pc \<Rightarrow> do {
       let (s, u) = st_destroy (peer_stack env) (sctp pc) (stack_state pw);
       let d = dtls_srtp_deinit (dtls_srtp pc);
       w \<leftarrow> agent_destroy (peer_os env) (agent pc) (world pw);
       Some (pw\<lparr>world := w, stack_state := u\<rparr>)
     })"

definition peer_connection_close :: "('t, 'p) PeerConnection \<Rightarrow> ('t, 'p) PeerConnection" where
  "peer_connection_close pc = pc\<lparr>pc_state := PEER_CONNECTION_CLOSED\<rparr>"

definition peer_connection_on_connected :: "('t, 'p) PeerConnection \<Rightarrow> bool \<Rightarrow> ('t, 'p) PeerConnection" where
  "peer_connection_on_connected pc f = pc\<lparr>has_on_connected := f\<rparr>"

definition peer_connection_on_receiver_packet_loss :: "('t, 'p) PeerConnection \<Rightarrow> bool \<Rightarrow> ('t, 'p) PeerConnection" where
  "peer_connection_on_receiver_packet_loss pc f = pc\<lparr>has_on_receiver_packet_loss := f\<rparr>"

definition peer_connection_onicecandidate :: "('t, 'p) PeerConnection \<Rightarrow> bool \<Rightarrow> ('t, 'p) PeerConnection" where
  "peer_connection_onicecandidate pc f = pc\<lparr>has_onicecandidate := f\<rparr>"

definition peer_connection_oniceconnectionstatechange :: "('t, 'p) PeerConnection \<Rightarrow> bool \<Rightarrow> ('t, 'p) PeerConnection" where
  "peer_connection_oniceconnectionstatechange pc f = pc\<lparr>has_onstatechange := f\<rparr>"

definition peer_connection_ondatachannel ::
  "('t, 'p) PeerConnection option \<Rightarrow> bool \<Rightarrow> bool \<Rightarrow> bool \<Rightarrow> ('t, 'p) PeerConnection option" where
  "peer_connection_ondatachannel mpc onmessage onopen onclose =
     map_option (\<lambda>pc. pc\<lparr>sctp := sctp_onmessage (sctp_onclose (sctp_onopen (sctp pc) onopen) onclose) onmessage\<rparr>) mpc"

section \<open>Local description\<close>

definition peer_connection_dtls_role_setup_value :: "DtlsSrtpRole \<Rightarrow> bytes" where
  "peer_connection_dtls_role_setup_value d =
     (if d = DTLS_SRTP_ROLE_SERVER then str ''a=setup:passive'' else str ''a=setup:active'')"

definition append_video :: "MediaCodec \<Rightarrow> bytes \<Rightarrow> bytes option" where
  "append_video codec s = (case codec of
     CODEC_H264 \<Rightarrow> sdp_append_h264 s
   | CODEC_AV1 \<Rightarrow> sdp_append_av1 s
   | _ \<Rightarrow> Some s)"

definition append_audio :: "MediaCodec \<Rightarrow> bytes \<Rightarrow> bytes option" where
  "append_audio codec s = (case codec of
     CODEC_PCMA \<Rightarrow> sdp_append_pcma s
   | CODEC_PCMU \<Rightarrow> sdp_append_pcmu s
   | CODEC_OPUS \<Rightarrow> sdp_append_opus s
   | _ \<Rightarrow> Some s)"

fun gather_servers ::
  "('w, 't, 'p, 'u) PeerEnv \<Rightarrow> IceServer list \<Rightarrow> Agent \<Rightarrow> 'w \<Rightarrow> (Agent \<times> 'w) option" where
  "gather_servers env [] a w = Some (a, w)"
| "gather_servers env (None # ss) a w = gather_servers env ss a w"
| "gather_servers env (Some (urls, user, credential) # ss) a w = do {
     (a, w) \<leftarrow> agent_gather_candidate (peer_hmac env) (peer_md5 env) (peer_os env) a (Some urls) user credential w;
     gather_servers env ss a w
   }"

text \<open>Role and mode by the type; only an offer clears the candidates.\<close>

definition sdp_role :: "SdpType \<Rightarrow> PeerConfiguration \<Rightarrow> DtlsSrtpRole" where
  "sdp_role ty cfg = (case ty of
     SDP_TYPE_OFFER \<Rightarrow> if dtls_offer_active cfg then DTLS_SRTP_ROLE_CLIENT else DTLS_SRTP_ROLE_SERVER
   | SDP_TYPE_ANSWER \<Rightarrow> DTLS_SRTP_ROLE_CLIENT)"

definition sdp_agent :: "SdpType \<Rightarrow> Agent \<Rightarrow> Agent" where
  "sdp_agent ty a = (case ty of
     SDP_TYPE_OFFER \<Rightarrow> (agent_clear_candidates a)\<lparr>agent_mode := AGENT_MODE_CONTROLLING\<rparr>
   | SDP_TYPE_ANSWER \<Rightarrow> a\<lparr>agent_mode := AGENT_MODE_CONTROLLED\<rparr>)"

text \<open>The lines up to the media sections and the media sections.\<close>

definition sdp_sections :: "('t, 'p) PeerConnection \<Rightarrow> DtlsSrtpRole \<Rightarrow> bytes \<Rightarrow> bytes option" where
  "sdp_sections pc role s = do {
     s \<leftarrow> sdp_create s (video_codec (config pc) \<noteq> CODEC_NONE) (audio_codec (config pc) \<noteq> CODEC_NONE)
            (datachannel (config pc) \<noteq> DATA_CHANNEL_NONE);
     ufrag \<leftarrow> c_text (local_ufrag (agent pc));
     pwd \<leftarrow> c_text (local_upwd (agent pc));
     fp \<leftarrow> c_text (local_fingerprint (dtls_srtp pc));
     s \<leftarrow> sdp_append_all [str ''a=ice-ufrag:'' @ ufrag, str ''a=ice-pwd:'' @ pwd,
            str ''a=fingerprint:sha-256 '' @ fp, peer_connection_dtls_role_setup_value role] s;
     s \<leftarrow> append_video (video_codec (config pc)) s;
     s \<leftarrow> append_audio (audio_codec (config pc)) s;
     (if datachannel (config pc) \<noteq> DATA_CHANNEL_NONE then sdp_append_datachannel s else Some s)
   }"

text \<open>The candidate lines are passed as a format; a percent sign in them would be a conversion.\<close>

definition peer_connection_create_sdp ::
  "('w, 't, 'p, 'u) PeerEnv \<Rightarrow> SdpType \<Rightarrow> ('w, 't, 'p, 'u) peer \<Rightarrow> ('w, 't, 'p, 'u) peer option" where
  "peer_connection_create_sdp env ty x = (case x of (pc, pw) \<Rightarrow> do {
     let pc = pc\<lparr>temp_buf := replicate (length (temp_buf pc)) 0, sctp := (sctp pc)\<lparr>connected := False\<rparr>\<rparr>;
     let role = sdp_role ty (config pc);
     let pc = pc\<lparr>agent := sdp_agent ty (agent pc)\<rparr>;
     let (raw, w) = peer_selfsign env (world pw);
     (r, d) \<leftarrow> dtls_srtp_init (peer_tls env) raw (dtls_srtp_reset_session (peer_tls env) (dtls_srtp pc)) role;
     (a, w) \<leftarrow> agent_create_ice_credential (peer_rnd env) (peer_os env) (agent pc) w;
     let pc = pc\<lparr>dtls_srtp := d, agent := a\<rparr>;
     s \<leftarrow> sdp_sections pc role (replicate (length (sdp pc)) 0);
     (a, w) \<leftarrow> agent_gather_candidate (peer_hmac env) (peer_md5 env) (peer_os env) (agent pc) None [] [] w;
     (a, w) \<leftarrow> gather_servers env (ice_servers (config pc)) a w;
     b \<leftarrow> agent_get_local_description (peer_ntop6 env) a (temp_buf pc) (length (temp_buf pc));
     t \<leftarrow> c_text b;
     c_assert (37 \<notin> set t);
     (r, s) \<leftarrow> sdp_append s t;
     let pc = pc\<lparr>b_local_description_created := True, agent := a, temp_buf := b, sdp := s\<rparr>;
     t \<leftarrow> c_text s;
     Some (pc, peer_log (if has_onicecandidate pc then [LocalDescription t] else []) (pw\<lparr>world := w\<rparr>))
   })"

definition peer_connection_create_offer ::
  "('w, 't, 'p, 'u) PeerEnv \<Rightarrow> ('w, 't, 'p, 'u) peer \<Rightarrow> (bytes \<times> ('w, 't, 'p, 'u) peer) option" where
  "peer_connection_create_offer env x = do {
     x \<leftarrow> peer_connection_create_sdp env SDP_TYPE_OFFER x;
     Some (sdp (fst x), x)
   }"

definition peer_connection_create_answer ::
  "('w, 't, 'p, 'u) PeerEnv \<Rightarrow> ('w, 't, 'p, 'u) peer \<Rightarrow> (bytes \<times> ('w, 't, 'p, 'u) peer) option" where
  "peer_connection_create_answer env x = do {
     (pc, pw) \<leftarrow> peer_connection_create_sdp env SDP_TYPE_ANSWER x;
     a \<leftarrow> agent_update_candidate_pairs (agent pc);
     Some (sdp pc, STATE_CHANGED PEER_CONNECTION_CHECKING (pc\<lparr>agent := a\<rparr>, pw))
   }"

section \<open>Remote description\<close>

text \<open>\<open>strtoul\<close> in base 10, cut to 32 bits.\<close>

definition strtoul :: "bytes \<Rightarrow> u32" where
  "strtoul s = (case scan_int s of
     None \<Rightarrow> 0
   | Some (n, _) \<Rightarrow> if 2 ^ 64 \<le> \<bar>n\<bar> then 0xffffffff else of_int n)"

datatype SsrcTarget = VideoSsrc | AudioSsrc

text \<open>The locals of the loop; \<open>scan_buf\<close> has 256 bytes.\<close>

record RemoteScan =
  scan_buf :: bytes
  scan_role :: DtlsSrtpRole
  scan_update :: bool
  scan_ssrc :: "SsrcTarget option"

definition remote_scan0 :: RemoteScan where
  "remote_scan0 = \<lparr>scan_buf = replicate 256 0, scan_role = DTLS_SRTP_ROLE_SERVER, scan_update = False, scan_ssrc = None\<rparr>"

definition contains :: "bytes \<Rightarrow> string \<Rightarrow> bool" where
  "contains l s \<longleftrightarrow> strstr l (str s) \<noteq> None"

definition set_remote_ssrc :: "SsrcTarget option \<Rightarrow> bytes \<Rightarrow> ('t, 'p) PeerConnection \<Rightarrow> ('t, 'p) PeerConnection" where
  "set_remote_ssrc target l pc = (case (strstr l (str ''a=ssrc:''), target) of
     (Some k, Some VideoSsrc) \<Rightarrow> pc\<lparr>remote_vssrc := strtoul (drop (k + 7) l)\<rparr>
   | (Some k, Some AudioSsrc) \<Rightarrow> pc\<lparr>remote_assrc := strtoul (drop (k + 7) l)\<rparr>
   | _ \<Rightarrow> pc)"

text \<open>One line \<open>l\<close> of the description.\<close>

definition remote_description_line ::
  "bytes \<Rightarrow> ('t, 'p) PeerConnection \<times> RemoteScan \<Rightarrow> (('t, 'p) PeerConnection \<times> RemoteScan) option" where
  "remote_description_line l x = (case x of (pc, sc) \<Rightarrow> do {
     buf \<leftarrow> mem_write 0 (l @ [0]) (scan_buf sc);
     let role = (if contains l ''a=setup:passive'' then DTLS_SRTP_ROLE_CLIENT
                 else if contains l ''a=setup:active'' then DTLS_SRTP_ROLE_SERVER else scan_role sc);
     let pc = (if contains l ''a=fingerprint''
               then pc\<lparr>dtls_srtp := (dtls_srtp pc)\<lparr>remote_fingerprint :=
                      strncpy_text DTLS_SRTP_FINGERPRINT_LENGTH (takeWhile (\<lambda>b. b \<noteq> 0) (drop 22 buf))\<rparr>\<rparr>
               else pc);
     u \<leftarrow> (if contains l ''a=ice-ufrag'' then do {
             uf \<leftarrow> c_text (remote_ufrag (agent pc));
             Some (uf \<noteq> [] \<and> starts_with uf (takeWhile (\<lambda>b. b \<noteq> 0) (drop 12 buf))) }
           else Some False);
     let target = (if contains l ''m=video'' then Some VideoSsrc
                   else if contains l ''m=audio'' then Some AudioSsrc else scan_ssrc sc);
     Some (set_remote_ssrc target l pc,
           \<lparr>scan_buf = buf, scan_role = role, scan_update = scan_update sc \<or> u, scan_ssrc = target\<rparr>)
   })"

function remote_description_lines ::
  "bytes \<Rightarrow> ('t, 'p) PeerConnection \<times> RemoteScan \<Rightarrow> (('t, 'p) PeerConnection \<times> RemoteScan) option" where
  "remote_description_lines start x = (case strstr start CRLF of
     None \<Rightarrow> Some x
   | Some n \<Rightarrow> do {
       x \<leftarrow> remote_description_line (take n start) x;
       remote_description_lines (drop (n + 2) start) x
     })"
  by pat_completeness auto
termination by (relation "measure (\<lambda>(s, x). length s)") (auto simp: CRLF_def dest: strstr_Some)

declare remote_description_lines.simps [simp del]

text \<open>A conflict of roles is only logged.\<close>

definition peer_connection_set_remote_description ::
  "('w, 't, 'p, 'u) PeerEnv \<Rightarrow> bytes \<Rightarrow> SdpType \<Rightarrow> ('w, 't, 'p, 'u) peer \<Rightarrow> ('w, 't, 'p, 'u) peer option" where
  "peer_connection_set_remote_description env description ty x = (case x of (pc, pw) \<Rightarrow> do {
     (pc, sc) \<leftarrow> remote_description_lines description (pc, remote_scan0);
     (if scan_update sc then Some (pc, pw)
      else do {
        (a, w) \<leftarrow> agent_set_remote_description (peer_pton6 env) (peer_mdns env) (agent pc) description (world pw);
        let pc = pc\<lparr>agent := a\<rparr>;
        let pw = pw\<lparr>world := w\<rparr>;
        (if ty = SDP_TYPE_ANSWER then do {
           a \<leftarrow> agent_update_candidate_pairs (agent pc);
           Some (STATE_CHANGED PEER_CONNECTION_CHECKING (pc\<lparr>agent := a\<rparr>, pw))
         }
         else Some (pc, pw))
      })
   })"

text \<open>The slot is written whatever the result.\<close>

definition peer_connection_add_ice_candidate ::
  "('w, 't, 'p, 'u) PeerEnv \<Rightarrow> bytes \<Rightarrow> ('w, 't, 'p, 'u) peer \<Rightarrow> (int \<times> ('w, 't, 'p, 'u) peer) option" where
  "peer_connection_add_ice_candidate env candidate x = (case x of (pc, pw) \<Rightarrow> do {
     let k = remote_candidates_count (agent pc);
     c \<leftarrow> mem_get k (remote_candidates (agent pc));
     (r, c, w) \<leftarrow> ice_candidate_from_description (peer_pton6 env) (peer_mdns env) c candidate (world pw);
     let a = set_remote_candidate k c (agent pc);
     let pw = pw\<lparr>world := w\<rparr>;
     (if r \<noteq> 0 then Some (-1, pc\<lparr>agent := a\<rparr>, pw)
      else Some (0, pc\<lparr>agent := a\<lparr>remote_candidates_count := k + 1\<rparr>\<rparr>, pw))
   })"

section \<open>Data channels\<close>

datatype DecpChannelType = DATA_CHANNEL_RELIABLE | DATA_CHANNEL_RELIABLE_UNORDERED
  | DATA_CHANNEL_PARTIAL_RELIABLE_REXMIT | DATA_CHANNEL_PARTIAL_RELIABLE_REXMIT_UNORDERED
  | DATA_CHANNEL_PARTIAL_RELIABLE_TIMED | DATA_CHANNEL_PARTIAL_RELIABLE_TIMED_UNORDERED

definition PPID_STRING :: u32 where "PPID_STRING = 51"
definition PPID_BINARY :: u32 where "PPID_BINARY = 53"
definition PPID_CONTROL :: u32 where "PPID_CONTROL = 50"

text \<open>\<open>sctp_outgoing_data\<close> of the stack, with what it does outside the association.\<close>

definition sctp_send ::
  "('w, 't, 'p, 'u) PeerEnv \<Rightarrow> bytes \<Rightarrow> nat \<Rightarrow> u32 \<Rightarrow> u16 \<Rightarrow> ('w, 't, 'p, 'u) peer \<Rightarrow> (int \<times> ('w, 't, 'p, 'u) peer) option" where
  "sctp_send env msg len ppid sid x = (case x of (pc, pw) \<Rightarrow> do {
     (r, s, evs, u) \<leftarrow> st_outgoing (peer_stack env) (sctp pc) msg len ppid sid (stack_state pw);
     x \<leftarrow> sctp_events env evs (pc\<lparr>sctp := s\<rparr>, pw\<lparr>stack_state := u\<rparr>);
     Some (r, x)
   })"

definition peer_connection_datachannel_send_sid ::
  "('w, 't, 'p, 'u) PeerEnv \<Rightarrow> bytes \<Rightarrow> nat \<Rightarrow> u16 \<Rightarrow> ('w, 't, 'p, 'u) peer \<Rightarrow> (int \<times> ('w, 't, 'p, 'u) peer) option" where
  "peer_connection_datachannel_send_sid env msg len sid x =
     (if \<not> sctp_is_connected (sctp (fst x)) then Some (-1, x)
      else if datachannel (config (fst x)) = DATA_CHANNEL_STRING then sctp_send env msg len PPID_STRING sid x
      else sctp_send env msg len PPID_BINARY sid x)"

definition peer_connection_datachannel_send ::
  "('w, 't, 'p, 'u) PeerEnv \<Rightarrow> bytes \<Rightarrow> nat \<Rightarrow> ('w, 't, 'p, 'u) peer \<Rightarrow> (int \<times> ('w, 't, 'p, 'u) peer) option" where
  "peer_connection_datachannel_send env msg len x = peer_connection_datachannel_send_sid env msg len 0 x"

text \<open>The DATA-CHANNEL-OPEN message; the channel type the caller gives is not in it.\<close>

definition open_message :: "DecpChannelType \<Rightarrow> u16 \<Rightarrow> u32 \<Rightarrow> bytes \<Rightarrow> bytes \<Rightarrow> bytes" where
  "open_message channel_type prio reliability label protocol =
     [decp_value DATA_CHANNEL_OPEN, 0] @ be16 prio @ be32 reliability @ be16 (of_nat (length label)) @
     be16 (of_nat (length protocol)) @ label @ protocol"

definition peer_connection_create_datachannel_sid ::
  "('w, 't, 'p, 'u) PeerEnv \<Rightarrow> DecpChannelType \<Rightarrow> u16 \<Rightarrow> u32 \<Rightarrow> bytes \<Rightarrow> bytes \<Rightarrow> u16 \<Rightarrow> ('w, 't, 'p, 'u) peer \<Rightarrow>
   (int \<times> ('w, 't, 'p, 'u) peer) option" where
  "peer_connection_create_datachannel_sid env channel_type prio reliability label protocol sid x =
     (if \<not> sctp_is_connected (sctp (fst x)) then Some (-1, x)
      else let msg = open_message channel_type prio reliability label protocol in
        sctp_send env msg (length msg) PPID_CONTROL sid x)"

definition peer_connection_create_datachannel ::
  "('w, 't, 'p, 'u) PeerEnv \<Rightarrow> DecpChannelType \<Rightarrow> u16 \<Rightarrow> u32 \<Rightarrow> bytes \<Rightarrow> bytes \<Rightarrow> ('w, 't, 'p, 'u) peer \<Rightarrow>
   (int \<times> ('w, 't, 'p, 'u) peer) option" where
  "peer_connection_create_datachannel env channel_type prio reliability label protocol x =
     peer_connection_create_datachannel_sid env channel_type prio reliability label protocol 0 x"

text \<open>\<open>label\<close> is a C string; the stored labels may fill their 32 bytes.\<close>

fun find_label :: "SctpStreamEntry list \<Rightarrow> bytes \<Rightarrow> u16 option" where
  "find_label [] label = None"
| "find_label (e # es) label = (if strncmp_eq (se_label e) (label @ [0]) 32 then Some (se_sid e) else find_label es label)"

definition peer_connection_lookup_sid :: "('t, 'p) PeerConnection \<Rightarrow> bytes \<Rightarrow> u16 \<Rightarrow> (int \<times> u16) option" where
  "peer_connection_lookup_sid pc label sid = do {
     c_assert (stream_count (sctp pc) \<le> length (stream_table (sctp pc)));
     Some (case find_label (take (stream_count (sctp pc)) (stream_table (sctp pc))) label of
             None \<Rightarrow> (-1, sid) | Some s \<Rightarrow> (0, s))
   }"

fun find_sid :: "SctpStreamEntry list \<Rightarrow> u16 \<Rightarrow> bytes option" where
  "find_sid [] sid = None"
| "find_sid (e # es) sid = (if se_sid e = sid then Some (se_label e) else find_sid es sid)"

definition peer_connection_lookup_sid_label :: "('t, 'p) PeerConnection \<Rightarrow> u16 \<Rightarrow> bytes option option" where
  "peer_connection_lookup_sid_label pc sid = do {
     c_assert (stream_count (sctp pc) \<le> length (stream_table (sctp pc)));
     Some (find_sid (take (stream_count (sctp pc)) (stream_table (sctp pc))) sid)
   }"

end
