(* ===== verification/Peer_Machine.thy ===== *)
theory Peer_Machine
  imports Peer_Session Agent_Checks
begin

text \<open>
  The peer connection as a state machine: every call an application can make is a step, and the
  states it is told of are a path in the graph of the allowed transitions.

  \<^item> \<open>quiet\<close> is the frame most operations stay in: the state is the same and nothing is reported.
  \<^item> \<open>moves\<close> is what is left: one report, the last event of the call, of the state the connection is now in.
\<close>

section \<open>Steps\<close>

text \<open>All calls but \<^const>\<open>peer_connection_close\<close>, which sets the state without a report.\<close>

inductive peer_call :: "('w, 't, 'p, 'u) PeerEnv \<Rightarrow> ('w, 't, 'p, 'u) peer \<Rightarrow> ('w, 't, 'p, 'u) peer \<Rightarrow> bool" for env where
  call_loop: "peer_connection_loop env x = Some (r, y) \<Longrightarrow> peer_call env x y"
| call_audio: "peer_connection_send_audio env b x = Some (r, y) \<Longrightarrow> peer_call env x y"
| call_video: "peer_connection_send_video env b x = Some (r, y) \<Longrightarrow> peer_call env x y"
| call_video_ts: "peer_connection_send_video_ts env b ts x = Some (r, y) \<Longrightarrow> peer_call env x y"
| call_send: "peer_connection_datachannel_send_sid env b n sid x = Some (r, y) \<Longrightarrow> peer_call env x y"
| call_channel: "peer_connection_create_datachannel_sid env ty prio rel l p sid x = Some (r, y) \<Longrightarrow> peer_call env x y"
| call_offer: "peer_connection_create_offer env x = Some (s, y) \<Longrightarrow> peer_call env x y"
| call_answer: "peer_connection_create_answer env x = Some (s, y) \<Longrightarrow> peer_call env x y"
| call_remote: "peer_connection_set_remote_description env b sty x = Some y \<Longrightarrow> peer_call env x y"
| call_candidate: "peer_connection_add_ice_candidate env b x = Some (r, y) \<Longrightarrow> peer_call env x y"
| call_onicecandidate: "peer_call env (pc, pw) (peer_connection_onicecandidate pc f, pw)"
| call_onstatechange: "peer_call env (pc, pw) (peer_connection_oniceconnectionstatechange pc f, pw)"
| call_on_connected: "peer_call env (pc, pw) (peer_connection_on_connected pc f, pw)"
| call_on_loss: "peer_call env (pc, pw) (peer_connection_on_receiver_packet_loss pc f, pw)"
| call_ondatachannel: "peer_connection_ondatachannel (Some pc) f g h = Some pc' \<Longrightarrow> peer_call env (pc, pw) (pc', pw)"

section \<open>Frames\<close>

fun reports :: "PeerEvent list \<Rightarrow> PeerConnectionState list" where
  "reports [] = []"
| "reports (StateChanged s # es) = s # reports es"
| "reports (e # es) = reports es"

lemma reports_append [simp]: "reports (es @ fs) = reports es @ reports fs"
  by (induction es rule: reports.induct) auto

definition quiet :: "('w, 't, 'p, 'u) peer \<Rightarrow> ('w, 't, 'p, 'u) peer \<Rightarrow> bool" where
  "quiet x y \<longleftrightarrow> pc_state (fst y) = pc_state (fst x) \<and> reports (events (snd y)) = reports (events (snd x)) \<and>
     has_onstatechange (fst y) = has_onstatechange (fst x)"

lemma quiet_refl [simp]: "quiet x x"
  by (simp add: quiet_def)

lemma quiet_trans: "quiet x y \<Longrightarrow> quiet y z \<Longrightarrow> quiet x z"
  by (simp add: quiet_def)

lemma reports_map [simp]: "\<forall>x. reports [f x] = [] \<Longrightarrow> reports (map f xs) = []"
proof (induction xs)
  case (Cons x xs)
  have "reports (f x # map f xs) = reports [f x] @ reports (map f xs)"
    using reports_append [of "[f x]" "map f xs"] by simp
  then show ?case using Cons by simp
qed simp

lemma quiet_world [simp]: "quiet (pc, pw\<lparr>world := w\<rparr>) y = quiet (pc, pw) y" "quiet x (pc, pw\<lparr>world := w\<rparr>) = quiet x (pc, pw)"
  "quiet (pc, pw\<lparr>stack_state := u\<rparr>) y = quiet (pc, pw) y" "quiet x (pc, pw\<lparr>stack_state := u\<rparr>) = quiet x (pc, pw)"
  "quiet (pc, pw\<lparr>rtp_statics := r\<rparr>) y = quiet (pc, pw) y" "quiet x (pc, pw\<lparr>rtp_statics := r\<rparr>) = quiet x (pc, pw)"
  by (simp_all add: quiet_def)

lemma quiet_object [simp]:
  "quiet x (pc\<lparr>agent := a\<rparr>, pw) = quiet x (pc, pw)" "quiet (pc\<lparr>agent := a\<rparr>, pw) x = quiet (pc, pw) x"
  "quiet x (pc\<lparr>dtls_srtp := d\<rparr>, pw) = quiet x (pc, pw)" "quiet (pc\<lparr>dtls_srtp := d\<rparr>, pw) x = quiet (pc, pw) x"
  "quiet x (pc\<lparr>sctp := s\<rparr>, pw) = quiet x (pc, pw)" "quiet (pc\<lparr>sctp := s\<rparr>, pw) x = quiet (pc, pw) x"
  "quiet x (pc\<lparr>agent_buf := b\<rparr>, pw) = quiet x (pc, pw)" "quiet (pc\<lparr>agent_buf := b\<rparr>, pw) x = quiet (pc, pw) x"
  "quiet x (pc\<lparr>temp_buf := b\<rparr>, pw) = quiet x (pc, pw)" "quiet (pc\<lparr>temp_buf := b\<rparr>, pw) x = quiet (pc, pw) x"
  "quiet x (pc\<lparr>agent_ret := r\<rparr>, pw) = quiet x (pc, pw)" "quiet (pc\<lparr>agent_ret := r\<rparr>, pw) x = quiet (pc, pw) x"
  "quiet x (pc\<lparr>consent_request_time := ct\<rparr>, pw) = quiet x (pc, pw)" "quiet (pc\<lparr>consent_request_time := ct\<rparr>, pw) x = quiet (pc, pw) x"
  "quiet x (pc\<lparr>artp_encoder := e\<rparr>, pw) = quiet x (pc, pw)" "quiet (pc\<lparr>artp_encoder := e\<rparr>, pw) x = quiet (pc, pw) x"
  "quiet x (pc\<lparr>vrtp_encoder := e\<rparr>, pw) = quiet x (pc, pw)" "quiet (pc\<lparr>vrtp_encoder := e\<rparr>, pw) x = quiet (pc, pw) x"
  "quiet x (pc\<lparr>remote_assrc := i\<rparr>, pw) = quiet x (pc, pw)" "quiet (pc\<lparr>remote_assrc := i\<rparr>, pw) x = quiet (pc, pw) x"
  "quiet x (pc\<lparr>remote_vssrc := i\<rparr>, pw) = quiet x (pc, pw)" "quiet (pc\<lparr>remote_vssrc := i\<rparr>, pw) x = quiet (pc, pw) x"
  "quiet x (pc\<lparr>sdp := t\<rparr>, pw) = quiet x (pc, pw)" "quiet (pc\<lparr>sdp := t\<rparr>, pw) x = quiet (pc, pw) x"
  "quiet x (pc\<lparr>b_local_description_created := l\<rparr>, pw) = quiet x (pc, pw)"
  "quiet (pc\<lparr>b_local_description_created := l\<rparr>, pw) x = quiet (pc, pw) x"
  by (simp_all add: quiet_def)

lemma quiet_log [simp]: "reports es = [] \<Longrightarrow> quiet x (pc, peer_log es pw) = quiet x (pc, pw)"
  by (simp add: quiet_def peer_log_def)

section \<open>Quiet operations\<close>

lemma sctp_event_quiet: "sctp_event env e x = Some y \<Longrightarrow> quiet x y"
  by (induction env e x rule: sctp_event.induct) (auto simp: Option.bind_eq_Some_conv)

lemma sctp_events_quiet: "sctp_events env es x = Some y \<Longrightarrow> quiet x y"
proof (induction es arbitrary: x)
  case (Cons e es)
  then show ?case by (auto simp: Option.bind_eq_Some_conv intro: quiet_trans [OF sctp_event_quiet])
qed simp

lemma outgoing_packets_quiet: "outgoing_packets env ps x = Some y \<Longrightarrow> quiet x y"
proof (induction ps arbitrary: x)
  case (Cons p ps)
  have "quiet x z" if "peer_connection_outgoing_rtp_packet env p x = Some z" for z
    using that by (auto simp: peer_connection_outgoing_rtp_packet_def Option.bind_eq_Some_conv split: prod.splits)
  then show ?case using Cons by (auto simp: Option.bind_eq_Some_conv intro: quiet_trans)
qed simp

lemma send_media_quiet:
  "peer_connection_send_audio env b x = Some (r, y) \<Longrightarrow> quiet x y"
  "peer_connection_send_video env b x = Some (r, y) \<Longrightarrow> quiet x y"
  "peer_connection_send_video_ts env b ts x = Some (r, y) \<Longrightarrow> quiet x y"
  by (auto simp: peer_connection_send_audio_def peer_connection_send_video_def peer_connection_send_video_ts_def
      Option.bind_eq_Some_conv split: prod.splits if_splits dest!: outgoing_packets_quiet)

lemma sctp_send_quiet: "sctp_send env m n p sid x = Some (r, y) \<Longrightarrow> quiet x y"
  by (auto simp: sctp_send_def Option.bind_eq_Some_conv split: prod.splits dest!: sctp_events_quiet)

lemma datachannel_quiet:
  "peer_connection_datachannel_send_sid env m n sid x = Some (r, y) \<Longrightarrow> quiet x y"
  "peer_connection_create_datachannel_sid env ty prio rel l p sid x = Some (r, y) \<Longrightarrow> quiet x y"
  by (auto simp: peer_connection_datachannel_send_sid_def peer_connection_create_datachannel_sid_def Let_def
      split: if_splits dest: sctp_send_quiet)

lemma add_candidate_quiet: "peer_connection_add_ice_candidate env b x = Some (r, y) \<Longrightarrow> quiet x y"
  by (auto simp: peer_connection_add_ice_candidate_def Option.bind_eq_Some_conv Let_def split: prod.splits if_splits)

lemma create_sdp_quiet: "peer_connection_create_sdp env ty x = Some y \<Longrightarrow> quiet x y"
  by (cases x) (auto simp: peer_connection_create_sdp_def Option.bind_eq_Some_conv Let_def split: prod.splits if_splits)

lemma set_remote_ssrc_quiet [simp]: "quiet x (set_remote_ssrc t l pc, pw) = quiet x (pc, pw)"
  by (simp add: set_remote_ssrc_def split: option.split SsrcTarget.split)

lemma remote_line_quiet:
  assumes "remote_description_line l (pc, sc) = Some (pc', sc')"
  shows "quiet (pc, pw) (pc', pw)"
proof -
  obtain t d where "pc' = set_remote_ssrc t l pc \<or> pc' = set_remote_ssrc t l (pc\<lparr>dtls_srtp := d\<rparr>)"
    using assms unfolding remote_description_line_def Let_def prod.case
    by (auto simp only: Option.bind_eq_Some_conv option.inject prod.inject split: if_splits)
  then show ?thesis by auto
qed

lemma remote_lines_quiet: "remote_description_lines b x = Some y \<Longrightarrow> quiet (fst x, pw) (fst y, pw)"
proof (induction b x arbitrary: y rule: remote_description_lines.induct)
  case (1 start x)
  show ?case
  proof (cases "strstr start CRLF")
    case (Some n)
    then obtain z where z: "remote_description_line (take n start) x = Some z" "remote_description_lines (drop (n + 2) start) z = Some y"
      using "1.prems" by (subst (asm) remote_description_lines.simps) (auto simp: Option.bind_eq_Some_conv)
    have "quiet (fst x, pw) (fst z, pw)" using remote_line_quiet z(1) by (metis prod.collapse)
    then show ?thesis using quiet_trans "1.IH" [OF Some z] by blast
  qed (use "1.prems" in \<open>subst (asm) remote_description_lines.simps, simp\<close>)
qed

lemma rtcp_reports: "peer_connection_incoming_rtcp pc b n k = Some es \<Longrightarrow> reports es = []"
proof (induction pc b n k arbitrary: es rule: peer_connection_incoming_rtcp.induct)
  case (1 pc b n k)
  show ?case
  proof (cases "k < n")
    case True
    then show ?thesis using "1.prems" "1.IH"
      by (subst (asm) peer_connection_incoming_rtcp.simps) (fastforce simp: Option.bind_eq_Some_conv Let_def split: if_splits)
  qed (use "1.prems" in \<open>subst (asm) peer_connection_incoming_rtcp.simps, simp\<close>)
qed

lemma decode_track_quiet:
  assumes "decode_track ev dc b n pw = Some pw'" and "\<And>x. reports [ev x] = []"
  shows "quiet (pc, pw) (pc, pw')"
  using assms by (auto simp: decode_track_def Option.bind_eq_Some_conv)

lemma incoming_quiet:
  "incoming_rtcp env x = Some y \<Longrightarrow> quiet x y" "incoming_dtls env x = Some y \<Longrightarrow> quiet x y"
  "incoming_rtp env x = Some y \<Longrightarrow> quiet x y"
proof -
  show "incoming_rtcp env x = Some y \<Longrightarrow> quiet x y"
    by (cases x) (auto simp: incoming_rtcp_def Option.bind_eq_Some_conv Let_def dest!: rtcp_reports)
  show "incoming_dtls env x = Some y \<Longrightarrow> quiet x y"
    by (cases x) (auto simp: incoming_dtls_def Option.bind_eq_Some_conv Let_def split: if_splits dest!: sctp_events_quiet)
  show "incoming_rtp env x = Some y \<Longrightarrow> quiet x y"
    by (cases x) (auto simp: incoming_rtp_def Option.bind_eq_Some_conv Let_def split: if_splits dest!: decode_track_quiet)
qed

text \<open>What a call of \<^const>\<open>loop_receive\<close> comes down to: nothing to dispatch, or one of three.\<close>

lemma loop_receive_cases:
  assumes "loop_receive env (pc, pw) = Some y"
  obtains r b a w where "y = (pc\<lparr>agent_ret := r, agent_buf := b, agent := a\<rparr>, pw\<lparr>world := w\<rparr>)"
  | r b a w where "incoming_rtcp env (pc\<lparr>agent_ret := r, agent_buf := b, agent := a\<rparr>, pw\<lparr>world := w\<rparr>) = Some y"
  | r b a w where "incoming_dtls env (pc\<lparr>agent_ret := r, agent_buf := b, agent := a\<rparr>, pw\<lparr>world := w\<rparr>) = Some y"
  | r b a w where "incoming_rtp env (pc\<lparr>agent_ret := r, agent_buf := b, agent := a\<rparr>, pw\<lparr>world := w\<rparr>) = Some y"
proof -
  obtain r b a w where rc: "agent_recv (peer_hmac env) (peer_md5 env) (peer_os env) (agent pc) (agent_buf pc)
      (length (agent_buf pc)) (world pw) = Some (r, b, a, w)"
    using assms by (auto simp: loop_receive_def Option.bind_eq_Some_conv)
  obtain now w' where t: "ports_get_epoch_time (peer_os env) w = (now, w')" by (cases "ports_get_epoch_time (peer_os env) w")
  show ?thesis
    using assms rc t that by (auto simp: loop_receive_def Option.bind_eq_Some_conv Let_def split: if_splits)
qed

lemma loop_receive_quiet: "loop_receive env x = Some y \<Longrightarrow> quiet x y"
  by (cases x) (auto elim!: loop_receive_cases dest: incoming_quiet)

lemma loop_consent_quiet: "loop_consent env x = Some y \<Longrightarrow> quiet x y"
  by (cases x) (auto simp: loop_consent_def Option.bind_eq_Some_conv Let_def split: if_splits prod.splits)


section \<open>Transitions\<close>

text \<open>What a call other than close may do to the state.\<close>

fun legal_move :: "PeerConnectionState \<Rightarrow> PeerConnectionState \<Rightarrow> bool" where
  "legal_move s PEER_CONNECTION_CHECKING = (s \<noteq> PEER_CONNECTION_CHECKING)"
| "legal_move s PEER_CONNECTION_FAILED = (s = PEER_CONNECTION_CHECKING)"
| "legal_move s PEER_CONNECTION_CONNECTED = (s = PEER_CONNECTION_CHECKING)"
| "legal_move s PEER_CONNECTION_COMPLETED = (s = PEER_CONNECTION_CONNECTED)"
| "legal_move s PEER_CONNECTION_CLOSED = (s = PEER_CONNECTION_COMPLETED)"
| "legal_move s _ = False"

definition moves :: "('w, 't, 'p, 'u) peer \<Rightarrow> ('w, 't, 'p, 'u) peer \<Rightarrow> bool" where
  "moves x y \<longleftrightarrow> has_onstatechange (fst x) \<and> legal_move (pc_state (fst x)) (pc_state (fst y)) \<and>
     reports (events (snd y)) = reports (events (snd x)) @ [pc_state (fst y)]"

lemma state_changed_moves:
  "quiet x z \<Longrightarrow> pc_state (fst x) = ns \<or> legal_move (pc_state (fst x)) ns \<Longrightarrow>
   quiet x (STATE_CHANGED ns z) \<or> moves x (STATE_CHANGED ns z)"
  by (cases z) (auto simp: STATE_CHANGED_def quiet_def moves_def peer_log_def)

lemma loop_checking_moves:
  assumes "loop_checking env x = Some y" and "pc_state (fst x) = PEER_CONNECTION_CHECKING"
  shows "quiet x y \<or> moves x y"
proof -
  obtain pc pw where x: "x = (pc, pw)" by (cases x)
  obtain r a where a: "agent_select_candidate_pair (agent pc) = Some (r, a)"
    using assms(1) x by (auto simp: loop_checking_def Option.bind_eq_Some_conv)
  have q: "quiet x (pc\<lparr>agent := a'\<rparr>, pw\<lparr>world := w\<rparr>)" "quiet x (pc\<lparr>agent := a'\<rparr>, pw)" for a' w by (simp_all add: x)
  note m = state_changed_moves [OF q(1), of PEER_CONNECTION_CONNECTED] state_changed_moves [OF q(2), of PEER_CONNECTION_FAILED]
  show ?thesis
    using assms(1) a m assms(2) q by (auto simp: x loop_checking_def Option.bind_eq_Some_conv Let_def split: if_splits)
qed

lemma loop_connected_cases:
  assumes "loop_connected env (pc, pw) = Some y"
  obtains r d a w where "y = (pc\<lparr>dtls_srtp := d, agent := a\<rparr>, pw\<lparr>world := w\<rparr>)"
  | d a w z s u evs where "y = STATE_CHANGED PEER_CONNECTION_COMPLETED z"
      "dtls_srtp_handshake (peer_tls env) (peer_bio env pc) (dtls_srtp pc) (agent pc, world pw) = Some (0, d, a, w)"
      "sctp_events env evs (pc\<lparr>dtls_srtp := d, agent := a, sctp := s\<rparr>, pw\<lparr>world := w, stack_state := u\<rparr>) = Some z"
proof -
  obtain r d a w where h: "dtls_srtp_handshake (peer_tls env) (peer_bio env pc) (dtls_srtp pc) (agent pc, world pw) = Some (r, d, a, w)"
    using assms by (auto simp: loop_connected_def Option.bind_eq_Some_conv)
  let ?pc = "pc\<lparr>dtls_srtp := d, agent := a\<rparr>"
  have e: "sctp_events env [] (?pc\<lparr>sctp := sctp pc\<rparr>, pw\<lparr>world := w, stack_state := stack_state pw\<rparr>) = Some (?pc, pw\<lparr>world := w\<rparr>)"
    by simp
  consider "r \<noteq> 0" | "r = 0" "datachannel (config pc) = DATA_CHANNEL_NONE" | "r = 0" "datachannel (config pc) \<noteq> DATA_CHANNEL_NONE"
    by blast
  then show ?thesis
  proof cases
    case 1
    then show ?thesis using assms h that(1) by (auto simp: loop_connected_def)
  next
    case 2
    then show ?thesis using assms h that(2) [OF _ _ e] by (auto simp: loop_connected_def)
  next
    case 3
    then obtain q s evs u z where
      "sctp_events env evs (?pc\<lparr>sctp := s\<rparr>, pw\<lparr>world := w, stack_state := u\<rparr>) = Some z"
      "y = STATE_CHANGED PEER_CONNECTION_COMPLETED z"
      using assms h by (auto simp: loop_connected_def Option.bind_eq_Some_conv)
    then show ?thesis using that(2) h 3(1) by blast
  qed
qed

lemma loop_connected_moves:
  assumes "loop_connected env x = Some y" and "pc_state (fst x) = PEER_CONNECTION_CONNECTED"
  shows "quiet x y \<or> moves x y"
proof -
  obtain pc pw where x: "x = (pc, pw)" by (cases x)
  from assms(1) [unfolded x] show ?thesis
  proof (cases rule: loop_connected_cases)
    case (2 d a w z s u evs)
    then have "quiet x z" using sctp_events_quiet [OF 2(3)] by (simp add: x)
    then show ?thesis using state_changed_moves [of x z PEER_CONNECTION_COMPLETED] assms(2) 2(1) by simp
  qed (simp add: x)
qed

lemma loop_completed_moves:
  assumes "loop_completed env x = Some y" and "pc_state (fst x) = PEER_CONNECTION_COMPLETED"
  shows "quiet x y \<or> moves x y"
proof -
  obtain u v where uv: "loop_consent env x = Some u" "loop_receive env u = Some v" "y = loop_keepalive env v"
    using assms(1) by (auto simp: loop_completed_def Option.bind_eq_Some_conv)
  have q: "quiet x v" using loop_consent_quiet [OF uv(1)] loop_receive_quiet [OF uv(2)] by (rule quiet_trans)
  obtain w where "y \<in> {(fst v, snd v\<lparr>world := w\<rparr>), STATE_CHANGED PEER_CONNECTION_CLOSED (fst v, snd v\<lparr>world := w\<rparr>)}"
    using uv(3) by (cases v) (auto simp: loop_keepalive_def Let_def split: prod.splits if_splits)
  moreover have "quiet x (fst v, snd v\<lparr>world := w\<rparr>)" using q by simp
  ultimately show ?thesis using state_changed_moves [of x "(fst v, snd v\<lparr>world := w\<rparr>)" PEER_CONNECTION_CLOSED] assms(2) by auto
qed

lemma loop_moves: "peer_connection_loop env x = Some (r, y) \<Longrightarrow> quiet x y \<or> moves x y"
proof -
  assume l: "peer_connection_loop env x = Some (r, y)"
  let ?x = "((fst x)\<lparr>agent_buf := replicate (length (agent_buf (fst x))) 0, agent_ret := -1\<rparr>, snd x)"
  have q: "quiet x ?x" by (simp add: quiet_def)
  have "quiet ?x y \<or> moves ?x y"
    using l loop_checking_moves [of env ?x y] loop_connected_moves [of env ?x y] loop_completed_moves [of env ?x y]
    by (cases x; cases "pc_state (fst x)") (auto simp: peer_connection_loop_def Option.bind_eq_Some_conv Let_def)
  then show ?thesis using q by (auto simp: quiet_def moves_def)
qed

text \<open>A setter of the state callback is neither; it keeps the state and reports nothing.\<close>

lemma call_moves:
  assumes "peer_call env x y"
  shows "pc_state (fst y) = pc_state (fst x) \<and> reports (events (snd y)) = reports (events (snd x)) \<or> moves x y"
  using assms
proof cases
  case (call_loop r)
  then show ?thesis using loop_moves [OF call_loop] by (auto simp: quiet_def)
next
  case (call_answer s)
  then obtain pc pw a where s: "peer_connection_create_sdp env SDP_TYPE_ANSWER x = Some (pc, pw)"
    "y = STATE_CHANGED PEER_CONNECTION_CHECKING (pc\<lparr>agent := a\<rparr>, pw)"
    by (auto simp: peer_connection_create_answer_def Option.bind_eq_Some_conv)
  have "quiet x (pc\<lparr>agent := a\<rparr>, pw)" using create_sdp_quiet [OF s(1)] by simp
  then show ?thesis using state_changed_moves [of x _ PEER_CONNECTION_CHECKING] s(2) by (fastforce simp: quiet_def)
next
  case (call_remote b sty)
  then obtain pc pw where x: "x = (pc, pw)" by (cases x)
  obtain pc1 sc where l: "remote_description_lines b (pc, remote_scan0) = Some (pc1, sc)"
    using call_remote x by (auto simp: peer_connection_set_remote_description_def Option.bind_eq_Some_conv)
  have q: "quiet x (pc1, pw)" using remote_lines_quiet [OF l] x by simp
  obtain z where z: "quiet x z" "y \<in> {z, STATE_CHANGED PEER_CONNECTION_CHECKING z}"
  proof (cases "scan_update sc")
    case False
    obtain a w where "y \<in> {(pc1\<lparr>agent := a\<rparr>, pw\<lparr>world := w\<rparr>), STATE_CHANGED PEER_CONNECTION_CHECKING (pc1\<lparr>agent := a\<rparr>, pw\<lparr>world := w\<rparr>)}"
      using call_remote x l False
      by (fastforce simp: peer_connection_set_remote_description_def Option.bind_eq_Some_conv Let_def split: if_splits)
    then show ?thesis using q that [of "(pc1\<lparr>agent := a\<rparr>, pw\<lparr>world := w\<rparr>)"] by simp
  qed (use call_remote x l q that in \<open>auto simp: peer_connection_set_remote_description_def\<close>)
  then show ?thesis using state_changed_moves [of x z PEER_CONNECTION_CHECKING] by (fastforce simp: quiet_def)
qed (auto dest!: send_media_quiet datachannel_quiet create_sdp_quiet add_candidate_quiet
    simp: quiet_def peer_connection_create_offer_def Option.bind_eq_Some_conv peer_connection_onicecandidate_def
      peer_connection_oniceconnectionstatechange_def peer_connection_on_connected_def
      peer_connection_on_receiver_packet_loss_def peer_connection_ondatachannel_def)

section \<open>Paths\<close>

fun state_path :: "PeerConnectionState \<Rightarrow> PeerConnectionState list \<Rightarrow> PeerConnectionState \<Rightarrow> bool" where
  "state_path s [] t \<longleftrightarrow> s = t"
| "state_path s (r # rs) t \<longleftrightarrow> legal_move s r \<and> state_path r rs t"

lemma state_path_snoc: "state_path s (rs @ [r]) t \<longleftrightarrow> t = r \<and> (\<exists>u. state_path s rs u \<and> legal_move u r)"
  by (induction rs arbitrary: s) auto

lemma legal_target: "legal_move s t \<Longrightarrow> t \<noteq> PEER_CONNECTION_NEW \<and> t \<noteq> PEER_CONNECTION_DISCONNECTED"
  by (cases t) auto

lemma state_path_target:
  "state_path s rs t \<Longrightarrow> t = s \<or> t \<noteq> PEER_CONNECTION_NEW \<and> t \<noteq> PEER_CONNECTION_DISCONNECTED"
  using legal_target by (induction rs arbitrary: s) auto

lemma calls_path:
  assumes "(peer_call env)\<^sup>*\<^sup>* x y" and "reports (events (snd x)) = []"
  shows "state_path (pc_state (fst x)) (reports (events (snd y))) (pc_state (fst y))"
  using assms
proof (induction rule: rtranclp_induct)
  case (step y z)
  then show ?case using call_moves [OF step(2)] by (auto simp: moves_def state_path_snoc)
qed simp

lemma create_closed:
  assumes "peer_connection_create env cfg (Some mem) pw0 = Some (Some pc, pw)"
  shows "pc_state pc = pc_state mem \<and> events pw = events pw0"
proof -
  obtain r a w where "agent_create (peer_os env) (agent mem) (world pw0) = Some (r, a, w)"
    using assms by (auto simp: peer_connection_create_def Option.bind_eq_Some_conv)
  then show ?thesis using assms
    by (cases "audio_codec cfg = CODEC_NONE"; cases "video_codec cfg = CODEC_NONE")
      (auto simp: peer_connection_create_def)
qed

text \<open>C5: From a created connection on, as long as the application does not call close, the states it is
  told of are, in order, a path of legal transitions from the initial state to the current one: no
  transition is missed or reported twice, checking leads to connected or failed only, completed is
  entered from connected only, and the states new and disconnected never occur.\<close>

theorem reported_states_path:
  assumes "peer_connection_create env cfg (Some mem) pw0 = Some (Some pc, pw)"
    and "pc_state mem = PEER_CONNECTION_CLOSED" and "events pw0 = []"
    and "(peer_call env)\<^sup>*\<^sup>* (pc, pw) (pc', pw')"
  shows "state_path PEER_CONNECTION_CLOSED (reports (events pw')) (peer_connection_get_state pc') \<and>
    peer_connection_get_state pc' \<noteq> PEER_CONNECTION_NEW \<and> peer_connection_get_state pc' \<noteq> PEER_CONNECTION_DISCONNECTED"
proof -
  have "state_path PEER_CONNECTION_CLOSED (reports (events pw')) (pc_state pc')"
    using calls_path [OF assms(4)] create_closed [OF assms(1)] assms(2,3) by simp
  then show ?thesis using state_path_target by (fastforce simp: peer_connection_get_state_def)
qed

text \<open>An environment where everything succeeds and nothing arrives, and a cleared object.\<close>

definition example_env :: "(unit, unit, bytes, u16) PeerEnv" where
  "example_env = \<lparr>peer_os = silent_os, peer_hmac = \<lambda>k d. replicate 20 0, peer_md5 = id, peer_rnd = \<lambda>s k. 0,
     peer_ntop6 = id, peer_pton6 = \<lambda>_. None, peer_mdns = \<lambda>b a w. Some (-1, a, w),
     peer_tls = \<lparr>tls_new = tls_new example_tls, tls_session_reset = tls_session_reset example_tls,
       tls_handshake = \<lambda>_ t s. Some (0, [], t, s), tls_read = \<lambda>_ n t s. Some (0, [], t, s),
       tls_write = \<lambda>_ b t s. Some (int (length b), t, s), tls_peer_cert = tls_peer_cert example_tls,
       tls_prf = tls_prf example_tls, tls_sha256 = tls_sha256 example_tls, srtp_create = srtp_create example_tls,
       srtp_unprotect = srtp_unprotect example_tls, srtp_unprotect_rtcp = srtp_unprotect_rtcp example_tls,
       srtp_protect = srtp_protect example_tls, srtp_protect_rtcp = srtp_protect_rtcp example_tls\<rparr>,
     peer_stack = builtin_stack, peer_cb = \<lambda>_ b. b, peer_selfsign = \<lambda>w. ([1], w)\<rparr>"

definition example_mem :: "(unit, bytes) PeerConnection" where
  "example_mem = \<lparr>config = \<lparr>ice_servers = replicate 5 None, audio_codec = CODEC_NONE, video_codec = CODEC_NONE,
       datachannel = DATA_CHANNEL_STRING, has_onaudiotrack = True, has_onvideotrack = True, has_on_request_keyframe = True,
       dtls_offer_active = False\<rparr>,
     pc_state = PEER_CONNECTION_CLOSED, agent = example_agent\<lparr>local_candidates_count := 0, remote_candidates_count := 0\<rparr>,
     dtls_srtp = example_dtls, sctp = sctp_zero, sdp = replicate CONFIG_SDP_BUFFER_SIZE 0,
     has_onicecandidate = False, has_onstatechange = False, has_on_connected = False, has_on_receiver_packet_loss = False,
     temp_buf = replicate 2048 0, agent_buf = replicate 2048 0, agent_ret = 0, b_local_description_created = False,
     artp_encoder = example_encoder PT_OPUS EncodeGeneric, vrtp_encoder = example_encoder PT_H264 EncodeH264,
     vrtp_decoder = \<lparr>has_on_packet = True, decode_func = Some DecodeH264\<rparr>,
     artp_decoder = \<lparr>has_on_packet = True, decode_func = Some DecodeGeneric\<rparr>,
     remote_assrc = 0, remote_vssrc = 0, consent_request_time = 0\<rparr>"

definition example_world :: "(unit, u16) PeerWorld" where
  "example_world = \<lparr>world = (), stack_state = 0, rtp_statics = rtp_statics_init, events = []\<rparr>"

text \<open>An application that creates a connection, asks to be told of its states and gets an answer.\<close>

lemma example_create:
  obtains pc pw where "peer_connection_create example_env (config example_mem) (Some example_mem) example_world = Some (Some pc, pw)"
    "local_candidates_count (agent pc) = 0" "pc_state pc = PEER_CONNECTION_CLOSED" "events pw = []"
proof -
  obtain ret sock w where o: "udp_socket_open silent_os \<lparr>fd = 3, bind_addr = addr_zero\<rparr> AF_INET 0 () = (ret, sock, w)"
    by (metis prod_cases3)
  have c: "\<exists>a w. agent_create silent_os (agent example_mem) () = Some (ret, a, w) \<and> local_candidates_count a = 0" if "ret < 0"
    using o that by (simp add: agent_create_def example_mem_def example_agent_def mem_get_def Let_def)
  have d: "\<exists>a w. agent_create silent_os (agent example_mem) () = Some (0, a, w) \<and> local_candidates_count a = 0" if "\<not> ret < 0"
    using o that by (simp add: agent_create_def example_mem_def example_agent_def mem_get_def Let_def agent_clear_candidates_def)
  obtain r a w where "agent_create silent_os (agent example_mem) () = Some (r, a, w)" "local_candidates_count a = 0"
    using c d by blast
  then show ?thesis using that by (simp add: peer_connection_create_def example_env_def example_mem_def example_world_def)
qed

lemma reported_states_path_witness:
  "\<exists>pc pw pc' pw'. peer_connection_create example_env (config example_mem) (Some example_mem) example_world = Some (Some pc, pw) \<and>
    (peer_call example_env)\<^sup>*\<^sup>* (pc, pw) (pc', pw') \<and> peer_connection_get_state pc' = PEER_CONNECTION_CHECKING \<and>
    state_path PEER_CONNECTION_CLOSED (reports (events pw')) PEER_CONNECTION_CHECKING"
proof -
  obtain pc pw where c: "peer_connection_create example_env (config example_mem) (Some example_mem) example_world = Some (Some pc, pw)"
    and a: "local_candidates_count (agent pc) = 0" "pc_state pc = PEER_CONNECTION_CLOSED" "events pw = []"
    by (rule example_create)
  let ?y = "(pc\<lparr>has_onstatechange := True, pc_state := PEER_CONNECTION_CHECKING\<rparr>, pw\<lparr>events := [StateChanged PEER_CONNECTION_CHECKING]\<rparr>)"
  have "peer_connection_set_remote_description example_env [] SDP_TYPE_ANSWER
      (peer_connection_oniceconnectionstatechange pc True, pw) = Some ?y"
    using a by (simp add: peer_connection_set_remote_description_def remote_description_lines.simps remote_scan0_def
        agent_set_remote_description.simps agent_update_candidate_pairs_def STATE_CHANGED_def peer_log_def
        peer_connection_oniceconnectionstatechange_def CRLF_def)
  then have r: "(peer_call example_env)\<^sup>*\<^sup>* (pc, pw) ?y"
    using call_onstatechange call_remote by (metis converse_rtranclp_into_rtranclp r_into_rtranclp)
  have "pc_state example_mem = PEER_CONNECTION_CLOSED" "events example_world = []"
    by (simp_all add: example_mem_def example_world_def)
  from reported_states_path [OF c this r] have p: "state_path PEER_CONNECTION_CLOSED (reports (events (snd ?y))) PEER_CONNECTION_CHECKING"
    by (simp add: peer_connection_get_state_def)
  have g: "peer_connection_get_state (fst ?y) = PEER_CONNECTION_CHECKING" by (simp add: peer_connection_get_state_def)
  show ?thesis using c r p g unfolding fst_conv snd_conv by blast
qed

end
