(* ===== verification/Peer_Safety.thy ===== *)
theory Peer_Safety
  imports Peer_Machine Agent_Handshake
begin

text \<open>
  What the peer connection guarantees and what it does not: whom it is connected to, which packets reach
  the application, when a silent peer is given up, what key frame requests and data channel messages do.
\<close>

section \<open>Whom a completed connection talks to\<close>

text \<open>Documented of mbedTLS: sending application data leaves the certificate of the peer.\<close>

definition keeps_cert :: "('t, 'p, 's) Tls \<Rightarrow> bool" where
  "keeps_cert tls \<longleftrightarrow> (\<forall>bio b t s r t' s'. tls_write tls bio b t s = Some (r, t', s') \<longrightarrow> tls_peer_cert tls t' = tls_peer_cert tls t)"

lemma authenticated_ssl:
  assumes "authenticated tls d" and "ssl d = Some t" and "tls_peer_cert tls t' = tls_peer_cert tls t"
  shows "authenticated tls (d\<lparr>ssl := Some t'\<rparr>)"
  using assms by (auto simp: authenticated_def)

lemma write_authenticated:
  assumes "dtls_srtp_write tls bio b d s = Some y"
  shows "keeps_cert tls \<longrightarrow> authenticated tls d \<longrightarrow> authenticated tls (fst (snd y))"
  using assms
proof (rule dtls_srtp_write.raw_induct [rotated, where P = "\<lambda>tls bio b d s y. keeps_cert tls \<longrightarrow> authenticated tls d \<longrightarrow> authenticated tls (fst (snd y))"])
  fix f tls bio b d s y
  assume ih: "\<And>tls bio b d s y. f tls bio b d s = Some y \<Longrightarrow> keeps_cert tls \<longrightarrow> authenticated tls d \<longrightarrow> authenticated tls (fst (snd y))"
    and st: "do {
     t \<leftarrow> ssl d;
     (ret, t, s) \<leftarrow> tls_write tls bio b t s;
     let d = d\<lparr>ssl := Some t\<rparr>;
     (if want_io ret then f tls bio b d s else Some (ret, d, s))
   } = Some y"
  then obtain t ret t' s' where w: "ssl d = Some t" "tls_write tls bio b t s = Some (ret, t', s')"
    "(if want_io ret then f tls bio b (d\<lparr>ssl := Some t'\<rparr>) s' else Some (ret, d\<lparr>ssl := Some t'\<rparr>, s')) = Some y"
    by (auto simp: Option.bind_eq_Some_conv Let_def)
  show "keeps_cert tls \<longrightarrow> authenticated tls d \<longrightarrow> authenticated tls (fst (snd y))"
  proof (intro impI)
    assume "keeps_cert tls" "authenticated tls d"
    then have "authenticated tls (d\<lparr>ssl := Some t'\<rparr>)" using authenticated_ssl w(1,2) by (fastforce simp: keeps_cert_def)
    then show "authenticated tls (fst (snd y))" using w(3) ih \<open>keeps_cert tls\<close> by (fastforce split: if_splits)
  qed
qed

lemma sctp_events_authenticated:
  assumes "sctp_events env es x = Some y" and "keeps_cert (peer_tls env)" and "authenticated (peer_tls env) (dtls_srtp (fst x))"
  shows "authenticated (peer_tls env) (dtls_srtp (fst y))"
  using assms
proof (induction es arbitrary: x)
  case (Cons e es)
  obtain z where z: "sctp_event env e x = Some z" "sctp_events env es z = Some y"
    using Cons.prems(1) by (auto simp: Option.bind_eq_Some_conv)
  have "authenticated (peer_tls env) (dtls_srtp (fst z))"
    using z(1) Cons.prems(2,3) write_authenticated
    by (cases e; cases x) (fastforce simp: Option.bind_eq_Some_conv)+
  then show ?case using Cons.IH z(2) Cons.prems(2) by blast
qed simp

text \<open>Only the loop enters a state other than checking.\<close>

lemma STATE_CHANGED_state: "pc_state (fst (STATE_CHANGED s x)) \<in> {s, pc_state (fst x)}"
  by (cases x) (simp add: STATE_CHANGED_def)

lemma answer_state:
  assumes "peer_connection_create_answer env x = Some (t, y)"
  shows "pc_state (fst y) \<in> {PEER_CONNECTION_CHECKING, pc_state (fst x)}"
proof -
  obtain pc pw a where s: "peer_connection_create_sdp env SDP_TYPE_ANSWER x = Some (pc, pw)"
    "y = STATE_CHANGED PEER_CONNECTION_CHECKING (pc\<lparr>agent := a\<rparr>, pw)"
    using assms by (auto simp: peer_connection_create_answer_def Option.bind_eq_Some_conv)
  then show ?thesis using create_sdp_quiet [OF s(1)] STATE_CHANGED_state [of PEER_CONNECTION_CHECKING "(pc\<lparr>agent := a\<rparr>, pw)"]
    by (auto simp: quiet_def)
qed

lemma remote_description_state:
  assumes "peer_connection_set_remote_description env b sty x = Some y"
  shows "pc_state (fst y) \<in> {PEER_CONNECTION_CHECKING, pc_state (fst x)}"
proof -
  obtain pc pw where x: "x = (pc, pw)" by (cases x)
  obtain pc1 sc where l: "remote_description_lines b (pc, remote_scan0) = Some (pc1, sc)"
    using assms x by (auto simp: peer_connection_set_remote_description_def Option.bind_eq_Some_conv)
  have q: "pc_state pc1 = pc_state pc" using remote_lines_quiet [OF l, of pw] by (simp add: quiet_def)
  have "pc_state (fst (STATE_CHANGED PEER_CONNECTION_CHECKING (pc1\<lparr>agent := a\<rparr>, pw'))) \<in> {PEER_CONNECTION_CHECKING, pc_state pc}" for a pw'
    using STATE_CHANGED_state [of PEER_CONNECTION_CHECKING "(pc1\<lparr>agent := a\<rparr>, pw')"] q by auto
  then show ?thesis using assms l q
    by (auto simp: x peer_connection_set_remote_description_def Option.bind_eq_Some_conv Let_def split: if_splits)
qed

lemma entered_by_loop:
  assumes "peer_call env x y" and "pc_state (fst y) \<noteq> pc_state (fst x)" and "pc_state (fst y) \<noteq> PEER_CONNECTION_CHECKING"
  shows "\<exists>r. peer_connection_loop env x = Some (r, y)"
  using assms
proof cases
  case (call_answer s)
  then show ?thesis using answer_state assms(2,3) by fastforce
next
  case (call_remote b sty)
  then show ?thesis using remote_description_state assms(2,3) by fastforce
qed (use assms(2) in \<open>auto dest!: send_media_quiet datachannel_quiet create_sdp_quiet add_candidate_quiet
    simp: quiet_def peer_connection_create_offer_def Option.bind_eq_Some_conv peer_connection_onicecandidate_def
      peer_connection_oniceconnectionstatechange_def peer_connection_on_connected_def
      peer_connection_on_receiver_packet_loss_def peer_connection_ondatachannel_def\<close>)

text \<open>C1: Whatever the application calls and the network delivers, a connection becomes completed only when
  the DTLS library has a certificate of the peer whose SHA-256 fingerprint is the one the remote
  description set: the state the application waits for before it sends media implies that the
  peer is the announced one.\<close>

theorem completed_is_authenticated:
  assumes "peer_call env x y" and "peer_connection_get_state (fst y) = PEER_CONNECTION_COMPLETED"
    and "peer_connection_get_state (fst x) \<noteq> PEER_CONNECTION_COMPLETED"
    and "keeps_cert (peer_tls env)" and "\<And>raw. length (tls_sha256 (peer_tls env) raw) = 32"
    and "length (actual_remote_fingerprint (dtls_srtp (fst x))) = DTLS_SRTP_FINGERPRINT_LENGTH"
  shows "authenticated (peer_tls env) (dtls_srtp (fst y))"
proof -
  note gs = assms(2,3) [unfolded peer_connection_get_state_def]
  obtain r where l: "peer_connection_loop env x = Some (r, y)" using entered_by_loop [OF assms(1)] gs by auto
  have s: "pc_state (fst x) = PEER_CONNECTION_CONNECTED" using call_moves [OF assms(1)] gs by (auto simp: moves_def)
  obtain pc pw where x: "x = (pc, pw)" by (cases x)
  let ?pc = "pc\<lparr>agent_buf := replicate (length (agent_buf pc)) 0, agent_ret := -1\<rparr>"
  have c: "loop_connected env (?pc, pw) = Some y" using l s
    by (auto simp: x peer_connection_loop_def Option.bind_eq_Some_conv)
  then show ?thesis
  proof (cases rule: loop_connected_cases)
    case (2 d a w z s u evs)
    have "authenticated (peer_tls env) d" using handshake_zero [OF 2(2) assms(5)] assms(6) by (simp add: x)
    then have "authenticated (peer_tls env) (dtls_srtp (fst z))"
      using sctp_events_authenticated [OF 2(3) assms(4)] by simp
    then show ?thesis using 2(1) by (cases z) (auto simp: STATE_CHANGED_def)
  qed (use gs s x in simp)
qed

text \<open>A connected object whose handshake succeeds.\<close>

definition example_connected :: "(unit, unit, bytes, u16) peer" where
  "example_connected = (example_mem\<lparr>pc_state := PEER_CONNECTION_CONNECTED, has_onstatechange := True,
     config := (config example_mem)\<lparr>datachannel := DATA_CHANNEL_NONE\<rparr>\<rparr>, example_world)"

lemma example_handshake:
  "\<exists>f. dtls_srtp_handshake (peer_tls example_env) bio example_dtls s = Some (0, example_dtls\<lparr>actual_remote_fingerprint := f\<rparr>, s)"
proof -
  let ?D = "replicate 32 0xAB :: bytes" and ?tls = "peer_tls example_env"
  have sha: "tls_sha256 ?tls raw = ?D" for raw by (simp add: example_env_def example_tls_def)
  have fp: "length (fingerprint_text ?D) = 95" by (simp add: length_fingerprint_text)
  have afp: "length (actual_remote_fingerprint example_dtls) = DTLS_SRTP_FINGERPRINT_LENGTH"
    by (simp add: example_dtls_def dtls_zero_def)
  have rfp: "c_cut DTLS_SRTP_FINGERPRINT_LENGTH (remote_fingerprint example_dtls) = fingerprint_text ?D"
    using takeWhile_no_nul(1) [OF no_nul_fingerprint_text [of ?D], of "replicate 64 0"] fp
    by (simp add: example_dtls_def c_cut_def DTLS_SRTP_FINGERPRINT_LENGTH_def flip: replicate_Suc)
  obtain f where f: "dtls_srtp_x509_digest ?tls [1] (actual_remote_fingerprint example_dtls) = Some f"
    "c_cut DTLS_SRTP_FINGERPRINT_LENGTH f = fingerprint_text ?D"
    using x509_digest_text [OF _ afp, of ?tls "[1]"] sha by auto
  have "dtls_srtp_do_handshake ?tls bio example_dtls s = Some (0, example_dtls, s)"
    by (subst dtls_srtp_do_handshake.simps)
      (simp add: example_env_def example_dtls_def want_io_def MBEDTLS_ERR_SSL_WANT_READ_def MBEDTLS_ERR_SSL_WANT_WRITE_def)
  moreover have "tls_peer_cert ?tls t = Some [1]" for t by (simp add: example_env_def example_tls_def)
  moreover have "ssl example_dtls = Some ()" "dtls_role example_dtls = DTLS_SRTP_ROLE_CLIENT"
    by (simp_all add: example_dtls_def dtls_zero_def)
  ultimately have "dtls_srtp_handshake ?tls bio example_dtls s = Some (0, example_dtls\<lparr>actual_remote_fingerprint := f\<rparr>, s)"
    using f rfp by (simp add: dtls_srtp_handshake_def dtls_srtp_handshake_client_def strncmp_eq_def)
  then show ?thesis by blast
qed

lemma completed_is_authenticated_witness:
  "\<exists>y. peer_call example_env example_connected y \<and>
    peer_connection_get_state (fst y) = PEER_CONNECTION_COMPLETED \<and> authenticated (peer_tls example_env) (dtls_srtp (fst y))"
proof -
  let ?pc = "(fst example_connected)\<lparr>agent_buf := replicate (length (agent_buf (fst example_connected))) 0, agent_ret := -1\<rparr>"
  have e: "dtls_srtp ?pc = example_dtls" "datachannel (config ?pc) = DATA_CHANNEL_NONE" "has_onstatechange ?pc"
    "pc_state ?pc = PEER_CONNECTION_CONNECTED"
    by (simp_all add: example_connected_def example_mem_def)
  obtain f where f: "dtls_srtp_handshake (peer_tls example_env) (peer_bio example_env ?pc) (dtls_srtp ?pc) (agent ?pc, world example_world)
      = Some (0, example_dtls\<lparr>actual_remote_fingerprint := f\<rparr>, agent ?pc, world example_world)"
    using example_handshake e(1) by metis
  let ?pc' = "?pc\<lparr>dtls_srtp := example_dtls\<lparr>actual_remote_fingerprint := f\<rparr>, pc_state := PEER_CONNECTION_COMPLETED\<rparr>"
  have x: "example_connected = (fst example_connected, example_world)" by (simp add: example_connected_def)
  have "loop_connected example_env (?pc, example_world) = Some (?pc', peer_log [StateChanged PEER_CONNECTION_COMPLETED] example_world)"
    using f e by (simp add: loop_connected_def STATE_CHANGED_def example_world_def)
  then have "peer_connection_loop example_env example_connected = Some (0, ?pc', peer_log [StateChanged PEER_CONNECTION_COMPLETED] example_world)"
    using e(4) by (subst x) (simp add: peer_connection_loop_def)
  then have c: "peer_call example_env example_connected (?pc', peer_log [StateChanged PEER_CONNECTION_COMPLETED] example_world)"
    by (rule call_loop)
  have k: "keeps_cert (peer_tls example_env)" by (simp add: keeps_cert_def example_env_def example_tls_def)
  have l: "length (tls_sha256 (peer_tls example_env) raw) = 32" for raw by (simp add: example_env_def example_tls_def)
  have "length (actual_remote_fingerprint (dtls_srtp (fst example_connected))) = DTLS_SRTP_FINGERPRINT_LENGTH"
    using e(1) by (simp add: example_dtls_def dtls_zero_def)
  from completed_is_authenticated [OF c _ _ k l this] c e show ?thesis by (fastforce simp: peer_connection_get_state_def)
qed

section \<open>Which packets reach the application\<close>

fun tracks :: "PeerEvent list \<Rightarrow> PeerEvent list" where
  "tracks [] = []"
| "tracks (AudioTrack f # es) = AudioTrack f # tracks es"
| "tracks (VideoTrack f # es) = VideoTrack f # tracks es"
| "tracks (e # es) = tracks es"

lemma tracks_append [simp]: "tracks (es @ fs) = tracks es @ tracks fs"
  by (induction es rule: tracks.induct) auto

lemma tracks_map [simp]: "tracks (map AudioTrack fs) = map AudioTrack fs" "tracks (map VideoTrack fs) = map VideoTrack fs"
  by (induction fs) auto

lemma tracks_rtcp: "peer_connection_incoming_rtcp pc b n k = Some es \<Longrightarrow> tracks es = []"
proof (induction pc b n k arbitrary: es rule: peer_connection_incoming_rtcp.induct)
  case (1 pc b n k)
  show ?case
  proof (cases "k < n")
    case True
    then show ?thesis using "1.prems" "1.IH"
      by (subst (asm) peer_connection_incoming_rtcp.simps) (fastforce simp: Option.bind_eq_Some_conv Let_def split: if_splits)
  qed (use "1.prems" in \<open>subst (asm) peer_connection_incoming_rtcp.simps, simp\<close>)
qed

abbreviation played :: "('w, 't, 'p, 'u) peer \<Rightarrow> PeerEvent list" where
  "played x \<equiv> tracks (events (snd x))"

lemma sctp_events_mute: "sctp_events env es x = Some y \<Longrightarrow> played y = played x"
proof (induction es arbitrary: x)
  case (Cons e es)
  obtain z where z: "sctp_event env e x = Some z" "sctp_events env es z = Some y"
    using Cons.prems by (auto simp: Option.bind_eq_Some_conv)
  have "played z = played x" using z(1)
    by (cases e; cases x) (auto simp: Option.bind_eq_Some_conv peer_log_def)
  then show ?case using Cons.IH z(2) by simp
qed simp

lemma state_changed_mute: "played (STATE_CHANGED s x) = played x"
  by (cases x) (simp add: STATE_CHANGED_def peer_log_def)

lemma incoming_mute:
  "incoming_rtcp env x = Some y \<Longrightarrow> played y = played x" "incoming_dtls env x = Some y \<Longrightarrow> played y = played x"
proof -
  show "incoming_rtcp env x = Some y \<Longrightarrow> played y = played x"
    by (cases x) (auto simp: incoming_rtcp_def Option.bind_eq_Some_conv Let_def peer_log_def dest!: tracks_rtcp)
  show "incoming_dtls env x = Some y \<Longrightarrow> played y = played x"
    by (cases x) (auto simp: incoming_dtls_def Option.bind_eq_Some_conv Let_def split: if_splits dest!: sctp_events_mute)
qed

lemma checking_mute: "loop_checking env x = Some y \<Longrightarrow> played y = played x"
  by (cases x) (auto simp: loop_checking_def Option.bind_eq_Some_conv Let_def state_changed_mute split: if_splits)

lemma connected_mute: "loop_connected env (pc, pw) = Some y \<Longrightarrow> played y = played (pc, pw)"
  by (auto elim!: loop_connected_cases simp: state_changed_mute dest!: sctp_events_mute)

lemma keepalive_mute: "played (loop_keepalive env x) = played x"
  by (cases x) (simp add: loop_keepalive_def state_changed_mute Let_def split: prod.split)

text \<open>\<open>delivers env pc pw i dc fs\<close>: a packet libsrtp accepted, of source \<open>i\<close>, made the decoder \<open>dc\<close> hand out \<open>fs\<close>.\<close>

definition delivers ::
  "('w, 't, 'p, 'u) PeerEnv \<Rightarrow> ('t, 'p) PeerConnection \<Rightarrow> ('w, 'u) PeerWorld \<Rightarrow> u32 \<Rightarrow> RtpDecoder \<Rightarrow> bytes list \<Rightarrow> bool" where
  "delivers env pc pw i dc fs \<longleftrightarrow> (\<exists>s p n p' n' s' r st. srtp_in (dtls_srtp pc) = Some s \<and>
     srtp_unprotect (peer_tls env) s p n = (0, p', n', s') \<and> rtp_get_ssrc p' = Some i \<and>
     rtp_decoder_decode dc (rtp_statics pw) p' n' = Some (r, st, fs))"

lemma decrypt_rtp_zero:
  assumes "dtls_srtp_decrypt_rtp_packet tls d p n = Some (0, b, k, d')"
  shows "\<exists>s s'. srtp_in d = Some s \<and> srtp_unprotect tls s p n = (0, b, k, s')"
proof -
  obtain s where s: "srtp_in d = Some s" using assms by (auto simp: dtls_srtp_decrypt_rtp_packet_def Option.bind_eq_Some_conv)
  obtain st b' k' s' where "srtp_unprotect tls s p n = (st, b', k', s')" by (cases "srtp_unprotect tls s p n")
  then show ?thesis using assms s by (auto simp: dtls_srtp_decrypt_rtp_packet_def split: if_splits)
qed

lemma incoming_rtp_delivers:
  assumes "incoming_rtp env (pc, pw) = Some y"
  shows "played y = played (pc, pw) \<or>
    (\<exists>fs. delivers env pc pw (remote_assrc pc) (artp_decoder pc) fs \<and> played y = played (pc, pw) @ map AudioTrack fs) \<or>
    (\<exists>fs. delivers env pc pw (remote_vssrc pc) (vrtp_decoder pc) fs \<and> played y = played (pc, pw) @ map VideoTrack fs)"
proof -
  obtain r b n d where dec: "dtls_srtp_decrypt_rtp_packet (peer_tls env) (dtls_srtp pc) (agent_buf pc) (nat (agent_ret pc)) = Some (r, b, n, d)"
    using assms by (auto simp: incoming_rtp_def Option.bind_eq_Some_conv)
  let ?pc = "pc\<lparr>agent_buf := b, agent_ret := int n, dtls_srtp := d\<rparr>"
  show ?thesis
  proof (cases "r = 0")
    case True
    obtain s s' where s: "srtp_in (dtls_srtp pc) = Some s"
      "srtp_unprotect (peer_tls env) s (agent_buf pc) (nat (agent_ret pc)) = (0, b, n, s')"
      using decrypt_rtp_zero dec True by blast
    obtain i where i: "rtp_get_ssrc b = Some i"
      using assms dec True by (auto simp: incoming_rtp_def Option.bind_eq_Some_conv Let_def)
    have d: "\<exists>fs. delivers env pc pw i dc fs \<and> tracks (events pw') = played (pc, pw) @ map ev fs"
      if "decode_track ev dc b n pw = Some pw'" "\<And>fs. tracks (map ev fs) = map ev fs" for ev dc pw'
      using that s i by (fastforce simp: decode_track_def Option.bind_eq_Some_conv delivers_def peer_log_def)
    consider "i = remote_assrc pc" | "i \<noteq> remote_assrc pc" "i = remote_vssrc pc" | "i \<noteq> remote_assrc pc" "i \<noteq> remote_vssrc pc"
      by blast
    then show ?thesis
    proof cases
      case 1
      then obtain pw' where "decode_track AudioTrack (artp_decoder pc) b n pw = Some pw'" "y = (?pc, pw')"
        using assms dec True i by (auto simp: incoming_rtp_def Option.bind_eq_Some_conv Let_def)
      then show ?thesis using d [of AudioTrack "artp_decoder pc" pw'] 1 by auto
    next
      case 2
      then obtain pw' where "decode_track VideoTrack (vrtp_decoder pc) b n pw = Some pw'" "y = (?pc, pw')"
        using assms dec True i by (auto simp: incoming_rtp_def Option.bind_eq_Some_conv Let_def)
      then show ?thesis using d [of VideoTrack "vrtp_decoder pc" pw'] 2 by auto
    next
      case 3
      then show ?thesis using assms dec True i by (auto simp: incoming_rtp_def)
    qed
  qed (use assms dec in \<open>auto simp: incoming_rtp_def\<close>)
qed

lemma loop_consent_frame:
  assumes "loop_consent env (pc, pw) = Some y"
  shows "\<exists>t w. y = (pc\<lparr>consent_request_time := t\<rparr>, pw\<lparr>world := w\<rparr>)"
proof -
  obtain now w where t: "ports_get_epoch_time (peer_os env) (world pw) = (now, w)" by (cases "ports_get_epoch_time (peer_os env) (world pw)")
  obtain now' w' where t': "ports_get_epoch_time (peer_os env) w = (now', w')" by (cases "ports_get_epoch_time (peer_os env) w")
  have e: "pc = pc\<lparr>consent_request_time := consent_request_time pc\<rparr>" by simp
  show ?thesis
  proof (cases "CONFIG_CONSENT_INTERVAL < ucast now - consent_request_time pc")
    case True
    then show ?thesis using assms t t' by (auto simp: loop_consent_def CONFIG_CONSENT_INTERVAL_def Option.bind_eq_Some_conv)
  next
    case False
    then have "y = (pc, pw\<lparr>world := w\<rparr>)" using assms t by (simp add: loop_consent_def)
    then show ?thesis using e by blast
  qed
qed

lemma delivers_frame [simp]:
  "delivers env (pc\<lparr>agent_ret := k, agent_buf := b, agent := a\<rparr>) (pw\<lparr>world := w\<rparr>) = delivers env pc pw"
  "delivers env (pc\<lparr>agent_buf := b, agent_ret := k, consent_request_time := t\<rparr>) (pw\<lparr>world := w\<rparr>) = delivers env pc pw"
  by (simp_all add: delivers_def fun_eq_iff)

lemma receive_delivers:
  assumes "loop_receive env (pc, pw) = Some y"
  shows "played y = played (pc, pw) \<or>
    (\<exists>fs. delivers env pc pw (remote_assrc pc) (artp_decoder pc) fs \<and> played y = played (pc, pw) @ map AudioTrack fs) \<or>
    (\<exists>fs. delivers env pc pw (remote_vssrc pc) (vrtp_decoder pc) fs \<and> played y = played (pc, pw) @ map VideoTrack fs)"
  using assms
proof (cases rule: loop_receive_cases)
  case (4 r b a w)
  show ?thesis using incoming_rtp_delivers [OF 4] by simp
next
  case (2 r b a w)
  show ?thesis using incoming_mute(1) [OF 2] by simp
next
  case (3 r b a w)
  show ?thesis using incoming_mute(2) [OF 3] by simp
qed simp

text \<open>C2: A call of the loop hands frames to the application only in the completed state, only from one
  packet that libsrtp accepted with the key of the peer, to the audio track only if the packet has
  the announced audio source and to the video track only if it has the video source, and then
  exactly the frames the depacketizer makes of the decrypted packet: a packet that fails
  authentication is never decoded.\<close>

theorem media_is_authenticated:
  assumes "peer_connection_loop env (pc, pw) = Some (r, pc', pw')"
  shows "tracks (events pw') = tracks (events pw) \<or>
    pc_state pc = PEER_CONNECTION_COMPLETED \<and> (\<exists>fs.
      delivers env pc pw (remote_assrc pc) (artp_decoder pc) fs \<and> tracks (events pw') = tracks (events pw) @ map AudioTrack fs \<or>
      delivers env pc pw (remote_vssrc pc) (vrtp_decoder pc) fs \<and> tracks (events pw') = tracks (events pw) @ map VideoTrack fs)"
proof -
  let ?pc = "pc\<lparr>agent_buf := replicate (length (agent_buf pc)) 0, agent_ret := -1\<rparr>"
  consider "loop_checking env (?pc, pw) = Some (pc', pw')" | "loop_connected env (?pc, pw) = Some (pc', pw')"
    | "pc_state pc = PEER_CONNECTION_COMPLETED" "loop_completed env (?pc, pw) = Some (pc', pw')" | "pw' = pw"
    using assms by (cases "pc_state pc") (auto simp: peer_connection_loop_def Option.bind_eq_Some_conv)
  then show ?thesis
  proof cases
    case 3
    then obtain u v where uv: "loop_consent env (?pc, pw) = Some u" "loop_receive env u = Some v" "loop_keepalive env v = (pc', pw')"
      by (auto simp: loop_completed_def Option.bind_eq_Some_conv)
    obtain t w where u: "u = (?pc\<lparr>consent_request_time := t\<rparr>, pw\<lparr>world := w\<rparr>)"
      using loop_consent_frame [OF uv(1)] by blast
    have "played v = tracks (events pw')" using keepalive_mute [of env v] uv(3) by simp
    then show ?thesis using receive_delivers [OF uv(2) [unfolded u]] 3(1) by auto
  qed (auto dest!: checking_mute connected_mute)
qed

lemma media_is_authenticated_witness:
  "\<exists>y. peer_connection_loop example_env (example_mem, example_world) = Some (0, y) \<and> tracks (events (snd y)) = []"
proof -
  obtain pc pw where l: "peer_connection_loop example_env (example_mem, example_world) = Some (0, pc, pw)"
    by (simp add: peer_connection_loop_def example_mem_def)
  have "pc_state example_mem = PEER_CONNECTION_CLOSED" "events example_world = []"
    by (simp_all add: example_mem_def example_world_def)
  then show ?thesis using media_is_authenticated [OF l] l by auto
qed

section \<open>Requests for a key frame\<close>

text \<open>A compound packet: headers with their bodies, the length field in words without the first.\<close>

fun rtcp_packets :: "(RtcpHeader \<times> bytes) list \<Rightarrow> bytes" where
  "rtcp_packets [] = []"
| "rtcp_packets ((h, b) # ps) = rtcp_header_bytes h @ b @ rtcp_packets ps"

definition key_request :: "RtcpHeader \<Rightarrow> bool" where
  "key_request h \<longleftrightarrow> rtcp_type h = rtcp_type_value RTCP_PSFB \<and> (rtcp_rc h = 1 \<or> rtcp_rc h = 4)"

lemma rtcp_header_in: "rtcp_header_at (pre @ rtcp_header_bytes h @ r) (length pre) = Some h"
  using rtcp_header_of_bytes [of h r] by (simp add: rtcp_header_at_def mem_read_def)

lemma incoming_rtcp_step:
  assumes "pos < len" and "rtcp_header_at buf pos = Some h" and "k = pos + 4 * unat (rtcp_length h) + 4"
    and "peer_connection_incoming_rtcp pc buf len k = Some es"
  shows "peer_connection_incoming_rtcp pc buf len pos =
    Some ((if key_request h \<and> has_on_request_keyframe (config pc) then [RequestKeyframe] else []) @ es)"
  by (subst peer_connection_incoming_rtcp.simps) (use assms in \<open>auto simp: key_request_def\<close>)

lemma incoming_rtcp_from:
  assumes "\<forall>(h, b) \<in> set ps. length b = 4 * unat (rtcp_length h)"
  shows "peer_connection_incoming_rtcp pc (pre @ rtcp_packets ps @ r) (length pre + length (rtcp_packets ps)) (length pre) =
    Some (if has_on_request_keyframe (config pc) then map (\<lambda>_. RequestKeyframe) (filter (key_request \<circ> fst) ps) else [])"
  using assms
proof (induction ps arbitrary: pre)
  case (Cons p ps)
  obtain h b where p: "p = (h, b)" by (cases p)
  let ?q = "pre @ rtcp_header_bytes h @ b"
  have q: "length ?q = length pre + 4 * unat (rtcp_length h) + 4" using Cons.prems p by simp
  have n: "length pre + length (rtcp_packets (p # ps)) = length ?q + length (rtcp_packets ps)" by (simp add: p)
  have e: "pre @ rtcp_packets (p # ps) @ r = ?q @ rtcp_packets ps @ r" by (simp add: p)
  have h: "rtcp_header_at (?q @ rtcp_packets ps @ r) (length pre) = Some h"
    using rtcp_header_in [of pre h "b @ rtcp_packets ps @ r"] by simp
  have "\<forall>(h, b) \<in> set ps. length b = 4 * unat (rtcp_length h)" using Cons.prems by simp
  from incoming_rtcp_step [OF _ h q Cons.IH [OF this]] show ?case unfolding n e by (simp add: p)
qed (simp add: peer_connection_incoming_rtcp.simps)

text \<open>A compound RTCP packet whose length fields are right is walked to its end, and the application is
  asked for a key frame once for every picture loss indication and full intra request in it, and
  for nothing else.\<close>

theorem keyframe_requests:
  assumes "\<forall>(h, b) \<in> set ps. length b = 4 * unat (rtcp_length h)"
  shows "peer_connection_incoming_rtcp pc (rtcp_packets ps @ r) (length (rtcp_packets ps)) 0 =
    Some (if has_on_request_keyframe (config pc) then map (\<lambda>_. RequestKeyframe) (filter (key_request \<circ> fst) ps) else [])"
  using incoming_rtcp_from [OF assms, of pc "[]" r] by simp

text \<open>The two messages \<^const>\<open>rtcp_get_pli\<close> and \<^const>\<open>rtcp_get_fir\<close> build, one after the other.\<close>

definition example_feedback :: "(RtcpHeader \<times> bytes) list" where
  "example_feedback =
     [(\<lparr>rtcp_version = 2, rtcp_padding = 0, rtcp_rc = 1, rtcp_type = rtcp_type_value RTCP_PSFB, rtcp_length = 2\<rparr>, replicate 4 0 @ le32 7),
      (\<lparr>rtcp_version = 2, rtcp_padding = 0, rtcp_rc = 0, rtcp_type = rtcp_type_value RTCP_RR, rtcp_length = 1\<rparr>, [0, 0, 0, 9]),
      (\<lparr>rtcp_version = 2, rtcp_padding = 0, rtcp_rc = 4, rtcp_type = rtcp_type_value RTCP_PSFB, rtcp_length = 4\<rparr>,
        replicate 12 0 @ [1, 0, 0, 0])]"

lemma keyframe_requests_witness:
  "peer_connection_incoming_rtcp example_mem (rtcp_packets example_feedback) (length (rtcp_packets example_feedback)) 0 =
    Some [RequestKeyframe, RequestKeyframe] \<and>
   rtcp_get_pli (Some (replicate 12 0)) 12 7 = Some (12, Some (take 12 (rtcp_packets example_feedback)))"
proof -
  have "\<forall>(h, b) \<in> set example_feedback. length b = 4 * unat (rtcp_length h)" by (simp add: example_feedback_def)
  from keyframe_requests [OF this, of example_mem "[]"]
  have 1: "peer_connection_incoming_rtcp example_mem (rtcp_packets example_feedback) (length (rtcp_packets example_feedback)) 0 =
    Some [RequestKeyframe, RequestKeyframe]"
    by (simp add: example_mem_def) (simp add: example_feedback_def key_request_def)
  have "rtcp_header_bytes (fst (hd example_feedback)) = [0x81, 206, 0, 2]" by code_simp
  then have "take 12 (rtcp_packets example_feedback) = [0x81, 206, 0, 2] @ replicate 4 0 @ le32 7"
    by (simp add: example_feedback_def)
  then show ?thesis using 1 rtcp_get_pli_bytes [of "replicate 12 0" 7] by simp
qed

section \<open>A silent peer\<close>

lemma unat_ucast_64: "unat (ucast (w :: u32) :: u64) = unat w"
proof -
  have "unat w < 2 ^ LENGTH(32)" by (rule unsigned_less)
  then have "take_bit 64 (unat w) = unat w" by (simp add: take_bit_nat_eq_self_iff)
  then show ?thesis by (simp add: unsigned_ucast_eq)
qed

text \<open>Nothing arrives: the system answers every wait for a datagram with a timeout. \<open>ms\<close> is its clock in milliseconds,
  of which \<open>ports_get_epoch_time\<close> gives the low 32 bits.\<close>

definition silent_net :: "'w Os \<Rightarrow> ('w \<Rightarrow> nat) \<Rightarrow> bool" where
  "silent_net os ms \<longleftrightarrow> (\<forall>w. ports_get_epoch_time os w = (of_nat (ms w), w)) \<and> (\<forall>fs t w. \<exists>w'. os_select os fs t w = (0, [], w'))"

text \<open>The agent of a connection that is up: a nominated pair, and the credentials for requests.\<close>

definition agent_up :: "(bytes \<Rightarrow> bytes \<Rightarrow> bytes) \<Rightarrow> Agent \<Rightarrow> bool" where
  "agent_up hmac a \<longleftrightarrow> wf_agent a \<and> (\<exists>i p lp rp. nominated a = Some (i, p) \<and> pair_remote p < AGENT_MAX_CANDIDATES \<and>
     credentials a lp rp \<and> (\<forall>d. length (hmac d rp) = 20))"

fun peer_loops :: "('w, 't, 'p, 'u) PeerEnv \<Rightarrow> nat \<Rightarrow> ('w, 't, 'p, 'u) peer \<Rightarrow> ('w, 't, 'p, 'u) peer option" where
  "peer_loops env 0 x = Some x"
| "peer_loops env (Suc n) x = do { (r, x) \<leftarrow> peer_connection_loop env x; peer_loops env n x }"

definition expired :: "nat \<Rightarrow> Agent \<Rightarrow> bool" where
  "expired now a \<longleftrightarrow> CONFIG_KEEPALIVE_TIMEOUT < ucast (of_nat now :: u32) - binding_request_time a"

lemma expired_iff:
  assumes "binding_request_time ag = ucast (of_nat a :: u32)" and "d < 2 ^ 32"
  shows "expired (a + d) ag \<longleftrightarrow> 10000 < d \<or> 2 ^ 32 \<le> a mod 2 ^ 32 + d"
proof -
  let ?now = "of_nat (a + d) :: u32" and ?t = "of_nat a :: u32"
  let ?e = "ucast ?now - ucast ?t :: u64"
  have n: "unat (ucast ?now :: u64) = (a + d) mod 2 ^ 32" "unat (ucast ?t :: u64) = a mod 2 ^ 32"
    by (simp_all only: unat_ucast_64 unat_of_nat) simp_all
  have "10000 < ?e \<longleftrightarrow> 10000 < d \<or> 2 ^ 32 \<le> a mod 2 ^ 32 + d"
  proof (cases "a mod 2 ^ 32 + d < 2 ^ 32")
    case True
    then have m: "(a + d) mod 2 ^ 32 = a mod 2 ^ 32 + d" by (metis mod_add_left_eq mod_less)
    then have "unat ?e = d" using n by (simp add: unat_sub_if_size word_le_nat_alt)
    then show ?thesis using True by (simp add: word_less_nat_alt)
  next
    case False
    have lt: "a mod 2 ^ 32 < 2 ^ 32" by simp
    have "(a + d) mod 2 ^ 32 = (a mod 2 ^ 32 + d) mod 2 ^ 32" by (simp add: mod_add_left_eq)
    also have "\<dots> = a mod 2 ^ 32 + d - 2 ^ 32" using False lt assms(2) by (simp add: le_mod_geq)
    finally have m: "(a + d) mod 2 ^ 32 = a mod 2 ^ 32 + d - 2 ^ 32" .
    have "unat ?e = (a + d) mod 2 ^ 32 + 2 ^ 64 - a mod 2 ^ 32"
    proof -
      have "(a + d) mod 2 ^ 32 < a mod 2 ^ 32" using m False assms(2) by linarith
      then show ?thesis using n by (simp add: unat_sub_if_size word_le_nat_alt word_size)
    qed
    then have "10000 < unat ?e" using lt by simp
    then show ?thesis using False by (simp add: word_less_nat_alt)
  qed
  then show ?thesis using assms(1) by (simp add: expired_def CONFIG_KEEPALIVE_TIMEOUT_def)
qed

lemma quiet_consent:
  assumes "silent_net (peer_os env) ms" and "agent_up (peer_hmac env) (agent pc)"
  shows "\<exists>c w. loop_consent env (pc, pw) = Some (pc\<lparr>consent_request_time := c\<rparr>, pw\<lparr>world := w\<rparr>)"
proof -
  obtain i p lp rp where a: "wf_agent (agent pc)" "nominated (agent pc) = Some (i, p)" "pair_remote p < AGENT_MAX_CANDIDATES"
    "credentials (agent pc) lp rp" "\<forall>d. length (peer_hmac env d rp) = 20"
    using assms(2) by (auto simp: agent_up_def)
  have "\<exists>r w'. agent_send_consent_request (peer_hmac env) (peer_md5 env) (peer_os env) (agent pc) w = Some (r, w')" for w
  proof -
    obtain m w1 where m: "agent_create_binding_request (peer_hmac env) (peer_md5 env) (peer_os env) (agent pc) stun0 w = Some (m, w1)"
      "msg_size m \<le> length (sbuf m)"
      using request_acceptable [where hmac = "peer_hmac env", OF a(4,2,5)] by (fastforce simp: acceptable_def)
    have "\<exists>x. nominated_remote_addr (agent pc) = Some x"
      using a(1-3) by (simp add: nominated_remote_addr_def mem_get_def wf_agent_def)
    then obtain x where x: "nominated_remote_addr (agent pc) = Some x" by blast
    have "\<exists>r w'. agent_socket_send (peer_os env) (agent pc) x (sbuf m) (msg_size m) w1 = Some (r, w')"
      using a(1) by (simp add: agent_socket_send_def mem_get_def wf_agent_def udp_sendto_total [OF m(2)])
    then show ?thesis using m(1) x a(2) by (auto simp: agent_send_consent_request_def nominated_Some)
  qed
  then obtain r w' where s: "agent_send_consent_request (peer_hmac env) (peer_md5 env) (peer_os env) (agent pc) (world pw) = Some (r, w')"
    by blast
  have t: "ports_get_epoch_time (peer_os env) (world pw) = (of_nat (ms (world pw)), world pw)" using assms(1) by (simp add: silent_net_def)
  let ?now = "ucast (of_nat (ms (world pw)) :: u32)"
  show ?thesis
  proof (cases "0 < CONFIG_CONSENT_INTERVAL \<and> CONFIG_CONSENT_INTERVAL < ?now - consent_request_time pc")
    case True
    then show ?thesis using s t by (intro exI [of _ ?now] exI [of _ w']) (simp add: loop_consent_def)
  next
    case False
    then show ?thesis using t by (intro exI [of _ "consent_request_time pc"] exI [of _ "world pw"]) (auto simp: loop_consent_def)
  qed
qed

lemma quiet_receive:
  assumes "silent_net (peer_os env) ms" and "wf_agent (agent pc)"
  shows "\<exists>w. loop_receive env (pc, pw) = Some (pc\<lparr>agent_ret := 0\<rparr>, pw\<lparr>world := w\<rparr>)"
proof -
  have "\<exists>w'. agent_recv (peer_hmac env) (peer_md5 env) (peer_os env) (agent pc) buf len w = Some (0, buf, agent pc, w')" for buf len w
  proof -
    obtain w' where "os_select (peer_os env) (if 0 \<le> fd (udp_sockets (agent pc) ! 0) then [fd (udp_sockets (agent pc) ! 0)] else [])
        AGENT_POLL_TIMEOUT w = (0, [], w')"
      using assms(1) unfolding silent_net_def by meson
    then show ?thesis using assms(2) by (simp add: agent_recv_def agent_socket_recv_def mem_get_def wf_agent_def)
  qed
  from this [of "agent_buf pc" "length (agent_buf pc)" "world pw"] obtain w' where
    "agent_recv (peer_hmac env) (peer_md5 env) (peer_os env) (agent pc) (agent_buf pc) (length (agent_buf pc)) (world pw) =
      Some (0, agent_buf pc, agent pc, w')" by blast
  then show ?thesis by (intro exI [of _ w']) (simp add: loop_receive_def)
qed

text \<open>One call: it returns, nothing but the state depends on the time, and nothing is kept of what was not heard.\<close>

lemma quiet_loop:
  assumes "silent_net (peer_os env) ms" and "agent_up (peer_hmac env) (agent pc)" and "pc_state pc = PEER_CONNECTION_COMPLETED"
  shows "\<exists>pc' pw'. peer_connection_loop env (pc, pw) = Some (0, pc', pw') \<and> agent pc' = agent pc \<and>
    has_onstatechange pc' = has_onstatechange pc \<and> pc_state pc' =
      (if has_onstatechange pc \<and> expired (ms (world pw')) (agent pc) then PEER_CONNECTION_CLOSED else PEER_CONNECTION_COMPLETED)"
proof -
  let ?pc = "pc\<lparr>agent_buf := replicate (length (agent_buf pc)) 0, agent_ret := -1\<rparr>"
  obtain c w1 where c: "loop_consent env (?pc, pw) = Some (?pc\<lparr>consent_request_time := c\<rparr>, pw\<lparr>world := w1\<rparr>)"
    using quiet_consent [OF assms(1), of ?pc pw] assms(2) by auto
  let ?pc1 = "?pc\<lparr>consent_request_time := c\<rparr>"
  have "wf_agent (agent ?pc1)" using assms(2) by (simp add: agent_up_def)
  from quiet_receive [OF assms(1) this, of "pw\<lparr>world := w1\<rparr>"] obtain w2 where
    r: "loop_receive env (?pc1, pw\<lparr>world := w1\<rparr>) = Some (?pc1\<lparr>agent_ret := 0\<rparr>, pw\<lparr>world := w2\<rparr>)" by auto
  have t: "ports_get_epoch_time (peer_os env) w2 = (of_nat (ms w2), w2)" using assms(1) by (simp add: silent_net_def)
  have "peer_connection_loop env (pc, pw) = Some (0, loop_keepalive env (?pc1\<lparr>agent_ret := 0\<rparr>, pw\<lparr>world := w2\<rparr>))"
    using assms(3) c r by (simp add: peer_connection_loop_def loop_completed_def Let_def)
  moreover have "0 < CONFIG_KEEPALIVE_TIMEOUT" by (simp add: CONFIG_KEEPALIVE_TIMEOUT_def)
  then have "loop_keepalive env (?pc1\<lparr>agent_ret := 0\<rparr>, pw\<lparr>world := w2\<rparr>) =
      (if has_onstatechange pc \<and> expired (ms w2) (agent pc)
       then (?pc1\<lparr>agent_ret := 0, pc_state := PEER_CONNECTION_CLOSED\<rparr>, peer_log [StateChanged PEER_CONNECTION_CLOSED] (pw\<lparr>world := w2\<rparr>))
       else (?pc1\<lparr>agent_ret := 0\<rparr>, pw\<lparr>world := w2\<rparr>))"
    using t assms(3) by (simp add: loop_keepalive_def STATE_CHANGED_def expired_def Let_def)
  ultimately show ?thesis using assms(3)
    by (cases "has_onstatechange pc \<and> expired (ms w2) (agent pc)") (simp_all add: peer_log_def)
qed

lemma closed_loops: "pc_state pc = PEER_CONNECTION_CLOSED \<Longrightarrow> \<exists>pc'. peer_loops env n (pc, pw) = Some (pc', pw) \<and> pc_state pc' = PEER_CONNECTION_CLOSED"
proof (induction n arbitrary: pc)
  case (Suc n)
  then show ?case by (simp add: peer_connection_loop_def)
qed simp



section \<open>Opening a data channel\<close>

text \<open>An usrsctp that accepts everything and delivers nothing.\<close>

definition example_usr :: "unit UsrSctp" where
  "example_usr = \<lparr>us_sysctl_ecn_off = id, us_register_address = id, us_socket = \<lambda>u. (Some 1, u), us_set_non_blocking = \<lambda>k u. (0, u),
     us_setsockopt = \<lambda>k s u. (0, u), us_bind = \<lambda>k p u. (0, u), us_connect = \<lambda>k p u. (0, False, [], u),
     us_sendv = \<lambda>k b sid ppid u. (int (length b), [Transmit b], u), us_conninput = \<lambda>b u. ([], u), us_shutdown = \<lambda>k u. u,
     us_close = \<lambda>k u. u\<rparr>"

text \<open>A packet of one DATA chunk: common header, flags, transmission and stream sequence numbers.\<close>

definition data_packet :: "bytes \<Rightarrow> u8 \<Rightarrow> u32 \<Rightarrow> u16 \<Rightarrow> u16 \<Rightarrow> u32 \<Rightarrow> bytes \<Rightarrow> bytes" where
  "data_packet hdr flags t sid ssn ppid msg =
     hdr @ [chunk_type SCTP_DATA, flags] @ be16 (of_nat (length msg + SCTP_DATA_CHUNK_SIZE)) @ be32 t @ be16 sid @ be16 ssn @
     be32 ppid @ msg"

lemma upcalls_table: "stream_table (fst (upcalls us s)) = stream_table s \<and> stream_count (fst (upcalls us s)) = stream_count s"
proof (induction us arbitrary: s)
  case (Cons u us)
  have "stream_table (fst (upcall u s)) = stream_table s \<and> stream_count (fst (upcall u s)) = stream_count s"
    by (cases u) (auto simp: sctp_process_notification_def sctp_closed_def split: Notification.splits AssocState.splits)
  then show ?case using Cons.IH [of "fst (upcall u s)"] by (simp add: Let_def split_def)
qed simp

lemma parse_open_message:
  assumes "m = open_message ty prio rel label protocol" and "no_nul label"
    and "length label < 2 ^ 16" and "length protocol < 2 ^ 16"
  shows "\<exists>s' evs u'. sctp_parse_data_channel_open us s sid m (length m) u = Some (s', evs, u') \<and>
    stream_table s' = stream_table (sctp_add_stream_mapping s label sid) \<and>
    stream_count s' = stream_count (sctp_add_stream_mapping s label sid)"
proof -
  let ?pre = "[decp_value DATA_CHANNEL_OPEN, 0] @ be16 prio @ be32 rel"
  let ?ll = "be16 (of_nat (length label))" and ?pl = "be16 (of_nat (length protocol))"
  have m: "m = ?pre @ ?ll @ ?pl @ label @ protocol" by (simp add: assms(1) open_message_def)
  have l: "length m = 12 + length label + length protocol" by (simp add: m)
  have g: "mem_get 0 m = Some (decp_value DATA_CHANNEL_OPEN)" by (simp add: m mem_get_def)
  have r1: "mem_read 8 2 m = Some ?ll" by (simp add: m mem_read_def)
  have r2: "mem_read 10 2 m = Some ?pl" by (simp add: m mem_read_def)
  have r3: "mem_read 12 (length label) m = Some label" by (simp add: m mem_read_def)
  have n: "unat (of_nat (length label) :: u16) = length label" "unat (of_nat (length protocol) :: u16) = length protocol"
    using assms(3,4) by (simp_all add: unat_of_nat)
  have t: "c_text (label @ [0]) = Some label" using c_text_terminated [OF assms(2), of "[]"] by simp
  have a: "mem_read 0 (Suc 0) [2 :: u8] = Some [2]" by (simp add: mem_read_def)
  show ?thesis
    by (simp add: upcalls_table sctp_parse_data_channel_open_def l g r1 r2 n r3 t usr_outgoing_data_def a Let_def split_def)
qed

lemma handle_open_packet:
  assumes "length hdr = 12" and "m = open_message ty prio rel label protocol" and "no_nul label"
    and "length label < 2 ^ 16" and "length protocol < 2 ^ 16" and "5 < length label + length protocol"
  shows "\<exists>s' evs u'. sctp_handle_sctp_packet us s (data_packet hdr flags t sid ssn PPID_CONTROL m)
      (length (data_packet hdr flags t sid ssn PPID_CONTROL m)) u = Some (s', evs, u') \<and>
    stream_table s' = stream_table (sctp_add_stream_mapping s label sid) \<and>
    stream_count s' = stream_count (sctp_add_stream_mapping s label sid)"
proof -
  let ?p = "data_packet hdr flags t sid ssn PPID_CONTROL m"
  have l: "length ?p = 28 + length m" using assms(1) by (simp add: data_packet_def)
  have lm: "1 < length m" by (simp add: assms(2) open_message_def)
  have g: "mem_get 12 ?p = Some 0" using assms(1) by (simp add: data_packet_def mem_get_def nth_append)
  have r: "mem_read 20 2 ?p = Some (be16 sid)" "mem_read 24 4 ?p = Some (be32 PPID_CONTROL)" "drop 28 ?p = m"
    using assms(1) by (simp_all add: data_packet_def mem_read_def)
  show ?thesis
    using parse_open_message [OF assms(2-5), of us s sid u] l lm g r
    by (simp add: sctp_handle_sctp_packet_def PPID_CONTROL_def of_be16_be16' of_be32_be32')
qed

lemma find_label_snoc:
  "find_label (es @ [e]) l = (case find_label es l of None \<Rightarrow> if strncmp_eq (se_label e) (l @ [0]) 32 then Some (se_sid e) else None | Some s \<Rightarrow> Some s)"
  by (induction es) auto

lemma find_sid_snoc:
  "find_sid (es @ [e]) i = (case find_sid es i of None \<Rightarrow> if se_sid e = i then Some (se_label e) else None | Some l \<Rightarrow> Some l)"
  by (induction es) auto

text \<open>Data channels are found by name: when the packet with the open message a peer makes for a label
  arrives and the table has room, the application finds the stream of the label and the label of
  the stream, unless they were in the table before; labels of up to 32 bytes are told apart.\<close>

theorem open_channel_lookup:
  assumes "length hdr = 12" and "m = open_message ty prio rel label protocol" and "no_nul label"
    and "length label \<le> 32" and "length protocol < 2 ^ 16" and "5 < length label + length protocol"
    and "wf_sctp (sctp pc)" and "stream_count (sctp pc) < SCTP_MAX_STREAMS"
    and "find_label (take (stream_count (sctp pc)) (stream_table (sctp pc))) label = None"
    and "find_sid (take (stream_count (sctp pc)) (stream_table (sctp pc))) sid = None"
    and "sctp_handle_sctp_packet us (sctp pc) (data_packet hdr flags t sid ssn PPID_CONTROL m)
      (length (data_packet hdr flags t sid ssn PPID_CONTROL m)) u = Some (s', evs, u')"
  shows "peer_connection_lookup_sid (pc\<lparr>sctp := s'\<rparr>) label junk = Some (0, sid) \<and>
    peer_connection_lookup_sid_label (pc\<lparr>sctp := s'\<rparr>) sid = Some (Some (strncpy_text 32 label))"
proof -
  let ?s = "sctp pc" and ?e = "\<lparr>se_label = strncpy_text 32 label, se_sid = sid\<rparr>"
  have "length label < 2 ^ 16" using assms(4) by simp
  then have t: "stream_table s' = (stream_table ?s)[stream_count ?s := ?e]" "stream_count s' = stream_count ?s + 1"
    using handle_open_packet [OF assms(1-3) _ assms(5,6), of us ?s flags t sid ssn u] assms(8,11)
    by (auto simp: sctp_add_stream_mapping_def)
  have k: "stream_count ?s < length (stream_table ?s)" using assms(7,8) by (simp add: wf_sctp_def)
  then have tk: "take (stream_count s') (stream_table s') = take (stream_count ?s) (stream_table ?s) @ [?e]"
    using t by (simp add: take_Suc_conv_app_nth)
  have c: "c_cut 32 (strncpy_text 32 label) = label" "c_cut 32 (label @ [0]) = label"
    using assms(3,4) by (cases "length label = 32"; auto simp: c_cut_def strncpy_text_def no_nul_def takeWhile_append)+
  show ?thesis
    using k t tk assms(9,10) c
    by (simp add: peer_connection_lookup_sid_def peer_connection_lookup_sid_label_def find_label_snoc find_sid_snoc strncmp_eq_def)
qed

lemma open_channel_lookup_witness:
  "\<exists>s' evs u'. peer_connection_lookup_sid (example_mem\<lparr>sctp := s'\<rparr>) (str ''chat'') 0 = Some (0, 3) \<and>
    sctp_handle_sctp_packet example_usr sctp_zero
      (data_packet (replicate 12 0) 3 0 3 0 PPID_CONTROL (open_message DATA_CHANNEL_RELIABLE 0 0 (str ''chat'') (str ''json'')))
      (length (data_packet (replicate 12 0) 3 0 3 0 PPID_CONTROL (open_message DATA_CHANNEL_RELIABLE 0 0 (str ''chat'') (str ''json''))))
      () = Some (s', evs, u')"
proof -
  let ?m = "open_message DATA_CHANNEL_RELIABLE 0 0 (str ''chat'') (str ''json'')"
  let ?p = "data_packet (replicate 12 0) 3 0 3 0 PPID_CONTROL ?m"
  have n: "no_nul (str ''chat'')" by (simp add: no_nul_def)
  have w: "wf_sctp (sctp example_mem)" by (simp add: example_mem_def wf_sctp_def sctp_zero_def)
  have c: "stream_count (sctp example_mem) = 0" "sctp example_mem = sctp_zero" by (simp_all add: example_mem_def sctp_zero_def)
  obtain s' evs u' where h: "sctp_handle_sctp_packet example_usr (sctp example_mem) ?p (length ?p) () = Some (s', evs, u')"
    using handle_open_packet [OF _ refl n, of "replicate 12 0" "str ''json''" example_usr "sctp example_mem" 3 0 3 0
        DATA_CHANNEL_RELIABLE 0 0 "()"] by fastforce
  show ?thesis
    using open_channel_lookup [OF _ refl n _ _ _ w _ _ _ h, of 0] h c by (fastforce simp: SCTP_MAX_STREAMS_def)
qed

end
