(* ===== verification/Peer_Sdp.thy ===== *)
theory Peer_Sdp
  imports Peer_Safety
begin

text \<open>
  The session description from one peer to the other: which lines \<^const>\<open>sdp_sections\<close> writes, and what
  \<^const>\<open>remote_description_lines\<close> of the other side takes from them.
\<close>

section \<open>The lines of a local description\<close>

fun video_lines :: "MediaCodec \<Rightarrow> bytes list" where
  "video_lines CODEC_H264 = h264_lines"
| "video_lines CODEC_AV1 = av1_lines"
| "video_lines _ = []"

fun audio_lines :: "MediaCodec \<Rightarrow> bytes list" where
  "audio_lines CODEC_PCMA = pcma_lines"
| "audio_lines CODEC_PCMU = pcmu_lines"
| "audio_lines CODEC_OPUS = opus_lines"
| "audio_lines _ = []"

definition channel_lines :: "DataChannelType \<Rightarrow> bytes list" where
  "channel_lines t = (if t = DATA_CHANNEL_NONE then [] else datachannel_lines)"

definition transport_lines :: "DtlsSrtpRole \<Rightarrow> bytes \<Rightarrow> bytes \<Rightarrow> bytes \<Rightarrow> bytes list" where
  "transport_lines role uf pwd fp = [str ''a=ice-ufrag:'' @ uf, str ''a=ice-pwd:'' @ pwd, str ''a=fingerprint:sha-256 '' @ fp,
     peer_connection_dtls_role_setup_value role]"

definition description_lines :: "PeerConfiguration \<Rightarrow> DtlsSrtpRole \<Rightarrow> bytes \<Rightarrow> bytes \<Rightarrow> bytes \<Rightarrow> bytes list" where
  "description_lines cfg role uf pwd fp =
     session_lines @ [bundle_line (video_codec cfg \<noteq> CODEC_NONE) (audio_codec cfg \<noteq> CODEC_NONE) (datachannel cfg \<noteq> DATA_CHANNEL_NONE)] @
     transport_lines role uf pwd fp @ video_lines (video_codec cfg) @ audio_lines (audio_codec cfg) @ channel_lines (datachannel cfg)"

lemma proper_section_lines:
  shows "\<forall>l \<in> set (video_lines v). proper_line l" and "\<forall>l \<in> set (audio_lines c). proper_line l"
    and "\<forall>l \<in> set (channel_lines t). proper_line l"
proof -
  show "\<forall>l \<in> set (video_lines v). proper_line l"
    using proper_media_lines(1,2) by (cases v) (simp_all add: list_all_iff)
  show "\<forall>l \<in> set (audio_lines c). proper_line l"
    using proper_media_lines(3-5) by (cases c) (simp_all add: list_all_iff)
  show "\<forall>l \<in> set (channel_lines t). proper_line l"
    using proper_media_lines(6) by (simp add: list_all_iff channel_lines_def)
qed

lemma length_section_lines:
  shows "length (lines_text (video_lines v)) \<le> 300" and "length (lines_text (audio_lines c)) \<le> 300"
    and "length (lines_text (channel_lines t)) \<le> 300"
proof -
  show "length (lines_text (video_lines v)) \<le> 300" by (cases v) (simp_all only: video_lines.simps media_lines_length, simp_all)
  show "length (lines_text (audio_lines c)) \<le> 300" by (cases c) (simp_all only: audio_lines.simps media_lines_length, simp_all)
  show "length (lines_text (channel_lines t)) \<le> 300" using media_lines_length(6) by (simp add: channel_lines_def)
qed

lemma append_sections:
  "append_video v s = sdp_append_all (video_lines v) s" "append_audio c s = sdp_append_all (audio_lines c) s"
  "(if t \<noteq> DATA_CHANNEL_NONE then sdp_append_datachannel s else Some s) = sdp_append_all (channel_lines t) s"
proof -
  show "append_video v s = sdp_append_all (video_lines v) s"
    by (cases v) (simp_all add: append_video_def sdp_append_h264_def sdp_append_av1_def)
  show "append_audio c s = sdp_append_all (audio_lines c) s"
    by (cases c) (simp_all add: append_audio_def sdp_append_pcma_def sdp_append_pcmu_def sdp_append_opus_def)
  show "(if t \<noteq> DATA_CHANNEL_NONE then sdp_append_datachannel s else Some s) = sdp_append_all (channel_lines t) s"
    by (simp add: channel_lines_def sdp_append_datachannel_def)
qed

definition line_bytes :: "bytes \<Rightarrow> bool" where
  "line_bytes t \<longleftrightarrow> 0 \<notin> set t \<and> 10 \<notin> set t \<and> 13 \<notin> set t \<and> 61 \<notin> set t \<and> length t \<le> 200"

lemma proper_transport_lines:
  assumes "line_bytes uf" and "line_bytes pwd" and "line_bytes fp"
  shows "\<forall>l \<in> set (transport_lines role uf pwd fp). proper_line l"
proof -
  have "list_all proper_line [str ''a=setup:passive'', str ''a=setup:active'']" by code_simp
  then show ?thesis
    using assms by (auto simp: transport_lines_def line_bytes_def proper_line_def peer_connection_dtls_role_setup_value_def)
qed

lemma length_transport_lines:
  assumes "line_bytes uf" and "line_bytes pwd" and "line_bytes fp"
  shows "length (lines_text (transport_lines role uf pwd fp)) \<le> 700"
  using assms
  by (auto simp: transport_lines_def length_lines_text line_bytes_def peer_connection_dtls_role_setup_value_def str_def)

lemma sdp_sections_holds:
  assumes "c_text (local_ufrag (agent pc)) = Some uf" and "c_text (local_upwd (agent pc)) = Some pwd"
    and "c_text (local_fingerprint (dtls_srtp pc)) = Some fp" and "line_bytes uf" and "line_bytes pwd" and "line_bytes fp"
  shows "\<exists>s. sdp_sections pc role (replicate CONFIG_SDP_BUFFER_SIZE 0) = Some s \<and>
    holds s (lines_text (description_lines (config pc) role uf pwd fp))"
proof -
  let ?v = "video_codec (config pc)" and ?c = "audio_codec (config pc)" and ?t = "datachannel (config pc)"
  let ?T = "transport_lines role uf pwd fp"
  let ?L1 = "session_lines @ [bundle_line (?v \<noteq> CODEC_NONE) (?c \<noteq> CODEC_NONE) (?t \<noteq> DATA_CHANNEL_NONE)]"
  have z: "holds (replicate CONFIG_SDP_BUFFER_SIZE 0) []"
    by (simp add: holds_def CONFIG_SDP_BUFFER_SIZE_def no_nul_def)
      (metis One_nat_def replicate_Suc Suc_eq_plus1 numeral_eq_Suc)
  obtain s1 where s1: "sdp_create (replicate CONFIG_SDP_BUFFER_SIZE 0) (?v \<noteq> CODEC_NONE) (?c \<noteq> CODEC_NONE) (?t \<noteq> DATA_CHANNEL_NONE) = Some s1"
    "holds s1 (lines_text ?L1)"
    using sdp_create_holds [OF z] by blast
  have l1: "length (lines_text ?L1) \<le> 340"
    using media_lines_length(7) length_bundle_line [of "?v \<noteq> CODEC_NONE" "?c \<noteq> CODEC_NONE" "?t \<noteq> DATA_CHANNEL_NONE"] by simp
  let ?R = "?T @ video_lines ?v @ audio_lines ?c @ channel_lines ?t"
  have p: "\<forall>l \<in> set ?R. proper_line l"
    using proper_transport_lines [OF assms(4-6)] proper_section_lines by auto
  have "length (lines_text ?L1) + length (lines_text ?R) < CONFIG_SDP_BUFFER_SIZE"
    using l1 length_transport_lines [OF assms(4-6), of role] length_section_lines(1) [of ?v] length_section_lines(2) [of ?c]
      length_section_lines(3) [of ?t]
    by (simp add: CONFIG_SDP_BUFFER_SIZE_def)
  from sdp_append_all_holds [OF s1(2) p this] obtain s where
    s: "sdp_append_all ?R s1 = Some s" "holds s (lines_text (?L1 @ ?R))" by auto
  have "sdp_sections pc role (replicate CONFIG_SDP_BUFFER_SIZE 0) = sdp_append_all ?R s1"
    using s1(1) assms(1-3)
    by (simp only: sdp_sections_def append_sections sdp_append_all_append transport_lines_def Option.bind_assoc bind.bind_lunit)
  then show ?thesis using s by (simp add: description_lines_def)
qed

text \<open>The description up to the candidates is, whatever the configuration, exactly the session lines, the
  group of the configured media, the credentials, the fingerprint and the DTLS role, and one media
  section for each codec the library has and for the data channel; it is written within the buffer.\<close>

theorem sdp_sections_text:
  assumes "c_text (local_ufrag (agent pc)) = Some uf" and "c_text (local_upwd (agent pc)) = Some pwd"
    and "c_text (local_fingerprint (dtls_srtp pc)) = Some fp" and "line_bytes uf" and "line_bytes pwd" and "line_bytes fp"
  shows "Option.bind (sdp_sections pc role (replicate CONFIG_SDP_BUFFER_SIZE 0)) c_text =
    Some (lines_text (description_lines (config pc) role uf pwd fp))"
  using sdp_sections_holds [OF assms, of role] holds_text by fastforce

section \<open>What the other side takes from it\<close>

text \<open>The state of the scan that matters: the buffer is whole, the description is no repetition, and
  SSRC lines go to \<open>target\<close>.\<close>

definition scan_at :: "SsrcTarget option \<Rightarrow> RemoteScan \<Rightarrow> bool" where
  "scan_at target sc \<longleftrightarrow> length (scan_buf sc) = 256 \<and> scan_ssrc sc = target \<and> \<not> scan_update sc"

definition short_line :: "bytes \<Rightarrow> bool" where
  "short_line l \<longleftrightarrow> length l \<le> 255 \<and> 0 \<notin> set l \<and> 13 \<notin> set l"

lemma line_buffer:
  assumes "scan_at t sc" and "short_line l"
  shows "mem_write 0 (l @ [0]) (scan_buf sc) = Some (l @ 0 # drop (length l + 1) (scan_buf sc))"
    "length (l @ 0 # drop (length l + 1) (scan_buf sc)) = 256"
    "n \<le> length l \<Longrightarrow> takeWhile (\<lambda>b. b \<noteq> 0) (drop n (l @ 0 # r)) = drop n l"
proof -
  show "mem_write 0 (l @ [0]) (scan_buf sc) = Some (l @ 0 # drop (length l + 1) (scan_buf sc))"
    "length (l @ 0 # drop (length l + 1) (scan_buf sc)) = 256"
    using assms by (simp_all add: mem_write_def scan_at_def short_line_def)
  have "no_nul (drop n l)" using assms(2) by (auto simp: short_line_def no_nul_def dest: in_set_dropD)
  then show "n \<le> length l \<Longrightarrow> takeWhile (\<lambda>b. b \<noteq> 0) (drop n (l @ 0 # r)) = drop n l" by simp
qed

text \<open>Lines that only move the target or set an SSRC.\<close>

definition line_target :: "bytes \<Rightarrow> SsrcTarget option \<Rightarrow> SsrcTarget option" where
  "line_target l t = (if contains l ''m=video'' then Some VideoSsrc else if contains l ''m=audio'' then Some AudioSsrc else t)"

lemma line_shape:
  assumes "scan_at t sc" and "short_line l"
  obtains sc' where "remote_description_line l (pc, sc) = do {
      u \<leftarrow> (if contains l ''a=ice-ufrag'' then do {
             uf \<leftarrow> c_text (remote_ufrag (agent pc));
             Some (uf \<noteq> [] \<and> starts_with uf (takeWhile (\<lambda>b. b \<noteq> 0) (drop 12 (scan_buf sc')))) }
           else Some False);
      Some (set_remote_ssrc (line_target l t) l (if contains l ''a=fingerprint''
               then pc\<lparr>dtls_srtp := (dtls_srtp pc)\<lparr>remote_fingerprint :=
                      strncpy_text DTLS_SRTP_FINGERPRINT_LENGTH (takeWhile (\<lambda>b. b \<noteq> 0) (drop 22 (scan_buf sc')))\<rparr>\<rparr>
               else pc), sc'\<lparr>scan_update := u\<rparr>) }"
    "scan_at (line_target l t) sc'" "scan_buf sc' = l @ 0 # drop (length l + 1) (scan_buf sc)"
proof -
  let ?b = "l @ 0 # drop (length l + 1) (scan_buf sc)"
  let ?role = "if contains l ''a=setup:passive'' then DTLS_SRTP_ROLE_CLIENT
                 else if contains l ''a=setup:active'' then DTLS_SRTP_ROLE_SERVER else scan_role sc"
  let ?sc = "\<lparr>scan_buf = ?b, scan_role = ?role, scan_update = False, scan_ssrc = line_target l t\<rparr>"
  have f: "scan_ssrc sc = t" "\<not> scan_update sc" using assms(1) by (simp_all add: scan_at_def)
  have a: "agent (if c then pc\<lparr>dtls_srtp := d\<rparr> else pc) = agent pc" for c d by simp
  show ?thesis
  proof (rule that [of ?sc])
    show "scan_at (line_target l t) ?sc" using line_buffer(2) [OF assms] by (simp add: scan_at_def)
    show "remote_description_line l (pc, sc) = do {
      u \<leftarrow> (if contains l ''a=ice-ufrag'' then do {
             uf \<leftarrow> c_text (remote_ufrag (agent pc));
             Some (uf \<noteq> [] \<and> starts_with uf (takeWhile (\<lambda>b. b \<noteq> 0) (drop 12 (scan_buf ?sc)))) }
           else Some False);
      Some (set_remote_ssrc (line_target l t) l (if contains l ''a=fingerprint''
               then pc\<lparr>dtls_srtp := (dtls_srtp pc)\<lparr>remote_fingerprint :=
                      strncpy_text DTLS_SRTP_FINGERPRINT_LENGTH (takeWhile (\<lambda>b. b \<noteq> 0) (drop 22 (scan_buf ?sc)))\<rparr>\<rparr>
               else pc), ?sc\<lparr>scan_update := u\<rparr>) }"
      unfolding remote_description_line_def Let_def prod.case line_buffer(1) [OF assms] bind.bind_lunit a
        line_target_def [symmetric] f(1)
      using f(2) by (simp add: line_target_def)
  qed simp
qed

lemma media_line:
  assumes "scan_at t sc" and "short_line l" and "\<not> contains l ''a=fingerprint''" and "\<not> contains l ''a=ice-ufrag''"
  shows "\<exists>sc'. remote_description_line l (pc, sc) = Some (set_remote_ssrc (line_target l t) l pc, sc') \<and> scan_at (line_target l t) sc'"
  by (rule line_shape [OF assms(1,2), of pc]) (use assms(3,4) in \<open>auto simp: scan_at_def\<close>)

text \<open>The SSRCs the lines \<open>ls\<close> set, for the target of each.\<close>

fun ssrc_sets :: "bytes list \<Rightarrow> SsrcTarget option \<Rightarrow> (SsrcTarget \<times> u32) list" where
  "ssrc_sets [] t = []"
| "ssrc_sets (l # ls) t = (let t = line_target l t in
     (case strstr l (str ''a=ssrc:'') of None \<Rightarrow> []
      | Some k \<Rightarrow> (case t of None \<Rightarrow> [] | Some x \<Rightarrow> [(x, strtoul (drop (k + 7) l))])) @ ssrc_sets ls t)"

fun put_ssrcs :: "(SsrcTarget \<times> u32) list \<Rightarrow> ('t, 'p) PeerConnection \<Rightarrow> ('t, 'p) PeerConnection" where
  "put_ssrcs [] pc = pc"
| "put_ssrcs ((VideoSsrc, i) # xs) pc = put_ssrcs xs (pc\<lparr>remote_vssrc := i\<rparr>)"
| "put_ssrcs ((AudioSsrc, i) # xs) pc = put_ssrcs xs (pc\<lparr>remote_assrc := i\<rparr>)"

lemma put_ssrcs_line:
  "put_ssrcs (ssrc_sets (l # ls) t) pc = put_ssrcs (ssrc_sets ls (line_target l t)) (set_remote_ssrc (line_target l t) l pc)"
  by (simp add: set_remote_ssrc_def Let_def split: option.split SsrcTarget.split)

definition media_only :: "bytes \<Rightarrow> bool" where
  "media_only l \<longleftrightarrow> short_line l \<and> \<not> contains l ''a=fingerprint'' \<and> \<not> contains l ''a=ice-ufrag''"

lemma remote_lines_step:
  assumes "13 \<notin> set l" and "remote_description_line l x = Some y"
  shows "remote_description_lines (lines_text (l # ls)) x = remote_description_lines (lines_text ls) y"
proof -
  have "strstr (lines_text (l # ls)) CRLF = Some (length l)" using strstr_first [OF assms(1), of 10 "lines_text ls"] by (simp add: CRLF_def)
  then show ?thesis using assms(2) by (subst remote_description_lines.simps) simp
qed

lemma remote_media_lines:
  assumes "scan_at t sc" and "\<forall>l \<in> set ls. media_only l"
  shows "\<exists>sc'. remote_description_lines (lines_text (ls @ ms)) (pc, sc) =
      remote_description_lines (lines_text ms) (put_ssrcs (ssrc_sets ls t) pc, sc') \<and> scan_at (fold line_target ls t) sc'"
  using assms
proof (induction ls arbitrary: t sc pc)
  case (Cons l ls)
  have m: "media_only l" using Cons.prems(2) by simp
  then obtain sc1 where 1: "remote_description_line l (pc, sc) = Some (set_remote_ssrc (line_target l t) l pc, sc1)"
    "scan_at (line_target l t) sc1"
    using media_line [OF Cons.prems(1), of l pc] by (auto simp: media_only_def)
  have "13 \<notin> set l" using m by (simp add: media_only_def short_line_def)
  from remote_lines_step [OF this 1(1), of "ls @ ms"] Cons.IH [OF 1(2)] Cons.prems(2) show ?case
    unfolding put_ssrcs_line by fastforce
qed auto

lemma media_only_lines:
  "list_all media_only h264_lines" "list_all media_only av1_lines" "list_all media_only pcma_lines"
  "list_all media_only pcmu_lines" "list_all media_only opus_lines" "list_all media_only datachannel_lines"
  "list_all media_only session_lines" "list_all media_only [str ''a=setup:passive'']" "list_all media_only [str ''a=setup:active'']"
  by code_simp+

lemma media_only_bundle: "media_only (bundle_line v a d)"
  by (induct v; induct a; induct d; code_simp)

lemma ssrc_sets_append: "ssrc_sets (ls @ ms) t = ssrc_sets ls t @ ssrc_sets ms (fold line_target ls t)"
  by (induction ls arbitrary: t) (simp_all add: Let_def)

lemma put_ssrcs_append: "put_ssrcs (xs @ ys) pc = put_ssrcs ys (put_ssrcs xs pc)"
  by (induction xs pc rule: put_ssrcs.induct) auto

lemma section_ssrcs:
  "ssrc_sets session_lines t = []" "ssrc_sets h264_lines t = [(VideoSsrc, 1)]" "ssrc_sets av1_lines t = [(VideoSsrc, 2)]"
  "ssrc_sets pcma_lines t = [(AudioSsrc, 4)]" "ssrc_sets pcmu_lines t = [(AudioSsrc, 5)]" "ssrc_sets opus_lines t = [(AudioSsrc, 6)]"
  "ssrc_sets datachannel_lines t = []" "ssrc_sets [str ''a=setup:passive''] t = []" "ssrc_sets [str ''a=setup:active''] t = []"
  by code_simp+

lemma bundle_ssrcs: "ssrc_sets [bundle_line v a d] t = []"
  by (induct v; induct a; induct d; code_simp)

section \<open>Credentials\<close>

text \<open>A line whose only equals sign is its second byte contains an attribute only at its start.\<close>

lemma strstr_mismatch:
  assumes "\<And>i. i < length l \<Longrightarrow> l ! i = 61 \<Longrightarrow> i = 1" and "1 < length p" and "p ! 1 = 61" and "k < length p" and "l ! k \<noteq> p ! k"
  shows "strstr l p = None"
proof (rule ccontr)
  assume "strstr l p \<noteq> None"
  then obtain n where n: "n + length p \<le> length l" "take (length p) (drop n l) = p" using strstr_Some by blast
  have at: "p ! i = l ! (n + i)" if "i < length p" for i
    using n that by (metis add.commute add_leD1 le_add_diff_inverse nth_drop nth_take)
  have "n = 0" using assms(1) [of "n + 1"] assms(2,3) at [of 1] n(1) by simp
  then show False using at [OF assms(4)] assms(5) by simp
qed

lemma one_equals_sign:
  assumes "61 \<notin> set t" and "list_all (\<lambda>i. p ! i = 61 \<longrightarrow> i = 1) [0..<length p]" and "i < length (p @ t)" and "(p @ t) ! i = 61"
  shows "i = 1"
proof (cases "i < length p")
  case False
  then have "t ! (i - length p) \<in> set t" using assms(3) by (intro nth_mem) simp
  then show ?thesis using False assms(1,4) by (simp add: nth_append)
qed (use assms in \<open>auto simp: nth_append list_all_iff\<close>)

lemma strstr_prefix: "p \<noteq> [] \<Longrightarrow> strstr (p @ r) p = Some 0"
  by (cases p) simp_all

definition attribute_line :: "bytes \<Rightarrow> bool" where
  "attribute_line p \<longleftrightarrow> list_all (\<lambda>i. p ! i = 61 \<longrightarrow> i = 1) [0..<length p] \<and> 0 \<notin> set p \<and> 13 \<notin> set p \<and> length p \<le> 50"

lemma attribute_absent:
  assumes "attribute_line p" and "line_bytes t" and "k < length p" and "k < length q" and "p ! k \<noteq> q ! k" and "1 < length q" and "q ! 1 = 61"
  shows "strstr (p @ t) q = None"
proof (rule strstr_mismatch [where k = k])
  show "\<And>i. i < length (p @ t) \<Longrightarrow> (p @ t) ! i = 61 \<Longrightarrow> i = 1"
    using one_equals_sign [of t p] assms(1,2) by (auto simp: attribute_line_def line_bytes_def)
qed (use assms in \<open>simp_all add: nth_append\<close>)

lemma attribute_lines:
  "attribute_line (str ''a=ice-ufrag:'')" "attribute_line (str ''a=ice-pwd:'')" "attribute_line (str ''a=fingerprint:sha-256 '')"
  by code_simp+

lemma attribute_short: "attribute_line p \<Longrightarrow> line_bytes t \<Longrightarrow> short_line (p @ t)"
  by (auto simp: attribute_line_def line_bytes_def short_line_def)

text \<open>None of the three is a media line or sets an SSRC.\<close>

lemma ufrag_line_parts:
  assumes "line_bytes t"
  shows "\<not> contains (str ''a=ice-ufrag:'' @ t) ''a=fingerprint''" "contains (str ''a=ice-ufrag:'' @ t) ''a=ice-ufrag''"
    "line_target (str ''a=ice-ufrag:'' @ t) c = c" "strstr (str ''a=ice-ufrag:'' @ t) (str ''a=ssrc:'') = None"
proof -
  note a = attribute_absent [OF attribute_lines(1) assms]
  show "\<not> contains (str ''a=ice-ufrag:'' @ t) ''a=fingerprint''" unfolding contains_def by (subst a [of 2]) simp_all
  show "contains (str ''a=ice-ufrag:'' @ t) ''a=ice-ufrag''" by (simp add: contains_def)
  show "strstr (str ''a=ice-ufrag:'' @ t) (str ''a=ssrc:'') = None" by (rule a [of 2]) simp_all
  have v: "\<not> contains (str ''a=ice-ufrag:'' @ t) ''m=video''" unfolding contains_def by (subst a [of 0]) simp_all
  have "\<not> contains (str ''a=ice-ufrag:'' @ t) ''m=audio''" unfolding contains_def by (subst a [of 0]) simp_all
  then show "line_target (str ''a=ice-ufrag:'' @ t) c = c" using v by (simp only: line_target_def if_False)
qed

lemma pwd_line_parts:
  assumes "line_bytes t"
  shows "\<not> contains (str ''a=ice-pwd:'' @ t) ''a=fingerprint''" "\<not> contains (str ''a=ice-pwd:'' @ t) ''a=ice-ufrag''"
    "line_target (str ''a=ice-pwd:'' @ t) c = c" "strstr (str ''a=ice-pwd:'' @ t) (str ''a=ssrc:'') = None"
proof -
  note a = attribute_absent [OF attribute_lines(2) assms]
  show "\<not> contains (str ''a=ice-pwd:'' @ t) ''a=fingerprint''" unfolding contains_def by (subst a [of 2]) simp_all
  show "\<not> contains (str ''a=ice-pwd:'' @ t) ''a=ice-ufrag''" unfolding contains_def by (subst a [of 6]) simp_all
  show "strstr (str ''a=ice-pwd:'' @ t) (str ''a=ssrc:'') = None" by (rule a [of 2]) simp_all
  have v: "\<not> contains (str ''a=ice-pwd:'' @ t) ''m=video''" unfolding contains_def by (subst a [of 0]) simp_all
  have "\<not> contains (str ''a=ice-pwd:'' @ t) ''m=audio''" unfolding contains_def by (subst a [of 0]) simp_all
  then show "line_target (str ''a=ice-pwd:'' @ t) c = c" using v by (simp only: line_target_def if_False)
qed

lemma fingerprint_line_parts:
  assumes "line_bytes t"
  shows "contains (str ''a=fingerprint:sha-256 '' @ t) ''a=fingerprint''" "\<not> contains (str ''a=fingerprint:sha-256 '' @ t) ''a=ice-ufrag''"
    "line_target (str ''a=fingerprint:sha-256 '' @ t) c = c" "strstr (str ''a=fingerprint:sha-256 '' @ t) (str ''a=ssrc:'') = None"
proof -
  note a = attribute_absent [OF attribute_lines(3) assms]
  show "contains (str ''a=fingerprint:sha-256 '' @ t) ''a=fingerprint''" by (simp add: contains_def)
  show "\<not> contains (str ''a=fingerprint:sha-256 '' @ t) ''a=ice-ufrag''" unfolding contains_def by (subst a [of 2]) simp_all
  show "strstr (str ''a=fingerprint:sha-256 '' @ t) (str ''a=ssrc:'') = None" by (rule a [of 2]) simp_all
  have v: "\<not> contains (str ''a=fingerprint:sha-256 '' @ t) ''m=video''" unfolding contains_def by (subst a [of 0]) simp_all
  have "\<not> contains (str ''a=fingerprint:sha-256 '' @ t) ''m=audio''" unfolding contains_def by (subst a [of 0]) simp_all
  then show "line_target (str ''a=fingerprint:sha-256 '' @ t) c = c" using v by (simp only: line_target_def if_False)
qed

lemma setup_line_parts:
  shows "media_only (peer_connection_dtls_role_setup_value role)" and "ssrc_sets [peer_connection_dtls_role_setup_value role] c = []"
    and "line_target (peer_connection_dtls_role_setup_value role) c = c"
proof -
  let ?p = "str ''a=setup:passive''" and ?a = "str ''a=setup:active''"
  have v: "peer_connection_dtls_role_setup_value role = ?p \<or> peer_connection_dtls_role_setup_value role = ?a"
    by (simp add: peer_connection_dtls_role_setup_value_def)
  have "media_only ?p" "media_only ?a" by code_simp+
  then show "media_only (peer_connection_dtls_role_setup_value role)" using v by metis
  show "ssrc_sets [peer_connection_dtls_role_setup_value role] c = []" using v section_ssrcs(8,9) by metis
  have "line_target ?p c = c" "line_target ?a c = c" by code_simp+
  then show "line_target (peer_connection_dtls_role_setup_value role) c = c" using v by metis
qed

text \<open>The description is no repetition: the receiver has no user fragment yet, or one that \<open>uf\<close> does not
  begin with.\<close>

definition other_ufrag :: "bytes \<Rightarrow> ('t, 'p) PeerConnection \<Rightarrow> bool" where
  "other_ufrag uf pc \<longleftrightarrow> (case c_text (remote_ufrag (agent pc)) of None \<Rightarrow> False
     | Some t \<Rightarrow> t = [] \<or> \<not> starts_with t uf)"

text \<open>The four lines of the transport: only the stored fingerprint changes.\<close>

lemma remote_transport_lines:
  assumes "scan_at c sc" and "line_bytes uf" and "line_bytes pwd" and "line_bytes fp" and "other_ufrag uf pc"
  shows "\<exists>sc'. remote_description_lines (lines_text (transport_lines role uf pwd fp @ ms)) (pc, sc) = remote_description_lines (lines_text ms)
      (pc\<lparr>dtls_srtp := (dtls_srtp pc)\<lparr>remote_fingerprint := strncpy_text DTLS_SRTP_FINGERPRINT_LENGTH fp\<rparr>\<rparr>, sc') \<and> scan_at c sc'"
proof -
  let ?u = "str ''a=ice-ufrag:'' @ uf" and ?w = "str ''a=ice-pwd:'' @ pwd" and ?f = "str ''a=fingerprint:sha-256 '' @ fp"
  let ?s = "peer_connection_dtls_role_setup_value role"
  let ?pc = "pc\<lparr>dtls_srtp := (dtls_srtp pc)\<lparr>remote_fingerprint := strncpy_text DTLS_SRTP_FINGERPRINT_LENGTH fp\<rparr>\<rparr>"
  have sh: "short_line ?u" "short_line ?w" "short_line ?f"
    using attribute_short attribute_lines assms(2-4) by blast+
  have quiet: "set_remote_ssrc x l q = q" if "strstr l (str ''a=ssrc:'') = None" for x l and q :: "('a, 'b) PeerConnection"
    using that by (simp add: set_remote_ssrc_def)
  obtain s1 where 1: "remote_description_line ?u (pc, sc) = Some (pc, s1)" "scan_at c s1"
  proof (rule line_shape [OF assms(1) sh(1), of pc])
    fix s1
    assume r: "remote_description_line ?u (pc, sc) = do {
      u \<leftarrow> (if contains ?u ''a=ice-ufrag'' then do {
             uf' \<leftarrow> c_text (remote_ufrag (agent pc));
             Some (uf' \<noteq> [] \<and> starts_with uf' (takeWhile (\<lambda>b. b \<noteq> 0) (drop 12 (scan_buf s1)))) }
           else Some False);
      Some (set_remote_ssrc (line_target ?u c) ?u (if contains ?u ''a=fingerprint''
               then pc\<lparr>dtls_srtp := (dtls_srtp pc)\<lparr>remote_fingerprint :=
                      strncpy_text DTLS_SRTP_FINGERPRINT_LENGTH (takeWhile (\<lambda>b. b \<noteq> 0) (drop 22 (scan_buf s1)))\<rparr>\<rparr>
               else pc), s1\<lparr>scan_update := u\<rparr>) }" and s1: "scan_at (line_target ?u c) s1"
      and b: "scan_buf s1 = ?u @ 0 # drop (length ?u + 1) (scan_buf sc)"
    note p = ufrag_line_parts [OF assms(2)]
    have d: "takeWhile (\<lambda>b. b \<noteq> 0) (drop 12 (scan_buf s1)) = uf"
      unfolding b using line_buffer(3) [OF assms(1) sh(1), of 12] by simp
    obtain t where t: "c_text (remote_ufrag (agent pc)) = Some t" "\<not> (t \<noteq> [] \<and> starts_with t uf)"
      using assms(5) by (auto simp: other_ufrag_def split: option.splits)
    have "remote_description_line ?u (pc, sc) = Some (pc, s1\<lparr>scan_update := False\<rparr>)"
      unfolding r p(3) quiet [OF p(4)] d using p(1,2) t by (simp only: if_True if_False bind.bind_lunit)
    moreover have "scan_at c (s1\<lparr>scan_update := False\<rparr>)" using s1 p(3) by (simp add: scan_at_def)
    ultimately show thesis by (rule that)
  qed
  obtain s2 where 2: "remote_description_line ?w (pc, s1) = Some (pc, s2)" "scan_at c s2"
    using media_line [OF 1(2) sh(2) pwd_line_parts(1,2) [OF assms(3)], of pc] pwd_line_parts(3,4) [OF assms(3)] quiet by metis
  obtain s3 where 3: "remote_description_line ?f (pc, s2) = Some (?pc, s3)" "scan_at c s3"
  proof (rule line_shape [OF 2(2) sh(3), of pc])
    fix s3
    assume r: "remote_description_line ?f (pc, s2) = do {
      u \<leftarrow> (if contains ?f ''a=ice-ufrag'' then do {
             uf' \<leftarrow> c_text (remote_ufrag (agent pc));
             Some (uf' \<noteq> [] \<and> starts_with uf' (takeWhile (\<lambda>b. b \<noteq> 0) (drop 12 (scan_buf s3)))) }
           else Some False);
      Some (set_remote_ssrc (line_target ?f c) ?f (if contains ?f ''a=fingerprint''
               then pc\<lparr>dtls_srtp := (dtls_srtp pc)\<lparr>remote_fingerprint :=
                      strncpy_text DTLS_SRTP_FINGERPRINT_LENGTH (takeWhile (\<lambda>b. b \<noteq> 0) (drop 22 (scan_buf s3)))\<rparr>\<rparr>
               else pc), s3\<lparr>scan_update := u\<rparr>) }" and s3: "scan_at (line_target ?f c) s3"
      and b: "scan_buf s3 = ?f @ 0 # drop (length ?f + 1) (scan_buf s2)"
    note p = fingerprint_line_parts [OF assms(4)]
    have d: "takeWhile (\<lambda>b. b \<noteq> 0) (drop 22 (scan_buf s3)) = fp"
      unfolding b using line_buffer(3) [OF 2(2) sh(3), of 22] by simp
    have "remote_description_line ?f (pc, s2) = Some (?pc, s3\<lparr>scan_update := False\<rparr>)"
      unfolding r p(3) quiet [OF p(4)] d using p(1,2) by (simp only: if_True if_False bind.bind_lunit)
    moreover have "scan_at c (s3\<lparr>scan_update := False\<rparr>)" using s3 p(3) by (simp add: scan_at_def)
    ultimately show thesis by (rule that)
  qed
  have st: "media_only ?s" "ssrc_sets [?s] c = []" "line_target ?s c = c" by (rule setup_line_parts)+
  then obtain s4 where 4: "remote_description_lines (lines_text ([?s] @ ms)) (?pc, s3) = remote_description_lines (lines_text ms) (?pc, s4)"
    "scan_at c s4"
    using remote_media_lines [OF 3(2), of "[?s]" ms ?pc] by auto
  have n: "13 \<notin> set ?u" "13 \<notin> set ?w" "13 \<notin> set ?f" using sh by (auto simp: short_line_def)
  show ?thesis
    unfolding transport_lines_def append_Cons append_Nil
      remote_lines_step [OF n(1) 1(1)] remote_lines_step [OF n(2) 2(1)] remote_lines_step [OF n(3) 3(1)]
    using 4 unfolding append_Cons append_Nil by blast
qed

section \<open>A description reaches the peer\<close>

fun video_ssrc :: "MediaCodec \<Rightarrow> u32 \<Rightarrow> u32" where
  "video_ssrc CODEC_H264 i = 1"
| "video_ssrc CODEC_AV1 i = 2"
| "video_ssrc _ i = i"

fun audio_ssrc :: "MediaCodec \<Rightarrow> u32 \<Rightarrow> u32" where
  "audio_ssrc CODEC_PCMA i = 4"
| "audio_ssrc CODEC_PCMU i = 5"
| "audio_ssrc CODEC_OPUS i = 6"
| "audio_ssrc _ i = i"

lemma media_lines_only: "\<forall>l \<in> set (video_lines v @ audio_lines c @ channel_lines t). media_only l"
proof -
  have "\<forall>l \<in> set (video_lines v). media_only l" using media_only_lines(1,2) by (cases v) (simp_all add: list_all_iff)
  moreover have "\<forall>l \<in> set (audio_lines c). media_only l" using media_only_lines(3-5) by (cases c) (simp_all add: list_all_iff)
  moreover have "\<forall>l \<in> set (channel_lines t). media_only l" using media_only_lines(6) by (simp add: list_all_iff channel_lines_def)
  ultimately show ?thesis by auto
qed

lemma put_section_ssrcs:
  fixes pc :: "('t, 'p) PeerConnection"
  shows "put_ssrcs (ssrc_sets (video_lines v @ audio_lines c @ channel_lines t) x) pc =
     pc\<lparr>remote_vssrc := video_ssrc v (remote_vssrc pc), remote_assrc := audio_ssrc c (remote_assrc pc)\<rparr>"
proof -
  have "put_ssrcs (ssrc_sets (video_lines v) x) q = q\<lparr>remote_vssrc := video_ssrc v (remote_vssrc q)\<rparr>" for x and q :: "('t, 'p) PeerConnection"
    by (cases v) (simp_all add: section_ssrcs)
  moreover have "put_ssrcs (ssrc_sets (audio_lines c) x) q = q\<lparr>remote_assrc := audio_ssrc c (remote_assrc q)\<rparr>" for x and q :: "('t, 'p) PeerConnection"
    by (cases c) (simp_all add: section_ssrcs)
  moreover have "ssrc_sets (channel_lines t) x = []" for x by (simp add: channel_lines_def section_ssrcs(7))
  ultimately show ?thesis by (simp add: ssrc_sets_append put_ssrcs_append)
qed

text \<open>The lines of the candidates change nothing.\<close>

definition candidate_lines :: "bytes list \<Rightarrow> bytes list" where
  "candidate_lines ts = map (\<lambda>t. str ''a=candidate:'' @ t) ts"

lemma candidate_line_parts:
  assumes "line_bytes t"
  shows "media_only (str ''a=candidate:'' @ t)" and "strstr (str ''a=candidate:'' @ t) (str ''a=ssrc:'') = None"
proof -
  have l: "attribute_line (str ''a=candidate:'')" by code_simp
  note a = attribute_absent [OF l assms]
  have "\<not> contains (str ''a=candidate:'' @ t) ''a=fingerprint''" unfolding contains_def by (subst a [of 2]) simp_all
  moreover have "\<not> contains (str ''a=candidate:'' @ t) ''a=ice-ufrag''" unfolding contains_def by (subst a [of 2]) simp_all
  ultimately show "media_only (str ''a=candidate:'' @ t)" using attribute_short [OF l assms] by (simp only: media_only_def simp_thms)
  show "strstr (str ''a=candidate:'' @ t) (str ''a=ssrc:'') = None" by (rule a [of 2]) simp_all
qed

lemma candidate_lines_parts:
  assumes "\<forall>t \<in> set ts. line_bytes t"
  shows "\<forall>l \<in> set (candidate_lines ts). media_only l" and "ssrc_sets (candidate_lines ts) x = []"
proof -
  show "\<forall>l \<in> set (candidate_lines ts). media_only l" using assms candidate_line_parts(1) by (auto simp: candidate_lines_def)
  show "ssrc_sets (candidate_lines ts) x = []" using assms
  proof (induction ts arbitrary: x)
    case (Cons t ts)
    have l: "strstr (str ''a=candidate:'' @ t) (str ''a=ssrc:'') = None" using candidate_line_parts(2) Cons.prems by simp
    have "ssrc_sets (candidate_lines (t # ts)) x =
        ssrc_sets (candidate_lines ts) (line_target (str ''a=candidate:'' @ t) x)"
      by (simp only: candidate_lines_def list.map ssrc_sets.simps Let_def l option.case append_Nil)
    then show ?case using Cons by simp
  qed (simp add: candidate_lines_def)
qed

lemma remote_description_text:
  assumes "line_bytes uf" and "line_bytes pwd" and "line_bytes fp" and "other_ufrag uf pc" and "\<forall>t \<in> set ts. line_bytes t"
  shows "\<exists>sc. remote_description_lines (lines_text (description_lines cfg role uf pwd fp @ candidate_lines ts)) (pc, remote_scan0) =
    Some (pc\<lparr>dtls_srtp := (dtls_srtp pc)\<lparr>remote_fingerprint := strncpy_text DTLS_SRTP_FINGERPRINT_LENGTH fp\<rparr>,
            remote_vssrc := video_ssrc (video_codec cfg) (remote_vssrc pc),
            remote_assrc := audio_ssrc (audio_codec cfg) (remote_assrc pc)\<rparr>, sc) \<and> \<not> scan_update sc"
proof -
  let ?b = "bundle_line (video_codec cfg \<noteq> CODEC_NONE) (audio_codec cfg \<noteq> CODEC_NONE) (datachannel cfg \<noteq> DATA_CHANNEL_NONE)"
  let ?N = "video_lines (video_codec cfg) @ audio_lines (audio_codec cfg) @ channel_lines (datachannel cfg)"
  let ?M = "?N @ candidate_lines ts"
  let ?pc = "pc\<lparr>dtls_srtp := (dtls_srtp pc)\<lparr>remote_fingerprint := strncpy_text DTLS_SRTP_FINGERPRINT_LENGTH fp\<rparr>\<rparr>"
  let ?T = "transport_lines role uf pwd fp"
  have s0: "scan_at None remote_scan0" by (simp add: scan_at_def remote_scan0_def)
  have m1: "\<forall>l \<in> set (session_lines @ [?b]). media_only l" using media_only_lines(7) media_only_bundle by (auto simp: list_all_iff)
  have e1: "ssrc_sets (session_lines @ [?b]) None = []" by (simp only: ssrc_sets_append section_ssrcs(1) bundle_ssrcs append_Nil)
  obtain s1 c1 where 1: "remote_description_lines (lines_text ((session_lines @ [?b]) @ (?T @ ?M))) (pc, remote_scan0) =
      remote_description_lines (lines_text (?T @ ?M)) (pc, s1)" "scan_at c1 s1"
    using remote_media_lines [OF s0 m1, of "?T @ ?M" pc] unfolding e1 put_ssrcs.simps(1) by blast
  obtain s2 where 2: "remote_description_lines (lines_text (?T @ ?M)) (pc, s1) = remote_description_lines (lines_text ?M) (?pc, s2)" "scan_at c1 s2"
    using remote_transport_lines [OF 1(2) assms(1-4), of role ?M] by blast
  have M: "\<forall>l \<in> set ?M. media_only l" using media_lines_only candidate_lines_parts(1) [OF assms(5)] by (metis Un_iff set_append)
  have "ssrc_sets ?M c1 = ssrc_sets ?N c1"
    unfolding ssrc_sets_append [of ?N] candidate_lines_parts(2) [OF assms(5)] by (rule append_Nil2)
  then have p: "put_ssrcs (ssrc_sets ?M c1) ?pc = ?pc\<lparr>remote_vssrc := video_ssrc (video_codec cfg) (remote_vssrc pc),
      remote_assrc := audio_ssrc (audio_codec cfg) (remote_assrc pc)\<rparr>"
    by (simp add: put_section_ssrcs)
  obtain s3 c3 where 3: "remote_description_lines (lines_text (?M @ [])) (?pc, s2) =
      remote_description_lines (lines_text []) (put_ssrcs (ssrc_sets ?M c1) ?pc, s3)" "scan_at c3 s3"
    using remote_media_lines [OF 2(2) M, where ms = "[]" and pc = ?pc] by blast
  have "remote_description_lines (lines_text []) y = Some y" for y :: "('a, 'b) PeerConnection \<times> RemoteScan"
    by (simp add: remote_description_lines.simps CRLF_def)
  then show ?thesis
    using 1(1) 2(1) 3 unfolding p append_Nil2 by (auto simp: scan_at_def description_lines_def)
qed

lemma remote_description_frame:
  assumes "peer_connection_set_remote_description env b sty (pc, pw) = Some (pc', pw')"
    and "remote_description_lines b (pc, remote_scan0) = Some (q, sc)" and "\<not> scan_update sc"
  shows "\<exists>a st. pc' = q\<lparr>agent := a, pc_state := st\<rparr>"
proof -
  obtain a w where a: "agent_set_remote_description (peer_pton6 env) (peer_mdns env) (agent q) b (world pw) = Some (a, w)"
    using assms by (auto simp: peer_connection_set_remote_description_def Option.bind_eq_Some_conv)
  have f: "fst (STATE_CHANGED s (q\<lparr>agent := a\<rparr>, w')) \<in> {q\<lparr>agent := a\<rparr>, q\<lparr>agent := a, pc_state := s\<rparr>}" for s a w'
    by (simp add: STATE_CHANGED_def)
  have e: "q\<lparr>agent := a\<rparr> = q\<lparr>agent := a, pc_state := pc_state q\<rparr>" for a by simp
  consider "pc' = q\<lparr>agent := a\<rparr>"
    | a' where "STATE_CHANGED PEER_CONNECTION_CHECKING (q\<lparr>agent := a'\<rparr>, pw\<lparr>world := w\<rparr>) = (pc', pw')"
    using assms a by (cases sty) (auto simp: peer_connection_set_remote_description_def Option.bind_eq_Some_conv)
  then show ?thesis
  proof cases
    case (2 a')
    then show ?thesis using f [of PEER_CONNECTION_CHECKING a' "pw\<lparr>world := w\<rparr>"] e [of a'] by (metis fst_conv insertE singletonD)
  qed (use e in blast)
qed

section \<open>The description as it is handed out\<close>

lemma add_local_candidate_frame:
  "add_local_candidate a ty x = Some a' \<Longrightarrow> local_ufrag a' = local_ufrag a \<and> local_upwd a' = local_upwd a"
  by (auto simp: add_local_candidate_def set_local_candidate_def Let_def Option.bind_eq_Some_conv)

lemma create_addr_frames:
  shows "agent_create_host_addr os a w = Some (r, a', w') \<Longrightarrow> local_ufrag a' = local_ufrag a \<and> local_upwd a' = local_upwd a"
    and "agent_create_stun_addr os a sa w = Some (r, a', w') \<Longrightarrow> local_ufrag a' = local_ufrag a \<and> local_upwd a' = local_upwd a"
    and "agent_create_turn_addr hmac md5 os a sa user credential w = Some (r, a', w') \<Longrightarrow>
      local_ufrag a' = local_ufrag a \<and> local_upwd a' = local_upwd a"
  by (auto simp: agent_create_host_addr_def agent_create_stun_addr_def agent_create_turn_addr_def set_local_candidate_def
      Let_def Option.bind_eq_Some_conv case_prod_unfold add_local_candidate_frame split: if_splits)

lemma gather_candidate_frame:
  "agent_gather_candidate hmac md5 os a urls user credential w = Some (a', w') \<Longrightarrow>
    local_ufrag a' = local_ufrag a \<and> local_upwd a' = local_upwd a"
  by (auto simp: agent_gather_candidate_def Let_def Option.bind_eq_Some_conv dest: create_addr_frames
      split: option.splits prod.splits if_splits)

lemma gather_servers_frame:
  "gather_servers env ss a w = Some (a', w') \<Longrightarrow> local_ufrag a' = local_ufrag a \<and> local_upwd a' = local_upwd a"
  by (induction env ss a w rule: gather_servers.induct)
    (auto simp: Option.bind_eq_Some_conv, (metis gather_candidate_frame)+)

text \<open>The credentials are made of letters and digits.\<close>

lemma random_text_line: "n \<le> 200 \<Longrightarrow> line_bytes (random_text rnd t n)"
proof -
  assume n: "n \<le> 200"
  have al: "list_all (\<lambda>b. b \<notin> {0, 10, 13, 61}) alphanum" "0 < length alphanum" by (simp_all add: alphanum_def str_def)
  have "alphanum ! (rnd t k mod length alphanum) \<in> set alphanum" for k using al(2) by simp
  then have "\<forall>b \<in> set (random_text rnd t n). b \<notin> {0, 10, 13, 61}"
    using al(1) unfolding random_text_def list_all_iff by auto
  then show ?thesis using n by (auto simp: line_bytes_def) (simp add: random_text_def)
qed

lemma ice_credential_lines:
  assumes "agent_create_ice_credential rnd os a w = Some (a', w')"
  obtains uf pwd where "c_text (local_ufrag a') = Some uf" "c_text (local_upwd a') = Some pwd" "line_bytes uf" "line_bytes pwd"
proof -
  obtain t1 t2 where e: "mem_write 0 (random_text rnd t1 4 @ [0]) (replicate (ICE_UFRAG_LENGTH + 1) 0) = Some (local_ufrag a')"
    "mem_write 0 (random_text rnd t2 24 @ [0]) (replicate (ICE_UPWD_LENGTH + 1) 0) = Some (local_upwd a')"
    using assms by (auto simp: agent_create_ice_credential_def utils_random_string_def Let_def Option.bind_eq_Some_conv case_prod_unfold)
  have l: "line_bytes (random_text rnd t1 4)" "line_bytes (random_text rnd t2 24)" by (simp_all add: random_text_line)
  have "no_nul (random_text rnd t1 4)" "no_nul (random_text rnd t2 24)" using l by (simp_all add: line_bytes_def no_nul_def)
  moreover have "mem_write 0 (x @ [0]) y = Some z \<Longrightarrow> no_nul x \<Longrightarrow> c_text z = Some x" for x y z :: bytes
    by (auto simp: mem_write_def c_text_terminated split: if_splits)
  ultimately have "c_text (local_ufrag a') = Some (random_text rnd t1 4)" "c_text (local_upwd a') = Some (random_text rnd t2 24)"
    using e by blast+
  then show thesis using that l by blast
qed

text \<open>The candidates are printed one after the other.\<close>

lemma append_text_fits:
  assumes "buf = t @ 0 # r" and "no_nul t" and "length t + length l < length buf"
  shows "append_text buf (length buf) l = Some ((t @ l) @ 0 # drop (length l) r)"
  using assms by (simp add: append_text_def c_strlen_terminated snprintf_text_def mem_write_def)

lemma describe_candidates_lines:
  assumes "buf = t @ 0 # r" and "no_nul t" and "map (candidate_line ntop6) cs = map (\<lambda>u. Some (str ''a=candidate:'' @ u @ CRLF)) ts"
    and "\<forall>u \<in> set ts. line_bytes u" and "length t + length (lines_text (candidate_lines ts)) < length buf"
  shows "\<exists>r'. describe_candidates ntop6 cs buf (length buf) = Some (t @ lines_text (candidate_lines ts) @ 0 # r')"
  using assms
proof (induction cs arbitrary: ts t buf r)
  case (Cons c cs)
  then obtain u us where ts: "ts = u # us" by (cases ts) auto
  let ?l = "str ''a=candidate:'' @ u @ CRLF"
  let ?b = "(t @ ?l) @ 0 # drop (length ?l) r"
  have l: "candidate_line ntop6 c = Some ?l" using Cons.prems(3) ts by simp
  have fit: "length t + length ?l + length (lines_text (candidate_lines us)) < length buf"
    using Cons.prems(5) ts by (simp add: candidate_lines_def CRLF_def)
  have n: "no_nul ?l" using Cons.prems(4) ts by (simp add: no_nul_def line_bytes_def CRLF_def str_def)
  have "length t + length ?l < length buf" using fit by linarith
  then have a: "append_text buf (length buf) ?l = Some ?b" by (rule append_text_fits [OF Cons.prems(1,2)])
  have b: "length ?b = length buf" using fit Cons.prems(1) by simp
  have "no_nul (t @ ?l)" using Cons.prems(2) n by (auto simp: no_nul_def)
  moreover have "map (candidate_line ntop6) cs = map (\<lambda>u. Some (str ''a=candidate:'' @ u @ CRLF)) us"
    "\<forall>u \<in> set us. line_bytes u" using Cons.prems(3,4) ts by simp_all
  moreover have "length (t @ ?l) + length (lines_text (candidate_lines us)) < length ?b" unfolding b using fit by simp
  ultimately obtain r' where "describe_candidates ntop6 cs ?b (length ?b) = Some ((t @ ?l) @ lines_text (candidate_lines us) @ 0 # r')"
    using Cons.IH [OF refl] by metis
  then show ?case unfolding describe_candidates.simps l bind.bind_lunit a b ts
    by (simp add: candidate_lines_def CRLF_def)
qed (simp add: candidate_lines_def)

lemma length_description:
  assumes "line_bytes uf" and "line_bytes pwd" and "line_bytes fp"
  shows "length (lines_text (description_lines cfg role uf pwd fp)) \<le> 1940"
  using length_transport_lines [OF assms, of role] length_section_lines(1) [of "video_codec cfg"] length_section_lines(2) [of "audio_codec cfg"]
    length_section_lines(3) [of "datachannel cfg"] media_lines_length(7)
    length_bundle_line [of "video_codec cfg \<noteq> CODEC_NONE" "audio_codec cfg \<noteq> CODEC_NONE" "datachannel cfg \<noteq> DATA_CHANNEL_NONE"]
  by (simp add: description_lines_def)

lemma lines_end: "last (lines_text ls) = 10 \<or> ls = []"
  by (induction ls) auto

lemma description_end:
  "description_lines cfg role uf pwd fp \<noteq> []" "lines_text (description_lines cfg role uf pwd fp) \<noteq> []"
  by (simp_all add: description_lines_def session_lines_def)

lemma candidates_described:
  assumes "map (candidate_line ntop6) (take (local_candidates_count a) (local_candidates a)) =
      map (\<lambda>t. Some (str ''a=candidate:'' @ t @ CRLF)) ts" and "\<forall>t \<in> set ts. line_bytes t"
    and "length (lines_text (candidate_lines ts)) < CONFIG_RECV_BUFFER_SIZE" and "local_candidates_count a \<le> length (local_candidates a)"
  shows "\<exists>b. agent_get_local_description ntop6 a (replicate CONFIG_RECV_BUFFER_SIZE 0) CONFIG_RECV_BUFFER_SIZE = Some b \<and>
    c_text b = Some (lines_text (candidate_lines ts))"
proof -
  have "replicate CONFIG_RECV_BUFFER_SIZE 0 = [] @ 0 # replicate 2047 (0 :: u8)"
    by (simp add: CONFIG_RECV_BUFFER_SIZE_def numeral_eq_Suc)
  from describe_candidates_lines [OF this _ assms(1,2)] obtain r where
    "describe_candidates ntop6 (take (local_candidates_count a) (local_candidates a))
       (replicate CONFIG_RECV_BUFFER_SIZE 0) CONFIG_RECV_BUFFER_SIZE = Some (lines_text (candidate_lines ts) @ 0 # r)"
    using assms(3) by (auto simp: no_nul_def)
  moreover have "no_nul (lines_text (candidate_lines ts))"
    using assms(2) by (induction ts) (auto simp: candidate_lines_def no_nul_def line_bytes_def str_def)
  ultimately show ?thesis using assms(4) by (simp add: agent_get_local_description_def c_text_terminated)
qed

lemma candidates_appended:
  assumes "holds s (lines_text (description_lines cfg role uf pwd fp))" and "line_bytes uf" and "line_bytes pwd" and "line_bytes fp"
    and "\<forall>t \<in> set ts. line_bytes t" and "length (lines_text (candidate_lines ts)) < CONFIG_RECV_BUFFER_SIZE"
  shows "\<exists>s'. sdp_append s (lines_text (candidate_lines ts)) = Some (0, s') \<and>
    c_text s' = Some (lines_text (description_lines cfg role uf pwd fp @ candidate_lines ts))"
proof -
  let ?L = "lines_text (description_lines cfg role uf pwd fp)" and ?ct = "lines_text (candidate_lines ts)"
  have "length ?L + length ?ct + 2 < CONFIG_SDP_BUFFER_SIZE"
    using length_description [OF assms(2-4), of cfg role] assms(6) by (simp add: CONFIG_SDP_BUFFER_SIZE_def CONFIG_RECV_BUFFER_SIZE_def)
  moreover have "no_nul ?ct"
    using assms(5) by (induction ts) (auto simp: candidate_lines_def no_nul_def line_bytes_def str_def)
  ultimately obtain s' where "sdp_append s ?ct = Some (0, s')" "holds s' (line_text ?L ?ct)"
    using sdp_append_holds [OF assms(1)] description_end(2) by blast
  moreover have "line_text ?L ?ct = ?L @ ?ct"
    using lines_end [of "description_lines cfg role uf pwd fp @ candidate_lines ts"] description_end by (simp add: line_text_def)
  ultimately show ?thesis using holds_text by force
qed

text \<open>\<open>create_offer\<close> and \<open>create_answer\<close> hand out the sections followed by one line for each local candidate.\<close>

lemma create_sdp_text:
  assumes "peer_connection_create_sdp env sty (pc0, pw0) = Some (pc, pw)"
    and "length (sdp pc0) = CONFIG_SDP_BUFFER_SIZE" and "length (temp_buf pc0) = CONFIG_RECV_BUFFER_SIZE"
    and "c_text (local_fingerprint (dtls_srtp pc)) = Some fp" and "line_bytes fp"
    and "map (candidate_line (peer_ntop6 env)) (take (local_candidates_count (agent pc)) (local_candidates (agent pc))) =
      map (\<lambda>t. Some (str ''a=candidate:'' @ t @ CRLF)) ts" and "\<forall>t \<in> set ts. line_bytes t"
    and "length (lines_text (candidate_lines ts)) < CONFIG_RECV_BUFFER_SIZE"
  shows "\<exists>uf pwd role. c_text (local_ufrag (agent pc)) = Some uf \<and> line_bytes uf \<and> line_bytes pwd \<and>
    c_text (sdp pc) = Some (lines_text (description_lines (config pc) role uf pwd fp @ candidate_lines ts))"
proof -
  let ?role = "sdp_role sty (config pc0)"
  let ?q = "\<lambda>d a. pc0\<lparr>temp_buf := replicate CONFIG_RECV_BUFFER_SIZE 0, sctp := (sctp pc0)\<lparr>connected := False\<rparr>,
      dtls_srtp := d, agent := a\<rparr>"
  obtain w0 a w1 d s a1 w2 a2 w3 b t r s' where
    a: "agent_create_ice_credential (peer_rnd env) (peer_os env) (sdp_agent sty (agent pc0)) w0 = Some (a, w1)" and
    s: "sdp_sections (?q d a) ?role (replicate CONFIG_SDP_BUFFER_SIZE 0) = Some s" and
    a1: "agent_gather_candidate (peer_hmac env) (peer_md5 env) (peer_os env) a None [] [] w1 = Some (a1, w2)" and
    a2: "gather_servers env (ice_servers (config pc0)) a1 w2 = Some (a2, w3)" and
    b: "agent_get_local_description (peer_ntop6 env) a2 (replicate CONFIG_RECV_BUFFER_SIZE 0) CONFIG_RECV_BUFFER_SIZE = Some b" and
    t: "c_text b = Some t" and s': "sdp_append s t = Some (r, s')" and
    pc: "agent pc = a2" "config pc = config pc0" "dtls_srtp pc = d" "sdp pc = s'"
    using assms(1) unfolding peer_connection_create_sdp_def Let_def case_prod_unfold Option.bind_eq_Some_conv fst_conv snd_conv
    by (auto simp: assms(2,3))
  obtain uf pwd where c: "c_text (local_ufrag a) = Some uf" "c_text (local_upwd a) = Some pwd" "line_bytes uf" "line_bytes pwd"
    using ice_credential_lines [OF a] .
  have u: "local_ufrag a2 = local_ufrag a" using gather_candidate_frame [OF a1] gather_servers_frame [OF a2] by simp
  have "holds s (lines_text (description_lines (config pc) ?role uf pwd fp))"
    using sdp_sections_holds [of "?q d a" uf pwd fp ?role] c assms(4,5) s pc by simp
  moreover have "local_candidates_count a2 \<le> length (local_candidates a2)"
    using b by (simp add: agent_get_local_description_def Option.bind_eq_Some_conv)
  then have "t = lines_text (candidate_lines ts)" using candidates_described [OF assms(6-8)] b t pc(1) by auto
  ultimately have "c_text s' = Some (lines_text (description_lines (config pc) ?role uf pwd fp @ candidate_lines ts))"
    using candidates_appended c(3,4) assms(5,7,8) s' by fastforce
  then show ?thesis using c u pc by auto
qed

text \<open>It is handed out whenever the parts are: no overrun, whatever the configuration.\<close>

lemma create_sdp_runs:
  assumes "length (sdp pc0) = CONFIG_SDP_BUFFER_SIZE" and "length (temp_buf pc0) = CONFIG_RECV_BUFFER_SIZE"
    and "dtls_srtp_init (peer_tls env) (fst (peer_selfsign env (world pw0))) (dtls_srtp_reset_session (peer_tls env) (dtls_srtp pc0))
      (sdp_role sty (config pc0)) = Some (r, d)" and "c_text (local_fingerprint d) = Some fp" and "line_bytes fp"
    and "agent_create_ice_credential (peer_rnd env) (peer_os env) (sdp_agent sty (agent pc0)) (snd (peer_selfsign env (world pw0))) = Some (a, w1)"
    and "c_text (local_ufrag a) = Some uf" and "c_text (local_upwd a) = Some pwd" and "line_bytes uf" and "line_bytes pwd"
    and "agent_gather_candidate (peer_hmac env) (peer_md5 env) (peer_os env) a None [] [] w1 = Some (a1, w2)"
    and "gather_servers env (ice_servers (config pc0)) a1 w2 = Some (a2, w3)"
    and "map (candidate_line (peer_ntop6 env)) (take (local_candidates_count a2) (local_candidates a2)) =
      map (\<lambda>t. Some (str ''a=candidate:'' @ t @ CRLF)) ts" and "\<forall>t \<in> set ts. line_bytes t"
    and "length (lines_text (candidate_lines ts)) < CONFIG_RECV_BUFFER_SIZE" and "local_candidates_count a2 \<le> length (local_candidates a2)"
    and "37 \<notin> set (lines_text (candidate_lines ts))"
  shows "\<exists>pc pw. peer_connection_create_sdp env sty (pc0, pw0) = Some (pc, pw) \<and> agent pc = a2 \<and> dtls_srtp pc = d \<and>
    config pc = config pc0 \<and>
    c_text (sdp pc) = Some (lines_text (description_lines (config pc0) (sdp_role sty (config pc0)) uf pwd fp @ candidate_lines ts))"
proof -
  let ?q = "pc0\<lparr>temp_buf := replicate CONFIG_RECV_BUFFER_SIZE 0, sctp := (sctp pc0)\<lparr>connected := False\<rparr>, dtls_srtp := d, agent := a\<rparr>"
  let ?role = "sdp_role sty (config pc0)"
  obtain s where s: "sdp_sections ?q ?role (replicate CONFIG_SDP_BUFFER_SIZE 0) = Some s"
    "holds s (lines_text (description_lines (config pc0) ?role uf pwd fp))"
    using sdp_sections_holds [of ?q uf pwd fp ?role] assms(4,5,7-10) by auto
  obtain b where b: "agent_get_local_description (peer_ntop6 env) a2 (replicate CONFIG_RECV_BUFFER_SIZE 0) CONFIG_RECV_BUFFER_SIZE = Some b"
    "c_text b = Some (lines_text (candidate_lines ts))" using candidates_described [OF assms(13-16)] by blast
  obtain s' where s': "sdp_append s (lines_text (candidate_lines ts)) = Some (0, s')"
    "c_text s' = Some (lines_text (description_lines (config pc0) ?role uf pwd fp @ candidate_lines ts))"
    using candidates_appended [OF s(2) assms(9,10,5,14,15)] by blast
  show ?thesis
    using assms(3,6,11,12,17) s(1) b s' unfolding peer_connection_create_sdp_def Let_def
    by (simp add: assms(1,2) case_prod_unfold)
qed

text \<open>C8: A description is understood by the peer that gets it: the text that \<open>create_offer\<close> or \<open>create_answer\<close> hands out,
  with its candidate lines, is read by another peer as the fingerprint of the sender's certificate and as the
  SSRCs of the sender's codecs, and nothing else of the receiver's DTLS state changes. The receiver may have no user fragment yet or
  one from an earlier exchange; it must not be one the new fragment begins with, which the code takes for a repetition.
  The candidates fit the buffer they are printed in. With the authentication of completed
  connections this fixes the certificate the other side accepts.\<close>

theorem description_reaches_peer:
  assumes "peer_connection_create_sdp env sty (pc0, pw0) = Some (pc, pw)"
    and "length (sdp pc0) = CONFIG_SDP_BUFFER_SIZE" and "length (temp_buf pc0) = CONFIG_RECV_BUFFER_SIZE"
    and "c_text (local_fingerprint (dtls_srtp pc)) = Some fp" and "line_bytes fp"
    and "map (candidate_line (peer_ntop6 env)) (take (local_candidates_count (agent pc)) (local_candidates (agent pc))) =
      map (\<lambda>t. Some (str ''a=candidate:'' @ t @ CRLF)) ts" and "\<forall>t \<in> set ts. line_bytes t"
    and "length (lines_text (candidate_lines ts)) < CONFIG_RECV_BUFFER_SIZE"
    and "c_text (local_ufrag (agent pc)) = Some uf" and "other_ufrag uf peer"
    and "c_text (sdp pc) = Some description"
    and "peer_connection_set_remote_description env' description sty' (peer, pw') = Some (peer', pw'')"
  shows "c_cut DTLS_SRTP_FINGERPRINT_LENGTH (remote_fingerprint (dtls_srtp peer')) = (if length fp \<le> 160 then fp else take 160 fp) \<and>
    remote_vssrc peer' = video_ssrc (video_codec (config pc)) (remote_vssrc peer) \<and>
    remote_assrc peer' = audio_ssrc (audio_codec (config pc)) (remote_assrc peer) \<and>
    dtls_srtp peer' = (dtls_srtp peer)\<lparr>remote_fingerprint := remote_fingerprint (dtls_srtp peer')\<rparr>"
proof -
  let ?q = "peer\<lparr>dtls_srtp := (dtls_srtp peer)\<lparr>remote_fingerprint := strncpy_text DTLS_SRTP_FINGERPRINT_LENGTH fp\<rparr>,
            remote_vssrc := video_ssrc (video_codec (config pc)) (remote_vssrc peer),
            remote_assrc := audio_ssrc (audio_codec (config pc)) (remote_assrc peer)\<rparr>"
  obtain pwd role where t: "line_bytes uf" "line_bytes pwd"
    "description = lines_text (description_lines (config pc) role uf pwd fp @ candidate_lines ts)"
    using create_sdp_text [OF assms(1-8)] assms(9,11) by auto
  obtain sc where l: "remote_description_lines description (peer, remote_scan0) = Some (?q, sc)" "\<not> scan_update sc"
    using remote_description_text [OF t(1,2) assms(5,10,7), of "config pc" role] t(3) by blast
  obtain a st where "peer' = ?q\<lparr>agent := a, pc_state := st\<rparr>"
    using remote_description_frame [OF assms(12) l] by blast
  moreover have "no_nul fp" using assms(5) by (simp add: line_bytes_def no_nul_def)
  then have "c_cut 160 (strncpy_text 160 fp) = (if length fp \<le> 160 then fp else take 160 fp)"
    by (auto simp: c_cut_def strncpy_text_def no_nul_def takeWhile_append dest: in_set_takeD)
  ultimately show ?thesis by (simp add: DTLS_SRTP_FINGERPRINT_LENGTH_def)
qed

text \<open>A host with one interface, offering video and audio.\<close>

definition host_os :: "unit Os" where
  "host_os = silent_os\<lparr>os_getifaddrs := \<lambda>w. (Some [\<lparr>ifa_name = str ''eth0'', ifa_up = True, ifa_running = True,
     ifa_loopback = False, ifa_addr = Some (AF_INET, [192, 168, 1, 10], 0)\<rparr>], w)\<rparr>"

definition host_agent :: Agent where
  "host_agent = example_agent\<lparr>local_candidates_count := 0, remote_candidates_count := 0,
     udp_sockets := replicate 2 \<lparr>fd = 3, bind_addr = addr_zero\<lparr>family := AF_INET, sin_port := 5000\<rparr>\<rparr>\<rparr>"

definition host_candidate :: IceCandidate where
  "host_candidate = candidate0\<lparr>foundation := str ''0'', component := 1, priority := 2113929471, transport := str ''UDP'',
     addr := addr_zero\<lparr>family := AF_INET, sin_addr := [192, 168, 1, 10]\<rparr>\<rparr>"

definition host_env :: "(unit, unit, bytes, u16) PeerEnv" where
  "host_env = example_env\<lparr>peer_os := host_os, peer_ntop6 := plain_ntop6, peer_pton6 := plain_pton6\<rparr>"

definition host_config :: PeerConfiguration where
  "host_config = \<lparr>ice_servers = replicate 5 None, audio_codec = CODEC_OPUS, video_codec = CODEC_H264,
       datachannel = DATA_CHANNEL_STRING, has_onaudiotrack = True, has_onvideotrack = True, has_on_request_keyframe = True,
       dtls_offer_active = False\<rparr>"

definition example_offerer :: "(unit, bytes) PeerConnection" where
  "example_offerer = example_mem\<lparr>config := host_config, agent := host_agent\<rparr>"

lemma config_offerer: "config example_offerer = host_config"
  by (simp add: example_offerer_def)

lemma host_gathers: "(case agent_create_ice_credential (\<lambda>s k. 0) host_os (sdp_agent SDP_TYPE_OFFER host_agent) () of None \<Rightarrow> False
  | Some (a, w) \<Rightarrow> c_text (local_ufrag a) = Some (str ''0000'') \<and> c_text (local_upwd a) = Some (replicate 24 48) \<and>
    (case agent_gather_candidate (\<lambda>k d. replicate 20 0) id host_os a None [] [] w of None \<Rightarrow> False
    | Some (a, w) \<Rightarrow> take (local_candidates_count a) (local_candidates a) = [host_candidate] \<and>
        local_candidates_count a \<le> length (local_candidates a) \<and> c_text (local_ufrag a) = Some (str ''0000'')))"
  by code_simp

lemma host_line:
  "candidate_line plain_ntop6 host_candidate = Some (str ''a=candidate:'' @ str ''0 1 UDP 2113929471 192.168.1.10 0 typ host'' @ CRLF)"
proof -
  have "wf_addr (addr host_candidate)" "wf_addr (raddr host_candidate)"
    by (simp_all add: host_candidate_def candidate0_def wf_addr_def addr_zero_def)
  note t = addr_text_eq [OF this(1) inet6_ok_plain] addr_text_eq [OF this(2) inet6_ok_plain]
  show ?thesis unfolding candidate_line_def t bind.bind_lunit
    by (simp add: host_candidate_def candidate0_def ip_text_def addr_zero_def AF_INET_def AF_INET6_def
        typ_raddr_text_def snprintf_text_def dec_int_def str_def) (simp add: dec.simps digit_def)
qed

lemma host_offer:
  "\<exists>pc pw. peer_connection_create_sdp host_env SDP_TYPE_OFFER (example_offerer, example_world) = Some (pc, pw) \<and>
    c_text (local_ufrag (agent pc)) = Some (str ''0000'') \<and>
    take (local_candidates_count (agent pc)) (local_candidates (agent pc)) = [host_candidate] \<and>
    c_text (local_fingerprint (dtls_srtp pc)) = Some (fingerprint_text (replicate 32 0xAB)) \<and> config pc = host_config \<and>
    c_text (sdp pc) = Some (lines_text (description_lines host_config DTLS_SRTP_ROLE_SERVER (str ''0000'') (replicate 24 48)
      (fingerprint_text (replicate 32 0xAB)) @ candidate_lines [str ''0 1 UDP 2113929471 192.168.1.10 0 typ host'']))"
proof -
  let ?F = "fingerprint_text (replicate 32 0xAB)" and ?ts = "[str ''0 1 UDP 2113929471 192.168.1.10 0 typ host'']"
  let ?d0 = "dtls_srtp_reset_session (peer_tls host_env) (dtls_srtp example_offerer)"
  have tls: "length (tls_sha256 (peer_tls host_env) raw) = 32" "tls_sha256 (peer_tls host_env) raw = replicate 32 0xAB" for raw
    by (simp_all add: host_env_def example_env_def example_tls_def)
  have "length (local_fingerprint ?d0) = DTLS_SRTP_FINGERPRINT_LENGTH"
    by (simp add: dtls_srtp_reset_session_def example_offerer_def example_mem_def example_dtls_def dtls_zero_def Let_def srtp_dealloc_both_def)
  from x509_digest_text [OF tls(1) this, of "[1]"] obtain f where
    f: "dtls_srtp_x509_digest (peer_tls host_env) [1] (local_fingerprint ?d0) = Some f" "c_text f = Some ?F" using tls(2) by auto
  then obtain d where d: "dtls_srtp_init (peer_tls host_env) (fst (peer_selfsign host_env (world example_world))) ?d0
      (sdp_role SDP_TYPE_OFFER (config example_offerer)) = Some (0, d)" "c_text (local_fingerprint d) = Some ?F"
    by (auto simp: dtls_srtp_init_def host_env_def example_env_def)
  obtain a w1 a1 w2 where a: "agent_create_ice_credential (peer_rnd host_env) (peer_os host_env) (sdp_agent SDP_TYPE_OFFER (agent example_offerer))
      (snd (peer_selfsign host_env (world example_world))) = Some (a, w1)"
    "c_text (local_ufrag a) = Some (str ''0000'')" "c_text (local_upwd a) = Some (replicate 24 48)"
    "agent_gather_candidate (peer_hmac host_env) (peer_md5 host_env) (peer_os host_env) a None [] [] w1 = Some (a1, w2)"
    "take (local_candidates_count a1) (local_candidates a1) = [host_candidate]" "local_candidates_count a1 \<le> length (local_candidates a1)"
    using host_gathers by (auto simp: host_env_def example_env_def example_offerer_def example_world_def split: option.splits)
  have g: "gather_servers host_env (ice_servers (config example_offerer)) a1 w2 = Some (a1, w2)"
    by (simp add: config_offerer host_config_def numeral_eq_Suc)
  have lines: "line_bytes (str ''0000'')" "line_bytes (replicate 24 48)" "line_bytes ?F" "\<forall>t \<in> set ?ts. line_bytes t"
    "length (lines_text (candidate_lines ?ts)) < CONFIG_RECV_BUFFER_SIZE" "37 \<notin> set (lines_text (candidate_lines ?ts))"
    by code_simp+
  have c: "map (candidate_line (peer_ntop6 host_env)) (take (local_candidates_count a1) (local_candidates a1)) =
      map (\<lambda>t. Some (str ''a=candidate:'' @ t @ CRLF)) ?ts"
    unfolding a(5) using host_line by (simp add: host_env_def)
  have n: "length (sdp example_offerer) = CONFIG_SDP_BUFFER_SIZE" "length (temp_buf example_offerer) = CONFIG_RECV_BUFFER_SIZE"
    by (simp_all add: example_offerer_def example_mem_def CONFIG_RECV_BUFFER_SIZE_def)
  have r: "sdp_role SDP_TYPE_OFFER host_config = DTLS_SRTP_ROLE_SERVER" by (simp add: sdp_role_def host_config_def)
  from create_sdp_runs [OF n d lines(3) a(1-3) lines(1,2) a(4) g c lines(4,5) a(6) lines(6)] show ?thesis
    using a(2,5) d(2) gather_candidate_frame [OF a(4)] unfolding config_offerer r by auto
qed

text \<open>The agent of the other side reads the lines one by one, the candidate line with all that follows it.\<close>

lemma remote_line_prefix:
  assumes "13 \<notin> set l" and "\<not> starts_with (str ''a=candidate:'') l"
  shows "remote_line pton6 mdns a (l @ 13 # x) (length l) w = remote_line pton6 mdns a l (length l) w"
proof -
  have s: "starts_with p (l @ 13 # x) = starts_with p l" if "13 \<notin> set p" for p
  proof (cases "length p \<le> length l")
    case False
    then have "13 \<in> set (take (length p) (l @ 13 # x))" by (simp add: take_Cons')
    then have "take (length p) (l @ 13 # x) \<noteq> p" using that by metis
    moreover have "take (length p) l \<noteq> p" using False by (metis length_take min.cobounded1 nle_le)
    ultimately show ?thesis by (simp add: starts_with_def)
  qed (simp add: starts_with_def)
  have "13 \<notin> set (str ''a=ice-ufrag:'')" "13 \<notin> set (str ''a=ice-pwd:'')" "13 \<notin> set (str ''a=candidate:'')" by simp_all
  note p = this [THEN s]
  have "take (length l - n) (drop n (l @ 13 # x)) = take (length l - n) (drop n l)" for n by simp
  then show ?thesis using assms(2) unfolding remote_line_def p by simp
qed

lemma agent_remote_lines:
  assumes "\<forall>l \<in> set ls. 13 \<notin> set l \<and> \<not> starts_with (str ''a=candidate:'') l"
  shows "agent_set_remote_description pton6 mdns a (lines_text ls @ r) w = do {
      (a, w) \<leftarrow> agent_set_remote_description pton6 mdns a (lines_text ls) w; agent_set_remote_description pton6 mdns a r w }"
  using assms
proof (induction ls arbitrary: a w)
  case Nil
  then show ?case by (simp add: agent_set_remote_description.simps [of _ _ _ "[]"] CRLF_def)
next
  case (Cons l ls)
  have n: "13 \<notin> set l" "\<not> starts_with (str ''a=candidate:'') l" using Cons.prems by simp_all
  have step: "agent_set_remote_description pton6 mdns a (lines_text (l # ls) @ x) w = do {
      (a, w) \<leftarrow> remote_line pton6 mdns a l (length l) w; agent_set_remote_description pton6 mdns a (lines_text ls @ x) w }" for x
    using strstr_first [OF n(1), of 10 "lines_text ls @ x"]
    by (subst agent_set_remote_description.simps) (simp add: CRLF_def remote_line_prefix [OF n])
  show ?case using Cons step [of r] step [of "[]"] by (simp add: case_prod_unfold Option.bind_assoc)
qed

lemma host_describable: "describable host_candidate"
  by (simp add: describable_def host_candidate_def candidate0_def word_text_def ICE_NAME_SIZE_def wf_addr_def addr_zero_def is_space_def)

lemma host_description_read:
  "(case agent_set_remote_description (peer_pton6 host_env) (peer_mdns host_env) (agent example_mem)
      (lines_text (description_lines host_config DTLS_SRTP_ROLE_SERVER (str ''0000'') (replicate 24 48)
        (fingerprint_text (replicate 32 0xAB)))) () of None \<Rightarrow> False
    | Some (a, w) \<Rightarrow> remote_candidates_count a < length (remote_candidates a))"
  by code_simp

lemma host_description_taken:
  "agent_set_remote_description (peer_pton6 host_env) (peer_mdns host_env) (agent example_mem)
    (lines_text (description_lines host_config DTLS_SRTP_ROLE_SERVER (str ''0000'') (replicate 24 48)
      (fingerprint_text (replicate 32 0xAB)) @ candidate_lines [str ''0 1 UDP 2113929471 192.168.1.10 0 typ host''])) (world example_world) \<noteq> None"
proof -
  let ?L = "description_lines host_config DTLS_SRTP_ROLE_SERVER (str ''0000'') (replicate 24 48) (fingerprint_text (replicate 32 0xAB))"
  let ?c = "str ''a=candidate:'' @ str ''0 1 UDP 2113929471 192.168.1.10 0 typ host''"
  have p: "peer_pton6 host_env = plain_pton6" by (simp add: host_env_def)
  have ls: "\<forall>l \<in> set ?L. 13 \<notin> set l \<and> \<not> starts_with (str ''a=candidate:'') l" by code_simp
  obtain a w where a: "agent_set_remote_description (peer_pton6 host_env) (peer_mdns host_env) (agent example_mem) (lines_text ?L) () = Some (a, w)"
    "remote_candidates_count a < length (remote_candidates a)" using host_description_read by (auto split: option.splits)
  obtain line where l: "candidate_line plain_ntop6 host_candidate = Some line"
    "\<And>c0 v. \<exists>c. ice_candidate_from_description plain_pton6 (peer_mdns host_env) c0 (line @ []) v = Some (0, c, v)"
    using ice_description_parsed [OF host_describable inet6_ok_plain ntop6_plain_plain, of "peer_mdns host_env"] by blast
  have "line = ?c @ CRLF" using l(1) unfolding host_line by simp
  then obtain c where c: "ice_candidate_from_description plain_pton6 (peer_mdns host_env) (remote_candidates a ! remote_candidates_count a)
      (?c @ CRLF) w = Some (0, c, w)" using l(2) unfolding append_Nil2 by blast
  have "strstr (?c @ CRLF) CRLF = Some (length ?c)" "starts_with (str ''a=candidate:'') (?c @ CRLF)"
    "\<not> starts_with (str ''a=ice-ufrag:'') (?c @ CRLF)" "\<not> starts_with (str ''a=ice-pwd:'') (?c @ CRLF)" by code_simp+
  then have "agent_set_remote_description (peer_pton6 host_env) (peer_mdns host_env) a (?c @ CRLF) w \<noteq> None"
    using a(2) c p by (subst agent_set_remote_description.simps)
      (simp add: remote_line_def mem_get_def Let_def CRLF_def agent_set_remote_description.simps [of _ _ _ "[]"])
  then have "agent_set_remote_description (peer_pton6 host_env) (peer_mdns host_env) (agent example_mem) (lines_text ?L @ ?c @ CRLF) () \<noteq> None"
    unfolding agent_remote_lines [OF ls] a(1) by simp
  moreover have "lines_text (?L @ candidate_lines [str ''0 1 UDP 2113929471 192.168.1.10 0 typ host'']) = lines_text ?L @ ?c @ CRLF"
    by (simp add: candidate_lines_def CRLF_def)
  ultimately show ?thesis by simp
qed

theorem description_reaches_peer_witness:
  "\<exists>pc pw description peer' pw'. peer_connection_create_sdp host_env SDP_TYPE_OFFER (example_offerer, example_world) = Some (pc, pw) \<and>
    c_text (sdp pc) = Some description \<and>
    peer_connection_set_remote_description host_env description SDP_TYPE_OFFER (example_mem, example_world) = Some (peer', pw') \<and>
    c_cut DTLS_SRTP_FINGERPRINT_LENGTH (remote_fingerprint (dtls_srtp peer')) = fingerprint_text (replicate 32 0xAB) \<and>
    remote_vssrc peer' = 1 \<and> remote_assrc peer' = 6"
proof -
  let ?F = "fingerprint_text (replicate 32 0xAB)" and ?ts = "[str ''0 1 UDP 2113929471 192.168.1.10 0 typ host'']"
  let ?D = "lines_text (description_lines host_config DTLS_SRTP_ROLE_SERVER (str ''0000'') (replicate 24 48) ?F @ candidate_lines ?ts)"
  obtain pc pw where o: "peer_connection_create_sdp host_env SDP_TYPE_OFFER (example_offerer, example_world) = Some (pc, pw)"
    "c_text (local_ufrag (agent pc)) = Some (str ''0000'')"
    "take (local_candidates_count (agent pc)) (local_candidates (agent pc)) = [host_candidate]"
    "c_text (local_fingerprint (dtls_srtp pc)) = Some ?F" "config pc = host_config" "c_text (sdp pc) = Some ?D"
    using host_offer by blast
  have lines: "line_bytes (str ''0000'')" "line_bytes (replicate 24 48)" "line_bytes ?F" "\<forall>t \<in> set ?ts. line_bytes t"
    "length (lines_text (candidate_lines ?ts)) < CONFIG_RECV_BUFFER_SIZE" by code_simp+
  have u: "other_ufrag (str ''0000'') example_mem" by code_simp
  obtain q sc where l: "remote_description_lines ?D (example_mem, remote_scan0) = Some (q, sc)" "\<not> scan_update sc" "agent q = agent example_mem"
    using remote_description_text [OF lines(1-3) u lines(4), of host_config DTLS_SRTP_ROLE_SERVER] by force
  obtain a w where "agent_set_remote_description (peer_pton6 host_env) (peer_mdns host_env) (agent example_mem) ?D (world example_world) = Some (a, w)"
    using host_description_taken by auto
  then obtain peer' pw' where r: "peer_connection_set_remote_description host_env ?D SDP_TYPE_OFFER (example_mem, example_world) = Some (peer', pw')"
    using l by (auto simp: peer_connection_set_remote_description_def)
  have n: "length (sdp example_offerer) = CONFIG_SDP_BUFFER_SIZE" "length (temp_buf example_offerer) = CONFIG_RECV_BUFFER_SIZE"
    by (simp_all add: example_offerer_def example_mem_def CONFIG_RECV_BUFFER_SIZE_def)
  have c: "map (candidate_line (peer_ntop6 host_env)) (take (local_candidates_count (agent pc)) (local_candidates (agent pc))) =
      map (\<lambda>t. Some (str ''a=candidate:'' @ t @ CRLF)) ?ts"
    unfolding o(3) using host_line by (simp add: host_env_def)
  have "length ?F = 95" by (simp add: length_fingerprint_text)
  then show ?thesis
    using description_reaches_peer [OF o(1) n o(4) lines(3) c lines(4,5) o(2) u o(6) r] o(1,5,6) r
    by (auto simp: host_config_def)
qed

end
