(* ===== verification/Peer_Library.thy ===== *)
theory Peer_Library
  imports Socket
begin

text \<open>
  The rest of the library: its initialisation (\<^verbatim>\<open>src/src/peer.c\<close>, \<open>sctp_usrsctp_init\<close> of \<^verbatim>\<open>src/src/sctp.c\<close>), the
  wrappers of the message digests (\<^verbatim>\<open>src/src/utils.c\<close>), which give the parameters \<open>hmac\<close> and \<open>md5\<close> of the
  STUN messages, and the host address under lwIP (\<^verbatim>\<open>src/src/ports.c\<close>).
\<close>

section \<open>Initialisation\<close>

record 'w GlobalLibs =
  srtp_init :: "'w \<Rightarrow> int \<times> 'w"
  srtp_shutdown :: "'w \<Rightarrow> 'w"
  usrsctp_init :: "'w \<Rightarrow> 'w"
  usrsctp_finish :: "'w \<Rightarrow> 'w"

definition sctp_usrsctp_init :: "'w GlobalLibs \<Rightarrow> 'w \<Rightarrow> 'w" where
  "sctp_usrsctp_init libs w = usrsctp_init libs w"

definition sctp_usrsctp_deinit :: "'w GlobalLibs \<Rightarrow> 'w \<Rightarrow> 'w" where
  "sctp_usrsctp_deinit libs w = usrsctp_finish libs w"

definition peer_init :: "'w GlobalLibs \<Rightarrow> 'w \<Rightarrow> int \<times> 'w" where
  "peer_init libs w =
     (let (st, w) = srtp_init libs w in if st \<noteq> 0 then (-1, w) else (0, sctp_usrsctp_init libs w))"

definition peer_deinit :: "'w GlobalLibs \<Rightarrow> 'w \<Rightarrow> 'w" where
  "peer_deinit libs w = sctp_usrsctp_deinit libs (srtp_shutdown libs w)"

section \<open>Digests\<close>

datatype MdType = MBEDTLS_MD_SHA1 | MBEDTLS_MD_MD5

text \<open>A digest context \<open>'h\<close> of mbedTLS; results of the set-up calls are not looked at.\<close>

record 'h MdLib =
  md_init :: 'h
  md_setup :: "MdType \<Rightarrow> bool \<Rightarrow> 'h \<Rightarrow> 'h"
  md_hmac_starts :: "bytes \<Rightarrow> 'h \<Rightarrow> 'h"
  md_hmac_update :: "bytes \<Rightarrow> 'h \<Rightarrow> 'h"
  md_hmac_finish :: "'h \<Rightarrow> bytes"
  md_starts :: "'h \<Rightarrow> 'h"
  md_update :: "bytes \<Rightarrow> 'h \<Rightarrow> 'h"
  md_finish :: "'h \<Rightarrow> bytes"

definition utils_get_hmac_sha1 :: "'h MdLib \<Rightarrow> bytes \<Rightarrow> nat \<Rightarrow> bytes \<Rightarrow> nat \<Rightarrow> bytes \<Rightarrow> bytes option" where
  "utils_get_hmac_sha1 lib inp input_len key key_len output = do {
     k \<leftarrow> mem_read 0 key_len key;
     d \<leftarrow> mem_read 0 input_len inp;
     let ctx = md_setup lib MBEDTLS_MD_SHA1 True (md_init lib);
     let ctx = md_hmac_update lib d (md_hmac_starts lib k ctx);
     mem_write 0 (md_hmac_finish lib ctx) output
   }"

definition utils_get_md5 :: "'h MdLib \<Rightarrow> bytes \<Rightarrow> nat \<Rightarrow> bytes \<Rightarrow> bytes option" where
  "utils_get_md5 lib inp input_len output = do {
     d \<leftarrow> mem_read 0 input_len inp;
     let ctx = md_setup lib MBEDTLS_MD_MD5 True (md_init lib);
     let ctx = md_update lib d (md_starts lib ctx);
     mem_write 0 (md_finish lib ctx) output
   }"

section \<open>Host address under lwIP\<close>

record Netif =
  netif_ip4 :: bytes
  netif_ip6 :: "bytes list"

text \<open>The first interface that has an address of the family, and its first one.\<close>

fun lwip_get_host_addr :: "Netif list \<Rightarrow> Address \<Rightarrow> int \<times> Address" where
  "lwip_get_host_addr [] addr = (0, addr)"
| "lwip_get_host_addr (netif # ns) addr =
     (if family addr = AF_INET6 then
        (case find (\<lambda>a. a \<noteq> replicate 16 0) (netif_ip6 netif) of
           Some a \<Rightarrow> (1, addr\<lparr>sin6_addr := a\<rparr>)
         | None \<Rightarrow> lwip_get_host_addr ns addr)
      else if netif_ip4 netif \<noteq> replicate 4 0 then (1, addr\<lparr>sin_addr := netif_ip4 netif\<rparr>)
      else lwip_get_host_addr ns addr)"

lemma lwip_host_addr_kept: "fst (lwip_get_host_addr ns addr) = 0 \<Longrightarrow> snd (lwip_get_host_addr ns addr) = addr"
  by (induction ns addr rule: lwip_get_host_addr.induct) (auto split: if_splits option.splits)

lemma find_holds: "find P xs = Some a \<Longrightarrow> P a"
  by (auto simp: find_Some_iff)

text \<open>The addresses taken are never the unspecified one.\<close>

lemma lwip_host_addr_set:
  "fst (lwip_get_host_addr ns addr) = 1 \<Longrightarrow>
   (if family addr = AF_INET6 then sin6_addr (snd (lwip_get_host_addr ns addr)) \<noteq> replicate 16 0
    else sin_addr (snd (lwip_get_host_addr ns addr)) \<noteq> replicate 4 0)"
  by (induction ns addr rule: lwip_get_host_addr.induct) (auto split: if_splits option.splits dest: find_holds)

end
