(* ===== verification/Socket_Rp2040.thy ===== *)
theory Socket_Rp2040
  imports Address
begin

text \<open>
  The bare-metal half of \<^verbatim>\<open>src/src/socket.c\<close> (\<^verbatim>\<open>__RP2040_BM__\<close>): lwIP callbacks put received data
  into a ring of eight datagrams or into a stream buffer, and the socket functions take it out.

  \<^item> lwIP is a parameter: \<open>'ip\<close> is its address type, read by \<open>is_v6\<close>, \<open>ip4\<close> and \<open>ip6\<close>; a packet
    buffer is the list of its bytes; \<open>poll\<close> is the list of packets for which
    \<^verbatim>\<open>cyw43_arch_poll\<close> runs the callback.
  \<^item> \<open>udp_socket_open\<close> has one static \<^verbatim>\<open>Rp2040UdpSocket\<close>. Its state is passed explicitly and
    \<open>priv\<close> of a socket says whether the pointer to it is set.
\<close>

section \<open>The datagram ring\<close>

definition UDP_RX_BUF_SIZE :: nat where "UDP_RX_BUF_SIZE = 2048"
definition UDP_FIFO_SIZE :: nat where "UDP_FIFO_SIZE = 8"

lemmas udp_sizes = UDP_RX_BUF_SIZE_def UDP_FIFO_SIZE_def

record 'ip UdpFifoItem =
  item_data :: bytes
  item_len :: nat
  item_addr :: 'ip
  item_port :: u16

record 'ip UdpFifo =
  fifo_items :: "'ip UdpFifoItem list"
  read_pos :: u16
  write_pos :: u16

definition udp_fifo_init :: "'ip UdpFifo \<Rightarrow> 'ip UdpFifo" where
  "udp_fifo_init f = f\<lparr>read_pos := 0, write_pos := 0\<rparr>"

definition udp_fifo_is_empty :: "'ip UdpFifo \<Rightarrow> bool" where
  "udp_fifo_is_empty f \<longleftrightarrow> read_pos f = write_pos f"

definition udp_fifo_is_full :: "'ip UdpFifo \<Rightarrow> bool" where
  "udp_fifo_is_full f \<longleftrightarrow> (unat (write_pos f) + 1) mod UDP_FIFO_SIZE = unat (read_pos f)"

definition udp_fifo_push ::
  "'ip UdpFifo \<Rightarrow> bytes \<Rightarrow> nat \<Rightarrow> 'ip \<Rightarrow> u16 \<Rightarrow> (int \<times> 'ip UdpFifo) option" where
  "udp_fifo_push f dat len addr prt =
     (if udp_fifo_is_full f then Some (0, f)
      else do {
        let w = unat (write_pos f);
        item \<leftarrow> mem_get w (fifo_items f);
        let len = (if UDP_RX_BUF_SIZE < len then UDP_RX_BUF_SIZE else len);
        d \<leftarrow> mem_read 0 len dat;
        store \<leftarrow> mem_write 0 d (item_data item);
        let item = item\<lparr>item_data := store, item_len := len, item_addr := addr, item_port := prt\<rparr>;
        Some (1, f\<lparr>fifo_items := (fifo_items f)[w := item], write_pos := of_nat ((w + 1) mod UDP_FIFO_SIZE)\<rparr>)
      })"

definition udp_fifo_pop :: "'ip UdpFifo \<Rightarrow> 'ip UdpFifoItem \<Rightarrow> (int \<times> 'ip UdpFifoItem \<times> 'ip UdpFifo) option" where
  "udp_fifo_pop f out =
     (if udp_fifo_is_empty f then Some (0, out, f)
      else do {
        let r = unat (read_pos f);
        out \<leftarrow> mem_get r (fifo_items f);
        Some (1, out, f\<lparr>read_pos := of_nat ((r + 1) mod UDP_FIFO_SIZE)\<rparr>)
      })"

section \<open>Sockets over the ring\<close>

record 'ip Rp2040UdpSocket =
  pcb :: "nat option"
  rx_fifo :: "'ip UdpFifo"

record RpUdpSocket =
  fd :: int
  bind_addr :: Address
  priv :: bool

text \<open>The temporary is an array of \<open>UDP_RX_BUF_SIZE\<close> bytes; \<^verbatim>\<open>pbuf_copy_partial\<close> copies \<open>len\<close> bytes into it.\<close>

definition udp_recv_callback ::
  "bytes option \<Rightarrow> 'ip \<Rightarrow> u16 \<Rightarrow> 'ip Rp2040UdpSocket \<Rightarrow> 'ip Rp2040UdpSocket option" where
  "udp_recv_callback p addr prt sock = (case p of
     None \<Rightarrow> Some sock
   | Some payload \<Rightarrow> do {
       let len = length payload;
       let len = (if UDP_RX_BUF_SIZE < len then UDP_RX_BUF_SIZE else len);
       tmp \<leftarrow> mem_write 0 (take len payload) (replicate UDP_RX_BUF_SIZE 0);
       (r, f) \<leftarrow> udp_fifo_push (rx_fifo sock) tmp len addr prt;
       Some (sock\<lparr>rx_fifo := f\<rparr>)
     })"

fun udp_poll :: "(bytes \<times> 'ip \<times> u16) list \<Rightarrow> 'ip Rp2040UdpSocket \<Rightarrow> 'ip Rp2040UdpSocket option" where
  "udp_poll [] sock = Some sock"
| "udp_poll ((p, addr, prt) # ps) sock = do {
     sock \<leftarrow> udp_recv_callback (Some p) addr prt sock;
     udp_poll ps sock }"

definition rp_recv_addr :: "('ip \<Rightarrow> bool) \<Rightarrow> ('ip \<Rightarrow> bytes) \<Rightarrow> ('ip \<Rightarrow> bytes) \<Rightarrow> 'ip \<Rightarrow> u16 \<Rightarrow> Address \<Rightarrow> Address" where
  "rp_recv_addr is_v6 ip4 ip6 from p addr =
     (if is_v6 from then addr\<lparr>family := AF_INET6, sin6_addr := ip6 from, sin6_port := p, port := p\<rparr>
      else addr\<lparr>family := AF_INET, sin_addr := ip4 from, sin_port := p, port := p\<rparr>)"

text \<open>The result, the address (\<^const>\<open>None\<close> for a null pointer), the buffer and the static socket.\<close>

definition rp_udp_recvfrom ::
  "('ip \<Rightarrow> bool) \<Rightarrow> ('ip \<Rightarrow> bytes) \<Rightarrow> ('ip \<Rightarrow> bytes) \<Rightarrow> 'ip UdpFifoItem \<Rightarrow> (bytes \<times> 'ip \<times> u16) list \<Rightarrow>
   RpUdpSocket \<Rightarrow> 'ip Rp2040UdpSocket \<Rightarrow> Address option \<Rightarrow> bytes \<Rightarrow> nat \<Rightarrow>
   (int \<times> Address option \<times> bytes \<times> 'ip Rp2040UdpSocket) option" where
  "rp_udp_recvfrom is_v6 ip4 ip6 item0 poll udp_socket sock addr buf len =
     (if \<not> priv udp_socket \<or> pcb sock = None then Some (-1, addr, buf, sock)
      else do {
        sock \<leftarrow> udp_poll poll sock;
        (r, item, f) \<leftarrow> udp_fifo_pop (rx_fifo sock) item0;
        let sock = sock\<lparr>rx_fifo := f\<rparr>;
        (if r = 0 then Some (0, addr, buf, sock)
         else do {
           let copy_len = (if len < item_len item then len else item_len item);
           d \<leftarrow> mem_read 0 copy_len (item_data item);
           buf \<leftarrow> mem_write 0 d buf;
           let addr = map_option (rp_recv_addr is_v6 ip4 ip6 (item_addr item) (item_port item)) addr;
           Some (int copy_len, addr, buf, sock)
         })
      })"

section \<open>The ring as a queue\<close>

text \<open>A datagram as the reader sees it.\<close>

definition item_view :: "'ip UdpFifoItem \<Rightarrow> bytes \<times> 'ip \<times> u16" where
  "item_view i = (take (item_len i) (item_data i), item_addr i, item_port i)"

definition fifo_used :: "'ip UdpFifo \<Rightarrow> nat" where
  "fifo_used f = (unat (write_pos f) + UDP_FIFO_SIZE - unat (read_pos f)) mod UDP_FIFO_SIZE"

definition fifo_slot :: "'ip UdpFifo \<Rightarrow> nat \<Rightarrow> nat" where
  "fifo_slot f k = (unat (read_pos f) + k) mod UDP_FIFO_SIZE"

definition fifo_queue :: "'ip UdpFifo \<Rightarrow> (bytes \<times> 'ip \<times> u16) list" where
  "fifo_queue f = map (\<lambda>k. item_view (fifo_items f ! fifo_slot f k)) [0..<fifo_used f]"

definition fifo_inv :: "'ip UdpFifo \<Rightarrow> bool" where
  "fifo_inv f \<longleftrightarrow> length (fifo_items f) = UDP_FIFO_SIZE \<and>
     (\<forall>i \<in> set (fifo_items f). length (item_data i) = UDP_RX_BUF_SIZE \<and> item_len i \<le> UDP_RX_BUF_SIZE) \<and>
     unat (read_pos f) < UDP_FIFO_SIZE \<and> unat (write_pos f) < UDP_FIFO_SIZE"

lemma length_fifo_queue [simp]: "length (fifo_queue f) = fifo_used f"
  by (simp add: fifo_queue_def)

text \<open>Ring arithmetic over the eight positions.\<close>

lemma ring_dist: "r < 8 \<Longrightarrow> w < 8 \<Longrightarrow> (w + 8 - r) mod 8 = (if r \<le> w then w - r else w + 8 - (r :: nat))"
proof -
  assume rw: "r < 8" "w < 8"
  show ?thesis
  proof (cases "r \<le> w")
    case True
    then have "(w + 8 - r) mod 8 = ((w - r) + 8) mod 8" by (intro arg_cong [where f = "\<lambda>n. n mod 8"]) simp
    also have "\<dots> = w - r" using rw by (simp only: mod_add_self2) simp
    finally show ?thesis using True by simp
  qed (use rw in simp)
qed

lemma ring_add: "r < 8 \<Longrightarrow> k < 8 \<Longrightarrow> (r + k) mod 8 = (if r + k < 8 then r + k else r + k - (8 :: nat))"
  by (auto simp: mod_if)

lemma ring_used_step:
  assumes "r < 8" and "w < 8" and "(w + 1) mod 8 \<noteq> r"
  shows "((w + 1) mod 8 + 8 - r) mod 8 = (w + 8 - r) mod 8 + (1 :: nat)"
    and "(r + (w + 8 - r) mod 8) mod 8 = w" and "(w + 8 - r) mod 8 < 7"
    and "k < (w + 8 - r) mod 8 \<Longrightarrow> (r + k) mod 8 \<noteq> w"
proof -
  define w1 where "w1 = (w + 1) mod 8"
  have n: "w1 = (if w = 7 then 0 else w + 1)" using ring_add [of w 1] assms by (simp add: w1_def)
  then have w1: "w1 < 8" using assms by simp
  note d = ring_dist [OF assms(1,2)] and d1 = ring_dist [OF assms(1) w1]
  show "((w + 1) mod 8 + 8 - r) mod 8 = (w + 8 - r) mod 8 + 1" "(w + 8 - r) mod 8 < 7"
    using assms unfolding w1_def [symmetric] d d1 by (auto simp: n split: if_splits)
  have "(w + 8 - r) mod 8 < 8" by simp
  from ring_add [OF assms(1) this] show "(r + (w + 8 - r) mod 8) mod 8 = w"
    using assms unfolding d by (auto split: if_splits)
  show "(r + k) mod 8 \<noteq> w" if "k < (w + 8 - r) mod 8"
    using that assms(1,2) ring_add [of r k] unfolding d by (auto split: if_splits)
qed

lemma ring_read_step:
  assumes "r < 8" and "w < 8" and "r \<noteq> w"
  shows "(w + 8 - r) mod 8 = Suc ((w + 8 - Suc r mod 8) mod 8)" and "(Suc r mod 8 + k) mod 8 = (r + Suc k) mod (8 :: nat)"
proof -
  define r1 where "r1 = Suc r mod 8"
  have n: "r1 = (if r = 7 then 0 else r + 1)" using ring_add [of r 1] assms by (simp add: r1_def)
  then have r1: "r1 < 8" using assms by simp
  show "(w + 8 - r) mod 8 = Suc ((w + 8 - Suc r mod 8) mod 8)"
    using assms unfolding r1_def [symmetric] ring_dist [OF assms(1,2)] ring_dist [OF r1 assms(2)]
    by (auto simp: n split: if_splits)
  show "(Suc r mod 8 + k) mod 8 = (r + Suc k) mod 8" by (simp add: mod_simps)
qed

lemma unat_ring: "unat (of_nat (n mod 8) :: u16) = n mod 8"
proof -
  have "n mod 8 < 65536" by (rule less_trans [of _ 8]) simp_all
  then show ?thesis by (simp add: unat_of_nat)
qed

lemma ring_full_iff: "r < 8 \<Longrightarrow> w < 8 \<Longrightarrow> (w + 1) mod 8 = r \<longleftrightarrow> (w + 8 - r) mod 8 = (7 :: nat)"
  using ring_add [of w 1] ring_dist [of r w] by (auto split: if_splits)

lemma ring_empty_iff: "r < 8 \<Longrightarrow> w < 8 \<Longrightarrow> r = w \<longleftrightarrow> (w + 8 - r) mod 8 = (0 :: nat)"
  using ring_dist [of r w] by (auto split: if_splits)


text \<open>What a bounded queue promises: an element that finds no room is dropped, the others come out
  in order. \<open>view\<close> is what the queue keeps of an element, \<open>ok\<close> says which elements may be put.\<close>

datatype 'x queue_op = Put 'x | Get

fun queue_run ::
  "('x \<Rightarrow> 's \<Rightarrow> 's option) \<Rightarrow> ('s \<Rightarrow> ('a option \<times> 's) option) \<Rightarrow> 'x queue_op list \<Rightarrow> 's \<Rightarrow> ('a list \<times> 's) option" where
  "queue_run put get [] s = Some ([], s)"
| "queue_run put get (Put x # ops) s = do { s \<leftarrow> put x s; queue_run put get ops s }"
| "queue_run put get (Get # ops) s = do {
     (r, s) \<leftarrow> get s;
     (out, s) \<leftarrow> queue_run put get ops s;
     Some ((case r of None \<Rightarrow> out | Some x \<Rightarrow> x # out), s) }"

text \<open>The puts of a run that find room in a queue holding \<open>n\<close> elements.\<close>

fun accepted :: "nat \<Rightarrow> 'x queue_op list \<Rightarrow> nat \<Rightarrow> 'x list" where
  "accepted cap [] n = []"
| "accepted cap (Put x # ops) n = (if n < cap then x # accepted cap ops (n + 1) else accepted cap ops n)"
| "accepted cap (Get # ops) n = accepted cap ops (n - 1)"

locale bounded_queue =
  fixes inv :: "'s \<Rightarrow> bool" and queue :: "'s \<Rightarrow> 'a list" and cap :: nat and view :: "'x \<Rightarrow> 'a"
    and ok :: "'x \<Rightarrow> bool" and put :: "'x \<Rightarrow> 's \<Rightarrow> 's option" and get :: "'s \<Rightarrow> ('a option \<times> 's) option"
  assumes put_ok: "inv s \<Longrightarrow> ok x \<Longrightarrow> \<exists>s'. put x s = Some s' \<and> inv s' \<and>
      queue s' = (if length (queue s) < cap then queue s @ [view x] else queue s)"
    and get_ok: "inv s \<Longrightarrow> \<exists>s'. get s = Some (case queue s of [] \<Rightarrow> None | y # ys \<Rightarrow> Some y, s') \<and> inv s' \<and>
      queue s' = tl (queue s)"
begin

lemma put_all: "inv s \<Longrightarrow> \<forall>x \<in> set xs. ok x \<Longrightarrow> \<exists>s'. queue_run put get (map Put xs) s = Some ([], s') \<and> inv s' \<and>
    queue s' = queue s @ take (cap - length (queue s)) (map view xs)"
proof (induction xs arbitrary: s)
  case (Cons x xs)
  obtain s1 where s1: "put x s = Some s1" "inv s1"
      "queue s1 = (if length (queue s) < cap then queue s @ [view x] else queue s)"
    using put_ok [OF Cons.prems(1), of x] Cons.prems(2) by auto
  then show ?case using Cons.IH [OF s1(2)] Cons.prems(2) by (auto simp: take_Cons' Suc_diff_Suc)
qed auto

text \<open>Whatever the interleaving: what was read, followed by what is still queued, is what was queued,
  followed by what found room.\<close>

lemma fifo_order:
  "inv s \<Longrightarrow> \<forall>x. Put x \<in> set ops \<longrightarrow> ok x \<Longrightarrow> \<exists>out s'. queue_run put get ops s = Some (out, s') \<and> inv s' \<and>
    out @ queue s' = queue s @ map view (accepted cap ops (length (queue s)))"
proof (induction ops arbitrary: s)
  case (Cons op ops)
  show ?case
  proof (cases op)
    case (Put x)
    then show ?thesis using put_ok [OF Cons.prems(1), of x] Cons.IH Cons.prems(2) by fastforce
  next
    case Get
    obtain s1 where s1: "get s = Some (case queue s of [] \<Rightarrow> None | y # ys \<Rightarrow> Some y, s1)" "inv s1" "queue s1 = tl (queue s)"
      using get_ok [OF Cons.prems(1)] by blast
    then show ?thesis using Cons.IH [OF s1(2)] Cons.prems(2) Get by (cases "queue s") auto
  qed
qed simp

end

lemma fifo_queue_Nil_iff: "fifo_inv f \<Longrightarrow> fifo_queue f = [] \<longleftrightarrow> udp_fifo_is_empty f"
  using ring_empty_iff [of "unat (read_pos f)" "unat (write_pos f)"]
  by (simp add: fifo_queue_def fifo_used_def fifo_inv_def udp_fifo_is_empty_def UDP_FIFO_SIZE_def word_unat_eq_iff)

lemma fifo_full_iff: "fifo_inv f \<Longrightarrow> udp_fifo_is_full f \<longleftrightarrow> fifo_used f = 7"
  using ring_full_iff [of "unat (read_pos f)" "unat (write_pos f)"]
  by (simp add: fifo_used_def fifo_inv_def udp_fifo_is_full_def UDP_FIFO_SIZE_def)

lemma fifo_push_refines:
  assumes "fifo_inv f" and "len \<le> length dat"
  shows "\<exists>f'. udp_fifo_push f dat len addr prt = Some (if fifo_used f < 7 then 1 else 0, f') \<and> fifo_inv f' \<and>
    fifo_queue f' = (if fifo_used f < 7 then fifo_queue f @ [(take (min len UDP_RX_BUF_SIZE) dat, addr, prt)] else fifo_queue f)"
proof (cases "udp_fifo_is_full f")
  case True
  then show ?thesis using assms(1) by (simp add: udp_fifo_push_def fifo_full_iff)
next
  case False
  let ?r = "unat (read_pos f)" and ?w = "unat (write_pos f)"
  have rw: "?r < 8" "?w < 8" "length (fifo_items f) = 8" using assms(1) by (simp_all add: fifo_inv_def UDP_FIFO_SIZE_def)
  have nf: "(?w + 1) mod 8 \<noteq> ?r" using False by (simp add: udp_fifo_is_full_def UDP_FIFO_SIZE_def)
  note ring = ring_used_step [OF rw(1,2) nf]
  let ?it = "fifo_items f ! ?w"
  have it: "length (item_data ?it) = UDP_RX_BUF_SIZE" using assms(1) rw by (simp add: fifo_inv_def)
  let ?len = "min len UDP_RX_BUF_SIZE"
  let ?new = "?it\<lparr>item_data := take ?len dat @ drop ?len (item_data ?it), item_len := ?len, item_addr := addr, item_port := prt\<rparr>"
  let ?f = "f\<lparr>fifo_items := (fifo_items f)[?w := ?new], write_pos := of_nat (Suc ?w mod UDP_FIFO_SIZE)\<rparr>"
  have len: "(if UDP_RX_BUF_SIZE < len then UDP_RX_BUF_SIZE else len) = ?len" by simp
  have push: "udp_fifo_push f dat len addr prt = Some (1, ?f)"
    using False rw it assms(2)
    by (simp add: udp_fifo_push_def Let_def len mem_get_def mem_read_def mem_write_def min_le_iff_disj)
  have u: "unat (write_pos ?f) = (?w + 1) mod 8" using unat_ring [of "Suc ?w"] by (simp add: UDP_FIFO_SIZE_def)
  have ml: "min (length dat) ?len = ?len" using assms(2) by simp
  have inv: "fifo_inv ?f"
    using assms(1) u it by (auto simp: fifo_inv_def UDP_FIFO_SIZE_def ml dest!: set_update_subset_insert [THEN subsetD])
  have used: "fifo_used f = (?w + 8 - ?r) mod 8" "fifo_used ?f = fifo_used f + 1"
    using ring(1) u by (simp_all add: fifo_used_def UDP_FIFO_SIZE_def)
  have slot: "fifo_slot ?f = fifo_slot f" by (simp add: fifo_slot_def fun_eq_iff)
  have last: "fifo_slot f (fifo_used f) = ?w" using ring(2) used(1) by (simp add: fifo_slot_def UDP_FIFO_SIZE_def)
  have other: "fifo_slot f k \<noteq> ?w" if "k < fifo_used f" for k
    using ring(4) [of k] that used(1) by (simp add: fifo_slot_def UDP_FIFO_SIZE_def)
  have "fifo_queue ?f = fifo_queue f @ [item_view ?new]"
    using other [THEN not_sym] last rw by (simp add: fifo_queue_def used(2) slot)
  moreover have "item_view ?new = (take (min len UDP_RX_BUF_SIZE) dat, addr, prt)" by (simp add: item_view_def ml)
  moreover have "fifo_used f < 7" using used(1) ring(3) by simp
  ultimately show ?thesis using push inv by (intro exI [of _ ?f]) (simp only: if_True simp_thms)
qed

lemma fifo_pop_refines:
  assumes "fifo_inv f"
  shows "\<exists>r it f'. udp_fifo_pop f out = Some (r, it, f') \<and> fifo_inv f' \<and> fifo_queue f' = tl (fifo_queue f) \<and>
    (case fifo_queue f of [] \<Rightarrow> r = 0 | x # xs \<Rightarrow> r = 1 \<and> item_view it = x \<and> item_len it \<le> UDP_RX_BUF_SIZE \<and>
       length (item_data it) = UDP_RX_BUF_SIZE)"
proof (cases "udp_fifo_is_empty f")
  case True
  then show ?thesis using assms fifo_queue_Nil_iff [OF assms] by (simp add: udp_fifo_pop_def)
next
  case False
  let ?r = "unat (read_pos f)" and ?w = "unat (write_pos f)"
  have rw: "?r < 8" "?w < 8" "length (fifo_items f) = 8" using assms by (simp_all add: fifo_inv_def UDP_FIFO_SIZE_def)
  have ne: "?r \<noteq> ?w" using False by (simp add: udp_fifo_is_empty_def word_unat_eq_iff)
  note ring = ring_read_step [OF rw(1,2) ne]
  let ?it = "fifo_items f ! ?r"
  let ?f = "f\<lparr>read_pos := of_nat (Suc ?r mod UDP_FIFO_SIZE)\<rparr>"
  have pop: "udp_fifo_pop f out = Some (1, ?it, ?f)" using False rw by (simp add: udp_fifo_pop_def mem_get_def Let_def)
  have u: "unat (read_pos ?f) = Suc ?r mod 8" using unat_ring [of "Suc ?r"] by (simp add: UDP_FIFO_SIZE_def)
  have inv: "fifo_inv ?f" using assms u by (simp add: fifo_inv_def UDP_FIFO_SIZE_def)
  have used: "fifo_used f = Suc (fifo_used ?f)" using ring(1) u by (simp add: fifo_used_def UDP_FIFO_SIZE_def)
  have slots: "fifo_slot ?f k = fifo_slot f (Suc k)" "fifo_slot f 0 = ?r" for k
    using ring(2) [of k] u rw by (simp_all add: fifo_slot_def UDP_FIFO_SIZE_def)
  have q: "fifo_queue f = item_view ?it # fifo_queue ?f"
    by (simp add: fifo_queue_def used slots upt_conv_Cons map_Suc_upt [symmetric] del: upt_Suc)
  have "?it \<in> set (fifo_items f)" using rw by simp
  then have "item_len ?it \<le> UDP_RX_BUF_SIZE" "length (item_data ?it) = UDP_RX_BUF_SIZE"
    using assms by (simp_all add: fifo_inv_def)
  then show ?thesis using pop inv q by simp
qed

text \<open>The datagrams a socket holds, and the reader's side of the ring without the caller's buffers.\<close>

definition rp_inv :: "'ip Rp2040UdpSocket \<Rightarrow> bool" where "rp_inv s \<longleftrightarrow> fifo_inv (rx_fifo s)"
definition rp_queue :: "'ip Rp2040UdpSocket \<Rightarrow> (bytes \<times> 'ip \<times> u16) list" where "rp_queue s = fifo_queue (rx_fifo s)"

fun rp_put :: "bytes \<times> 'ip \<times> u16 \<Rightarrow> 'ip Rp2040UdpSocket \<Rightarrow> 'ip Rp2040UdpSocket option" where
  "rp_put (d, addr, prt) s = udp_recv_callback (Some d) addr prt s"

definition rp_get :: "'ip UdpFifoItem \<Rightarrow> 'ip Rp2040UdpSocket \<Rightarrow> ((bytes \<times> 'ip \<times> u16) option \<times> 'ip Rp2040UdpSocket) option" where
  "rp_get item0 s = do {
     (r, item, f) \<leftarrow> udp_fifo_pop (rx_fifo s) item0;
     Some (if r = 0 then None else Some (item_view item), s\<lparr>rx_fifo := f\<rparr>) }"

fun kept :: "bytes \<times> 'ip \<times> u16 \<Rightarrow> bytes \<times> 'ip \<times> u16" where
  "kept (d, addr, prt) = (take UDP_RX_BUF_SIZE d, addr, prt)"

lemma rp_put_ok:
  assumes "rp_inv s"
  shows "\<exists>s'. rp_put x s = Some s' \<and> rp_inv s' \<and>
      rp_queue s' = (if length (rp_queue s) < 7 then rp_queue s @ [kept x] else rp_queue s)"
proof -
  obtain d addr prt where x: "x = (d, addr, prt)" by (cases x)
  let ?n = "min (length d) UDP_RX_BUF_SIZE"
  let ?tmp = "take ?n d @ replicate (UDP_RX_BUF_SIZE - ?n) 0 :: bytes"
  have "?n \<le> length ?tmp" by simp
  from fifo_push_refines [OF assms [unfolded rp_inv_def] this, of addr prt]
  obtain f' where f': "udp_fifo_push (rx_fifo s) ?tmp ?n addr prt = Some (if fifo_used (rx_fifo s) < 7 then 1 else 0, f')"
      "fifo_inv f'" "fifo_queue f' = (if fifo_used (rx_fifo s) < 7 then fifo_queue (rx_fifo s) @
         [(take (min ?n UDP_RX_BUF_SIZE) ?tmp, addr, prt)] else fifo_queue (rx_fifo s))" by blast
  have "(if UDP_RX_BUF_SIZE < length d then UDP_RX_BUF_SIZE else length d) = ?n" by simp
  then have "rp_put x s = Some (s\<lparr>rx_fifo := f'\<rparr>)"
    using f'(1) by (simp add: x udp_recv_callback_def mem_write_def Let_def)
  moreover have "take ?n d = take UDP_RX_BUF_SIZE d" by (simp add: min_def)
  ultimately show ?thesis using f'(2,3) by (simp add: rp_inv_def rp_queue_def x)
qed

lemma rp_get_ok:
  assumes "rp_inv s"
  shows "\<exists>s'. rp_get item0 s = Some (case rp_queue s of [] \<Rightarrow> None | y # ys \<Rightarrow> Some y, s') \<and> rp_inv s' \<and>
      rp_queue s' = tl (rp_queue s)"
  using fifo_pop_refines [OF assms [unfolded rp_inv_def], of item0]
  by (auto simp: rp_get_def rp_inv_def rp_queue_def split: list.splits)

interpretation rp_ring: bounded_queue rp_inv rp_queue 7 kept "\<lambda>_. True" rp_put "rp_get item0"
  by unfold_locales (erule rp_put_ok, erule rp_get_ok)


section \<open>Opening, closing and sending\<close>

text \<open>lwIP's answers: \<open>new_pcb\<close> of \<^verbatim>\<open>udp_new\<close>, \<open>bnd k fam p\<close> whether the \<open>k\<close>-th \<^verbatim>\<open>udp_bind\<close> to
  port \<open>p\<close> succeeds, \<open>lport\<close> the local port afterwards, \<open>rnd k\<close> the \<open>k\<close>-th \<^verbatim>\<open>rand()\<close>.\<close>

definition EPHEMERAL_PORT_LO :: nat where "EPHEMERAL_PORT_LO = 49152"
definition EPHEMERAL_PORT_HI :: nat where "EPHEMERAL_PORT_HI = 65535"
definition EPHEMERAL_PORT_RETRIES :: nat where "EPHEMERAL_PORT_RETRIES = 10"

lemmas ephemeral = EPHEMERAL_PORT_LO_def EPHEMERAL_PORT_HI_def EPHEMERAL_PORT_RETRIES_def

definition ephemeral_port :: "nat \<Rightarrow> nat" where
  "ephemeral_port r = EPHEMERAL_PORT_LO + r mod (EPHEMERAL_PORT_HI - EPHEMERAL_PORT_LO + 1)"

text \<open>The retry loop from attempt \<open>k\<close> on with \<open>n\<close> attempts left: whether the last bind succeeded and
  the last port tried.\<close>

fun try_ephemeral :: "(nat \<Rightarrow> u8 \<Rightarrow> nat \<Rightarrow> bool) \<Rightarrow> (nat \<Rightarrow> nat) \<Rightarrow> u8 \<Rightarrow> nat \<Rightarrow> nat \<Rightarrow> bool \<times> nat" where
  "try_ephemeral bnd rnd fam k 0 = (False, 0)"
| "try_ephemeral bnd rnd fam k (Suc n) =
     (let p = ephemeral_port (rnd k) in
      if bnd k fam p then (True, p)
      else if n = 0 then (False, p) else try_ephemeral bnd rnd fam (k + 1) n)"

definition bind_any :: "(nat \<Rightarrow> u8 \<Rightarrow> nat \<Rightarrow> bool) \<Rightarrow> (nat \<Rightarrow> nat) \<Rightarrow> u8 \<Rightarrow> nat \<Rightarrow> bool \<times> nat" where
  "bind_any bnd rnd fam prt =
     (if prt = 0 then
        let (ok, p) = try_ephemeral bnd rnd fam 0 EPHEMERAL_PORT_RETRIES in
        if ok then (True, p) else (bnd EPHEMERAL_PORT_RETRIES fam 0, 0)
      else (bnd 0 fam prt, prt))"

definition item_zero :: "'ip \<Rightarrow> 'ip UdpFifoItem" where
  "item_zero ip0 = \<lparr>item_data = replicate UDP_RX_BUF_SIZE 0, item_len = 0, item_addr = ip0, item_port = 0\<rparr>"

text \<open>The static structure after \<^verbatim>\<open>memset\<close> and \<open>udp_fifo_init\<close>.\<close>

definition rp_sock_zero :: "'ip \<Rightarrow> 'ip Rp2040UdpSocket" where
  "rp_sock_zero ip0 = \<lparr>pcb = None, rx_fifo = udp_fifo_init
     \<lparr>fifo_items = replicate UDP_FIFO_SIZE (item_zero ip0), read_pos = 0, write_pos = 0\<rparr>\<rparr>"

definition rp_udp_socket_open ::
  "nat option \<Rightarrow> (nat \<Rightarrow> u8 \<Rightarrow> nat \<Rightarrow> bool) \<Rightarrow> (nat \<Rightarrow> nat) \<Rightarrow> u16 \<Rightarrow> 'ip \<Rightarrow> RpUdpSocket \<Rightarrow> u8 \<Rightarrow> nat \<Rightarrow>
   int \<times> RpUdpSocket \<times> 'ip Rp2040UdpSocket" where
  "rp_udp_socket_open new_pcb bnd rnd lport ip0 udp_socket fam prt =
     (let rp_sock = rp_sock_zero ip0;
          udp_socket = udp_socket\<lparr>bind_addr := (bind_addr udp_socket)\<lparr>family := fam\<rparr>, priv := True\<rparr>;
          rp_sock = rp_sock\<lparr>pcb := new_pcb\<rparr>
      in case new_pcb of
        None \<Rightarrow> (-1, udp_socket, rp_sock)
      | Some _ \<Rightarrow>
          if \<not> fst (bind_any bnd rnd fam prt) then (-1, udp_socket, rp_sock\<lparr>pcb := None\<rparr>)
          else (0, udp_socket\<lparr>bind_addr := (bind_addr udp_socket)\<lparr>port := lport\<rparr>, fd := 1\<rparr>, rp_sock))"

definition rp_udp_socket_close :: "RpUdpSocket \<Rightarrow> 'ip Rp2040UdpSocket \<Rightarrow> RpUdpSocket \<times> 'ip Rp2040UdpSocket" where
  "rp_udp_socket_close udp_socket sock =
     (let sock = (if priv udp_socket \<and> pcb sock \<noteq> None then sock\<lparr>pcb := None\<rparr> else sock)
      in (udp_socket\<lparr>fd := -1, priv := False\<rparr>, sock))"

text \<open>\<open>igmp\<close> is the answer of lwIP's \<^verbatim>\<open>igmp_joingroup\<close> for an IPv4 address.\<close>

definition rp_udp_socket_add_multicast_group ::
  "(bytes \<Rightarrow> bool) \<Rightarrow> RpUdpSocket \<Rightarrow> 'ip Rp2040UdpSocket \<Rightarrow> Address \<Rightarrow> int" where
  "rp_udp_socket_add_multicast_group igmp udp_socket sock mcast_addr =
     (if \<not> priv udp_socket \<or> pcb sock = None then -1 else if igmp (sin_addr mcast_addr) then 0 else -1)"

text \<open>What is handed to \<^verbatim>\<open>udp_sendto\<close>: the bytes, the address and the port; \<open>alloc\<close> says whether the
  packet buffer could be allocated, \<open>udp_send\<close> whether lwIP accepted it.\<close>

definition rp_udp_sendto ::
  "bool \<Rightarrow> (bytes \<Rightarrow> bytes \<Rightarrow> u16 \<Rightarrow> bool) \<Rightarrow> RpUdpSocket \<Rightarrow> 'ip Rp2040UdpSocket \<Rightarrow> Address \<Rightarrow> bytes \<Rightarrow> nat \<Rightarrow>
   (int \<times> (bytes \<times> bytes \<times> u16) option) option" where
  "rp_udp_sendto alloc udp_send udp_socket sock addr buf len =
     (if \<not> priv udp_socket \<or> pcb sock = None then Some (-1, None)
      else if \<not> alloc then Some (-1, None)
      else do {
        payload \<leftarrow> mem_read 0 len buf;
        let ip = (if family addr = AF_INET6 then sin6_addr addr else sin_addr addr);
        let prt = (if family addr = AF_INET6 then sin6_port addr else sin_port addr);
        (if udp_send payload ip prt then Some (int len, Some (payload, ip, prt)) else Some (-1, None))
      })"

section \<open>The stream buffer\<close>

definition TCP_RX_BUF_SIZE :: nat where "TCP_RX_BUF_SIZE = 4096"

record Rp2040TcpSocket =
  tcp_pcb :: "nat option"
  rx_buf :: bytes
  rx_len :: nat
  rx_read_pos :: nat
  connected :: bool
  tcp_error :: bool

text \<open>The socket after the callback and the number of bytes acknowledged with \<^verbatim>\<open>tcp_recved\<close>.\<close>

definition tcp_recv_callback :: "bytes option \<Rightarrow> bool \<Rightarrow> Rp2040TcpSocket \<Rightarrow> (Rp2040TcpSocket \<times> nat) option" where
  "tcp_recv_callback p err_ok sock = (case p of
     None \<Rightarrow> Some (sock\<lparr>tcp_error := True\<rparr>, 0)
   | Some payload \<Rightarrow>
       if \<not> err_ok then Some (sock\<lparr>tcp_error := True\<rparr>, 0)
       else do {
         c_assert (rx_len sock \<le> TCP_RX_BUF_SIZE);
         let space = TCP_RX_BUF_SIZE - rx_len sock;
         let len = (if space < length payload then space else length payload);
         (if 0 < len then do {
            b \<leftarrow> mem_write (rx_len sock) (take len payload) (rx_buf sock);
            Some (sock\<lparr>rx_buf := b, rx_len := rx_len sock + len\<rparr>, len) }
          else Some (sock, 0))
       })"

definition tcp_connected_callback :: "bool \<Rightarrow> Rp2040TcpSocket \<Rightarrow> Rp2040TcpSocket" where
  "tcp_connected_callback err_ok sock = (if err_ok then sock\<lparr>connected := True\<rparr> else sock\<lparr>tcp_error := True\<rparr>)"

definition tcp_error_callback :: "Rp2040TcpSocket \<Rightarrow> Rp2040TcpSocket" where
  "tcp_error_callback sock = sock\<lparr>tcp_error := True, tcp_pcb := None\<rparr>"

fun tcp_poll :: "bytes list \<Rightarrow> Rp2040TcpSocket \<Rightarrow> Rp2040TcpSocket option" where
  "tcp_poll [] sock = Some sock"
| "tcp_poll (p # ps) sock = do { (sock, n) \<leftarrow> tcp_recv_callback (Some p) True sock; tcp_poll ps sock }"

definition rp_tcp_socket_recv ::
  "bytes list \<Rightarrow> bool \<Rightarrow> Rp2040TcpSocket \<Rightarrow> bytes \<Rightarrow> nat \<Rightarrow> (int \<times> bytes \<times> Rp2040TcpSocket) option" where
  "rp_tcp_socket_recv poll has_priv sock buf len =
     (if \<not> has_priv \<or> tcp_pcb sock = None then Some (-1, buf, sock)
      else if tcp_error sock then Some (-1, buf, sock)
      else do {
        sock \<leftarrow> tcp_poll poll sock;
        (if rx_len sock = 0 then Some (0, buf, sock)
         else do {
           c_assert (rx_read_pos sock \<le> rx_len sock);
           let copy_len = rx_len sock - rx_read_pos sock;
           let copy_len = (if len < copy_len then len else copy_len);
           d \<leftarrow> mem_read (rx_read_pos sock) copy_len (rx_buf sock);
           buf \<leftarrow> mem_write 0 d buf;
           let sock = sock\<lparr>rx_read_pos := rx_read_pos sock + copy_len\<rparr>;
           let sock = (if rx_len sock \<le> rx_read_pos sock then sock\<lparr>rx_len := 0, rx_read_pos := 0\<rparr> else sock);
           Some (int copy_len, buf, sock)
         })
      })"

text \<open>\<open>avail\<close> is \<^verbatim>\<open>tcp_sndbuf\<close>; \<open>write_ok\<close> and \<open>output_ok\<close> are the results of \<^verbatim>\<open>tcp_write\<close> and
  \<^verbatim>\<open>tcp_output\<close>. The bytes written are returned with the result.\<close>

definition rp_tcp_socket_send ::
  "nat \<Rightarrow> bool \<Rightarrow> bool \<Rightarrow> bool \<Rightarrow> Rp2040TcpSocket \<Rightarrow> bytes \<Rightarrow> nat \<Rightarrow> (int \<times> bytes) option" where
  "rp_tcp_socket_send avail write_ok output_ok has_priv sock buf len =
     (if \<not> has_priv \<or> tcp_pcb sock = None then Some (-1, [])
      else if tcp_error sock then Some (-1, [])
      else if avail = 0 then Some (0, [])
      else do {
        let to_send = (if avail < len then avail else len);
        d \<leftarrow> mem_read 0 to_send buf;
        (if \<not> write_ok then Some (-1, [])
         else if \<not> output_ok then Some (-1, d)
         else Some (int to_send, d))
      })"

text \<open>The wait for the connection: \<open>polls\<close> are the sockets as successive \<^verbatim>\<open>cyw43_arch_poll\<close> calls leave
  them, \<open>timeout\<close> counts down in steps of ten milliseconds.\<close>

function tcp_wait :: "(nat \<Rightarrow> Rp2040TcpSocket \<Rightarrow> Rp2040TcpSocket) \<Rightarrow> nat \<Rightarrow> Rp2040TcpSocket \<Rightarrow> int \<Rightarrow> Rp2040TcpSocket" where
  "tcp_wait polls k sock timeout =
     (if \<not> connected sock \<and> \<not> tcp_error sock \<and> 0 < timeout
      then tcp_wait polls (k + 1) (polls k sock) (timeout - 10) else sock)"
  by pat_completeness auto
termination by (relation "measure (\<lambda>(polls, k, sock, timeout). nat timeout)") auto

declare tcp_wait.simps [simp del]

definition rp_tcp_socket_connect ::
  "bool \<Rightarrow> (nat \<Rightarrow> Rp2040TcpSocket \<Rightarrow> Rp2040TcpSocket) \<Rightarrow> bool \<Rightarrow> Rp2040TcpSocket \<Rightarrow> int \<times> Rp2040TcpSocket" where
  "rp_tcp_socket_connect initiated polls has_priv sock =
     (if \<not> has_priv \<or> tcp_pcb sock = None then (-1, sock)
      else if \<not> initiated then (-1, sock)
      else let sock = tcp_wait polls 0 sock 10000 in
        if tcp_error sock \<or> \<not> connected sock then (-1, sock) else (0, sock))"

definition rp_tcp_socket_open :: "nat option \<Rightarrow> int \<times> Rp2040TcpSocket" where
  "rp_tcp_socket_open new_pcb =
     (let rp_sock = \<lparr>tcp_pcb = new_pcb, rx_buf = replicate TCP_RX_BUF_SIZE 0, rx_len = 0, rx_read_pos = 0,
            connected = False, tcp_error = False\<rparr>
      in case new_pcb of None \<Rightarrow> (-1, rp_sock) | Some _ \<Rightarrow> (0, rp_sock))"

definition rp_tcp_socket_close :: "bool \<Rightarrow> Rp2040TcpSocket \<Rightarrow> Rp2040TcpSocket" where
  "rp_tcp_socket_close has_priv sock = (if has_priv \<and> tcp_pcb sock \<noteq> None then sock\<lparr>tcp_pcb := None\<rparr> else sock)"

section \<open>The stream as a byte queue\<close>

definition tcp_inv :: "Rp2040TcpSocket \<Rightarrow> bool" where
  "tcp_inv s \<longleftrightarrow> length (rx_buf s) = TCP_RX_BUF_SIZE \<and> rx_read_pos s \<le> rx_len s \<and> rx_len s \<le> TCP_RX_BUF_SIZE"

definition unread :: "Rp2040TcpSocket \<Rightarrow> bytes" where
  "unread s = take (rx_len s - rx_read_pos s) (drop (rx_read_pos s) (rx_buf s))"

lemma tcp_recv_callback_queues:
  assumes "tcp_inv s" and d': "d' = take (TCP_RX_BUF_SIZE - rx_len s) d"
  shows "\<exists>s'. tcp_recv_callback (Some d) True s = Some (s', length d') \<and> tcp_inv s' \<and> unread s' = unread s @ d' \<and>
     tcp_pcb s' = tcp_pcb s \<and> tcp_error s' = tcp_error s \<and> rx_len s' = rx_len s + length d'"
proof -
  let ?n = "min (length d) (TCP_RX_BUF_SIZE - rx_len s)"
  have len: "(if TCP_RX_BUF_SIZE - rx_len s < length d then TCP_RX_BUF_SIZE - rx_len s else length d) = ?n" by simp
  have t: "take ?n d = d'" "length d' = ?n" by (simp_all add: d' min_def)
  let ?b = "take (rx_len s) (rx_buf s) @ d' @ drop (rx_len s + ?n) (rx_buf s)"
  let ?s = "s\<lparr>rx_buf := ?b, rx_len := rx_len s + ?n\<rparr>"
  show ?thesis
  proof (cases "?n = 0")
    case True
    then show ?thesis using assms t by (simp add: tcp_recv_callback_def Let_def len tcp_inv_def)
  next
    case False
    have fits: "rx_len s + ?n \<le> length (rx_buf s)" using assms(1) by (auto simp: tcp_inv_def min_def)
    have "tcp_recv_callback (Some d) True s = Some (?s, ?n)"
      using False fits t assms by (simp add: tcp_recv_callback_def Let_def len mem_write_def tcp_inv_def)
    moreover have "tcp_inv ?s" using assms fits t by (simp add: tcp_inv_def)
    moreover have "unread ?s = unread s @ d'"
      using assms fits t by (simp add: unread_def tcp_inv_def drop_take)
    ultimately show ?thesis using t by (intro exI [of _ ?s]) simp
  qed
qed

lemma tcp_poll_queues:
  assumes "tcp_inv s" and "rx_len s + length (concat ps) \<le> TCP_RX_BUF_SIZE"
  shows "\<exists>s'. tcp_poll ps s = Some s' \<and> tcp_inv s' \<and> unread s' = unread s @ concat ps \<and>
    tcp_pcb s' = tcp_pcb s \<and> tcp_error s' = tcp_error s \<and> rx_len s' = rx_len s + length (concat ps)"
  using assms
proof (induction ps arbitrary: s)
  case (Cons p ps)
  have "p = take (TCP_RX_BUF_SIZE - rx_len s) p" using Cons.prems(2) by simp
  from tcp_recv_callback_queues [OF Cons.prems(1) this]
  obtain s1 where s1: "tcp_recv_callback (Some p) True s = Some (s1, length p)" "tcp_inv s1" "unread s1 = unread s @ p"
    "tcp_pcb s1 = tcp_pcb s" "tcp_error s1 = tcp_error s" "rx_len s1 = rx_len s + length p" by blast
  then show ?case using Cons.IH [OF s1(2)] Cons.prems(2) by auto
qed simp

lemma tcp_read_ok:
  assumes "tcp_inv s" and "tcp_pcb s \<noteq> None" and "\<not> tcp_error s" and "len \<le> length buf"
  shows "\<exists>s'. rp_tcp_socket_recv [] True s buf len =
      Some (int (min len (length (unread s))), take len (unread s) @ drop (min len (length (unread s))) buf, s') \<and>
    tcp_inv s' \<and> unread s' = drop len (unread s) \<and> tcp_pcb s' = tcp_pcb s \<and> tcp_error s' = tcp_error s"
proof (cases "rx_len s = 0")
  case True
  then show ?thesis using assms by (auto simp: rp_tcp_socket_recv_def unread_def tcp_inv_def)
next
  case False
  let ?a = "rx_len s - rx_read_pos s"
  let ?c = "min len ?a"
  have a: "length (unread s) = ?a" using assms(1) by (auto simp: unread_def tcp_inv_def min_def)
  have c: "(if len < ?a then len else ?a) = ?c" by simp
  have rd: "mem_read (rx_read_pos s) ?c (rx_buf s) = Some (take len (unread s))"
    using assms(1) by (auto simp: mem_read_def unread_def tcp_inv_def min_def)
  have wr: "mem_write 0 (take len (unread s)) buf = Some (take len (unread s) @ drop ?c buf)"
    using assms(4) a by (auto simp: mem_write_def min_def)
  let ?s = "s\<lparr>rx_read_pos := rx_read_pos s + ?c\<rparr>"
  let ?s' = "if rx_len ?s \<le> rx_read_pos ?s then ?s\<lparr>rx_len := 0, rx_read_pos := 0\<rparr> else ?s"
  have "rp_tcp_socket_recv [] True s buf len = Some (int ?c, take len (unread s) @ drop ?c buf, ?s')"
    using False assms c rd wr by (simp add: rp_tcp_socket_recv_def Let_def tcp_inv_def)
  moreover have "tcp_inv ?s'" using assms(1) by (auto simp: tcp_inv_def)
  moreover have "unread ?s' = drop len (unread s)"
    using assms(1) by (auto simp: unread_def tcp_inv_def drop_take min_def add.commute)
  ultimately show ?thesis using a by auto
qed

section \<open>Properties\<close>

text \<open>Under every interleaving of lwIP's receive callback and reads of the ring, no access leaves the
  ring or a slot, at most seven datagrams are held, and the datagrams read followed by those still
  held are exactly the ones that were held before followed by those that found room, in order of
  arrival and cut to 2048 bytes.\<close>

theorem udp_ring_fifo:
  assumes "rp_inv s"
  shows "\<exists>out s'. queue_run rp_put (rp_get item0) ops s = Some (out, s') \<and> rp_inv s' \<and>
    out @ rp_queue s' = rp_queue s @ map kept (accepted 7 ops (length (rp_queue s)))"
  using rp_ring.fifo_order [OF assms] by simp

lemma rp_inv_zero: "rp_inv (rp_sock_zero ip0)" and rp_queue_zero: "rp_queue (rp_sock_zero ip0) = []"
  by (simp_all add: rp_inv_def rp_queue_def rp_sock_zero_def fifo_inv_def fifo_queue_def fifo_used_def
      udp_fifo_init_def item_zero_def udp_sizes)

theorem udp_ring_fifo_witness:
  "\<exists>out s'. queue_run rp_put (rp_get (item_zero 0)) (Put ([1, 2], 5, 53) # Get # map Put (replicate 8 ([3], 6, 54)))
      (rp_sock_zero (0 :: nat)) = Some (out, s') \<and> rp_inv s' \<and>
    out @ rp_queue s' = ([1, 2], 5, 53) # replicate 7 ([3], 6, 54)"
  using udp_ring_fifo [OF rp_inv_zero, of "item_zero 0" "Put ([1, 2], 5, 53) # Get # map Put (replicate 8 ([3], 6, 54))" "0 :: nat"]
  by (simp add: rp_queue_zero numeral_eq_Suc UDP_RX_BUF_SIZE_def)

text \<open>C28: One \<open>udp_socket_recvfrom\<close> of the bare-metal build, with any datagrams arriving in its poll, is one
  step of a queue of at most seven datagrams: the arrivals that find room are appended, and the
  oldest datagram is returned, cut to the caller's length, with its sender; 0 if there is none.\<close>

theorem rp_recvfrom_refines_queue:
  assumes "rp_inv s" and "priv sock" and "pcb s \<noteq> None" and "len \<le> length buf"
  shows "\<exists>r a b s'. rp_udp_recvfrom is_v6 ip4 ip6 item0 poll sock s addr buf len = Some (r, a, b, s') \<and> rp_inv s' \<and>
    (let q = rp_queue s @ take (7 - length (rp_queue s)) (map kept poll) in
       rp_queue s' = tl q \<and>
       (case q of [] \<Rightarrow> r = 0 \<and> b = buf \<and> a = addr
        | (d, from, prt) # _ \<Rightarrow> r = int (min len (length d)) \<and> b = take len d @ drop (min len (length d)) buf \<and>
            a = map_option (rp_recv_addr is_v6 ip4 ip6 from prt) addr))"
proof -
  have poll: "udp_poll ps t = map_option snd (queue_run rp_put (rp_get item0) (map Put ps) t)" for ps and t :: "'a Rp2040UdpSocket"
    by (induction ps arbitrary: t) (auto split: bind_splits option.splits)
  obtain s1 where s1: "udp_poll poll s = Some s1" "rp_inv s1"
      "rp_queue s1 = rp_queue s @ take (7 - length (rp_queue s)) (map kept poll)"
    using rp_ring.put_all [OF assms(1), of poll item0] poll by auto
  obtain r it f' where p: "udp_fifo_pop (rx_fifo s1) item0 = Some (r, it, f')" "fifo_inv f'" "fifo_queue f' = tl (rp_queue s1)"
      "case rp_queue s1 of [] \<Rightarrow> r = 0 | x # xs \<Rightarrow> r = 1 \<and> item_view it = x \<and> item_len it \<le> UDP_RX_BUF_SIZE \<and>
         length (item_data it) = UDP_RX_BUF_SIZE"
    using fifo_pop_refines [OF s1(2) [unfolded rp_inv_def], of item0] unfolding rp_queue_def by blast
  let ?s = "s1\<lparr>rx_fifo := f'\<rparr>"
  have q: "rp_inv ?s" "rp_queue ?s = tl (rp_queue s1)" using p(2,3) by (simp_all add: rp_inv_def rp_queue_def)
  obtain h where h: "pcb s = Some h" using assms(3) by blast
  show ?thesis
  proof (cases "rp_queue s1")
    case Nil
    then have "rp_udp_recvfrom is_v6 ip4 ip6 item0 poll sock s addr buf len = Some (0, addr, buf, ?s)"
      using assms(2) h s1(1) p by (simp add: rp_udp_recvfrom_def Let_def)
    then show ?thesis unfolding s1(3) [symmetric] using q Nil by (simp add: Let_def)
  next
    case (Cons x xs)
    let ?n = "item_len it"
    have x: "x = (take ?n (item_data it), item_addr it, item_port it)" "?n \<le> length (item_data it)" "r = 1"
      using p(4) Cons by (auto simp: item_view_def)
    have c: "(if len < ?n then len else ?n) = min len ?n" by simp
    have rd: "mem_read 0 (min len ?n) (item_data it) = Some (take (min len ?n) (item_data it))"
      using x(2) by (simp add: mem_read_def min_def)
    have wr: "mem_write 0 (take (min len ?n) (item_data it)) buf =
        Some (take (min len ?n) (item_data it) @ drop (min len ?n) buf)"
    proof -
      have "length (take (min len ?n) (item_data it)) = min len ?n" using x(2) by simp
      moreover have "min len ?n \<le> length buf" using assms(4) by (simp add: min_le_iff_disj)
      ultimately show ?thesis unfolding mem_write_def by simp
    qed
    have "rp_udp_recvfrom is_v6 ip4 ip6 item0 poll sock s addr buf len = Some (int (min len ?n),
        map_option (rp_recv_addr is_v6 ip4 ip6 (item_addr it) (item_port it)) addr,
        take (min len ?n) (item_data it) @ drop (min len ?n) buf, ?s)"
      using assms(2) h s1(1) p(1) x(3) by (simp add: rp_udp_recvfrom_def Let_def c rd wr)
    then show ?thesis unfolding s1(3) [symmetric] using q Cons x by (simp add: Let_def min_absorb2)
  qed
qed

theorem rp_recvfrom_refines_queue_witness:
  "\<exists>r a b s'. rp_udp_recvfrom (\<lambda>_. False) (\<lambda>_. [10, 0, 0, 1]) (\<lambda>_. []) (item_zero 0) [([1, 2, 3], 0, 53)]
      \<lparr>fd = 1, bind_addr = addr_zero, priv = True\<rparr> (rp_sock_zero (0 :: nat)\<lparr>pcb := Some 0\<rparr>) None [9, 9] 2 = Some (r, a, b, s') \<and>
    r = 2 \<and> b = [1, 2]"
proof -
  have i: "rp_inv (rp_sock_zero (0 :: nat)\<lparr>pcb := Some 0\<rparr>)" "rp_queue (rp_sock_zero (0 :: nat)\<lparr>pcb := Some 0\<rparr>) = []"
    using rp_inv_zero [of "0 :: nat"] rp_queue_zero [of "0 :: nat"] by (simp_all add: rp_inv_def rp_queue_def)
  show ?thesis
    using rp_recvfrom_refines_queue [OF i(1), of "\<lparr>fd = 1, bind_addr = addr_zero, priv = True\<rparr>" 2 "[9, 9]"
        "\<lambda>_. False" "\<lambda>_. [10, 0, 0, 1]" "\<lambda>_. []" "item_zero 0" "[([1, 2, 3], 0, 53)]" None]
    by (auto simp: i(2) UDP_RX_BUF_SIZE_def Let_def)
qed

text \<open>The stream buffer delivers the bytes of the TCP stream once each and in order as long as they
  fit: when what arrives during a poll fits behind the bytes already stored, \<open>tcp_socket_recv\<close>
  returns the first \<open>len\<close> of the unread and newly arrived bytes and keeps the rest unread.\<close>

theorem rp_tcp_recv_in_order:
  assumes "tcp_inv s" and "tcp_pcb s \<noteq> None" and "\<not> tcp_error s" and "len \<le> length buf"
    and "rx_len s + length (concat poll) \<le> TCP_RX_BUF_SIZE"
  shows "\<exists>n b s'. rp_tcp_socket_recv poll True s buf len = Some (int n, b, s') \<and> tcp_inv s' \<and>
    take n b @ unread s' = unread s @ concat poll \<and> n = min len (length (unread s @ concat poll))"
proof -
  obtain s1 where s1: "tcp_poll poll s = Some s1" "tcp_inv s1" "unread s1 = unread s @ concat poll" "tcp_pcb s1 = tcp_pcb s"
      "tcp_error s1 = tcp_error s"
    using tcp_poll_queues [OF assms(1,5)] by blast
  obtain h where h: "tcp_pcb s = Some h" using assms(2) by blast
  have same: "rp_tcp_socket_recv poll True s buf len = rp_tcp_socket_recv [] True s1 buf len"
    using s1 h assms(3) by (simp add: rp_tcp_socket_recv_def)
  obtain s' where s': "rp_tcp_socket_recv [] True s1 buf len =
      Some (int (min len (length (unread s1))), take len (unread s1) @ drop (min len (length (unread s1))) buf, s')"
      "tcp_inv s'" "unread s' = drop len (unread s1)"
    using tcp_read_ok [OF s1(2) _ _ assms(4)] s1(4,5) assms(2,3) by auto
  have "take (min len (length (unread s1))) (take len (unread s1) @ drop (min len (length (unread s1))) buf) @ drop len (unread s1) =
      unread s1" by (simp add: min_def)
  then show ?thesis unfolding same s'(1) using s'(2,3) s1(3) by (metis (no_types, lifting))
qed

lemma tcp_open_inv: "rp_tcp_socket_open (Some h) = (0, s) \<Longrightarrow> tcp_inv s \<and> tcp_pcb s = Some h \<and> \<not> tcp_error s \<and> rx_len s = 0 \<and> unread s = []"
  by (auto simp: rp_tcp_socket_open_def tcp_inv_def unread_def)

theorem rp_tcp_recv_in_order_witness:
  "\<exists>n b s'. rp_tcp_socket_recv [[1, 2], [3]] True (snd (rp_tcp_socket_open (Some 7))) [0, 0] 2 = Some (int n, b, s') \<and> tcp_inv s' \<and>
    take n b @ unread s' = [1, 2, 3] \<and> n = 2"
proof -
  obtain s where s: "rp_tcp_socket_open (Some 7) = (0, s)" by (simp add: rp_tcp_socket_open_def)
  have u: "unread s = []" using tcp_open_inv [OF s] by simp
  have "\<exists>n b s'. rp_tcp_socket_recv [[1, 2], [3]] True s [0, 0] 2 = Some (int n, b, s') \<and> tcp_inv s' \<and>
      take n b @ unread s' = unread s @ concat [[1, 2], [3]] \<and> n = min 2 (length (unread s @ concat [[1, 2], [3]]))"
    by (rule rp_tcp_recv_in_order) (use tcp_open_inv [OF s] in \<open>simp_all add: TCP_RX_BUF_SIZE_def\<close>)
  then show ?thesis unfolding s u by (auto simp: numeral_2_eq_2)
qed

text \<open>A segment that does not fit behind the stored bytes is cut: the callback stores and acknowledges
  only what fits, still reports success and frees the rest, so those bytes of the stream are lost.\<close>

theorem tcp_recv_callback_drops:
  assumes "tcp_inv s" and "TCP_RX_BUF_SIZE < rx_len s + length d"
  shows "\<exists>s' n. tcp_recv_callback (Some d) True s = Some (s', n) \<and> n < length d \<and> unread s' = unread s @ take n d \<and>
    \<not> tcp_error s' = (\<not> tcp_error s)"
proof -
  obtain s' where "tcp_recv_callback (Some d) True s = Some (s', length (take (TCP_RX_BUF_SIZE - rx_len s) d))"
      "unread s' = unread s @ take (TCP_RX_BUF_SIZE - rx_len s) d" "tcp_error s' = tcp_error s"
    using tcp_recv_callback_queues [OF assms(1) refl] by blast
  moreover have "TCP_RX_BUF_SIZE - rx_len s < length d" using assms by (auto simp: tcp_inv_def)
  ultimately show ?thesis by (simp add: min_def)
qed

theorem tcp_recv_callback_drops_witness:
  "\<exists>s' n. tcp_recv_callback (Some (replicate 5000 1)) True (snd (rp_tcp_socket_open (Some 7))) = Some (s', n) \<and> n < 5000"
proof -
  obtain s where s: "rp_tcp_socket_open (Some 7) = (0, s)" by (simp add: rp_tcp_socket_open_def)
  have "TCP_RX_BUF_SIZE < rx_len s + length (replicate 5000 1 :: bytes)" by (simp add: TCP_RX_BUF_SIZE_def)
  from tcp_recv_callback_drops [OF _ this] show ?thesis using tcp_open_inv [OF s] unfolding s by auto
qed

text \<open>Opening a second UDP socket clears the one static receive structure the first socket points to:
  the datagrams the first socket holds are gone and both sockets read from the same ring.\<close>

theorem rp_udp_open_clears:
  assumes "rp_udp_socket_open (Some h1) bnd rnd lport ip0 u1 fam prt = (0, u1', s1)"
    and "udp_poll arrivals s1 = Some s1'"
    and "rp_udp_socket_open (Some h2) bnd' rnd' lport' ip0 u2 fam' prt' = (0, u2', s2)"
  shows "priv u1' \<and> priv u2' \<and> pcb s2 = Some h2 \<and> rp_queue s2 = []"
proof -
  have "rp_queue s = [] \<and> pcb s = Some h \<and> priv u'"
    if "rp_udp_socket_open (Some h) b r l ip0 u f p = (0, u', s)" for h b r l u f p u' s
    using that rp_queue_zero [of ip0] by (auto simp: rp_udp_socket_open_def Let_def rp_queue_def split: if_splits)
  then show ?thesis using assms by blast
qed

theorem rp_udp_open_clears_witness:
  "\<exists>s1' (u1' :: RpUdpSocket) (u2' :: RpUdpSocket) s2. udp_poll [([1], 3, 53)] (rp_sock_zero (0 :: nat)\<lparr>pcb := Some 0\<rparr>) = Some s1' \<and> rp_queue s1' \<noteq> [] \<and>
    (priv u1' \<and> priv u2' \<and> pcb s2 = Some 2 \<and> rp_queue (s2 :: nat Rp2040UdpSocket) = [])"
proof -
  let ?u = "\<lparr>fd = 0, bind_addr = addr_zero, priv = False\<rparr>" and ?s = "rp_sock_zero (0 :: nat)\<lparr>pcb := Some 0\<rparr>"
  have op: "\<exists>u'. rp_udp_socket_open (Some h) (\<lambda>_ _ _. True) (\<lambda>_. 0) 5 (0 :: nat) ?u AF_INET 0 =
      (0, u', rp_sock_zero 0\<lparr>pcb := Some h\<rparr>)" for h
    by (simp add: rp_udp_socket_open_def bind_any_def EPHEMERAL_PORT_RETRIES_def numeral_eq_Suc Let_def)
  obtain u1 u2 where o: "rp_udp_socket_open (Some 0) (\<lambda>_ _ _. True) (\<lambda>_. 0) 5 (0 :: nat) ?u AF_INET 0 = (0, u1, ?s)"
    "rp_udp_socket_open (Some 2) (\<lambda>_ _ _. True) (\<lambda>_. 0) 5 (0 :: nat) ?u AF_INET 0 = (0, u2, rp_sock_zero 0\<lparr>pcb := Some 2\<rparr>)"
    using op [of 0] op [of 2] by blast
  have i: "rp_inv ?s" "rp_queue ?s = []"
    using rp_inv_zero [of "0 :: nat"] rp_queue_zero [of "0 :: nat"] by (simp_all add: rp_inv_def rp_queue_def)
  obtain s1' where s1': "udp_poll [([1], 3, 53)] ?s = Some s1'" "rp_queue s1' = [([1], 3, 53)]"
    using rp_put_ok [OF i(1), of "([1], 3, 53)"] i(2) by (auto simp: UDP_RX_BUF_SIZE_def)
  have "udp_poll [([1], 3, 53)] ?s = Some s1' \<and> rp_queue s1' \<noteq> []" using s1' by simp
  with rp_udp_open_clears [OF o(1) s1'(1) o(2)] show ?thesis by blast
qed

text \<open>A socket opened without a port gets a port from 49152 to 65535 after at most ten attempts, or port
  0 for lwIP to choose after a last one; a socket opened with a port asks for that port only.\<close>

theorem bind_any_ports:
  "bind_any bnd rnd fam prt = (ok, p) \<Longrightarrow>
     (if prt = 0 then p = 0 \<or> EPHEMERAL_PORT_LO \<le> p \<and> p \<le> EPHEMERAL_PORT_HI else p = prt) \<and>
     (ok \<longrightarrow> (\<exists>k \<le> EPHEMERAL_PORT_RETRIES. bnd k fam p))"
proof -
  assume b: "bind_any bnd rnd fam prt = (ok, p)"
  have eph: "EPHEMERAL_PORT_LO \<le> ephemeral_port r \<and> ephemeral_port r \<le> EPHEMERAL_PORT_HI" for r
    by (simp add: ephemeral_port_def ephemeral less_Suc_eq_le [symmetric])
  have loop: "EPHEMERAL_PORT_LO \<le> q \<and> q \<le> EPHEMERAL_PORT_HI \<and> (\<exists>j < k + n. bnd j fam q)"
    if "try_ephemeral bnd rnd fam k n = (True, q)" for k n q
    using that
  proof (induction bnd rnd fam k n rule: try_ephemeral.induct)
    case (2 bnd rnd fam k n)
    show ?case
    proof (cases "bnd k fam (ephemeral_port (rnd k))")
      case True
      then show ?thesis using 2(2) eph [of "rnd k"] by (auto simp: Let_def intro!: exI [of _ k])
    next
      case False
      then show ?thesis using 2 by (auto simp: Let_def split: if_splits)
    qed
  qed simp
  obtain ok' q where t: "try_ephemeral bnd rnd fam 0 EPHEMERAL_PORT_RETRIES = (ok', q)" by fastforce
  consider "prt \<noteq> 0" | "prt = 0" "ok'" | "prt = 0" "\<not> ok'" by blast
  then show ?thesis
  proof cases
    case 1
    then show ?thesis using b by (auto simp: bind_any_def)
  next
    case 2
    then have "ok" "p = q" using b t by (auto simp: bind_any_def)
    moreover have "\<exists>k \<le> EPHEMERAL_PORT_RETRIES. bnd k fam q"
      using loop [of 0 EPHEMERAL_PORT_RETRIES q] t 2 by (auto intro: less_imp_le)
    ultimately show ?thesis using loop [of 0 EPHEMERAL_PORT_RETRIES q] t 2 by simp
  next
    case 3
    then show ?thesis using b t by (auto simp: bind_any_def)
  qed
qed

lemma try_ephemeral_numeral:
  "try_ephemeral bnd rnd fam k (numeral v) = (let p = ephemeral_port (rnd k) in
      if bnd k fam p then (True, p)
      else if pred_numeral v = 0 then (False, p) else try_ephemeral bnd rnd fam (k + 1) (pred_numeral v))"
  by (simp add: numeral_eq_Suc)

theorem bind_any_ports_witness:
  "bind_any (\<lambda>k fam p. k = 2) (\<lambda>k. k) AF_INET 0 = (True, 49154) \<and> EPHEMERAL_PORT_LO \<le> 49154 \<and> 49154 \<le> EPHEMERAL_PORT_HI"
proof -
  have b: "bind_any (\<lambda>k fam p. k = 2) (\<lambda>k. k) AF_INET 0 = (True, 49154)"
    by (simp add: bind_any_def ephemeral ephemeral_port_def try_ephemeral_numeral Let_def)
  show ?thesis using bind_any_ports [OF b] b by simp
qed

end
