(* ===== verification/Transport.thy ===== *)
theory Transport
  imports Socket_Rp2040 Peer_Machine
begin

text \<open>
  The stream transports below the signaling (\<^verbatim>\<open>src/src/ssl_transport.c\<close>, \<^verbatim>\<open>src/src/tcp_transport.c\<close>): a TLS client
  and a plain TCP connection, both with a connect, a send, a receive and a disconnect.

  \<^item> mbedTLS is the parameter \<open>lib\<close>; what its contexts hold together has the type \<open>'c\<close>. The calls that do
    input and output get the two functions the code registers (the record \<open>NetBio\<close>).
  \<^item> The handshake loop of the code has no way out but success, so it is a partial function;
    the lemmas say exactly when it returns. The send loop is bounded and a plain recursion.
  \<^item> TCP sockets have the record of the UDP ones, as in \<^theory_text>\<open>Socket\<close>.
\<close>

section \<open>The library\<close>

record 'w NetBio =
  net_send :: "bytes \<Rightarrow> 'w \<Rightarrow> (int \<times> 'w) option"
  net_recv :: "nat \<Rightarrow> nat \<Rightarrow> 'w \<Rightarrow> (int \<times> bytes \<times> 'w) option"

record ('c, 'w) SslLib =
  lib_init :: 'c
  lib_seed :: "bytes \<Rightarrow> 'c \<Rightarrow> 'w \<Rightarrow> int \<times> 'c \<times> 'w"
  lib_config_defaults :: "'c \<Rightarrow> int \<times> 'c"
  lib_conf_verify_optional :: "'c \<Rightarrow> 'c"
  lib_setup :: "'c \<Rightarrow> int \<times> 'c"
  lib_set_hostname :: "bytes \<Rightarrow> 'c \<Rightarrow> int \<times> 'c"
  lib_conf_read_timeout :: "nat \<Rightarrow> 'c \<Rightarrow> 'c"
  lib_handshake :: "'w NetBio \<Rightarrow> 'c \<Rightarrow> 'w \<Rightarrow> (int \<times> 'c \<times> 'w) option"
  lib_read :: "'w NetBio \<Rightarrow> nat \<Rightarrow> 'c \<Rightarrow> 'w \<Rightarrow> (int \<times> bytes \<times> 'c \<times> 'w) option"
  lib_write :: "'w NetBio \<Rightarrow> bytes \<Rightarrow> 'c \<Rightarrow> 'w \<Rightarrow> (int \<times> 'c \<times> 'w) option"
  lib_free :: "'c \<Rightarrow> 'c"

record 'c NetworkContext =
  tcp_socket :: UdpSocket
  tls_ctx :: 'c

section \<open>TLS over TCP\<close>

text \<open>Receiving for the library: a time-out is reported as 0, which is also the end of the stream.\<close>

definition ssl_transport_mbedtls_recv_timeout ::
  "'w Os \<Rightarrow> UdpSocket \<Rightarrow> nat \<Rightarrow> nat \<Rightarrow> 'w \<Rightarrow> (int \<times> bytes \<times> 'w) option" where
  "ssl_transport_mbedtls_recv_timeout os sock len timeout w = do {
     c_assert (0 \<le> fd sock);
     let (ret, ready, w) = os_select os [fd sock] timeout w;
     (if ret < 0 then Some (-1, [], w)
      else if ret = 0 then Some (0, [], w)
      else if fd sock \<in> set ready then do {
        (ret, buf, w) \<leftarrow> tcp_socket_recv os sock (replicate len 0) len w;
        Some (ret, take (nat ret) buf, w) }
      else Some (ret, [], w))
   }"

definition ssl_transport_mbedlts_send :: "'w Os \<Rightarrow> UdpSocket \<Rightarrow> bytes \<Rightarrow> 'w \<Rightarrow> (int \<times> 'w) option" where
  "ssl_transport_mbedlts_send os sock buf w = tcp_socket_send os sock buf (length buf) w"

definition net_bio :: "'w Os \<Rightarrow> UdpSocket \<Rightarrow> 'w NetBio" where
  "net_bio os sock = \<lparr>net_send = ssl_transport_mbedlts_send os sock, net_recv = ssl_transport_mbedtls_recv_timeout os sock\<rparr>"

definition MBEDTLS_ERR_NET_RECV_FAILED :: int where "MBEDTLS_ERR_NET_RECV_FAILED = - 0x004C"

text \<open>The receive function on the RP2040: the driver is polled every ten milliseconds. \<open>polls k\<close> is
  what the callbacks of the \<open>k\<close>-th poll do to the socket, and the segments the read after it brings.\<close>

function rp_ssl_recv_poll ::
  "(nat \<Rightarrow> (Rp2040TcpSocket \<Rightarrow> Rp2040TcpSocket) \<times> bytes list) \<Rightarrow> nat \<Rightarrow> nat \<Rightarrow> nat \<Rightarrow> bool \<Rightarrow> Rp2040TcpSocket \<Rightarrow> bytes \<Rightarrow> nat \<Rightarrow>
   (int \<times> bytes \<times> Rp2040TcpSocket) option" where
  "rp_ssl_recv_poll polls k elapsed timeout has_priv sock buf len =
     (if elapsed < timeout then do {
        (ret, buf, sock) \<leftarrow> rp_tcp_socket_recv (snd (polls k)) has_priv (fst (polls k) sock) buf len;
        (if 0 < ret then Some (ret, buf, sock)
         else if ret < 0 then Some (MBEDTLS_ERR_NET_RECV_FAILED, buf, sock)
         else rp_ssl_recv_poll polls (k + 1) (elapsed + 10) timeout has_priv sock buf len)
      }
      else Some (MBEDTLS_ERR_SSL_WANT_READ, buf, sock))"
  by pat_completeness auto
termination by (relation "measure (\<lambda>(polls, k, e, t, p, s, b, n). t - e)") auto

declare rp_ssl_recv_poll.simps [simp del]

definition rp_ssl_recv_timeout ::
  "(nat \<Rightarrow> (Rp2040TcpSocket \<Rightarrow> Rp2040TcpSocket) \<times> bytes list) \<Rightarrow> bool \<Rightarrow> Rp2040TcpSocket \<Rightarrow> bytes \<Rightarrow> nat \<Rightarrow> nat \<Rightarrow> (int \<times> bytes \<times> Rp2040TcpSocket) option" where
  "rp_ssl_recv_timeout polls has_priv sock buf len timeout = rp_ssl_recv_poll polls 0 0 timeout has_priv sock buf len"

text \<open>Everything up to the handshake. What was set up is not released on an error.\<close>

definition ssl_transport_setup ::
  "'w Os \<Rightarrow> ('c, 'w) SslLib \<Rightarrow> 'c NetworkContext \<Rightarrow> bytes \<Rightarrow> u16 \<Rightarrow> 'w \<Rightarrow> int \<times> 'c NetworkContext \<times> 'w" where
  "ssl_transport_setup os lib net host prt w =
     (let (ret, c, w) = lib_seed lib (str ''ssl_client'') (lib_init lib) w in
      if ret \<noteq> 0 then (-1, net\<lparr>tls_ctx := c\<rparr>, w)
      else let (ret, c) = lib_config_defaults lib c in
      if ret \<noteq> 0 then (-1, net\<lparr>tls_ctx := c\<rparr>, w)
      else let (ret, c) = lib_setup lib (lib_conf_verify_optional lib c) in
      if ret \<noteq> 0 then (-1, net\<lparr>tls_ctx := c\<rparr>, w)
      else let (ret, c) = lib_set_hostname lib host c in
      if ret \<noteq> 0 then (-1, net\<lparr>tls_ctx := c\<rparr>, w)
      else let (r, sock, w) = tcp_socket_open os (tcp_socket net) AF_INET w;
               net = net\<lparr>tcp_socket := sock, tls_ctx := c\<rparr>;
               (ret, addr, w) = ports_resolve_addr os host addr_zero w in
      if ret < 0 then (-1, net, w)
      else let (ret, w) = tcp_socket_connect os sock (addr_set_port addr prt) w in
      if ret < 0 then (-1, net, w)
      else (0, net\<lparr>tls_ctx := lib_conf_read_timeout lib CONFIG_TLS_READ_TIMEOUT c\<rparr>, w))"

text \<open>An error of the handshake is logged and the handshake tried again.\<close>

partial_function (option) ssl_handshake_loop ::
  "('c, 'w) SslLib \<Rightarrow> 'w NetBio \<Rightarrow> 'c \<Rightarrow> 'w \<Rightarrow> ('c \<times> 'w) option" where
  "ssl_handshake_loop lib bio c w = do {
     (ret, c, w) \<leftarrow> lib_handshake lib bio c w;
     (if ret \<noteq> 0 then ssl_handshake_loop lib bio c w else Some (c, w))
   }"

definition ssl_transport_connect ::
  "'w Os \<Rightarrow> ('c, 'w) SslLib \<Rightarrow> 'c NetworkContext \<Rightarrow> bytes \<Rightarrow> u16 \<Rightarrow> 'w \<Rightarrow> (int \<times> 'c NetworkContext \<times> 'w) option" where
  "ssl_transport_connect os lib net host prt w =
     (let (ret, net, w) = ssl_transport_setup os lib net host prt w in
      if ret < 0 then Some (-1, net, w)
      else do {
        (c, w) \<leftarrow> ssl_handshake_loop lib (net_bio os (tcp_socket net)) (tls_ctx net) w;
        Some (0, net\<lparr>tls_ctx := c\<rparr>, w)
      })"

definition ssl_transport_disconnect ::
  "'w Os \<Rightarrow> ('c, 'w) SslLib \<Rightarrow> 'c NetworkContext \<Rightarrow> 'w \<Rightarrow> 'c NetworkContext \<times> 'w" where
  "ssl_transport_disconnect os lib net w = (net\<lparr>tls_ctx := lib_free lib (tls_ctx net)\<rparr>, tcp_socket_close os (tcp_socket net) w)"

definition ssl_transport_recv ::
  "'w Os \<Rightarrow> ('c, 'w) SslLib \<Rightarrow> 'c NetworkContext \<Rightarrow> bytes \<Rightarrow> nat \<Rightarrow> 'w \<Rightarrow> (int \<times> bytes \<times> 'c NetworkContext \<times> 'w) option" where
  "ssl_transport_recv os lib net buf len w = do {
     buf \<leftarrow> mem_write 0 (replicate len 0) buf;
     (ret, d, c, w) \<leftarrow> lib_read lib (net_bio os (tcp_socket net)) len (tls_ctx net) w;
     buf \<leftarrow> mem_write 0 (take len d) buf;
     Some (ret, buf, net\<lparr>tls_ctx := c\<rparr>, w)
   }"

definition max_retry :: nat where "max_retry = 5"

function ssl_write_loop ::
  "('c, 'w) SslLib \<Rightarrow> 'w NetBio \<Rightarrow> bytes \<Rightarrow> nat \<Rightarrow> 'c \<Rightarrow> 'w \<Rightarrow> (int \<times> 'c \<times> 'w) option" where
  "ssl_write_loop lib bio d retry_count c w = do {
     (ret, c, w) \<leftarrow> lib_write lib bio d c w;
     (if ret \<le> 0 then
        (if max_retry \<le> retry_count + 1 then Some (-1, c, w) else ssl_write_loop lib bio d (retry_count + 1) c w)
      else Some (ret, c, w))
   }"
  by pat_completeness auto
termination by (relation "measure (\<lambda>(lib, bio, d, k, c, w). max_retry - k)") auto

declare ssl_write_loop.simps [simp del]

definition ssl_transport_send ::
  "'w Os \<Rightarrow> ('c, 'w) SslLib \<Rightarrow> 'c NetworkContext \<Rightarrow> bytes \<Rightarrow> nat \<Rightarrow> 'w \<Rightarrow> (int \<times> 'c NetworkContext \<times> 'w) option" where
  "ssl_transport_send os lib net buf len w = do {
     d \<leftarrow> mem_read 0 len buf;
     (ret, c, w) \<leftarrow> ssl_write_loop lib (net_bio os (tcp_socket net)) d 0 (tls_ctx net) w;
     Some (ret, net\<lparr>tls_ctx := c\<rparr>, w)
   }"

section \<open>Plain TCP\<close>

text \<open>The results of opening the socket and of the look-up are not looked at.\<close>

definition tcp_transport_connect :: "'w Os \<Rightarrow> UdpSocket \<Rightarrow> bytes \<Rightarrow> u16 \<Rightarrow> 'w \<Rightarrow> int \<times> UdpSocket \<times> 'w" where
  "tcp_transport_connect os sock host prt w =
     (let (r, sock, w) = tcp_socket_open os sock AF_INET w;
          (r, addr, w) = ports_resolve_addr os host addr_zero w;
          (ret, w) = tcp_socket_connect os sock (addr_set_port addr prt) w
      in (if ret < 0 then -1 else 0, sock, w))"

definition tcp_transport_disconnect :: "'w Os \<Rightarrow> UdpSocket \<Rightarrow> 'w \<Rightarrow> 'w" where
  "tcp_transport_disconnect os sock w = tcp_socket_close os sock w"

definition tcp_transport_recv :: "'w Os \<Rightarrow> UdpSocket \<Rightarrow> bytes \<Rightarrow> nat \<Rightarrow> 'w \<Rightarrow> (int \<times> bytes \<times> 'w) option" where
  "tcp_transport_recv os sock buf len w = do {
     c_assert (0 \<le> fd sock);
     let (ret, ready, w) = os_select os [fd sock] CONFIG_TLS_READ_TIMEOUT w;
     (if ret < 0 then Some (-1, buf, w)
      else if ret = 0 then Some (0, buf, w)
      else if fd sock \<in> set ready then do {
        buf \<leftarrow> mem_write 0 (replicate len 0) buf;
        tcp_socket_recv os sock buf len w }
      else Some (ret, buf, w))
   }"

definition tcp_transport_send :: "'w Os \<Rightarrow> UdpSocket \<Rightarrow> bytes \<Rightarrow> nat \<Rightarrow> 'w \<Rightarrow> (int \<times> 'w) option" where
  "tcp_transport_send os sock buf len w = tcp_socket_send os sock buf len w"

section \<open>When connecting returns\<close>

text \<open>The state after \<open>n\<close> handshake calls, all of which have failed.\<close>

fun failed_handshakes :: "('c, 'w) SslLib \<Rightarrow> 'w NetBio \<Rightarrow> nat \<Rightarrow> 'c \<Rightarrow> 'w \<Rightarrow> ('c \<times> 'w) option" where
  "failed_handshakes lib bio 0 c w = Some (c, w)"
| "failed_handshakes lib bio (Suc n) c w = do {
     (ret, c, w) \<leftarrow> lib_handshake lib bio c w;
     c_assert (ret \<noteq> 0);
     failed_handshakes lib bio n c w
   }"

lemma handshake_loop_runs:
  assumes "ssl_handshake_loop lib bio c w = Some y"
  shows "\<exists>n c1 w1. failed_handshakes lib bio n c w = Some (c1, w1) \<and> lib_handshake lib bio c1 w1 = Some (0, y)"
  using assms
proof (rule ssl_handshake_loop.raw_induct [rotated, where
    P = "\<lambda>lib bio c w y. \<exists>n c1 w1. failed_handshakes lib bio n c w = Some (c1, w1) \<and> lib_handshake lib bio c1 w1 = Some (0, y)"])
  fix f lib bio c w y
  assume ih: "\<And>lib bio c w y. f lib bio c w = Some y \<Longrightarrow>
      \<exists>n c1 w1. failed_handshakes lib bio n c w = Some (c1, w1) \<and> lib_handshake lib bio c1 w1 = Some (0, y)"
    and st: "do {
     (ret, c, w) \<leftarrow> lib_handshake lib bio c w;
     (if ret \<noteq> 0 then f lib bio c w else Some (c, w))
   } = Some y"
  obtain ret c2 w2 where h: "lib_handshake lib bio c w = Some (ret, c2, w2)" using st by (auto simp: Option.bind_eq_Some_conv)
  show "\<exists>n c1 w1. failed_handshakes lib bio n c w = Some (c1, w1) \<and> lib_handshake lib bio c1 w1 = Some (0, y)"
  proof (cases "ret = 0")
    case True
    then have "failed_handshakes lib bio 0 c w = Some (c, w) \<and> lib_handshake lib bio c w = Some (0, y)" using st h by simp
    then show ?thesis by blast
  next
    case False
    then have "f lib bio c2 w2 = Some y" using st h by simp
    then obtain n c1 w1 where "failed_handshakes lib bio n c2 w2 = Some (c1, w1)" "lib_handshake lib bio c1 w1 = Some (0, y)"
      using ih by blast
    then have "failed_handshakes lib bio (Suc n) c w = Some (c1, w1) \<and> lib_handshake lib bio c1 w1 = Some (0, y)"
      using h False by simp
    then show ?thesis by blast
  qed
qed

lemma handshake_loop_ends:
  "failed_handshakes lib bio n c w = Some (c1, w1) \<Longrightarrow> lib_handshake lib bio c1 w1 = Some (0, c', w') \<Longrightarrow>
   ssl_handshake_loop lib bio c w = Some (c', w')"
proof (induction n arbitrary: c w)
  case 0
  then show ?case by (subst ssl_handshake_loop.simps) simp
next
  case (Suc n)
  then obtain ret c2 w2 where "lib_handshake lib bio c w = Some (ret, c2, w2)" "ret \<noteq> 0"
      "failed_handshakes lib bio n c2 w2 = Some (c1, w1)"
    by (auto simp: Option.bind_eq_Some_conv c_assert_def split: if_splits)
  then show ?case using Suc by (subst ssl_handshake_loop.simps) simp
qed

lemma handshake_loop_iff:
  "ssl_handshake_loop lib bio c w = Some (c', w') \<longleftrightarrow>
   (\<exists>n c1 w1. failed_handshakes lib bio n c w = Some (c1, w1) \<and> lib_handshake lib bio c1 w1 = Some (0, c', w'))"
  by (auto dest: handshake_loop_runs intro: handshake_loop_ends)

section \<open>The attempts of a send\<close>

text \<open>\<open>n\<close> writes of the same bytes and their results.\<close>

fun write_run :: "('c, 'w) SslLib \<Rightarrow> 'w NetBio \<Rightarrow> bytes \<Rightarrow> nat \<Rightarrow> 'c \<Rightarrow> 'w \<Rightarrow> (int list \<times> 'c \<times> 'w) option" where
  "write_run lib bio d 0 c w = Some ([], c, w)"
| "write_run lib bio d (Suc n) c w = do {
     (r, c, w) \<leftarrow> lib_write lib bio d c w;
     (rs, c, w) \<leftarrow> write_run lib bio d n c w;
     Some (r # rs, c, w)
   }"

text \<open>What the results say of a send that is given \<open>n\<close> attempts and returns \<open>r\<close>.\<close>

definition send_outcome :: "nat \<Rightarrow> int list \<Rightarrow> int \<Rightarrow> bool" where
  "send_outcome n rs r \<longleftrightarrow> rs \<noteq> [] \<and> length rs \<le> n \<and> (\<forall>x \<in> set (butlast rs). x \<le> 0) \<and>
     (if 0 < last rs then r = last rs else length rs = n \<and> r = -1)"

lemma send_outcome_Cons:
  "send_outcome n (x # rs) r \<longleftrightarrow> 1 \<le> n \<and>
     (if rs = [] then (if 0 < x then r = x else n = 1 \<and> r = -1) else x \<le> 0 \<and> send_outcome (n - 1) rs r)"
  by (auto simp: send_outcome_def Suc_le_eq)

lemma write_loop_run:
  "k < max_retry \<Longrightarrow> ssl_write_loop lib bio d k c w = Some (r, c', w') \<longleftrightarrow>
     (\<exists>rs. write_run lib bio d (length rs) c w = Some (rs, c', w') \<and> send_outcome (max_retry - k) rs r)"
proof (induction lib bio d k c w rule: ssl_write_loop.induct)
  case (1 lib bio d k c w)
  have nil: "\<not> send_outcome n [] r" for n by (simp add: send_outcome_def)
  show ?case
  proof (cases "lib_write lib bio d c w")
    case None
    then have "write_run lib bio d (length rs) c w \<noteq> Some (rs, c', w') \<or> rs = []" for rs by (cases rs) auto
    then show ?thesis using None nil by (subst ssl_write_loop.simps) auto
  next
    case (Some y)
    obtain x c2 w2 where y: "y = (x, c2, w2)" by (cases y)
    have run: "write_run lib bio d (length (z # rs)) c w = Some (z # rs, c', w') \<longleftrightarrow>
        z = x \<and> write_run lib bio d (length rs) c2 w2 = Some (rs, c', w')" for z rs
      using Some y by (auto simp: Option.bind_eq_Some_conv)
    have ex: "(\<exists>rs. P rs) \<longleftrightarrow> P [] \<or> (\<exists>z rs. P (z # rs))" for P :: "int list \<Rightarrow> bool"
      by (metis neq_Nil_conv)
    have step: "(\<exists>rs. write_run lib bio d (length rs) c w = Some (rs, c', w') \<and> send_outcome (max_retry - k) rs r) \<longleftrightarrow>
        (\<exists>rs. write_run lib bio d (length rs) c2 w2 = Some (rs, c', w') \<and> send_outcome (max_retry - k) (x # rs) r)"
      by (subst ex) (auto simp only: run nil simp_thms)
    consider "0 < x" | "x \<le> 0" "max_retry \<le> k + 1" | "x \<le> 0" "k + 1 < max_retry" by linarith
    then show ?thesis
    proof cases
      case 1
      then show ?thesis using Some y "1.prems" step
        by (subst ssl_write_loop.simps, subst step) (auto simp: send_outcome_Cons split: if_splits intro: exI [of _ "[]"])
    next
      case 2
      then have m: "max_retry - k = 1" using "1.prems" by simp
      show ?thesis using Some y 2 step
        by (subst ssl_write_loop.simps, subst step) (auto simp: m send_outcome_Cons send_outcome_def split: if_splits intro: exI [of _ "[]"])
    next
      case 3
      have e: "send_outcome (max_retry - k) (x # rs) r \<longleftrightarrow> send_outcome (max_retry - (k + 1)) rs r" for rs
        using 3 by (cases "rs = []") (auto simp: send_outcome_Cons send_outcome_def)
      have "ssl_write_loop lib bio d k c w = ssl_write_loop lib bio d (k + 1) c2 w2"
        using Some y 3 by (subst ssl_write_loop.simps) simp
      then show ?thesis using "1.IH" [OF Some y [symmetric] refl] 3 step by (simp add: e)
    qed
  qed
qed

lemma failed_handshakes_snoc:
  "failed_handshakes lib bio (Suc n) c w = Some z \<Longrightarrow>
   \<exists>ret c1 w1. failed_handshakes lib bio n c w = Some (c1, w1) \<and> lib_handshake lib bio c1 w1 = Some (ret, z) \<and> ret \<noteq> 0"
proof (induction n arbitrary: c w)
  case 0
  then show ?case by (auto simp: Option.bind_eq_Some_conv c_assert_def split: if_splits)
next
  case (Suc n)
  obtain ret c2 w2 where h: "lib_handshake lib bio c w = Some (ret, c2, w2)"
    using Suc.prems by (cases "lib_handshake lib bio c w") auto
  have r: "ret \<noteq> 0" "failed_handshakes lib bio (Suc n) c2 w2 = Some z"
    using Suc.prems h by (cases "ret = 0"; simp del: failed_handshakes.simps add: failed_handshakes.simps(2) [of lib bio "Suc n"])+
  show ?case using Suc.IH [OF r(2)] h r(1) by auto
qed

section \<open>Properties\<close>

text \<open>C17: \<open>ssl_transport_connect\<close> gives -1 exactly when something before the handshake fails. After that
  it can only succeed: it returns 0 in the state of the first handshake call that returns 0, and if
  there is none, because every call fails, it never returns.\<close>

theorem ssl_connect_returns:
  fixes net1 :: "'c NetworkContext" and lib :: "('c, 'w) SslLib"
  assumes "ssl_transport_setup os lib net host prt w = (ret, net1, w1)"
  defines "bio \<equiv> net_bio os (tcp_socket net1)"
  shows "(ssl_transport_connect os lib net host prt w = Some (r, net', w') \<longleftrightarrow>
      (if ret < 0 then (r, net', w') = (-1, net1, w1)
       else r = 0 \<and> (\<exists>n c2 w2 c3. failed_handshakes lib bio n (tls_ctx net1) w1 = Some (c2, w2) \<and>
              lib_handshake lib bio c2 w2 = Some (0, c3, w') \<and> net' = net1\<lparr>tls_ctx := c3\<rparr>))) \<and>
    (0 \<le> ret \<and> (\<forall>n. failed_handshakes lib bio n (tls_ctx net1) w1 \<noteq> None) \<longrightarrow>
      ssl_transport_connect os lib net host prt w = None)"
proof (cases "ret < 0")
  case False
  have run: "ssl_transport_connect os lib net host prt w =
      do { (c, w) \<leftarrow> ssl_handshake_loop lib bio (tls_ctx net1) w1; Some (0, net1\<lparr>tls_ctx := c\<rparr>, w) }"
    using assms(1) False by (simp add: ssl_transport_connect_def bio_def)
  have "ssl_handshake_loop lib bio (tls_ctx net1) w1 = None" if "\<forall>n. failed_handshakes lib bio n (tls_ctx net1) w1 \<noteq> None"
  proof (rule ccontr)
    assume "ssl_handshake_loop lib bio (tls_ctx net1) w1 \<noteq> None"
    then obtain n c2 w2 z where "failed_handshakes lib bio n (tls_ctx net1) w1 = Some (c2, w2)"
        "lib_handshake lib bio c2 w2 = Some (0, z)"
      by (auto dest: handshake_loop_runs)
    moreover have "failed_handshakes lib bio (Suc n) (tls_ctx net1) w1 \<noteq> None" using that by blast
    ultimately show False using failed_handshakes_snoc by fastforce
  qed
  then have none: "ssl_transport_connect os lib net host prt w = None" if "\<forall>n. failed_handshakes lib bio n (tls_ctx net1) w1 \<noteq> None"
    using that by (simp add: run)
  have "ssl_transport_connect os lib net host prt w = Some (r, net', w') \<longleftrightarrow>
      r = 0 \<and> (\<exists>c3. ssl_handshake_loop lib bio (tls_ctx net1) w1 = Some (c3, w') \<and> net' = net1\<lparr>tls_ctx := c3\<rparr>)"
    by (auto simp: run Option.bind_eq_Some_conv)
  then have "ssl_transport_connect os lib net host prt w = Some (r, net', w') \<longleftrightarrow>
      r = 0 \<and> (\<exists>n c2 w2 c3. failed_handshakes lib bio n (tls_ctx net1) w1 = Some (c2, w2) \<and>
        lib_handshake lib bio c2 w2 = Some (0, c3, w') \<and> net' = net1\<lparr>tls_ctx := c3\<rparr>)"
    unfolding handshake_loop_iff by blast
  then show ?thesis using False none by simp
qed (use assms(1) in \<open>auto simp: ssl_transport_connect_def\<close>)

text \<open>A library the contexts of which count the failures still to come; with none left the handshake
  succeeds. The writes are scripted by a list of results.\<close>

definition example_lib :: "nat \<Rightarrow> int list \<Rightarrow> (nat \<times> int list, unit) SslLib" where
  "example_lib n rs = \<lparr>lib_init = (n, rs), lib_seed = \<lambda>p c w. (0, c, w), lib_config_defaults = \<lambda>c. (0, c),
     lib_conf_verify_optional = id, lib_setup = \<lambda>c. (0, c), lib_set_hostname = \<lambda>h c. (0, c),
     lib_conf_read_timeout = \<lambda>t c. c,
     lib_handshake = \<lambda>bio c w. Some (if fst c = 0 then 0 else - 0x7200, (fst c - 1, snd c), w),
     lib_read = \<lambda>bio n c w. Some (0, [], c, w),
     lib_write = \<lambda>bio d c w. Some (hd (snd c), (fst c, tl (snd c)), w), lib_free = id\<rparr>"

definition online_os :: "unit Os" where
  "online_os = silent_os\<lparr>os_getaddrinfo := \<lambda>_ w. (Some [(AF_INET, [10, 0, 0, 1], 0)], w)\<rparr>"

definition example_net :: "(nat \<times> int list) NetworkContext" where
  "example_net = \<lparr>tcp_socket = \<lparr>fd = -1, bind_addr = addr_zero\<rparr>, tls_ctx = (0, [])\<rparr>"

theorem ssl_connect_returns_witness:
  "\<exists>net'. ssl_transport_connect online_os (example_lib 2 []) example_net (str ''h'') 443 () = Some (0, net', ())"
proof -
  let ?lib = "example_lib 2 []"
  obtain net1 where s: "ssl_transport_setup online_os ?lib example_net (str ''h'') 443 () = (0, net1, ())" "tls_ctx net1 = (2, [])"
    by (simp add: ssl_transport_setup_def example_lib_def online_os_def silent_os_def example_net_def tcp_socket_open_def
        ports_resolve_addr_def tcp_socket_connect_def addr_set_family_def addr_set_port_def addr_zero_def AF_INET_def AF_INET6_def
        set_sockaddr_def)
  have f: "failed_handshakes ?lib bio 2 (tls_ctx net1) () = Some ((0, []), ())"
      "lib_handshake ?lib bio (0, []) () = Some (0, (0, []), ())" for bio
    by (simp_all add: s(2) example_lib_def numeral_2_eq_2)
  have "ssl_transport_connect online_os ?lib example_net (str ''h'') 443 () = Some (0, net1\<lparr>tls_ctx := (0, [])\<rparr>, ())"
    by (rule iffD2 [OF conjunct1 [OF ssl_connect_returns [OF s(1)]]], unfold if_not_P [OF less_irrefl]) (use f in blast)
  then show ?thesis by blast
qed

text \<open>A send makes at most five attempts, one after the other with the same bytes, and stops at the
  first that the library accepts: it returns the result of that one, or -1 after five refusals.\<close>

theorem ssl_send_attempts:
  assumes "len \<le> length buf"
  shows "ssl_transport_send os lib net buf len w = Some (r, net', w') \<longleftrightarrow>
    (\<exists>rs c'. write_run lib (net_bio os (tcp_socket net)) (take len buf) (length rs) (tls_ctx net) w = Some (rs, c', w') \<and>
       rs \<noteq> [] \<and> length rs \<le> 5 \<and> (\<forall>x \<in> set (butlast rs). x \<le> 0) \<and>
       (if 0 < last rs then r = last rs else length rs = 5 \<and> r = -1) \<and> net' = net\<lparr>tls_ctx := c'\<rparr>)"
  using assms write_loop_run [of 0 lib "net_bio os (tcp_socket net)" "take len buf"]
  by (auto simp: ssl_transport_send_def mem_read_def Option.bind_eq_Some_conv max_retry_def send_outcome_def)

theorem ssl_send_attempts_witness:
  "\<exists>net'. ssl_transport_send online_os (example_lib 0 []) (example_net\<lparr>tls_ctx := (0, [- 0x6880, 0, 2])\<rparr>) [7, 8, 9] 2 () =
     Some (2, net', ())"
proof -
  have "write_run (example_lib 0 []) (net_bio online_os (tcp_socket (example_net\<lparr>tls_ctx := (0, [- 0x6880, 0, 2])\<rparr>)))
      (take 2 [7, 8, 9]) (length [- 0x6880, 0, 2 :: int]) (tls_ctx (example_net\<lparr>tls_ctx := (0, [- 0x6880, 0, 2])\<rparr>)) () =
      Some ([- 0x6880, 0, 2], (0, []), ())"
    by (simp add: example_lib_def)
  then show ?thesis
    by (intro exI, subst ssl_send_attempts) (auto intro!: exI [of _ "[- 0x6880, 0, 2 :: int]"])
qed

end
