(* ===== verification/Base64.thy ===== *)
theory Base64
  imports C_Text
begin

text \<open>
  Base64 (\<^verbatim>\<open>src/src/base64.c\<close>). The arrays are byte lists, \<open>output_len\<close> is what the caller says
  about the size of the output. \<open>buf\<close> keeps its bytes from one group to the next, as the local
  array of the C code does; before the first group it is zeros here.
\<close>

section \<open>The table\<close>

definition base64_table :: bytes where
  "base64_table = str ''ABCDEFGHIJKLMNOPQRSTUVWXYZabcdefghijklmnopqrstuvwxyz0123456789+/''"

text \<open>\<^verbatim>\<open>strchr(base64_table, c) - base64_table\<close>: a NUL finds the terminator, any other character
  outside the table a null pointer.\<close>

definition base64_index :: "u8 \<Rightarrow> u8 option" where
  "base64_index c = (let n = length (takeWhile (\<lambda>b. b \<noteq> c) base64_table) in
     if n < length base64_table \<or> c = 0 then Some (of_nat n) else None)"

definition table_at :: "u8 \<Rightarrow> u8 option" where
  "table_at i = mem_get (unat i) base64_table"

section \<open>Encoding\<close>

definition encode_group :: "u8 \<Rightarrow> u8 \<Rightarrow> u8 \<Rightarrow> nat \<Rightarrow> bytes option" where
  "encode_group b0 b1 b2 buf_len = do {
     c0 \<leftarrow> table_at (drop_bit 2 (b0 AND 0xFC));
     c1 \<leftarrow> table_at (push_bit 4 (b0 AND 0x03) OR drop_bit 4 (b1 AND 0xF0));
     c2 \<leftarrow> (if 1 < buf_len then table_at (push_bit 2 (b1 AND 0x0F) OR drop_bit 6 (b2 AND 0xC0)) else Some 61);
     c3 \<leftarrow> (if 2 < buf_len then table_at (b2 AND 0x3F) else Some 61);
     Some [c0, c1, c2, c3]
   }"

text \<open>The three bytes from \<open>i\<close>, zeros where the input has ended, and how many there are.\<close>

definition input_group :: "bytes \<Rightarrow> nat \<Rightarrow> nat \<Rightarrow> (u8 \<times> u8 \<times> u8 \<times> nat) option" where
  "input_group input input_len i = do {
     b0 \<leftarrow> (if i < input_len then mem_get i input else Some 0);
     b1 \<leftarrow> (if i + 1 < input_len then mem_get (i + 1) input else Some 0);
     b2 \<leftarrow> (if i + 2 < input_len then mem_get (i + 2) input else Some 0);
     Some (b0, b1, b2, min 3 (input_len - i))
   }"

function base64_encode_loop :: "bytes \<Rightarrow> nat \<Rightarrow> nat \<Rightarrow> bytes \<Rightarrow> nat \<Rightarrow> nat \<Rightarrow> bytes option" where
  "base64_encode_loop input input_len i output output_len output_index =
     (if i < input_len then do {
        (b0, b1, b2, buf_len) \<leftarrow> input_group input input_len i;
        (if output_len < output_index + 4 then Some output
         else do {
           cs \<leftarrow> encode_group b0 b1 b2 buf_len;
           output \<leftarrow> mem_write output_index cs output;
           base64_encode_loop input input_len (i + 3) output output_len (output_index + 4)
         })
      }
      else mem_write output_index [0] output)"
  by pat_completeness auto
termination by (relation "measure (\<lambda>(inp, n, i, out, m, k). n - i)") auto

declare base64_encode_loop.simps [simp del]

definition base64_encode :: "bytes \<Rightarrow> nat \<Rightarrow> bytes \<Rightarrow> nat \<Rightarrow> bytes option" where
  "base64_encode input input_len output output_len = base64_encode_loop input input_len 0 output output_len 0"

section \<open>Decoding\<close>

text \<open>One character of a group: \<open>j\<close> is its place in \<open>buf\<close>.\<close>

definition decode_char :: "bytes \<Rightarrow> nat \<Rightarrow> nat \<Rightarrow> nat \<Rightarrow> bytes \<times> nat \<Rightarrow> (bytes \<times> nat) option" where
  "decode_char input input_len i j bl = (case bl of (buf, buf_len) \<Rightarrow>
     if i + j < input_len then do {
       c \<leftarrow> mem_get (i + j) input;
       (if c \<noteq> 61 then do { x \<leftarrow> base64_index c; Some (buf[j := x], buf_len + 1) }
        else Some (buf[j := 0], buf_len))
     }
     else Some (buf, buf_len))"

definition decode_group :: "bytes \<Rightarrow> nat \<Rightarrow> nat \<Rightarrow> bytes \<Rightarrow> (bytes \<times> nat) option" where
  "decode_group input input_len i buf = do {
     s \<leftarrow> decode_char input input_len i 0 (buf, 0);
     s \<leftarrow> decode_char input input_len i 1 s;
     s \<leftarrow> decode_char input input_len i 2 s;
     decode_char input input_len i 3 s
   }"

text \<open>The bytes a group stands for.\<close>

definition group_bytes :: "bytes \<Rightarrow> nat \<Rightarrow> bytes" where
  "group_bytes buf buf_len =
     [push_bit 2 (buf ! 0) OR drop_bit 4 (buf ! 1 AND 0x30)] @
     (if 2 < buf_len then [push_bit 4 (buf ! 1 AND 0x0F) OR drop_bit 2 (buf ! 2 AND 0x3C)] else []) @
     (if 3 < buf_len then [push_bit 6 (buf ! 2 AND 0x03) OR buf ! 3] else [])"

function base64_decode_loop :: "bytes \<Rightarrow> nat \<Rightarrow> nat \<Rightarrow> bytes \<Rightarrow> bytes \<Rightarrow> nat \<Rightarrow> nat \<Rightarrow> (int \<times> bytes) option" where
  "base64_decode_loop input input_len i buf output output_len output_index =
     (if i < input_len then do {
        (buf, buf_len) \<leftarrow> decode_group input input_len i buf;
        (if output_len < output_index + buf_len then Some (-1, output)
         else do {
           let bs = group_bytes buf buf_len;
           output \<leftarrow> mem_write output_index bs output;
           base64_decode_loop input input_len (i + 4) buf output output_len (output_index + length bs)
         })
      }
      else Some (int output_index, output))"
  by pat_completeness auto
termination by (relation "measure (\<lambda>(inp, n, i, buf, out, m, k). n - i)") auto

declare base64_decode_loop.simps [simp del]

definition base64_decode :: "bytes \<Rightarrow> nat \<Rightarrow> bytes \<Rightarrow> nat \<Rightarrow> (int \<times> bytes) option" where
  "base64_decode input input_len output output_len =
     base64_decode_loop input input_len 0 (replicate 4 0) output output_len 0"

section \<open>The text of a byte string\<close>

definition sextet :: "u8 \<Rightarrow> u8" where
  "sextet i = base64_table ! unat i"

definition g0 :: "u8 \<Rightarrow> u8" where "g0 a = drop_bit 2 (a AND 0xFC)"
definition g1 :: "u8 \<Rightarrow> u8 \<Rightarrow> u8" where "g1 a b = push_bit 4 (a AND 0x03) OR drop_bit 4 (b AND 0xF0)"
definition g2 :: "u8 \<Rightarrow> u8 \<Rightarrow> u8" where "g2 b c = push_bit 2 (b AND 0x0F) OR drop_bit 6 (c AND 0xC0)"
definition g3 :: "u8 \<Rightarrow> u8" where "g3 c = c AND 0x3F"

fun base64_text :: "bytes \<Rightarrow> bytes" where
  "base64_text [] = []"
| "base64_text [a] = [sextet (g0 a), sextet (g1 a 0), 61, 61]"
| "base64_text [a, b] = [sextet (g0 a), sextet (g1 a b), sextet (g2 b 0), 61]"
| "base64_text (a # b # c # r) = [sextet (g0 a), sextet (g1 a b), sextet (g2 b c), sextet (g3 c)] @ base64_text r"

lemma length_table [simp]: "length base64_table = 64"
  by (simp add: base64_table_def str_def)

lemma distinct_table: "distinct base64_table" "61 \<notin> set base64_table" "0 \<notin> set base64_table"
  by (simp_all add: base64_table_def)

lemma takeWhile_distinct: "distinct xs \<Longrightarrow> k < length xs \<Longrightarrow> takeWhile (\<lambda>b. b \<noteq> xs ! k) xs = take k xs"
proof (induction xs arbitrary: k)
  case (Cons a xs)
  then show ?case by (cases k) (auto simp: nth_eq_iff_index_eq)
qed simp

lemma table_index:
  assumes "k < 64"
  shows "base64_index (base64_table ! k) = Some (of_nat k) \<and> base64_table ! k \<noteq> 61 \<and> base64_table ! k \<noteq> 0"
proof -
  have k: "k < length base64_table" using assms by simp
  then have "base64_table ! k \<in> set base64_table" by (rule nth_mem)
  then have "base64_table ! k \<noteq> 61" "base64_table ! k \<noteq> 0" using distinct_table(2,3) by metis+
  moreover have "base64_index (base64_table ! k) = Some (of_nat k)"
    using takeWhile_distinct [OF distinct_table(1) k] assms by (simp add: base64_index_def Let_def)
  ultimately show ?thesis by simp
qed

lemma sextet_index: "x < 64 \<Longrightarrow> base64_index (sextet x) = Some x \<and> sextet x \<noteq> 61 \<and> sextet x \<noteq> 0"
proof -
  assume "x < 64"
  then have "unat x < 64" by (simp add: word_less_nat_alt)
  then show ?thesis using table_index by (auto simp: sextet_def)
qed

lemma table_at_small: "x < 64 \<Longrightarrow> table_at x = Some (sextet x)"
  by (simp add: table_at_def mem_get_def sextet_def word_less_nat_alt)

text \<open>The six-bit groups are small.\<close>

lemma small_if_mask: "(x :: u8) AND 0x3F = x \<Longrightarrow> x < 64"
proof -
  assume "x AND 0x3F = x"
  moreover have "x AND 0x3F \<le> 63" by (rule word_and_le1)
  ultimately have "x \<le> 63" by (rule subst)
  then show "x < 64" by (simp add: word_le_nat_alt word_less_nat_alt)
qed

lemma small_sextets: "g0 a < 64" "g1 a b < 64" "g2 b c < 64" "g3 c < 64"
  unfolding g0_def g1_def g2_def g3_def by (rule small_if_mask, rule u8_eqI; simp add: bit_simps)+

lemma regroup:
  "push_bit 2 (g0 a) OR drop_bit 4 (g1 a b AND 0x30) = a"
  "push_bit 4 (g1 a b AND 0x0F) OR drop_bit 2 (g2 b c AND 0x3C) = b"
  "push_bit 6 (g2 b c AND 0x03) OR g3 c = c"
  unfolding g0_def g1_def g2_def g3_def by (rule u8_eqI; simp add: bit_simps)+

lemmas sextet_groups = small_sextets [THEN table_at_small] small_sextets [THEN sextet_index]

lemma encode_group_text:
  "encode_group a b c n = Some [sextet (g0 a), sextet (g1 a b), if 1 < n then sextet (g2 b c) else 61,
     if 2 < n then sextet (g3 c) else 61]"
  unfolding encode_group_def g0_def [symmetric] g1_def [symmetric] g2_def [symmetric] g3_def [symmetric]
  by (simp add: sextet_groups)

lemma add4:
  "n + 4 = Suc (Suc (Suc (Suc n)))" "n + 3 = Suc (Suc (Suc n))" "4 + n = Suc (Suc (Suc (Suc n)))"
  "3 + n = Suc (Suc (Suc n))" "5 + n = Suc (Suc (Suc (Suc (Suc n))))"
  by arith+

lemma length_base64_text: "length (base64_text x) = 4 * ((length x + 2) div 3)"
proof (induction x rule: base64_text.induct)
  case (4 a b c r)
  have "(5 + length r) div 3 = Suc ((length r + 2) div 3)" by presburger
  then show ?case using 4 by simp
qed simp_all

lemma no_nul_base64_text: "no_nul (base64_text x)"
  using sextet_groups by (induction x rule: base64_text.induct) (auto simp: no_nul_def)

text \<open>The encoder from any point writes the text of what is left, and a NUL.\<close>

lemma input_group_drop:
  "input_group (p @ a # b # c # r) (length p + 3 + length r) (length p) = Some (a, b, c, 3)"
  "input_group (p @ [a, b]) (length p + 2) (length p) = Some (a, b, 0, 2)"
  "input_group (p @ [a]) (length p + 1) (length p) = Some (a, 0, 0, 1)"
  by (simp_all add: input_group_def mem_get_def nth_append)

lemma base64_encode_loop_text:
  "k + length (base64_text r) < length out \<Longrightarrow> k + length (base64_text r) \<le> output_len \<Longrightarrow>
   base64_encode_loop (p @ r) (length p + length r) (length p) out output_len k =
     Some (take k out @ base64_text r @ 0 # drop (k + length (base64_text r) + 1) out)"
proof (induction r arbitrary: p out k rule: base64_text.induct)
  case 1
  then show ?case by (subst base64_encode_loop.simps) (simp add: mem_write_def)
next
  case (2 a)
  then show ?case
    using input_group_drop(3) [of p a]
    by (subst base64_encode_loop.simps, subst base64_encode_loop.simps)
      (simp add: encode_group_text mem_write_def)
next
  case (3 a b)
  then show ?case
    using input_group_drop(2) [of p a b]
    by (subst base64_encode_loop.simps, subst base64_encode_loop.simps)
      (simp add: encode_group_text mem_write_def)
next
  case (4 a b c r)
  let ?g = "[sextet (g0 a), sextet (g1 a b), sextet (g2 b c), sextet (g3 c)]"
  let ?out = "take k out @ ?g @ drop (k + 4) out"
  have w: "mem_write k ?g out = Some ?out" using 4(2) by (simp add: mem_write_def add4)
  have "k + 4 + length (base64_text r) < length ?out" "k + 4 + length (base64_text r) \<le> output_len"
    using 4(2,3) by simp_all
  from 4(1) [OF this, of "p @ [a, b, c]"] w show ?case
    using input_group_drop(1) [of p a b c r] 4(2,3)
    by (subst base64_encode_loop.simps) (simp add: encode_group_text add4 add.commute [of k])
qed

lemma base64_encode_text:
  assumes "length (base64_text x) < length out" and "length (base64_text x) \<le> output_len"
  shows "base64_encode x (length x) out output_len =
     Some (base64_text x @ 0 # drop (length (base64_text x) + 1) out)"
  using base64_encode_loop_text [of 0 x out output_len "[]"] assms by (simp add: base64_encode_def)

text \<open>One decoded character is a sextet or the padding.\<close>

lemma decode_char_steps:
  "mem_get (i + j) inp = Some (sextet x) \<Longrightarrow> x < 64 \<Longrightarrow> i + j < n \<Longrightarrow>
   decode_char inp n i j (buf, l) = Some (buf[j := x], l + 1)"
  "mem_get (i + j) inp = Some 61 \<Longrightarrow> i + j < n \<Longrightarrow> decode_char inp n i j (buf, l) = Some (buf[j := 0], l)"
  using sextet_index by (simp_all add: decode_char_def)

lemma decode_group_text:
  assumes "length buf = 4"
  shows "decode_group (p @ [sextet (g0 a), sextet (g1 a b), sextet (g2 b c), sextet (g3 c)] @ r)
      (length p + (4 + m)) (length p) buf = Some ([g0 a, g1 a b, g2 b c, g3 c], 4)"
    "decode_group (p @ [sextet (g0 a), sextet (g1 a b), sextet (g2 b 0), 61] @ r)
      (length p + (4 + m)) (length p) buf = Some ([g0 a, g1 a b, g2 b 0, 0], 3)"
    "decode_group (p @ [sextet (g0 a), sextet (g1 a 0), 61, 61] @ r)
      (length p + (4 + m)) (length p) buf = Some ([g0 a, g1 a 0, 0, 0], 2)"
proof -
  obtain w x y z where [simp]: "buf = [w, x, y, z]" using assms by (auto simp: length_4_conv)
  show "decode_group (p @ [sextet (g0 a), sextet (g1 a b), sextet (g2 b c), sextet (g3 c)] @ r)
      (length p + (4 + m)) (length p) buf = Some ([g0 a, g1 a b, g2 b c, g3 c], 4)"
    by (simp add: decode_group_def decode_char_steps mem_get_def nth_append small_sextets)
  show "decode_group (p @ [sextet (g0 a), sextet (g1 a b), sextet (g2 b 0), 61] @ r)
      (length p + (4 + m)) (length p) buf = Some ([g0 a, g1 a b, g2 b 0, 0], 3)"
    by (simp add: decode_group_def decode_char_steps mem_get_def nth_append small_sextets)
  show "decode_group (p @ [sextet (g0 a), sextet (g1 a 0), 61, 61] @ r)
      (length p + (4 + m)) (length p) buf = Some ([g0 a, g1 a 0, 0, 0], 2)"
    by (simp add: decode_group_def decode_char_steps mem_get_def nth_append small_sextets)
qed

lemma group_bytes_text:
  "group_bytes [g0 a, g1 a b, g2 b c, g3 c] 4 = [a, b, c]"
  "group_bytes [g0 a, g1 a b, g2 b 0, 0] 3 = [a, b]"
  "group_bytes [g0 a, g1 a 0, 0, 0] 2 = [a]"
  by (simp_all add: group_bytes_def regroup [simplified])

lemma base64_decode_loop_text:
  "k + length r + (if r = [] then 0 else 1) \<le> output_len \<Longrightarrow> k + length r \<le> length out \<Longrightarrow> length buf = 4 \<Longrightarrow>
   base64_decode_loop (p @ base64_text r @ q) (length p + length (base64_text r)) (length p) buf out output_len k =
     Some (int (k + length r), take k out @ r @ drop (k + length r) out)"
proof (induction r arbitrary: p out k buf rule: base64_text.induct)
  case 1
  then show ?case by (subst base64_decode_loop.simps) simp
next
  case (2 a)
  then show ?case using decode_group_text(3) [of buf p a q 0]
    by (subst base64_decode_loop.simps, subst base64_decode_loop.simps)
      (simp add: group_bytes_text mem_write_def add4)
next
  case (3 a b)
  then show ?case using decode_group_text(2) [of buf p a b q 0]
    by (subst base64_decode_loop.simps, subst base64_decode_loop.simps)
      (simp add: group_bytes_text mem_write_def add4)
next
  case (4 a b c r)
  let ?g = "[sextet (g0 a), sextet (g1 a b), sextet (g2 b c), sextet (g3 c)]"
  let ?out = "take k out @ [a, b, c] @ drop (k + 3) out"
  have w: "mem_write k [a, b, c] out = Some ?out" using 4(3) by (simp add: mem_write_def add4)
  have "k + 3 + length r + (if r = [] then 0 else 1) \<le> output_len" "k + 3 + length r \<le> length ?out"
    using 4(2,3) by (simp_all split: if_splits)
  from 4(1) [OF this, of "[g0 a, g1 a b, g2 b c, g3 c]" "p @ ?g"] w show ?case
    using decode_group_text(1) [of buf p a b c "base64_text r @ q" "length (base64_text r)"] 4(2,3,4)
    by (subst base64_decode_loop.simps) (simp add: group_bytes_text add4 add.commute [of k])
qed

text \<open>What is decoded is what was encoded.\<close>

lemma base64_decode_text:
  assumes "length x < output_len" and "length x \<le> length out"
  shows "base64_decode (base64_text x @ q) (length (base64_text x)) out output_len =
     Some (int (length x), x @ drop (length x) out)"
  using base64_decode_loop_text [of 0 x output_len out "replicate 4 0" "[]" q] assms
  by (simp add: base64_decode_def)

text \<open>C30: Whatever bytes are encoded into an array with room for their text and its NUL, the array then
  holds a string, and decoding that string into a buffer with more than as many bytes of room
  returns their number and the bytes, and leaves the rest of the buffer alone.\<close>

theorem base64_roundtrip:
  assumes "4 * ((length x + 2) div 3) < length out" and "4 * ((length x + 2) div 3) \<le> output_len"
    and "length x < length buf"
  shows "\<exists>out' t. base64_encode x (length x) out output_len = Some out' \<and> c_text out' = Some t \<and>
    base64_decode t (length t) buf (length buf) = Some (int (length x), x @ drop (length x) buf)"
proof -
  have "c_text (base64_text x @ 0 # drop (length (base64_text x) + 1) out) = Some (base64_text x)"
    by (rule c_text_terminated [OF no_nul_base64_text])
  then show ?thesis
    using base64_encode_text [of x out output_len] base64_decode_text [of x "length buf" buf "[]"] assms
    by (simp add: length_base64_text)
qed

lemma base64_roundtrip_witness:
  "\<exists>out' t. base64_encode [1, 2, 3, 250] 4 (replicate 12 0) 12 = Some out' \<and> c_text out' = Some t \<and>
    base64_decode t (length t) (replicate 6 7) 6 = Some (4, [1, 2, 3, 250, 7, 7])"
proof -
  have n: "length [1, 2, 3, 250 :: u8] = 4" by simp
  have d: "[1, 2, 3, 250 :: u8] @ drop 4 (replicate 6 7) = [1, 2, 3, 250, 7, 7]" by code_simp
  have r: "4 * ((4 + 2) div 3) < (12 :: nat)" "4 * ((4 + 2) div 3) \<le> (12 :: nat)" "4 < (6 :: nat)" by simp_all
  show ?thesis
    using base64_roundtrip [of "[1, 2, 3, 250]" "replicate 12 0" 12 "replicate 6 7",
        unfolded n d length_replicate, OF r] by (simp only: of_nat_numeral)
qed

text \<open>The room the decoder asks for is counted in characters, so a buffer of exactly the decoded size
  is refused; and a text that fills the array exactly is terminated outside it.\<close>

lemma base64_decode_exact_size:
  "base64_decode (base64_text [a, b, c]) 4 (replicate 3 0) 3 = Some (-1, replicate 3 0)"
  using decode_group_text(1) [of "replicate 4 0" "[]" a b c "[]" 0]
  by (subst base64_decode_def, subst base64_decode_loop.simps) simp

lemma base64_encode_exact_size: "base64_encode [a, b, c] 3 (replicate 4 0) 4 = None"
  using input_group_drop(1) [of "[]" a b c "[]"]
  by (subst base64_encode_def, subst base64_encode_loop.simps, subst base64_encode_loop.simps)
    (simp add: encode_group_text mem_write_def)

end
