(* ===== verification/Signaling_Text.thy ===== *)
theory Signaling_Text
  imports Base64
begin

text \<open>
  The texts the signaling takes apart (\<^verbatim>\<open>src/src/peer_signaling.c\<close>): the access token, Base64 of
  a user name and a password, and the URL of the server.

  The pieces are copied with \<open>strncpy\<close> and their exact length, so no NUL is written: the arrays end
  the text only where they were zero before. A text that does not fit is written past its array.
\<close>

section \<open>Constants\<close>

definition PATH_MAX_LEN :: nat where "PATH_MAX_LEN = 128"
definition HOST_MAX_LEN :: nat where "HOST_MAX_LEN = 64"
definition URL_MAX_LEN :: nat where "URL_MAX_LEN = PATH_MAX_LEN + HOST_MAX_LEN + 8"
definition TOPIC_MAX_LEN :: nat where "TOPIC_MAX_LEN = URL_MAX_LEN"
definition TOKEN_MAX_LEN :: nat where "TOKEN_MAX_LEN = 256"

lemmas signaling_sizes = PATH_MAX_LEN_def HOST_MAX_LEN_def URL_MAX_LEN_def TOPIC_MAX_LEN_def TOKEN_MAX_LEN_def

text \<open>\<open>strchr\<close> and \<open>strrchr\<close>: offsets.\<close>

definition strchr :: "bytes \<Rightarrow> u8 \<Rightarrow> nat option" where
  "strchr s c = (let n = length (takeWhile (\<lambda>b. b \<noteq> c) s) in if n < length s then Some n else None)"

definition strrchr :: "bytes \<Rightarrow> u8 \<Rightarrow> nat option" where
  "strrchr s c = map_option (\<lambda>n. length s - 1 - n) (strchr (rev s) c)"

section \<open>The token\<close>

text \<open>The result of the decoder is not looked at.\<close>

definition peer_signaling_resolve_token :: "bytes option \<Rightarrow> bytes \<Rightarrow> bytes \<Rightarrow> (int \<times> bytes \<times> bytes) option" where
  "peer_signaling_resolve_token token username password =
     (case token of
        None \<Rightarrow> Some (-1, username, password)
      | Some t \<Rightarrow>
          if t = [] then Some (-1, username, password)
          else do {
            (r, plaintext) \<leftarrow> base64_decode t (length t) (replicate TOKEN_MAX_LEN 0) TOKEN_MAX_LEN;
            s \<leftarrow> c_text plaintext;
            (case strchr s 58 of
               None \<Rightarrow> Some (-1, username, password)
             | Some colon \<Rightarrow> do {
                 username \<leftarrow> mem_write 0 (take colon s) username;
                 password \<leftarrow> mem_write 0 (drop (colon + 1) s) password;
                 Some (0, username, password)
               })
          })"

section \<open>The URL\<close>

text \<open>By the scheme: default port, the rest, the protocol (0 for MQTT, 1 for HTTP), TLS or not.\<close>

definition url_scheme :: "bytes \<Rightarrow> (int \<times> bytes \<times> int \<times> int) option" where
  "url_scheme url =
     (if starts_with (str ''mqtts://'') url then Some (8883, drop 8 url, 0, 1)
      else if starts_with (str ''https://'') url then Some (443, drop 8 url, 1, 1)
      else if starts_with (str ''mqtt://'') url then Some (1883, drop 7 url, 0, 0)
      else if starts_with (str ''http://'') url then Some (80, drop 7 url, 1, 0)
      else None)"

text \<open>Host, port and path of what follows the scheme. A colon behind the first slash falls into
  the last case.\<close>

definition url_authority :: "bytes \<Rightarrow> bytes \<Rightarrow> int \<Rightarrow> bytes \<Rightarrow> (bytes \<times> int \<times> bytes) option" where
  "url_authority url host prt path =
     (case (strchr url 58, strchr url 47) of
        (Some p, Some q) \<Rightarrow>
          if p < q then do {
            host \<leftarrow> mem_write 0 (take p url) host;
            path \<leftarrow> mem_write 0 (drop q url) path;
            Some (host, atoi (drop (p + 1) url), path) }
          else do { host \<leftarrow> mem_write 0 url host; Some (host, prt, path) }
      | (None, Some q) \<Rightarrow> do {
          host \<leftarrow> mem_write 0 (take q url) host;
          path \<leftarrow> mem_write 0 (drop q url) path;
          Some (host, prt, path) }
      | (Some p, None) \<Rightarrow> do {
          host \<leftarrow> mem_write 0 (take p url) host;
          Some (host, atoi (drop (p + 1) url), path) }
      | (None, None) \<Rightarrow> do { host \<leftarrow> mem_write 0 url host; Some (host, prt, path) })"

text \<open>The result, the host, the port, the path, and \<open>use_tls\<close>.\<close>

definition peer_signaling_resolve_url ::
  "bytes option \<Rightarrow> bytes \<Rightarrow> int \<Rightarrow> bytes \<Rightarrow> (int \<times> bytes \<times> int \<times> bytes \<times> int) option" where
  "peer_signaling_resolve_url url host prt path =
     (case url of
        None \<Rightarrow> Some (-1, host, prt, path, 1)
      | Some u \<Rightarrow>
          if u = [] then Some (-1, host, prt, path, 1)
          else (case url_scheme u of
            None \<Rightarrow> Some (-1, host, prt, path, 1)
          | Some (prt, u, proto, tls) \<Rightarrow> do {
              (host, prt, path) \<leftarrow> url_authority u host prt path;
              Some (proto, host, prt, path, tls) }))"

section \<open>Lemmas\<close>

lemma strchr_first: "c \<notin> set s \<Longrightarrow> strchr (s @ c # r) c = Some (length s)"
proof -
  assume "c \<notin> set s"
  then have "takeWhile (\<lambda>b. b \<noteq> c) (s @ c # r) = s" by (subst takeWhile_append2) auto
  then show ?thesis by (simp add: strchr_def)
qed

lemma strchr_absent: "c \<notin> set s \<Longrightarrow> strchr s c = None"
proof -
  assume "c \<notin> set s"
  then have t: "takeWhile (\<lambda>b. b \<noteq> c) s = s" by (intro takeWhile_eq_all_conv [THEN iffD2]) auto
  show ?thesis unfolding strchr_def t by simp
qed

lemma strrchr_last: "c \<notin> set r \<Longrightarrow> strrchr (s @ c # r) c = Some (length s)"
  using strchr_first [of c "rev r" "rev s"] by (simp add: strrchr_def)

text \<open>A text copied without its NUL into a cleared array.\<close>

lemma copy_cleared:
  assumes "no_nul t" and "length t < n"
  shows "\<exists>a. mem_write 0 t (replicate n 0) = Some a \<and> c_text a = Some t"
proof -
  have "replicate n 0 = replicate (length t) 0 @ (0 :: u8) # replicate (n - length t - 1) 0"
    using assms(2) by (simp flip: replicate_Suc replicate_add)
  then have "mem_write 0 t (replicate n 0) = Some (t @ 0 # replicate (n - length t - 1) 0)"
    using assms(2) by (simp add: mem_write_def)
  then show ?thesis using c_text_terminated [OF assms(1)] by blast
qed

lemma copy_overrun: "length a < length t \<Longrightarrow> mem_write 0 t a = None"
  by (simp add: mem_write_def)

lemma no_nul_parts: "no_nul (s @ t) \<longleftrightarrow> no_nul s \<and> no_nul t" "no_nul (c # s) \<longleftrightarrow> c \<noteq> 0 \<and> no_nul s" "no_nul []"
  by (auto simp: no_nul_def)

section \<open>Properties\<close>

text \<open>The token of a user name without a colon and a password, at most 255 bytes together with the colon,
  as \<open>base64_encode\<close> writes it, gives back the user name and the password in cleared arrays.\<close>

theorem token_credentials:
  assumes "no_nul user" and "58 \<notin> set user" and "no_nul pass" and "length user + length pass + 1 < TOKEN_MAX_LEN"
    and "4 * ((length user + length pass + 3) div 3) < length out"
  shows "\<exists>out' t username password.
    base64_encode (user @ 58 # pass) (length (user @ 58 # pass)) out (length out) = Some out' \<and> c_text out' = Some t \<and>
    peer_signaling_resolve_token (Some t) (replicate TOKEN_MAX_LEN 0) (replicate TOKEN_MAX_LEN 0) = Some (0, username, password) \<and>
    c_text username = Some user \<and> c_text password = Some pass"
proof -
  let ?x = "user @ 58 # pass" and ?n = TOKEN_MAX_LEN
  have t: "c_text (base64_text ?x @ 0 # r) = Some (base64_text ?x)" for r
    by (rule c_text_terminated [OF no_nul_base64_text])
  have ne: "base64_text ?x \<noteq> []" using length_base64_text [of ?x] by (auto simp del: base64_text.simps)
  have x: "no_nul ?x" using assms(1,3) by (simp add: no_nul_parts)
  obtain a where a: "mem_write 0 ?x (replicate ?n 0) = Some a" "c_text a = Some ?x"
    using copy_cleared [OF x, of ?n] assms(4) by auto
  then have d: "base64_decode (base64_text ?x) (length (base64_text ?x)) (replicate ?n 0) ?n = Some (int (length ?x), a)"
    using base64_decode_text [of ?x ?n "replicate ?n 0" "[]"] assms(4) by (simp add: mem_write_def)
  obtain u p where "mem_write 0 user (replicate ?n 0) = Some u" "c_text u = Some user"
      "mem_write 0 pass (replicate ?n 0) = Some p" "c_text p = Some pass"
    using copy_cleared [OF assms(1), of ?n] copy_cleared [OF assms(3), of ?n] assms(4) by auto
  then have "peer_signaling_resolve_token (Some (base64_text ?x)) (replicate ?n 0) (replicate ?n 0) = Some (0, u, p) \<and>
      c_text u = Some user \<and> c_text p = Some pass"
    using ne d a(2) strchr_first [OF assms(2), of pass] by (simp add: peer_signaling_resolve_token_def)
  moreover have "base64_encode ?x (length ?x) out (length out) =
      Some (base64_text ?x @ 0 # drop (length (base64_text ?x) + 1) out)"
    using assms(5) by (intro base64_encode_text) (simp_all add: length_base64_text add.commute add.left_commute)
  ultimately show ?thesis using t by blast
qed

theorem token_credentials_witness:
  "\<exists>out' t username password.
    base64_encode (str ''me'' @ 58 # str ''pw'') (length (str ''me'' @ 58 # str ''pw'')) (replicate 16 0) (length (replicate 16 (0 :: u8))) = Some out' \<and>
    c_text out' = Some t \<and>
    peer_signaling_resolve_token (Some t) (replicate TOKEN_MAX_LEN 0) (replicate TOKEN_MAX_LEN 0) = Some (0, username, password) \<and>
    c_text username = Some (str ''me'') \<and> c_text password = Some (str ''pw'')"
  by (rule token_credentials) (simp_all add: no_nul_def TOKEN_MAX_LEN_def)

text \<open>The schemes of a signaling URL and the text of one.\<close>

datatype url_kind = Mqtts | Https | Mqtt | Http

fun kind_text :: "url_kind \<Rightarrow> bytes" where
  "kind_text Mqtts = str ''mqtts://''"
| "kind_text Https = str ''https://''"
| "kind_text Mqtt = str ''mqtt://''"
| "kind_text Http = str ''http://''"

fun kind_port :: "url_kind \<Rightarrow> int" where
  "kind_port Mqtts = 8883" | "kind_port Https = 443" | "kind_port Mqtt = 1883" | "kind_port Http = 80"

definition kind_proto :: "url_kind \<Rightarrow> int" where
  "kind_proto k = (if k \<in> {Https, Http} then 1 else 0)"

definition kind_tls :: "url_kind \<Rightarrow> int" where
  "kind_tls k = (if k \<in> {Mqtts, Https} then 1 else 0)"

definition url_text :: "url_kind \<Rightarrow> bytes \<Rightarrow> nat option \<Rightarrow> bytes \<Rightarrow> bytes" where
  "url_text k host prt path = kind_text k @ host @ (case prt of None \<Rightarrow> [] | Some n \<Rightarrow> 58 # dec n) @ path"

lemma url_scheme_text: "url_scheme (kind_text k @ r) = Some (kind_port k, r, kind_proto k, kind_tls k)"
  by (cases k) (simp_all add: url_scheme_def kind_proto_def kind_tls_def)

lemma dec_no_mark: "47 \<notin> set (dec n)" "58 \<notin> set (dec n)"
  using digits_dec [of n] by (auto simp: is_digit_def)

lemma atoi_dec: "r = [] \<or> \<not> is_digit (hd r) \<Longrightarrow> atoi (dec n @ r) = int n"
  using scan_int_dec [of "[]" r n] by (simp add: atoi_def)

text \<open>What is copied of an authority: the host and the path, each without its NUL.\<close>

lemma url_authority_text:
  assumes "58 \<notin> set host" and "47 \<notin> set host" and "path = [] \<or> hd path = 47" and "prt = None \<longrightarrow> 58 \<notin> set path"
  shows "url_authority (host @ (case prt of None \<Rightarrow> [] | Some n \<Rightarrow> 58 # dec n) @ path) h0 p0 f0 =
    do { h \<leftarrow> mem_write 0 host h0;
         f \<leftarrow> mem_write 0 path f0;
         Some (h, (case prt of None \<Rightarrow> p0 | Some n \<Rightarrow> int n), f) }"
proof -
  have w: "mem_write 0 [] f0 = Some f0" by (simp add: mem_write_def)
  obtain c where path: "path = [] \<or> path = 47 # c" using assms(3) by (cases path) auto
  show ?thesis
  proof (cases prt)
    case None
    have "strchr (host @ path) 58 = None" using assms(1,4) None by (intro strchr_absent) simp
    then show ?thesis using path strchr_absent [OF assms(2)] strchr_first [OF assms(2), of c] None w
      by (auto simp: url_authority_def)
  next
    case (Some n)
    have m: "47 \<notin> set (host @ 58 # dec n)" using assms(2) dec_no_mark by simp
    have a: "atoi (dec n @ path) = int n" using path by (intro atoi_dec) (auto simp: is_digit_def)
    show ?thesis using path strchr_first [OF assms(1), of "dec n @ path"] strchr_absent [OF m] strchr_first [OF m, of c] Some w a
      by (auto simp: url_authority_def)
  qed
qed

text \<open>The parts of a URL. Scheme, host, port if there is one, and path come out of \<open>peer_signaling_resolve_url\<close>
  as they were put in, with the default port of the scheme where none is given, provided the
  arrays were cleared, the host has at most 63 and the path at most 127 bytes, and no colon is in the
  path of a URL without a port.\<close>

theorem url_parts:
  assumes "no_nul host" and "58 \<notin> set host" and "47 \<notin> set host" and "length host < HOST_MAX_LEN"
    and "no_nul path" and "path = [] \<or> hd path = 47" and "length path < PATH_MAX_LEN" and "prt = None \<longrightarrow> 58 \<notin> set path"
  shows "\<exists>h f. peer_signaling_resolve_url (Some (url_text k host prt path)) (replicate HOST_MAX_LEN 0) p0 (replicate PATH_MAX_LEN 0) =
      Some (kind_proto k, h, (case prt of None \<Rightarrow> kind_port k | Some n \<Rightarrow> int n), f, kind_tls k) \<and>
    c_text h = Some host \<and> c_text f = Some path"
proof -
  obtain h f where "mem_write 0 host (replicate HOST_MAX_LEN 0) = Some h" "c_text h = Some host"
      "mem_write 0 path (replicate PATH_MAX_LEN 0) = Some f" "c_text f = Some path"
    using copy_cleared [OF assms(1,4)] copy_cleared [OF assms(5,7)] by blast
  moreover have "kind_text k \<noteq> []" by (cases k) simp_all
  ultimately show ?thesis
    by (simp add: peer_signaling_resolve_url_def url_text_def url_scheme_text url_authority_text [OF assms(2,3,6,8)])
qed

theorem url_parts_witness:
  "\<exists>h f. peer_signaling_resolve_url (Some (url_text Https (str ''sfu.example'') (Some 8443) (str ''/whip'')))
      (replicate HOST_MAX_LEN 0) 0 (replicate PATH_MAX_LEN 0) = Some (kind_proto Https, h, (case Some 8443 of None \<Rightarrow> kind_port Https | Some n \<Rightarrow> int n), f, kind_tls Https) \<and>
    c_text h = Some (str ''sfu.example'') \<and> c_text f = Some (str ''/whip'')"
  by (rule url_parts) (simp_all add: no_nul_def signaling_sizes)

text \<open>Where the limits are: a host of 64 bytes is left without a NUL, a longer one is written past its
  array; and a colon in the path takes the whole rest of the URL for the host.\<close>

lemma url_host_limit:
  assumes "58 \<notin> set host" and "47 \<notin> set host" and "no_nul host"
  shows "HOST_MAX_LEN < length host \<Longrightarrow>
      peer_signaling_resolve_url (Some (url_text k host None [])) (replicate HOST_MAX_LEN 0) p0 path = None"
    and "HOST_MAX_LEN = length host \<Longrightarrow>
      peer_signaling_resolve_url (Some (url_text k host None [])) (replicate HOST_MAX_LEN 0) p0 path =
        Some (kind_proto k, host, kind_port k, path, kind_tls k) \<and> c_text host = None"
proof -
  have ne: "kind_text k \<noteq> []" by (cases k) simp_all
  note u = url_authority_text [OF assms(1,2), of "[]" None, simplified]
  show "HOST_MAX_LEN < length host \<Longrightarrow>
      peer_signaling_resolve_url (Some (url_text k host None [])) (replicate HOST_MAX_LEN 0) p0 path = None"
    using ne by (simp add: peer_signaling_resolve_url_def url_text_def url_scheme_text u copy_overrun)
  show "HOST_MAX_LEN = length host \<Longrightarrow>
      peer_signaling_resolve_url (Some (url_text k host None [])) (replicate HOST_MAX_LEN 0) p0 path =
        Some (kind_proto k, host, kind_port k, path, kind_tls k) \<and> c_text host = None"
    using ne assms(3)
    by (simp add: peer_signaling_resolve_url_def url_text_def url_scheme_text u mem_write_def c_text_def c_strlen_unterminated)
qed

lemma url_colon_in_path:
  "url_authority (str ''h/a:b'') (replicate HOST_MAX_LEN 0) p0 path =
     Some (str ''h/a:b'' @ replicate (HOST_MAX_LEN - 5) 0, p0, path)"
  by (simp add: url_authority_def strchr_def Let_def mem_write_def HOST_MAX_LEN_def)

end
