(* ===== verification/Signaling.thy ===== *)
theory Signaling
  imports Transport Signaling_Text
begin

text \<open>
  The signaling client (\<^verbatim>\<open>src/src/peer_signaling.c\<close>): it connects to an MQTT broker or an HTTP server, lets
  the connection make offers, carries them out and hands the answers in.

  \<^item> \<open>PeerSignaling\<close> is the static object \<open>g_ps\<close>. Its \<open>pc\<close> is the peer connection \<open>x\<close> the operations
    get and return; it is not null once \<open>peer_signaling_connect\<close> has been called.
  \<^item> coreMQTT, coreHTTP and cJSON are parameters (the record \<open>SigEnv\<close>). The libraries reach the network
    through the transport interface, a pair of functions on the network context and the world; the fixed buffer
    of MQTT belongs to the state \<open>'m\<close> of its library. Allocations of cJSON succeed.
  \<^item> \<open>MQTT_ProcessLoop\<close> is two parameters, what comes before and after the callback it makes for the
    packet it has received.
  \<^item> The connection calls \<open>onicecandidate\<close> as the last thing of making an offer; that call is \<open>sig_create_offer\<close>.
\<close>

section \<open>Libraries\<close>

datatype 'c NetCtx = TlsNet "'c NetworkContext" | PlainNet UdpSocket

record 's TransportInterface =
  if_recv :: "bytes \<Rightarrow> nat \<Rightarrow> 's \<Rightarrow> (int \<times> bytes \<times> 's) option"
  if_send :: "bytes \<Rightarrow> nat \<Rightarrow> 's \<Rightarrow> (int \<times> 's) option"

record MQTTConnectInfo =
  ci_cleanSession :: bool
  ci_keepAliveSeconds :: nat
  ci_clientIdentifier :: "bytes option"
  ci_userName :: "bytes option"
  ci_password :: "bytes option"

text \<open>A received packet. A published message is the memory from its first byte to the end of the buffer,
  and its length; the codes of an acknowledgement are \<^const>\<open>None\<close> if they cannot be had.\<close>

datatype MqttPacket = MqttPublish bytes nat | MqttSubAck "u8 list option" | MqttUnsubAck | MqttOther

record HTTPRequestInfo =
  rq_method :: bytes
  rq_host :: bytes
  rq_path :: bytes
  rq_keep_alive :: bool

text \<open>The body is given by its place in the buffer.\<close>

record HTTPResponse =
  rs_headers :: bool
  rs_body :: "nat option"
  rs_statusCode :: nat

record JsonItem =
  json_valueint :: int
  json_valuestring :: "bytes option"

datatype JsonValue = JsonString bytes | JsonNumber int | JsonRaw bytes

record ('w, 't, 'p, 'u, 'c, 'm, 'j) SigEnv =
  sig_peer :: "('w, 't, 'p, 'u) PeerEnv"
  sig_ssl :: "('c, 'w) SslLib"
  sig_local_net :: "'c NetworkContext"
  json_parse :: "bytes \<Rightarrow> 'j option"
  json_get :: "'j \<Rightarrow> bytes \<Rightarrow> JsonItem option"
  json_print :: "(bytes \<times> JsonValue) list \<Rightarrow> bytes option"
  mqtt_init :: "nat \<Rightarrow> 'm"
  mqtt_connect :: "('c NetCtx \<times> 'w) TransportInterface \<Rightarrow> MQTTConnectInfo \<Rightarrow> nat \<Rightarrow> 'm \<Rightarrow> 'c NetCtx \<times> 'w \<Rightarrow>
    (bool \<times> 'm \<times> 'c NetCtx \<times> 'w) option"
  mqtt_packet_id :: "'m \<Rightarrow> u16 \<times> 'm"
  mqtt_publish :: "('c NetCtx \<times> 'w) TransportInterface \<Rightarrow> bytes \<Rightarrow> bytes \<Rightarrow> u16 \<Rightarrow> 'm \<Rightarrow> 'c NetCtx \<times> 'w \<Rightarrow>
    (bool \<times> 'm \<times> 'c NetCtx \<times> 'w) option"
  mqtt_subscribe :: "('c NetCtx \<times> 'w) TransportInterface \<Rightarrow> bytes \<Rightarrow> u16 \<Rightarrow> 'm \<Rightarrow> 'c NetCtx \<times> 'w \<Rightarrow>
    (bool \<times> 'm \<times> 'c NetCtx \<times> 'w) option"
  mqtt_unsubscribe :: "('c NetCtx \<times> 'w) TransportInterface \<Rightarrow> bytes \<Rightarrow> u16 \<Rightarrow> 'm \<Rightarrow> 'c NetCtx \<times> 'w \<Rightarrow>
    (bool \<times> 'm \<times> 'c NetCtx \<times> 'w) option"
  mqtt_receive :: "('c NetCtx \<times> 'w) TransportInterface \<Rightarrow> 'm \<Rightarrow> 'c NetCtx \<times> 'w \<Rightarrow>
    (MqttPacket option \<times> 'm \<times> 'c NetCtx \<times> 'w) option"
  mqtt_finish :: "('c NetCtx \<times> 'w) TransportInterface \<Rightarrow> 'm \<Rightarrow> 'c NetCtx \<times> 'w \<Rightarrow> (bool \<times> 'm \<times> 'c NetCtx \<times> 'w) option"
  mqtt_disconnect :: "('c NetCtx \<times> 'w) TransportInterface \<Rightarrow> 'm \<Rightarrow> 'c NetCtx \<times> 'w \<Rightarrow> (bool \<times> 'm \<times> 'c NetCtx \<times> 'w) option"
  http_init :: "HTTPRequestInfo \<Rightarrow> bytes \<Rightarrow> bool \<times> nat \<times> bytes"
  http_add_header :: "bytes \<Rightarrow> bytes \<Rightarrow> nat \<times> bytes \<Rightarrow> nat \<times> bytes"
  http_send :: "('c NetCtx \<times> 'w) TransportInterface \<Rightarrow> bytes \<Rightarrow> nat \<times> bytes \<Rightarrow> 'c NetCtx \<times> 'w \<Rightarrow>
    (HTTPResponse \<times> bytes \<times> 'c NetCtx \<times> 'w) option"

section \<open>The object\<close>

definition KEEP_ALIVE_TIMEOUT_SECONDS :: nat where "KEEP_ALIVE_TIMEOUT_SECONDS = 60"
definition CONNACK_RECV_TIMEOUT_MS :: nat where "CONNACK_RECV_TIMEOUT_MS = 1000"
definition CONFIG_MQTT_BUFFER_SIZE :: nat where "CONFIG_MQTT_BUFFER_SIZE = 4096"
definition CONFIG_HTTP_BUFFER_SIZE :: nat where "CONFIG_HTTP_BUFFER_SIZE = 4096"

definition RPC_VERSION :: bytes where "RPC_VERSION = str ''2.0''"
definition RPC_METHOD_STATE :: bytes where "RPC_METHOD_STATE = str ''state''"
definition RPC_METHOD_OFFER :: bytes where "RPC_METHOD_OFFER = str ''offer''"
definition RPC_METHOD_ANSWER :: bytes where "RPC_METHOD_ANSWER = str ''answer''"
definition RPC_METHOD_CLOSE :: bytes where "RPC_METHOD_CLOSE = str ''close''"

definition RPC_ERROR_PARSE_ERROR :: bytes where
  "RPC_ERROR_PARSE_ERROR = str ''{\"code\":-32700,\"message\":\"Parse error\"}''"
definition RPC_ERROR_INVALID_REQUEST :: bytes where
  "RPC_ERROR_INVALID_REQUEST = str ''{\"code\":-32600,\"message\":\"Invalid Request\"}''"
definition RPC_ERROR_METHOD_NOT_FOUND :: bytes where
  "RPC_ERROR_METHOD_NOT_FOUND = str ''{\"code\":-32601,\"message\":\"Method not found\"}''"
definition RPC_ERROR_INVALID_PARAMS :: bytes where
  "RPC_ERROR_INVALID_PARAMS = str ''{\"code\":-32602,\"message\":\"Invalid params\"}''"
definition RPC_ERROR_INTERNAL_ERROR :: bytes where
  "RPC_ERROR_INTERNAL_ERROR = str ''{\"code\":-32603,\"message\":\"Internal error\"}''"

record ('c, 'm) PeerSignaling =
  mqtt_ctx :: 'm
  net_ctx :: "'c NetworkContext"
  subtopic :: bytes
  pubtopic :: bytes
  rpc_id :: int
  http_buf :: bytes
  ps_proto :: int
  ps_use_tls :: int
  ps_port :: int
  ps_host :: bytes
  ps_path :: bytes
  ps_token :: bytes
  client_id :: bytes

type_synonym ('w, 't, 'p, 'u, 'c, 'm) sig = "('c, 'm) PeerSignaling \<times> ('w, 't, 'p, 'u) peer"

section \<open>Transport interfaces\<close>

definition ssl_interface :: "'w Os \<Rightarrow> ('c, 'w) SslLib \<Rightarrow> ('c NetCtx \<times> 'w) TransportInterface" where
  "ssl_interface os lib = \<lparr>
     if_recv = \<lambda>buf len (n, w). (case n of
         TlsNet net \<Rightarrow> do { (r, buf, net, w) \<leftarrow> ssl_transport_recv os lib net buf len w; Some (r, buf, TlsNet net, w) }
       | PlainNet _ \<Rightarrow> None),
     if_send = \<lambda>buf len (n, w). (case n of
         TlsNet net \<Rightarrow> do { (r, net, w) \<leftarrow> ssl_transport_send os lib net buf len w; Some (r, TlsNet net, w) }
       | PlainNet _ \<Rightarrow> None)\<rparr>"

definition tcp_interface :: "'w Os \<Rightarrow> ('c NetCtx \<times> 'w) TransportInterface" where
  "tcp_interface os = \<lparr>
     if_recv = \<lambda>buf len (n, w). (case n of
         PlainNet s \<Rightarrow> do { (r, buf, w) \<leftarrow> tcp_transport_recv os s buf len w; Some (r, buf, PlainNet s, w) }
       | TlsNet _ \<Rightarrow> None),
     if_send = \<lambda>buf len (n, w). (case n of
         PlainNet s \<Rightarrow> do { (r, w) \<leftarrow> tcp_transport_send os s buf len w; Some (r, PlainNet s, w) }
       | TlsNet _ \<Rightarrow> None)\<rparr>"

text \<open>A call of the MQTT library: it works on its context, the network context of the object, and the world.\<close>

definition mqtt_call ::
  "('w, 't, 'p, 'u, 'c, 'm, 'j) SigEnv \<Rightarrow>
   (('c NetCtx \<times> 'w) TransportInterface \<Rightarrow> 'm \<Rightarrow> 'c NetCtx \<times> 'w \<Rightarrow> ('r \<times> 'm \<times> 'c NetCtx \<times> 'w) option) \<Rightarrow>
   ('w, 't, 'p, 'u, 'c, 'm) sig \<Rightarrow> ('r \<times> ('w, 't, 'p, 'u, 'c, 'm) sig) option" where
  "mqtt_call env f sx = (case sx of (ps, pc, pw) \<Rightarrow> do {
     (r, m, n, w) \<leftarrow> f (ssl_interface (peer_os (sig_peer env)) (sig_ssl env)) (mqtt_ctx ps) (TlsNet (net_ctx ps), world pw);
     (case n of
        TlsNet net \<Rightarrow> Some (r, ps\<lparr>mqtt_ctx := m, net_ctx := net\<rparr>, pc, pw\<lparr>world := w\<rparr>)
      | PlainNet _ \<Rightarrow> None)
   })"

section \<open>Publishing\<close>

definition peer_signaling_mqtt_publish ::
  "('w, 't, 'p, 'u, 'c, 'm, 'j) SigEnv \<Rightarrow> bytes \<Rightarrow> ('w, 't, 'p, 'u, 'c, 'm) sig \<Rightarrow> ('w, 't, 'p, 'u, 'c, 'm) sig option" where
  "peer_signaling_mqtt_publish env message sx = do {
     topic \<leftarrow> c_text (pubtopic (fst sx));
     let (i, m) = mqtt_packet_id env (mqtt_ctx (fst sx));
     (ok, sx) \<leftarrow> mqtt_call env (\<lambda>tr. mqtt_publish env tr topic message i) ((fst sx)\<lparr>mqtt_ctx := m\<rparr>, snd sx);
     Some sx
   }"

text \<open>A response is printed and published; if it cannot be printed, nothing happens.\<close>

definition publish_json ::
  "('w, 't, 'p, 'u, 'c, 'm, 'j) SigEnv \<Rightarrow> (bytes \<times> JsonValue) list \<Rightarrow> ('w, 't, 'p, 'u, 'c, 'm) sig \<Rightarrow>
   ('w, 't, 'p, 'u, 'c, 'm) sig option" where
  "publish_json env res sx = (case json_print env res of
     None \<Rightarrow> Some sx | Some payload \<Rightarrow> peer_signaling_mqtt_publish env payload sx)"

section \<open>HTTP\<close>

text \<open>One request over the interface \<open>tr\<close> on the network context \<open>n\<close>. The answer comes into the buffer
  the headers were in.\<close>

definition peer_signaling_http_request ::
  "('w, 't, 'p, 'u, 'c, 'm, 'j) SigEnv \<Rightarrow> ('c NetCtx \<times> 'w) TransportInterface \<Rightarrow> bytes \<Rightarrow> bytes \<Rightarrow> bytes \<Rightarrow> bytes \<Rightarrow>
   bytes \<Rightarrow> bytes \<Rightarrow> 'c NetCtx \<times> 'w \<Rightarrow> (HTTPResponse \<times> bytes \<times> 'c NetCtx \<times> 'w) option" where
  "peer_signaling_http_request env tr method host path auth body buf nw =
     (let (ok, h) = http_init env \<lparr>rq_method = method, rq_host = host, rq_path = path, rq_keep_alive = True\<rparr> buf in
      if ok then
        (let h = http_add_header env (str ''Content-Type'') (str ''application/sdp'') h;
             h = (if 0 < length auth then http_add_header env (str ''Authorization'') auth h else h)
         in http_send env tr body h nw)
      else Some (\<lparr>rs_headers = False, rs_body = None, rs_statusCode = 0\<rparr>, snd h, nw))"

text \<open>The network contexts are locals that hold anything before they are connected.\<close>

definition http_connect ::
  "('w, 't, 'p, 'u, 'c, 'm, 'j) SigEnv \<Rightarrow> bytes \<Rightarrow> int \<Rightarrow> int \<Rightarrow> 'w \<Rightarrow> (int \<times> 'c NetCtx \<times> 'w) option" where
  "http_connect env hostname prt use_tls w =
     (if use_tls \<noteq> 0 then do {
        (ret, net, w) \<leftarrow> ssl_transport_connect (peer_os (sig_peer env)) (sig_ssl env) (sig_local_net env) hostname (of_int prt) w;
        Some (ret, TlsNet net, w)
      }
      else let (ret, sock, w) = tcp_transport_connect (peer_os (sig_peer env)) (tcp_socket (sig_local_net env)) hostname (of_int prt) w
        in Some (ret, PlainNet sock, w))"

definition http_disconnect :: "('w, 't, 'p, 'u, 'c, 'm, 'j) SigEnv \<Rightarrow> 'c NetCtx \<Rightarrow> 'w \<Rightarrow> 'w" where
  "http_disconnect env n w = (case n of
     TlsNet net \<Rightarrow> snd (ssl_transport_disconnect (peer_os (sig_peer env)) (sig_ssl env) net w)
   | PlainNet sock \<Rightarrow> tcp_transport_disconnect (peer_os (sig_peer env)) sock w)"

text \<open>A body with the status 201 is the remote description.\<close>

definition peer_signaling_http_post ::
  "('w, 't, 'p, 'u, 'c, 'm, 'j) SigEnv \<Rightarrow> bytes \<Rightarrow> bytes \<Rightarrow> int \<Rightarrow> int \<Rightarrow> bytes \<Rightarrow> bytes \<Rightarrow> ('w, 't, 'p, 'u, 'c, 'm) sig \<Rightarrow>
   (int \<times> ('w, 't, 'p, 'u, 'c, 'm) sig) option" where
  "peer_signaling_http_post env hostname path prt use_tls auth body sx = (case sx of (ps, pc, pw) \<Rightarrow> do {
     c_assert (0 < prt);
     (ret, n, w) \<leftarrow> http_connect env hostname prt use_tls (world pw);
     (if ret < 0 then Some (ret, ps, pc, pw\<lparr>world := w\<rparr>)
      else do {
        let tr = (if use_tls \<noteq> 0 then ssl_interface (peer_os (sig_peer env)) (sig_ssl env) else tcp_interface (peer_os (sig_peer env)));
        (res, buf, n, w) \<leftarrow> peer_signaling_http_request env tr (str ''POST'') hostname path auth body (http_buf ps) (n, w);
        let sx = (ps\<lparr>http_buf := buf\<rparr>, pc, pw\<lparr>world := http_disconnect env n w\<rparr>);
        (if \<not> rs_headers res then Some (-1, sx)
         else case rs_body res of
           None \<Rightarrow> Some (-1, sx)
         | Some k \<Rightarrow>
             if rs_statusCode res = 201 then do {
               t \<leftarrow> c_text (drop k buf);
               x \<leftarrow> peer_connection_set_remote_description (sig_peer env) t SDP_TYPE_ANSWER (snd sx);
               Some (0, fst sx, x)
             }
             else Some (0, sx))
      })
   })"

section \<open>The local description\<close>

text \<open>A pending request gets the description as its result; otherwise it is posted.\<close>

definition peer_signaling_onicecandidate ::
  "('w, 't, 'p, 'u, 'c, 'm, 'j) SigEnv \<Rightarrow> bytes \<Rightarrow> ('w, 't, 'p, 'u, 'c, 'm) sig \<Rightarrow> ('w, 't, 'p, 'u, 'c, 'm) sig option" where
  "peer_signaling_onicecandidate env description sx =
     (if 0 < rpc_id (fst sx) then do {
        sx \<leftarrow> publish_json env [(str ''jsonrpc'', JsonString RPC_VERSION), (str ''id'', JsonNumber (rpc_id (fst sx))),
               (str ''result'', JsonString description)] sx;
        Some ((fst sx)\<lparr>rpc_id := 0\<rparr>, snd sx)
      }
      else do {
        token \<leftarrow> c_text (ps_token (fst sx));
        host \<leftarrow> c_text (ps_host (fst sx));
        path \<leftarrow> c_text (ps_path (fst sx));
        let auth = (if 0 < length token then snprintf_text (TOKEN_MAX_LEN + 10) (str ''Bearer '' @ token) else []);
        (r, sx) \<leftarrow> peer_signaling_http_post env host path (ps_port (fst sx)) (ps_use_tls (fst sx)) auth description sx;
        Some sx
      })"

definition sig_create_offer ::
  "('w, 't, 'p, 'u, 'c, 'm, 'j) SigEnv \<Rightarrow> ('w, 't, 'p, 'u, 'c, 'm) sig \<Rightarrow> ('w, 't, 'p, 'u, 'c, 'm) sig option" where
  "sig_create_offer env sx = do {
     (s, x) \<leftarrow> peer_connection_create_offer (sig_peer env) (snd sx);
     (if has_onicecandidate (fst x) then do { t \<leftarrow> c_text s; peer_signaling_onicecandidate env t (fst sx, x) }
      else Some (fst sx, x))
   }"

section \<open>Requests\<close>

text \<open>What a request comes to: a result, an error, or nothing to send. \<open>cJSON_IsNumber\<close> and \<open>cJSON_IsString\<close> are only
  asked of a null pointer, where they are false: a missing \<open>id\<close> is an error, a missing \<open>method\<close> is not seen, and the
  types of the members are never looked at.\<close>

datatype RpcOutcome = RpcResult bytes | RpcError bytes | RpcNothing

definition offer_states :: "PeerConnectionState list" where
  "offer_states = [PEER_CONNECTION_NEW, PEER_CONNECTION_DISCONNECTED, PEER_CONNECTION_FAILED, PEER_CONNECTION_CLOSED]"

definition rpc_method ::
  "('w, 't, 'p, 'u, 'c, 'm, 'j) SigEnv \<Rightarrow> PeerConnectionState \<Rightarrow> int \<Rightarrow> bytes \<Rightarrow> 'j \<Rightarrow> ('w, 't, 'p, 'u, 'c, 'm) sig \<Rightarrow>
   (RpcOutcome \<times> ('w, 't, 'p, 'u, 'c, 'm) sig) option" where
  "rpc_method env state i method req sx =
     (if method = RPC_METHOD_OFFER then
        (if state \<in> set offer_states then do {
           sx \<leftarrow> sig_create_offer env ((fst sx)\<lparr>rpc_id := i\<rparr>, snd sx);
           Some (RpcNothing, sx) }
         else Some (RpcError RPC_ERROR_INTERNAL_ERROR, sx))
      else if method = RPC_METHOD_ANSWER then
        (case json_get env req (str ''params'') of
           None \<Rightarrow> Some (RpcError RPC_ERROR_INVALID_PARAMS, sx)
         | Some item \<Rightarrow> do {
             t \<leftarrow> json_valuestring item;
             x \<leftarrow> peer_connection_set_remote_description (sig_peer env) t SDP_TYPE_ANSWER (snd sx);
             Some (RpcNothing, fst sx, x) })
      else if method = RPC_METHOD_STATE then Some (RpcResult (str (peer_connection_state_to_string state)), sx)
      else if method = RPC_METHOD_CLOSE then
        Some (RpcResult [], fst sx, peer_connection_close (fst (snd sx)), snd (snd sx))
      else Some (RpcError RPC_ERROR_METHOD_NOT_FOUND, sx))"

text \<open>The id that goes into the response, with the outcome.\<close>

definition rpc_request ::
  "('w, 't, 'p, 'u, 'c, 'm, 'j) SigEnv \<Rightarrow> bytes \<Rightarrow> ('w, 't, 'p, 'u, 'c, 'm) sig \<Rightarrow>
   (int \<times> RpcOutcome \<times> ('w, 't, 'p, 'u, 'c, 'm) sig) option" where
  "rpc_request env text sx =
     (case json_parse env text of
        None \<Rightarrow> Some (-1, RpcError RPC_ERROR_PARSE_ERROR, sx)
      | Some req \<Rightarrow> (case json_get env req (str ''id'') of
          None \<Rightarrow> Some (-1, RpcError RPC_ERROR_INVALID_REQUEST, sx)
        | Some item \<Rightarrow> do {
            let i = json_valueint item;
            item \<leftarrow> json_get env req (str ''method'');
            method \<leftarrow> json_valuestring item;
            (out, sx) \<leftarrow> rpc_method env (peer_connection_get_state (fst (snd sx))) i method req sx;
            Some (i, out, sx)
          }))"

definition rpc_respond ::
  "('w, 't, 'p, 'u, 'c, 'm, 'j) SigEnv \<Rightarrow> int \<Rightarrow> RpcOutcome \<Rightarrow> ('w, 't, 'p, 'u, 'c, 'm) sig \<Rightarrow>
   ('w, 't, 'p, 'u, 'c, 'm) sig option" where
  "rpc_respond env i out sx = (case out of
     RpcNothing \<Rightarrow> Some sx
   | RpcResult t \<Rightarrow> publish_json env [(str ''jsonrpc'', JsonString RPC_VERSION), (str ''id'', JsonNumber i), (str ''result'', JsonString t)] sx
   | RpcError t \<Rightarrow> publish_json env [(str ''jsonrpc'', JsonString RPC_VERSION), (str ''id'', JsonNumber i), (str ''error'', JsonRaw t)] sx)"

text \<open>\<open>msg\<close> is the memory from the first byte of the message; its length is not used, the text ends at
  the next NUL.\<close>

definition peer_signaling_on_pub_event ::
  "('w, 't, 'p, 'u, 'c, 'm, 'j) SigEnv \<Rightarrow> bytes \<Rightarrow> nat \<Rightarrow> ('w, 't, 'p, 'u, 'c, 'm) sig \<Rightarrow> ('w, 't, 'p, 'u, 'c, 'm) sig option" where
  "peer_signaling_on_pub_event env msg len sx = do {
     text \<leftarrow> c_text msg;
     (i, out, sx) \<leftarrow> rpc_request env text sx;
     rpc_respond env i out sx
   }"

definition peer_signaling_mqtt_event_cb ::
  "('w, 't, 'p, 'u, 'c, 'm, 'j) SigEnv \<Rightarrow> MqttPacket \<Rightarrow> ('w, 't, 'p, 'u, 'c, 'm) sig \<Rightarrow> ('w, 't, 'p, 'u, 'c, 'm) sig option" where
  "peer_signaling_mqtt_event_cb env packet sx = (case packet of
     MqttPublish payload len \<Rightarrow> peer_signaling_on_pub_event env payload len sx
   | MqttSubAck codes \<Rightarrow> do {
       cs \<leftarrow> codes;
       c_assert (length cs = 1);
       Some sx }
   | MqttUnsubAck \<Rightarrow> Some sx
   | MqttOther \<Rightarrow> Some sx)"

text \<open>\<open>MQTT_ProcessLoop\<close>.\<close>

definition mqtt_process_loop ::
  "('w, 't, 'p, 'u, 'c, 'm, 'j) SigEnv \<Rightarrow> ('w, 't, 'p, 'u, 'c, 'm) sig \<Rightarrow> (bool \<times> ('w, 't, 'p, 'u, 'c, 'm) sig) option" where
  "mqtt_process_loop env sx = do {
     (packet, sx) \<leftarrow> mqtt_call env (mqtt_receive env) sx;
     sx \<leftarrow> (case packet of None \<Rightarrow> Some sx | Some p \<Rightarrow> peer_signaling_mqtt_event_cb env p sx);
     mqtt_call env (mqtt_finish env) sx
   }"

section \<open>Connecting\<close>

text \<open>User name and password of a token that is not empty; whether it could be taken apart is ignored.\<close>

definition mqtt_credentials :: "bytes \<Rightarrow> (bytes option \<times> bytes option) option" where
  "mqtt_credentials token =
     (if 0 < length token then do {
        (r, u, p) \<leftarrow> peer_signaling_resolve_token (Some token) (replicate TOKEN_MAX_LEN 0) (replicate TOKEN_MAX_LEN 0);
        username \<leftarrow> c_text u;
        password \<leftarrow> c_text p;
        Some (Some username, Some password)
      }
      else Some (None, None))"

text \<open>The connection is over TLS whatever the scheme.\<close>

definition peer_signaling_mqtt_connect ::
  "('w, 't, 'p, 'u, 'c, 'm, 'j) SigEnv \<Rightarrow> bytes \<Rightarrow> int \<Rightarrow> ('w, 't, 'p, 'u, 'c, 'm) sig \<Rightarrow>
   (int \<times> ('w, 't, 'p, 'u, 'c, 'm) sig) option" where
  "peer_signaling_mqtt_connect env hostname prt sx = (case sx of (ps, pc, pw) \<Rightarrow> do {
     (ret, net, w) \<leftarrow> ssl_transport_connect (peer_os (sig_peer env)) (sig_ssl env) (net_ctx ps) hostname (of_int prt) (world pw);
     let ps = ps\<lparr>net_ctx := net\<rparr>;
     let pw = pw\<lparr>world := w\<rparr>;
     (if ret < 0 then Some (-1, ps, pc, pw)
      else do {
        let ps = ps\<lparr>mqtt_ctx := mqtt_init env CONFIG_MQTT_BUFFER_SIZE\<rparr>;
        token \<leftarrow> c_text (ps_token ps);
        cred \<leftarrow> mqtt_credentials token;
        client \<leftarrow> c_text (client_id ps);
        let info = \<lparr>ci_cleanSession = False, ci_keepAliveSeconds = KEEP_ALIVE_TIMEOUT_SECONDS,
                    ci_clientIdentifier = (if 0 < length client then Some client else None),
                    ci_userName = fst cred, ci_password = snd cred\<rparr>;
        (ok, sx) \<leftarrow> mqtt_call env (\<lambda>tr. mqtt_connect env tr info CONNACK_RECV_TIMEOUT_MS) (ps, pc, pw);
        Some (if ok then 0 else -1, sx)
      })
   })"

definition peer_signaling_mqtt_subscribe ::
  "('w, 't, 'p, 'u, 'c, 'm, 'j) SigEnv \<Rightarrow> bool \<Rightarrow> ('w, 't, 'p, 'u, 'c, 'm) sig \<Rightarrow> (int \<times> ('w, 't, 'p, 'u, 'c, 'm) sig) option" where
  "peer_signaling_mqtt_subscribe env subscribed sx = do {
     let (i, m) = mqtt_packet_id env (mqtt_ctx (fst sx));
     topic \<leftarrow> c_text (subtopic (fst sx));
     (ok, sx) \<leftarrow> mqtt_call env (\<lambda>tr. (if subscribed then mqtt_subscribe env else mqtt_unsubscribe env) tr topic i)
        ((fst sx)\<lparr>mqtt_ctx := m\<rparr>, snd sx);
     (if \<not> ok then Some (-1, sx)
      else do {
        (ok, sx) \<leftarrow> mqtt_process_loop env sx;
        Some (if ok then 0 else -1, sx)
      })
   }"

text \<open>\<open>snprintf\<close> of a text into an array of \<open>n\<close> bytes.\<close>

definition snprintf_array :: "nat \<Rightarrow> bytes \<Rightarrow> bytes \<Rightarrow> bytes option" where
  "snprintf_array n t a = mem_write 0 (snprintf_text n t @ [0]) a"

text \<open>Client identifier and topics from the path, which has to hold a slash.\<close>

definition mqtt_names :: "('c, 'm) PeerSignaling \<Rightarrow> ('c, 'm) PeerSignaling option" where
  "mqtt_names ps = do {
     path \<leftarrow> c_text (ps_path ps);
     k \<leftarrow> strrchr path 47;
     c \<leftarrow> snprintf_array 32 (drop (k + 1) path) (client_id ps);
     sub \<leftarrow> snprintf_array TOPIC_MAX_LEN (path @ str ''/invoke'') (subtopic ps);
     pub \<leftarrow> snprintf_array TOPIC_MAX_LEN (path @ str ''/result'') (pubtopic ps);
     Some (ps\<lparr>client_id := c, subtopic := sub, pubtopic := pub\<rparr>)
   }"

text \<open>A URL that cannot be resolved is only logged.\<close>

definition peer_signaling_connect ::
  "('w, 't, 'p, 'u, 'c, 'm, 'j) SigEnv \<Rightarrow> bytes option \<Rightarrow> bytes option \<Rightarrow> ('w, 't, 'p, 'u, 'c, 'm) sig \<Rightarrow>
   (int \<times> ('w, 't, 'p, 'u, 'c, 'm) sig) option" where
  "peer_signaling_connect env url token sx = (case sx of (ps, pc, pw) \<Rightarrow> do {
     (proto, h, prt, f, tls) \<leftarrow> peer_signaling_resolve_url url (ps_host ps) (ps_port ps) (ps_path ps);
     let ps = ps\<lparr>ps_proto := proto, ps_host := h, ps_port := prt, ps_path := f, ps_use_tls := tls\<rparr>;
     let ps = (case token of None \<Rightarrow> ps | Some t \<Rightarrow> if 0 < length t then ps\<lparr>ps_token := strncpy_text TOKEN_MAX_LEN t\<rparr> else ps);
     let x = (peer_connection_onicecandidate pc True, pw);
     (if proto = 0 then do {
        ps \<leftarrow> mqtt_names ps;
        host \<leftarrow> c_text (ps_host ps);
        (r, sx) \<leftarrow> peer_signaling_mqtt_connect env host (ps_port ps) (ps, x);
        (if r = 0 then do { (r, sx) \<leftarrow> peer_signaling_mqtt_subscribe env True sx; Some (0, sx) }
         else Some (0, sx))
      }
      else if proto = 1 then do { sx \<leftarrow> sig_create_offer env (ps, x); Some (0, sx) }
      else Some (0, ps, x))
   })"

definition peer_signaling_disconnect ::
  "('w, 't, 'p, 'u, 'c, 'm, 'j) SigEnv \<Rightarrow> ('w, 't, 'p, 'u, 'c, 'm) sig \<Rightarrow> ('w, 't, 'p, 'u, 'c, 'm) sig option" where
  "peer_signaling_disconnect env sx =
     (if ps_proto (fst sx) = 0 then do {
        (r, sx) \<leftarrow> peer_signaling_mqtt_subscribe env False sx;
        (if r = 0 then do {
           (ok, ps, pc, pw) \<leftarrow> mqtt_call env (mqtt_disconnect env) sx;
           let (net, w) = ssl_transport_disconnect (peer_os (sig_peer env)) (sig_ssl env) (net_ctx ps) (world pw);
           Some (ps\<lparr>net_ctx := net\<rparr>, pc, pw\<lparr>world := w\<rparr>)
         }
         else Some sx)
      }
      else Some sx)"

definition peer_signaling_loop ::
  "('w, 't, 'p, 'u, 'c, 'm, 'j) SigEnv \<Rightarrow> ('w, 't, 'p, 'u, 'c, 'm) sig \<Rightarrow> (int \<times> ('w, 't, 'p, 'u, 'c, 'm) sig) option" where
  "peer_signaling_loop env sx = do { (ok, sx) \<leftarrow> mqtt_process_loop env sx; Some (0, sx) }"

end
