(* ===== verification/Signaling_Machine.thy ===== *)
theory Signaling_Machine
  imports Signaling
begin

text \<open>
  What the signaling does to the peer connection: every operation is a run of calls of the connection,
  changes of the world, and closes. The facts on the states of the connection carry over to an
  application that uses both, and the rest of this theory says which request does what.
\<close>

section \<open>Runs of the connection\<close>

inductive sig_move :: "('w, 't, 'p, 'u) PeerEnv \<Rightarrow> ('w, 't, 'p, 'u) peer \<Rightarrow> ('w, 't, 'p, 'u) peer \<Rightarrow> bool" for penv where
  move_call: "peer_call penv x y \<Longrightarrow> sig_move penv x y"
| move_world: "sig_move penv (pc, pw) (pc, pw\<lparr>world := w\<rparr>)"
| move_close: "sig_move penv (pc, pw) (peer_connection_close pc, pw)"

abbreviation sig_moves :: "('w, 't, 'p, 'u) PeerEnv \<Rightarrow> ('w, 't, 'p, 'u) peer \<Rightarrow> ('w, 't, 'p, 'u) peer \<Rightarrow> bool" where
  "sig_moves penv \<equiv> (sig_move penv)\<^sup>*\<^sup>*"

text \<open>Only the world differs.\<close>

definition carried :: "('w, 't, 'p, 'u) peer \<Rightarrow> ('w, 't, 'p, 'u) peer \<Rightarrow> bool" where
  "carried x y \<longleftrightarrow> (\<exists>w. y = (fst x, (snd x)\<lparr>world := w\<rparr>))"

lemma carried_refl [simp]: "carried x x"
  by (cases x) (metis (no_types, lifting) PeerWorld.surjective PeerWorld.update_convs(1) carried_def fst_conv snd_conv)

lemma carried_trans: "carried x y \<Longrightarrow> carried y z \<Longrightarrow> carried x z"
  by (auto simp: carried_def)

lemma carried_world [simp]: "carried (pc, pw) (pc, pw\<lparr>world := w\<rparr>)"
  by (auto simp: carried_def)

lemma carried_fst: "carried x y \<Longrightarrow> fst y = fst x"
  by (auto simp: carried_def)

lemma carried_moves: "carried x y \<Longrightarrow> sig_moves penv x y"
  by (cases x) (auto simp: carried_def intro: r_into_rtranclp move_world)

lemma carried_then: "carried x y \<Longrightarrow> sig_moves penv y z \<Longrightarrow> sig_moves penv x z"
  using carried_moves rtranclp_trans by metis

lemma then_carried: "sig_moves penv x y \<Longrightarrow> carried y z \<Longrightarrow> sig_moves penv x z"
  using carried_moves rtranclp_trans by metis

lemma one_call: "peer_call penv x y \<Longrightarrow> sig_moves penv x y"
  by (rule r_into_rtranclp) (rule move_call)

lemma remote_moves: "peer_connection_set_remote_description penv t ty x = Some y \<Longrightarrow> sig_moves penv x y"
  by (intro one_call call_remote)

lemma close_moves: "sig_moves penv x (peer_connection_close (fst x), snd x)"
  by (cases x) (auto intro: r_into_rtranclp move_close)

section \<open>The MQTT calls\<close>

lemma mqtt_call_carried:
  "mqtt_call env f sx = Some (r, sy) \<Longrightarrow> carried (snd sx) (snd sy) \<and> rpc_id (fst sy) = rpc_id (fst sx)"
proof -
  assume c: "mqtt_call env f sx = Some (r, sy)"
  obtain ps pc pw where x: "sx = (ps, pc, pw)" by (cases sx)
  obtain r' m n w where "f (ssl_interface (peer_os (sig_peer env)) (sig_ssl env)) (mqtt_ctx ps) (TlsNet (net_ctx ps), world pw) = Some (r', m, n, w)"
    using c by (auto simp: mqtt_call_def x Option.bind_eq_Some_conv)
  then show ?thesis using c by (cases n) (auto simp: mqtt_call_def x)
qed

lemma publish_carried:
  "peer_signaling_mqtt_publish env m sx = Some sy \<Longrightarrow> carried (snd sx) (snd sy) \<and> rpc_id (fst sy) = rpc_id (fst sx)"
  by (cases "mqtt_packet_id env (mqtt_ctx (fst sx))")
    (auto simp: peer_signaling_mqtt_publish_def Option.bind_eq_Some_conv dest!: mqtt_call_carried)

lemma publish_json_carried:
  "publish_json env res sx = Some sy \<Longrightarrow> carried (snd sx) (snd sy) \<and> rpc_id (fst sy) = rpc_id (fst sx)"
  by (auto simp: publish_json_def split: option.splits dest!: publish_carried)

lemma respond_carried: "rpc_respond env i out sx = Some sy \<Longrightarrow> carried (snd sx) (snd sy)"
  by (cases out) (auto simp: rpc_respond_def dest!: publish_json_carried)

section \<open>The operations\<close>

lemma http_post_moves:
  assumes "peer_signaling_http_post env host path prt tls auth body sx = Some (r, sy)"
  shows "sig_moves (sig_peer env) (snd sx) (snd sy)"
proof -
  obtain ps pc pw where x: "sx = (ps, pc, pw)" by (cases sx)
  consider "carried (snd sx) (snd sy)"
    | w t where "peer_connection_set_remote_description (sig_peer env) t SDP_TYPE_ANSWER (pc, pw\<lparr>world := w\<rparr>) = Some (snd sy)"
    using assms unfolding x peer_signaling_http_post_def
    by (fastforce simp: Option.bind_eq_Some_conv Let_def c_assert_def split: if_splits option.splits)
  then show ?thesis
  proof cases
    case (2 w t)
    have "carried (snd sx) (pc, pw\<lparr>world := w\<rparr>)" by (simp add: x)
    then show ?thesis using carried_then one_call [OF call_remote [OF 2]] by metis
  qed (rule carried_moves)
qed

lemma onicecandidate_moves:
  assumes "peer_signaling_onicecandidate env d sx = Some sy"
  shows "sig_moves (sig_peer env) (snd sx) (snd sy)"
  using assms
  by (auto simp: peer_signaling_onicecandidate_def Option.bind_eq_Some_conv Let_def split: if_splits
      dest!: publish_json_carried http_post_moves intro: carried_moves)

lemma create_offer_moves:
  assumes "sig_create_offer env sx = Some sy"
  shows "sig_moves (sig_peer env) (snd sx) (snd sy)"
proof -
  obtain s x where s: "peer_connection_create_offer (sig_peer env) (snd sx) = Some (s, x)"
    using assms by (auto simp: sig_create_offer_def Option.bind_eq_Some_conv)
  then have "sig_moves (sig_peer env) x (snd sy)"
    using assms by (auto simp: sig_create_offer_def Option.bind_eq_Some_conv split: if_splits dest!: onicecandidate_moves)
  then show ?thesis using one_call [OF call_offer [OF s]] rtranclp_trans by metis
qed

lemma method_moves:
  assumes "rpc_method env cs i m req sx = Some (out, sy)"
  shows "sig_moves (sig_peer env) (snd sx) (snd sy)"
  using assms
  by (auto simp: rpc_method_def Option.bind_eq_Some_conv split: if_splits option.splits
      dest!: create_offer_moves remote_moves intro: close_moves)

lemma request_moves:
  "rpc_request env t sx = Some (i, out, sy) \<Longrightarrow> sig_moves (sig_peer env) (snd sx) (snd sy)"
  by (auto simp: rpc_request_def Option.bind_eq_Some_conv Let_def split: option.splits dest!: method_moves)

lemma on_pub_event_moves:
  assumes "peer_signaling_on_pub_event env msg n sx = Some sy"
  shows "sig_moves (sig_peer env) (snd sx) (snd sy)"
  using assms
  by (auto simp: peer_signaling_on_pub_event_def Option.bind_eq_Some_conv dest!: request_moves respond_carried intro: then_carried)

lemma event_cb_moves:
  "peer_signaling_mqtt_event_cb env p sx = Some sy \<Longrightarrow> sig_moves (sig_peer env) (snd sx) (snd sy)"
  by (cases p) (auto simp: peer_signaling_mqtt_event_cb_def Option.bind_eq_Some_conv c_assert_def split: if_splits dest!: on_pub_event_moves)

lemma process_loop_moves:
  assumes "mqtt_process_loop env sx = Some (r, sy)"
  shows "sig_moves (sig_peer env) (snd sx) (snd sy)"
proof -
  obtain p s1 s2 where s: "mqtt_call env (mqtt_receive env) sx = Some (p, s1)"
      "(case p of None \<Rightarrow> Some s1 | Some p \<Rightarrow> peer_signaling_mqtt_event_cb env p s1) = Some s2"
      "mqtt_call env (mqtt_finish env) s2 = Some (r, sy)"
    using assms by (auto simp: mqtt_process_loop_def Option.bind_eq_Some_conv)
  have "sig_moves (sig_peer env) (snd s1) (snd s2)"
    using s(2) by (auto split: option.splits dest!: event_cb_moves)
  then show ?thesis using carried_then then_carried mqtt_call_carried [OF s(1)] mqtt_call_carried [OF s(3)] by metis
qed

lemma subscribe_moves:
  "peer_signaling_mqtt_subscribe env b sx = Some (r, sy) \<Longrightarrow> sig_moves (sig_peer env) (snd sx) (snd sy)"
  by (cases "mqtt_packet_id env (mqtt_ctx (fst sx))")
    (auto simp: peer_signaling_mqtt_subscribe_def Option.bind_eq_Some_conv split: if_splits
      dest!: mqtt_call_carried process_loop_moves intro: carried_moves carried_then)

lemma mqtt_connect_carried:
  assumes "peer_signaling_mqtt_connect env h p sx = Some (r, sy)"
  shows "carried (snd sx) (snd sy)"
proof -
  obtain ps pc pw where x: "sx = (ps, pc, pw)" by (cases sx)
  obtain ret net w where c: "ssl_transport_connect (peer_os (sig_peer env)) (sig_ssl env) (net_ctx ps) h (of_int p) (world pw) = Some (ret, net, w)"
    using assms by (auto simp: x peer_signaling_mqtt_connect_def Option.bind_eq_Some_conv)
  show ?thesis
  proof (cases "ret < 0")
    case True
    then show ?thesis using assms c by (auto simp: x peer_signaling_mqtt_connect_def)
  next
    case False
    obtain ps' info ok where m: "mqtt_call env (\<lambda>tr. mqtt_connect env tr info CONNACK_RECV_TIMEOUT_MS) (ps', pc, pw\<lparr>world := w\<rparr>) = Some (ok, sy)"
      using assms c False
      by (auto simp: x peer_signaling_mqtt_connect_def Option.bind_eq_Some_conv Let_def)
    show ?thesis using mqtt_call_carried [OF m] carried_trans [OF carried_world [of pc pw w]] by (simp add: x)
  qed
qed

section \<open>Calls of an application\<close>

inductive sig_call ::
  "('w, 't, 'p, 'u, 'c, 'm, 'j) SigEnv \<Rightarrow> ('w, 't, 'p, 'u, 'c, 'm) sig \<Rightarrow> ('w, 't, 'p, 'u, 'c, 'm) sig \<Rightarrow> bool" for env where
  sig_connect: "peer_signaling_connect env url token sx = Some (r, sy) \<Longrightarrow> sig_call env sx sy"
| sig_loop: "peer_signaling_loop env sx = Some (r, sy) \<Longrightarrow> sig_call env sx sy"
| sig_disconnect: "peer_signaling_disconnect env sx = Some sy \<Longrightarrow> sig_call env sx sy"
| sig_peer_call: "peer_call (sig_peer env) x y \<Longrightarrow> sig_call env (ps, x) (ps, y)"
| sig_close: "sig_call env (ps, pc, pw) (ps, peer_connection_close pc, pw)"

lemma connect_moves:
  assumes "peer_signaling_connect env url token sx = Some (r, sy)"
  shows "sig_moves (sig_peer env) (snd sx) (snd sy)"
proof -
  obtain ps pc pw where x: "sx = (ps, pc, pw)" by (cases sx)
  let ?x = "(peer_connection_onicecandidate pc True, pw)"
  obtain proto h prt f tls where u: "peer_signaling_resolve_url url (ps_host ps) (ps_port ps) (ps_path ps) = Some (proto, h, prt, f, tls)"
    using assms by (auto simp: x peer_signaling_connect_def Option.bind_eq_Some_conv)
  define ps1 where "ps1 = (let ps = ps\<lparr>ps_proto := proto, ps_host := h, ps_port := prt, ps_path := f, ps_use_tls := tls\<rparr>
    in case token of None \<Rightarrow> ps | Some t \<Rightarrow> if 0 < length t then ps\<lparr>ps_token := strncpy_text TOKEN_MAX_LEN t\<rparr> else ps)"
  have c: "(if proto = 0 then do {
        ps \<leftarrow> mqtt_names ps1;
        host \<leftarrow> c_text (ps_host ps);
        (r, sx) \<leftarrow> peer_signaling_mqtt_connect env host (ps_port ps) (ps, ?x);
        (if r = 0 then do { (r, sx) \<leftarrow> peer_signaling_mqtt_subscribe env True sx; Some (0, sx) }
         else Some (0, sx))
      }
      else if proto = 1 then do { sx \<leftarrow> sig_create_offer env (ps1, ?x); Some (0, sx) }
      else Some (0, ps1, ?x)) = Some (r, sy)"
    using assms u by (simp only: x peer_signaling_connect_def prod.case ps1_def Let_def Option.bind.simps)
  consider (mqtt) "proto = 0" | (http) "proto = 1" | (other) "proto \<noteq> 0" "proto \<noteq> 1" by blast
  then have "sig_moves (sig_peer env) ?x (snd sy)"
  proof cases
    case mqtt
    then obtain ps2 host r1 s1 where m: "peer_signaling_mqtt_connect env host (ps_port ps2) (ps2, ?x) = Some (r1, s1)"
        "(if r1 = 0 then do { (r, sx) \<leftarrow> peer_signaling_mqtt_subscribe env True s1; Some (0, sx) } else Some (0, s1)) = Some (r, sy)"
      using c mqtt by (auto simp: Option.bind_eq_Some_conv split del: if_split)
    have "sig_moves (sig_peer env) (snd s1) (snd sy)"
      using m(2) by (auto simp: Option.bind_eq_Some_conv split: if_splits dest!: subscribe_moves)
    then show ?thesis using mqtt_connect_carried [OF m(1)] carried_then by (metis snd_conv)
  next
    case http
    then show ?thesis using c by (auto simp: Option.bind_eq_Some_conv dest!: create_offer_moves)
  next
    case other
    then show ?thesis using c by auto
  qed
  then show ?thesis using one_call [OF call_onicecandidate [of "sig_peer env" pc pw True]] rtranclp_trans x by (metis snd_conv)
qed

lemma disconnect_moves:
  assumes "peer_signaling_disconnect env sx = Some sy"
  shows "sig_moves (sig_peer env) (snd sx) (snd sy)"
proof -
  show ?thesis
  proof (cases "ps_proto (fst sx) = 0")
    case True
    then obtain r s1 where r: "peer_signaling_mqtt_subscribe env False sx = Some (r, s1)"
      using assms by (auto simp: peer_signaling_disconnect_def Option.bind_eq_Some_conv)
    show ?thesis
    proof (cases "r = 0")
      case True
      then obtain ok :: bool and s2 where c: "mqtt_call env (mqtt_disconnect env) s1 = Some (ok, s2)"
        using assms r \<open>ps_proto (fst sx) = 0\<close> by (auto simp: peer_signaling_disconnect_def Option.bind_eq_Some_conv)
      obtain ps pc pw where s2: "s2 = (ps, pc, pw)" by (cases s2)
      obtain net w where d: "ssl_transport_disconnect (peer_os (sig_peer env)) (sig_ssl env) (net_ctx ps) (world pw) = (net, w)"
        by (cases "ssl_transport_disconnect (peer_os (sig_peer env)) (sig_ssl env) (net_ctx ps) (world pw)")
      have "snd sy = (pc, pw\<lparr>world := w\<rparr>)"
        using assms r c d True \<open>ps_proto (fst sx) = 0\<close> by (auto simp: peer_signaling_disconnect_def s2)
      then show ?thesis using subscribe_moves [OF r] mqtt_call_carried [OF c] then_carried carried_world by (metis s2 snd_conv)
    next
      case False
      then have "sy = s1" using assms r True by (simp add: peer_signaling_disconnect_def)
      then show ?thesis using subscribe_moves [OF r] by simp
    qed
  next
    case False
    then show ?thesis using assms by (simp add: peer_signaling_disconnect_def)
  qed
qed

lemma sig_call_moves: "sig_call env sx sy \<Longrightarrow> sig_moves (sig_peer env) (snd sx) (snd sy)"
proof (induction rule: sig_call.induct)
  case (sig_loop sx r sy)
  then show ?case by (auto simp: peer_signaling_loop_def Option.bind_eq_Some_conv dest!: process_loop_moves)
next
  case (sig_close ps pc pw)
  show ?case using close_moves [of "sig_peer env" "(pc, pw)"] by simp
qed (auto dest: connect_moves disconnect_moves intro: one_call)

lemma sig_calls_moves: "(sig_call env)\<^sup>*\<^sup>* sx sy \<Longrightarrow> sig_moves (sig_peer env) (snd sx) (snd sy)"
proof (induction rule: rtranclp_induct)
  case (step y z)
  then show ?case using sig_call_moves rtranclp_trans by metis
qed simp

section \<open>The states an application is told of\<close>

text \<open>A path that closing may interrupt: before every report, and at the end, the connection may have been
  closed without one.\<close>

fun closable_path :: "PeerConnectionState \<Rightarrow> PeerConnectionState list \<Rightarrow> PeerConnectionState \<Rightarrow> bool" where
  "closable_path s [] t \<longleftrightarrow> t = s \<or> t = PEER_CONNECTION_CLOSED"
| "closable_path s (r # rs) t \<longleftrightarrow> (legal_move s r \<or> legal_move PEER_CONNECTION_CLOSED r) \<and> closable_path r rs t"

lemma closable_path_close: "closable_path s rs t \<Longrightarrow> closable_path s rs PEER_CONNECTION_CLOSED"
  by (induction rs arbitrary: s) auto

lemma closable_path_snoc: "closable_path s rs t \<Longrightarrow> legal_move t r \<Longrightarrow> closable_path s (rs @ [r]) r"
  by (induction rs arbitrary: s) auto

lemma closable_path_target:
  "closable_path s rs t \<Longrightarrow> t = s \<or> t \<noteq> PEER_CONNECTION_NEW \<and> t \<noteq> PEER_CONNECTION_DISCONNECTED"
  using legal_target by (induction rs arbitrary: s) auto

lemma moves_closable:
  assumes "sig_moves penv x y" and "reports (events (snd x)) = []"
  shows "closable_path (pc_state (fst x)) (reports (events (snd y))) (pc_state (fst y))"
  using assms
proof (induction rule: rtranclp_induct)
  case (step y z)
  then have p: "closable_path (pc_state (fst x)) (reports (events (snd y))) (pc_state (fst y))" by blast
  from step(2) show ?case
  proof cases
    case move_call
    then show ?thesis using call_moves [OF move_call] p closable_path_snoc by (fastforce simp: moves_def)
  next
    case (move_close pc pw)
    then show ?thesis using p closable_path_close by (fastforce simp: peer_connection_close_def)
  qed (use p in simp)
qed simp

section \<open>Offers and refusals\<close>

lemma create_sdp_callback:
  "peer_connection_create_sdp env ty x = Some y \<Longrightarrow> has_onicecandidate (fst y) = has_onicecandidate (fst x)"
  by (cases x) (auto simp: peer_connection_create_sdp_def Option.bind_eq_Some_conv Let_def peer_log_def split: prod.splits if_splits)

lemma create_offer_callback:
  "peer_connection_create_offer env x = Some (s, y) \<Longrightarrow> has_onicecandidate (fst y) = has_onicecandidate (fst x)"
  by (auto simp: peer_connection_create_offer_def Option.bind_eq_Some_conv dest: create_sdp_callback)

lemma rpc_methods_distinct [simp]:
  "RPC_METHOD_OFFER \<noteq> RPC_METHOD_ANSWER" "RPC_METHOD_OFFER \<noteq> RPC_METHOD_STATE" "RPC_METHOD_OFFER \<noteq> RPC_METHOD_CLOSE"
  "RPC_METHOD_ANSWER \<noteq> RPC_METHOD_OFFER" "RPC_METHOD_ANSWER \<noteq> RPC_METHOD_STATE" "RPC_METHOD_ANSWER \<noteq> RPC_METHOD_CLOSE"
  "RPC_METHOD_STATE \<noteq> RPC_METHOD_OFFER" "RPC_METHOD_STATE \<noteq> RPC_METHOD_ANSWER" "RPC_METHOD_STATE \<noteq> RPC_METHOD_CLOSE"
  "RPC_METHOD_CLOSE \<noteq> RPC_METHOD_OFFER" "RPC_METHOD_CLOSE \<noteq> RPC_METHOD_ANSWER" "RPC_METHOD_CLOSE \<noteq> RPC_METHOD_STATE"
  by (simp_all add: RPC_METHOD_OFFER_def RPC_METHOD_ANSWER_def RPC_METHOD_STATE_def RPC_METHOD_CLOSE_def)

text \<open>A request that is not one of the three that act leaves the connection alone.\<close>

lemma method_inert:
  assumes "rpc_method env cs i m req sx = Some (out, sy)" and "m \<noteq> RPC_METHOD_ANSWER" and "m \<noteq> RPC_METHOD_CLOSE"
    and "m = RPC_METHOD_OFFER \<longrightarrow> cs \<notin> set offer_states"
  shows "sy = sx"
  using assms by (auto simp: rpc_method_def split: if_splits)

section \<open>An example environment\<close>

text \<open>The text of a message is its method, every request has the id 7, a response is printed as its strings;
  the library of MQTT holds the messages still to come and those published.\<close>

definition example_sig :: "(unit, unit, bytes, u16, nat \<times> int list, bytes list \<times> bytes list, bytes) SigEnv" where
  "example_sig = \<lparr>sig_peer = example_env, sig_ssl = example_lib 0 [], sig_local_net = example_net,
     json_parse = \<lambda>t. if t = [] then None else Some t,
     json_get = \<lambda>j k. if k = str ''id'' then Some \<lparr>json_valueint = 7, json_valuestring = None\<rparr>
       else if k = str ''method'' \<and> j \<noteq> [63] then Some \<lparr>json_valueint = 0, json_valuestring = Some j\<rparr> else None,
     json_print = \<lambda>fs. Some (concat (map (\<lambda>f. case snd f of JsonString s \<Rightarrow> s | JsonNumber i \<Rightarrow> [] | JsonRaw r \<Rightarrow> r) fs)),
     mqtt_init = \<lambda>n. ([], []), mqtt_connect = \<lambda>tr ci n m nw. Some (True, m, nw), mqtt_packet_id = \<lambda>m. (1, m),
     mqtt_publish = \<lambda>tr t p i m nw. Some (True, (fst m, snd m @ [p]), nw),
     mqtt_subscribe = \<lambda>tr t i m nw. Some (True, m, nw), mqtt_unsubscribe = \<lambda>tr t i m nw. Some (True, m, nw),
     mqtt_receive = \<lambda>tr m nw. (case fst m of [] \<Rightarrow> Some (None, m, nw)
       | b # bs \<Rightarrow> Some (Some (MqttPublish (b @ [0]) (length b)), (bs, snd m), nw)),
     mqtt_finish = \<lambda>tr m nw. Some (True, m, nw), mqtt_disconnect = \<lambda>tr m nw. Some (True, m, nw),
     http_init = \<lambda>rq b. (True, 0, b), http_add_header = \<lambda>n v h. h,
     http_send = \<lambda>tr body h nw. Some (\<lparr>rs_headers = True, rs_body = None, rs_statusCode = 500\<rparr>, snd h, nw)\<rparr>"

definition example_ps :: "bytes list \<Rightarrow> (nat \<times> int list, bytes list \<times> bytes list) PeerSignaling" where
  "example_ps inbox = \<lparr>mqtt_ctx = (inbox, []), net_ctx = example_net, subtopic = str ''/c/invoke'' @ [0],
     pubtopic = str ''/c/result'' @ [0], rpc_id = 0, http_buf = replicate 16 0, ps_proto = 0, ps_use_tls = 1, ps_port = 8883,
     ps_host = str ''h'' @ [0], ps_path = str ''/c'' @ [0], ps_token = [0], client_id = str ''c'' @ [0]\<rparr>"

lemma example_message: "no_nul b \<Longrightarrow> c_text (b @ [0]) = Some b"
  using c_text_terminated [of b "[]"] by simp

lemma example_texts:
  "c_text (RPC_METHOD_CLOSE @ [0]) = Some RPC_METHOD_CLOSE" "c_text (RPC_METHOD_OFFER @ [0]) = Some RPC_METHOD_OFFER"
  "c_text (str ''/c/result'' @ [0]) = Some (str ''/c/result'')"
  by (rule example_message, simp add: no_nul_def RPC_METHOD_CLOSE_def RPC_METHOD_OFFER_def)+

lemma example_methods:
  "RPC_METHOD_CLOSE \<noteq> []" "RPC_METHOD_CLOSE \<noteq> [63]" "RPC_METHOD_OFFER \<noteq> []" "RPC_METHOD_OFFER \<noteq> [63]"
  "str ''method'' \<noteq> str ''id''"
  by (simp_all add: RPC_METHOD_CLOSE_def RPC_METHOD_OFFER_def)

section \<open>Properties\<close>

text \<open>C6: An application that uses the connection and the signaling in any order, its own closes and those a
  broker asks for included: the states it is told of form a path of legal transitions that only a close
  can interrupt, and the connection is never in the states new and disconnected. In whatever state that leaves it, a
  request for an offer makes it create one exactly if it has failed or is closed; in all other states the request is
  answered with an internal error under its id and nothing else happens.\<close>

theorem signaling_states:
  assumes "peer_connection_create (sig_peer env) cfg (Some mem) pw0 = Some (Some pc, pw)"
    and "pc_state mem = PEER_CONNECTION_CLOSED" and "events pw0 = []"
    and "(sig_call env)\<^sup>*\<^sup>* (ps, pc, pw) (ps', pc', pw')"
    and "c_text msg = Some t" and "json_parse env t = Some req" and "json_get env req (str ''id'') = Some ident"
    and "json_get env req (str ''method'') = Some meth" and "json_valuestring meth = Some RPC_METHOD_OFFER"
  shows "closable_path PEER_CONNECTION_CLOSED (reports (events pw')) (pc_state pc') \<and>
    pc_state pc' \<notin> {PEER_CONNECTION_NEW, PEER_CONNECTION_DISCONNECTED} \<and>
    peer_signaling_on_pub_event env msg n (ps', pc', pw') =
      (if pc_state pc' \<in> {PEER_CONNECTION_FAILED, PEER_CONNECTION_CLOSED}
       then sig_create_offer env (ps'\<lparr>rpc_id := json_valueint ident\<rparr>, pc', pw')
       else publish_json env [(str ''jsonrpc'', JsonString RPC_VERSION), (str ''id'', JsonNumber (json_valueint ident)),
         (str ''error'', JsonRaw RPC_ERROR_INTERNAL_ERROR)] (ps', pc', pw'))"
proof -
  have "pc_state pc = PEER_CONNECTION_CLOSED \<and> events pw = []" using create_closed [OF assms(1)] assms(2,3) by simp
  then have p: "closable_path PEER_CONNECTION_CLOSED (reports (events pw')) (pc_state pc')"
    using moves_closable [OF sig_calls_moves [OF assms(4)]] by simp
  have never: "pc_state pc' \<notin> {PEER_CONNECTION_NEW, PEER_CONNECTION_DISCONNECTED}"
    using closable_path_target [OF p] by auto
  then have states: "pc_state pc' \<in> set offer_states \<longleftrightarrow> pc_state pc' \<in> {PEER_CONNECTION_FAILED, PEER_CONNECTION_CLOSED}"
    by (auto simp: offer_states_def)
  have "peer_signaling_on_pub_event env msg n (ps', pc', pw') =
      (if pc_state pc' \<in> set offer_states then sig_create_offer env (ps'\<lparr>rpc_id := json_valueint ident\<rparr>, pc', pw')
       else publish_json env [(str ''jsonrpc'', JsonString RPC_VERSION), (str ''id'', JsonNumber (json_valueint ident)),
         (str ''error'', JsonRaw RPC_ERROR_INTERNAL_ERROR)] (ps', pc', pw'))"
    using assms(5-9)
    by (simp add: peer_signaling_on_pub_event_def rpc_request_def rpc_method_def peer_connection_get_state_def rpc_respond_def
        Option.bind_assoc split_def Let_def del: str_simps)
  then show ?thesis using p never unfolding states by blast
qed

theorem signaling_states_witness:
  "\<exists>pc pw ps' pc' pw'. (sig_call example_sig)\<^sup>*\<^sup>* (example_ps [str ''close''], pc, pw) (ps', pc', pw') \<and>
    snd (mqtt_ctx ps') = [RPC_VERSION] \<and> closable_path PEER_CONNECTION_CLOSED (reports (events pw')) (pc_state pc') \<and>
    pc_state pc' = PEER_CONNECTION_CLOSED \<and>
    peer_signaling_on_pub_event example_sig (RPC_METHOD_OFFER @ [0]) 5 (ps', pc', pw') =
      sig_create_offer example_sig (ps'\<lparr>rpc_id := 7\<rparr>, pc', pw')"
proof -
  obtain pc pw where c: "peer_connection_create example_env (config example_mem) (Some example_mem) example_world = Some (Some pc, pw)"
    by (rule example_create)
  have t: "RPC_METHOD_CLOSE = str ''close''" by (simp only: RPC_METHOD_CLOSE_def)
  obtain ps' pw' where l: "peer_signaling_loop example_sig (example_ps [RPC_METHOD_CLOSE], pc, pw) = Some (0, ps', peer_connection_close pc, pw')"
      "snd (mqtt_ctx ps') = [RPC_VERSION]"
    using example_texts example_methods
    by (simp add: peer_signaling_loop_def mqtt_process_loop_def mqtt_call_def example_ps_def peer_signaling_mqtt_event_cb_def
        peer_signaling_on_pub_event_def rpc_request_def rpc_method_def rpc_respond_def publish_json_def
        peer_signaling_mqtt_publish_def example_sig_def del: str_simps)
  have r: "(sig_call example_sig)\<^sup>*\<^sup>* (example_ps [str ''close''], pc, pw) (ps', peer_connection_close pc, pw')"
    using sig_loop [OF l(1)] unfolding t by (rule r_into_rtranclp)
  have e: "peer_connection_create (sig_peer example_sig) (config example_mem) (Some example_mem) example_world = Some (Some pc, pw)"
    using c by (simp add: example_sig_def)
  have i: "pc_state example_mem = PEER_CONNECTION_CLOSED" "events example_world = []"
    by (simp_all add: example_mem_def example_world_def)
  have m: "c_text (RPC_METHOD_OFFER @ [0]) = Some RPC_METHOD_OFFER" "json_parse example_sig RPC_METHOD_OFFER = Some RPC_METHOD_OFFER"
    "json_get example_sig RPC_METHOD_OFFER (str ''id'') = Some \<lparr>json_valueint = 7, json_valuestring = None\<rparr>"
    "json_get example_sig RPC_METHOD_OFFER (str ''method'') = Some \<lparr>json_valueint = 0, json_valuestring = Some RPC_METHOD_OFFER\<rparr>"
    "json_valuestring \<lparr>json_valueint = 0, json_valuestring = Some RPC_METHOD_OFFER\<rparr> = Some RPC_METHOD_OFFER"
    using example_texts example_methods by (simp_all add: example_sig_def del: str_simps)
  have cl: "pc_state (peer_connection_close pc) = PEER_CONNECTION_CLOSED" by (simp add: peer_connection_close_def)
  show ?thesis using signaling_states [OF e i r m, of 5] r l(2) cl by (intro exI [of _ pc] exI [of _ pw] exI conjI) auto
qed

text \<open>C15: What a message can do to the connection. If handling a published message changes the connection at all, the
  message is a request that names the method answer, or close, or offer in a state that accepts
  offers; every other message, well-formed or not, leaves it as it was.\<close>

theorem only_three_methods_act:
  assumes "peer_signaling_on_pub_event env msg n sx = Some sy" and "fst (snd sy) \<noteq> fst (snd sx)"
  shows "\<exists>t req meth m. c_text msg = Some t \<and> json_parse env t = Some req \<and> json_get env req (str ''method'') = Some meth \<and>
    json_valuestring meth = Some m \<and>
    (m = RPC_METHOD_ANSWER \<or> m = RPC_METHOD_CLOSE \<or> m = RPC_METHOD_OFFER \<and> pc_state (fst (snd sx)) \<in> set offer_states)"
proof -
  obtain t i out sz where t: "c_text msg = Some t" "rpc_request env t sx = Some (i, out, sz)" "rpc_respond env i out sz = Some sy"
    using assms(1) by (auto simp: peer_signaling_on_pub_event_def Option.bind_eq_Some_conv)
  have "fst (snd sz) \<noteq> fst (snd sx)" using assms(2) carried_fst [OF respond_carried [OF t(3)]] by simp
  then obtain req meth m where r: "json_parse env t = Some req" "json_get env req (str ''method'') = Some meth"
      "json_valuestring meth = Some m" "rpc_method env (pc_state (fst (snd sx))) i m req sx = Some (out, sz)" "sz \<noteq> sx"
    using t(2) by (auto simp: rpc_request_def Option.bind_eq_Some_conv peer_connection_get_state_def Let_def split: option.splits)
  have "m = RPC_METHOD_ANSWER \<or> m = RPC_METHOD_CLOSE \<or> m = RPC_METHOD_OFFER \<and> pc_state (fst (snd sx)) \<in> set offer_states"
    using method_inert [OF r(4)] r(5) by metis
  then show ?thesis using t(1) r(1-3) by metis
qed

theorem only_three_methods_act_witness:
  "\<exists>t req meth m. c_text (RPC_METHOD_CLOSE @ [0]) = Some t \<and> json_parse example_sig t = Some req \<and>
    json_get example_sig req (str ''method'') = Some meth \<and> json_valuestring meth = Some m \<and>
    (m = RPC_METHOD_ANSWER \<or> m = RPC_METHOD_CLOSE \<or> m = RPC_METHOD_OFFER \<and>
      pc_state (fst (snd (example_ps [], example_mem\<lparr>pc_state := PEER_CONNECTION_COMPLETED\<rparr>, example_world))) \<in> set offer_states)"
proof -
  let ?pc = "example_mem\<lparr>pc_state := PEER_CONNECTION_COMPLETED\<rparr>"
  obtain ps' pw' where l: "peer_signaling_on_pub_event example_sig (RPC_METHOD_CLOSE @ [0]) 5 (example_ps [], ?pc, example_world) =
      Some (ps', peer_connection_close ?pc, pw')"
    using example_texts example_methods
    by (simp add: mqtt_call_def example_ps_def peer_signaling_on_pub_event_def rpc_request_def rpc_method_def rpc_respond_def
        publish_json_def peer_signaling_mqtt_publish_def example_sig_def del: str_simps)
  have "pc_state (peer_connection_close ?pc) \<noteq> pc_state ?pc" by (simp add: peer_connection_close_def)
  then show ?thesis using only_three_methods_act [OF l] by fastforce
qed

text \<open>C18: One message of the broker stops the client. A request that can be parsed and has an id, but no method or
  one that is not a string, makes \<open>peer_signaling_loop\<close> dereference a null pointer, whatever the state.\<close>

theorem request_without_method:
  assumes "mqtt_call env (mqtt_receive env) sx = Some (Some (MqttPublish msg n), sy)"
    and "c_text msg = Some t" and "json_parse env t = Some req" and "json_get env req (str ''id'') \<noteq> None"
    and "\<forall>m. json_get env req (str ''method'') = Some m \<longrightarrow> json_valuestring m = None"
  shows "peer_signaling_loop env sx = None"
proof -
  have "rpc_request env t sy = None"
    using assms(3-5) by (cases "json_get env req (str ''method'')") (auto simp: rpc_request_def)
  then show ?thesis
    using assms(1,2) by (simp add: peer_signaling_loop_def mqtt_process_loop_def peer_signaling_mqtt_event_cb_def peer_signaling_on_pub_event_def)
qed

theorem request_without_method_witness:
  "peer_signaling_loop example_sig (example_ps [[63]], example_mem, example_world) = None"
proof -
  have i: "str ''method'' \<noteq> str ''id''" by simp
  have c: "mqtt_call example_sig (mqtt_receive example_sig) (example_ps [[63]], example_mem, example_world) =
      Some (Some (MqttPublish ([63] @ [0]) 1), (example_ps [[63]])\<lparr>mqtt_ctx := ([], [])\<rparr>, example_mem, example_world)"
    by (simp add: mqtt_call_def example_sig_def example_ps_def example_world_def)
  have t: "c_text ([63] @ [0]) = Some [63]" by (rule example_message) (simp add: no_nul_def)
  show ?thesis
    by (rule request_without_method [OF c t]) (use i in \<open>simp_all add: example_sig_def del: str_simps\<close>)
qed

end
