(* ===== verification/Phone_Credentials.thy ===== *)
theory Phone_Credentials
  imports Checksum
begin

text \<open>
  The stored credentials of the telephone example (\<^verbatim>\<open>src/examples/ito-denwa/src/credentials.c\<close>): one record
  in the last sector of the flash memory, guarded by a CRC.

  \<^item> The sector is the list of its bytes. The functions of the SDK that change it are the record \<open>Flash\<close>; what
    their documentation says is the hypothesis \<open>flash_documented\<close>: erasing sets every byte to 255, and
    programming an erased page leaves the page that was given. \<open>rc\<close> is the answer
    of \<^verbatim>\<open>flash_safe_execute\<close>, which runs the callback if it is \<open>PICO_OK\<close>.
  \<^item> The machine is little-endian, and the struct is packed.
\<close>

section \<open>The record\<close>

definition CREDS_MAGIC :: u32 where "CREDS_MAGIC = 0xCA112024"
definition CREDS_VERSION :: u32 where "CREDS_VERSION = 3"
definition CREDS_SSID_MAX :: nat where "CREDS_SSID_MAX = 32"
definition CREDS_PASS_MAX :: nat where "CREDS_PASS_MAX = 64"
definition CREDS_DEVICE_ID_MAX :: nat where "CREDS_DEVICE_ID_MAX = 64"
definition FLASH_PAGE_SIZE :: nat where "FLASH_PAGE_SIZE = 256"
definition FLASH_SECTOR_SIZE :: nat where "FLASH_SECTOR_SIZE = 4096"
definition PICO_OK :: int where "PICO_OK = 0"

lemmas creds_sizes = CREDS_SSID_MAX_def CREDS_PASS_MAX_def CREDS_DEVICE_ID_MAX_def FLASH_PAGE_SIZE_def
  FLASH_SECTOR_SIZE_def

record wifi_creds_t =
  wc_ssid :: bytes
  wc_password :: bytes
  wc_device_id :: bytes
  wc_opus_enabled :: bool

record creds_record_t =
  cr_magic :: u32
  cr_version :: u32
  cr_ssid_len :: u8
  cr_pass_len :: u8
  cr_device_id_len :: u8
  cr_opus_enabled :: u8
  cr_ssid :: bytes
  cr_password :: bytes
  cr_device_id :: bytes
  cr_crc32 :: u32

text \<open>Where the fields lie; \<open>CREDS_RECORD\<close> is \<^verbatim>\<open>sizeof(creds_record_t)\<close>, \<open>CREDS_CRC\<close> the offset of \<open>crc32\<close>.\<close>

definition CREDS_CRC :: nat where "CREDS_CRC = 172"
definition CREDS_RECORD :: nat where "CREDS_RECORD = 176"

definition record_head :: "creds_record_t \<Rightarrow> bytes" where
  "record_head r = le32 (cr_magic r) @ le32 (cr_version r) @
     [cr_ssid_len r, cr_pass_len r, cr_device_id_len r, cr_opus_enabled r] @
     cr_ssid r @ cr_password r @ cr_device_id r"

definition record_bytes :: "creds_record_t \<Rightarrow> bytes" where
  "record_bytes r = record_head r @ le32 (cr_crc32 r)"

definition le32_val :: "bytes \<Rightarrow> u32" where "le32_val bs = of_be32 (rev bs)"

definition record_of :: "bytes \<Rightarrow> creds_record_t" where
  "record_of b = \<lparr>cr_magic = le32_val (take 4 b), cr_version = le32_val (take 4 (drop 4 b)),
     cr_ssid_len = b ! 8, cr_pass_len = b ! 9, cr_device_id_len = b ! 10, cr_opus_enabled = b ! 11,
     cr_ssid = take CREDS_SSID_MAX (drop 12 b), cr_password = take CREDS_PASS_MAX (drop 44 b),
     cr_device_id = take CREDS_DEVICE_ID_MAX (drop 108 b), cr_crc32 = le32_val (take 4 (drop CREDS_CRC b))\<rparr>"

section \<open>The CRC\<close>

fun crc32_bits :: "nat \<Rightarrow> u32 \<Rightarrow> u32" where
  "crc32_bits 0 c = c"
| "crc32_bits (Suc j) c = crc32_bits j (drop_bit 1 c XOR (0xEDB88320 AND - (c AND 1)))"

definition creds_crc32 :: "bytes \<Rightarrow> u32" where
  "creds_crc32 dat = NOT (foldl (\<lambda>c b. crc32_bits 8 (c XOR ucast b)) 0xFFFFFFFF dat)"

definition record_crc :: "creds_record_t \<Rightarrow> u32" where
  "record_crc r = creds_crc32 (take CREDS_CRC (record_bytes r))"

section \<open>Loading, saving, erasing\<close>

text \<open>\<open>memset\<close> to zero, \<open>memcpy\<close> of \<open>len\<close> bytes and the NUL; the lengths have been checked.\<close>

definition creds_field :: "nat \<Rightarrow> bytes \<Rightarrow> u8 \<Rightarrow> bytes option" where
  "creds_field cap src len = do {
     x \<leftarrow> mem_read 0 (unat len) src;
     dst \<leftarrow> mem_write 0 x (replicate (cap + 1) 0);
     mem_write (unat len) [0] dst
   }"

text \<open>\<open>out\<close> is \<^const>\<open>None\<close> for a null pointer.\<close>

definition creds_load :: "bytes \<Rightarrow> wifi_creds_t option \<Rightarrow> (int \<times> wifi_creds_t option) option" where
  "creds_load sector out = (case out of None \<Rightarrow> Some (-1, None) | Some _ \<Rightarrow> do {
     x \<leftarrow> mem_read 0 CREDS_RECORD sector;
     let r = record_of x;
     if cr_magic r \<noteq> CREDS_MAGIC then Some (-1, out)
     else if cr_version r \<noteq> CREDS_VERSION then Some (-1, out)
     else if CREDS_SSID_MAX < unat (cr_ssid_len r) \<or> CREDS_PASS_MAX < unat (cr_pass_len r) \<or>
       CREDS_DEVICE_ID_MAX < unat (cr_device_id_len r) then Some (-1, out)
     else if record_crc r \<noteq> cr_crc32 r then Some (-1, out)
     else do {
       ssid \<leftarrow> creds_field CREDS_SSID_MAX (cr_ssid r) (cr_ssid_len r);
       password \<leftarrow> creds_field CREDS_PASS_MAX (cr_password r) (cr_pass_len r);
       device_id \<leftarrow> creds_field CREDS_DEVICE_ID_MAX (cr_device_id r) (cr_device_id_len r);
       Some (0, Some \<lparr>wc_ssid = ssid, wc_password = password, wc_device_id = device_id,
         wc_opus_enabled = (cr_opus_enabled r \<noteq> 0)\<rparr>)
     }
   })"

definition strnlen :: "bytes \<Rightarrow> nat \<Rightarrow> nat option" where
  "strnlen s n = (let k = length (takeWhile (\<lambda>b. b \<noteq> 0) (take n s)) in
     if k < length (take n s) \<or> n \<le> length s then Some k else None)"

record Flash =
  range_erase :: "bytes \<Rightarrow> bytes"
  range_program :: "bytes \<Rightarrow> bytes \<Rightarrow> bytes"

definition flash_documented :: "Flash \<Rightarrow> bool" where
  "flash_documented fl \<longleftrightarrow> (\<forall>sector. range_erase fl sector = replicate FLASH_SECTOR_SIZE 255) \<and>
     (\<forall>page. length page = FLASH_PAGE_SIZE \<longrightarrow> range_program fl page (replicate FLASH_SECTOR_SIZE 255) =
        page @ replicate (FLASH_SECTOR_SIZE - FLASH_PAGE_SIZE) 255)"

definition save_flash_cb :: "Flash \<Rightarrow> bytes \<Rightarrow> bytes \<Rightarrow> int \<times> bytes" where
  "save_flash_cb fl page sector = (0, range_program fl page (range_erase fl sector))"

text \<open>Copying into a zeroed array of the record.\<close>

definition record_field :: "nat \<Rightarrow> bytes \<Rightarrow> nat \<Rightarrow> bytes option" where
  "record_field cap src len = do { x \<leftarrow> mem_read 0 len src; mem_write 0 x (replicate cap 0) }"

definition creds_save :: "Flash \<Rightarrow> int \<Rightarrow> wifi_creds_t option \<Rightarrow> bytes \<Rightarrow> (int \<times> bytes) option" where
  "creds_save fl rc inp sector = (case inp of None \<Rightarrow> Some (-1, sector) | Some w \<Rightarrow> do {
     slen \<leftarrow> strnlen (wc_ssid w) CREDS_SSID_MAX;
     plen \<leftarrow> strnlen (wc_password w) CREDS_PASS_MAX;
     dlen \<leftarrow> strnlen (wc_device_id w) CREDS_DEVICE_ID_MAX;
     if slen = 0 then Some (-1, sector)
     else do {
       ssid \<leftarrow> record_field CREDS_SSID_MAX (wc_ssid w) slen;
       password \<leftarrow> record_field CREDS_PASS_MAX (wc_password w) plen;
       device_id \<leftarrow> record_field CREDS_DEVICE_ID_MAX (wc_device_id w) dlen;
       let r = \<lparr>cr_magic = CREDS_MAGIC, cr_version = CREDS_VERSION, cr_ssid_len = of_nat slen,
         cr_pass_len = of_nat plen, cr_device_id_len = of_nat dlen, cr_opus_enabled = (if wc_opus_enabled w then 1 else 0),
         cr_ssid = ssid, cr_password = password, cr_device_id = device_id, cr_crc32 = 0\<rparr>;
       let r = r\<lparr>cr_crc32 := record_crc r\<rparr>;
       page \<leftarrow> mem_write 0 (record_bytes r) (replicate FLASH_PAGE_SIZE 255);
       if rc \<noteq> PICO_OK then Some (-1, sector)
       else Some (save_flash_cb fl page sector)
     }
   })"

definition creds_erase :: "Flash \<Rightarrow> int \<Rightarrow> bytes \<Rightarrow> int \<times> bytes" where
  "creds_erase fl rc sector = (if rc \<noteq> PICO_OK then (-1, sector) else (0, range_erase fl sector))"

section \<open>The record in the sector\<close>

definition wf_record :: "creds_record_t \<Rightarrow> bool" where
  "wf_record r \<longleftrightarrow> length (cr_ssid r) = CREDS_SSID_MAX \<and> length (cr_password r) = CREDS_PASS_MAX \<and>
     length (cr_device_id r) = CREDS_DEVICE_ID_MAX"

lemma length_record: "wf_record r \<Longrightarrow> length (record_head r) = CREDS_CRC \<and> length (record_bytes r) = CREDS_RECORD"
  by (simp add: wf_record_def record_head_def record_bytes_def CREDS_CRC_def CREDS_RECORD_def creds_sizes)

lemma le32_val_le32 [simp]: "le32_val (le32 w) = w"
  by (simp add: le32_val_def le32_def)

lemma record_of_bytes:
  assumes "wf_record r"
  shows "record_of (record_bytes r) = r"
proof -
  have l: "length (le32 (cr_magic r)) = 4" "length (le32 (cr_version r)) = 4" "length (cr_ssid r) = 32"
    "length (cr_password r) = 64" "length (cr_device_id r) = 64"
    using assms by (simp_all add: wf_record_def creds_sizes)
  show ?thesis
    by (rule creds_record_t.equality)
      (simp_all add: record_of_def record_bytes_def record_head_def creds_sizes CREDS_CRC_def l nth_append)
qed

lemma le32_of_le32: "length b = 4 \<Longrightarrow> le32 (le32_val b) = b"
proof -
  assume "length b = 4"
  then obtain p q r s where "b = [p, q, r, s]" by (auto simp: length_Suc_conv numeral_eq_Suc)
  then show ?thesis using be32_of_be32 [of s r q p] by (simp add: le32_def le32_val_def)
qed

lemma next_part: "k = m + n \<Longrightarrow> take n (drop m b) @ drop k b = drop m b"
  by (metis add.commute append_take_drop_id drop_drop)

lemma record_bytes_of:
  assumes "length b = CREDS_RECORD"
  shows "record_bytes (record_of b) = b" "wf_record (record_of b)"
proof -
  have l: "length b = 176" using assms by (simp add: CREDS_RECORD_def)
  have four: "[b ! 8, b ! 9, b ! 10, b ! 11] = take 4 (drop 8 b)"
    by (rule nth_equalityI) (auto simp: l less_Suc_eq numeral_eq_Suc)
  have "record_bytes (record_of b) = take 4 b @ take 4 (drop 4 b) @ take 4 (drop 8 b) @ take 32 (drop 12 b) @
      take 64 (drop 44 b) @ take 64 (drop 108 b) @ take 4 (drop 172 b)"
    by (simp add: record_bytes_def record_head_def record_of_def le32_of_le32 l creds_sizes CREDS_CRC_def flip: four)
  also have "\<dots> = take 4 b @ drop 4 b"
    by (simp add: l next_part)
  finally show "record_bytes (record_of b) = b" by simp
  show "wf_record (record_of b)" by (simp add: wf_record_def record_of_def l creds_sizes)
qed

section \<open>The same CRC as in STUN\<close>

lemma crc32_bits_crc_bit: "crc32_bits n c = (crc_bit 0xEDB88320 ^^ n) c"
proof (induction n arbitrary: c)
  case (Suc n)
  have "drop_bit 1 c XOR (0xEDB88320 AND - (c AND 1)) = crc_bit 0xEDB88320 c"
  proof (cases "bit c 0")
    case True
    then have "c AND 1 = 1" by (simp add: and_one_eq bit_0 odd_iff_mod_2_eq_one)
    then show ?thesis using True by (simp add: crc_bit_def)
  next
    case False
    then have "c AND 1 = 0" by (simp add: and_one_eq bit_0 even_iff_mod_2_eq_zero)
    then show ?thesis using False by (simp add: crc_bit_def)
  qed
  then show ?case using Suc.IH by (simp add: funpow_swap1)
qed simp

lemma creds_crc32_bitwise: "creds_crc32 dat = NOT (crc_bitwise 0xEDB88320 0xFFFFFFFF dat)"
  by (simp add: creds_crc32_def crc_bitwise_def crc_byte_def [abs_def] crc32_bits_crc_bit del: crc32_bits.simps)

text \<open>Different states stay different, so one damaged byte is always seen.\<close>

lemma crc_one_byte:
  assumes "creds_crc32 (p @ a # q) = creds_crc32 (p @ b # q)"
  shows "a = b"
proof (rule crc_bitwise_byte)
  show "bit (0xEDB88320 :: u32) 31" by simp
  show "crc_bitwise 0xEDB88320 0xFFFFFFFF (p @ a # q) = crc_bitwise 0xEDB88320 0xFFFFFFFF (p @ b # q)"
    using assms by (simp add: creds_crc32_bitwise)
qed

section \<open>What a load tells\<close>

lemma creds_load_crc:
  assumes "creds_load sector (Some out) = Some (r, w)" "r \<noteq> -1"
  shows "CREDS_RECORD \<le> length sector"
    "creds_crc32 (take CREDS_CRC sector) = le32_val (take 4 (drop CREDS_CRC sector))"
proof -
  let ?x = "take CREDS_RECORD sector"
  have l: "CREDS_RECORD \<le> length sector"
    and c: "record_crc (record_of ?x) = cr_crc32 (record_of ?x)"
    using assms by (auto simp: creds_load_def Let_def Option.bind_eq_Some_conv mem_read_Some split: if_splits)
  show "CREDS_RECORD \<le> length sector" by (rule l)
  have "record_bytes (record_of ?x) = ?x" using l by (intro record_bytes_of) simp
  then show "creds_crc32 (take CREDS_CRC sector) = le32_val (take 4 (drop CREDS_CRC sector))"
    using c by (simp add: record_crc_def record_of_def CREDS_CRC_def CREDS_RECORD_def drop_take)
qed

lemma damaged_crc:
  assumes "CREDS_RECORD \<le> length s" "i < CREDS_RECORD" "x \<noteq> s ! i"
    "creds_crc32 (take CREDS_CRC s) = le32_val (take 4 (drop CREDS_CRC s))"
  shows "creds_crc32 (take CREDS_CRC (s[i := x])) \<noteq> le32_val (take 4 (drop CREDS_CRC (s[i := x])))"
proof (cases "i < CREDS_CRC")
  case True
  let ?t = "take CREDS_CRC s"
  have l: "i < length ?t" using True assms(1) by (simp add: CREDS_CRC_def CREDS_RECORD_def)
  have t: "take CREDS_CRC (s[i := x]) = take i ?t @ x # drop (Suc i) ?t"
    using l upd_conv_take_nth_drop [of i ?t x] by (simp add: take_update_swap)
  have "?t = take i ?t @ s ! i # drop (Suc i) ?t" using id_take_nth_drop [OF l] True by simp
  then have "creds_crc32 (take CREDS_CRC (s[i := x])) \<noteq> creds_crc32 ?t"
    unfolding t using crc_one_byte assms(3) by metis
  then show ?thesis using True assms(4) by simp
next
  case False
  let ?u = "take 4 (drop CREDS_CRC s)"
  have l: "length ?u = 4" using assms(1) by (simp add: CREDS_CRC_def CREDS_RECORD_def)
  have i: "i - CREDS_CRC < 4" using assms(2) False by (simp add: CREDS_CRC_def CREDS_RECORD_def)
  have u: "take 4 (drop CREDS_CRC (s[i := x])) = ?u[i - CREDS_CRC := x]"
    using False i by (simp add: drop_update_swap take_update_swap)
  have "?u[i - CREDS_CRC := x] ! (i - CREDS_CRC) \<noteq> ?u ! (i - CREDS_CRC)"
    using i l False assms(3) by simp
  then have "?u[i - CREDS_CRC := x] \<noteq> ?u" by metis
  then have "le32_val (?u[i - CREDS_CRC := x]) \<noteq> le32_val ?u" using le32_of_le32 l by (metis length_list_update)
  then show ?thesis unfolding u using False assms(4) by simp
qed

lemma creds_field_ok:
  assumes "unat len \<le> cap" "cap \<le> length src"
  shows "creds_field cap src len = Some (take (unat len) src @ replicate (cap + 1 - unat len) 0)"
proof -
  have "replicate (cap + 1 - unat len) (0 :: u8) = 0 # replicate (cap - unat len) 0"
    using assms(1) by (simp add: Suc_diff_le)
  then show ?thesis using assms by (simp add: creds_field_def mem_read_def mem_write_def)
qed

lemma creds_load_total: "CREDS_RECORD \<le> length sector \<Longrightarrow>
    \<exists>w. creds_load sector (Some out) = Some (-1, Some out) \<or> creds_load sector (Some out) = Some (0, Some w)"
proof -
  assume l: "CREDS_RECORD \<le> length sector"
  let ?r = "record_of (take CREDS_RECORD sector)"
  have "wf_record ?r" using l by (intro record_bytes_of) simp
  then show ?thesis
    using l by (auto simp: creds_load_def mem_read_def Let_def wf_record_def creds_field_ok not_less)
qed

text \<open>C35: A stored record that loads does not load any more once a byte of it has been damaged, whichever byte it
  is and whatever it becomes; the caller keeps the credentials it had.\<close>

theorem damaged_record_refused:
  assumes "creds_load sector (Some out) = Some (0, w)" and "i < CREDS_RECORD" and "x \<noteq> sector ! i"
  shows "creds_load (sector[i := x]) (Some out) = Some (-1, Some out)"
proof -
  note c = creds_load_crc [OF assms(1)]
  have "\<not> creds_load (sector[i := x]) (Some out) = Some (0, Some w')" for w'
    using creds_load_crc(2) [of "sector[i := x]" out 0] damaged_crc [OF _ assms(2,3)] c by fastforce
  then show ?thesis using creds_load_total [of "sector[i := x]" out] c(1) by auto
qed

section \<open>What is saved is loaded\<close>

lemma text_field:
  assumes "c_text a = Some t" "length a = cap + 1" "cap < 256"
  shows "strnlen a cap = Some (length t)" "length t \<le> cap" "no_nul t"
    "record_field cap a (length t) = Some (t @ replicate (cap - length t) 0)"
    "creds_field cap (t @ replicate (cap - length t) 0) (of_nat (length t)) = Some (t @ replicate (cap + 1 - length t) 0)"
proof -
  let ?t = "takeWhile (\<lambda>b. b \<noteq> 0) a"
  have n: "length ?t < length a" "t = take (length ?t) a"
    using assms(1) by (auto simp: c_text_def c_strlen_def Let_def split: if_splits)
  have t: "t = ?t" unfolding n(2) using takeWhile_eq_take by metis
  show l: "length t \<le> cap" using n(1) assms(2) t by simp
  have tk: "take (length t) a = t" using n(2) t by simp
  show nn: "no_nul t" unfolding t no_nul_def by (auto dest: set_takeWhileD)
  let ?d = "dropWhile (\<lambda>b. b \<noteq> 0) a"
  have td: "a = t @ ?d" unfolding t by simp
  then have "?d \<noteq> []" using n(1) t by (metis append_Nil2 less_irrefl)
  moreover from this have "hd ?d = 0" using hd_dropWhile by blast
  ultimately obtain r where a: "a = t @ 0 # r" using td by (metis list.exhaust_sel)
  have "takeWhile (\<lambda>b. b \<noteq> 0) (take cap a) = t"
    using nn by (cases "cap - length t") (simp_all add: a l)
  then show "strnlen a cap = Some (length t)" using assms(2) by (simp add: strnlen_def Let_def)
  show "record_field cap a (length t) = Some (t @ replicate (cap - length t) 0)"
    using l tk assms(2) by (simp add: record_field_def mem_read_def mem_write_def)
  show "creds_field cap (t @ replicate (cap - length t) 0) (of_nat (length t)) = Some (t @ replicate (cap + 1 - length t) 0)"
    using l assms(3) by (subst creds_field_ok) (simp_all add: unat_of_nat)
qed

lemma saved_text: "no_nul t \<Longrightarrow> length t \<le> cap \<Longrightarrow> c_text (t @ replicate (Suc cap - length t) 0) = Some t"
  by (simp add: Suc_diff_le c_text_terminated)

text \<open>The record \<open>creds_save\<close> builds.\<close>

definition saved_record :: "bytes \<Rightarrow> bytes \<Rightarrow> bytes \<Rightarrow> bool \<Rightarrow> creds_record_t" where
  "saved_record s p d opus = (
     let r = \<lparr>cr_magic = CREDS_MAGIC, cr_version = CREDS_VERSION, cr_ssid_len = of_nat (length s),
       cr_pass_len = of_nat (length p), cr_device_id_len = of_nat (length d), cr_opus_enabled = (if opus then 1 else 0),
       cr_ssid = s @ replicate (CREDS_SSID_MAX - length s) 0, cr_password = p @ replicate (CREDS_PASS_MAX - length p) 0,
       cr_device_id = d @ replicate (CREDS_DEVICE_ID_MAX - length d) 0, cr_crc32 = 0\<rparr>
     in r\<lparr>cr_crc32 := record_crc r\<rparr>)"

lemma record_crc_own: "wf_record r \<Longrightarrow> record_crc (r\<lparr>cr_crc32 := c\<rparr>) = record_crc r"
proof -
  assume "wf_record r"
  then have l: "length (record_head r) = CREDS_CRC" by (simp add: length_record)
  have h: "record_head (r\<lparr>cr_crc32 := c\<rparr>) = record_head r" by (simp add: record_head_def)
  show ?thesis by (simp add: record_crc_def record_bytes_def h flip: l)
qed

definition creds_ok :: "wifi_creds_t \<Rightarrow> bytes \<Rightarrow> bytes \<Rightarrow> bytes \<Rightarrow> bool" where
  "creds_ok w s p d \<longleftrightarrow> length (wc_ssid w) = CREDS_SSID_MAX + 1 \<and> length (wc_password w) = CREDS_PASS_MAX + 1 \<and>
     length (wc_device_id w) = CREDS_DEVICE_ID_MAX + 1 \<and>
     c_text (wc_ssid w) = Some s \<and> c_text (wc_password w) = Some p \<and> c_text (wc_device_id w) = Some d"

lemma creds_save_record:
  assumes "creds_ok w s p d" "s \<noteq> []" "flash_documented fl"
  shows "\<exists>rest. creds_save fl PICO_OK (Some w) sector = Some (0, record_bytes (saved_record s p d (wc_opus_enabled w)) @ rest)"
    "wf_record (saved_record s p d (wc_opus_enabled w))"
proof -
  note f = text_field [of "wc_ssid w" s CREDS_SSID_MAX] text_field [of "wc_password w" p CREDS_PASS_MAX]
    text_field [of "wc_device_id w" d CREDS_DEVICE_ID_MAX]
  have c: "c_text (wc_ssid w) = Some s" "length (wc_ssid w) = CREDS_SSID_MAX + 1" "CREDS_SSID_MAX < 256"
    "c_text (wc_password w) = Some p" "length (wc_password w) = CREDS_PASS_MAX + 1" "CREDS_PASS_MAX < 256"
    "c_text (wc_device_id w) = Some d" "length (wc_device_id w) = CREDS_DEVICE_ID_MAX + 1" "CREDS_DEVICE_ID_MAX < 256"
    using assms(1) by (simp_all add: creds_ok_def creds_sizes)
  note f = f(1-5) [OF c(1-3)] f(6-10) [OF c(4-6)] f(11-15) [OF c(7-9)]
  show wf: "wf_record (saved_record s p d (wc_opus_enabled w))"
    using f(2,7,12) by (simp add: wf_record_def saved_record_def Let_def)
  have n: "length (record_bytes (saved_record s p d (wc_opus_enabled w))) \<le> 256"
    using length_record [OF wf] by (simp add: CREDS_RECORD_def)
  have "\<exists>page. mem_write 0 (record_bytes (saved_record s p d (wc_opus_enabled w))) (replicate FLASH_PAGE_SIZE 255) =
      Some (record_bytes (saved_record s p d (wc_opus_enabled w)) @ page) \<and>
      length (record_bytes (saved_record s p d (wc_opus_enabled w)) @ page) = FLASH_PAGE_SIZE"
    using n by (auto simp: mem_write_def FLASH_PAGE_SIZE_def)
  then show "\<exists>rest. creds_save fl PICO_OK (Some w) sector = Some (0, record_bytes (saved_record s p d (wc_opus_enabled w)) @ rest)"
    using assms(2,3) f by (auto simp: creds_save_def Let_def save_flash_cb_def flash_documented_def saved_record_def)
qed

lemma erased_load: "creds_load (replicate FLASH_SECTOR_SIZE 255) (Some out) = Some (-1, Some out)"
proof -
  have "replicate 4 (255 :: u8) = [255, 255, 255, 255]" by (rule nth_equalityI) (auto simp: less_Suc_eq numeral_eq_Suc)
  then have "le32_val (replicate 4 255) = 0xFFFFFFFF" by (simp add: le32_val_def)
  then have "cr_magic (record_of (replicate CREDS_RECORD 255)) \<noteq> CREDS_MAGIC"
    by (simp add: record_of_def CREDS_MAGIC_def CREDS_RECORD_def)
  then show ?thesis by (simp add: creds_load_def mem_read_def FLASH_SECTOR_SIZE_def CREDS_RECORD_def Let_def)
qed

lemma saved_loads:
  assumes "creds_ok w s p d" and "s \<noteq> []" and "flash_documented fl"
  shows "\<exists>sector' w'. creds_save fl PICO_OK (Some w) sector = Some (0, sector') \<and>
    creds_load sector' (Some out) = Some (0, Some w') \<and> creds_ok w' s p d \<and> wc_opus_enabled w' = wc_opus_enabled w \<and>
    creds_load (snd (creds_erase fl PICO_OK sector')) (Some out) = Some (-1, Some out)"
proof -
  let ?r = "saved_record s p d (wc_opus_enabled w)"
  obtain rest where sv: "creds_save fl PICO_OK (Some w) sector = Some (0, record_bytes ?r @ rest)"
    using creds_save_record(1) [OF assms] by blast
  have wf: "wf_record ?r" by (rule creds_save_record(2) [OF assms])
  have c: "c_text (wc_ssid w) = Some s" "length (wc_ssid w) = CREDS_SSID_MAX + 1" "CREDS_SSID_MAX < 256"
    "c_text (wc_password w) = Some p" "length (wc_password w) = CREDS_PASS_MAX + 1" "CREDS_PASS_MAX < 256"
    "c_text (wc_device_id w) = Some d" "length (wc_device_id w) = CREDS_DEVICE_ID_MAX + 1" "CREDS_DEVICE_ID_MAX < 256"
    using assms(1) by (simp_all add: creds_ok_def creds_sizes)
  note f = text_field [OF c(1-3)] text_field [OF c(4-6)] text_field [OF c(7-9)]
  let ?w = "\<lparr>wc_ssid = s @ replicate (CREDS_SSID_MAX + 1 - length s) 0,
    wc_password = p @ replicate (CREDS_PASS_MAX + 1 - length p) 0,
    wc_device_id = d @ replicate (CREDS_DEVICE_ID_MAX + 1 - length d) 0, wc_opus_enabled = wc_opus_enabled w\<rparr>"
  have rd: "mem_read 0 CREDS_RECORD (record_bytes ?r @ rest) = Some (record_bytes ?r)"
    using length_record [OF wf] by (simp add: mem_read_def)
  have lens: "unat (of_nat (length s) :: u8) = length s" "unat (of_nat (length p) :: u8) = length p"
    "unat (of_nat (length d) :: u8) = length d"
    using f(2,7,12) by (simp_all add: unat_of_nat creds_sizes)
  have crc: "record_crc ?r = cr_crc32 ?r"
    using record_crc_own [of "?r\<lparr>cr_crc32 := 0\<rparr>"] wf by (simp add: saved_record_def Let_def wf_record_def)
  have ld: "creds_load (record_bytes ?r @ rest) (Some out) = Some (0, Some ?w)"
    using f(2,5,7,10,12,15) lens crc
    by (simp add: creds_load_def rd record_of_bytes [OF wf] Let_def) (simp add: saved_record_def Let_def)
  have "creds_ok ?w s p d"
    using f(2,3,7,8,12,13) by (simp add: creds_ok_def saved_text)
  moreover have "creds_load (snd (creds_erase fl PICO_OK (record_bytes ?r @ rest))) (Some out) = Some (-1, Some out)"
    using assms(3) by (simp add: creds_erase_def PICO_OK_def flash_documented_def erased_load)
  ultimately show ?thesis using sv ld by auto
qed

text \<open>C34: The credentials that were saved are loaded again, after any number of power cycles, and an erased sector
  has none.\<close>

theorem credentials_roundtrip:
  assumes "creds_ok w s p d" and "s \<noteq> []" and "flash_documented fl"
  shows "\<exists>sector' w'. creds_save fl PICO_OK (Some w) sector = Some (0, sector') \<and>
    creds_load sector' (Some out) = Some (0, Some w') \<and> creds_ok w' s p d \<and> wc_opus_enabled w' = wc_opus_enabled w \<and>
    creds_load (snd (creds_erase fl PICO_OK sector')) (Some out) = Some (-1, Some out)"
  by (rule saved_loads [OF assms])

definition example_creds :: wifi_creds_t where
  "example_creds = \<lparr>wc_ssid = [104, 105] @ replicate 31 0, wc_password = [1] @ replicate 64 0,
     wc_device_id = [7, 8, 9] @ replicate 62 0, wc_opus_enabled = True\<rparr>"

lemma example_creds_ok: "creds_ok example_creds [104, 105] [1] [7, 8, 9]"
proof -
  have "replicate 31 (0 :: u8) = 0 # replicate 30 0" "replicate 64 (0 :: u8) = 0 # replicate 63 0"
    "replicate 62 (0 :: u8) = 0 # replicate 61 0" by (simp_all flip: replicate_Suc)
  then show ?thesis by (simp add: creds_ok_def example_creds_def creds_sizes c_text_def c_strlen_def)
qed

definition nor_flash :: Flash where
  "nor_flash = \<lparr>range_erase = (\<lambda>_. replicate FLASH_SECTOR_SIZE 255),
     range_program = (\<lambda>page sector. map2 (AND) page (take (length page) sector) @ drop (length page) sector)\<rparr>"

lemma nor_flash_documented: "flash_documented nor_flash"
proof -
  have "(255 :: u8) = - 1" by simp
  then have one: "x AND 255 = x" for x :: u8 by (simp only: and.right_neutral)
  have m: "map2 (AND) page (replicate n 255) = page" if "length page = n" for n and page :: bytes
    using that by (intro nth_equalityI) (auto simp: one)
  show ?thesis by (simp add: flash_documented_def nor_flash_def FLASH_SECTOR_SIZE_def FLASH_PAGE_SIZE_def m)
qed

lemma credentials_roundtrip_witness:
  "\<exists>sector' w'. creds_save nor_flash PICO_OK (Some example_creds) (replicate 4096 0) = Some (0, sector') \<and>
    creds_load sector' (Some example_creds) = Some (0, Some w') \<and> creds_ok w' [104, 105] [1] [7, 8, 9] \<and> wc_opus_enabled w'"
  using credentials_roundtrip [OF example_creds_ok _ nor_flash_documented, of "replicate 4096 0" example_creds] by (auto simp: example_creds_def)

lemma damaged_record_refused_witness:
  "\<exists>sector w. creds_load sector (Some example_creds) = Some (0, w) \<and>
     creds_load (sector[13 := 255 - sector ! 13]) (Some example_creds) = Some (-1, Some example_creds)"
proof -
  obtain sector w where l: "creds_load sector (Some example_creds) = Some (0, w)"
    using saved_loads [OF example_creds_ok _ nor_flash_documented, of "[]" example_creds] by auto
  have "255 - x \<noteq> x" for x :: u8
  proof
    assume "255 - x = x"
    then have "x + x = 255" by (metis diff_add_cancel)
    then have "bit (x + x) 0 = bit (255 :: u8) 0" by simp
    then show False by (simp add: bit_0 flip: mult_2)
  qed
  then show ?thesis using damaged_record_refused [OF l, of 13] l by (auto simp: CREDS_RECORD_def)
qed

end
