(* ===== verification/Phone_Ring.thy ===== *)
theory Phone_Ring
  imports Peer_Prelude
begin

text \<open>
  The message bus between the two cores of the telephone example
  (\<^verbatim>\<open>src/examples/ito-denwa/src/ic_ring.c\<close>): one ring of bytes per direction, and the hardware FIFO of the
  microcontroller for the notifications.

  \<^item> The operations are those of one core; \<open>get_core_num\<close> is the argument \<open>c\<close>. The FIFO into which a core pushes
    is the list of what the other one has not taken, and \<open>depth\<close> is its size. Waiting for the other
    core has the value \<^const>\<open>None\<close>.
  \<^item> What two cores do at the same time is the step relation \<open>ic_step\<close>: every access to the shared ring is a step
    of its own, and the steps of the cores interleave in any order. The barriers of the code keep the
    accesses of one core in program order, which is what the steps assume.
\<close>

section \<open>The ring\<close>

definition IC_RING_SIZE :: nat where "IC_RING_SIZE = 32 * 1024"
definition IC_RING_MASK :: u32 where "IC_RING_MASK = 0x7FFF"
definition IC_HDR_BYTES :: nat where "IC_HDR_BYTES = 4"

definition IC_ALIGN :: "u32 \<Rightarrow> u32" where "IC_ALIGN n = (n + 3) AND NOT 3"

datatype ic_msg_t = IC_MSG_NONE | IC_MSG_NET_READY | IC_MSG_AUDIO_READY | IC_MSG_BTN_X | IC_MSG_BTN_Y
  | IC_MSG_TIMELINE_START | IC_MSG_TIMELINE_STOP | IC_MSG_TTS_REQUEST | IC_MSG_TTS_PLAYED | IC_MSG_RADIO_START
  | IC_MSG_RADIO_STOP | IC_MSG_LINEPHONE_OPUS_PKT | IC_MSG_LINEPHONE_POST_END | IC_MSG_LINEPHONE_START
  | IC_MSG_LINEPHONE_STOP | IC_MSG_LABS_READY | IC_MSG_TTS_PCM_CHUNK | IC_MSG_TTS_END | IC_MSG_TTS_OPUS_PKT

fun ic_code :: "ic_msg_t \<Rightarrow> u16" where
  "ic_code IC_MSG_NONE = 0"
| "ic_code IC_MSG_NET_READY = 0x10"
| "ic_code IC_MSG_AUDIO_READY = 0x11"
| "ic_code IC_MSG_BTN_X = 0x20"
| "ic_code IC_MSG_BTN_Y = 0x21"
| "ic_code IC_MSG_TIMELINE_START = 0x22"
| "ic_code IC_MSG_TIMELINE_STOP = 0x23"
| "ic_code IC_MSG_TTS_REQUEST = 0x24"
| "ic_code IC_MSG_TTS_PLAYED = 0x25"
| "ic_code IC_MSG_RADIO_START = 0x26"
| "ic_code IC_MSG_RADIO_STOP = 0x27"
| "ic_code IC_MSG_LINEPHONE_OPUS_PKT = 0x28"
| "ic_code IC_MSG_LINEPHONE_POST_END = 0x29"
| "ic_code IC_MSG_LINEPHONE_START = 0x2A"
| "ic_code IC_MSG_LINEPHONE_STOP = 0x2B"
| "ic_code IC_MSG_LABS_READY = 0x30"
| "ic_code IC_MSG_TTS_PCM_CHUNK = 0x31"
| "ic_code IC_MSG_TTS_END = 0x32"
| "ic_code IC_MSG_TTS_OPUS_PKT = 0x33"

record ic_ring_t =
  ring_buf :: bytes
  ring_head :: u32
  ring_tail :: u32

text \<open>\<open>g_rings\<close> by the core that writes into the ring: ring 0 is the one of core 0. A valid entry of
  \<open>g_peek_cache\<close> is \<^const>\<open>Some\<close>.\<close>

datatype core = Core0 | Core1

fun other :: "core \<Rightarrow> core" where
  "other Core0 = Core1"
| "other Core1 = Core0"

record Ic =
  g_rings :: "core \<Rightarrow> ic_ring_t"
  g_peek_cache :: "core \<Rightarrow> u32 option"
  fifos :: "core \<Rightarrow> u32 list"

definition prod_ring :: "core \<Rightarrow> core" where "prod_ring c = c"
definition cons_ring :: "core \<Rightarrow> core" where "cons_ring c = other c"

definition zero_ring :: ic_ring_t where
  "zero_ring = \<lparr>ring_buf = replicate IC_RING_SIZE 0, ring_head = 0, ring_tail = 0\<rparr>"

text \<open>\<open>inited\<close> is the static flag.\<close>

definition ic_init :: "bool \<Rightarrow> Ic \<Rightarrow> bool \<times> Ic" where
  "ic_init inited ic = (True, if inited then ic else ic\<lparr>g_rings := (\<lambda>_. zero_ring), g_peek_cache := (\<lambda>_. None)\<rparr>)"

definition ring_write :: "nat \<Rightarrow> bytes \<Rightarrow> nat \<Rightarrow> bytes \<Rightarrow> bytes option" where
  "ring_write off src n buf =
     (if n = 0 then Some buf
      else if off + n \<le> IC_RING_SIZE then do { x \<leftarrow> mem_read 0 n src; mem_write off x buf }
      else do {
        c_assert (off \<le> IC_RING_SIZE);
        let first = IC_RING_SIZE - off;
        x \<leftarrow> mem_read 0 first src;
        buf \<leftarrow> mem_write off x buf;
        y \<leftarrow> mem_read first (n - first) src;
        mem_write 0 y buf
      })"

definition ring_read :: "nat \<Rightarrow> nat \<Rightarrow> bytes \<Rightarrow> bytes option" where
  "ring_read off n buf =
     (if n = 0 then Some []
      else if off + n \<le> IC_RING_SIZE then mem_read off n buf
      else do {
        c_assert (off \<le> IC_RING_SIZE);
        let first = IC_RING_SIZE - off;
        x \<leftarrow> mem_read off first buf;
        y \<leftarrow> mem_read 0 (n - first) buf;
        Some (x @ y)
      })"

section \<open>The parts of a send and of a receive\<close>

definition le16 :: "u16 \<Rightarrow> bytes" where "le16 w = rev (be16 w)"
definition of_le16 :: "bytes \<Rightarrow> u16" where "of_le16 bs = of_be16 (rev bs)"

definition ic_need :: "u16 \<Rightarrow> u32" where
  "ic_need len = of_nat IC_HDR_BYTES + IC_ALIGN (ucast len)"

definition ic_header :: "u16 \<Rightarrow> u16 \<Rightarrow> bytes" where
  "ic_header ty len = le16 ty @ le16 len"

definition ring_free :: "ic_ring_t \<Rightarrow> u32" where
  "ring_free r = of_nat IC_RING_SIZE - (ring_head r - ring_tail r)"

definition ring_off :: "u32 \<Rightarrow> nat" where
  "ring_off p = unat (p AND IC_RING_MASK)"

definition put_header :: "u16 \<Rightarrow> u16 \<Rightarrow> ic_ring_t \<Rightarrow> ic_ring_t option" where
  "put_header ty len r = do {
     buf \<leftarrow> ring_write (ring_off (ring_head r)) (ic_header ty len) IC_HDR_BYTES (ring_buf r);
     Some (r\<lparr>ring_buf := buf\<rparr>)
   }"

definition put_payload :: "bytes \<Rightarrow> u16 \<Rightarrow> ic_ring_t \<Rightarrow> ic_ring_t option" where
  "put_payload payload len r = do {
     let off = of_nat (ring_off (ring_head r));
     buf \<leftarrow> ring_write (ring_off (off + of_nat IC_HDR_BYTES)) payload (unat len) (ring_buf r);
     Some (r\<lparr>ring_buf := buf\<rparr>)
   }"

definition publish :: "u16 \<Rightarrow> ic_ring_t \<Rightarrow> ic_ring_t" where
  "publish len r = r\<lparr>ring_head := ring_head r + ic_need len\<rparr>"

definition ic_entry :: "u16 \<Rightarrow> nat \<Rightarrow> u32" where
  "ic_entry ty off = push_bit 16 (ucast ty) OR (of_nat off AND 0xFFFF)"

definition entry_type :: "u32 \<Rightarrow> u16" where "entry_type e = ucast (drop_bit 16 e)"
definition entry_off :: "u32 \<Rightarrow> nat" where "entry_off e = unat (e AND 0xFFFF)"

definition get_header :: "u32 \<Rightarrow> ic_ring_t \<Rightarrow> (u16 \<times> u16) option" where
  "get_header e r = do {
     h \<leftarrow> ring_read (entry_off e) IC_HDR_BYTES (ring_buf r);
     Some (of_le16 (take 2 h), of_le16 (drop 2 h))
   }"

definition get_payload :: "u32 \<Rightarrow> nat \<Rightarrow> ic_ring_t \<Rightarrow> bytes option" where
  "get_payload e n r =
     ring_read (ring_off (of_nat (entry_off e) + of_nat IC_HDR_BYTES)) n (ring_buf r)"

definition release :: "u16 \<Rightarrow> ic_ring_t \<Rightarrow> ic_ring_t" where
  "release len r = r\<lparr>ring_tail := ring_tail r + ic_need len\<rparr>"

section \<open>The operations of a core\<close>

definition ic_send :: "nat \<Rightarrow> core \<Rightarrow> ic_msg_t \<Rightarrow> bytes \<Rightarrow> u16 \<Rightarrow> Ic \<Rightarrow> (int \<times> Ic) option" where
  "ic_send depth c ty payload len ic = (
     let k = prod_ring c; r = g_rings ic k in
     if of_nat IC_RING_SIZE < ic_need len then Some (-1, ic)
     else do {
       c_assert (ic_need len \<le> ring_free r);
       let off = ring_off (ring_head r);
       r \<leftarrow> put_header (ic_code ty) len r;
       r \<leftarrow> put_payload payload len r;
       let r = publish len r;
       c_assert (length (fifos ic c) < depth);
       Some (0, ic\<lparr>g_rings := (g_rings ic)(k := r),
                   fifos := (fifos ic)(c := fifos ic c @ [ic_entry (ic_code ty) off])\<rparr>)
     })"

definition ic_send_avail :: "nat \<Rightarrow> core \<Rightarrow> Ic \<Rightarrow> u32" where
  "ic_send_avail depth c ic =
     (if length (fifos ic c) < depth then ring_free (g_rings ic (prod_ring c)) else 0)"

text \<open>Taking an entry: from the cache, or from the FIFO.\<close>

definition fifo_pop :: "core \<Rightarrow> Ic \<Rightarrow> (u32 \<times> Ic) option" where
  "fifo_pop c ic = (case fifos ic (other c) of
     [] \<Rightarrow> None
   | e # es \<Rightarrow> Some (e, ic\<lparr>fifos := (fifos ic)(other c := es)\<rparr>))"

definition ic_peek_type :: "core \<Rightarrow> Ic \<Rightarrow> int \<times> u16 option \<times> Ic" where
  "ic_peek_type c ic = (case g_peek_cache ic c of
     Some e \<Rightarrow> (0, Some (entry_type e), ic)
   | None \<Rightarrow> (case fifo_pop c ic of
       None \<Rightarrow> (-1, None, ic)
     | Some (e, ic) \<Rightarrow> (0, Some (entry_type e), ic\<lparr>g_peek_cache := (g_peek_cache ic)(c := Some e)\<rparr>)))"

definition take_entry :: "core \<Rightarrow> Ic \<Rightarrow> (u32 \<times> Ic) option" where
  "take_entry c ic = (case g_peek_cache ic c of
     Some e \<Rightarrow> Some (e, ic\<lparr>g_peek_cache := (g_peek_cache ic)(c := None)\<rparr>)
   | None \<Rightarrow> fifo_pop c ic)"

text \<open>The result has the code, \<open>*out_type\<close> and \<open>*out_length\<close> where they are written, and the buffer
  \<open>payload_buf\<close> (\<^const>\<open>None\<close> for a null pointer).\<close>

definition ic_try_recv ::
  "core \<Rightarrow> bytes option \<Rightarrow> u16 \<Rightarrow> Ic \<Rightarrow> (int \<times> (u16 \<times> u16) option \<times> bytes option \<times> Ic) option" where
  "ic_try_recv c payload_buf max_len ic = (case take_entry c ic of
     None \<Rightarrow> Some (-1, None, payload_buf, ic)
   | Some (e, ic) \<Rightarrow> (
       let k = cons_ring c; r = g_rings ic k in do {
         (ty, len) \<leftarrow> get_header e r;
         if ty \<noteq> entry_type e then Some (-1, None, payload_buf, ic)
         else do {
           let n = unat (min len max_len);
           payload_buf \<leftarrow> (case payload_buf of
               None \<Rightarrow> Some None
             | Some b \<Rightarrow> if n = 0 then Some (Some b)
                 else do { x \<leftarrow> get_payload e n r; b \<leftarrow> mem_write 0 x b; Some (Some b) });
           Some (0, Some (ty, len), payload_buf, ic\<lparr>g_rings := (g_rings ic)(k := release len r)\<rparr>)
         }
       }))"

partial_function (option) ic_recv ::
  "core \<Rightarrow> bytes option \<Rightarrow> u16 \<Rightarrow> Ic \<Rightarrow> ((u16 \<times> u16) option \<times> bytes option \<times> Ic) option" where
  "ic_recv c payload_buf max_len ic = do {
     (ret, out, payload_buf, ic) \<leftarrow> ic_try_recv c payload_buf max_len ic;
     if ret = 0 then Some (out, payload_buf, ic) else ic_recv c payload_buf max_len ic
   }"

section \<open>Two cores at once\<close>

text \<open>Where a core is: between two calls, inside \<open>ic_send\<close>, or inside \<open>ic_try_recv\<close>. The locals of the
  call are the arguments; \<open>m\<close> is \<open>max_len\<close>.\<close>

datatype place = Idle
  | Waiting u16 bytes | Header u16 bytes | Payload u16 bytes | Publish u16 bytes | Notify u32
  | Popped u32 u16 | Opened u32 u16 u16 | Copied u32 u16 u16 bytes

text \<open>The whole: memory and FIFOs, the places, and for each direction the messages published and those
  received, with what the receiver asked for and got.\<close>

record ic_state =
  ic :: Ic
  at_place :: "core \<Rightarrow> place"
  sent :: "core \<Rightarrow> (u16 \<times> bytes) list"
  received :: "core \<Rightarrow> (u16 \<times> u16 \<times> u16 \<times> bytes) list"

abbreviation set_ring :: "core \<Rightarrow> ic_ring_t \<Rightarrow> Ic \<Rightarrow> Ic" where
  "set_ring k r x \<equiv> x\<lparr>g_rings := (g_rings x)(k := r)\<rparr>"

abbreviation goto :: "core \<Rightarrow> place \<Rightarrow> ic_state \<Rightarrow> ic_state" where
  "goto c p s \<equiv> s\<lparr>at_place := (at_place s)(c := p)\<rparr>"

definition too_long :: "bytes \<Rightarrow> bool" where
  "too_long d \<longleftrightarrow> 65536 \<le> length d \<or> of_nat IC_RING_SIZE < ic_need (of_nat (length d))"

inductive ic_step :: "nat \<Rightarrow> ic_state \<Rightarrow> ic_state \<Rightarrow> bool" for depth where
  call_send: "at_place s c = Idle \<Longrightarrow> \<not> too_long d \<Longrightarrow> ic_step depth s (goto c (Waiting ty d) s)"
| room: "at_place s c = Waiting ty d \<Longrightarrow> ic_need (of_nat (length d)) \<le> ring_free (g_rings (ic s) (prod_ring c)) \<Longrightarrow>
    ic_step depth s (goto c (Header ty d) s)"
| write_header: "at_place s c = Header ty d \<Longrightarrow>
    put_header ty (of_nat (length d)) (g_rings (ic s) (prod_ring c)) = Some r \<Longrightarrow>
    ic_step depth s (goto c (Payload ty d) (s\<lparr>ic := set_ring (prod_ring c) r (ic s)\<rparr>))"
| write_payload: "at_place s c = Payload ty d \<Longrightarrow>
    put_payload d (of_nat (length d)) (g_rings (ic s) (prod_ring c)) = Some r \<Longrightarrow>
    ic_step depth s (goto c (Publish ty d) (s\<lparr>ic := set_ring (prod_ring c) r (ic s)\<rparr>))"
| publish: "at_place s c = Publish ty d \<Longrightarrow> r = g_rings (ic s) (prod_ring c) \<Longrightarrow>
    ic_step depth s (goto c (Notify (ic_entry ty (ring_off (ring_head r))))
      (s\<lparr>ic := set_ring (prod_ring c) (publish (of_nat (length d)) r) (ic s), sent := (sent s)(c := sent s c @ [(ty, d)])\<rparr>))"
| notify: "at_place s c = Notify e \<Longrightarrow> length (fifos (ic s) c) < depth \<Longrightarrow>
    ic_step depth s (goto c Idle (s\<lparr>ic := (ic s)\<lparr>fifos := (fifos (ic s))(c := fifos (ic s) c @ [e])\<rparr>\<rparr>))"
| peek: "at_place s c = Idle \<Longrightarrow> ic_peek_type c (ic s) = (x, t, i) \<Longrightarrow> ic_step depth s (s\<lparr>ic := i\<rparr>)"
| call_recv: "at_place s c = Idle \<Longrightarrow> take_entry c (ic s) = Some (e, i) \<Longrightarrow>
    ic_step depth s (goto c (Popped e m) (s\<lparr>ic := i\<rparr>))"
| read_header: "at_place s c = Popped e m \<Longrightarrow> get_header e (g_rings (ic s) (cons_ring c)) = Some (ty, len) \<Longrightarrow>
    ic_step depth s (goto c (if ty = entry_type e then Opened e m len else Idle) s)"
| read_payload: "at_place s c = Opened e m len \<Longrightarrow>
    get_payload e (unat (min len m)) (g_rings (ic s) (cons_ring c)) = Some b \<Longrightarrow>
    ic_step depth s (goto c (Copied e m len b) s)"
| free_slot: "at_place s c = Copied e m len b \<Longrightarrow>
    ic_step depth s (goto c Idle
      (s\<lparr>ic := set_ring (cons_ring c) (release len (g_rings (ic s) (cons_ring c))) (ic s),
         received := (received s)(other c := received s (other c) @ [(entry_type e, m, len, b)])\<rparr>))"

definition ic_start :: "ic_state \<Rightarrow> bool" where
  "ic_start s \<longleftrightarrow> (\<forall>c. g_rings (ic s) c = zero_ring \<and> g_peek_cache (ic s) c = None \<and> fifos (ic s) c = [] \<and>
     at_place s c = Idle \<and> sent s c = [] \<and> received s c = [])"

section \<open>Reading and writing around the end\<close>

definition bytes_at :: "bytes \<Rightarrow> nat \<Rightarrow> nat \<Rightarrow> bytes" where
  "bytes_at b p n = map (\<lambda>i. b ! ((p + i) mod IC_RING_SIZE)) [0..<n]"

lemma ring_size [simp]: "0 < IC_RING_SIZE" "IC_RING_SIZE \<noteq> 0" "IC_RING_SIZE dvd 2 ^ 32"
  by (simp_all add: IC_RING_SIZE_def)

lemma length_bytes_at [simp]: "length (bytes_at b p n) = n"
  by (simp add: bytes_at_def)

lemma nth_bytes_at [simp]: "i < n \<Longrightarrow> bytes_at b p n ! i = b ! ((p + i) mod IC_RING_SIZE)"
  by (simp add: bytes_at_def)

lemma bytes_at_mod: "bytes_at b (p mod IC_RING_SIZE) n = bytes_at b p n"
  by (simp add: bytes_at_def mod_add_left_eq)

lemma bytes_at_append: "bytes_at b p (m + n) = bytes_at b p m @ bytes_at b (p + m) n"
  by (rule nth_equalityI) (auto simp: nth_append add.assoc)

lemma take_bytes_at: "m \<le> n \<Longrightarrow> take m (bytes_at b p n) = bytes_at b p m"
  by (rule nth_equalityI) auto

lemma bytes_at_cong:
  "(\<And>i. i < n \<Longrightarrow> b ! ((p + i) mod IC_RING_SIZE) = b' ! ((p + i) mod IC_RING_SIZE)) \<Longrightarrow> bytes_at b p n = bytes_at b' p n"
  by (simp add: bytes_at_def)

lemma ring_read_ok:
  assumes "length b = IC_RING_SIZE" "off < IC_RING_SIZE" "n \<le> IC_RING_SIZE"
  shows "ring_read off n b = Some (bytes_at b off n)"
proof (cases "off + n \<le> IC_RING_SIZE")
  case True
  have "take n (drop off b) = bytes_at b off n"
    using assms True by (intro nth_equalityI) auto
  then show ?thesis using assms True by (auto simp: ring_read_def mem_read_def bytes_at_def)
next
  case False
  let ?f = "IC_RING_SIZE - off"
  have "drop off b @ take (n - ?f) b = bytes_at b off n"
  proof (rule nth_equalityI)
    fix i assume i: "i < length (drop off b @ take (n - ?f) b)"
    show "(drop off b @ take (n - ?f) b) ! i = bytes_at b off n ! i"
    proof (cases "off + i < IC_RING_SIZE")
      case True
      then have "i < ?f" by linarith
      then show ?thesis using assms i False True by (simp add: nth_append)
    next
      case out: False
      then have "(off + i) mod IC_RING_SIZE = off + i - IC_RING_SIZE"
        using i assms False by (simp add: mod_if)
      moreover have "\<not> i < ?f" "i - ?f = off + i - IC_RING_SIZE" using out assms by linarith+
      ultimately show ?thesis using assms i False by (simp add: nth_append)
    qed
  qed (use assms False in auto)
  then show ?thesis using assms False by (simp add: ring_read_def mem_read_def)
qed

text \<open>A write of \<open>n\<close> bytes: the bytes are there, and the \<open>IC_RING_SIZE - n\<close> others are the same.\<close>

lemma ring_write_ok:
  assumes "length b = IC_RING_SIZE" "off < IC_RING_SIZE" "n \<le> IC_RING_SIZE" "length src = n"
  shows "\<exists>b'. ring_write off src n b = Some b' \<and> length b' = IC_RING_SIZE \<and> bytes_at b' off n = src \<and>
    bytes_at b' (off + n) (IC_RING_SIZE - n) = bytes_at b (off + n) (IC_RING_SIZE - n)"
proof (cases "n = 0 \<or> off + n \<le> IC_RING_SIZE")
  case True
  let ?b = "take off b @ src @ drop (off + n) b"
  have w: "ring_write off src n b = Some ?b" using True assms by (auto simp: ring_write_def mem_read_def mem_write_def)
  have on: "off + n \<le> IC_RING_SIZE" using True assms by auto
  have i: "bytes_at ?b off n = src"
    using assms on by (intro nth_equalityI) (auto simp: nth_append)
  have "bytes_at ?b (off + n) (IC_RING_SIZE - n) = bytes_at b (off + n) (IC_RING_SIZE - n)"
  proof (rule bytes_at_cong)
    fix i assume i: "i < IC_RING_SIZE - n"
    let ?j = "(off + n + i) mod IC_RING_SIZE"
    have "?j < off \<or> off + n \<le> ?j" "?j < IC_RING_SIZE"
      using i assms on by (auto simp: mod_if)
    then show "?b ! ?j = b ! ?j" using assms on by (auto simp: nth_append)
  qed
  then show ?thesis using w i assms on by simp
next
  case False
  let ?f = "IC_RING_SIZE - off"
  let ?b = "drop ?f src @ take (off - (n - ?f)) (drop (n - ?f) b) @ take ?f src"
  have n: "n - ?f \<le> off" "?f < n" using assms False by auto
  have "ring_write off src n b = Some ?b"
    using assms False n by (auto simp: ring_write_def mem_read_def mem_write_def drop_take Let_def)
  moreover have lb: "length ?b = IC_RING_SIZE" using assms n by simp
  moreover have "bytes_at ?b off n = src"
  proof (rule nth_equalityI)
    fix i assume i: "i < length (bytes_at ?b off n)"
    show "bytes_at ?b off n ! i = src ! i"
    proof (cases "off + i < IC_RING_SIZE")
      case True
      then have "i < ?f" "\<not> off + i < n - ?f" "\<not> off + i - (n - ?f) < off - (n - ?f)" "off + i - off = i"
        using n by linarith+
      then show ?thesis using assms i n True by (simp add: nth_append)
    next
      case out: False
      then have "(off + i) mod IC_RING_SIZE = i - ?f" using i assms by (simp add: mod_if add.commute)
      moreover have "i + off - IC_RING_SIZE < n - ?f" "?f + (i + off - IC_RING_SIZE) = i" using out i assms by simp_all
      ultimately show ?thesis using assms i out by (simp add: nth_append)
    qed
  qed (use assms in simp)
  moreover have "bytes_at ?b (off + n) (IC_RING_SIZE - n) = bytes_at b (off + n) (IC_RING_SIZE - n)"
  proof (rule bytes_at_cong)
    fix i assume i: "i < IC_RING_SIZE - n"
    have "(off + n + i) mod IC_RING_SIZE = n + off - IC_RING_SIZE + i"
      using i assms n by (auto simp: mod_if)
    moreover have "\<not> n + off + i - IC_RING_SIZE < n + off - IC_RING_SIZE" using n by linarith
    ultimately show "?b ! ((off + n + i) mod IC_RING_SIZE) = b ! ((off + n + i) mod IC_RING_SIZE)"
      using assms i n by (simp add: nth_append)
  qed
  ultimately show ?thesis by blast
qed

section \<open>Positions and messages\<close>

lemma ring_off_mod: "ring_off p = unat p mod IC_RING_SIZE"
proof -
  have "p AND IC_RING_MASK = take_bit 15 p" by (simp add: take_bit_eq_mask IC_RING_MASK_def mask_eq_exp_minus_1)
  then show ?thesis by (simp only: ring_off_def unsigned_take_bit_eq) (simp add: take_bit_eq_mod IC_RING_SIZE_def)
qed

lemma ring_off_less [simp]: "ring_off p < IC_RING_SIZE"
  by (simp add: ring_off_mod)

lemma unat_mod_ring: "unat (p + q :: u32) mod IC_RING_SIZE = (unat p + unat q) mod IC_RING_SIZE"
proof -
  have "unat (p + q) = (unat p + unat q) mod 2 ^ 32" by (simp add: unat_word_ariths)
  then show ?thesis by (simp only: mod_mod_cancel [OF ring_size(3)])
qed

lemma ring_off_after: "ring_off (of_nat (ring_off p) + q) = (unat p + unat q) mod IC_RING_SIZE"
proof -
  have "unat (of_nat (ring_off p) :: u32) = ring_off p"
    using ring_off_less [of p] by (simp add: IC_RING_SIZE_def unat_of_nat)
  then show ?thesis by (simp add: ring_off_mod [of "_ + _"] unat_mod_ring) (simp add: ring_off_mod mod_add_left_eq)
qed

lemma entry_parts:
  "entry_type (ic_entry ty (ring_off p)) = ty"
  "entry_off (ic_entry ty (ring_off p)) = ring_off p"
proof -
  have l: "ring_off p < 65536" using ring_off_less [of p] by (simp add: IC_RING_SIZE_def)
  have m: "(0xFFFF :: u32) = mask 16" by (simp add: mask_eq_exp_minus_1)
  show "entry_type (ic_entry ty (ring_off p)) = ty"
    unfolding entry_type_def ic_entry_def m by (rule bit_word_eqI) (auto simp: bit_simps)
  have "ic_entry ty (ring_off p) AND 0xFFFF = of_nat (ring_off p) AND 0xFFFF"
    unfolding ic_entry_def m by (rule bit_word_eqI) (auto simp: bit_simps dest: bit_imp_le_length)
  also have "\<dots> = take_bit 16 (of_nat (ring_off p))" unfolding m by (simp add: take_bit_eq_mask)
  finally have "entry_off (ic_entry ty (ring_off p)) = take_bit 16 (unat (of_nat (ring_off p) :: u32))"
    by (simp only: entry_off_def unsigned_take_bit_eq)
  then show "entry_off (ic_entry ty (ring_off p)) = ring_off p"
    using l by (simp add: take_bit_eq_mod unat_of_nat)
qed

lemma unat_ic_need: "unat (ic_need len) = 4 + 4 * ((unat len + 3) div 4)"
proof -
  define n where "n = unat len"
  have l: "n < 65536" by (simp add: n_def)
  have m: "NOT (3 :: u32) = NOT (mask 2)" by (simp add: mask_eq_exp_minus_1)
  have "IC_ALIGN (ucast len) = push_bit 2 (drop_bit 2 (ucast len + 3))"
    unfolding IC_ALIGN_def m by (rule bit_word_eqI) (simp only: bit_simps, auto simp flip: Suc_diff_le)
  moreover have u: "unat (ucast len :: u32) = n"
    using order_less_trans [OF unat_u16 [of len], of "2 ^ 32"]
    by (simp add: n_def unsigned_ucast_eq take_bit_nat_eq_self)
  moreover have "unat (ucast len + 3 :: u32) = n + 3"
    using l by (simp add: unat_word_ariths u)
  ultimately show ?thesis
    using l by (simp add: ic_need_def IC_HDR_BYTES_def push_bit_eq_mult drop_bit_eq_div unat_word_ariths unat_div flip: n_def)
qed

lemma ic_need_covers: "4 + unat len \<le> unat (ic_need len)"
  unfolding unat_ic_need by arith

lemma of_le16_le16 [simp]: "of_le16 (le16 w) = w"
  by (simp add: of_le16_def le16_def)

lemma length_header [simp]: "length (ic_header ty len) = 4" "length (le16 w) = 2"
  by (simp_all add: ic_header_def le16_def)

section \<open>Messages in the ring\<close>

definition msg_size :: "bytes \<Rightarrow> nat" where "msg_size d = unat (ic_need (of_nat (length d)))"

definition msg_bytes :: "u16 \<Rightarrow> bytes \<Rightarrow> bytes" where
  "msg_bytes ty d = ic_header ty (of_nat (length d)) @ d"

text \<open>The messages lie one behind the other from position \<open>p\<close> on, and these are their notifications.\<close>

fun laid :: "bytes \<Rightarrow> u32 \<Rightarrow> (u16 \<times> bytes) list \<Rightarrow> bool" where
  "laid b p [] \<longleftrightarrow> True"
| "laid b p ((ty, d) # ms) \<longleftrightarrow> bytes_at b (unat p) (4 + length d) = msg_bytes ty d \<and> laid b (p + ic_need (of_nat (length d))) ms"

fun entries :: "u32 \<Rightarrow> (u16 \<times> bytes) list \<Rightarrow> u32 list" where
  "entries p [] = []"
| "entries p ((ty, d) # ms) = ic_entry ty (ring_off p) # entries (p + ic_need (of_nat (length d))) ms"

definition total :: "(u16 \<times> bytes) list \<Rightarrow> nat" where
  "total ms = sum_list (map (msg_size \<circ> snd) ms)"

lemma total_simps [simp]: "total [] = 0" "total ((ty, d) # ms) = msg_size d + total ms"
  "total (ms @ ms') = total ms + total ms'"
  by (simp_all add: total_def)

lemma ring_off_cong: "unat p mod IC_RING_SIZE = unat q mod IC_RING_SIZE \<Longrightarrow> bytes_at b (unat p) n = bytes_at b (unat q) n"
  by (metis bytes_at_mod)

lemma bytes_at_plus: "bytes_at b (unat (p + q :: u32)) n = bytes_at b (unat p + unat q) n"
  by (metis bytes_at_mod unat_mod_ring)

lemma msg_size_covers: "length d < 65536 \<Longrightarrow> 4 + length d \<le> msg_size d"
  using ic_need_covers [of "of_nat (length d)"] by (simp add: msg_size_def unat_of_nat)

lemma laid_cong:
  assumes "bytes_at b (unat p) (total ms) = bytes_at b' (unat p) (total ms)" "\<forall>m \<in> set ms. length (snd m) < 65536"
  shows "laid b p ms = laid b' p ms"
  using assms
proof (induction ms arbitrary: p)
  case (Cons m ms)
  obtain ty d where m: "m = (ty, d)" by (cases m)
  have c: "4 + length d \<le> msg_size d" using Cons.prems(2) m by (intro msg_size_covers) simp
  have e: "bytes_at b (unat p) (msg_size d) = bytes_at b' (unat p) (msg_size d)"
    "bytes_at b (unat p + msg_size d) (total ms) = bytes_at b' (unat p + msg_size d) (total ms)"
    using Cons.prems(1) by (simp_all add: m bytes_at_append)
  have "bytes_at b (unat p) (4 + length d) = bytes_at b' (unat p) (4 + length d)"
    using e(1) take_bytes_at [OF c] by metis
  then show ?case
    using Cons.IH [of "p + ic_need (of_nat (length d))"] Cons.prems(2) e(2) by (simp add: m bytes_at_plus msg_size_def)
qed simp

lemma laid_append: "laid b p (ms @ ms') \<longleftrightarrow> laid b p ms \<and> laid b (p + of_nat (total ms)) ms'"
  by (induction ms arbitrary: p) (auto simp: msg_size_def add.assoc)

lemma entries_append: "entries p (ms @ ms') = entries p ms @ entries (p + of_nat (total ms)) ms'"
  by (induction ms arbitrary: p) (auto simp: msg_size_def add.assoc)

lemma length_entries [simp]: "length (entries p ms) = length ms"
  by (induction ms arbitrary: p) auto

section \<open>The invariant of a direction\<close>

text \<open>What a core holds as a sender, and as a receiver.\<close>

fun sending :: "place \<Rightarrow> place" where
  "sending (Waiting ty d) = Waiting ty d"
| "sending (Header ty d) = Header ty d"
| "sending (Payload ty d) = Payload ty d"
| "sending (Publish ty d) = Publish ty d"
| "sending (Notify e) = Notify e"
| "sending _ = Idle"

fun receiving :: "place \<Rightarrow> place" where
  "receiving (Popped e m) = Popped e m"
| "receiving (Opened e m len) = Opened e m len"
| "receiving (Copied e m len b) = Copied e m len b"
| "receiving _ = Idle"

fun pushed :: "place \<Rightarrow> u32 list" where
  "pushed (Notify e) = [e]"
| "pushed _ = []"

fun popped :: "place \<Rightarrow> u32 list" where
  "popped (Popped e m) = [e]"
| "popped (Opened e m len) = [e]"
| "popped (Copied e m len b) = [e]"
| "popped _ = []"

fun sender_ok :: "ic_ring_t \<Rightarrow> nat \<Rightarrow> place \<Rightarrow> bool" where
  "sender_ok r u (Waiting ty d) \<longleftrightarrow> \<not> too_long d"
| "sender_ok r u (Header ty d) \<longleftrightarrow> \<not> too_long d \<and> u + msg_size d \<le> IC_RING_SIZE"
| "sender_ok r u (Payload ty d) \<longleftrightarrow> \<not> too_long d \<and> u + msg_size d \<le> IC_RING_SIZE \<and>
     bytes_at (ring_buf r) (unat (ring_head r)) 4 = ic_header ty (of_nat (length d))"
| "sender_ok r u (Publish ty d) \<longleftrightarrow> \<not> too_long d \<and> u + msg_size d \<le> IC_RING_SIZE \<and>
     bytes_at (ring_buf r) (unat (ring_head r)) (4 + length d) = msg_bytes ty d"
| "sender_ok r u _ \<longleftrightarrow> True"

fun receiver_ok :: "(u16 \<times> bytes) list \<Rightarrow> place \<Rightarrow> bool" where
  "receiver_ok ms (Opened e m len) \<longleftrightarrow> unat len = length (snd (hd ms))"
| "receiver_ok ms (Copied e m len b) \<longleftrightarrow> unat len = length (snd (hd ms)) \<and> b = take (unat (min len m)) (snd (hd ms))"
| "receiver_ok ms _ \<longleftrightarrow> True"

text \<open>What the receiver may get for a message.\<close>

fun got :: "u16 \<times> u16 \<times> u16 \<times> bytes \<Rightarrow> u16 \<times> bytes \<Rightarrow> bool" where
  "got (t, m, len, b) (ty, d) \<longleftrightarrow> t = ty \<and> unat len = length d \<and> b = take (unat m) d"

definition flow_ok ::
  "ic_ring_t \<Rightarrow> u32 list \<Rightarrow> place \<Rightarrow> place \<Rightarrow> (u16 \<times> bytes) list \<Rightarrow> (u16 \<times> u16 \<times> u16 \<times> bytes) list \<Rightarrow>
   (u16 \<times> bytes) list \<Rightarrow> bool" where
  "flow_ok r q snd_p rcv_p sent_ms got_ms ms \<longleftrightarrow>
     length (ring_buf r) = IC_RING_SIZE \<and> (\<forall>m \<in> set ms. \<not> too_long (snd m)) \<and>
     ring_head r = ring_tail r + of_nat (total ms) \<and> total ms \<le> IC_RING_SIZE \<and> laid (ring_buf r) (ring_tail r) ms \<and>
     entries (ring_tail r) ms = popped rcv_p @ q @ pushed snd_p \<and>
     sender_ok r (total ms) snd_p \<and> receiver_ok ms rcv_p \<and>
     (\<exists>old. sent_ms = old @ ms \<and> list_all2 got got_ms old)"

definition cached :: "u32 option \<Rightarrow> u32 list" where
  "cached x = (case x of None \<Rightarrow> [] | Some e \<Rightarrow> [e])"

definition link_ok :: "ic_state \<Rightarrow> core \<Rightarrow> bool" where
  "link_ok s c \<longleftrightarrow> (\<exists>ms. flow_ok (g_rings (ic s) c) (cached (g_peek_cache (ic s) (other c)) @ fifos (ic s) c)
     (sending (at_place s c)) (receiving (at_place s (other c))) (sent s c) (received s c) ms)"

lemma other_simps [simp]: "other (other c) = c" "other c \<noteq> c" "c \<noteq> other c"
  by (cases c; simp)+

lemma core_cases2: "k = c \<or> k = other c"
  by (cases k; cases c) simp_all

lemma not_too_long: "\<not> too_long d \<Longrightarrow> length d < 65536 \<and> msg_size d \<le> IC_RING_SIZE"
  by (auto simp: too_long_def msg_size_def IC_RING_SIZE_def word_less_nat_alt not_less)

lemma header_bytes: "bytes_at b p (4 + length d) = msg_bytes ty d \<longleftrightarrow>
    bytes_at b p 4 = ic_header ty (of_nat (length d)) \<and> bytes_at b (p + 4) (length d) = d"
  by (simp add: bytes_at_append msg_bytes_def)

text \<open>Writing behind the messages leaves them alone.\<close>

lemma write_behind:
  assumes "length b = IC_RING_SIZE" "length src = n" "u + n \<le> IC_RING_SIZE" "off = (t + u) mod IC_RING_SIZE"
  shows "\<exists>b'. ring_write off src n b = Some b' \<and> length b' = IC_RING_SIZE \<and> bytes_at b' (t + u) n = src \<and>
    bytes_at b' t u = bytes_at b t u"
proof -
  obtain b' where b': "ring_write off src n b = Some b'" "length b' = IC_RING_SIZE" "bytes_at b' off n = src"
      "bytes_at b' (off + n) (IC_RING_SIZE - n) = bytes_at b (off + n) (IC_RING_SIZE - n)"
    using ring_write_ok [of b off n src] assms by auto
  have "bytes_at b' t u = bytes_at b t u"
  proof (rule bytes_at_cong)
    fix i assume i: "i < u"
    let ?j = "IC_RING_SIZE - n - u + i"
    have j: "?j < IC_RING_SIZE - n" using i assms(3) by linarith
    have "t + u + n + ?j = t + i + IC_RING_SIZE" using assms(3) by simp
    then have "(off + n + ?j) mod IC_RING_SIZE = (t + i) mod IC_RING_SIZE"
      unfolding assms(4) by (metis add.assoc mod_add_left_eq mod_add_self2)
    then show "b' ! ((t + i) mod IC_RING_SIZE) = b ! ((t + i) mod IC_RING_SIZE)"
      using b'(4) nth_bytes_at [OF j] by metis
  qed
  then show ?thesis using b' assms(4) by (auto simp: bytes_at_mod)
qed

lemma flow_facts:
  assumes "flow_ok r q sp rp sm gm ms"
  shows "length (ring_buf r) = IC_RING_SIZE" "\<forall>m \<in> set ms. \<not> too_long (snd m)" "\<forall>m \<in> set ms. length (snd m) < 65536"
    "ring_head r = ring_tail r + of_nat (total ms)" "total ms \<le> IC_RING_SIZE" "laid (ring_buf r) (ring_tail r) ms"
    "entries (ring_tail r) ms = popped rp @ q @ pushed sp" "sender_ok r (total ms) sp" "receiver_ok ms rp"
  using assms not_too_long by (auto simp: flow_ok_def)

lemma free_bytes:
  assumes "flow_ok r q sp rp sm gm ms"
  shows "unat (ring_free r) = IC_RING_SIZE - total ms"
proof -
  have "ring_free r = of_nat (IC_RING_SIZE - total ms)"
    using flow_facts(4,5) [OF assms] by (simp add: ring_free_def)
  then show ?thesis by (simp add: unat_of_nat IC_RING_SIZE_def)
qed

lemma unat_head: "unat (t + of_nat u :: u32) mod IC_RING_SIZE = (unat t + u) mod IC_RING_SIZE"
proof -
  have "unat (of_nat u :: u32) mod IC_RING_SIZE = u mod IC_RING_SIZE"
  proof -
    have "unat (of_nat u :: u32) = u mod 2 ^ 32" by (simp add: unat_of_nat)
    then show ?thesis by (simp only: mod_mod_cancel [OF ring_size(3)])
  qed
  then show ?thesis by (simp only: unat_mod_ring) (metis mod_add_right_eq)
qed

text \<open>The steps of the sender.\<close>

lemma flow_room:
  assumes "flow_ok r q (Waiting ty d) rp sm gm ms" "ic_need (of_nat (length d)) \<le> ring_free r"
  shows "flow_ok r q (Header ty d) rp sm gm ms"
proof -
  have "msg_size d \<le> IC_RING_SIZE - total ms"
    using assms(2) by (simp add: word_le_nat_alt free_bytes [OF assms(1)] msg_size_def)
  then show ?thesis using assms(1) by (auto simp: flow_ok_def)
qed

lemma sender_fits:
  assumes "\<not> too_long d" "u + msg_size d \<le> IC_RING_SIZE"
  shows "length d < 65536" "unat (of_nat (length d) :: u16) = length d" "u + 4 \<le> IC_RING_SIZE" "u + 4 + length d \<le> IC_RING_SIZE"
proof -
  show l: "length d < 65536" using assms(1) not_too_long by blast
  then show "unat (of_nat (length d) :: u16) = length d" by (simp add: unat_of_nat)
  show "u + 4 \<le> IC_RING_SIZE" "u + 4 + length d \<le> IC_RING_SIZE"
    using msg_size_covers [OF l] assms(2) by linarith+
qed

lemma flow_header:
  assumes "flow_ok r q (Header ty d) rp sm gm ms"
  shows "\<exists>r'. put_header ty (of_nat (length d)) r = Some r' \<and> flow_ok r' q (Payload ty d) rp sm gm ms"
proof -
  note f = flow_facts [OF assms]
  let ?t = "unat (ring_tail r)" and ?u = "total ms"
  have fits: "\<not> too_long d" "?u + msg_size d \<le> IC_RING_SIZE" using f(8) by simp_all
  have "ring_off (ring_head r) = (?t + ?u) mod IC_RING_SIZE" by (simp add: ring_off_mod f(4) unat_head)
  then obtain b' where b': "ring_write (ring_off (ring_head r)) (ic_header ty (of_nat (length d))) 4 (ring_buf r) = Some b'"
      "length b' = IC_RING_SIZE" "bytes_at b' (?t + ?u) 4 = ic_header ty (of_nat (length d))"
      "bytes_at b' ?t ?u = bytes_at (ring_buf r) ?t ?u"
    using write_behind [of "ring_buf r" "ic_header ty (of_nat (length d))" 4 ?u _ ?t] f(1) sender_fits(3) [OF fits]
    by auto
  have "bytes_at b' (unat (ring_head r)) 4 = ic_header ty (of_nat (length d))"
    using b'(3) by (metis bytes_at_mod f(4) unat_head)
  moreover have "laid b' (ring_tail r) ms" using laid_cong [OF b'(4) f(3)] f(6) by simp
  ultimately show ?thesis using assms b' by (auto simp: put_header_def IC_HDR_BYTES_def flow_ok_def)
qed

lemma flow_payload:
  assumes "flow_ok r q (Payload ty d) rp sm gm ms"
  shows "\<exists>r'. put_payload d (of_nat (length d)) r = Some r' \<and> flow_ok r' q (Publish ty d) rp sm gm ms"
proof -
  note f = flow_facts [OF assms]
  let ?t = "unat (ring_tail r)" and ?u = "total ms" and ?h = "unat (ring_head r)"
  let ?off = "ring_off (of_nat (ring_off (ring_head r)) + of_nat IC_HDR_BYTES)"
  have fits: "\<not> too_long d" "?u + msg_size d \<le> IC_RING_SIZE"
    and hdr: "bytes_at (ring_buf r) ?h 4 = ic_header ty (of_nat (length d))" using f(8) by simp_all
  have h: "?h mod IC_RING_SIZE = (?t + ?u) mod IC_RING_SIZE" by (simp add: f(4) unat_head)
  have "?off = (?h + 4) mod IC_RING_SIZE"
    by (simp add: ring_off_after IC_HDR_BYTES_def)
  then have off: "?off = (?t + (?u + 4)) mod IC_RING_SIZE"
    using h by (metis add.assoc mod_add_left_eq)
  obtain b' where b': "ring_write ?off d (length d) (ring_buf r) = Some b'"
      "length b' = IC_RING_SIZE" "bytes_at b' (?t + (?u + 4)) (length d) = d"
      "bytes_at b' ?t (?u + 4) = bytes_at (ring_buf r) ?t (?u + 4)"
    using write_behind [of "ring_buf r" d "length d" "?u + 4" ?off ?t] f(1) sender_fits(4) [OF fits] off by auto
  have eq: "bytes_at b' ?t ?u = bytes_at (ring_buf r) ?t ?u"
    "bytes_at b' (?t + ?u) 4 = bytes_at (ring_buf r) (?t + ?u) 4"
    using b'(4) by (simp_all add: bytes_at_append)
  have "bytes_at b' ?h 4 = ic_header ty (of_nat (length d))"
    using eq(2) hdr h by (metis bytes_at_mod)
  moreover have "bytes_at b' (?h + 4) (length d) = d"
    using b'(3) h by (metis add.assoc bytes_at_mod mod_add_left_eq)
  moreover have "laid b' (ring_tail r) ms" using laid_cong [OF eq(1) f(3)] f(6) by simp
  ultimately show ?thesis
    using assms b'(1,2) sender_fits(2) [OF fits] by (auto simp: put_payload_def Let_def flow_ok_def header_bytes)
qed

lemma flow_publish:
  assumes "flow_ok r q (Publish ty d) rp sm gm ms"
  shows "flow_ok (publish (of_nat (length d)) r) q (Notify (ic_entry ty (ring_off (ring_head r)))) rp (sm @ [(ty, d)]) gm
    (ms @ [(ty, d)])"
proof -
  note f = flow_facts [OF assms]
  obtain old where old: "sm = old @ ms" "list_all2 got gm old" using assms by (auto simp: flow_ok_def)
  have rcv: "receiver_ok (ms @ [(ty, d)]) rp"
  proof (cases ms)
    case Nil
    then have "popped rp = []" using f(7) by simp
    then show ?thesis by (cases rp) simp_all
  qed (use f(9) in \<open>cases rp; simp\<close>)
  show ?thesis
    using f old rcv by (auto simp: flow_ok_def publish_def laid_append entries_append msg_size_def add.assoc)
qed

text \<open>The steps of the receiver: it holds the notification of the first message.\<close>

lemma first_message:
  assumes "flow_ok r q sp rp sm gm ms" "popped rp = [e]"
  obtains ty d rest where "ms = (ty, d) # rest" "e = ic_entry ty (ring_off (ring_tail r))"
    "length d < 65536" "4 + length d \<le> IC_RING_SIZE"
    "bytes_at (ring_buf r) (entry_off e) 4 = ic_header ty (of_nat (length d))"
    "bytes_at (ring_buf r) (entry_off e + 4) (length d) = d"
proof -
  note f = flow_facts [OF assms(1)]
  obtain ty d rest where ms: "ms = (ty, d) # rest" using f(7) assms(2) by (cases ms) auto
  have e: "e = ic_entry ty (ring_off (ring_tail r))" using f(7) assms(2) by (simp add: ms)
  have d: "length d < 65536" "msg_size d \<le> IC_RING_SIZE" using f(2) not_too_long by (auto simp: ms)
  have off: "entry_off e = unat (ring_tail r) mod IC_RING_SIZE" by (simp only: e entry_parts(2)) (simp add: ring_off_mod)
  have "bytes_at (ring_buf r) (unat (ring_tail r)) (4 + length d) = msg_bytes ty d" using f(6) by (simp add: ms)
  then have "bytes_at (ring_buf r) (entry_off e) (4 + length d) = msg_bytes ty d" by (simp add: off bytes_at_mod)
  then have b: "bytes_at (ring_buf r) (entry_off e) 4 = ic_header ty (of_nat (length d))"
    "bytes_at (ring_buf r) (entry_off e + 4) (length d) = d" by (simp_all add: header_bytes)
  have "4 + length d \<le> IC_RING_SIZE" using msg_size_covers [OF d(1)] d(2) by linarith
  then show ?thesis using that [OF ms e d(1) _ b] by simp
qed

lemma flow_take:
  "flow_ok r (e # q) sp Idle sm gm ms \<Longrightarrow> flow_ok r q sp (Popped e m) sm gm ms"
  by (simp add: flow_ok_def)

lemma flow_get_header:
  assumes "flow_ok r q sp (Popped e m) sm gm ms"
  shows "\<exists>len. get_header e r = Some (entry_type e, len) \<and> flow_ok r q sp (Opened e m len) sm gm ms"
proof -
  obtain ty d rest where x: "ms = (ty, d) # rest" "e = ic_entry ty (ring_off (ring_tail r))"
    "length d < 65536" "4 + length d \<le> IC_RING_SIZE" "bytes_at (ring_buf r) (entry_off e) 4 = ic_header ty (of_nat (length d))"
    using first_message [OF assms popped.simps(1)] by blast
  have "entry_off e < IC_RING_SIZE" by (simp add: x(2) entry_parts)
  then have "ring_read (entry_off e) 4 (ring_buf r) = Some (ic_header ty (of_nat (length d)))"
    using ring_read_ok flow_facts(1) [OF assms] x(4,5) by simp
  then have "get_header e r = Some (entry_type e, of_nat (length d))"
    by (simp add: get_header_def IC_HDR_BYTES_def ic_header_def x(2) entry_parts)
  then show ?thesis using assms x(1,3) by (auto simp: flow_ok_def unat_of_nat)
qed

lemma flow_get_payload:
  assumes "flow_ok r q sp (Opened e m len) sm gm ms"
  shows "\<exists>b. get_payload e (unat (min len m)) r = Some b \<and> flow_ok r q sp (Copied e m len b) sm gm ms"
proof -
  obtain ty d rest where x: "ms = (ty, d) # rest" "e = ic_entry ty (ring_off (ring_tail r))"
    "length d < 65536" "4 + length d \<le> IC_RING_SIZE" "bytes_at (ring_buf r) (entry_off e + 4) (length d) = d"
    using first_message [OF assms popped.simps(2)] by blast
  let ?n = "unat (min len m)"
  have len: "unat len = length d" using flow_facts(9) [OF assms] by (simp add: x(1))
  then have n: "?n \<le> length d" by (simp add: min_def word_le_nat_alt)
  let ?off = "ring_off (of_nat (entry_off e) + of_nat IC_HDR_BYTES)"
  have off: "?off = (entry_off e + 4) mod IC_RING_SIZE"
    unfolding x(2) entry_parts(2) ring_off_after by (simp add: IC_HDR_BYTES_def ring_off_mod mod_add_left_eq)
  have "bytes_at (ring_buf r) ?off (length d) = d" using x(5) by (simp add: off bytes_at_mod)
  then have "bytes_at (ring_buf r) ?off ?n = take ?n d" using take_bytes_at [OF n] by metis
  then have "get_payload e ?n r = Some (take ?n d)"
    using ring_read_ok [of "ring_buf r" ?off ?n] flow_facts(1) [OF assms] n x(4) by (simp add: get_payload_def)
  then show ?thesis using assms x(1) by (auto simp: flow_ok_def)
qed

lemma flow_release:
  assumes "flow_ok r q sp (Copied e m len b) sm gm ms"
  shows "flow_ok (release len r) q sp Idle sm (gm @ [(entry_type e, m, len, b)]) (tl ms)"
proof -
  note f = flow_facts [OF assms]
  obtain ty d rest where x: "ms = (ty, d) # rest" "e = ic_entry ty (ring_off (ring_tail r))" "length d < 65536"
    using first_message [OF assms popped.simps(3)] by blast
  obtain old where old: "sm = old @ ms" "list_all2 got gm old" using assms by (auto simp: flow_ok_def)
  have len: "unat len = length d" and b: "b = take (unat (min len m)) d" using f(9) by (simp_all add: x(1))
  have l: "len = of_nat (length d)" using len [symmetric] by simp
  have bm: "b = take (unat m) d" unfolding b by (auto simp: min_def word_le_nat_alt len)
  have "list_all2 got (gm @ [(entry_type e, m, len, b)]) (old @ [(ty, d)])"
    using old(2) len bm by (auto simp: x(2) entry_parts intro: list_all2_appendI)
  then have h: "\<exists>old. sm = old @ rest \<and> list_all2 got (gm @ [(entry_type e, m, len, b)]) old"
    using old(1) x(1) by (intro exI [of _ "old @ [(ty, d)]"]) simp
  have snd: "sender_ok (release len r) (total rest) sp"
    using f(8) by (cases sp) (auto simp: x(1) release_def)
  show ?thesis using f h snd by (auto simp: x(1) flow_ok_def release_def l msg_size_def add.assoc)
qed

section \<open>Every interleaving\<close>

lemmas link_simps = link_ok_def prod_ring_def cons_ring_def cached_def

lemma flow_call: "flow_ok r q Idle rp sm gm ms \<Longrightarrow> \<not> too_long d \<Longrightarrow> flow_ok r q (Waiting ty d) rp sm gm ms"
  by (simp add: flow_ok_def)

lemma flow_notify: "flow_ok r q (Notify e) rp sm gm ms \<Longrightarrow> flow_ok r (q @ [e]) Idle rp sm gm ms"
  by (simp add: flow_ok_def)

lemma take_entry_Some:
  assumes "take_entry c i = Some (e, i')"
  shows "cached (g_peek_cache i c) @ fifos i (other c) = e # cached (g_peek_cache i' c) @ fifos i' (other c)"
    "g_rings i' = g_rings i" "g_peek_cache i' (other c) = g_peek_cache i (other c)" "fifos i' c = fifos i c"
  using assms by (auto simp: take_entry_def fifo_pop_def cached_def split: option.splits list.splits)

lemma peek_same:
  assumes "ic_peek_type c i = (x, t, i')"
  shows "cached (g_peek_cache i' c) @ fifos i' (other c) = cached (g_peek_cache i c) @ fifos i (other c)"
    "g_rings i' = g_rings i" "g_peek_cache i' (other c) = g_peek_cache i (other c)" "fifos i' c = fifos i c"
  using assms by (auto simp: ic_peek_type_def fifo_pop_def cached_def split: option.splits list.splits prod.splits)

text \<open>A step of core \<open>c\<close> concerns the direction it sends in, or the one it receives from.\<close>

definition as_sender :: "ic_state \<Rightarrow> core \<Rightarrow> (u16 \<times> bytes) list \<Rightarrow> bool" where
  "as_sender s c = flow_ok (g_rings (ic s) c) (cached (g_peek_cache (ic s) (other c)) @ fifos (ic s) c)
     (sending (at_place s c)) (receiving (at_place s (other c))) (sent s c) (received s c)"

lemma link_ok_sender: "link_ok s c \<longleftrightarrow> (\<exists>ms. as_sender s c ms)"
  by (simp add: link_ok_def as_sender_def)

lemma step_links:
  assumes "ic_step depth s s'" "\<forall>k. link_ok s k"
  shows "\<forall>k. link_ok s' k"
  using assms(1)
proof cases
  case (call_send c d ty)
  obtain ms where "as_sender s c ms" using assms(2) by (auto simp: link_ok_sender)
  then have "as_sender s' c ms" using call_send flow_call by (simp add: as_sender_def)
  moreover have "link_ok s' (other c)" using assms(2) [rule_format, of "other c"] call_send by (simp add: link_ok_def)
  ultimately show ?thesis using core_cases2 link_ok_sender by metis
next
  case (room c ty d)
  obtain ms where "as_sender s c ms" using assms(2) by (auto simp: link_ok_sender)
  then have "as_sender s' c ms" using room flow_room by (simp add: as_sender_def prod_ring_def)
  moreover have "link_ok s' (other c)" using assms(2) [rule_format, of "other c"] room by (simp add: link_ok_def)
  ultimately show ?thesis using core_cases2 link_ok_sender by metis
next
  case (write_header c ty d r)
  obtain ms where "as_sender s c ms" using assms(2) by (auto simp: link_ok_sender)
  then have "as_sender s' c ms" using write_header flow_header by (fastforce simp: as_sender_def prod_ring_def)
  moreover have "link_ok s' (other c)" using assms(2) [rule_format, of "other c"] write_header by (simp add: link_simps)
  ultimately show ?thesis using core_cases2 link_ok_sender by metis
next
  case (write_payload c ty d r)
  obtain ms where "as_sender s c ms" using assms(2) by (auto simp: link_ok_sender)
  then have "as_sender s' c ms" using write_payload flow_payload by (fastforce simp: as_sender_def prod_ring_def)
  moreover have "link_ok s' (other c)" using assms(2) [rule_format, of "other c"] write_payload by (simp add: link_simps)
  ultimately show ?thesis using core_cases2 link_ok_sender by metis
next
  case (publish c ty d r)
  obtain ms where "as_sender s c ms" using assms(2) by (auto simp: link_ok_sender)
  then have "as_sender s' c (ms @ [(ty, d)])" using publish flow_publish by (simp add: as_sender_def prod_ring_def)
  moreover have "link_ok s' (other c)" using assms(2) [rule_format, of "other c"] publish by (simp add: link_simps)
  ultimately show ?thesis using core_cases2 link_ok_sender by metis
next
  case (notify c e)
  obtain ms where "as_sender s c ms" using assms(2) by (auto simp: link_ok_sender)
  then have "as_sender s' c ms" using notify flow_notify [of _ "_ @ _"] by (simp add: as_sender_def)
  moreover have "link_ok s' (other c)" using assms(2) [rule_format, of "other c"] notify by (simp add: link_simps)
  ultimately show ?thesis using core_cases2 link_ok_sender by metis
next
  case (peek c x t i)
  have "link_ok s' c" "link_ok s' (other c)"
    using assms(2) [rule_format, of c] assms(2) [rule_format, of "other c"] peek peek_same [OF peek(3)] by (simp_all add: link_ok_def)
  then show ?thesis using core_cases2 by metis
next
  case (call_recv c e i m)
  note t = take_entry_Some [OF call_recv(3)]
  obtain ms where "as_sender s (other c) ms" using assms(2) by (auto simp: link_ok_sender)
  then have "as_sender s' (other c) ms" using call_recv t flow_take by (simp add: as_sender_def)
  moreover have "link_ok s' c" using assms(2) [rule_format, of c] call_recv t by (simp add: link_ok_def)
  ultimately show ?thesis using core_cases2 link_ok_sender by metis
next
  case (read_header c e m ty len)
  obtain ms where a: "as_sender s (other c) ms" using assms(2) by (auto simp: link_ok_sender)
  then have "ty = entry_type e" using read_header flow_get_header by (fastforce simp: as_sender_def cons_ring_def)
  moreover have "as_sender s' (other c) ms"
    using a read_header flow_get_header calculation by (fastforce simp: as_sender_def cons_ring_def)
  moreover have "link_ok s' c" using assms(2) [rule_format, of c] read_header by (simp add: link_ok_def)
  ultimately show ?thesis using core_cases2 link_ok_sender by metis
next
  case (read_payload c e m len b)
  obtain ms where "as_sender s (other c) ms" using assms(2) by (auto simp: link_ok_sender)
  then have "as_sender s' (other c) ms" using read_payload flow_get_payload by (fastforce simp: as_sender_def cons_ring_def)
  moreover have "link_ok s' c" using assms(2) [rule_format, of c] read_payload by (simp add: link_ok_def)
  ultimately show ?thesis using core_cases2 link_ok_sender by metis
next
  case (free_slot c e m len b)
  obtain ms where "as_sender s (other c) ms" using assms(2) by (auto simp: link_ok_sender)
  then have "as_sender s' (other c) (tl ms)" using free_slot flow_release by (simp add: as_sender_def cons_ring_def)
  moreover have "link_ok s' c" using assms(2) [rule_format, of c] free_slot by (simp add: link_simps)
  ultimately show ?thesis using core_cases2 link_ok_sender by metis
qed

lemma start_links: "ic_start s \<Longrightarrow> link_ok s c"
  unfolding link_ok_sender by (rule exI [of _ "[]"]) (simp add: as_sender_def flow_ok_def ic_start_def zero_ring_def cached_def)

lemma reachable_links: "(ic_step depth)\<^sup>*\<^sup>* s s' \<Longrightarrow> ic_start s \<Longrightarrow> link_ok s' c"
proof (induction arbitrary: c rule: rtranclp_induct)
  case (step y z)
  then show ?case using step_links [OF step(2)] by blast
qed (rule start_links)

section \<open>What the bus delivers\<close>

text \<open>A core waits for the other one, and a direction has nothing under way.\<close>

fun blocked :: "nat \<Rightarrow> ic_state \<Rightarrow> core \<Rightarrow> bool" where
  "blocked depth s c = (case at_place s c of
     Waiting ty d \<Rightarrow> \<not> ic_need (of_nat (length d)) \<le> ring_free (g_rings (ic s) c)
   | Notify e \<Rightarrow> depth \<le> length (fifos (ic s) c)
   | _ \<Rightarrow> False)"

definition drained :: "ic_state \<Rightarrow> core \<Rightarrow> bool" where
  "drained s c \<longleftrightarrow> fifos (ic s) c = [] \<and> g_peek_cache (ic s) (other c) = None \<and>
     pushed (at_place s c) = [] \<and> popped (at_place s (other c)) = []"

lemma pushed_sending [simp]: "pushed (sending p) = pushed p"
  by (cases p) simp_all

lemma popped_receiving [simp]: "popped (receiving p) = popped p"
  by (cases p) simp_all

lemma link_delivery:
  assumes "link_ok s c"
  shows "list_all2 got (received s c) (take (length (received s c)) (sent s c))"
    "drained s c \<Longrightarrow> length (received s c) = length (sent s c)"
    "at_place s c = Waiting ty d \<Longrightarrow> blocked depth s c \<Longrightarrow> length (received s c) < length (sent s c)"
proof -
  obtain ms where a: "as_sender s c ms" using assms by (auto simp: link_ok_sender)
  note a = a [unfolded as_sender_def]
  obtain old where old: "sent s c = old @ ms" "list_all2 got (received s c) old" using a by (auto simp: flow_ok_def)
  have l: "length (received s c) = length old" using old(2) by (rule list_all2_lengthD)
  show "list_all2 got (received s c) (take (length (received s c)) (sent s c))" using old l by simp
  show "length (received s c) = length (sent s c)" if "drained s c"
  proof -
    have "entries (ring_tail (g_rings (ic s) c)) ms = []"
      using flow_facts(7) [OF a] that by (simp add: drained_def cached_def)
    then have "ms = []" using length_entries by (metis list.size(3) length_0_conv)
    then show ?thesis using old(1) l by simp
  qed
  show "length (received s c) < length (sent s c)" if w: "at_place s c = Waiting ty d" "blocked depth s c"
  proof -
    have "IC_RING_SIZE - total ms < msg_size d" "msg_size d \<le> IC_RING_SIZE"
      using w flow_facts(8) [OF a] not_too_long
      by (auto simp: word_le_nat_alt free_bytes [OF a] msg_size_def)
    then have "ms \<noteq> []" by auto
    then show ?thesis using old(1) l by simp
  qed
qed

lemma link_progress:
  assumes "\<forall>k. link_ok s k" "at_place s c \<noteq> Idle" "\<not> blocked depth s c"
  shows "\<exists>s'. ic_step depth s s' \<and> at_place s' c \<noteq> at_place s c"
proof -
  obtain ms ms' where a: "as_sender s c ms" "as_sender s (other c) ms'"
    using assms(1) unfolding link_ok_sender by blast
  note a = a [unfolded as_sender_def other_simps]
  show ?thesis
  proof (cases "at_place s c")
    case (Waiting ty d)
    then show ?thesis using ic_step.room [OF Waiting] assms(3) Waiting by (fastforce simp: prod_ring_def)
  next
    case (Header ty d)
    then show ?thesis using ic_step.write_header [OF Header] flow_header a(1) by (fastforce simp: prod_ring_def)
  next
    case (Payload ty d)
    then show ?thesis using ic_step.write_payload [OF Payload] flow_payload a(1) by (fastforce simp: prod_ring_def)
  next
    case (Publish ty d)
    then show ?thesis using ic_step.publish [OF Publish refl] by fastforce
  next
    case (Notify e)
    then show ?thesis using ic_step.notify [OF Notify, of depth] assms(3) Notify by (auto simp: not_le)
  next
    case (Popped e m)
    then show ?thesis using ic_step.read_header [OF Popped] flow_get_header a(2) by (fastforce simp: cons_ring_def)
  next
    case (Opened e m len)
    then show ?thesis using ic_step.read_payload [OF Opened] flow_get_payload a(2) by (fastforce simp: cons_ring_def)
  next
    case (Copied e m len b)
    then show ?thesis using ic_step.free_slot [OF Copied] by fastforce
  qed (use assms(2) in simp)
qed

lemma link_no_mismatch:
  assumes "link_ok s (other c)" "at_place s c = Popped e m"
  shows "\<exists>len. get_header e (g_rings (ic s) (cons_ring c)) = Some (entry_type e, len)"
  using assms flow_get_header by (fastforce simp: link_ok_def cons_ring_def)

text \<open>C33: Whatever the two cores send and receive and however their steps interleave: in each direction the
  messages received are the first of the messages sent, in order, each with its type, its length and as
  many of its bytes as the receiver has room for, and once nothing is under way none is missing. No access
  leaves a ring and no notification contradicts its message: a core that is not waiting goes on. A core
  that waits for room has messages the other one has not taken.\<close>

theorem bus_delivers:
  assumes "ic_start s0" and "(ic_step depth)\<^sup>*\<^sup>* s0 s"
  shows "list_all2 got (received s c) (take (length (received s c)) (sent s c)) \<and>
    (drained s c \<longrightarrow> length (received s c) = length (sent s c)) \<and>
    (at_place s c \<noteq> Idle \<and> \<not> blocked depth s c \<longrightarrow> (\<exists>s'. ic_step depth s s' \<and> at_place s' c \<noteq> at_place s c)) \<and>
    (\<forall>e m. at_place s c = Popped e m \<longrightarrow>
       (\<exists>len. get_header e (g_rings (ic s) (cons_ring c)) = Some (entry_type e, len))) \<and>
    (\<forall>ty d. at_place s c = Waiting ty d \<and> blocked depth s c \<longrightarrow> length (received s c) < length (sent s c))"
  using link_delivery [of s c] link_progress [of s c depth] link_no_mismatch [of s c] reachable_links [OF assms(2,1)]
  by (auto simp del: blocked.simps)

section \<open>Two cores that only send\<close>

definition empty_bus :: ic_state where
  "empty_bus = \<lparr>ic = \<lparr>g_rings = (\<lambda>_. zero_ring), g_peek_cache = (\<lambda>_. None), fifos = (\<lambda>_. [])\<rparr>,
     at_place = (\<lambda>_. Idle), sent = (\<lambda>_. []), received = (\<lambda>_. [])\<rparr>"

lemma empty_bus_start: "ic_start empty_bus"
  by (simp add: ic_start_def empty_bus_def)

text \<open>\<open>ic_send\<close> is a run of the steps, and succeeds when there is room.\<close>

lemma ic_send_run:
  assumes "ic_send depth c ty d (of_nat (length d)) (ic s) = Some (0, i)" "length d < 65536" "at_place s c = Idle"
  shows "(ic_step depth)\<^sup>*\<^sup>* s (s\<lparr>ic := i, sent := (sent s)(c := sent s c @ [(ic_code ty, d)])\<rparr>)"
proof -
  let ?t = "ic_code ty" and ?l = "of_nat (length d) :: u16" and ?r = "g_rings (ic s) c"
  obtain r1 r2 where r: "\<not> of_nat IC_RING_SIZE < ic_need ?l" "ic_need ?l \<le> ring_free ?r" "put_header ?t ?l ?r = Some r1"
      "put_payload d ?l r1 = Some r2" "length (fifos (ic s) c) < depth"
      "i = (ic s)\<lparr>g_rings := (g_rings (ic s))(c := publish ?l r2),
                  fifos := (fifos (ic s))(c := fifos (ic s) c @ [ic_entry ?t (ring_off (ring_head ?r))])\<rparr>"
    using assms(1) by (auto simp: ic_send_def Let_def prod_ring_def Option.bind_eq_Some_conv split: if_splits)
  have h: "ring_head r2 = ring_head ?r"
    using r(3,4) by (auto simp: put_header_def put_payload_def Let_def Option.bind_eq_Some_conv)
  let ?s1 = "goto c (Waiting ?t d) s"
  let ?s2 = "goto c (Header ?t d) ?s1"
  let ?s3 = "goto c (Payload ?t d) (?s2\<lparr>ic := set_ring c r1 (ic ?s2)\<rparr>)"
  let ?s4 = "goto c (Publish ?t d) (?s3\<lparr>ic := set_ring c r2 (ic ?s3)\<rparr>)"
  let ?e = "ic_entry ?t (ring_off (ring_head r2))"
  let ?s5 = "goto c (Notify ?e) (?s4\<lparr>ic := set_ring c (publish ?l r2) (ic ?s4), sent := (sent ?s4)(c := sent ?s4 c @ [(?t, d)])\<rparr>)"
  let ?s6 = "goto c Idle (?s5\<lparr>ic := (ic ?s5)\<lparr>fifos := (fifos (ic ?s5))(c := fifos (ic ?s5) c @ [?e])\<rparr>\<rparr>)"
  have "ic_step depth s ?s1" using assms(2,3) r(1) by (intro ic_step.call_send) (auto simp: too_long_def)
  moreover have "ic_step depth ?s1 ?s2" using r(2) by (intro ic_step.room) (auto simp: prod_ring_def)
  moreover have "ic_step depth ?s2 ?s3"
    using ic_step.write_header [of ?s2 c ?t d r1 depth] r(3) by (simp add: prod_ring_def)
  moreover have "ic_step depth ?s3 ?s4"
    using ic_step.write_payload [of ?s3 c ?t d r2 depth] r(4) by (simp add: prod_ring_def)
  moreover have "ic_step depth ?s4 ?s5"
    using ic_step.publish [of ?s4 c ?t d r2 depth] by (simp add: prod_ring_def)
  moreover have "ic_step depth ?s5 ?s6"
    using ic_step.notify [of ?s5 c ?e depth] r(5) by simp
  ultimately have "(ic_step depth)\<^sup>*\<^sup>* s ?s6" by (meson converse_rtranclp_into_rtranclp rtranclp.rtrancl_refl)
  moreover have "?s6 = s\<lparr>ic := i, sent := (sent s)(c := sent s c @ [(?t, d)])\<rparr>"
    using assms(3) by (auto simp: r(6) h intro!: ic_state.equality ext)
  ultimately show ?thesis by simp
qed

lemma ic_send_succeeds:
  assumes "link_ok s c" "at_place s c = Idle" "\<not> too_long d" "ic_need (of_nat (length d)) \<le> ring_free (g_rings (ic s) c)"
    "length (fifos (ic s) c) < depth"
  shows "\<exists>r i. ic_send depth c ty d (of_nat (length d)) (ic s) = Some (0, i) \<and>
    ring_head r = ring_head (g_rings (ic s) c) + ic_need (of_nat (length d)) \<and> ring_tail r = ring_tail (g_rings (ic s) c) \<and>
    g_rings i = (g_rings (ic s))(c := r) \<and> (\<forall>k. k \<noteq> c \<longrightarrow> fifos i k = fifos (ic s) k)"
proof -
  obtain ms where "as_sender s c ms" using assms(1) by (auto simp: link_ok_sender)
  then have "flow_ok (g_rings (ic s) c) (cached (g_peek_cache (ic s) (other c)) @ fifos (ic s) c) (Waiting (ic_code ty) d)
      (receiving (at_place s (other c))) (sent s c) (received s c) ms"
    using assms(2,3) flow_call by (simp add: as_sender_def)
  from flow_header [OF flow_room [OF this assms(4)]] flow_payload obtain r1 r2 where
    "put_header (ic_code ty) (of_nat (length d)) (g_rings (ic s) c) = Some r1" "put_payload d (of_nat (length d)) r1 = Some r2"
    by metis
  moreover from this have "ring_head r2 = ring_head (g_rings (ic s) c)" "ring_tail r2 = ring_tail (g_rings (ic s) c)"
    by (auto simp: put_header_def put_payload_def Let_def Option.bind_eq_Some_conv)
  ultimately show ?thesis
    using assms(3-5) by (auto simp: ic_send_def Let_def prod_ring_def too_long_def publish_def
      intro!: exI [of _ "publish (of_nat (length d)) r2"])
qed

lemma no_way_on:
  assumes "\<forall>c. (\<exists>ty d. at_place s c = Waiting ty d) \<and> blocked depth s c"
  shows "\<not> ic_step depth s s'"
proof
  assume "ic_step depth s s'"
  then show False
  proof cases
    case (room c ty d)
    then show ?thesis using assms [rule_format, of c] by (simp add: prod_ring_def)
  qed (metis assms place.distinct)+
qed

text \<open>Two cores that each have filled their ring and send once more wait for each other for ever: waiting
  inside \<open>ic_send\<close>, none of them takes what the other one has sent.\<close>

definition filler :: bytes where "filler = replicate (IC_RING_SIZE - 4) 0"

lemma filler_need: "ic_need (of_nat (length filler)) = of_nat IC_RING_SIZE" "ic_need 0 = 4" "\<not> too_long filler" "\<not> too_long []"
  by (simp_all add: too_long_def filler_def ic_need_def IC_ALIGN_def IC_HDR_BYTES_def IC_RING_SIZE_def)

lemma fill_ring:
  assumes "(ic_step depth)\<^sup>*\<^sup>* empty_bus s" "at_place s c = Idle" "g_rings (ic s) c = zero_ring" "fifos (ic s) c = []" "0 < depth"
  shows "\<exists>s'. (ic_step depth)\<^sup>*\<^sup>* s s' \<and> at_place s' = at_place s \<and> ring_free (g_rings (ic s') c) = 0 \<and>
    (\<forall>k. k \<noteq> c \<longrightarrow> g_rings (ic s') k = g_rings (ic s) k \<and> fifos (ic s') k = fifos (ic s) k)"
proof -
  have l: "link_ok s c" using reachable_links [OF assms(1) empty_bus_start] .
  have room: "ic_need (of_nat (length filler)) \<le> ring_free (g_rings (ic s) c)"
    by (simp add: filler_need assms(3) ring_free_def zero_ring_def)
  obtain r i where i: "ic_send depth c IC_MSG_NONE filler (of_nat (length filler)) (ic s) = Some (0, i)"
      "ring_head r = ring_head (g_rings (ic s) c) + ic_need (of_nat (length filler))" "ring_tail r = ring_tail (g_rings (ic s) c)"
      "g_rings i = (g_rings (ic s))(c := r)" "\<forall>k. k \<noteq> c \<longrightarrow> fifos i k = fifos (ic s) k"
    using ic_send_succeeds [OF l assms(2) filler_need(3) room, of depth IC_MSG_NONE] assms(4,5) by auto
  have f: "length filler < 65536" using filler_need(3) not_too_long by blast
  have "ring_free r = 0" by (simp add: ring_free_def i filler_need assms(3) zero_ring_def)
  then show ?thesis using ic_send_run [OF i(1) f assms(2)] i(4,5)
    by (intro exI [of _ "s\<lparr>ic := i, sent := (sent s)(c := sent s c @ [(ic_code IC_MSG_NONE, filler)])\<rparr>"]) simp
qed

theorem two_senders_wait:
  assumes "0 < depth"
  shows "\<exists>s. (ic_step depth)\<^sup>*\<^sup>* empty_bus s \<and> (\<forall>c. blocked depth s c) \<and> (\<forall>s'. \<not> ic_step depth s s')"
proof -
  have e: "at_place empty_bus = (\<lambda>_. Idle)" "g_rings (ic empty_bus) c = zero_ring" "fifos (ic empty_bus) c = []" for c
    by (simp_all add: empty_bus_def)
  obtain s1 where s1: "(ic_step depth)\<^sup>*\<^sup>* empty_bus s1" "at_place s1 = (\<lambda>_. Idle)" "ring_free (g_rings (ic s1) Core0) = 0"
      "g_rings (ic s1) Core1 = zero_ring" "fifos (ic s1) Core1 = []"
    using fill_ring [of depth empty_bus Core0] assms e by auto
  obtain s2 where s2: "(ic_step depth)\<^sup>*\<^sup>* s1 s2" "at_place s2 = (\<lambda>_. Idle)" "ring_free (g_rings (ic s2) Core1) = 0"
      "g_rings (ic s2) Core0 = g_rings (ic s1) Core0"
    using fill_ring [OF s1(1), of Core1] s1 assms by auto
  let ?s3 = "goto Core0 (Waiting 0 []) s2"
  let ?s = "goto Core1 (Waiting 0 []) ?s3"
  have "ic_step depth s2 ?s3" "ic_step depth ?s3 ?s"
    using ic_step.call_send [where s = s2 and c = Core0 and d = "[]" and ty = 0 and depth = depth]
      ic_step.call_send [where s = ?s3 and c = Core1 and d = "[]" and ty = 0 and depth = depth] s2(2)
    by (simp_all add: filler_need)
  then have r: "(ic_step depth)\<^sup>*\<^sup>* empty_bus ?s" using s1(1) s2(1) by (meson rtranclp.rtrancl_into_rtrancl rtranclp_trans)
  have b: "(\<exists>ty d. at_place ?s c = Waiting ty d) \<and> blocked depth ?s c" for c
    using s1(3) s2(3,4) by (cases c) (simp_all add: filler_need)
  show ?thesis
    by (intro exI [of _ ?s] conjI allI r no_way_on) (use b in \<open>blast+\<close>)
qed

text \<open>\<open>ic_try_recv\<close> is a run of the steps as well. It fails only when nothing is there.\<close>

lemma ic_try_recv_run:
  assumes "ic_try_recv c (Some buf) m (ic s) = Some (0, Some (ty, len), Some buf', i)" "at_place s c = Idle"
  shows "\<exists>b. (ic_step depth)\<^sup>*\<^sup>* s (s\<lparr>ic := i, received := (received s)(other c := received s (other c) @ [(ty, m, len, b)])\<rparr>) \<and>
    b = take (length b) buf' \<and> (b = [] \<longrightarrow> buf' = buf)"
proof -
  obtain e j where e: "take_entry c (ic s) = Some (e, j)"
    using assms(1) by (auto simp: ic_try_recv_def split: option.splits)
  let ?r = "g_rings j (other c)" and ?n = "unat (min len m)"
  have g: "get_header e ?r = Some (ty, len)" "ty = entry_type e" "i = set_ring (other c) (release len ?r) j"
    and w: "(if ?n = 0 then Some buf else do { x \<leftarrow> get_payload e ?n ?r; mem_write 0 x buf }) = Some buf'"
    using assms(1) e
    by (auto simp: ic_try_recv_def cons_ring_def Let_def Option.bind_eq_Some_conv split: if_splits)
  have "\<exists>b. get_payload e ?n ?r = Some b \<and> b = take (length b) buf' \<and> (b = [] \<longrightarrow> buf' = buf)"
  proof (cases "?n = 0")
    case True
    then show ?thesis using w by (simp add: get_payload_def ring_read_def)
  next
    case False
    then show ?thesis using w by (auto simp: Option.bind_eq_Some_conv mem_write_Some)
  qed
  then obtain b where b: "get_payload e ?n ?r = Some b" "b = take (length b) buf'" "b = [] \<longrightarrow> buf' = buf" by blast
  let ?s1 = "goto c (Popped e m) (s\<lparr>ic := j\<rparr>)"
  let ?s2 = "goto c (Opened e m len) ?s1"
  let ?s3 = "goto c (Copied e m len b) ?s2"
  let ?s4 = "goto c Idle (?s3\<lparr>ic := set_ring (other c) (release len ?r) (ic ?s3),
     received := (received ?s3)(other c := received ?s3 (other c) @ [(entry_type e, m, len, b)])\<rparr>)"
  have "ic_step depth s ?s1" using ic_step.call_recv [OF assms(2) e] .
  moreover have "ic_step depth ?s1 ?s2"
    using ic_step.read_header [of ?s1 c e m ty len depth] g by (simp add: cons_ring_def)
  moreover have "ic_step depth ?s2 ?s3"
    using ic_step.read_payload [of ?s2 c e m len b depth] b(1) by (simp add: cons_ring_def)
  moreover have "ic_step depth ?s3 ?s4"
    using ic_step.free_slot [of ?s3 c e m len b depth] by (simp add: cons_ring_def)
  ultimately have "(ic_step depth)\<^sup>*\<^sup>* s ?s4" by (meson converse_rtranclp_into_rtranclp rtranclp.rtrancl_refl)
  moreover have "?s4 = s\<lparr>ic := i, received := (received s)(other c := received s (other c) @ [(ty, m, len, b)])\<rparr>"
    using assms(2) by (auto simp: g(2,3) intro!: ic_state.equality ext)
  ultimately show ?thesis using b(2,3) by (intro exI [of _ b]) simp
qed

lemma bus_delivers_witness:
  "\<exists>s. (ic_step 8)\<^sup>*\<^sup>* empty_bus s \<and> sent s Core0 = [(0x20, [1, 2, 3])] \<and>
     list_all2 got (received s Core0) (take (length (received s Core0)) (sent s Core0))"
proof -
  have e: "at_place empty_bus Core0 = Idle" "g_rings (ic empty_bus) Core0 = zero_ring" "fifos (ic empty_bus) Core0 = []"
    "sent empty_bus Core0 = []" by (simp_all add: empty_bus_def)
  have n: "ic_need 3 = 8" by (simp add: ic_need_def IC_ALIGN_def IC_HDR_BYTES_def)
  obtain i where "ic_send 8 Core0 IC_MSG_BTN_X [1, 2, 3] (of_nat (length [1, 2, 3 :: u8])) (ic empty_bus) = Some (0, i)"
    using ic_send_succeeds [OF start_links [OF empty_bus_start] e(1), of "[1, 2, 3]" 8 IC_MSG_BTN_X] e(2,3)
    by (auto simp: too_long_def n ring_free_def zero_ring_def IC_RING_SIZE_def)
  from ic_send_run [OF this _ e(1)] obtain s where s: "(ic_step 8)\<^sup>*\<^sup>* empty_bus s" "sent s Core0 = [(0x20, [1, 2, 3])]"
    by (auto simp: e(4))
  then show ?thesis using bus_delivers [OF empty_bus_start s(1), of Core0] by blast
qed

end
