(* ===== verification/Phone_Queue.thy ===== *)
theory Phone_Queue
  imports Socket_Rp2040 Sctp
begin

text \<open>
  The queue of messages to be spoken (\<^verbatim>\<open>src/examples/ito-denwa/src/queue.c\<close>) and the Opus decoder object
  (\<^verbatim>\<open>src/examples/ito-denwa/src/opus_stream.c\<close>) of the telephone example.

  \<^item> A message is the text of the C string, \<^const>\<open>None\<close> a null pointer. The four static variables are
    the record \<open>TtsQueue\<close>; one slot always stays free.
  \<^item> The Opus library is the record \<open>Opus\<close>, with a decoder of type \<open>'d\<close>.
\<close>

section \<open>The queue\<close>

definition TTS_QUEUE_SIZE :: nat where "TTS_QUEUE_SIZE = 8"
definition TTS_MSG_LEN :: nat where "TTS_MSG_LEN = 512"
definition TTS_GENDER_LEN :: nat where "TTS_GENDER_LEN = 16"

lemmas tts_sizes = TTS_QUEUE_SIZE_def TTS_MSG_LEN_def TTS_GENDER_LEN_def

record TtsQueue =
  g_tts_queue :: "bytes list"
  g_tts_gender :: "bytes list"
  g_tts_head :: nat
  g_tts_tail :: nat

definition tts_queue_count :: "TtsQueue \<Rightarrow> nat" where
  "tts_queue_count q = nat ((int (g_tts_tail q) - int (g_tts_head q) + int TTS_QUEUE_SIZE * 2) mod int TTS_QUEUE_SIZE)"

text \<open>\<open>strncpy\<close> of one byte less than the slot has, and the NUL.\<close>

definition tts_copy :: "nat \<Rightarrow> bytes \<Rightarrow> bytes \<Rightarrow> bytes option" where
  "tts_copy n t slot = do { slot \<leftarrow> mem_write 0 (strncpy_text (n - 1) t) slot; mem_write (n - 1) [0] slot }"

definition tts_queue_push :: "bytes option \<Rightarrow> bytes option \<Rightarrow> TtsQueue \<Rightarrow> (bool \<times> TtsQueue) option" where
  "tts_queue_push msg gender q = (case msg of
     None \<Rightarrow> Some (False, q)
   | Some m \<Rightarrow> if m = [] then Some (False, q)
     else let nxt = (g_tts_tail q + 1) mod TTS_QUEUE_SIZE; t = g_tts_tail q in
       if nxt = g_tts_head q then Some (False, q)
       else do {
         slot \<leftarrow> mem_get t (g_tts_queue q);
         slot \<leftarrow> tts_copy TTS_MSG_LEN m slot;
         gslot \<leftarrow> mem_get t (g_tts_gender q);
         gslot \<leftarrow> (case gender of
             Some g \<Rightarrow> if g \<noteq> [] then tts_copy TTS_GENDER_LEN g gslot else mem_write 0 [0] gslot
           | None \<Rightarrow> mem_write 0 [0] gslot);
         Some (True, q\<lparr>g_tts_queue := (g_tts_queue q)[t := slot], g_tts_gender := (g_tts_gender q)[t := gslot],
                       g_tts_tail := nxt\<rparr>)
       })"

text \<open>The pointer that is returned leads to the text of the slot.\<close>

definition tts_queue_peek :: "TtsQueue \<Rightarrow> bytes option option" where
  "tts_queue_peek q = (if g_tts_head q = g_tts_tail q then Some None
     else do { slot \<leftarrow> mem_get (g_tts_head q) (g_tts_queue q); t \<leftarrow> c_text slot; Some (Some t) })"

definition tts_queue_peek_gender :: "TtsQueue \<Rightarrow> bytes option option" where
  "tts_queue_peek_gender q = (if g_tts_head q = g_tts_tail q then Some None
     else do {
       slot \<leftarrow> mem_get (g_tts_head q) (g_tts_gender q);
       b \<leftarrow> mem_get 0 slot;
       if b = 0 then Some None else do { t \<leftarrow> c_text slot; Some (Some t) }
     })"

definition tts_queue_pop :: "TtsQueue \<Rightarrow> TtsQueue" where
  "tts_queue_pop q = (if g_tts_head q = g_tts_tail q then q
     else q\<lparr>g_tts_head := (g_tts_head q + 1) mod TTS_QUEUE_SIZE\<rparr>)"

section \<open>A bounded queue\<close>

definition tts_inv :: "TtsQueue \<Rightarrow> bool" where
  "tts_inv q \<longleftrightarrow> g_tts_head q < 8 \<and> g_tts_tail q < 8 \<and> length (g_tts_queue q) = 8 \<and> length (g_tts_gender q) = 8 \<and>
     (\<forall>s \<in> set (g_tts_queue q). length s = TTS_MSG_LEN \<and> s ! (TTS_MSG_LEN - 1) = 0) \<and>
     (\<forall>s \<in> set (g_tts_gender q). length s = TTS_GENDER_LEN \<and> s ! (TTS_GENDER_LEN - 1) = 0)"

definition slot_view :: "TtsQueue \<Rightarrow> nat \<Rightarrow> bytes \<times> bytes" where
  "slot_view q i = (takeWhile (\<lambda>b. b \<noteq> 0) (g_tts_queue q ! i), takeWhile (\<lambda>b. b \<noteq> 0) (g_tts_gender q ! i))"

definition tts_used :: "TtsQueue \<Rightarrow> nat" where
  "tts_used q = (g_tts_tail q + 8 - g_tts_head q) mod 8"

definition tts_queue :: "TtsQueue \<Rightarrow> (bytes \<times> bytes) list" where
  "tts_queue q = map (\<lambda>i. slot_view q ((g_tts_head q + i) mod 8)) [0..<tts_used q]"

text \<open>A message that may be put is not empty; the gender is empty if none was given.\<close>

definition tts_msg :: "bytes \<times> bytes \<Rightarrow> bool" where
  "tts_msg x \<longleftrightarrow> fst x \<noteq> [] \<and> no_nul (fst x) \<and> no_nul (snd x)"

definition tts_view :: "bytes \<times> bytes \<Rightarrow> bytes \<times> bytes" where
  "tts_view x = (take (TTS_MSG_LEN - 1) (fst x), take (TTS_GENDER_LEN - 1) (snd x))"

definition tts_put :: "bytes \<times> bytes \<Rightarrow> TtsQueue \<Rightarrow> TtsQueue option" where
  "tts_put x q = map_option snd (tts_queue_push (Some (fst x)) (Some (snd x)) q)"

definition tts_get :: "TtsQueue \<Rightarrow> ((bytes \<times> bytes) option \<times> TtsQueue) option" where
  "tts_get q = do {
     m \<leftarrow> tts_queue_peek q;
     g \<leftarrow> tts_queue_peek_gender q;
     Some (map_option (\<lambda>m. (m, case g of None \<Rightarrow> [] | Some g \<Rightarrow> g)) m, tts_queue_pop q)
   }"

lemma ends_with_nul: "length s = Suc n \<Longrightarrow> s ! n = 0 \<Longrightarrow> c_text s = Some (takeWhile (\<lambda>b. b \<noteq> 0) s)"
proof -
  assume s: "length s = Suc n" "s ! n = 0"
  have "0 \<in> set s" using s nth_mem [of n s] by simp
  then have "takeWhile (\<lambda>b. b \<noteq> 0) s \<noteq> s" by (auto simp: takeWhile_eq_all_conv)
  then have "length (takeWhile (\<lambda>b. b \<noteq> 0) s) < length s"
    using length_takeWhile_le takeWhile_eq_take take_all by (metis le_neq_implies_less order_refl)
  then show ?thesis by (simp add: c_text_def c_strlen_def Let_def flip: takeWhile_eq_take)
qed

lemma tts_copy_ok:
  assumes "length slot = Suc n"
  shows "\<exists>slot'. tts_copy (Suc n) t slot = Some slot' \<and> length slot' = Suc n \<and> slot' ! n = 0 \<and>
    (no_nul t \<longrightarrow> takeWhile (\<lambda>b. b \<noteq> 0) slot' = take n t)"
proof -
  have l: "length (strncpy_text n t) = n" by (simp add: strncpy_text_def)
  then have c: "tts_copy (Suc n) t slot = Some (strncpy_text n t @ [0])"
    using assms by (simp add: tts_copy_def mem_write_def)
  have "takeWhile (\<lambda>b. b \<noteq> 0) (strncpy_text n t @ [0]) = take n t" if "no_nul t"
  proof -
    have "no_nul (take n t)" using that by (auto simp: no_nul_def dest: in_set_takeD)
    then show ?thesis by (cases "n - length t") (simp_all add: strncpy_text_def)
  qed
  then show ?thesis using c l by (simp add: nth_append)
qed

lemma tts_count:
  assumes "tts_inv q"
  shows "tts_queue_count q = length (tts_queue q)"
proof -
  let ?h = "g_tts_head q" and ?t = "g_tts_tail q"
  have h: "?h < 8" using assms by (simp add: tts_inv_def)
  then have "int ?t - int ?h + 16 = int (?t + 8 - ?h + 8)" by simp
  then have "(int ?t - int ?h + 16) mod 8 = int ((?t + 8 - ?h + 8) mod 8)" by (simp only: zmod_int) simp
  then show ?thesis by (simp add: tts_queue_count_def tts_queue_def tts_used_def TTS_QUEUE_SIZE_def)
qed

lemma tts_full_iff: "tts_inv q \<Longrightarrow> (g_tts_tail q + 1) mod 8 = g_tts_head q \<longleftrightarrow> length (tts_queue q) = 7"
  using ring_full_iff [of "g_tts_head q" "g_tts_tail q"] by (simp add: tts_inv_def tts_queue_def tts_used_def)

lemma tts_empty_iff: "tts_inv q \<Longrightarrow> g_tts_head q = g_tts_tail q \<longleftrightarrow> tts_queue q = []"
  using ring_empty_iff [of "g_tts_head q" "g_tts_tail q"] by (simp add: tts_inv_def tts_queue_def tts_used_def)

lemma tts_put_ok:
  assumes "tts_inv q" "tts_msg x"
  shows "\<exists>q'. tts_put x q = Some q' \<and> tts_inv q' \<and>
    tts_queue q' = (if length (tts_queue q) < 7 then tts_queue q @ [tts_view x] else tts_queue q)"
proof (cases "(g_tts_tail q + 1) mod 8 = g_tts_head q")
  case True
  then show ?thesis using assms tts_full_iff
    by (auto simp: tts_put_def tts_queue_push_def TTS_QUEUE_SIZE_def tts_msg_def)
next
  case False
  obtain m g where x: "x = (m, g)" "m \<noteq> []" "no_nul m" "no_nul g" using assms(2) by (cases x) (auto simp: tts_msg_def)
  let ?h = "g_tts_head q" and ?t = "g_tts_tail q"
  have ht: "?h < 8" "?t < 8" "length (g_tts_queue q) = 8" "length (g_tts_gender q) = 8" using assms(1) by (simp_all add: tts_inv_def)
  note ring = ring_used_step [OF ht(1,2) False]
  have l: "length (g_tts_queue q ! ?t) = Suc 511" "length (g_tts_gender q ! ?t) = Suc 15"
    using assms(1) ht by (simp_all add: tts_inv_def tts_sizes)
  obtain s where s: "tts_copy 512 m (g_tts_queue q ! ?t) = Some s" "length s = 512" "s ! 511 = 0"
      "takeWhile (\<lambda>b. b \<noteq> 0) s = take 511 m"
    using tts_copy_ok [OF l(1), of m] x(3) by auto
  obtain gs where gs: "(if g \<noteq> [] then tts_copy 16 g (g_tts_gender q ! ?t) else mem_write 0 [0] (g_tts_gender q ! ?t)) = Some gs"
      "length gs = 16" "gs ! 15 = 0" "takeWhile (\<lambda>b. b \<noteq> 0) gs = take 15 g"
  proof (cases "g = []")
    case True
    have "g_tts_gender q ! ?t ! 15 = 0" using assms(1) ht by (simp add: tts_inv_def tts_sizes)
    then show ?thesis using that [of "0 # drop 1 (g_tts_gender q ! ?t)"] True l(2) by (simp add: mem_write_def)
  next
    case False
    then show ?thesis using tts_copy_ok [OF l(2), of g] x(4) that by auto
  qed
  let ?q = "q\<lparr>g_tts_queue := (g_tts_queue q)[?t := s], g_tts_gender := (g_tts_gender q)[?t := gs], g_tts_tail := (?t + 1) mod 8\<rparr>"
  have push: "tts_put x q = Some ?q"
    using False ht x(1,2) s(1) gs(1)
    by (auto simp: tts_put_def tts_queue_push_def tts_sizes mem_get_def Let_def split: if_splits)
  have inv: "tts_inv ?q"
    using assms(1) s(2,3) gs(2,3) by (auto simp: tts_inv_def tts_sizes dest!: set_update_subset_insert [THEN subsetD])
  have used: "tts_used ?q = tts_used q + 1" "(?h + tts_used q) mod 8 = ?t" using ring(1,2) by (simp_all add: tts_used_def)
  have other: "slot_view ?q ((?h + k) mod 8) = slot_view q ((?h + k) mod 8)" if "k < tts_used q" for k
    using ring(4) [of k] that by (simp add: slot_view_def tts_used_def)
  have "slot_view ?q ?t = tts_view x" using ht s(4) gs(4) by (simp add: slot_view_def tts_view_def x(1) tts_sizes)
  then have "tts_queue ?q = tts_queue q @ [tts_view x]" using other used by (simp add: tts_queue_def)
  moreover have "length (tts_queue q) < 7" using ring(3) by (simp add: tts_queue_def tts_used_def)
  ultimately show ?thesis using push inv by (intro exI [of _ ?q]) simp
qed

lemma tts_get_ok:
  assumes "tts_inv q"
  shows "\<exists>q'. tts_get q = Some (case tts_queue q of [] \<Rightarrow> None | y # ys \<Rightarrow> Some y, q') \<and> tts_inv q' \<and> tts_queue q' = tl (tts_queue q)"
proof (cases "g_tts_head q = g_tts_tail q")
  case True
  then show ?thesis using assms tts_empty_iff
    by (simp add: tts_get_def tts_queue_peek_def tts_queue_peek_gender_def tts_queue_pop_def)
next
  case False
  let ?h = "g_tts_head q" and ?t = "g_tts_tail q"
  let ?q = "q\<lparr>g_tts_head := Suc ?h mod 8\<rparr>"
  have ht: "?h < 8" "?t < 8" "length (g_tts_queue q) = 8" "length (g_tts_gender q) = 8" using assms by (simp_all add: tts_inv_def)
  note ring = ring_read_step [OF ht(1,2) False]
  have l: "length (g_tts_queue q ! ?h) = Suc 511" "g_tts_queue q ! ?h ! 511 = 0"
    "length (g_tts_gender q ! ?h) = Suc 15" "g_tts_gender q ! ?h ! 15 = 0"
    using assms ht by (simp_all add: tts_inv_def tts_sizes)
  have "c_text (g_tts_queue q ! ?h) = Some (fst (slot_view q ?h))" "c_text (g_tts_gender q ! ?h) = Some (snd (slot_view q ?h))"
    using ends_with_nul l by (simp_all add: slot_view_def)
  moreover have "g_tts_gender q ! ?h ! 0 = 0 \<Longrightarrow> snd (slot_view q ?h) = []"
    using l(3) by (cases "g_tts_gender q ! ?h") (simp_all add: slot_view_def)
  moreover have "g_tts_gender q ! ?h \<noteq> []" using l(3) by auto
  ultimately have get: "tts_get q = Some (Some (slot_view q ?h), ?q)"
    using False ht l(3) by (cases "slot_view q ?h")
      (simp add: tts_get_def tts_queue_peek_def tts_queue_peek_gender_def tts_queue_pop_def mem_get_def TTS_QUEUE_SIZE_def)
  have used: "tts_used q = Suc (tts_used ?q)" using ring(1) by (simp add: tts_used_def)
  have "slot_view ?q i = slot_view q i" for i by (simp add: slot_view_def)
  then have "tts_queue q = slot_view q ?h # tts_queue ?q"
    using ring(2) ht by (simp add: tts_queue_def used upt_conv_Cons map_Suc_upt [symmetric] del: upt_Suc)
  moreover have "tts_inv ?q" using assms by (simp add: tts_inv_def)
  ultimately show ?thesis using get by simp
qed

interpretation tts_ring: bounded_queue tts_inv tts_queue 7 tts_view tts_msg tts_put tts_get
  by unfold_locales (erule (1) tts_put_ok, erule tts_get_ok)

text \<open>C36: Whatever the order of pushes, peeks and pops: the messages taken, followed by those still queued, are the ones that
  were queued, followed by those that found room, in order, each cut to 511 characters and its gender to 15.\<close>

theorem tts_messages_in_order:
  assumes "tts_inv q" and "\<forall>x. Put x \<in> set ops \<longrightarrow> tts_msg x"
  shows "\<exists>out q'. queue_run tts_put tts_get ops q = Some (out, q') \<and> tts_inv q' \<and>
    out @ tts_queue q' = tts_queue q @ map tts_view (accepted 7 ops (length (tts_queue q))) \<and>
    tts_queue_count q' = length (tts_queue q')"
  using tts_ring.fifo_order [OF assms] tts_count by blast

section \<open>The decoder object\<close>

text \<open>\<open>opus_decoder_create\<close> with the error it stores, \<open>opus_decoder_ctl\<close> with \<open>OPUS_RESET_STATE\<close>, and
  \<open>opus_decode\<close>, with the samples it writes. \<open>opus_decoder_destroy\<close> gives the decoder up.\<close>

record 'd Opus =
  opus_create :: "u32 \<Rightarrow> 'd option \<times> int"
  opus_reset :: "'d \<Rightarrow> 'd"
  opus_decode :: "'d \<Rightarrow> bytes \<Rightarrow> int \<Rightarrow> int \<times> u16 list \<times> 'd"

record 'd OpusStream =
  g_decoder :: "'d option"
  g_decoder_sr :: u32

definition OPUS_SR_DEFAULT :: u32 where "OPUS_SR_DEFAULT = 16000"

definition opus_stream_set_rate :: "'d Opus \<Rightarrow> u32 \<Rightarrow> 'd OpusStream \<Rightarrow> int \<times> 'd OpusStream" where
  "opus_stream_set_rate lib hz s =
     (if g_decoder s \<noteq> None \<and> g_decoder_sr s = hz then (0, s)
      else let s = (if g_decoder s \<noteq> None then s\<lparr>g_decoder := None, g_decoder_sr := 0\<rparr> else s) in
        case opus_create lib hz of (d, err) \<Rightarrow>
          if d = None \<or> err \<noteq> 0 then (-1, s\<lparr>g_decoder := None\<rparr>)
          else (0, s\<lparr>g_decoder := d, g_decoder_sr := hz\<rparr>))"

definition opus_stream_init :: "'d Opus \<Rightarrow> 'd OpusStream \<Rightarrow> int \<times> 'd OpusStream" where
  "opus_stream_init lib s = (if g_decoder s \<noteq> None then (0, s) else opus_stream_set_rate lib OPUS_SR_DEFAULT s)"

definition opus_stream_reset :: "'d Opus \<Rightarrow> 'd OpusStream \<Rightarrow> 'd OpusStream" where
  "opus_stream_reset lib s = s\<lparr>g_decoder := map_option (opus_reset lib) (g_decoder s)\<rparr>"

text \<open>\<open>pcm_out\<close> is returned with the samples written.\<close>

definition opus_stream_decode_frame ::
  "'d Opus \<Rightarrow> bytes \<Rightarrow> u16 list \<Rightarrow> int \<Rightarrow> 'd OpusStream \<Rightarrow> (int \<times> u16 list \<times> 'd OpusStream) option" where
  "opus_stream_decode_frame lib packet pcm_out pcm_max s = (
     let (r, s) = (if g_decoder s = None then opus_stream_init lib s else (0, s)) in
     if r \<noteq> 0 then Some (-1, pcm_out, s)
     else do {
       d \<leftarrow> g_decoder s;
       let (n, pcm, d) = opus_decode lib d packet pcm_max;
       pcm_out \<leftarrow> mem_write 0 pcm pcm_out;
       Some (n, pcm_out, s\<lparr>g_decoder := Some d\<rparr>)
     })"

text \<open>After a call that succeeds there is a decoder of the rate asked for; a failed call leaves none, and
  decoding never follows a null pointer.\<close>

lemma set_rate_decoder:
  assumes "opus_stream_set_rate lib hz s = (r, s')"
  shows "r = 0 \<longleftrightarrow> g_decoder s' \<noteq> None" "r = 0 \<Longrightarrow> g_decoder_sr s' = hz" "r \<in> {0, -1}"
  using assms by (auto simp: opus_stream_set_rate_def Let_def split: if_splits prod.splits)

lemma decode_frame_decoder:
  assumes "\<And>d n pcm d'. opus_decode lib d packet pcm_max = (n, pcm, d') \<Longrightarrow> length pcm \<le> length pcm_out"
  shows "opus_stream_decode_frame lib packet pcm_out pcm_max s \<noteq> None"
proof (cases "g_decoder s")
  case None
  obtain r s1 where r: "opus_stream_init lib s = (r, s1)" by fastforce
  then have "r = 0 \<longleftrightarrow> g_decoder s1 \<noteq> None"
    using set_rate_decoder(1) [of lib OPUS_SR_DEFAULT s r s1] None by (simp add: opus_stream_init_def)
  then show ?thesis using None r assms
    by (auto simp: opus_stream_decode_frame_def Option.bind_eq_None_conv mem_write_def split: prod.splits)
next
  case (Some d)
  then show ?thesis using assms
    by (auto simp: opus_stream_decode_frame_def mem_write_def split: prod.splits)
qed

text \<open>Nine messages into the empty queue, then one taken: the first comes out, and two found no room.\<close>

definition empty_tts :: TtsQueue where
  "empty_tts = \<lparr>g_tts_queue = replicate 8 (replicate 512 0), g_tts_gender = replicate 8 (replicate 16 0),
     g_tts_head = 0, g_tts_tail = 0\<rparr>"

lemma empty_tts_inv: "tts_inv empty_tts" "tts_queue empty_tts = []"
  by (simp_all add: tts_inv_def empty_tts_def tts_sizes tts_queue_def tts_used_def)

lemma tts_messages_in_order_witness:
  "\<exists>out q'. queue_run tts_put tts_get (replicate 9 (Put ([104], [109])) @ [Get]) empty_tts = Some (out, q') \<and>
     out @ tts_queue q' = replicate 7 ([104], [109])"
proof -
  have ok: "\<forall>x. Put x \<in> set (replicate 9 (Put ([104], [109])) @ [Get]) \<longrightarrow> tts_msg x" by (auto simp: tts_msg_def no_nul_def)
  have a: "accepted 7 (replicate 9 (Put x) @ [Get]) 0 = replicate 7 x" for x :: "bytes \<times> bytes"
    by (simp add: numeral_eq_Suc)
  have v: "tts_view ([104], [109]) = ([104], [109])" by (simp add: tts_view_def tts_sizes)
  show ?thesis using tts_messages_in_order [OF empty_tts_inv(1) ok] by (auto simp: empty_tts_inv a v)
qed

end
