(* ===== verification/Phone_Http.thy ===== *)
theory Phone_Http
  imports Phone_Ring Phone_Queue
begin

text \<open>
  The HTTPS client of the telephone example (\<^verbatim>\<open>src/examples/ito-denwa/src/http.c\<close>): the state of a transfer, the
  headers, the decoder of the chunked encoding, which works inside the receive buffer, and the callbacks of
  the TCP stack. \<open>tts_start_playback\<close> and \<open>tts_send_end_if_needed\<close> (\<^verbatim>\<open>src/examples/ito-denwa/src/tts.c\<close>) are
  here too, because the client calls them.

  \<^item> The global variables of both files are the record \<open>Phone\<close>. The receive buffer is an array of
    \<open>RESP_BUF_SIZE\<close> bytes; offsets into it and lengths are natural numbers.
  \<^item> What the core does outside, the calls of the audio output and the messages to the other core, is the list
    \<open>phone_log\<close>, in order. \<open>now\<close> is the time in milliseconds, \<open>lib\<close> the Opus library.
  \<^item> Log output is left out, with the log level.
\<close>

section \<open>The state\<close>

definition RESP_BUF_SIZE :: nat where "RESP_BUF_SIZE = 128 * 1024"
definition REQ_BUF_SIZE :: nat where "REQ_BUF_SIZE = 20 * 1024"
definition HTTPS_TIMEOUT_MS :: u32 where "HTTPS_TIMEOUT_MS = 20000"
definition TTS_PREBUFFER_BYTES :: nat where "TTS_PREBUFFER_BYTES = 8192"

datatype https_state_t = HC_IDLE | HC_CONNECTING | HC_REQUESTING | HC_DONE_OK | HC_DONE_ERR
datatype https_mode_t = HM_INFO | HM_TIMELINE | HM_TTS | HM_LINEPHONE_POST | HM_LINEPHONE_GET
datatype chunk_state_t = CHUNK_NEED_SIZE | CHUNK_SIZE_SAW_CR | CHUNK_DATA | CHUNK_DATA_SAW_CR | CHUNK_DONE

datatype phone_event = AudioRate u32 | AudioReset | IcSend ic_msg_t bytes

record 'd Phone =
  g_https_state :: https_state_t
  g_https_mode :: https_mode_t
  g_https_state_at :: u32
  g_https_host :: bytes
  g_https_resp :: bytes
  g_https_resp_len :: nat
  g_https_headers_done :: bool
  g_https_body_start :: nat
  g_https_content_len :: int
  g_tts_sample_rate :: u32
  g_recv_bytes :: u32
  g_recv_pkts :: u32
  g_https_chunked :: bool
  g_https_body_opus :: bool
  g_chunked_read_pos :: nat
  g_chunked_write_pos :: nat
  g_chunked_state :: chunk_state_t
  g_https_req :: bytes
  g_https_req_len :: nat
  g_https_pcb :: bool
  g_chunked_size_acc :: u32
  g_chunked_remaining :: u32
  g_chunked_in_ext :: bool
  g_tts_play_active :: bool
  g_tts_play_pos :: nat
  g_tts_pad_remaining :: nat
  g_core0_pcm_pending_len :: nat
  g_core0_tts_stream_done :: bool
  g_core1_tts_end_sent :: bool
  g_opus :: "'d OpusStream"
  phone_log :: "phone_event list"

definition http_set_state :: "u32 \<Rightarrow> https_state_t \<Rightarrow> 'd Phone \<Rightarrow> 'd Phone" where
  "http_set_state now st p = p\<lparr>g_https_state := st, g_https_state_at := now\<rparr>"

definition http_cleanup :: "'d Phone \<Rightarrow> 'd Phone" where
  "http_cleanup p = (if g_https_pcb p then p\<lparr>g_https_pcb := False\<rparr> else p)"

definition tts_send_end_if_needed :: "'d Phone \<Rightarrow> 'd Phone" where
  "tts_send_end_if_needed p =
     (if \<not> g_core1_tts_end_sent p
      then p\<lparr>phone_log := phone_log p @ [IcSend IC_MSG_TTS_END []], g_core1_tts_end_sent := True\<rparr> else p)"

definition tts_start_playback :: "'d Opus \<Rightarrow> 'd Phone \<Rightarrow> 'd Phone" where
  "tts_start_playback lib p =
     (if \<not> g_https_headers_done p then p
      else let
        s = g_opus p;
        s = (if g_https_body_opus p then snd (opus_stream_set_rate lib (g_tts_sample_rate p) s) else s)
      in p\<lparr>phone_log := phone_log p @ [AudioRate (g_tts_sample_rate p), AudioReset],
           g_opus := opus_stream_reset lib s, g_tts_play_pos := 0, g_tts_pad_remaining := 0,
           g_core0_pcm_pending_len := 0, g_core0_tts_stream_done := False, g_core1_tts_end_sent := False,
           g_tts_play_active := True\<rparr>)"

section \<open>Headers\<close>

text \<open>The offset behind the empty line.\<close>

fun find_body_from :: "nat \<Rightarrow> bytes \<Rightarrow> nat \<Rightarrow> nat \<Rightarrow> nat option" where
  "find_body_from 0 resp len i = None"
| "find_body_from (Suc n) resp len i =
     (if i + 3 < len then
        (if take 4 (drop i resp) = [13, 10, 13, 10] then Some (i + 4) else find_body_from n resp len (i + 1))
      else None)"

definition http_find_body :: "bytes \<Rightarrow> nat \<Rightarrow> nat option" where
  "http_find_body resp len = find_body_from len resp len 0"

definition tolower :: "u8 \<Rightarrow> u8" where
  "tolower b = (if 65 \<le> b \<and> b \<le> 90 then b + 32 else b)"

definition strncaseeq :: "bytes \<Rightarrow> bytes \<Rightarrow> bool" where
  "strncaseeq s t \<longleftrightarrow> map tolower (take (length t) s) = map tolower t"

text \<open>The text from the value on: the buffer holds a C string that ends at the latest at its last byte.\<close>

fun find_header_from :: "nat \<Rightarrow> bytes \<Rightarrow> nat \<Rightarrow> bytes \<Rightarrow> nat \<Rightarrow> bytes option" where
  "find_header_from 0 resp len name i = None"
| "find_header_from (Suc n) resp len name i =
     (if i + length name < len then
        (if strncaseeq (drop i resp) name \<and> resp ! (i + length name) = 58
         then Some (dropWhile (\<lambda>b. b = 32 \<or> b = 9) (drop (i + length name + 1) resp))
         else find_header_from n resp len name (i + 1))
      else None)"

definition http_find_header :: "bytes \<Rightarrow> nat \<Rightarrow> bytes \<Rightarrow> bytes option" where
  "http_find_header resp len name = find_header_from len resp len name 0"

definition http_apply_tts_headers :: "'d Phone \<Rightarrow> 'd Phone" where
  "http_apply_tts_headers p = (
     let hdr = http_find_header (g_https_resp p) (g_https_body_start p);
       chunked = (case hdr (str ''Transfer-Encoding'') of None \<Rightarrow> False | Some te \<Rightarrow> strncaseeq te (str ''chunked''));
       opus = (case hdr (str ''Content-Type'') of None \<Rightarrow> False | Some ct \<Rightarrow> strncaseeq ct (str ''audio/opus''));
       hz = (if opus then 16000 else case hdr (str ''X-Sample-Rate'') of
           None \<Rightarrow> 24000
         | Some v \<Rightarrow> let n = atoi (takeWhile (\<lambda>b. b \<noteq> 0) v) in if 8000 \<le> n \<and> n \<le> 96000 then of_int n else 24000)
     in p\<lparr>g_https_chunked := chunked, g_https_body_opus := opus, g_tts_sample_rate := hz\<rparr>)"

section \<open>The chunked encoding\<close>

definition resp_have :: "'d Phone \<Rightarrow> nat" where
  "resp_have p = g_https_resp_len p - g_https_body_start p"

definition hex_val :: "u8 \<Rightarrow> u32 option" where
  "hex_val c = (if 48 \<le> c \<and> c \<le> 57 then Some (ucast c - 48)
     else if 97 \<le> c \<and> c \<le> 102 then Some (ucast c - 97 + 10)
     else if 65 \<le> c \<and> c \<le> 70 then Some (ucast c - 65 + 10)
     else None)"

text \<open>One round of the loop by state, and whether the loop goes on; \<open>rd\<close> is the read position, \<open>c\<close> the byte there.\<close>

definition need_size :: "nat \<Rightarrow> u8 \<Rightarrow> 'd Phone \<Rightarrow> 'd Phone" where
  "need_size rd c p = (
     let p = (if c = 13 then p\<lparr>g_chunked_state := CHUNK_SIZE_SAW_CR\<rparr>
       else if c = 59 then p\<lparr>g_chunked_in_ext := True\<rparr>
       else if \<not> g_chunked_in_ext p then (case hex_val c of
           Some v \<Rightarrow> p\<lparr>g_chunked_size_acc := g_chunked_size_acc p * 16 + v\<rparr>
         | None \<Rightarrow> p)
       else p)
     in p\<lparr>g_chunked_read_pos := rd + 1\<rparr>)"

definition size_saw_cr :: "u32 \<Rightarrow> nat \<Rightarrow> u8 \<Rightarrow> 'd Phone \<Rightarrow> bool \<times> 'd Phone" where
  "size_saw_cr now rd c p =
     (if c = 10 then
        let p = p\<lparr>g_chunked_remaining := g_chunked_size_acc p, g_chunked_size_acc := 0, g_chunked_in_ext := False\<rparr> in
        if g_chunked_remaining p = 0 then
          let p = p\<lparr>g_chunked_state := CHUNK_DONE, g_chunked_read_pos := rd + 1\<rparr> in
          (False, if g_https_state p = HC_REQUESTING \<or> g_https_state p = HC_CONNECTING
                  then http_set_state now HC_DONE_OK p else p)
        else (True, p\<lparr>g_chunked_state := CHUNK_DATA, g_chunked_read_pos := rd + 1\<rparr>)
      else (True, p\<lparr>g_chunked_read_pos := rd + 1\<rparr>))"

definition chunk_copy :: "nat \<Rightarrow> 'd Phone \<Rightarrow> (bool \<times> 'd Phone) option" where
  "chunk_copy rd p = (
     let avail = resp_have p - rd; rem = unat (g_chunked_remaining p); n = (if avail < rem then avail else rem) in
     if n = 0 then Some (False, p)
     else do {
       resp \<leftarrow> (if g_chunked_write_pos p \<noteq> rd then do {
           x \<leftarrow> mem_read (g_https_body_start p + rd) n (g_https_resp p);
           mem_write (g_https_body_start p + g_chunked_write_pos p) x (g_https_resp p)
         } else Some (g_https_resp p));
       let p = p\<lparr>g_https_resp := resp, g_chunked_read_pos := rd + n, g_chunked_write_pos := g_chunked_write_pos p + n,
                g_chunked_remaining := g_chunked_remaining p - of_nat n\<rparr>;
       Some (True, if g_chunked_remaining p = 0 then p\<lparr>g_chunked_state := CHUNK_DATA_SAW_CR\<rparr> else p)
     })"

definition data_saw_cr :: "nat \<Rightarrow> u8 \<Rightarrow> 'd Phone \<Rightarrow> 'd Phone option" where
  "data_saw_cr rd c p = (
     let p = (if c = 13 then p\<lparr>g_chunked_state := CHUNK_NEED_SIZE\<rparr> else p); p = p\<lparr>g_chunked_read_pos := rd + 1\<rparr> in
     if rd + 1 < resp_have p then do {
       c \<leftarrow> mem_get (g_https_body_start p + (rd + 1)) (g_https_resp p);
       Some (if c = 10 then p\<lparr>g_chunked_read_pos := rd + 2\<rparr> else p)
     }
     else Some p)"

definition chunk_round :: "u32 \<Rightarrow> 'd Phone \<Rightarrow> (bool \<times> 'd Phone) option" where
  "chunk_round now p = do {
     let rd = g_chunked_read_pos p;
     c \<leftarrow> mem_get (g_https_body_start p + rd) (g_https_resp p);
     (case g_chunked_state p of
        CHUNK_NEED_SIZE \<Rightarrow> Some (True, need_size rd c p)
      | CHUNK_SIZE_SAW_CR \<Rightarrow> Some (size_saw_cr now rd c p)
      | CHUNK_DATA \<Rightarrow> chunk_copy rd p
      | CHUNK_DATA_SAW_CR \<Rightarrow> map_option (Pair True) (data_saw_cr rd c p)
      | CHUNK_DONE \<Rightarrow> Some (False, p))
   }"

lemmas chunk_round_defs = need_size_def size_saw_cr_def chunk_copy_def data_saw_cr_def chunk_round_def

lemma need_size_moves: "g_chunked_read_pos (need_size rd c p) = rd + 1" "resp_have (need_size rd c p) = resp_have p"
  by (simp_all add: need_size_def resp_have_def Let_def split: option.split)

lemma size_saw_cr_moves:
  "g_chunked_read_pos (snd (size_saw_cr now rd c p)) = rd + 1" "resp_have (snd (size_saw_cr now rd c p)) = resp_have p"
  by (simp_all add: size_saw_cr_def resp_have_def http_set_state_def Let_def)

lemma chunk_copy_moves:
  assumes "chunk_copy rd p = Some (go, p')"
  shows "go \<longrightarrow> rd < g_chunked_read_pos p'" "resp_have p' = resp_have p"
  using assms by (auto simp: chunk_copy_def resp_have_def Let_def Option.bind_eq_Some_conv simp del: unat_eq_zero split: if_splits)

lemma data_saw_cr_moves:
  assumes "data_saw_cr rd c p = Some p'"
  shows "rd < g_chunked_read_pos p'" "resp_have p' = resp_have p"
  using assms by (auto simp: data_saw_cr_def resp_have_def Let_def Option.bind_eq_Some_conv split: if_splits)

lemma chunk_round_goes_on:
  assumes "chunk_round now p = Some (True, p')"
  shows "g_chunked_read_pos p < g_chunked_read_pos p'" "resp_have p' = resp_have p"
proof -
  let ?rd = "g_chunked_read_pos p"
  obtain c where c: "(case g_chunked_state p of
        CHUNK_NEED_SIZE \<Rightarrow> Some (True, need_size ?rd c p)
      | CHUNK_SIZE_SAW_CR \<Rightarrow> Some (size_saw_cr now ?rd c p)
      | CHUNK_DATA \<Rightarrow> chunk_copy ?rd p
      | CHUNK_DATA_SAW_CR \<Rightarrow> map_option (Pair True) (data_saw_cr ?rd c p)
      | CHUNK_DONE \<Rightarrow> Some (False, p)) = Some (True, p')"
    using assms by (auto simp: chunk_round_def Let_def Option.bind_eq_Some_conv)
  have "?rd < g_chunked_read_pos p' \<and> resp_have p' = resp_have p"
  proof (cases "g_chunked_state p")
    case CHUNK_NEED_SIZE
    then show ?thesis using c by (auto simp: need_size_moves)
  next
    case CHUNK_SIZE_SAW_CR
    then have "snd (size_saw_cr now ?rd c p) = p'" using c by simp
    then show ?thesis using size_saw_cr_moves [of now ?rd c p] by simp
  next
    case CHUNK_DATA
    then show ?thesis using c chunk_copy_moves [of ?rd p True p'] by simp
  next
    case CHUNK_DATA_SAW_CR
    then show ?thesis using c data_saw_cr_moves [of ?rd c p p'] by auto
  qed (use c in simp)
  then show "?rd < g_chunked_read_pos p'" "resp_have p' = resp_have p" by blast+
qed

lemma chunk_round_less:
  "chunk_round now p = Some (True, p') \<Longrightarrow> g_chunked_read_pos p < resp_have p \<Longrightarrow>
    resp_have p' - g_chunked_read_pos p' < resp_have p - g_chunked_read_pos p"
  using chunk_round_goes_on [of now p p'] by (simp add: diff_less_mono2)

function http_chunked_decode_in_place :: "u32 \<Rightarrow> 'd Phone \<Rightarrow> 'd Phone option" where
  "http_chunked_decode_in_place now p =
     (if g_chunked_read_pos p < resp_have p \<and> g_chunked_state p \<noteq> CHUNK_DONE then do {
        (go, p') \<leftarrow> chunk_round now p;
        if go then http_chunked_decode_in_place now p' else Some p'
      }
      else Some p)"
  by pat_completeness auto
termination
  by (relation "measure (\<lambda>(now, p). resp_have p - g_chunked_read_pos p)")
    (auto intro: chunk_round_less)

declare http_chunked_decode_in_place.simps [simp del]

section \<open>The receive buffer\<close>

definition http_resp_compact_locked :: "'d Phone \<Rightarrow> 'd Phone option" where
  "http_resp_compact_locked p =
     (if g_tts_play_pos p = 0 then Some p
      else let body_len = resp_have p; shift = min (g_tts_play_pos p) body_len; keep = body_len - shift in do {
        resp \<leftarrow> (if 0 < keep then do {
            x \<leftarrow> mem_read (g_https_body_start p + shift) keep (g_https_resp p);
            mem_write (g_https_body_start p) x (g_https_resp p)
          } else Some (g_https_resp p));
        let p = p\<lparr>g_https_resp := resp\<rparr>;
        let p = (if g_https_chunked p
          then p\<lparr>g_chunked_write_pos := g_chunked_write_pos p - shift, g_chunked_read_pos := g_chunked_read_pos p - shift\<rparr> else p);
        Some (p\<lparr>g_https_resp_len := g_https_resp_len p - shift, g_tts_play_pos := 0\<rparr>)
      })"

text \<open>The parts of \<open>http_check_complete\<close>.\<close>

definition headers_found :: "'d Phone \<Rightarrow> nat \<Rightarrow> 'd Phone" where
  "headers_found p body = (
     let p = p\<lparr>g_https_body_start := body, g_https_headers_done := True\<rparr>;
       p = (case http_find_header (g_https_resp p) body (str ''Content-Length'') of
           Some cl \<Rightarrow> p\<lparr>g_https_content_len := atoi (takeWhile (\<lambda>b. b \<noteq> 0) cl)\<rparr>
         | None \<Rightarrow> p)
     in if g_https_mode p = HM_TTS \<or> g_https_mode p = HM_LINEPHONE_GET then http_apply_tts_headers p else p)"

definition arm_playback :: "'d Opus \<Rightarrow> 'd Phone \<Rightarrow> 'd Phone" where
  "arm_playback lib p =
     (if (g_https_mode p = HM_TTS \<or> g_https_mode p = HM_LINEPHONE_GET) \<and> \<not> g_tts_play_active p \<and>
         TTS_PREBUFFER_BYTES \<le> (if g_https_body_opus p then g_chunked_write_pos p else resp_have p)
      then tts_start_playback lib p else p)"

definition body_complete :: "u32 \<Rightarrow> 'd Phone \<Rightarrow> 'd Phone" where
  "body_complete now p =
     (if 0 \<le> g_https_content_len p \<and> g_https_content_len p \<le> int (resp_have p)
      then http_set_state now HC_DONE_OK p else p)"

definition http_check_complete :: "'d Opus \<Rightarrow> u32 \<Rightarrow> 'd Phone \<Rightarrow> 'd Phone option" where
  "http_check_complete lib now p = (
     case (if g_https_headers_done p then Some p
           else map_option (headers_found p) (http_find_body (g_https_resp p) (g_https_resp_len p))) of
       None \<Rightarrow> Some p
     | Some p \<Rightarrow> do {
         p \<leftarrow> (if g_https_body_opus p \<and> g_https_chunked p \<and> \<not> g_tts_play_active p
              then http_chunked_decode_in_place now p else Some p);
         Some (body_complete now (arm_playback lib p))
       })"

section \<open>Callbacks\<close>

datatype err_t = ERR_OK | ERR_MEM | ERR_ABRT | ERR_OTHER int

definition https_poll_cb :: "u32 \<Rightarrow> 'd Phone \<Rightarrow> err_t \<times> 'd Phone" where
  "https_poll_cb now p =
     (if HTTPS_TIMEOUT_MS < now - g_https_state_at p then (ERR_ABRT, http_set_state now HC_DONE_ERR p) else (ERR_OK, p))"

definition https_err_cb :: "u32 \<Rightarrow> 'd Phone \<Rightarrow> 'd Phone" where
  "https_err_cb now p = http_set_state now HC_DONE_ERR (p\<lparr>g_https_pcb := False\<rparr>)"

text \<open>A buffer of lwIP is the list of its bytes; its length has 16 bits. With \<open>ERR_MEM\<close> lwIP keeps it and delivers it
  again.\<close>

definition https_recv_cb :: "'d Opus \<Rightarrow> u32 \<Rightarrow> bytes option \<Rightarrow> err_t \<Rightarrow> 'd Phone \<Rightarrow> (err_t \<times> 'd Phone) option" where
  "https_recv_cb lib now pb err p = (case pb of
     None \<Rightarrow> Some (ERR_OK, http_set_state now HC_DONE_OK p)
   | Some d \<Rightarrow> if err \<noteq> ERR_OK then Some (ERR_OK, http_set_state now HC_DONE_OK p)
     else do {
       p \<leftarrow> (if RESP_BUF_SIZE \<le> g_https_resp_len p + length d then http_resp_compact_locked p else Some p);
       if RESP_BUF_SIZE \<le> g_https_resp_len p + length d then Some (ERR_MEM, p)
       else do {
         let p = p\<lparr>g_recv_bytes := g_recv_bytes p + of_nat (length d), g_recv_pkts := g_recv_pkts p + 1\<rparr>;
         resp \<leftarrow> mem_write (g_https_resp_len p) d (g_https_resp p);
         resp \<leftarrow> mem_write (g_https_resp_len p + length d) [0] resp;
         let p = p\<lparr>g_https_resp := resp, g_https_resp_len := g_https_resp_len p + length d, g_https_state_at := now\<rparr>;
         p \<leftarrow> http_check_complete lib now p;
         Some (ERR_OK, p)
       }
     })"

end
