(* ===== verification/Phone_Stream.thy ===== *)
theory Phone_Stream
  imports Phone_Http
begin

text \<open>
  What the receive buffer of theory \<^theory_text>\<open>Phone_Http\<close> holds: the decoder that works in place is an automaton that reads
  the bytes one by one, so it does not matter where the network cuts the stream and when the decoder, the
  player and the compaction of the buffer run.
\<close>

section \<open>The decoder as an automaton\<close>

record Chunk =
  ch_state :: chunk_state_t
  ch_acc :: u32
  ch_rem :: u32
  ch_ext :: bool

definition chunk_of :: "'d Phone \<Rightarrow> Chunk" where
  "chunk_of p = \<lparr>ch_state = g_chunked_state p, ch_acc = g_chunked_size_acc p, ch_rem = g_chunked_remaining p,
     ch_ext = g_chunked_in_ext p\<rparr>"

definition size_digit :: "u8 \<Rightarrow> Chunk \<Rightarrow> Chunk" where
  "size_digit b c = (if b = 13 then c\<lparr>ch_state := CHUNK_SIZE_SAW_CR\<rparr>
     else if b = 59 then c\<lparr>ch_ext := True\<rparr>
     else if ch_ext c then c
     else case hex_val b of None \<Rightarrow> c | Some v \<Rightarrow> c\<lparr>ch_acc := ch_acc c * 16 + v\<rparr>)"

definition size_end :: "u8 \<Rightarrow> Chunk \<Rightarrow> Chunk" where
  "size_end b c = (if b = 10 then c\<lparr>ch_rem := ch_acc c, ch_acc := 0, ch_ext := False,
       ch_state := (if ch_acc c = 0 then CHUNK_DONE else CHUNK_DATA)\<rparr> else c)"

definition data_byte :: "Chunk \<Rightarrow> Chunk" where
  "data_byte c = c\<lparr>ch_rem := ch_rem c - 1, ch_state := (if ch_rem c = 1 then CHUNK_DATA_SAW_CR else CHUNK_DATA)\<rparr>"

fun chunk_byte :: "u8 \<Rightarrow> Chunk \<Rightarrow> Chunk \<times> bytes" where
  "chunk_byte b c = (case ch_state c of
     CHUNK_NEED_SIZE \<Rightarrow> (size_digit b c, [])
   | CHUNK_SIZE_SAW_CR \<Rightarrow> (size_end b c, [])
   | CHUNK_DATA \<Rightarrow> (data_byte c, [b])
   | CHUNK_DATA_SAW_CR \<Rightarrow> (if b = 13 then c\<lparr>ch_state := CHUNK_NEED_SIZE\<rparr> else c, [])
   | CHUNK_DONE \<Rightarrow> (c, []))"

text \<open>The state, the body and the bytes not read, after any number of bytes.\<close>

fun chunk_run :: "bytes \<Rightarrow> Chunk \<Rightarrow> Chunk \<times> bytes \<times> bytes" where
  "chunk_run [] c = (c, [], [])"
| "chunk_run (b # bs) c = (if ch_state c = CHUNK_DONE then (c, [], b # bs)
     else let (c1, o1) = chunk_byte b c; (c2, o2, r) = chunk_run bs c1 in (c2, o1 @ o2, r))"

declare chunk_byte.simps [simp del]

lemma chunk_run_done: "ch_state c = CHUNK_DONE \<Longrightarrow> chunk_run bs c = (c, [], bs)"
  by (cases bs) simp_all

lemma chunk_run_append:
  "chunk_run as c = (c1, o1, r1) \<Longrightarrow> chunk_run (as @ bs) c =
    (let (c2, o2, r2) = chunk_run bs c1 in (c2, o1 @ o2, r1 @ r2)) \<and> (r1 \<noteq> [] \<longrightarrow> ch_state c1 = CHUNK_DONE)"
proof (induction as arbitrary: c o1)
  case (Cons a as)
  show ?case
  proof (cases "ch_state c = CHUNK_DONE")
    case True
    then show ?thesis using Cons.prems by (simp add: chunk_run_done)
  next
    case False
    obtain c0 o0 where 0: "chunk_byte a c = (c0, o0)" by fastforce
    obtain o1' where 1: "chunk_run as c0 = (c1, o1', r1)" "o1 = o0 @ o1'"
      using Cons.prems False 0 by (auto split: prod.splits)
    show ?thesis using Cons.IH [OF 1(1)] False 0 1 by (auto simp: Let_def split: prod.splits)
  qed
qed (simp split: prod.split)

lemma chunk_run_data:
  "ch_state c = CHUNK_DATA \<Longrightarrow> 0 < length ds \<Longrightarrow> length ds \<le> unat (ch_rem c) \<Longrightarrow>
   chunk_run ds c = (c\<lparr>ch_rem := ch_rem c - of_nat (length ds),
     ch_state := (if ch_rem c = of_nat (length ds) then CHUNK_DATA_SAW_CR else CHUNK_DATA)\<rparr>, ds, [])"
proof (induction ds arbitrary: c)
  case (Cons d ds)
  have b: "chunk_byte d c = (data_byte c, [d])" using Cons.prems(1) by (simp add: chunk_byte.simps)
  show ?case
  proof (cases "ds = []")
    case True
    then show ?thesis using Cons.prems(1) b by (simp add: data_byte_def)
  next
    case False
    have r: "1 < unat (ch_rem c)" using Cons.prems(3) False by (cases ds) simp_all
    then have n1: "ch_rem c \<noteq> 1" by auto
    have u: "unat (ch_rem c - 1) = unat (ch_rem c) - 1" using r by (simp add: unat_sub_if_size)
    have e: "ch_rem c - 1 = of_nat (length ds) \<longleftrightarrow> ch_rem c = of_nat (Suc (length ds))"
      by (auto simp: diff_eq_eq add.commute)
    have s: "ch_state (data_byte c) = CHUNK_DATA" "ch_rem (data_byte c) = ch_rem c - 1" using n1 by (simp_all add: data_byte_def)
    have "chunk_run ds (data_byte c) = ((data_byte c)\<lparr>ch_rem := ch_rem c - 1 - of_nat (length ds),
       ch_state := (if ch_rem c - 1 = of_nat (length ds) then CHUNK_DATA_SAW_CR else CHUNK_DATA)\<rparr>, ds, [])"
      using Cons.IH [of "data_byte c"] s False Cons.prems(3) u by simp
    then show ?thesis using Cons.prems(1) b n1 by (simp add: e) (simp add: data_byte_def algebra_simps)
  qed
qed simp

section \<open>The buffer\<close>

definition body :: "'d Phone \<Rightarrow> bytes" where
  "body p = take (resp_have p) (drop (g_https_body_start p) (g_https_resp p))"

definition decoded :: "'d Phone \<Rightarrow> bytes" where "decoded p = take (g_chunked_write_pos p) (body p)"
definition unparsed :: "'d Phone \<Rightarrow> bytes" where "unparsed p = drop (g_chunked_read_pos p) (body p)"

definition http_ok :: "'d Phone \<Rightarrow> bool" where
  "http_ok p \<longleftrightarrow> length (g_https_resp p) = RESP_BUF_SIZE \<and> g_https_resp_len p < RESP_BUF_SIZE \<and>
     g_https_body_start p \<le> g_https_resp_len p \<and> g_chunked_write_pos p \<le> g_chunked_read_pos p \<and>
     g_chunked_read_pos p \<le> resp_have p \<and> (g_chunked_state p = CHUNK_DATA \<longrightarrow> g_chunked_remaining p \<noteq> 0)"

text \<open>What a decoder does not touch.\<close>

definition same_transfer :: "'d Phone \<Rightarrow> 'd Phone \<Rightarrow> bool" where
  "same_transfer p p' \<longleftrightarrow> g_https_resp_len p' = g_https_resp_len p \<and> g_https_body_start p' = g_https_body_start p \<and>
     g_tts_play_pos p' = g_tts_play_pos p \<and> g_https_chunked p' = g_https_chunked p \<and>
     take (g_https_body_start p) (g_https_resp p') = take (g_https_body_start p) (g_https_resp p)"

lemma length_body: "http_ok p \<Longrightarrow> length (body p) = resp_have p"
  by (auto simp: body_def http_ok_def resp_have_def min_def)

lemma body_nth: "http_ok p \<Longrightarrow> i < resp_have p \<Longrightarrow> body p ! i = g_https_resp p ! (g_https_body_start p + i)"
  by (simp add: body_def http_ok_def resp_have_def)

lemma unparsed_Cons:
  assumes "http_ok p" "g_chunked_read_pos p < resp_have p"
  shows "unparsed p = g_https_resp p ! (g_https_body_start p + g_chunked_read_pos p) # drop (Suc (g_chunked_read_pos p)) (body p)"
  using assms by (simp add: unparsed_def Cons_nth_drop_Suc [symmetric] length_body body_nth)

text \<open>\<open>advances p p' k out\<close>: \<open>k\<close> bytes more have been read, and \<open>out\<close> decoded from them.\<close>

definition advances :: "'d Phone \<Rightarrow> 'd Phone \<Rightarrow> bytes \<Rightarrow> bytes \<Rightarrow> bool" where
  "advances p p' bs out \<longleftrightarrow> http_ok p' \<and> same_transfer p p' \<and> unparsed p = bs @ unparsed p' \<and> decoded p' = decoded p @ out \<and>
     chunk_run bs (chunk_of p) = (chunk_of p', out, [])"

lemma advances_by_one:
  assumes "http_ok p" "g_chunked_read_pos p < resp_have p" "g_chunked_state p \<noteq> CHUNK_DONE"
    and "c = g_https_resp p ! (g_https_body_start p + g_chunked_read_pos p)"
    and "g_https_resp p' = g_https_resp p" "g_https_resp_len p' = g_https_resp_len p"
    "g_https_body_start p' = g_https_body_start p" "g_tts_play_pos p' = g_tts_play_pos p" "g_https_chunked p' = g_https_chunked p"
    and "g_chunked_read_pos p' = g_chunked_read_pos p + 1" "g_chunked_write_pos p' = g_chunked_write_pos p"
    and "chunk_byte c (chunk_of p) = (chunk_of p', [])" "g_chunked_state p' = CHUNK_DATA \<longrightarrow> g_chunked_remaining p' \<noteq> 0"
  shows "advances p p' [c] []"
proof -
  have h: "resp_have p' = resp_have p" using assms(6,7) by (simp add: resp_have_def)
  have b: "body p' = body p" using assms(5-7) h by (simp add: body_def)
  have "unparsed p = c # unparsed p'" using unparsed_Cons [OF assms(1,2)] assms(4,10) by (simp add: unparsed_def b)
  moreover have "http_ok p'" using assms h by (simp add: http_ok_def)
  moreover have "ch_state (chunk_of p) \<noteq> CHUNK_DONE" using assms(3) by (simp add: chunk_of_def)
  ultimately show ?thesis using assms b by (simp add: advances_def same_transfer_def decoded_def)
qed

lemma advances_trans:
  assumes "advances p p1 as o1" "advances p1 p2 bs o2"
  shows "advances p p2 (as @ bs) (o1 @ o2)"
  using assms chunk_run_append [of as "chunk_of p" "chunk_of p1" o1 "[]" bs]
  by (auto simp: advances_def same_transfer_def)

lemma advances_refl: "http_ok p \<Longrightarrow> advances p p [] []"
  by (simp add: advances_def same_transfer_def)

text \<open>The buffer is the headers, the body and a rest.\<close>

lemma resp_parts:
  assumes "http_ok p"
  shows "g_https_resp p = take (g_https_body_start p) (g_https_resp p) @ body p @ drop (g_https_resp_len p) (g_https_resp p)"
    "length (take (g_https_body_start p) (g_https_resp p)) = g_https_body_start p"
    "g_https_resp_len p = g_https_body_start p + resp_have p"
proof -
  show l: "g_https_resp_len p = g_https_body_start p + resp_have p" using assms by (simp add: http_ok_def resp_have_def)
  show "length (take (g_https_body_start p) (g_https_resp p)) = g_https_body_start p"
    using assms by (auto simp: http_ok_def min_def)
  have "drop (g_https_resp_len p) (g_https_resp p) = drop (resp_have p) (drop (g_https_body_start p) (g_https_resp p))"
    by (simp add: l add.commute)
  then show "g_https_resp p = take (g_https_body_start p) (g_https_resp p) @ body p @ drop (g_https_resp_len p) (g_https_resp p)"
    by (simp only: body_def append_take_drop_id)
qed

lemma parts_write:
  assumes "length h = b" "w + length x \<le> length d"
  shows "mem_write (b + w) x (h @ d @ t) = Some (h @ (take w d @ x @ drop (w + length x) d) @ t)"
  using assms by (simp add: mem_write_def)

lemma parts_read: "length h = b \<Longrightarrow> r + n \<le> length d \<Longrightarrow> mem_read (b + r) n (h @ d @ t) = Some (take n (drop r d))"
  by (simp add: mem_read_def)

lemma chunk_copy_run:
  assumes "http_ok p" "g_chunked_read_pos p < resp_have p" "g_chunked_state p = CHUNK_DATA"
  shows "\<exists>p' bs. chunk_copy (g_chunked_read_pos p) p = Some (True, p') \<and> advances p p' bs bs"
proof -
  define rd wr rem base where "rd = g_chunked_read_pos p" and "wr = g_chunked_write_pos p"
    and "rem = g_chunked_remaining p" and "base = g_https_body_start p"
  define h t d where "h = take base (g_https_resp p)" and "t = drop (g_https_resp_len p) (g_https_resp p)" and "d = body p"
  note vars = rd_def [symmetric] wr_def [symmetric] rem_def [symmetric] base_def [symmetric] d_def [symmetric]
  define n where "n = (if resp_have p - rd < unat rem then resp_have p - rd else unat rem)"
  have ok: "rem \<noteq> 0" "wr \<le> rd" "rd < resp_have p"
    using assms by (simp_all add: http_ok_def rd_def wr_def rem_def)
  have n: "0 < n" "n \<le> unat rem" "rd + n \<le> resp_have p" using ok by (auto simp: n_def unat_gt_0)
  note parts = resp_parts [OF assms(1), unfolded vars, folded h_def t_def]
  have ld: "length d = resp_have p" using length_body [OF assms(1)] by (simp add: d_def)
  define x where "x = take n (drop rd d)"
  have lx: "length x = n" using n(3) ld by (simp add: x_def)
  define b where "b = take wr d @ x @ drop (wr + n) d"
  have lb: "length b = resp_have p" using ld lx n(3) ok(2) by (simp add: b_def)
  have rd: "mem_read (base + rd) n (g_https_resp p) = Some x"
    unfolding parts(1) x_def using parts_read [OF parts(2), of rd n d t] n(3) ld by simp
  have w: "(if wr \<noteq> rd then mem_write (base + wr) x (g_https_resp p) else Some (g_https_resp p)) = Some (h @ b @ t)"
  proof (cases "wr = rd")
    case True
    have "b = d" by (simp add: b_def x_def True) (metis append_take_drop_id drop_drop add.commute)
    then show ?thesis using True parts(1) by simp
  next
    case False
    then show ?thesis unfolding parts(1) b_def
      using parts_write [OF parts(2), of wr x d t] lx n(3) ok(2) ld by simp
  qed
  define q where "q = (let p = p\<lparr>g_https_resp := h @ b @ t, g_chunked_read_pos := rd + n, g_chunked_write_pos := wr + n,
     g_chunked_remaining := rem - of_nat n\<rparr> in
     if g_chunked_remaining p = 0 then p\<lparr>g_chunked_state := CHUNK_DATA_SAW_CR\<rparr> else p)"
  have wr': "(if wr \<noteq> rd then do { x \<leftarrow> mem_read (base + rd) n (g_https_resp p); mem_write (base + wr) x (g_https_resp p) }
      else Some (g_https_resp p)) = Some (h @ b @ t)"
    unfolding rd Option.bind.bind_lunit by (rule w)
  have run: "chunk_copy rd p = Some (True, q)"
    unfolding chunk_copy_def Let_def vars n_def [symmetric] wr' Option.bind.bind_lunit
    using n(1) by (simp add: q_def Let_def)
  have q: "g_https_resp q = h @ b @ t" "g_https_resp_len q = g_https_resp_len p" "g_https_body_start q = base"
    "g_chunked_read_pos q = rd + n" "g_chunked_write_pos q = wr + n" "g_chunked_remaining q = rem - of_nat n"
    "g_chunked_state q = (if rem = of_nat n then CHUNK_DATA_SAW_CR else CHUNK_DATA)"
    "g_tts_play_pos q = g_tts_play_pos p" "g_https_chunked q = g_https_chunked p"
    "g_chunked_size_acc q = g_chunked_size_acc p" "g_chunked_in_ext q = g_chunked_in_ext p"
    using assms(3) by (simp_all add: q_def Let_def base_def)
  have h: "resp_have q = resp_have p" using q(2,3) by (simp add: resp_have_def base_def)
  have bq: "body q = b" using lb parts(2) by (simp add: body_def h q)
  have "length (h @ b @ t) = length (h @ d @ t)" using lb ld by simp
  then have "length (g_https_resp q) = RESP_BUF_SIZE" using assms(1) parts(1) q(1) by (simp add: http_ok_def)
  then have "http_ok q" using assms(1) n(3) ok(2) by (simp add: http_ok_def h q base_def)
  moreover have "same_transfer p q" using parts(2) by (simp add: same_transfer_def q vars h_def)
  moreover have "unparsed p = x @ unparsed q"
  proof -
    have "drop (rd + n) b = drop (rd + n) d" using lx ok(2) n(3) ld by (simp add: b_def)
    then show ?thesis by (simp add: unparsed_def bq q vars x_def) (metis append_take_drop_id drop_drop add.commute)
  qed
  moreover have "decoded q = decoded p @ x" using lx ok(2) n(3) ld by (simp add: decoded_def bq q vars b_def)
  moreover have "chunk_run x (chunk_of p) = (chunk_of q, x, [])"
    using chunk_run_data [of "chunk_of p" x] assms(3) n lx by (simp add: chunk_of_def q vars)
  ultimately have "advances p q x x" by (simp add: advances_def)
  then show ?thesis using run by (auto simp: rd_def)
qed

lemma need_size_run:
  assumes "http_ok p" "g_chunked_read_pos p < resp_have p" "g_chunked_state p = CHUNK_NEED_SIZE"
    and "c = g_https_resp p ! (g_https_body_start p + g_chunked_read_pos p)"
  shows "advances p (need_size (g_chunked_read_pos p) c p) [c] []"
proof -
  let ?q = "need_size (g_chunked_read_pos p) c p"
  have q: "g_https_resp ?q = g_https_resp p" "g_https_resp_len ?q = g_https_resp_len p"
    "g_https_body_start ?q = g_https_body_start p" "g_tts_play_pos ?q = g_tts_play_pos p" "g_https_chunked ?q = g_https_chunked p"
    "g_chunked_read_pos ?q = g_chunked_read_pos p + 1" "g_chunked_write_pos ?q = g_chunked_write_pos p"
    by (simp_all add: need_size_def Let_def split: option.split)
  have "chunk_byte c (chunk_of p) = (chunk_of ?q, [])"
    using assms(3) by (simp add: chunk_byte.simps need_size_def size_digit_def chunk_of_def Let_def split: option.split)
  moreover have "g_chunked_state ?q \<noteq> CHUNK_DATA" using assms(3) by (simp add: need_size_def Let_def split: option.split)
  ultimately show ?thesis using assms q by (intro advances_by_one) simp_all
qed

lemma size_saw_cr_run:
  assumes "http_ok p" "g_chunked_read_pos p < resp_have p" "g_chunked_state p = CHUNK_SIZE_SAW_CR"
    and "c = g_https_resp p ! (g_https_body_start p + g_chunked_read_pos p)"
    and "size_saw_cr now (g_chunked_read_pos p) c p = (go, q)"
  shows "advances p q [c] []" "\<not> go \<Longrightarrow> g_chunked_state q = CHUNK_DONE"
proof -
  have q: "g_https_resp q = g_https_resp p" "g_https_resp_len q = g_https_resp_len p"
    "g_https_body_start q = g_https_body_start p" "g_tts_play_pos q = g_tts_play_pos p" "g_https_chunked q = g_https_chunked p"
    "g_chunked_read_pos q = g_chunked_read_pos p + 1" "g_chunked_write_pos q = g_chunked_write_pos p"
    "chunk_byte c (chunk_of p) = (chunk_of q, [])" "g_chunked_state q = CHUNK_DATA \<longrightarrow> g_chunked_remaining q \<noteq> 0"
    "\<not> go \<longrightarrow> g_chunked_state q = CHUNK_DONE"
    using assms(3,5)
    by (auto simp: size_saw_cr_def http_set_state_def Let_def chunk_byte.simps size_end_def chunk_of_def split: if_splits)
  show "advances p q [c] []" using assms q by (intro advances_by_one) simp_all
  show "g_chunked_state q = CHUNK_DONE" if "\<not> go" using that q(10) by blast
qed

text \<open>Skipping a byte of the line end, in the two states the decoder can be in behind the data.\<close>

lemma skip_byte:
  assumes "http_ok p" "g_chunked_read_pos p < resp_have p" "g_chunked_state p \<in> {CHUNK_DATA_SAW_CR, CHUNK_NEED_SIZE}"
    and "c = g_https_resp p ! (g_https_body_start p + g_chunked_read_pos p)" "c = 10"
  shows "advances p (p\<lparr>g_chunked_read_pos := g_chunked_read_pos p + 1\<rparr>) [c] []"
proof -
  have "chunk_byte c (chunk_of p) = (chunk_of (p\<lparr>g_chunked_read_pos := g_chunked_read_pos p + 1\<rparr>), [])"
    using assms(3,5) by (auto simp: chunk_byte.simps size_digit_def hex_val_def chunk_of_def)
  then show ?thesis using assms by (intro advances_by_one) auto
qed

lemma data_saw_cr_run:
  assumes "http_ok p" "g_chunked_read_pos p < resp_have p" "g_chunked_state p = CHUNK_DATA_SAW_CR"
    and "c = g_https_resp p ! (g_https_body_start p + g_chunked_read_pos p)"
  shows "\<exists>q bs. data_saw_cr (g_chunked_read_pos p) c p = Some q \<and> advances p q bs []"
proof -
  let ?rd = "g_chunked_read_pos p"
  define p1 where "p1 = (let p = (if c = 13 then p\<lparr>g_chunked_state := CHUNK_NEED_SIZE\<rparr> else p) in p\<lparr>g_chunked_read_pos := ?rd + 1\<rparr>)"
  have f: "g_https_resp p1 = g_https_resp p" "g_https_resp_len p1 = g_https_resp_len p"
    "g_https_body_start p1 = g_https_body_start p" "g_tts_play_pos p1 = g_tts_play_pos p" "g_https_chunked p1 = g_https_chunked p"
    "g_chunked_read_pos p1 = ?rd + 1" "g_chunked_write_pos p1 = g_chunked_write_pos p"
    "chunk_byte c (chunk_of p) = (chunk_of p1, [])" "g_chunked_state p1 \<in> {CHUNK_DATA_SAW_CR, CHUNK_NEED_SIZE}"
    using assms(3) by (simp_all add: p1_def Let_def chunk_byte.simps chunk_of_def)
  have a: "advances p p1 [c] []" using assms f by (intro advances_by_one) auto
  have h: "resp_have p1 = resp_have p" using f by (simp add: resp_have_def)
  have d: "data_saw_cr ?rd c p = (if ?rd + 1 < resp_have p1 then do {
       c \<leftarrow> mem_get (g_https_body_start p1 + (?rd + 1)) (g_https_resp p1);
       Some (if c = 10 then p1\<lparr>g_chunked_read_pos := ?rd + 2\<rparr> else p1) } else Some p1)"
    unfolding data_saw_cr_def p1_def Let_def by (rule refl)
  show ?thesis
  proof (cases "?rd + 1 < resp_have p1")
    case True
    let ?c = "g_https_resp p1 ! (g_https_body_start p1 + (?rd + 1))"
    have g: "mem_get (g_https_body_start p1 + (?rd + 1)) (g_https_resp p1) = Some ?c"
      using a True by (auto simp: advances_def http_ok_def mem_get_def resp_have_def)
    have ok: "http_ok p1" using a by (simp add: advances_def)
    show ?thesis
    proof (cases "?c = 10")
      case c: True
      have "advances p1 (p1\<lparr>g_chunked_read_pos := ?rd + 2\<rparr>) [?c] []"
        using skip_byte [OF ok, of ?c] True f(6,9) c by simp
      then show ?thesis using d g True c advances_trans [OF a] by fastforce
    next
      case False
      then show ?thesis using d g True a by auto
    qed
  next
    case False
    then show ?thesis using d a by auto
  qed
qed

lemma chunk_round_run:
  assumes "http_ok p" "g_chunked_read_pos p < resp_have p" "g_chunked_state p \<noteq> CHUNK_DONE"
  shows "\<exists>go q bs out. chunk_round now p = Some (go, q) \<and> advances p q bs out \<and> (\<not> go \<longrightarrow> g_chunked_state q = CHUNK_DONE)"
proof -
  let ?rd = "g_chunked_read_pos p"
  define c where "c = g_https_resp p ! (g_https_body_start p + ?rd)"
  have g: "mem_get (g_https_body_start p + ?rd) (g_https_resp p) = Some c"
    using assms(1,2) by (auto simp: c_def http_ok_def mem_get_def resp_have_def)
  show ?thesis
  proof (cases "g_chunked_state p")
    case CHUNK_NEED_SIZE
    then show ?thesis using need_size_run [OF assms(1,2) _ c_def] g by (auto simp: chunk_round_def Let_def)
  next
    case CHUNK_SIZE_SAW_CR
    obtain go q where q: "size_saw_cr now ?rd c p = (go, q)" by fastforce
    note r = size_saw_cr_run [OF assms(1,2) CHUNK_SIZE_SAW_CR c_def q]
    have "chunk_round now p = Some (go, q)" using q CHUNK_SIZE_SAW_CR g by (simp add: chunk_round_def Let_def)
    then show ?thesis using r by blast
  next
    case CHUNK_DATA
    then show ?thesis using chunk_copy_run [OF assms(1,2)] g by (fastforce simp: chunk_round_def Let_def)
  next
    case CHUNK_DATA_SAW_CR
    then show ?thesis using data_saw_cr_run [OF assms(1,2) _ c_def] g by (fastforce simp: chunk_round_def Let_def)
  qed (use assms(3) in simp)
qed

lemma chunked_decode_run:
  "http_ok p \<Longrightarrow> \<exists>q bs out. http_chunked_decode_in_place now p = Some q \<and> advances p q bs out \<and>
     (g_chunked_state q = CHUNK_DONE \<or> unparsed q = [])"
proof (induction now p rule: http_chunked_decode_in_place.induct)
  case (1 now p)
  show ?case
  proof (cases "g_chunked_read_pos p < resp_have p \<and> g_chunked_state p \<noteq> CHUNK_DONE")
    case True
    obtain go q bs out where r: "chunk_round now p = Some (go, q)" "advances p q bs out" "\<not> go \<longrightarrow> g_chunked_state q = CHUNK_DONE"
      using chunk_round_run [OF 1(2)] True by metis
    show ?thesis
    proof (cases go)
      case go: True
      have "http_ok q" using r(2) by (simp add: advances_def)
      then obtain q' bs' out' where "http_chunked_decode_in_place now q = Some q'" "advances q q' bs' out'"
          "g_chunked_state q' = CHUNK_DONE \<or> unparsed q' = []"
        using 1(1) [OF True r(1) refl go] by blast
      moreover from this have "advances p q' (bs @ bs') (out @ out')" using advances_trans [OF r(2)] by blast
      moreover have "http_chunked_decode_in_place now p = http_chunked_decode_in_place now q"
        using True r(1) go by (subst http_chunked_decode_in_place.simps) simp
      ultimately show ?thesis by metis
    next
      case False
      then show ?thesis using True r by (subst http_chunked_decode_in_place.simps) auto
    qed
  next
    case False
    have "g_chunked_state p = CHUNK_DONE \<or> unparsed p = []" using False length_body [OF 1(2)] by (auto simp: unparsed_def)
    then show ?thesis using False advances_refl [OF 1(2)]
      by (subst http_chunked_decode_in_place.simps) (auto intro: exI [of _ "[]"])
  qed
qed

section \<open>Receiving and compacting\<close>

lemma append_body:
  assumes "http_ok p" "g_https_resp_len p + length d < RESP_BUF_SIZE"
  shows "\<exists>r1 r2. mem_write (g_https_resp_len p) d (g_https_resp p) = Some r1 \<and>
    mem_write (g_https_resp_len p + length d) [0] r1 = Some r2 \<and> length r2 = RESP_BUF_SIZE \<and>
    take (g_https_body_start p) r2 = take (g_https_body_start p) (g_https_resp p) \<and>
    take (resp_have p + length d) (drop (g_https_body_start p) r2) = body p @ d"
proof -
  let ?h = "take (g_https_body_start p) (g_https_resp p)" and ?t = "drop (g_https_resp_len p) (g_https_resp p)"
  let ?n = "g_https_resp_len p" and ?b = "body p"
  note parts = resp_parts [OF assms(1)] and lb = length_body [OF assms(1)]
  have lr: "length (g_https_resp p) = RESP_BUF_SIZE" using assms(1) by (simp add: http_ok_def)
  have tk: "take ?n (g_https_resp p) = ?h @ ?b" unfolding parts(3) take_add by (simp add: body_def)
  let ?r1 = "?h @ ?b @ d @ drop (length d) ?t"
  have w1: "mem_write ?n d (g_https_resp p) = Some ?r1"
    using assms(2) lr tk by (simp add: mem_write_def add.commute)
  have lh: "length ?h = g_https_body_start p" by (rule parts(2))
  let ?r2 = "?h @ ?b @ d @ 0 # drop (Suc (length d)) ?t"
  have n: "?n + length d = length (?h @ ?b @ d)" using lh lb parts(3) by simp
  have l1: "length ?r1 = RESP_BUF_SIZE" using mem_write_length [OF w1] lr by simp
  have w2: "mem_write (?n + length d) [0] ?r1 = Some ?r2"
  proof -
    have "?n + length d + 1 \<le> length ?r1" using assms(2) l1 by simp
    then show ?thesis using n by (simp add: mem_write_def add.commute)
  qed
  have l2: "length ?r2 = RESP_BUF_SIZE" using mem_write_length [OF w2] l1 by simp
  have "take (g_https_body_start p) ?r2 = ?h" using lh by simp
  moreover have "take (resp_have p + length d) (drop (g_https_body_start p) ?r2) = ?b @ d" using lh lb by simp
  ultimately show ?thesis using w1 w2 l2 by blast
qed

lemma compact_body:
  assumes "http_ok p" "g_tts_play_pos p \<le> resp_have p" "g_https_chunked p" "g_tts_play_pos p \<le> g_chunked_write_pos p"
  shows "\<exists>q. http_resp_compact_locked p = Some q \<and> http_ok q \<and> decoded q = drop (g_tts_play_pos p) (decoded p) \<and>
    unparsed q = unparsed p \<and> chunk_of q = chunk_of p \<and> g_tts_play_pos q = 0 \<and> g_https_chunked q \<and>
    g_https_headers_done q = g_https_headers_done p \<and> g_tts_play_active q = g_tts_play_active p"
proof (cases "g_tts_play_pos p = 0")
  case True
  then show ?thesis using assms by (simp add: http_resp_compact_locked_def)
next
  case False
  define s base where "s = g_tts_play_pos p" and "base = g_https_body_start p"
  define h t d where "h = take base (g_https_resp p)" and "t = drop (g_https_resp_len p) (g_https_resp p)" and "d = body p"
  note parts = resp_parts [OF assms(1), folded base_def, folded h_def t_def d_def]
  have ld: "length d = resp_have p" using length_body [OF assms(1)] by (simp add: d_def)
  have s: "s \<le> resp_have p" "0 < s" "s \<le> g_chunked_write_pos p" using assms(2,4) False by (simp_all add: s_def)
  have lr: "length (g_https_resp p) = RESP_BUF_SIZE" using assms(1) by (simp add: http_ok_def)
  define keep where "keep = resp_have p - s"
  define x where "x = drop s d"
  have lx: "length x = keep" using ld by (simp add: x_def keep_def)
  define r where "r = (if 0 < keep then h @ (x @ drop keep d) @ t else g_https_resp p)"
  have rd: "mem_read (base + s) keep (g_https_resp p) = Some x"
    unfolding parts(1) using parts_read [OF parts(2), of s keep d t] s(1) ld by (simp add: keep_def x_def)
  have "mem_write (base + 0) x (h @ d @ t) = Some (h @ (take 0 d @ x @ drop (0 + length x) d) @ t)"
    using parts_write [OF parts(2), of 0 x d t] lx ld by (simp add: keep_def)
  then have wr: "mem_write base x (g_https_resp p) = Some (h @ (x @ drop keep d) @ t)"
    using parts(1) lx by simp
  have rr: "(if 0 < keep then do { x \<leftarrow> mem_read (base + s) keep (g_https_resp p); mem_write base x (g_https_resp p) }
      else Some (g_https_resp p)) = Some r"
    unfolding rd Option.bind.bind_lunit wr by (simp add: r_def)
  define q where "q = p\<lparr>g_https_resp := r, g_chunked_write_pos := g_chunked_write_pos p - s,
     g_chunked_read_pos := g_chunked_read_pos p - s, g_https_resp_len := g_https_resp_len p - s, g_tts_play_pos := 0\<rparr>"
  have ms: "min (g_tts_play_pos p) (resp_have p) = s" using s(1) by (simp add: s_def)
  have run: "http_resp_compact_locked p = Some q"
    unfolding http_resp_compact_locked_def Let_def ms base_def [symmetric] keep_def [symmetric] rr Option.bind.bind_lunit
    using False assms(3) by (simp add: q_def)
  have q: "g_https_resp q = r" "g_https_resp_len q = g_https_resp_len p - s" "g_https_body_start q = base"
    "g_chunked_read_pos q = g_chunked_read_pos p - s" "g_chunked_write_pos q = g_chunked_write_pos p - s"
    "g_tts_play_pos q = 0" "g_https_chunked q" "chunk_of q = chunk_of p" "g_https_headers_done q = g_https_headers_done p"
    "g_tts_play_active q = g_tts_play_active p" "g_chunked_state q = g_chunked_state p"
    "g_chunked_remaining q = g_chunked_remaining p"
    using assms(3) by (simp_all add: q_def base_def chunk_of_def)
  have l: "length r = RESP_BUF_SIZE"
  proof (cases "0 < keep")
    case True
    have "length (h @ (x @ drop keep d) @ t) = length (h @ d @ t)" using lx ld by (simp add: keep_def)
    then show ?thesis using True lr parts(1) by (simp add: r_def)
  qed (simp add: r_def lr)
  have hq: "resp_have q = keep" using parts(3) s(1) by (simp add: resp_have_def q keep_def base_def)
  have bq: "body q = drop s d"
  proof (cases "0 < keep")
    case True
    then show ?thesis using parts(2) lx by (simp add: body_def hq q r_def x_def [symmetric])
  next
    case False
    then show ?thesis using ld by (simp add: body_def hq keep_def)
  qed
  have "http_ok q"
    using assms(1) l s parts(3) by (auto simp: http_ok_def hq q keep_def base_def)
  moreover have "decoded q = drop s (decoded p)"
    using s(3) by (simp add: decoded_def bq q drop_take d_def)
  moreover have "unparsed q = unparsed p"
    using s(3) assms(1) by (simp add: unparsed_def bq q d_def http_ok_def)
  ultimately show ?thesis using run q by (simp add: s_def)
qed

section \<open>The stream from the network to the player\<close>

text \<open>The headers of a chunked reply have been read; what the player has taken lies at the beginning of the
  decoded bytes, and only a player that runs has taken any.\<close>

definition streaming :: "'d Phone \<Rightarrow> bool" where
  "streaming p \<longleftrightarrow> http_ok p \<and> g_https_headers_done p \<and> g_https_chunked p \<and>
     g_tts_play_pos p \<le> g_chunked_write_pos p \<and> (\<not> g_tts_play_active p \<longrightarrow> g_tts_play_pos p = 0)"

text \<open>From the bytes \<open>inp\<close> the decoder, started in \<open>c\<close>, has made \<open>played\<close> and what waits for the player.\<close>

definition feeds :: "Chunk \<Rightarrow> bytes \<Rightarrow> bytes \<Rightarrow> bytes \<Rightarrow> 'd Phone \<Rightarrow> bool" where
  "feeds c before inp played p \<longleftrightarrow> streaming p \<and> (\<exists>bs out. inp = bs @ unparsed p \<and>
     chunk_run bs c = (chunk_of p, out, []) \<and> before @ out = played @ drop (g_tts_play_pos p) (decoded p))"

text \<open>What goes on outside the buffer: at most the transfer is noted as complete.\<close>

definition same_call :: "'d Phone \<Rightarrow> 'd Phone \<Rightarrow> bool" where
  "same_call p q \<longleftrightarrow> g_https_headers_done q = g_https_headers_done p \<and> g_tts_play_active q = g_tts_play_active p \<and>
     g_https_body_opus q = g_https_body_opus p \<and> g_core1_tts_end_sent q = g_core1_tts_end_sent p \<and>
     phone_log q = phone_log p \<and> g_https_pcb q = g_https_pcb p \<and>
     (g_https_state q = g_https_state p \<or> g_https_state q = HC_DONE_OK)"

lemma same_call_refl: "same_call p p"
  by (simp add: same_call_def)

lemma same_call_trans: "same_call p q \<Longrightarrow> same_call q r \<Longrightarrow> same_call p r"
  by (auto simp: same_call_def)

lemma decode_frame:
  assumes "http_chunked_decode_in_place now p = Some q"
  shows "same_call p q"
  using assms
proof (induction now p rule: http_chunked_decode_in_place.induct)
  case (1 now p)
  have r: "same_call x y"
    if h: "chunk_round now x = Some (go, y)" for x y :: "'d Phone" and go
  proof -
    let ?rd = "g_chunked_read_pos x"
    obtain c where c: "(case g_chunked_state x of
        CHUNK_NEED_SIZE \<Rightarrow> Some (True, need_size ?rd c x)
      | CHUNK_SIZE_SAW_CR \<Rightarrow> Some (size_saw_cr now ?rd c x)
      | CHUNK_DATA \<Rightarrow> chunk_copy ?rd x
      | CHUNK_DATA_SAW_CR \<Rightarrow> map_option (Pair True) (data_saw_cr ?rd c x)
      | CHUNK_DONE \<Rightarrow> Some (False, x)) = Some (go, y)"
      using h by (auto simp: chunk_round_def Let_def Option.bind_eq_Some_conv)
    show ?thesis
    proof (cases "g_chunked_state x")
      case CHUNK_NEED_SIZE
      then show ?thesis using c by (auto simp: same_call_def need_size_def Let_def split: option.splits if_splits)
    next
      case CHUNK_SIZE_SAW_CR
      then show ?thesis using c by (auto simp: same_call_def size_saw_cr_def http_set_state_def Let_def split: if_splits)
    next
      case CHUNK_DATA
      then show ?thesis using c by (auto simp: same_call_def chunk_copy_def Let_def Option.bind_eq_Some_conv split: if_splits)
    next
      case CHUNK_DATA_SAW_CR
      then show ?thesis using c by (auto simp: same_call_def data_saw_cr_def Let_def Option.bind_eq_Some_conv split: if_splits)
    qed (use c in \<open>simp add: same_call_refl\<close>)
  qed
  show ?case
  proof (cases "g_chunked_read_pos p < resp_have p \<and> g_chunked_state p \<noteq> CHUNK_DONE")
    case True
    then obtain go p1 where "chunk_round now p = Some (go, p1)" "(if go then http_chunked_decode_in_place now p1 else Some p1) = Some q"
      using "1.prems" by (subst (asm) http_chunked_decode_in_place.simps) (auto simp: Option.bind_eq_Some_conv)
    then show ?thesis using "1.IH" [OF True, of "(go, p1)" go p1] r
      by (cases go) (auto intro: same_call_trans)
  next
    case False
    then show ?thesis using "1.prems"
      by (subst (asm) http_chunked_decode_in_place.simps) (simp only: if_False option.inject same_call_refl)
  qed
qed

lemma advances_streaming:
  assumes "advances p q bs out" "streaming p" "g_https_headers_done q = g_https_headers_done p" "g_tts_play_active q = g_tts_play_active p"
  shows "streaming q"
proof -
  have "length (decoded p) \<le> length (decoded q)" using assms(1) by (simp add: advances_def)
  then have "g_chunked_write_pos p \<le> g_chunked_write_pos q"
    using assms(1,2) length_body [of p] length_body [of q] by (auto simp: decoded_def advances_def streaming_def http_ok_def)
  then show ?thesis using assms by (auto simp: streaming_def advances_def same_transfer_def)
qed

lemma feeds_advance:
  assumes "feeds c b inp played p" "advances p q bs out" "streaming q"
  shows "feeds c b inp played q"
proof -
  obtain as o1 where a: "inp = as @ unparsed p" "chunk_run as c = (chunk_of p, o1, [])"
      "b @ o1 = played @ drop (g_tts_play_pos p) (decoded p)" "streaming p"
    using assms(1) by (auto simp: feeds_def)
  have r: "chunk_run (as @ bs) c = (chunk_of q, o1 @ out, [])"
    using chunk_run_append [OF a(2), of bs] assms(2) by (simp add: advances_def)
  have p: "g_tts_play_pos q = g_tts_play_pos p" "unparsed p = bs @ unparsed q" "decoded q = decoded p @ out"
    using assms(2) by (simp_all add: advances_def same_transfer_def)
  have "g_tts_play_pos p \<le> length (decoded p)"
    using a(4) length_body [of p] by (simp add: streaming_def decoded_def http_ok_def)
  then have "b @ o1 @ out = played @ drop (g_tts_play_pos q) (decoded q)" using a(3) p by simp
  then show ?thesis using r a(1) p(2) assms(3) by (auto simp: feeds_def)
qed

lemma feeds_decode:
  assumes "feeds c b inp played p"
  shows "\<exists>q. http_chunked_decode_in_place now p = Some q \<and> feeds c b inp played q \<and>
    (g_chunked_state q = CHUNK_DONE \<or> unparsed q = [])"
proof -
  have s: "streaming p" using assms by (simp add: feeds_def)
  then obtain q bs out where q: "http_chunked_decode_in_place now p = Some q" "advances p q bs out"
      "g_chunked_state q = CHUNK_DONE \<or> unparsed q = []"
    using chunked_decode_run [of p now] by (auto simp: streaming_def)
  then show ?thesis using feeds_advance [OF assms q(2)] advances_streaming [OF q(2) s] decode_frame [OF q(1)]
    by (auto simp: same_call_def)
qed

lemma feeds_compact:
  assumes "feeds c b inp played p"
  shows "\<exists>q. http_resp_compact_locked p = Some q \<and> feeds c b inp played q"
proof -
  have s: "streaming p" using assms by (simp add: feeds_def)
  have "g_tts_play_pos p \<le> resp_have p" using s by (simp add: streaming_def http_ok_def)
  then obtain q where q: "http_resp_compact_locked p = Some q" "http_ok q" "decoded q = drop (g_tts_play_pos p) (decoded p)"
    "unparsed q = unparsed p" "chunk_of q = chunk_of p" "g_tts_play_pos q = 0" "g_https_chunked q"
    "g_https_headers_done q = g_https_headers_done p" "g_tts_play_active q = g_tts_play_active p"
    using compact_body [of p] s by (auto simp: streaming_def)
  then have "feeds c b inp played q" using assms s by (auto simp: feeds_def streaming_def)
  then show ?thesis using q(1) by blast
qed

lemma feeds_arm: "feeds c b inp played p \<Longrightarrow> feeds c b inp played (arm_playback lib p)"
  by (auto simp: arm_playback_def tts_start_playback_def feeds_def streaming_def http_ok_def resp_have_def unparsed_def
      decoded_def body_def chunk_of_def Let_def)

lemma feeds_complete: "feeds c b inp played (body_complete now p) = feeds c b inp played p"
  by (simp add: body_complete_def http_set_state_def feeds_def streaming_def http_ok_def resp_have_def unparsed_def
      decoded_def body_def chunk_of_def)

lemma if_Some: "(c \<Longrightarrow> \<exists>q. f = Some q \<and> P q) \<Longrightarrow> P p \<Longrightarrow> \<exists>q. (if c then f else Some p) = Some q \<and> P q"
  by auto

lemma feeds_check:
  assumes "feeds c b inp played p"
  shows "\<exists>q. http_check_complete lib now p = Some q \<and> feeds c b inp played q"
proof -
  have h: "g_https_headers_done p" using assms by (simp add: feeds_def streaming_def)
  obtain p1 where p1: "(if g_https_body_opus p \<and> g_https_chunked p \<and> \<not> g_tts_play_active p
      then http_chunked_decode_in_place now p else Some p) = Some p1" "feeds c b inp played p1"
    using if_Some [where P = "feeds c b inp played" and f = "http_chunked_decode_in_place now p"] feeds_decode [OF assms, of now] assms
    by blast
  have "feeds c b inp played (body_complete now (arm_playback lib p1))"
    unfolding feeds_complete by (rule feeds_arm) (rule p1(2))
  then show ?thesis using h p1(1) by (simp add: http_check_complete_def)
qed

text \<open>A buffer that arrives is behind the bytes received, or lwIP keeps it.\<close>

lemma feeds_append:
  assumes "feeds c b inp played p" "g_https_resp_len p + length d < RESP_BUF_SIZE"
  shows "\<exists>r1 r2. mem_write (g_https_resp_len p) d (g_https_resp p) = Some r1 \<and>
    mem_write (g_https_resp_len p + length d) [0] r1 = Some r2 \<and>
    feeds c b (inp @ d) played (p\<lparr>g_recv_bytes := x, g_recv_pkts := y, g_https_resp := r2,
      g_https_resp_len := g_https_resp_len p + length d, g_https_state_at := now\<rparr>)"
proof -
  have s: "streaming p" "http_ok p" using assms(1) by (simp_all add: feeds_def streaming_def)
  obtain r1 r2 where r: "mem_write (g_https_resp_len p) d (g_https_resp p) = Some r1"
    "mem_write (g_https_resp_len p + length d) [0] r1 = Some r2" "length r2 = RESP_BUF_SIZE"
    "take (resp_have p + length d) (drop (g_https_body_start p) r2) = body p @ d"
    using append_body [OF s(2) assms(2)] by blast
  define q where "q = p\<lparr>g_recv_bytes := x, g_recv_pkts := y, g_https_resp := r2,
      g_https_resp_len := g_https_resp_len p + length d, g_https_state_at := now\<rparr>"
  have q: "g_https_resp q = r2" "g_https_resp_len q = g_https_resp_len p + length d" "g_https_body_start q = g_https_body_start p"
    "g_chunked_read_pos q = g_chunked_read_pos p" "g_chunked_write_pos q = g_chunked_write_pos p"
    "g_tts_play_pos q = g_tts_play_pos p" "g_https_chunked q = g_https_chunked p" "chunk_of q = chunk_of p"
    "g_https_headers_done q = g_https_headers_done p" "g_tts_play_active q = g_tts_play_active p"
    "g_chunked_state q = g_chunked_state p" "g_chunked_remaining q = g_chunked_remaining p"
    by (simp_all add: q_def chunk_of_def)
  have h: "resp_have q = resp_have p + length d" using s(2) by (simp add: resp_have_def q http_ok_def)
  have bq: "body q = body p @ d" using r(4) by (simp add: body_def h q)
  have le: "g_chunked_write_pos p \<le> resp_have p" "g_chunked_read_pos p \<le> resp_have p"
    using s(2) by (simp_all add: http_ok_def)
  have "unparsed q = unparsed p @ d" "decoded q = decoded p"
    using le length_body [OF s(2)] by (simp_all add: unparsed_def decoded_def bq q)
  moreover have "http_ok q" using s(2) r(3) assms(2) h by (auto simp: http_ok_def q)
  ultimately have "feeds c b (inp @ d) played q" using assms(1) by (auto simp: feeds_def streaming_def q)
  then show ?thesis using r(1,2) unfolding q_def by blast
qed

lemma feeds_recv:
  assumes "feeds c b inp played p"
  shows "\<exists>e q. https_recv_cb lib now (Some d) ERR_OK p = Some (e, q) \<and> e \<in> {ERR_OK, ERR_MEM} \<and>
    feeds c b (if e = ERR_OK then inp @ d else inp) played q"
proof -
  obtain p1 where p1: "(if RESP_BUF_SIZE \<le> g_https_resp_len p + length d then http_resp_compact_locked p else Some p) = Some p1"
      "feeds c b inp played p1"
    using if_Some [where P = "feeds c b inp played" and f = "http_resp_compact_locked p"] feeds_compact [OF assms] assms
    by blast
  show ?thesis
  proof (cases "RESP_BUF_SIZE \<le> g_https_resp_len p1 + length d")
    case True
    then show ?thesis using p1 by (auto simp: https_recv_cb_def)
  next
    case False
    let ?x = "g_recv_bytes p1 + of_nat (length d)" and ?y = "g_recv_pkts p1 + 1"
    obtain r1 r2 where r: "mem_write (g_https_resp_len p1) d (g_https_resp p1) = Some r1"
      "mem_write (g_https_resp_len p1 + length d) [0] r1 = Some r2"
      "feeds c b (inp @ d) played (p1\<lparr>g_recv_bytes := ?x, g_recv_pkts := ?y, g_https_resp := r2,
        g_https_resp_len := g_https_resp_len p1 + length d, g_https_state_at := now\<rparr>)"
      using feeds_append [OF p1(2), where d = d and x = ?x and y = ?y and now = now] False by auto
    from feeds_check [OF r(3), of lib now] show ?thesis
      using p1(1) False r(1,2) by (auto simp: https_recv_cb_def Let_def)
  qed
qed

lemma feeds_play:
  assumes "feeds c b inp played p" "g_tts_play_active p" "n \<le> length (decoded p) - g_tts_play_pos p"
  shows "feeds c b inp (played @ take n (drop (g_tts_play_pos p) (decoded p))) (p\<lparr>g_tts_play_pos := g_tts_play_pos p + n\<rparr>)"
proof -
  let ?q = "p\<lparr>g_tts_play_pos := g_tts_play_pos p + n\<rparr>"
  have v: "body ?q = body p" "decoded ?q = decoded p" "unparsed ?q = unparsed p" "chunk_of ?q = chunk_of p"
    by (simp_all add: body_def decoded_def unparsed_def resp_have_def chunk_of_def)
  have l: "length (decoded p) = g_chunked_write_pos p" "g_tts_play_pos p \<le> g_chunked_write_pos p"
    using assms(1) length_body [of p] by (simp_all add: feeds_def streaming_def decoded_def http_ok_def)
  have "streaming ?q" using assms l by (simp add: feeds_def streaming_def http_ok_def resp_have_def)
  moreover have "take n (drop (g_tts_play_pos p) (decoded p)) @ drop (g_tts_play_pos p + n) (decoded p) =
      drop (g_tts_play_pos p) (decoded p)"
    by (metis add.commute append_take_drop_id drop_drop)
  ultimately show ?thesis using assms(1) by (auto simp: feeds_def v)
qed

text \<open>What can happen while a reply streams in: lwIP hands over a buffer, the decoder runs, the player takes bytes,
  the buffer is compacted. The state is the one of the client, the bytes received and the bytes played.\<close>

inductive stream_step :: "'d Opus \<Rightarrow> 'd Phone \<times> bytes \<times> bytes \<Rightarrow> 'd Phone \<times> bytes \<times> bytes \<Rightarrow> bool" for lib where
  arrive: "https_recv_cb lib now (Some d) ERR_OK p = Some (ERR_OK, q) \<Longrightarrow> stream_step lib (p, inp, out) (q, inp @ d, out)"
| refuse: "https_recv_cb lib now (Some d) ERR_OK p = Some (ERR_MEM, q) \<Longrightarrow> stream_step lib (p, inp, out) (q, inp, out)"
| decode: "http_chunked_decode_in_place now p = Some q \<Longrightarrow> stream_step lib (p, inp, out) (q, inp, out)"
| compact: "http_resp_compact_locked p = Some q \<Longrightarrow> stream_step lib (p, inp, out) (q, inp, out)"
| play: "g_tts_play_active p \<Longrightarrow> n \<le> length (decoded p) - g_tts_play_pos p \<Longrightarrow>
    stream_step lib (p, inp, out)
      (p\<lparr>g_tts_play_pos := g_tts_play_pos p + n\<rparr>, inp, out @ take n (drop (g_tts_play_pos p) (decoded p)))"

lemma feeds_step:
  assumes "stream_step lib s s'" "feeds c b (fst (snd s)) (snd (snd s)) (fst s)"
  shows "feeds c b (fst (snd s')) (snd (snd s')) (fst s')"
  using assms(1)
proof cases
  case (arrive now d p q inp out)
  then show ?thesis using feeds_recv [of c b inp out p lib now d] assms(2) by auto
next
  case (refuse now d p q inp out)
  then show ?thesis using feeds_recv [of c b inp out p lib now d] assms(2) by auto
next
  case (decode now p q inp out)
  then show ?thesis using feeds_decode [of c b inp out p now] assms(2) by auto
next
  case (compact p q inp out)
  then show ?thesis using feeds_compact [of c b inp out p] assms(2) by auto
next
  case (play p n inp out)
  then show ?thesis using feeds_play [of c b inp out p n] assms(2) by simp
qed

lemma feeds_run:
  assumes "(stream_step lib)\<^sup>*\<^sup>* s s'" "feeds c b (fst (snd s)) (snd (snd s)) (fst s)"
  shows "feeds c b (fst (snd s')) (snd (snd s')) (fst s')"
  using assms by (induction rule: rtranclp_induct) (auto intro: feeds_step)

lemma feeds_start: "streaming p \<Longrightarrow> g_tts_play_pos p = 0 \<Longrightarrow> feeds (chunk_of p) (decoded p) (unparsed p) [] p"
  by (auto simp: feeds_def intro!: exI [of _ "[]"])

lemma stream_decoded:
  assumes "streaming p0" and "g_tts_play_pos p0 = 0" and "(stream_step lib)\<^sup>*\<^sup>* (p0, unparsed p0, []) (p, inp, played)"
  shows "\<exists>q. http_chunked_decode_in_place now p = Some q \<and>
     (case chunk_run inp (chunk_of p0) of (c, out, rest) \<Rightarrow>
        chunk_of q = c \<and> unparsed q = rest \<and> played @ drop (g_tts_play_pos q) (decoded q) = decoded p0 @ out)"
proof -
  have f: "feeds (chunk_of p0) (decoded p0) inp played p"
    using feeds_run [OF assms(3)] feeds_start [OF assms(1,2)] by simp
  obtain q where q: "http_chunked_decode_in_place now p = Some q" "feeds (chunk_of p0) (decoded p0) inp played q"
      "g_chunked_state q = CHUNK_DONE \<or> unparsed q = []"
    using feeds_decode [OF f] by blast
  obtain bs out where b: "inp = bs @ unparsed q" "chunk_run bs (chunk_of p0) = (chunk_of q, out, [])"
      "decoded p0 @ out = played @ drop (g_tts_play_pos q) (decoded q)"
    using q(2) by (auto simp: feeds_def)
  have "chunk_run (unparsed q) (chunk_of q) = (chunk_of q, [], unparsed q)"
    using q(3) by (auto simp: chunk_run_done chunk_of_def)
  then have "chunk_run inp (chunk_of p0) = (chunk_of q, out, unparsed q)"
    using chunk_run_append [OF b(2), of "unparsed q"] b(1) by simp
  then show ?thesis using q(1) b(3) by fastforce
qed

text \<open>C37: While a chunked reply streams in, no buffer that arrives, no decoding and no compaction leaves the receive
  buffer, in whatever order they and the player come. After the decoder has run, the bytes played and those waiting
  are the decoding, byte by byte and in order, of everything received, wherever the network has cut it.\<close>

theorem stream_reaches_player:
  assumes "streaming p0" and "g_tts_play_pos p0 = 0" and "(stream_step lib)\<^sup>*\<^sup>* (p0, unparsed p0, []) (p, inp, played)"
  shows "(\<forall>now d. https_recv_cb lib now (Some d) ERR_OK p \<noteq> None) \<and> http_resp_compact_locked p \<noteq> None \<and>
    (\<exists>q. http_chunked_decode_in_place now p = Some q \<and>
       (case chunk_run inp (chunk_of p0) of (c, out, rest) \<Rightarrow>
          chunk_of q = c \<and> unparsed q = rest \<and> played @ drop (g_tts_play_pos q) (decoded q) = decoded p0 @ out))"
proof -
  have f: "feeds (chunk_of p0) (decoded p0) inp played p"
    using feeds_run [OF assms(3)] feeds_start [OF assms(1,2)] by simp
  show ?thesis using stream_decoded [OF assms, of now] feeds_recv [OF f] feeds_compact [OF f] by blast
qed

text \<open>A body of three bytes is being received in one chunk, two bytes are there; the player takes one.\<close>

definition three_byte_reply :: "unit Phone" where
  "three_byte_reply = \<lparr>g_https_state = HC_REQUESTING, g_https_mode = HM_TTS, g_https_state_at = 0, g_https_host = [],
     g_https_resp = [51, 13, 10, 7, 8] @ replicate (RESP_BUF_SIZE - 5) 0, g_https_resp_len = 5, g_https_headers_done = True,
     g_https_body_start = 3, g_https_content_len = -1, g_tts_sample_rate = 16000, g_recv_bytes = 5, g_recv_pkts = 1,
     g_https_chunked = True, g_https_body_opus = True, g_chunked_read_pos = 2, g_chunked_write_pos = 2,
     g_chunked_state = CHUNK_DATA, g_https_req = [], g_https_req_len = 0, g_https_pcb = True, g_chunked_size_acc = 0,
     g_chunked_remaining = 1, g_chunked_in_ext = False, g_tts_play_active = True, g_tts_play_pos = 0,
     g_tts_pad_remaining = 0, g_core0_pcm_pending_len = 0, g_core0_tts_stream_done = False, g_core1_tts_end_sent = False,
     g_opus = \<lparr>g_decoder = None, g_decoder_sr = 0\<rparr>, phone_log = []\<rparr>"

lemma three_byte_reply_played:
  "stream_step lib (three_byte_reply, [], []) (three_byte_reply\<lparr>g_tts_play_pos := 1\<rparr>, [], [7])"
  using stream_step.play [of three_byte_reply 1 lib "[]" "[]"]
  by (simp add: three_byte_reply_def decoded_def body_def resp_have_def)

theorem stream_reaches_player_witness:
  "\<exists>q. http_chunked_decode_in_place 0 (three_byte_reply\<lparr>g_tts_play_pos := 1\<rparr>) = Some q \<and>
     [7] @ drop (g_tts_play_pos q) (decoded q) = [7, 8]"
proof -
  have s: "streaming three_byte_reply" "g_tts_play_pos three_byte_reply = 0" "unparsed three_byte_reply = []"
    "decoded three_byte_reply = [7, 8]"
    by (simp_all add: three_byte_reply_def streaming_def http_ok_def RESP_BUF_SIZE_def resp_have_def unparsed_def
        decoded_def body_def)
  have "(stream_step lib)\<^sup>*\<^sup>* (three_byte_reply, unparsed three_byte_reply, [])
      (three_byte_reply\<lparr>g_tts_play_pos := 1\<rparr>, [], [7])" for lib
    using three_byte_reply_played [of lib] s(3) by auto
  from stream_reaches_player [OF s(1,2) this, where now = 0] show ?thesis using s(4) by fastforce
qed

section \<open>A body that was sent in chunks\<close>

definition hex_digit :: "nat \<Rightarrow> u8" where
  "hex_digit n = (if n < 10 then of_nat (48 + n) else of_nat (87 + n))"

fun hex_text :: "nat \<Rightarrow> bytes" where
  "hex_text n = (if n < 16 then [hex_digit n] else hex_text (n div 16) @ [hex_digit (n mod 16)])"

declare hex_text.simps [simp del]

text \<open>A chunk with its extension, which has no CR, and the last chunk.\<close>

fun chunk_text :: "bytes \<times> bytes \<Rightarrow> bytes" where
  "chunk_text (ext, d) = hex_text (length d) @ (if ext = [] then [] else 59 # ext) @ [13, 10] @ d @ [13, 10]"

definition last_chunk :: bytes where "last_chunk = [48, 13, 10]"

definition chunk_fits :: "bytes \<times> bytes \<Rightarrow> bool" where
  "chunk_fits x \<longleftrightarrow> 13 \<notin> set (fst x) \<and> snd x \<noteq> [] \<and> length (snd x) < 2 ^ 32"

definition chunk_fresh :: "Chunk \<Rightarrow> bool" where
  "chunk_fresh c \<longleftrightarrow> ch_state c = CHUNK_NEED_SIZE \<and> ch_acc c = 0 \<and> \<not> ch_ext c"

lemma hex_digit_val:
  assumes "n < 16"
  shows "hex_val (hex_digit n) = Some (of_nat n) \<and> hex_digit n \<noteq> 13 \<and> hex_digit n \<noteq> 59"
proof -
  have "\<forall>n \<in> {..<16}. hex_val (hex_digit n) = Some (of_nat n) \<and> hex_digit n \<noteq> 13 \<and> hex_digit n \<noteq> 59"
    by (simp add: lessThan_nat_numeral lessThan_Suc hex_digit_def hex_val_def)
  then show ?thesis using assms by simp
qed

lemma run_hex_digit:
  assumes "ch_state c = CHUNK_NEED_SIZE" "\<not> ch_ext c" "n < 16"
  shows "chunk_run (hex_digit n # bs) c = chunk_run bs (c\<lparr>ch_acc := ch_acc c * 16 + of_nat n\<rparr>)"
  using assms hex_digit_val [OF assms(3)] by (simp add: chunk_byte.simps size_digit_def split: prod.split)

lemma run_hex_text:
  assumes "ch_state c = CHUNK_NEED_SIZE" "\<not> ch_ext c" "ch_acc c = 0"
  shows "chunk_run (hex_text n @ bs) c = chunk_run bs (c\<lparr>ch_acc := of_nat n\<rparr>)"
proof (induction n arbitrary: bs rule: hex_text.induct)
  case (1 n)
  show ?case
  proof (cases "n < 16")
    case True
    then show ?thesis using run_hex_digit [OF assms(1,2) True] assms(3) by (subst hex_text.simps) simp
  next
    case False
    have "(of_nat (n div 16) * 16 + of_nat (n mod 16) :: u32) = of_nat (n div 16 * 16 + n mod 16)"
      by (simp only: of_nat_add of_nat_mult of_nat_numeral)
    then have e: "(of_nat (n div 16) * 16 + of_nat (n mod 16) :: u32) = of_nat n" by simp
    have "chunk_run (hex_text n @ bs) c = chunk_run (hex_digit (n mod 16) # bs) (c\<lparr>ch_acc := of_nat (n div 16)\<rparr>)"
      using 1 [OF False] False by (subst hex_text.simps) simp
    also have "\<dots> = chunk_run bs (c\<lparr>ch_acc := of_nat n\<rparr>)"
      using assms(1,2) e by (subst run_hex_digit) simp_all
    finally show ?thesis .
  qed
qed

lemma run_ext:
  assumes "ch_state c = CHUNK_NEED_SIZE" "ch_ext c" "13 \<notin> set ext"
  shows "chunk_run (ext @ bs) c = chunk_run bs c"
  using assms(3)
proof (induction ext)
  case (Cons e ext)
  have "chunk_byte e c = (c, [])" using assms(1,2) Cons.prems by (simp add: chunk_byte.simps size_digit_def)
  then show ?case using Cons assms(1) by (simp split: prod.split)
qed simp

lemma run_size_line:
  assumes "chunk_fresh c" "13 \<notin> set ext"
  shows "chunk_run (hex_text n @ (if ext = [] then [] else 59 # ext) @ [13, 10] @ bs) c =
    chunk_run bs (c\<lparr>ch_rem := of_nat n, ch_acc := 0, ch_ext := False,
      ch_state := (if (of_nat n :: u32) = 0 then CHUNK_DONE else CHUNK_DATA)\<rparr>)"
proof -
  let ?c = "c\<lparr>ch_acc := of_nat n\<rparr>"
  have c: "ch_state c = CHUNK_NEED_SIZE" "\<not> ch_ext c" "ch_acc c = 0" using assms(1) by (simp_all add: chunk_fresh_def)
  have line: "chunk_run ([13, 10] @ bs) d = chunk_run bs (d\<lparr>ch_rem := of_nat n, ch_acc := 0, ch_ext := False,
      ch_state := (if (of_nat n :: u32) = 0 then CHUNK_DONE else CHUNK_DATA)\<rparr>)"
    if "ch_state d = CHUNK_NEED_SIZE" "ch_acc d = of_nat n" for d
    using that by (simp add: chunk_byte.simps size_digit_def size_end_def split: prod.split)
  show ?thesis
  proof (cases "ext = []")
    case True
    then show ?thesis using run_hex_text [OF c] line [of ?c] c by simp
  next
    case False
    have "chunk_run (59 # ext @ [13, 10] @ bs) ?c = chunk_run (ext @ [13, 10] @ bs) (?c\<lparr>ch_ext := True\<rparr>)"
      using c by (simp add: chunk_byte.simps size_digit_def split: prod.split)
    also have "\<dots> = chunk_run ([13, 10] @ bs) (?c\<lparr>ch_ext := True\<rparr>)"
      using c assms(2) by (intro run_ext) simp_all
    also have "\<dots> = chunk_run bs (?c\<lparr>ch_ext := True, ch_rem := of_nat n, ch_acc := 0, ch_ext := False,
        ch_state := (if (of_nat n :: u32) = 0 then CHUNK_DONE else CHUNK_DATA)\<rparr>)"
      using c by (subst line) simp_all
    finally show ?thesis using False run_hex_text [OF c] by simp
  qed
qed

lemma run_chunk:
  assumes "chunk_fresh c" "chunk_fits x"
  shows "\<exists>c'. chunk_fresh c' \<and> chunk_run (chunk_text x @ bs) c =
    (case chunk_run bs c' of (c2, out, r) \<Rightarrow> (c2, snd x @ out, r))"
proof -
  obtain ext d where x: "x = (ext, d)" by (cases x)
  have f: "13 \<notin> set ext" "d \<noteq> []" "length d < 2 ^ 32" using assms(2) by (simp_all add: x chunk_fits_def)
  have u: "unat (of_nat (length d) :: u32) = length d" using f(3) by (simp add: unat_of_nat)
  then have nz: "(of_nat (length d) :: u32) \<noteq> 0" using f(2) by (metis length_0_conv unat_0)
  let ?c1 = "c\<lparr>ch_rem := of_nat (length d), ch_acc := 0, ch_ext := False, ch_state := CHUNK_DATA\<rparr>"
  let ?c2 = "?c1\<lparr>ch_rem := 0, ch_state := CHUNK_DATA_SAW_CR\<rparr>"
  let ?c3 = "?c2\<lparr>ch_state := CHUNK_NEED_SIZE\<rparr>"
  have "chunk_run d ?c1 = (?c2, d, [])" using chunk_run_data [of ?c1 d] f(2) u by simp
  from chunk_run_append [OF this, of "[13, 10] @ bs"]
  have "chunk_run (d @ [13, 10] @ bs) ?c1 = (case chunk_run ([13, 10] @ bs) ?c2 of (c2, o2, r2) \<Rightarrow> (c2, d @ o2, r2))"
    by (simp split: prod.splits)
  moreover have "chunk_run ([13, 10] @ bs) ?c2 = chunk_run bs ?c3"
    by (simp add: chunk_byte.simps size_digit_def hex_val_def split: prod.split)
  moreover have "chunk_run (chunk_text x @ bs) c = chunk_run (d @ [13, 10] @ bs) ?c1"
    using run_size_line [OF assms(1) f(1), of "length d" "d @ [13, 10] @ bs"] nz by (simp add: x)
  moreover have "chunk_fresh ?c3" by (simp add: chunk_fresh_def)
  ultimately show ?thesis by (auto simp: x)
qed

lemma chunks_run:
  assumes "chunk_fresh c" and "\<forall>x \<in> set xs. chunk_fits x"
  shows "\<exists>c'. chunk_run (concat (map chunk_text xs) @ last_chunk @ rest) c = (c', concat (map snd xs), rest) \<and>
    ch_state c' = CHUNK_DONE"
  using assms
proof (induction xs arbitrary: c)
  case Nil
  have h: "hex_text 0 = [48]" by (subst hex_text.simps) (simp add: hex_digit_def)
  show ?case using run_size_line [OF Nil(1), of "[]" 0 rest] by (simp add: h last_chunk_def chunk_run_done)
next
  case (Cons x xs)
  obtain c1 where c1: "chunk_fresh c1" "chunk_run (chunk_text x @ concat (map chunk_text xs) @ last_chunk @ rest) c =
      (case chunk_run (concat (map chunk_text xs) @ last_chunk @ rest) c1 of (c2, out, r) \<Rightarrow> (c2, snd x @ out, r))"
    using run_chunk [OF Cons.prems(1), of x "concat (map chunk_text xs) @ last_chunk @ rest"] Cons.prems(2) by auto
  show ?case using Cons.IH [OF c1(1)] Cons.prems(2) c1(2) by auto
qed

text \<open>C38: A server that sends a reply in chunks of any sizes, with or without extensions, is understood, however the network cuts
  the text and whatever the player has taken in between: once all of it has been received, the decoder in place ends in its final state, stops
  behind the last chunk, and the bytes played with those still waiting are the bytes of the chunks, no more and no less.\<close>

theorem chunked_reply_played:
  assumes "streaming p0" and "g_tts_play_pos p0 = 0" and "decoded p0 = []" and "chunk_fresh (chunk_of p0)"
    and "\<forall>x \<in> set xs. chunk_fits x"
    and "(stream_step lib)\<^sup>*\<^sup>* (p0, unparsed p0, []) (p, concat (map chunk_text xs) @ last_chunk @ rest, played)"
  shows "\<exists>q. http_chunked_decode_in_place now p = Some q \<and> g_chunked_state q = CHUNK_DONE \<and> unparsed q = rest \<and>
    played @ drop (g_tts_play_pos q) (decoded q) = concat (map snd xs)"
proof -
  obtain c where c: "chunk_run (concat (map chunk_text xs) @ last_chunk @ rest) (chunk_of p0) = (c, concat (map snd xs), rest)"
    "ch_state c = CHUNK_DONE" using chunks_run [OF assms(4,5)] by blast
  obtain q where "http_chunked_decode_in_place now p = Some q" "chunk_of q = c" "unparsed q = rest"
    "played @ drop (g_tts_play_pos q) (decoded q) = concat (map snd xs)"
    using stream_decoded [OF assms(1,2,6), of now] c(1) assms(3) by auto
  then show ?thesis using c(2) by (auto simp: chunk_of_def)
qed

text \<open>A reply of three bytes in one chunk with an extension, all of it there and not yet decoded.\<close>

definition fresh_reply :: "unit Phone" where
  "fresh_reply = three_byte_reply\<lparr>
     g_https_resp := [51, 59, 120, 13, 10, 7, 8, 9, 13, 10, 48, 13, 10] @ replicate (RESP_BUF_SIZE - 13) 0,
     g_https_resp_len := 13, g_https_body_start := 0, g_chunked_read_pos := 0, g_chunked_write_pos := 0,
     g_chunked_state := CHUNK_NEED_SIZE, g_chunked_remaining := 0\<rparr>"

theorem chunked_reply_played_witness:
  "\<exists>q. http_chunked_decode_in_place 0 fresh_reply = Some q \<and> g_chunked_state q = CHUNK_DONE \<and> unparsed q = [] \<and>
    drop (g_tts_play_pos q) (decoded q) = [7, 8, 9]"
proof -
  have s: "streaming fresh_reply" "g_tts_play_pos fresh_reply = 0" "decoded fresh_reply = []" "chunk_fresh (chunk_of fresh_reply)"
    "unparsed fresh_reply = [51, 59, 120, 13, 10, 7, 8, 9, 13, 10, 48, 13, 10]"
    by (simp_all add: fresh_reply_def three_byte_reply_def streaming_def http_ok_def RESP_BUF_SIZE_def resp_have_def unparsed_def
        decoded_def body_def chunk_of_def chunk_fresh_def)
  have t: "concat (map chunk_text [([120], [7, 8, 9])]) @ last_chunk @ [] = unparsed fresh_reply"
    by (simp add: s(5) hex_text.simps hex_digit_def last_chunk_def)
  have "(stream_step lib)\<^sup>*\<^sup>* (fresh_reply, unparsed fresh_reply, [])
      (fresh_reply, concat (map chunk_text [([120], [7, 8, 9])]) @ last_chunk @ [], [])" for lib
    unfolding t by simp
  from chunked_reply_played [OF s(1-4) _ this, where now = 0] show ?thesis by (auto simp: chunk_fits_def)
qed

end
