(* ===== verification/Phone_Player.thy ===== *)
theory Phone_Player
  imports Phone_Stream
begin

text \<open>
  The pump of core 1 (\<open>tts_forward_pump\<close> in \<^verbatim>\<open>src/examples/ito-denwa/src/tts.c\<close>): it cuts the decoded body into Opus
  packets and hands them to the other core, while the reply still streams in.

  \<^item> \<open>room\<close> is what \<open>ic_send_avail\<close> answers; it depends on the messages sent so far, and may answer differently
    in each call, because the other core takes messages out.
  \<^item> \<open>ic_send\<close> adds the message to \<open>phone_log\<close>.
\<close>

section \<open>The pump\<close>

definition TTS_COMPACT_THRESHOLD :: nat where "TTS_COMPACT_THRESHOLD = 2048"
definition TTS_FWD_MAX_FRAMES_PER_PASS :: nat where "TTS_FWD_MAX_FRAMES_PER_PASS = 4"
definition TTS_FWD_CHUNK_SIZE :: nat where "TTS_FWD_CHUNK_SIZE = 1024"
definition OPUS_STREAM_MAX_PACKET :: nat where "OPUS_STREAM_MAX_PACKET = 1500"

definition tts_resp_compact :: "'d Phone \<Rightarrow> 'd Phone option" where
  "tts_resp_compact p = (if g_tts_play_pos p < TTS_COMPACT_THRESHOLD then Some p else http_resp_compact_locked p)"

text \<open>No byte of the body will follow.\<close>

definition stream_final :: "'d Phone \<Rightarrow> bool" where
  "stream_final p \<longleftrightarrow> g_https_state p = HC_IDLE \<or> (g_https_chunked p \<and> g_chunked_state p = CHUNK_DONE)"

definition send_need :: "nat \<Rightarrow> u32" where
  "send_need n = 4 + ((of_nat n + 3) AND NOT 3)"

definition play_to :: "nat \<Rightarrow> 'd Phone \<Rightarrow> 'd Phone" where
  "play_to n p = p\<lparr>g_tts_play_pos := n\<rparr>"

definition sent_on :: "ic_msg_t \<Rightarrow> bytes \<Rightarrow> 'd Phone \<Rightarrow> 'd Phone" where
  "sent_on ty d p = p\<lparr>phone_log := phone_log p @ [IcSend ty d]\<rparr>"

text \<open>The loop over the packets; the result has the number of packets sent in this pass.\<close>

function opus_forward :: "(phone_event list \<Rightarrow> u32) \<Rightarrow> nat \<Rightarrow> nat \<Rightarrow> 'd Phone \<Rightarrow> (nat \<times> 'd Phone) option" where
  "opus_forward room have shipped p = (
     let pos = g_tts_play_pos p in
     if shipped < TTS_FWD_MAX_FRAMES_PER_PASS \<and> pos + 2 \<le> have then do {
       h \<leftarrow> mem_read (g_https_body_start p + pos) 2 (g_https_resp p);
       let L = unat (of_be16 h);
       if L = 0 then opus_forward room have shipped (play_to (pos + 2) p)
       else if OPUS_STREAM_MAX_PACKET < L then Some (shipped, play_to have p)
       else if have < pos + 2 + L then Some (shipped, if stream_final p then play_to have p else p)
       else if room (phone_log p) < send_need L then Some (shipped, p)
       else do {
         d \<leftarrow> mem_read (g_https_body_start p + pos + 2) L (g_https_resp p);
         opus_forward room have (shipped + 1) (play_to (pos + 2 + L) (sent_on IC_MSG_TTS_OPUS_PKT d p))
       }
     }
     else Some (shipped, p))"
  by pat_completeness auto
termination
  by (relation "measure (\<lambda>(room, have, shipped, p). have - g_tts_play_pos p)")
    (auto simp: play_to_def sent_on_def Let_def)

declare opus_forward.simps [simp del]

text \<open>Differences of lengths are of type \<open>size_t\<close>.\<close>

definition size_diff :: "nat \<Rightarrow> nat \<Rightarrow> nat" where
  "size_diff a b = unat (of_nat a - of_nat b :: u32)"

definition pcm_forward :: "(phone_event list \<Rightarrow> u32) \<Rightarrow> nat \<Rightarrow> 'd Phone \<Rightarrow> 'd Phone option" where
  "pcm_forward room have p = (
     let pos = g_tts_play_pos p; bytes_left = size_diff have pos in
     if 2 \<le> bytes_left then
       let n = (if TTS_FWD_CHUNK_SIZE < bytes_left then TTS_FWD_CHUNK_SIZE else bytes_left) div 2 * 2 in
       if send_need n \<le> room (phone_log p) then do {
         d \<leftarrow> mem_read (g_https_body_start p + pos) n (g_https_resp p);
         tts_resp_compact (play_to (pos + n) (sent_on IC_MSG_TTS_PCM_CHUNK d p))
       }
       else Some p
     else Some p)"

definition tts_forward_pump :: "u32 \<Rightarrow> (phone_event list \<Rightarrow> u32) \<Rightarrow> 'd Phone \<Rightarrow> (bool \<times> 'd Phone) option" where
  "tts_forward_pump now room p = (
     if \<not> g_tts_play_active p then Some (False, p)
     else if g_core1_tts_end_sent p then Some (False, p)
     else if \<not> g_https_headers_done p then Some (True, p)
     else do {
       p \<leftarrow> (if g_https_chunked p then http_chunked_decode_in_place now p else Some p);
       let have = (if g_https_chunked p then g_chunked_write_pos p else resp_have p);
       p \<leftarrow> (if g_https_body_opus p then do {
           (shipped, p) \<leftarrow> opus_forward room have 0 p;
           if 0 < shipped then tts_resp_compact p else Some p
         }
         else pcm_forward room have p);
       Some (if stream_final p \<and> size_diff have (g_tts_play_pos p) < 2
         then (False, (sent_on IC_MSG_TTS_END [] p)\<lparr>g_core1_tts_end_sent := True\<rparr>) else (True, p))
     })"

section \<open>The packets of a body\<close>

text \<open>A packet with its length; the server also sends empty ones.\<close>

definition packet_text :: "bytes \<Rightarrow> bytes" where
  "packet_text d = be16 (of_nat (length d)) @ d"

abbreviation packets_text :: "bytes list \<Rightarrow> bytes" where
  "packets_text ds \<equiv> concat (map packet_text ds)"

definition packet_fits :: "bytes \<Rightarrow> bool" where
  "packet_fits d \<longleftrightarrow> length d \<le> OPUS_STREAM_MAX_PACKET"

text \<open>The Opus packets among the messages sent.\<close>

definition opus_sent :: "phone_event list \<Rightarrow> bytes list" where
  "opus_sent log = concat (map (\<lambda>e. case e of IcSend IC_MSG_TTS_OPUS_PKT d \<Rightarrow> [d] | _ \<Rightarrow> []) log)"

definition nonempty :: "bytes list \<Rightarrow> bytes list" where
  "nonempty = filter (\<lambda>d. d \<noteq> [])"

lemma opus_sent_simps [simp]:
  "opus_sent [] = []" "opus_sent (l @ m) = opus_sent l @ opus_sent m"
  "opus_sent [IcSend IC_MSG_TTS_OPUS_PKT d] = [d]" "opus_sent [IcSend IC_MSG_TTS_END d] = []"
  "opus_sent [IcSend IC_MSG_TTS_PCM_CHUNK d] = []"
  by (simp_all add: opus_sent_def)

lemma packet_head:
  assumes "packet_fits d" "packet_text d @ r = be16 w @ t"
  shows "unat w = length d \<and> t = d @ r"
proof -
  have "be16 (of_nat (length d)) = be16 w \<and> d @ r = t"
    using assms(2) by (subst (asm) packet_text_def) (simp add: append_eq_append_conv)
  moreover have "unat (of_nat (length d) :: u16) = length d"
    using assms(1) by (simp add: packet_fits_def OPUS_STREAM_MAX_PACKET_def unat_of_nat)
  ultimately show ?thesis by (metis be16_inject)
qed

section \<open>One pass\<close>

definition handed :: "nat \<Rightarrow> phone_event list \<Rightarrow> 'd Phone \<Rightarrow> 'd Phone" where
  "handed n l p = p\<lparr>g_tts_play_pos := n, phone_log := l\<rparr>"

lemma handed_handed [simp]: "handed n l (handed m k p) = handed n l p"
  by (simp add: handed_def)

lemma moved_handed:
  "play_to n p = handed n (phone_log p) p" "sent_on ty d p = handed (g_tts_play_pos p) (phone_log p @ [IcSend ty d]) p"
  by (simp_all add: play_to_def sent_on_def handed_def)

lemma handed_same [simp]: "handed (g_tts_play_pos p) (phone_log p) p = p"
  by (simp add: handed_def)

lemma handed_views [simp]:
  "body (handed n l p) = body p" "decoded (handed n l p) = decoded p" "unparsed (handed n l p) = unparsed p"
  "chunk_of (handed n l p) = chunk_of p" "stream_final (handed n l p) = stream_final p"
  "g_tts_play_pos (handed n l p) = n" "phone_log (handed n l p) = l"
  "g_chunked_write_pos (handed n l p) = g_chunked_write_pos p" "g_https_body_start (handed n l p) = g_https_body_start p"
  "g_https_resp (handed n l p) = g_https_resp p" "g_tts_play_active (handed n l p) = g_tts_play_active p"
  by (simp_all add: handed_def body_def decoded_def unparsed_def resp_have_def chunk_of_def stream_final_def)

lemma streaming_handed:
  "streaming p \<Longrightarrow> g_tts_play_active p \<Longrightarrow> n \<le> g_chunked_write_pos p \<Longrightarrow> streaming (handed n l p)"
  by (simp add: handed_def streaming_def http_ok_def resp_have_def)

lemma length_decoded: "streaming p \<Longrightarrow> length (decoded p) = g_chunked_write_pos p"
  using length_body [of p] by (simp add: streaming_def decoded_def http_ok_def)

lemma decoded_read:
  assumes "streaming p" "i + n \<le> g_chunked_write_pos p"
  shows "mem_read (g_https_body_start p + i) n (g_https_resp p) = Some (take n (drop i (decoded p)))"
proof -
  let ?xs = "drop (g_https_body_start p) (g_https_resp p)"
  have w: "g_chunked_write_pos p \<le> resp_have p" "g_https_body_start p + resp_have p \<le> length (g_https_resp p)"
    using assms(1) by (simp_all add: streaming_def http_ok_def resp_have_def)
  have "take n (drop i (take (g_chunked_write_pos p) (take (resp_have p) ?xs))) = take n (drop i ?xs)"
    using assms(2) w(1) by (simp add: drop_take)
  then have "take n (drop i (decoded p)) = take n (drop (g_https_body_start p + i) (g_https_resp p))"
    by (simp add: decoded_def body_def add.commute)
  then show ?thesis using assms(2) w by (simp add: mem_read_def)
qed

lemma opus_stop:
  "\<not> (k < TTS_FWD_MAX_FRAMES_PER_PASS \<and> g_tts_play_pos p + 2 \<le> have) \<Longrightarrow> opus_forward room have k p = Some (k, p)"
  by (subst opus_forward.simps, unfold Let_def, rule if_not_P)

lemma opus_go:
  "k < TTS_FWD_MAX_FRAMES_PER_PASS \<Longrightarrow> g_tts_play_pos p + 2 \<le> have \<Longrightarrow>
   mem_read (g_https_body_start p + g_tts_play_pos p) 2 (g_https_resp p) = Some h \<Longrightarrow> unat (of_be16 h) = L \<Longrightarrow>
   L \<le> OPUS_STREAM_MAX_PACKET \<Longrightarrow>
   opus_forward room have k p =
    (if L = 0 then opus_forward room have k (handed (g_tts_play_pos p + 2) (phone_log p) p)
     else if have < g_tts_play_pos p + 2 + L then Some (k, if stream_final p then play_to have p else p)
     else if room (phone_log p) < send_need L then Some (k, p)
     else do {
       d \<leftarrow> mem_read (g_https_body_start p + g_tts_play_pos p + 2) L (g_https_resp p);
       opus_forward room have (k + 1) (handed (g_tts_play_pos p + 2 + L) (phone_log p @ [IcSend IC_MSG_TTS_OPUS_PKT d]) p)
     })"
  by (subst opus_forward.simps) (simp add: Let_def moved_handed cong: if_cong)

text \<open>A round of the loop at a packet: it stops, or it goes on behind the packet.\<close>

lemma opus_round:
  assumes "streaming p" "packet_fits d" "drop (g_tts_play_pos p) (decoded p) @ rest = packet_text d @ t"
    and "stream_final p \<longrightarrow> rest = []" "have = g_chunked_write_pos p" "pos = g_tts_play_pos p"
  shows "opus_forward room have k p =
    (if TTS_FWD_MAX_FRAMES_PER_PASS \<le> k \<or> have < pos + length (packet_text d) \<or>
        (d \<noteq> [] \<and> room (phone_log p) < send_need (length d)) then Some (k, p)
     else if d = [] then opus_forward room have k (handed (pos + length (packet_text d)) (phone_log p) p)
     else opus_forward room have (k + 1)
       (handed (pos + length (packet_text d)) (phone_log p @ [IcSend IC_MSG_TTS_OPUS_PKT d]) p))"
proof -
  have l: "length (decoded p) = have" "pos \<le> have" using length_decoded assms by (auto simp: streaming_def)
  have t: "length (packet_text d) = 2 + length d" by (simp add: packet_text_def)
  show ?thesis
  proof (cases "k < TTS_FWD_MAX_FRAMES_PER_PASS \<and> pos + 2 \<le> have")
    case False
    then show ?thesis using opus_stop [of k p "have" room] t assms(6) by auto
  next
    case True
    define h where "h = take 2 (drop pos (decoded p))"
    have h: "length h = 2" "drop pos (decoded p) = h @ drop (pos + 2) (decoded p)"
      using True l append_take_drop_id [of 2 "drop pos (decoded p)"] by (auto simp: h_def add.commute min_def)
    obtain a b where ab: "h = [a, b]" using h(1) by (auto simp: length_2_conv)
    have "be16 (of_be16 h) = h" by (simp only: ab be16_of_be16)
    moreover have "packet_text d @ t = h @ drop (pos + 2) (decoded p) @ rest"
      using assms(3,6) h(2) by (metis append_assoc)
    ultimately have "packet_text d @ t = be16 (of_be16 h) @ drop (pos + 2) (decoded p) @ rest" by simp
    from packet_head [OF assms(2) this] have hd: "unat (of_be16 h) = length d" "drop (pos + 2) (decoded p) @ rest = d @ t"
      by auto
    have rd: "mem_read (g_https_body_start p + pos) 2 (g_https_resp p) = Some h"
      using True assms(5) by (simp add: decoded_read [OF assms(1)] h_def)
    have cut: "\<not> stream_final p" if "have < pos + 2 + length d"
    proof -
      have "have - (pos + 2) < length d" using that conjunct2 [OF True] by linarith
      then have "length (drop (pos + 2) (decoded p)) < length d" by (simp add: l(1))
      then have "rest \<noteq> []" using hd(2) by (metis append_Nil2 length_append not_add_less1)
      then show ?thesis using assms(4) by auto
    qed
    have dd: "mem_read (g_https_body_start p + pos + 2) (length d) (g_https_resp p) = Some d" if "\<not> have < pos + 2 + length d"
    proof -
      have "take (length d) (drop (pos + 2) (decoded p)) = d"
        using arg_cong [OF hd(2), of "take (length d)"] that l(1) by simp
      then show ?thesis using that assms(5) decoded_read [OF assms(1), of "pos + 2" "length d"] by (simp add: add.assoc)
    qed
    have L: "length d \<le> OPUS_STREAM_MAX_PACKET" using assms(2) by (simp add: packet_fits_def)
    note go = opus_go [of k p "have" h "length d" room, folded assms(6), OF _ _ rd hd(1) L]
    show ?thesis
    proof (cases "have < pos + 2 + length d")
      case True
      then show ?thesis using go cut t \<open>k < TTS_FWD_MAX_FRAMES_PER_PASS \<and> pos + 2 \<le> have\<close> by auto
    next
      case False
      then show ?thesis using go dd t True by auto
    qed
  qed
qed

text \<open>A pass over a body of well-formed packets: it sends the packets of \<open>gs\<close> that are not empty, and no part of a
  packet. It ends because it was long enough, because no packet is complete or because there is no room.\<close>

definition pass_over :: "(phone_event list \<Rightarrow> u32) \<Rightarrow> nat \<Rightarrow> bytes list \<Rightarrow> 'd Phone \<Rightarrow> bool" where
  "pass_over room n ds q \<longleftrightarrow> TTS_FWD_MAX_FRAMES_PER_PASS \<le> n \<or>
     (case ds of [] \<Rightarrow> True | d # _ \<Rightarrow>
        g_chunked_write_pos q < g_tts_play_pos q + length (packet_text d) \<or> room (phone_log q) < send_need (length d))"

definition passes :: "(phone_event list \<Rightarrow> u32) \<Rightarrow> bytes list \<Rightarrow> bytes list \<Rightarrow> 'd Phone \<Rightarrow> 'd Phone \<Rightarrow> bool" where
  "passes room gs es p q \<longleftrightarrow> q = handed (g_tts_play_pos p + length (packets_text gs)) (phone_log q) p \<and>
     g_tts_play_pos p + length (packets_text gs) \<le> g_chunked_write_pos p \<and>
     opus_sent (phone_log q) = opus_sent (phone_log p) @ nonempty gs"

lemma passes_Cons:
  assumes "passes room gs es p' q"
    and "p' = handed (g_tts_play_pos p + length (packet_text d)) l p" "opus_sent l = opus_sent (phone_log p) @ nonempty [d]"
  shows "passes room (d # gs) es p q"
  using assms by (simp add: passes_def nonempty_def add.assoc)

lemma opus_forward_passes:
  assumes "streaming p" "g_tts_play_active p" "\<forall>d \<in> set ds. packet_fits d"
    and "drop (g_tts_play_pos p) (decoded p) @ rest = packets_text ds" "stream_final p \<longrightarrow> rest = []"
  shows "\<exists>gs es q. opus_forward room (g_chunked_write_pos p) k p = Some (k + length (nonempty gs), q) \<and> ds = gs @ es \<and>
    passes room gs es p q \<and> pass_over room (k + length (nonempty gs)) es q"
  using assms
proof (induction ds arbitrary: p k)
  case Nil
  have "opus_forward room (g_chunked_write_pos p) k p = Some (k, p)"
    using Nil.prems length_decoded [of p] by (intro opus_stop) simp
  then show ?case using Nil.prems by (auto simp: passes_def pass_over_def nonempty_def streaming_def)
next
  case (Cons d ds)
  let ?pos = "g_tts_play_pos p" and ?have = "g_chunked_write_pos p"
  have l: "length (decoded p) = ?have" "?pos \<le> ?have" using length_decoded Cons.prems(1) by (auto simp: streaming_def)
  note r = opus_round [OF Cons.prems(1) _ _ Cons.prems(5) refl refl, of d "packets_text ds" room k]
  show ?case
  proof (cases "TTS_FWD_MAX_FRAMES_PER_PASS \<le> k \<or> ?have < ?pos + length (packet_text d) \<or>
        (d \<noteq> [] \<and> room (phone_log p) < send_need (length d))")
    case True
    then have "opus_forward room ?have k p = Some (k, p)" using r Cons.prems by auto
    then show ?thesis using True l(2)
      by (intro exI [of _ "[]"] exI [of _ "d # ds"] exI [of _ p]) (auto simp: passes_def pass_over_def nonempty_def)
  next
    case False
    define l' where "l' = phone_log p @ (if d = [] then [] else [IcSend IC_MSG_TTS_OPUS_PKT d])"
    define p' where "p' = handed (?pos + length (packet_text d)) l' p"
    define k' where "k' = k + length (nonempty [d])"
    have g: "opus_forward room ?have k p = opus_forward room (g_chunked_write_pos p') k' p'"
      using r False Cons.prems by (auto simp: p'_def l'_def k'_def nonempty_def)
    have "drop (?pos + length (packet_text d)) (decoded p) @ rest = packets_text ds"
      using arg_cong [OF Cons.prems(4), of "drop (length (packet_text d))"] l(1) False by (simp add: add.commute)
    then obtain gs es q where q: "opus_forward room (g_chunked_write_pos p') k' p' = Some (k' + length (nonempty gs), q)"
      "ds = gs @ es" "passes room gs es p' q" "pass_over room (k' + length (nonempty gs)) es q"
      using Cons.IH [of p' k'] Cons.prems False streaming_handed [OF Cons.prems(1,2)] by (auto simp: p'_def)
    have n: "k' + length (nonempty gs) = k + length (nonempty (d # gs))" by (simp add: k'_def nonempty_def)
    have "passes room (d # gs) es p q"
      using passes_Cons [OF q(3) p'_def] by (simp add: l'_def nonempty_def)
    then show ?thesis using g q unfolding n by (intro exI [of _ "d # gs"] exI [of _ es] exI [of _ q]) simp
  qed
qed

section \<open>The pump while the reply streams in\<close>

text \<open>Playing \<open>n\<close> bytes more, whatever is sent.\<close>

lemma feeds_handed:
  assumes "feeds c b inp played p" "g_tts_play_active p" "g_tts_play_pos p + n \<le> g_chunked_write_pos p"
  shows "feeds c b inp (played @ take n (drop (g_tts_play_pos p) (decoded p))) (handed (g_tts_play_pos p + n) l p)"
proof -
  have s: "streaming p" using assms(1) by (simp add: feeds_def)
  have f: "feeds c b inp (played @ take n (drop (g_tts_play_pos p) (decoded p))) (p\<lparr>g_tts_play_pos := g_tts_play_pos p + n\<rparr>)"
    using assms length_decoded [OF s] by (intro feeds_play) simp_all
  moreover have "feeds c b inp x (handed m l p) = feeds c b inp x (p\<lparr>g_tts_play_pos := m\<rparr>)" for x m
    by (simp add: handed_def feeds_def streaming_def http_ok_def resp_have_def unparsed_def decoded_def body_def chunk_of_def)
  ultimately show ?thesis by blast
qed

lemma same_call_compact: "http_resp_compact_locked p = Some q \<Longrightarrow> same_call p q"
proof (cases "g_tts_play_pos p = 0")
  case True
  then show "http_resp_compact_locked p = Some q \<Longrightarrow> same_call p q" by (simp add: http_resp_compact_locked_def same_call_refl)
next
  case False
  assume "http_resp_compact_locked p = Some q"
  then show "same_call p q"
    unfolding http_resp_compact_locked_def Let_def if_not_P [OF False] Option.bind_eq_Some_conv option.inject
    by (elim exE conjE) (hypsubst, simp (no_asm) add: same_call_def)
qed

text \<open>An Opus reply is being played.\<close>

definition speaking :: "'d Phone \<Rightarrow> bool" where
  "speaking p \<longleftrightarrow> g_tts_play_active p \<and> g_https_body_opus p \<and> g_https_state p \<noteq> HC_IDLE"

lemma same_call_speaking: "same_call p q \<Longrightarrow> speaking p \<Longrightarrow> speaking q"
  by (auto simp: same_call_def speaking_def)

lemma same_call_recv:
  assumes "https_recv_cb lib now (Some d) ERR_OK p = Some (e, q)" "speaking p" "g_https_headers_done p"
  shows "same_call p q"
proof -
  obtain p1 where p1: "(if RESP_BUF_SIZE \<le> g_https_resp_len p + length d then http_resp_compact_locked p else Some p) = Some p1"
    and r: "(if RESP_BUF_SIZE \<le> g_https_resp_len p1 + length d then Some (ERR_MEM, p1) else do {
         let p = p1\<lparr>g_recv_bytes := g_recv_bytes p1 + of_nat (length d), g_recv_pkts := g_recv_pkts p1 + 1\<rparr>;
         resp \<leftarrow> mem_write (g_https_resp_len p) d (g_https_resp p);
         resp \<leftarrow> mem_write (g_https_resp_len p + length d) [0] resp;
         let p = p\<lparr>g_https_resp := resp, g_https_resp_len := g_https_resp_len p + length d, g_https_state_at := now\<rparr>;
         p \<leftarrow> http_check_complete lib now p;
         Some (ERR_OK, p)
       }) = Some (e, q)"
    using assms(1) by (auto simp: https_recv_cb_def Let_def Option.bind_eq_Some_conv)
  have s: "same_call p p1" using p1 by (auto simp: same_call_refl dest: same_call_compact split: if_splits)
  have a: "g_tts_play_active p1" "g_https_headers_done p1" using s assms(2,3) by (auto simp: same_call_def speaking_def)
  have "same_call p1 q"
    using r a by (auto simp: Let_def Option.bind_eq_Some_conv same_call_refl http_check_complete_def arm_playback_def
        body_complete_def http_set_state_def same_call_def split: if_splits)
  then show ?thesis using s same_call_trans by blast
qed

text \<open>What can happen: bytes of the reply arrive, lwIP is told to keep them, or the main loop calls the pump. The
  state is the one of core 1 and the bytes that have not arrived.\<close>

inductive speech_step :: "'d Opus \<Rightarrow> 'd Phone \<times> bytes \<Rightarrow> 'd Phone \<times> bytes \<Rightarrow> bool" for lib where
  arrive: "https_recv_cb lib now (Some d) ERR_OK p = Some (ERR_OK, q) \<Longrightarrow> speech_step lib (p, d @ tc) (q, tc)"
| refuse: "https_recv_cb lib now (Some d) ERR_OK p = Some (ERR_MEM, q) \<Longrightarrow> speech_step lib (p, d @ tc) (q, d @ tc)"
| pump: "tts_forward_pump now room p = Some (b, q) \<Longrightarrow> speech_step lib (p, tc) (q, tc)"

text \<open>A reply to be spoken: the bytes \<open>all\<close>, of which the decoder, started in \<open>c\<close>, makes the packets \<open>ds\<close>,
  behind what it had made before.\<close>

definition reply_of :: "Chunk \<Rightarrow> bytes \<Rightarrow> bytes \<Rightarrow> bytes list \<Rightarrow> bool" where
  "reply_of c before all ds \<longleftrightarrow> (\<forall>d \<in> set ds. packet_fits d) \<and>
     (case chunk_run all c of (c', out, r) \<Rightarrow> before @ out = packets_text ds)"

definition speech_ok :: "Chunk \<Rightarrow> bytes \<Rightarrow> bytes \<Rightarrow> bytes list \<Rightarrow> bytes list \<Rightarrow> bytes list \<Rightarrow> bytes list \<Rightarrow> 'd Phone \<Rightarrow> bytes \<Rightarrow> bool" where
  "speech_ok c before all ds old gs es p tc \<longleftrightarrow> speaking p \<and> ds = gs @ es \<and> opus_sent (phone_log p) = old @ nonempty gs \<and>
     (\<exists>inp. all = inp @ tc \<and> feeds c before inp (packets_text gs) p) \<and> (g_core1_tts_end_sent p \<longrightarrow> es = [])"

lemma speech_pending:
  assumes "reply_of c before all ds" "speech_ok c before all ds old gs es p tc"
  shows "\<exists>rest. drop (g_tts_play_pos p) (decoded p) @ rest = packets_text es \<and> (stream_final p \<longrightarrow> rest = [])"
proof -
  obtain bs o1 where b: "all = bs @ unparsed p @ tc" "chunk_run bs c = (chunk_of p, o1, [])"
      "before @ o1 = packets_text gs @ drop (g_tts_play_pos p) (decoded p)" "ds = gs @ es" "g_https_state p \<noteq> HC_IDLE"
    using assms(2) by (auto simp: speech_ok_def feeds_def speaking_def)
  obtain c2 o2 r2 where r: "chunk_run (unparsed p @ tc) (chunk_of p) = (c2, o2, r2)" using prod_cases3 by blast
  have "chunk_run all c = (c2, o1 @ o2, r2)" using chunk_run_append [OF b(2), of "unparsed p @ tc"] r b(1) by simp
  then have "packets_text gs @ drop (g_tts_play_pos p) (decoded p) @ o2 = packets_text gs @ packets_text es"
    using assms(1) b(3,4) by (simp add: reply_of_def flip: append_assoc)
  moreover have "o2 = []" if "stream_final p"
    using that b(5) r chunk_run_done [of "chunk_of p" "unparsed p @ tc"] by (simp add: stream_final_def chunk_of_def)
  ultimately show ?thesis by auto
qed

text \<open>The part of the pump behind the decoder.\<close>

lemma size_diff_le: "b \<le> a \<Longrightarrow> a < 2 ^ 32 \<Longrightarrow> size_diff a b = a - b"
  by (simp add: size_diff_def unat_sub word_le_nat_alt unat_of_nat)

lemma write_pos_small: "streaming p \<Longrightarrow> g_chunked_write_pos p < 2 ^ 32"
  by (auto simp: streaming_def http_ok_def resp_have_def RESP_BUF_SIZE_def)

lemma forward_speech:
  assumes "reply_of c before all ds" "speech_ok c before all ds old gs es p tc" "\<not> g_core1_tts_end_sent p"
  shows "\<exists>n q gs' es'. opus_forward room (g_chunked_write_pos p) 0 p = Some (n, q) \<and>
    speech_ok c before all ds old (gs @ gs') es' q tc \<and> \<not> g_core1_tts_end_sent q \<and> es = gs' @ es' \<and>
    n = length (nonempty gs') \<and> pass_over room n es' q \<and> g_chunked_write_pos q = g_chunked_write_pos p \<and>
    stream_final q = stream_final p"
proof -
  obtain inp where f: "all = inp @ tc" "feeds c before inp (packets_text gs) p" and sp: "speaking p" "ds = gs @ es"
      "opus_sent (phone_log p) = old @ nonempty gs"
    using assms(2) by (auto simp: speech_ok_def)
  have s: "streaming p" "g_tts_play_active p" using f(2) sp(1) by (simp_all add: feeds_def speaking_def)
  obtain rest where rest: "drop (g_tts_play_pos p) (decoded p) @ rest = packets_text es" "stream_final p \<longrightarrow> rest = []"
    using speech_pending [OF assms(1,2)] by blast
  have fits: "\<forall>d \<in> set es. packet_fits d" using assms(1) sp(2) by (simp add: reply_of_def)
  obtain gs' es' q where q: "opus_forward room (g_chunked_write_pos p) 0 p = Some (length (nonempty gs'), q)" "es = gs' @ es'"
      "passes room gs' es' p q" "pass_over room (length (nonempty gs')) es' q"
    using opus_forward_passes [OF s fits rest, of room 0] by auto
  let ?n = "length (packets_text gs')"
  have qh: "q = handed (g_tts_play_pos p + ?n) (phone_log q) p" "g_tts_play_pos p + ?n \<le> g_chunked_write_pos p"
      "opus_sent (phone_log q) = opus_sent (phone_log p) @ nonempty gs'"
    using q(3) by (simp_all add: passes_def)
  have "take ?n (drop (g_tts_play_pos p) (decoded p) @ rest) = packets_text gs'" using rest(1) q(2) by simp
  then have "take ?n (drop (g_tts_play_pos p) (decoded p)) = packets_text gs'" using qh(2) length_decoded [OF s(1)] by simp
  then have "feeds c before inp (packets_text (gs @ gs')) q"
    using feeds_handed [OF f(2) s(2) qh(2), of "phone_log q"] qh(1) by simp
  moreover have "speaking q" "g_core1_tts_end_sent q = g_core1_tts_end_sent p" "g_chunked_write_pos q = g_chunked_write_pos p"
      "stream_final q = stream_final p"
    using sp(1) by (subst qh(1), simp add: handed_def speaking_def stream_final_def)+
  ultimately show ?thesis using q(1,2,4) qh(3) sp(2,3) f(1) assms(3) by (auto simp: speech_ok_def nonempty_def)
qed

lemma compact_speech:
  assumes "speech_ok c before all ds old gs es p tc"
  shows "\<exists>q. tts_resp_compact p = Some q \<and> speech_ok c before all ds old gs es q tc \<and> same_call p q \<and>
    stream_final q = stream_final p \<and> (q = p \<or> (TTS_COMPACT_THRESHOLD \<le> g_tts_play_pos p \<and> g_tts_play_pos q = 0))"
proof (cases "g_tts_play_pos p < TTS_COMPACT_THRESHOLD")
  case True
  then show ?thesis using assms by (simp add: tts_resp_compact_def same_call_refl)
next
  case False
  obtain inp where f: "all = inp @ tc" "feeds c before inp (packets_text gs) p" using assms by (auto simp: speech_ok_def)
  obtain q where q: "http_resp_compact_locked p = Some q" "feeds c before inp (packets_text gs) q"
    using feeds_compact [OF f(2)] by blast
  have s: "streaming p" using f(2) by (simp add: feeds_def)
  have "g_tts_play_pos q = 0 \<and> chunk_of q = chunk_of p \<and> g_https_chunked q \<and> g_https_chunked p"
    using compact_body [of p] s q(1) by (auto simp: streaming_def http_ok_def)
  moreover have "g_https_state q \<noteq> HC_IDLE" "g_https_state p \<noteq> HC_IDLE"
    using same_call_speaking [OF same_call_compact [OF q(1)]] assms by (auto simp: speech_ok_def speaking_def)
  ultimately have "g_tts_play_pos q = 0 \<and> stream_final q = stream_final p" by (simp add: stream_final_def chunk_of_def)
  then show ?thesis
    using assms False f(1) q same_call_compact [OF q(1)] same_call_speaking [of p q]
    by (auto simp: tts_resp_compact_def speech_ok_def same_call_def)
qed

lemma end_speech:
  assumes "speech_ok c before all ds old gs [] p tc"
  shows "speech_ok c before all ds old gs [] ((sent_on IC_MSG_TTS_END [] p)\<lparr>g_core1_tts_end_sent := True\<rparr>) tc"
proof -
  have "feeds c before inp x ((sent_on IC_MSG_TTS_END [] p)\<lparr>g_core1_tts_end_sent := True\<rparr>) = feeds c before inp x p" for inp x
    by (simp add: sent_on_def feeds_def streaming_def http_ok_def resp_have_def unparsed_def decoded_def body_def chunk_of_def)
  then show ?thesis using assms by (simp add: speech_ok_def speaking_def sent_on_def)
qed

lemma nothing_left:
  assumes "reply_of c before all ds" "speech_ok c before all ds old gs es p tc" "stream_final p"
    and "g_chunked_write_pos p - g_tts_play_pos p < 2"
  shows "es = []"
proof -
  have s: "streaming p" using assms(2) by (auto simp: speech_ok_def feeds_def)
  have "drop (g_tts_play_pos p) (decoded p) = packets_text es" using speech_pending [OF assms(1,2)] assms(3) by auto
  then have "length (packets_text es) < 2" using assms(4) length_decoded [OF s] by (metis length_drop)
  then show ?thesis by (cases es) (simp_all add: packet_text_def)
qed

text \<open>The pump: \<open>p1\<close> is the state behind the decoder, \<open>p2\<close> behind the pass, \<open>p3\<close> behind the compaction.\<close>

definition pumped :: "bytes list \<Rightarrow> bytes list \<Rightarrow> (phone_event list \<Rightarrow> u32) \<Rightarrow> 'd Phone \<Rightarrow> 'd Phone \<Rightarrow> 'd Phone \<Rightarrow> bool" where
  "pumped gs es room p1 p2 p3 \<longleftrightarrow> pass_over room (length (nonempty gs)) es p2 \<and> g_chunked_write_pos p2 = g_chunked_write_pos p1 \<and>
     stream_final p2 = stream_final p1 \<and> stream_final p3 = stream_final p1 \<and>
     (p3 = p2 \<or> (gs \<noteq> [] \<and> TTS_COMPACT_THRESHOLD \<le> g_tts_play_pos p2 \<and> g_tts_play_pos p3 = 0))"

lemma pump_parts:
  assumes "reply_of c before all ds" "speech_ok c before all ds old gs es p tc" "\<not> g_core1_tts_end_sent p"
  obtains p1 p2 p3 gs' es' where "speech_ok c before all ds old gs es p1 tc" "g_chunked_state p1 = CHUNK_DONE \<or> unparsed p1 = []"
    "es = gs' @ es'" "pumped gs' es' room p1 p2 p3"
    "speech_ok c before all ds old (gs @ gs') es' p2 tc" "speech_ok c before all ds old (gs @ gs') es' p3 tc"
    "tts_forward_pump now room p = Some (if stream_final p3 \<and> size_diff (g_chunked_write_pos p1) (g_tts_play_pos p3) < 2
      then (False, (sent_on IC_MSG_TTS_END [] p3)\<lparr>g_core1_tts_end_sent := True\<rparr>) else (True, p3))"
proof -
  obtain inp where f: "all = inp @ tc" "feeds c before inp (packets_text gs) p" and sp: "speaking p"
    using assms(2) by (auto simp: speech_ok_def)
  have g: "g_tts_play_active p" "g_https_headers_done p" "g_https_chunked p"
    using f(2) sp by (simp_all add: feeds_def streaming_def speaking_def)
  obtain p1 where p1: "http_chunked_decode_in_place now p = Some p1" "feeds c before inp (packets_text gs) p1" "same_call p p1"
      "g_chunked_state p1 = CHUNK_DONE \<or> unparsed p1 = []"
    using feeds_decode [OF f(2), of now] decode_frame [of now p] by blast
  have s1: "speech_ok c before all ds old gs es p1 tc" "\<not> g_core1_tts_end_sent p1" "g_https_chunked p1" "g_https_body_opus p1"
    using assms(2) p1(2,3) f(1) same_call_speaking [OF p1(3) sp] assms(3)
    by (auto simp: speech_ok_def same_call_def feeds_def streaming_def speaking_def)
  obtain n p2 gs' es' where p2: "opus_forward room (g_chunked_write_pos p1) 0 p1 = Some (n, p2)"
      "speech_ok c before all ds old (gs @ gs') es' p2 tc" "es = gs' @ es'" "n = length (nonempty gs')" "pass_over room n es' p2"
      "g_chunked_write_pos p2 = g_chunked_write_pos p1" "stream_final p2 = stream_final p1"
    using forward_speech [OF assms(1) s1(1,2), of room] by blast
  obtain p3 where p3: "(if 0 < n then tts_resp_compact p2 else Some p2) = Some p3" "speech_ok c before all ds old (gs @ gs') es' p3 tc"
      "stream_final p3 = stream_final p2"
      "p3 = p2 \<or> (0 < n \<and> TTS_COMPACT_THRESHOLD \<le> g_tts_play_pos p2 \<and> g_tts_play_pos p3 = 0)"
    using compact_speech [OF p2(2)] p2(2) by (cases "0 < n") auto
  have e: "tts_forward_pump now room p = Some (if stream_final p3 \<and> size_diff (g_chunked_write_pos p1) (g_tts_play_pos p3) < 2
      then (False, (sent_on IC_MSG_TTS_END [] p3)\<lparr>g_core1_tts_end_sent := True\<rparr>) else (True, p3))"
    using assms(3) g p1(1) s1(3,4) p2(1) p3(1) by (simp add: tts_forward_pump_def Let_def)
  have "pumped gs' es' room p1 p2 p3" using p2 p3(3,4) by (auto simp: pumped_def nonempty_def)
  then show thesis using that [OF s1(1) p1(4) p2(3) _ p2(2) p3(2) e] by blast
qed

lemma pump_end:
  assumes "reply_of c before all ds" "pumped gs' es' room p1 p2 p3" "speech_ok c before all ds old gs es' p2 tc"
    and "stream_final p3" "size_diff (g_chunked_write_pos p1) (g_tts_play_pos p3) < 2"
  shows "es' = []"
proof -
  have st: "streaming p2" using assms(3) by (auto simp: speech_ok_def feeds_def)
  have w: "g_chunked_write_pos p2 = g_chunked_write_pos p1" using assms(2) by (simp add: pumped_def)
  have le: "g_tts_play_pos p2 \<le> g_chunked_write_pos p1" "g_chunked_write_pos p1 < 2 ^ 32"
    using st write_pos_small [OF st] w by (auto simp: streaming_def)
  consider "p3 = p2" | "TTS_COMPACT_THRESHOLD \<le> g_tts_play_pos p2" "g_tts_play_pos p3 = 0"
    using assms(2) by (auto simp: pumped_def)
  then show ?thesis
  proof cases
    case 1
    then show ?thesis using nothing_left [OF assms(1,3)] assms(4,5) size_diff_le [OF le] w by simp
  next
    case 2
    then show ?thesis using assms(5) le size_diff_le [of 0 "g_chunked_write_pos p1"] by (simp add: TTS_COMPACT_THRESHOLD_def)
  qed
qed

lemma pump_speech:
  assumes "reply_of c before all ds" "speech_ok c before all ds old gs es p tc"
  shows "\<exists>b q gs' es'. tts_forward_pump now room p = Some (b, q) \<and> speech_ok c before all ds old gs' es' q tc"
proof (cases "g_core1_tts_end_sent p")
  case True
  then show ?thesis using assms(2) by (auto simp: tts_forward_pump_def)
next
  case False
  show ?thesis
  proof (rule pump_parts [OF assms False, of room now])
    fix p1 p2 p3 gs' es'
    assume a: "pumped gs' es' room p1 p2 p3" "speech_ok c before all ds old (gs @ gs') es' p2 tc"
      "speech_ok c before all ds old (gs @ gs') es' p3 tc"
      "tts_forward_pump now room p = Some (if stream_final p3 \<and> size_diff (g_chunked_write_pos p1) (g_tts_play_pos p3) < 2
        then (False, (sent_on IC_MSG_TTS_END [] p3)\<lparr>g_core1_tts_end_sent := True\<rparr>) else (True, p3))"
    show ?thesis
    proof (cases "stream_final p3 \<and> size_diff (g_chunked_write_pos p1) (g_tts_play_pos p3) < 2")
      case True
      then have "es' = []" using pump_end [OF assms(1) a(1,2)] by blast
      then show ?thesis using a(3,4) True end_speech by fastforce
    next
      case False
      then show ?thesis using a(3,4) by auto
    qed
  qed
qed

lemma recv_speech:
  assumes "speech_ok c before all ds old gs es p (d @ tc)"
  shows "\<exists>e q. https_recv_cb lib now (Some d) ERR_OK p = Some (e, q) \<and>
    speech_ok c before all ds old gs es q (if e = ERR_OK then tc else d @ tc)"
proof -
  obtain inp where f: "all = inp @ d @ tc" "feeds c before inp (packets_text gs) p" and sp: "speaking p"
    using assms by (auto simp: speech_ok_def)
  obtain e q where q: "https_recv_cb lib now (Some d) ERR_OK p = Some (e, q)"
      "feeds c before (if e = ERR_OK then inp @ d else inp) (packets_text gs) q"
    using feeds_recv [OF f(2)] by blast
  have "same_call p q" using same_call_recv [OF q(1) sp] f(2) by (simp add: feeds_def streaming_def)
  then have "speech_ok c before all ds old gs es q (if e = ERR_OK then tc else d @ tc)"
    using assms f(1) q(2) same_call_speaking [OF _ sp] by (auto simp: speech_ok_def same_call_def split: if_splits)
  then show ?thesis using q(1) by blast
qed

lemma speech_step_ok:
  assumes "speech_step lib s s'" "reply_of c before all ds" "speech_ok c before all ds old gs es (fst s) (snd s)"
  shows "\<exists>gs' es'. speech_ok c before all ds old gs' es' (fst s') (snd s')"
  using assms(1)
proof cases
  case (arrive now d p q tc)
  then show ?thesis using recv_speech [of c before all ds old gs es p d tc lib now] assms(3) by auto
next
  case (refuse now d p q tc)
  then show ?thesis using recv_speech [of c before all ds old gs es p d tc lib now] assms(3) by auto
next
  case (pump now room p b q tc)
  then show ?thesis using pump_speech [OF assms(2), of old gs es p tc now room] assms(3) by auto
qed

text \<open>C39: While an Opus reply streams in, and whatever room the bus has: the packets sent to the other core are the packets
  of the reply, each once and in order, without the empty ones. The end is announced only behind the last one, and
  neither the pump nor the receive callback leaves the buffer.\<close>

theorem packets_reach_core0:
  assumes "streaming p0" and "speaking p0" and "g_tts_play_pos p0 = 0" and "\<not> g_core1_tts_end_sent p0"
    and "reply_of (chunk_of p0) (decoded p0) (unparsed p0 @ tc0) ds"
    and "(speech_step lib)\<^sup>*\<^sup>* (p0, tc0) (p, tc)"
  shows "\<exists>gs es. ds = gs @ es \<and> opus_sent (phone_log p) = opus_sent (phone_log p0) @ nonempty gs \<and>
    (g_core1_tts_end_sent p \<longrightarrow> es = []) \<and> (\<forall>now room. tts_forward_pump now room p \<noteq> None) \<and>
    (\<forall>now d tc'. tc = d @ tc' \<longrightarrow> https_recv_cb lib now (Some d) ERR_OK p \<noteq> None)"
proof -
  let ?c = "chunk_of p0" and ?b = "decoded p0" and ?all = "unparsed p0 @ tc0" and ?old = "opus_sent (phone_log p0)"
  have "speech_ok ?c ?b ?all ds ?old [] ds p0 tc0"
    using feeds_start [OF assms(1,3)] assms(2,4) by (simp add: speech_ok_def nonempty_def)
  moreover have "\<exists>gs es. speech_ok ?c ?b ?all ds ?old gs es (fst s') (snd s')"
    if "(speech_step lib)\<^sup>*\<^sup>* s s'" "speech_ok ?c ?b ?all ds ?old [] ds (fst s) (snd s)" for s s'
    using that
  proof (induction rule: rtranclp_induct)
    case (step y z)
    then show ?case using speech_step_ok [OF _ assms(5)] by blast
  qed blast
  ultimately obtain gs es where ok: "speech_ok ?c ?b ?all ds ?old gs es p tc"
    using assms(6) by (metis fst_conv snd_conv)
  have "tts_forward_pump now room p \<noteq> None" for now room
    using pump_speech [OF assms(5) ok, of now room] by auto
  moreover have "https_recv_cb lib now (Some d) ERR_OK p \<noteq> None" if "tc = d @ tc'" for now d tc'
    using recv_speech [OF ok [unfolded that], of lib now] by auto
  ultimately show ?thesis using ok by (auto simp: speech_ok_def)
qed

section \<open>The end of a reply\<close>

text \<open>Calls of the pump, each at its time and with the room it finds.\<close>

fun pump_calls :: "(u32 \<times> (phone_event list \<Rightarrow> u32)) list \<Rightarrow> 'd Phone \<Rightarrow> 'd Phone option" where
  "pump_calls [] p = Some p"
| "pump_calls ((now, room) # calls) p = do { (b, p) \<leftarrow> tts_forward_pump now room p; pump_calls calls p }"

definition roomy :: "bytes list \<Rightarrow> (phone_event list \<Rightarrow> u32) \<Rightarrow> bool" where
  "roomy ds room \<longleftrightarrow> (\<forall>d \<in> set ds. \<forall>log. send_need (length d) \<le> room log)"

lemma pump_progress:
  assumes "reply_of c before all ds" "speech_ok c before all ds old gs es p []" "\<not> g_core1_tts_end_sent p"
    and "ch_state (fst (chunk_run all c)) = CHUNK_DONE" "roomy ds room"
  shows "\<exists>b q gs' es'. tts_forward_pump now room p = Some (b, q) \<and> speech_ok c before all ds old gs' es' q [] \<and>
    (if es = [] then g_core1_tts_end_sent q else length es' < length es)"
proof (rule pump_parts [OF assms(1-3), of room now])
  fix p1 p2 p3 gs' es'
  assume a: "speech_ok c before all ds old gs es p1 []" "g_chunked_state p1 = CHUNK_DONE \<or> unparsed p1 = []"
    "es = gs' @ es'" "pumped gs' es' room p1 p2 p3" "speech_ok c before all ds old (gs @ gs') es' p2 []"
    "speech_ok c before all ds old (gs @ gs') es' p3 []"
    "tts_forward_pump now room p = Some (if stream_final p3 \<and> size_diff (g_chunked_write_pos p1) (g_tts_play_pos p3) < 2
      then (False, (sent_on IC_MSG_TTS_END [] p3)\<lparr>g_core1_tts_end_sent := True\<rparr>) else (True, p3))"
  obtain bs o1 where b: "all = bs @ unparsed p1" "chunk_run bs c = (chunk_of p1, o1, [])" "g_https_chunked p1"
    using a(1) by (auto simp: speech_ok_def feeds_def streaming_def)
  have "g_chunked_state p1 = CHUNK_DONE" using a(2) b(1,2) assms(4) by (auto simp: chunk_of_def)
  then have fin: "stream_final p2" "stream_final p3" using a(4) b(3) by (auto simp: stream_final_def pumped_def)
  have st: "streaming p2" using a(5) by (auto simp: speech_ok_def feeds_def)
  have pend: "drop (g_tts_play_pos p2) (decoded p2) = packets_text es'"
    using speech_pending [OF assms(1) a(5)] fin(1) by auto
  have more: "gs' \<noteq> [] \<or> es' = []"
  proof (rule ccontr)
    assume n: "\<not> ?thesis"
    then obtain d ts where d: "es' = d # ts" "gs' = []" by (cases es') auto
    have "d \<in> set ds" using a(5) d(1) by (auto simp: speech_ok_def)
    then have "\<not> room (phone_log p2) < send_need (length d)" using assms(5) by (auto simp: roomy_def not_less)
    then have "g_chunked_write_pos p2 < g_tts_play_pos p2 + length (packet_text d)"
      using a(4) d by (simp add: pumped_def pass_over_def nonempty_def TTS_FWD_MAX_FRAMES_PER_PASS_def)
    moreover have "length (packet_text d) \<le> g_chunked_write_pos p2 - g_tts_play_pos p2"
      using arg_cong [OF pend, of length] length_decoded [OF st] d(1) by simp
    moreover have "g_tts_play_pos p2 \<le> g_chunked_write_pos p2" using st by (simp add: streaming_def)
    ultimately show False by linarith
  qed
  show ?thesis
  proof (cases "es = []")
    case True
    then have e: "gs' = []" "es' = []" using a(3) by simp_all
    then have p3: "p3 = p2" using a(4) by (simp add: pumped_def)
    have "length (decoded p2) \<le> g_tts_play_pos p2" using pend e(2) by simp
    then have "g_tts_play_pos p2 = g_chunked_write_pos p2" using st length_decoded [OF st] by (simp add: streaming_def)
    then have "size_diff (g_chunked_write_pos p1) (g_tts_play_pos p3) = 0" using a(4) p3 by (simp add: pumped_def size_diff_def)
    then show ?thesis using a(6,7) True fin(2) end_speech e(2) by fastforce
  next
    case False
    have l: "length es' < length es" using more a(3) False by auto
    show ?thesis
    proof (cases "stream_final p3 \<and> size_diff (g_chunked_write_pos p1) (g_tts_play_pos p3) < 2")
      case True
      then have "es' = []" using pump_end [OF assms(1) a(4,5)] by blast
      then show ?thesis using a(6,7) True end_speech False by fastforce
    next
      case f: False
      then show ?thesis using a(6,7) l False by auto
    qed
  qed
qed

lemma pump_calls_ended: "g_core1_tts_end_sent p \<Longrightarrow> pump_calls calls p = Some p"
  by (induction calls) (auto simp: tts_forward_pump_def)

lemma pump_calls_end:
  assumes "reply_of c before all ds" "speech_ok c before all ds old gs es p []"
    and "ch_state (fst (chunk_run all c)) = CHUNK_DONE" "\<forall>(now, room) \<in> set calls. roomy ds room" "length es < length calls"
  shows "\<exists>q. pump_calls calls p = Some q \<and> g_core1_tts_end_sent q \<and> opus_sent (phone_log q) = old @ nonempty ds"
  using assms(2,4,5)
proof (induction calls arbitrary: p gs es)
  case (Cons x calls)
  obtain now room where x: "x = (now, room)" by (cases x)
  show ?case
  proof (cases "g_core1_tts_end_sent p")
    case True
    then show ?thesis using Cons.prems(1) pump_calls_ended [OF True, of "x # calls"] by (auto simp: speech_ok_def)
  next
    case False
    obtain b q gs' es' where q: "tts_forward_pump now room p = Some (b, q)" "speech_ok c before all ds old gs' es' q []"
        "if es = [] then g_core1_tts_end_sent q else length es' < length es"
      using pump_progress [OF assms(1) Cons.prems(1) False assms(3), of room now] Cons.prems(2) x by auto
    show ?thesis
    proof (cases "g_core1_tts_end_sent q")
      case True
      then show ?thesis using q(1,2) x pump_calls_ended [OF True, of calls] by (auto simp: speech_ok_def)
    next
      case f: False
      then have "length es' < length calls" using q(3) Cons.prems(3) by (auto split: if_splits)
      then show ?thesis using Cons.IH [OF q(2)] Cons.prems(2) q(1) x by auto
    qed
  qed
qed simp


section \<open>A reply of two packets\<close>

text \<open>One chunk of six bytes, with a packet of two bytes and an empty one, and the last chunk.\<close>

definition two_packet_reply :: "unit Phone" where
  "two_packet_reply = three_byte_reply\<lparr>
     g_https_resp := [54, 13, 10, 0, 2, 7, 8, 0, 0, 13, 10, 48, 13, 10] @ replicate (RESP_BUF_SIZE - 14) 0,
     g_https_resp_len := 14, g_https_body_start := 0, g_chunked_read_pos := 0, g_chunked_write_pos := 0,
     g_chunked_state := CHUNK_NEED_SIZE, g_chunked_remaining := 0\<rparr>"

lemma two_packet_reply_ok:
  "streaming two_packet_reply" "speaking two_packet_reply" "g_tts_play_pos two_packet_reply = 0"
  "\<not> g_core1_tts_end_sent two_packet_reply" "phone_log two_packet_reply = []" "decoded two_packet_reply = []"
  "unparsed two_packet_reply = [54, 13, 10, 0, 2, 7, 8, 0, 0, 13, 10, 48, 13, 10]"
  "chunk_of two_packet_reply = \<lparr>ch_state = CHUNK_NEED_SIZE, ch_acc = 0, ch_rem = 0, ch_ext = False\<rparr>"
  by (simp_all add: two_packet_reply_def three_byte_reply_def streaming_def http_ok_def RESP_BUF_SIZE_def resp_have_def
      unparsed_def decoded_def body_def speaking_def chunk_of_def)

lemma two_packet_reply_run:
  "chunk_run [54, 13, 10, 0, 2, 7, 8, 0, 0, 13, 10, 48, 13, 10]
     \<lparr>ch_state = CHUNK_NEED_SIZE, ch_acc = 0, ch_rem = 0, ch_ext = False\<rparr> =
   (\<lparr>ch_state = CHUNK_DONE, ch_acc = 0, ch_rem = 0, ch_ext = False\<rparr>, [0, 2, 7, 8, 0, 0], [])"
  by (simp add: chunk_byte.simps size_digit_def size_end_def data_byte_def hex_val_def)

lemma two_packet_reply_of:
  "reply_of (chunk_of two_packet_reply) (decoded two_packet_reply) (unparsed two_packet_reply) [[7, 8], []]"
  unfolding reply_of_def two_packet_reply_ok two_packet_reply_run
  by (simp add: packet_text_def packet_fits_def OPUS_STREAM_MAX_PACKET_def be16_def)

theorem packets_reach_core0_witness:
  "\<exists>b q gs es. tts_forward_pump 0 (\<lambda>_. 100) two_packet_reply = Some (b, q) \<and> [[7, 8], []] = gs @ es \<and>
     opus_sent (phone_log q) = nonempty gs \<and> (g_core1_tts_end_sent q \<longrightarrow> es = [])"
proof -
  have r: "reply_of (chunk_of two_packet_reply) (decoded two_packet_reply) (unparsed two_packet_reply @ []) [[7, 8], []]"
    using two_packet_reply_of by simp
  have "speech_ok (chunk_of two_packet_reply) (decoded two_packet_reply) (unparsed two_packet_reply @ []) [[7, 8], []]
      [] [] [[7, 8], []] two_packet_reply []"
    using feeds_start [OF two_packet_reply_ok(1,3)] two_packet_reply_ok(2,4,5) by (simp add: speech_ok_def nonempty_def)
  then obtain b q where q: "tts_forward_pump 0 (\<lambda>_. 100) two_packet_reply = Some (b, q)" using pump_speech [OF r] by blast
  have "(speech_step lib)\<^sup>*\<^sup>* (two_packet_reply, []) (q, [])" for lib
    using speech_step.pump [OF q] by (rule r_into_rtranclp)
  from packets_reach_core0 [OF two_packet_reply_ok(1-4) r this] obtain gs es where
    "[[7, 8], []] = gs @ es" "opus_sent (phone_log q) = nonempty gs" "g_core1_tts_end_sent q \<longrightarrow> es = []"
    unfolding two_packet_reply_ok(5) opus_sent_simps append_Nil by blast
  then show ?thesis using q by blast
qed


end
