(* ===== verification/Spec2Isabelle.thy ===== *)
theory Spec2Isabelle
  imports Agent_Handshake Peer_Sdp Peer_Library Signaling_Machine Phone_Credentials Phone_Player
begin

text \<open>
  libpeer is a WebRTC peer in C for small devices: \<^verbatim>\<open>src/src\<close> of the repository. This library models all
  of its files, and the core of the telephone among the examples, and proves what makes them correct; where the code does not do what it means to do, the
  theorem says what it does instead. This theory imports the whole development and holds this
  description.

  The program and its parts.

  \<^item> A peer connection (\<^verbatim>\<open>peer_connection.c\<close>) owns everything else. An application creates it, makes an offer
    or an answer, hands in the description of the other side, and then calls \<open>peer_connection_loop\<close>
    again and again; the library has no threads and no timers of its own.
    Each call of the loop does one thing according to the state of the connection: check candidate pairs, perform
    the DTLS handshake, or, once completed, receive one datagram and hand it to RTCP, SRTP or DTLS.
  \<^item> The ICE agent (\<^verbatim>\<open>agent.c\<close>, with \<^verbatim>\<open>ice.c\<close>, \<^verbatim>\<open>stun.c\<close>, \<^verbatim>\<open>mdns.c\<close>, \<^verbatim>\<open>address.c\<close>) finds an address
    pair that works: it gathers candidates, exchanges STUN binding requests and answers those of the peer.
  \<^item> DTLS-SRTP (\<^verbatim>\<open>dtls_srtp.c\<close>) performs the handshake over the agent's datagrams, checks the certificate of the
    peer against the fingerprint of the description and derives the keys of the media.
  \<^item> RTP (\<^verbatim>\<open>rtp.c\<close>, \<^verbatim>\<open>rtcp.c\<close>) packs and unpacks the media: H.264, AV1 with a reorder window, and the
    audio codecs; a picture loss comes back as an RTCP packet.
  \<^item> SCTP (\<^verbatim>\<open>sctp.c\<close>) carries the data channels inside DTLS, with the library usrsctp or with the small stack
    the file has itself.
  \<^item> The description (\<^verbatim>\<open>sdp.c\<close>, \<^verbatim>\<open>peer_connection.c\<close>) tells the other side candidates, credentials, fingerprint and
    sources. It travels over the signaling (\<^verbatim>\<open>peer_signaling.c\<close>), an MQTT or HTTP client on top of
    \<^verbatim>\<open>ssl_transport.c\<close> or \<^verbatim>\<open>tcp_transport.c\<close>, with \<^verbatim>\<open>base64.c\<close> for the credentials.
  \<^item> \<^verbatim>\<open>socket.c\<close> and \<^verbatim>\<open>ports.c\<close> are the platform: POSIX, and lwIP on a bare RP2040. \<^verbatim>\<open>peer.c\<close>
    and \<^verbatim>\<open>utils.c\<close> initialise the libraries and wrap the digests.

  \<^item> The telephone (\<^verbatim>\<open>src/examples/ito-denwa\<close>) is a program of its own for a board with two cores. Core 1 has
    the network: it asks a server for speech over HTTPS (\<^verbatim>\<open>http.c\<close>, \<^verbatim>\<open>tts.c\<close>, with the messages to speak in
    \<^verbatim>\<open>queue.c\<close>) and hands the reply to core 0, which decodes and plays it (\<^verbatim>\<open>opus_stream.c\<close>). The cores talk
    over two rings in shared memory (\<^verbatim>\<open>ic_ring.c\<close>). What the device was told at its set-up is kept in
    flash (\<^verbatim>\<open>credentials.c\<close>).

  Conventions of the model (theories \<^theory_text>\<open>Peer_Prelude\<close>, \<^theory_text>\<open>C_Text\<close>).

  \<^item> Integers are words of the declared width, so that they wrap around as in C; \<^verbatim>\<open>size_t\<close> and counters that
    stay small are natural numbers; return codes are \<^typ>\<open>int\<close>. A struct is a record with the fields and
    the order of the source, an enum a datatype, a function pointer a constructor of a datatype of the functions it
    can point to.
  \<^item> An array is the list of its bytes, a pointer into it an index. \<open>mem_read\<close> and \<open>mem_write\<close> have the
    value \<^const>\<open>None\<close> outside the array: an operation with the value \<^const>\<open>None\<close> is one with undefined behaviour, or a
    loop without an end where the theory says so. The error codes of the source are ordinary values
    under \<^const>\<open>Some\<close>. So \<open>f x = Some y\<close> says that \<open>f\<close> returns and leaves no buffer, and the theorems state results
    in this form, never under the condition that there is one.
  \<^item> State is passed explicitly and in the order of the source. What a call does to the outside (packets sent,
    functions of the application called) is a list, in order.
  \<^item> Code outside \<^verbatim>\<open>src\<close> is a parameter: the operating system (record \<open>Os\<close> of theory \<^theory_text>\<open>Socket\<close>, acting on a
    state of any type), lwIP, the digests \<open>hmac\<close> and \<open>md5\<close>, mbedTLS and libsrtp (records \<open>Tls\<close> and
    the library of theory \<^theory_text>\<open>Transport\<close>), usrsctp, coreMQTT, coreHTTP and cJSON (record \<open>SigEnv\<close>), IPv6 text
    conversion. A theorem that needs something of them names it as a hypothesis, and its witness gives an instance.

  From the code to the theories.

  \<^item> \<^theory_text>\<open>Address\<close>: \<^verbatim>\<open>address.c\<close>. \<^theory_text>\<open>Socket\<close>: \<^verbatim>\<open>socket.c\<close> under POSIX, \<^verbatim>\<open>ports.c\<close>. \<^theory_text>\<open>Socket_Rp2040\<close>: \<^verbatim>\<open>socket.c\<close>
    under lwIP. \<^theory_text>\<open>Mdns\<close>: \<^verbatim>\<open>mdns.c\<close>. \<^theory_text>\<open>Base64\<close>: \<^verbatim>\<open>base64.c\<close>. \<^theory_text>\<open>Peer_Library\<close>: \<^verbatim>\<open>peer.c\<close>,
    the digests of \<^verbatim>\<open>utils.c\<close>, \<open>ports_get_host_addr\<close> under lwIP.
  \<^item> \<^theory_text>\<open>Checksum\<close>: both CRC tables and loops. \<^theory_text>\<open>Stun\<close>: \<^verbatim>\<open>stun.c\<close>. \<^theory_text>\<open>Ice\<close>: \<^verbatim>\<open>ice.c\<close>. \<^theory_text>\<open>Agent\<close>:
    \<^verbatim>\<open>agent.c\<close>, \<open>utils_random_string\<close>. \<^theory_text>\<open>Agent_Checks\<close>, \<^theory_text>\<open>Agent_Handshake\<close>: what the agent achieves, alone and with
    another one.
  \<^item> \<^theory_text>\<open>Rtp\<close>, \<^theory_text>\<open>Rtp_H264\<close>, \<^theory_text>\<open>Rtp_Av1\<close>, \<^theory_text>\<open>Rtp_Reorder\<close>, \<^theory_text>\<open>Rtp_Codec\<close>: \<^verbatim>\<open>rtp.c\<close> by payload format,
    then the encoder and decoder objects. \<^theory_text>\<open>Rtcp\<close>: \<^verbatim>\<open>rtcp.c\<close>.
  \<^item> \<^theory_text>\<open>Dtls_Srtp\<close>: \<^verbatim>\<open>dtls_srtp.c\<close>. \<^theory_text>\<open>Sctp\<close>: the built-in stack of \<^verbatim>\<open>sctp.c\<close>, \<^theory_text>\<open>Sctp_Assoc\<close> and \<^theory_text>\<open>Sctp_Data\<close> what
    two of them do together; \<^theory_text>\<open>Sctp_Usr\<close>: the glue around usrsctp. \<^theory_text>\<open>Sdp\<close>: \<^verbatim>\<open>sdp.c\<close>.
  \<^item> \<^theory_text>\<open>Peer_Connection\<close> (the object, media, the loop) and \<^theory_text>\<open>Peer_Session\<close> (creation, descriptions, candidates, data
    channels): \<^verbatim>\<open>peer_connection.c\<close>. \<^theory_text>\<open>Peer_Machine\<close>, \<^theory_text>\<open>Peer_Safety\<close>, \<^theory_text>\<open>Peer_Sdp\<close>: its properties.
  \<^item> \<^theory_text>\<open>Transport\<close>: \<^verbatim>\<open>ssl_transport.c\<close>, \<^verbatim>\<open>tcp_transport.c\<close>. \<^theory_text>\<open>Signaling_Text\<close>, \<^theory_text>\<open>Signaling\<close>:
    \<^verbatim>\<open>peer_signaling.c\<close>. \<^theory_text>\<open>Signaling_Machine\<close>: its properties.

  \<^item> The telephone. \<^theory_text>\<open>Phone_Ring\<close>: \<^verbatim>\<open>ic_ring.c\<close>, with the steps of both cores interleaved.
    \<^theory_text>\<open>Phone_Credentials\<close>: \<^verbatim>\<open>credentials.c\<close>. \<^theory_text>\<open>Phone_Queue\<close>: \<^verbatim>\<open>queue.c\<close>, \<^verbatim>\<open>opus_stream.c\<close>.
    \<^theory_text>\<open>Phone_Http\<close>: the receiving half of \<^verbatim>\<open>http.c\<close>; \<^theory_text>\<open>Phone_Stream\<close>: what its buffer holds.

  Definitions have the names of the source.

  What the theorems show.

  \<^item> Safety of a connection: it is completed only with a peer that owns the announced certificate
    (\<open>completed_is_authenticated\<close>), it hands out only media that libsrtp accepted (\<open>media_is_authenticated\<close>), and
    the states it reports follow the graph of legal transitions, with or without signaling
    (\<open>reported_states_path\<close>, \<open>signaling_states\<close>). The calls of an application are the step relations
    \<open>peer_call\<close> and \<open>sig_call\<close>, and the invariants are shown by rule induction.
  \<^item> Ends that agree: H.264 and AV1 streams, SCTP messages, the SCTP set-up, the binding exchange of ICE, the two
    sides of DTLS-SRTP, the description, addresses, candidates, Base64, tokens and URLs. Each theorem
    composes the operation of one side with that of the other.
  \<^item> Reference definitions: the CRC tables against the polynomial division, the fragments of a message against
    \<open>sctp_outgoing_data\<close>, the reorder window against arrival in order, the ring of the RP2040 against a bounded queue,
    and the description against the list of its lines.
  \<^item> The telephone: the bus delivers in order whatever the interleaving (\<open>bus_delivers\<close>), although two cores that
    only send can block each other for ever (\<open>two_senders_wait\<close>); the queue is a bounded queue; stored credentials
    come back and damaged ones do not; the chunked decoder that works in place is an automaton over the bytes
    received, wherever the network cuts them (\<open>stream_reaches_player\<close>).
  \<^item> Ends of loops: see below. Bounds: packets fit \<open>CONFIG_MTU\<close>, messages their 256 bytes, priorities 32 bits.
  \<^item> Failures: where input of the network or of the server leaves a buffer or follows a null pointer, the model has
    the value \<^const>\<open>None\<close>, and a theorem says for which input
    (\<open>agent_recv_overrun\<close>, \<open>rtp_decode_h264_overrun\<close>, \<open>request_without_method\<close>).

  The interfaces.

  \<^item> \<open>crc_table\<close> (what a table holds for its polynomial), interpreted for both tables; \<open>rtp_packetizer\<close>
    (a frame becomes packets that continue the stream) and \<open>media_channel\<close> (encoder and decoder in step),
    interpreted for the generic format, H.264 and AV1; \<open>bounded_queue\<close>, interpreted for the ring of datagrams and
    for the messages to speak;
    \<open>sctp_stack\<close> (every operation keeps the object well formed), interpreted for usrsctp and for the built-in stack.

  Loops, bounds and fuel.

  \<^item> Most loops are structural or have a measure: bytes left, attempts left, time left.
  \<^item> \<open>sctp_chunks\<close> has fuel, because the loop of the code does not end on a chunk of length 0. \<open>sctp_chunk_loop_ends\<close>
    shows that as many rounds as the packet has bytes are enough otherwise, and that no number is enough then. The
    peer connection uses that many.
  \<^item> \<open>av1_packets\<close> has fuel too, the number of bytes of its elements (\<open>enc_rounds\<close>), as every packet takes one at least;
    \<open>av1_encode_sent_ok\<close> shows that it is enough for every frame that splits into elements.
  \<^item> The handshake, read and write loops of DTLS and of the TLS transport try again for as long as mbedTLS
    asks for it. They are partial functions, with the value \<^const>\<open>None\<close> if they never return;
    \<open>ssl_connect_returns\<close> shows when they do. \<open>ssl_transport_send\<close> stops after five attempts, the checks of a pair after
    1000 polls (\<open>checks_end\<close>), mDNS after three questions with five answers each.

  Not modelled, and why.

  \<^item> \<open>dtls_srtp_selfsign_cert\<close> only configures mbedTLS; the certificate it ends with is a field of
    the parameter. The declarations of \<^verbatim>\<open>config.h\<close> are taken in the default configuration: no IPv6 candidates,
    no interface prefix, \<^verbatim>\<open>ICE_LITE\<close> 0, mbedTLS 3. The RP2040 variant of the signaling, which leaves MQTT out, has no
    model of its own.
  \<^item> Failing allocations of cJSON, the log, \<open>ports_sleep_ms\<close>, and interleavings with other threads.
  \<^item> The other parts of \<^verbatim>\<open>src/examples\<close> and \<^verbatim>\<open>src/upm\<close> are applications and bindings on top of the library, with
    drivers of their boards, and of the telephone the display, buttons, radio, audio hardware and main loops; \<^verbatim>\<open>src/tests\<close> exercises the functions modelled here; the build files and the git submodules
    are not part of the program.
\<close>

end
